(* ===== verification/Prelude.thy ===== *)
theory Prelude
  imports Main "HOL-Library.Code_Target_Nat" "HOL-Library.Code_Target_Int"
begin

text \<open>
  What every component shares: results of fallible code as sums, a bounded search over lists,
  and the lemma collections the component proofs extend. A Python \<open>raise\<close> is the left
  injection of a sum, a normal return the right one.
\<close>

named_theorems journal_simps \<open>equations of the broker's journal operations\<close>
named_theorems admission_simps \<open>equations of the admission journal operations\<close>
named_theorems text_simps \<open>equations of the text scanners\<close>

subsection \<open>Results\<close>

definition rbind :: "'e + 'a \<Rightarrow> ('a \<Rightarrow> 'e + 'b) \<Rightarrow> 'e + 'b" where
  "rbind r f = (case r of Inl e \<Rightarrow> Inl e | Inr x \<Rightarrow> f x)"

definition guard_r :: "bool \<Rightarrow> 'e \<Rightarrow> ('e + 'a) \<Rightarrow> 'e + 'a" where
  "guard_r b e k = (if b then k else Inl e)"

lemma rbind_simps [simp]:
  "rbind (Inl e) f = Inl e"
  "rbind (Inr x) f = f x"
  by (simp_all add: rbind_def)

lemma rbind_Inr_iff: "rbind r f = Inr y \<longleftrightarrow> (\<exists>x. r = Inr x \<and> f x = Inr y)"
  by (cases r) auto

lemma rbind_Inl_iff:
  "rbind r f = Inl e \<longleftrightarrow> r = Inl e \<or> (\<exists>x. r = Inr x \<and> f x = Inl e)"
  by (cases r) auto

lemma guard_r_Inr_iff: "guard_r b e k = Inr y \<longleftrightarrow> b \<and> k = Inr y"
  by (simp add: guard_r_def)

lemma guard_r_Inl_iff: "guard_r b e k = Inl d \<longleftrightarrow> (\<not> b \<and> d = e) \<or> (b \<and> k = Inl d)"
  by (auto simp: guard_r_def)

fun is_error :: "'e + 'a \<Rightarrow> bool" where
  "is_error (Inl _) = True"
| "is_error (Inr _) = False"

text \<open>Mapping a fallible function over a list; the first error wins, as in a Python loop.\<close>

fun traverse :: "('a \<Rightarrow> 'e + 'b) \<Rightarrow> 'a list \<Rightarrow> 'e + 'b list" where
  "traverse f [] = Inr []"
| "traverse f (x # xs) = rbind (f x) (\<lambda>y. rbind (traverse f xs) (\<lambda>ys. Inr (y # ys)))"

lemma traverse_all_Inr: "(\<And>x. x \<in> set xs \<Longrightarrow> f x = Inr (g x)) \<Longrightarrow> traverse f xs = Inr (map g xs)"
  by (induction xs) auto

lemma traverse_Inr_length: "traverse f xs = Inr ys \<Longrightarrow> length ys = length xs"
  by (induction xs arbitrary: ys) (auto simp: rbind_Inr_iff)

subsection \<open>Lists\<close>

text \<open>\<open>next((x for x in xs if p(x)), None)\<close> with the position it was found at.\<close>

fun find_index :: "('a \<Rightarrow> bool) \<Rightarrow> 'a list \<Rightarrow> nat option" where
  "find_index p [] = None"
| "find_index p (x # xs) = (if p x then Some 0 else map_option Suc (find_index p xs))"

lemma find_index_None: "find_index p xs = None \<longleftrightarrow> (\<forall>x \<in> set xs. \<not> p x)"
  by (induction xs) auto

lemma find_index_Some:
  "find_index p xs = Some i \<Longrightarrow> i < length xs \<and> p (xs ! i) \<and> (\<forall>j < i. \<not> p (xs ! j))"
proof (induction xs arbitrary: i)
  case (Cons x xs)
  show ?case
  proof (cases "p x")
    case True
    with Cons.prems show ?thesis by auto
  next
    case False
    with Cons.prems obtain k where k: "find_index p xs = Some k" and i: "i = Suc k" by auto
    from Cons.IH [OF k] False i show ?thesis by (auto simp: less_Suc_eq_0_disj)
  qed
qed simp

lemma find_eq_find_index:
  "find p xs = (case find_index p xs of None \<Rightarrow> None | Some i \<Rightarrow> Some (xs ! i))"
  by (induction xs) (auto split: option.splits)

text \<open>The position of the first equal element, as \<open>list.index\<close> finds it.\<close>

definition list_index :: "'a list \<Rightarrow> 'a \<Rightarrow> nat option" where
  "list_index xs x = find_index (\<lambda>y. y = x) xs"

lemma list_index_first:
  assumes "i < length xs" and "xs ! i = x" and "\<And>j. j < i \<Longrightarrow> xs ! j \<noteq> x"
  shows "list_index xs x = Some i"
  using assms unfolding list_index_def
proof (induction xs arbitrary: i)
  case (Cons y ys)
  show ?case
  proof (cases i)
    case 0
    with Cons.prems show ?thesis by simp
  next
    case (Suc k)
    from Cons.prems(3) [of 0] Suc have "y \<noteq> x" by auto
    moreover have "find_index (\<lambda>y. y = x) ys = Some k"
    proof (rule Cons.IH)
      show "k < length ys" and "ys ! k = x" using Cons.prems(1,2) Suc by simp_all
      show "ys ! j \<noteq> x" if "j < k" for j using Cons.prems(3) [of "Suc j"] Suc that by simp
    qed
    ultimately show ?thesis using Suc by simp
  qed
qed simp

text \<open>Python's \<open>max(xs, default=d)\<close> and \<open>min(xs, key=k)\<close> (the first minimal element).\<close>

definition max_default :: "'a::linorder \<Rightarrow> 'a list \<Rightarrow> 'a" where
  "max_default d xs = (case xs of [] \<Rightarrow> d | y # ys \<Rightarrow> foldl max y ys)"

lemma foldl_max_ge: "(y::'a::linorder) \<le> foldl max y ys \<and> (\<forall>z \<in> set ys. z \<le> foldl max y ys)"
proof (induction ys arbitrary: y)
  case (Cons z zs)
  from Cons.IH [of "max y z"] show ?case by auto
qed simp

lemma foldl_max_in: "foldl max (y::'a::linorder) ys \<in> insert y (set ys)"
proof (induction ys arbitrary: y)
  case (Cons z zs)
  from Cons.IH [of "max y z"] show ?case by (auto simp: max_def split: if_splits)
qed simp

lemma max_default_ge: "z \<in> set xs \<Longrightarrow> z \<le> max_default d xs"
  using foldl_max_ge by (cases xs) (auto simp: max_default_def)

lemma max_default_in: "xs \<noteq> [] \<Longrightarrow> max_default d xs \<in> set xs"
  using foldl_max_in by (cases xs) (auto simp: max_default_def)

fun min_by :: "('a \<Rightarrow> 'b::linorder) \<Rightarrow> 'a list \<Rightarrow> 'a option" where
  "min_by k [] = None"
| "min_by k (x # xs) =
     (case min_by k xs of None \<Rightarrow> Some x | Some y \<Rightarrow> Some (if k y < k x then y else x))"

lemma min_by_None [simp]: "min_by k xs = None \<longleftrightarrow> xs = []"
  by (cases xs) (auto split: option.splits)

lemma min_by_Some: "min_by k xs = Some x \<Longrightarrow> x \<in> set xs \<and> (\<forall>y \<in> set xs. k x \<le> k y)"
  by (induction xs arbitrary: x) (force split: option.splits if_splits)+

lemma min_by_sorted:
  "sorted (map k xs) \<Longrightarrow> xs \<noteq> [] \<Longrightarrow> min_by k xs = Some (hd xs)"
proof (induction xs)
  case (Cons x xs)
  show ?case
  proof (cases "min_by k xs")
    case None
    then show ?thesis by simp
  next
    case (Some y)
    from min_by_Some [OF Some] Cons.prems have "k x \<le> k y" by auto
    with Some show ?thesis by (simp add: leD)
  qed
qed simp

lemma length_filter_less:
  "x \<in> set xs \<Longrightarrow> \<not> p x \<Longrightarrow> length (filter p xs) < length xs"
  by (induction xs) (auto simp: less_Suc_eq_le)

lemma sorted_map_filter: "sorted (map f xs) \<Longrightarrow> sorted (map f (filter p xs))"
  by (rule sorted_filter)

lemma distinct_map_filter': "distinct (map f xs) \<Longrightarrow> distinct (map f (filter p xs))"
  by (rule distinct_map_filter)

end
