(* ===== verification/Py_Text.thy ===== *)
theory Py_Text
  imports Prelude
begin

text \<open>
  The parts of Python's \<open>str\<close> and \<open>re\<close> that the program uses. A Python string is a
  \<^typ>\<open>string\<close> whose characters stand for the code points below 256, so that the
  character classes (\<open>isspace\<close>, \<open>\s\<close>, \<open>\w\<close>, line boundaries) are exact on them:
  the tables below are those of CPython restricted to these code points. Each regular
  expression of the source is a function of its own that reads the same prefix.
\<close>

subsection \<open>Character classes\<close>

definition code :: "char \<Rightarrow> nat" where
  "code c = of_char c"

definition is_space :: "char \<Rightarrow> bool" where
  "is_space c = (let n = code c in (9 \<le> n \<and> n \<le> 13) \<or> (28 \<le> n \<and> n \<le> 32) \<or> n = 133 \<or> n = 160)"

definition is_eol :: "char \<Rightarrow> bool" where
  "is_eol c = (let n = code c in (10 \<le> n \<and> n \<le> 13) \<or> (28 \<le> n \<and> n \<le> 30) \<or> n = 133)"

definition is_alpha :: "char \<Rightarrow> bool" where
  "is_alpha c = (let n = code c in (65 \<le> n \<and> n \<le> 90) \<or> (97 \<le> n \<and> n \<le> 122) \<or> n = 170 \<or> n = 181
     \<or> n = 186 \<or> (192 \<le> n \<and> n \<le> 214) \<or> (216 \<le> n \<and> n \<le> 246) \<or> (248 \<le> n \<and> n \<le> 255))"

definition is_digit :: "char \<Rightarrow> bool" where
  "is_digit c = (let n = code c in 48 \<le> n \<and> n \<le> 57)"

definition is_alnum :: "char \<Rightarrow> bool" where
  "is_alnum c = (is_alpha c \<or> is_digit c \<or>
     (let n = code c in n = 178 \<or> n = 179 \<or> n = 185 \<or> (188 \<le> n \<and> n \<le> 190)))"

definition is_word :: "char \<Rightarrow> bool" where
  "is_word c = (is_alnum c \<or> c = CHR ''_'')"

abbreviation CR :: char where "CR \<equiv> CHR 0x0D"
abbreviation LF :: char where "LF \<equiv> CHR 0x0A"
abbreviation TICK :: char where "TICK \<equiv> CHR 0x60"
abbreviation QUOTE :: char where "QUOTE \<equiv> CHR 0x27"

lemmas char_class_defs = code_def is_space_def is_eol_def is_alpha_def is_digit_def is_alnum_def is_word_def

lemma eol_is_space: "is_eol c \<Longrightarrow> is_space c"
  by (auto simp: is_eol_def is_space_def Let_def)

lemma is_eol_CR [simp]: "is_eol CR" and is_eol_LF [simp]: "is_eol LF"
  by (simp_all add: is_eol_def code_def)

subsection \<open>Lines\<close>

text \<open>\<open>str.splitlines(keepends=True)\<close>: a carriage return followed by a line feed is one boundary.\<close>

fun splitlines_keep :: "string \<Rightarrow> string list" where
  "splitlines_keep [] = []"
| "splitlines_keep (c # cs) =
     (if is_eol c then
        (if c = CR \<and> take 1 cs = [LF] then [c, LF] # splitlines_keep (tl cs)
         else [c] # splitlines_keep cs)
      else (case splitlines_keep cs of [] \<Rightarrow> [[c]] | l # ls \<Rightarrow> (c # l) # ls))"

text \<open>Dropping the boundary of one line, as \<open>splitlines()\<close> does.\<close>

definition chop_eol :: "string \<Rightarrow> string" where
  "chop_eol l =
     (case rev l of
        [] \<Rightarrow> []
      | c # cs \<Rightarrow>
          if is_eol c then (case cs of d # ds \<Rightarrow> if c = LF \<and> d = CR then rev ds else rev cs | [] \<Rightarrow> [])
          else l)"

definition splitlines :: "string \<Rightarrow> string list" where
  "splitlines t = map chop_eol (splitlines_keep t)"

lemma take_1_hd [simp]: "take (Suc 0) cs = [x] \<Longrightarrow> x # tl cs = cs"
  by (cases cs) auto

lemma concat_splitlines_keep [simp]: "concat (splitlines_keep t) = t"
proof (induction t rule: splitlines_keep.induct)
  case (2 c cs)
  then show ?case
    by (auto split: list.splits)
qed simp

lemma splitlines_keep_nonempty: "l \<in> set (splitlines_keep t) \<Longrightarrow> l \<noteq> []"
  by (induction t arbitrary: l rule: splitlines_keep.induct) (auto split: list.splits if_splits)

lemma splitlines_keep_eq_Nil [simp]: "splitlines_keep t = [] \<longleftrightarrow> t = []"
  by (cases t) (auto split: list.splits)

lemma splitlines_keep_length: "length (splitlines_keep t) \<le> length t"
  by (induction t rule: splitlines_keep.induct) (auto split: list.splits)

text \<open>A body without boundaries, then a boundary, then the rest.\<close>

lemma splitlines_keep_LF:
  "(\<forall>c \<in> set b. \<not> is_eol c) \<Longrightarrow> splitlines_keep (b @ LF # t) = (b @ [LF]) # splitlines_keep t"
  by (induction b) (auto split: list.splits)

lemma splitlines_keep_CRLF:
  "(\<forall>c \<in> set b. \<not> is_eol c) \<Longrightarrow> splitlines_keep (b @ CR # LF # t) = (b @ [CR, LF]) # splitlines_keep t"
  by (induction b) (auto split: list.splits)

lemma splitlines_keep_Nil_body:
  "(\<forall>c \<in> set b. \<not> is_eol c) \<Longrightarrow> splitlines_keep b = (if b = [] then [] else [b])"
  by (induction b) auto

text \<open>
  Cutting a text at the start of one of its lines cuts the list of lines there: what the
  insertion of a section before a line relies on.
\<close>

lemma splitlines_keep_take_drop:
  "splitlines_keep (concat (drop n (splitlines_keep t))) = drop n (splitlines_keep t)"
proof (induction t arbitrary: n rule: splitlines_keep.induct)
  case 1
  then show ?case by simp
next
  case (2 c cs)
  show ?case
  proof (cases n)
    case 0
    then show ?thesis by (simp only: drop_0 concat_splitlines_keep)
  next
    case (Suc m)
    show ?thesis
    proof (cases "is_eol c")
      case True
      then show ?thesis using 2(1,2) Suc by auto
    next
      case False
      have "drop n (splitlines_keep (c # cs)) = drop n (splitlines_keep cs)"
        using False Suc by (auto split: list.splits)
      moreover have "splitlines_keep (concat (drop n (splitlines_keep cs))) = drop n (splitlines_keep cs)"
        using False by (rule 2(3))
      ultimately show ?thesis by simp
    qed
  qed
qed

lemma splitlines_keep_append:
  assumes "a \<noteq> []" and "is_eol (last a)" and "take 1 b \<noteq> [LF]"
  shows "splitlines_keep (a @ b) = splitlines_keep a @ splitlines_keep b"
  using assms(1,2)
proof (induction a rule: splitlines_keep.induct)
  case (2 c cs)
  show ?case
  proof (cases "is_eol c")
    case eol: True
    show ?thesis
    proof (cases "c = CR \<and> take 1 cs = [LF]")
      case True
      then obtain ds where cs: "cs = LF # ds" by (cases cs) auto
      show ?thesis
      proof (cases "ds = []")
        case True
        then show ?thesis using eol cs \<open>c = CR \<and> _\<close> by simp
      next
        case False
        with 2(1) [OF eol True] cs 2(5) show ?thesis using eol True by simp
      qed
    next
      case False
      show ?thesis
      proof (cases "cs = []")
        case True
        with eol False assms(3) show ?thesis by auto
      next
        case ne: False
        then have "take 1 (cs @ b) = take 1 cs" by (cases cs) auto
        with 2(2) [OF eol False ne] 2(5) ne eol False show ?thesis by auto
      qed
    qed
  next
    case False
    with 2(5) have "cs \<noteq> []" by auto
    moreover from this 2(5) have "is_eol (last cs)" by simp
    ultimately show ?thesis using 2(3) [OF False] False
      by (auto split: list.splits)
  qed
qed simp

text \<open>A line with its boundary, taken apart.\<close>

definition eol_mark :: "string \<Rightarrow> bool" where
  "eol_mark e \<longleftrightarrow> e = [] \<or> (\<exists>c. e = [c] \<and> is_eol c) \<or> e = [CR, LF]"

definition no_eol :: "string \<Rightarrow> bool" where
  "no_eol b \<longleftrightarrow> (\<forall>c \<in> set b. \<not> is_eol c)"

lemma eol_mark_simps [simp]: "eol_mark []" "eol_mark [LF]" "eol_mark [CR, LF]"
  by (simp_all add: eol_mark_def)

lemma eol_mark_all: "eol_mark e \<Longrightarrow> c \<in> set e \<Longrightarrow> is_eol c"
  by (auto simp: eol_mark_def)

lemma no_eol_simps [simp]:
  "no_eol []" "no_eol (c # b) \<longleftrightarrow> \<not> is_eol c \<and> no_eol b" "no_eol (a @ b) \<longleftrightarrow> no_eol a \<and> no_eol b"
  by (auto simp: no_eol_def)

lemma splitlines_keep_line:
  "l \<in> set (splitlines_keep t) \<Longrightarrow> \<exists>b e. l = b @ e \<and> no_eol b \<and> eol_mark e"
proof (induction t arbitrary: l rule: splitlines_keep.induct)
  case IH: (2 c cs)
  show ?case
  proof (cases "is_eol c")
    case True
    with IH(4) consider "l = [CR, LF]" | "l = [c]" | "c = CR" "take 1 cs = [LF]" "l \<in> set (splitlines_keep (tl cs))"
      | "\<not> (c = CR \<and> take 1 cs = [LF])" "l \<in> set (splitlines_keep cs)"
      by (auto split: if_splits)
    then show ?thesis
    proof cases
      case 1
      then have "l = [] @ [CR, LF] \<and> no_eol [] \<and> eol_mark [CR, LF]" by simp
      then show ?thesis by blast
    next
      case 2
      with True have "l = [] @ [c] \<and> no_eol [] \<and> eol_mark [c]" by (simp add: eol_mark_def)
      then show ?thesis by blast
    next
      case 3
      with IH(1) True show ?thesis by blast
    next
      case 4
      with IH(2) True show ?thesis by blast
    qed
  next
    case False
    show ?thesis
    proof (cases "splitlines_keep cs")
      case Nil
      with False IH(4) have "l = [c] @ [] \<and> no_eol [c] \<and> eol_mark []" by simp
      then show ?thesis by blast
    next
      case (Cons k ks)
      with False IH(4) consider "l = c # k" | "l \<in> set (splitlines_keep cs)" by auto
      then show ?thesis
      proof cases
        case 1
        from IH(3) [OF False, of k] Cons obtain b e where "k = b @ e \<and> no_eol b \<and> eol_mark e" by auto
        with 1 False have "l = (c # b) @ e \<and> no_eol (c # b) \<and> eol_mark e" by simp
        then show ?thesis by blast
      next
        case 2
        with IH(3) [OF False] show ?thesis by blast
      qed
    qed
  qed
qed simp

lemma chop_eol_line [simp]: "no_eol b \<Longrightarrow> eol_mark e \<Longrightarrow> chop_eol (b @ e) = b"
  by (cases "rev b") (auto simp: chop_eol_def eol_mark_def no_eol_def rev_swap)

lemma chop_eol_no_eol [simp]: "no_eol b \<Longrightarrow> chop_eol b = b"
  using chop_eol_line [of b "[]"] by simp

lemma splitlines_no_eol: "l \<in> set (splitlines t) \<Longrightarrow> no_eol l"
proof -
  assume "l \<in> set (splitlines t)"
  then obtain k where "k \<in> set (splitlines_keep t)" and "l = chop_eol k"
    by (auto simp: splitlines_def)
  then show ?thesis using splitlines_keep_line [of k t] by auto
qed

lemma splitlines_keep_last_eol:
  "Suc i < length (splitlines_keep t) \<Longrightarrow> is_eol (last (splitlines_keep t ! i))"
proof (induction t arbitrary: i rule: splitlines_keep.induct)
  case (2 c cs)
  show ?case
  proof (cases "is_eol c")
    case True
    with 2 show ?thesis by (cases i) auto
  next
    case False
    show ?thesis
    proof (cases "splitlines_keep cs")
      case Nil
      with False 2(4) show ?thesis by simp
    next
      case (Cons k ks)
      have "k \<noteq> []" using splitlines_keep_nonempty [of k cs] Cons by simp
      moreover have "is_eol (last (splitlines_keep cs ! i))"
        using 2(3) [OF False, of i] 2(4) False Cons by simp
      ultimately show ?thesis using False Cons by (cases i) auto
    qed
  qed
qed simp

lemma take_1_concat_take:
  "take 1 (concat (take m (splitlines_keep cs))) = [] \<or>
   take 1 (concat (take m (splitlines_keep cs))) = take 1 cs"
proof -
  have "cs = concat (take m (splitlines_keep cs)) @ concat (drop m (splitlines_keep cs))"
    by (metis append_take_drop_id concat_append concat_splitlines_keep)
  then have "take 1 cs = take 1 (concat (take m (splitlines_keep cs)) @ concat (drop m (splitlines_keep cs)))"
    by simp
  then show ?thesis by (cases "concat (take m (splitlines_keep cs))") simp_all
qed

lemma splitlines_keep_concat_take:
  "splitlines_keep (concat (take n (splitlines_keep t))) = take n (splitlines_keep t)"
proof (induction t arbitrary: n rule: splitlines_keep.induct)
  case (2 c cs)
  show ?case
  proof (cases n)
    case (Suc m)
    show ?thesis
    proof (cases "is_eol c")
      case eol: True
      show ?thesis
      proof (cases "c = CR \<and> take 1 cs = [LF]")
        case True
        with 2(1) [OF eol True, of m] eol Suc show ?thesis by simp
      next
        case False
        with take_1_concat_take [of m cs]
        have "\<not> (c = CR \<and> take 1 (concat (take m (splitlines_keep cs))) = [LF])" by (metis list.distinct(1))
        with 2(2) [OF eol False, of m] eol False Suc show ?thesis by auto
      qed
    next
      case False
      show ?thesis
      proof (cases "splitlines_keep cs")
        case Nil
        with False Suc show ?thesis by simp
      next
        case (Cons k ks)
        have "concat (take n (splitlines_keep (c # cs))) = c # concat (take n (splitlines_keep cs))"
          using False Cons Suc by simp
        with 2(3) [OF False, of n] False Cons Suc show ?thesis by simp
      qed
    qed
  qed simp
qed simp

text \<open>Inserting at the start of a line other than the first keeps the lines on both sides.\<close>

lemma splitlines_keep_take:
  assumes "i < length (splitlines_keep t)" and "take 1 b \<noteq> [LF]"
  shows "splitlines_keep (concat (take i (splitlines_keep t)) @ b) = take i (splitlines_keep t) @ splitlines_keep b"
proof (cases "i = 0")
  case False
  let ?L = "splitlines_keep t"
  let ?a = "concat (take i ?L)"
  from False assms(1) obtain k where i: "i = Suc k" and k: "Suc k < length ?L" by (cases i) auto
  have a: "?a = concat (take k ?L) @ ?L ! k"
    using k by (simp add: i take_Suc_conv_app_nth)
  have ne: "?L ! k \<noteq> []"
    using splitlines_keep_nonempty [of "?L ! k" t] k by simp
  have "splitlines_keep (?a @ b) = splitlines_keep ?a @ splitlines_keep b"
  proof (rule splitlines_keep_append [OF _ _ assms(2)])
    show "?a \<noteq> []" using a ne by simp
    show "is_eol (last ?a)" using splitlines_keep_last_eol [OF k] ne by (simp add: a)
  qed
  then show ?thesis by (simp add: splitlines_keep_concat_take)
qed simp

subsection \<open>Trimming and prefixes\<close>

definition lstrip :: "string \<Rightarrow> string" where
  "lstrip = dropWhile is_space"

definition rstrip :: "string \<Rightarrow> string" where
  "rstrip s = rev (dropWhile is_space (rev s))"

definition strip :: "string \<Rightarrow> string" where
  "strip s = rstrip (lstrip s)"

fun strip_prefix :: "string \<Rightarrow> string \<Rightarrow> string option" where
  "strip_prefix [] s = Some s"
| "strip_prefix (p # ps) [] = None"
| "strip_prefix (p # ps) (c # cs) = (if p = c then strip_prefix ps cs else None)"

definition starts_with :: "string \<Rightarrow> string \<Rightarrow> bool" where
  "starts_with s p = (strip_prefix p s \<noteq> None)"

definition ends_with :: "string \<Rightarrow> string \<Rightarrow> bool" where
  "ends_with s p = starts_with (rev s) (rev p)"

lemma strip_prefix_Some: "strip_prefix p s = Some r \<longleftrightarrow> s = p @ r"
  by (induction p s rule: strip_prefix.induct) auto

lemma strip_prefix_append [simp]: "strip_prefix p (p @ r) = Some r"
  by (simp add: strip_prefix_Some)

lemma starts_with_iff: "starts_with s p \<longleftrightarrow> (\<exists>r. s = p @ r)"
  by (auto simp: starts_with_def strip_prefix_Some)

lemma ends_with_iff: "ends_with s p \<longleftrightarrow> (\<exists>r. s = r @ p)"
proof
  assume "ends_with s p"
  then obtain r where "rev s = rev p @ r" by (auto simp: ends_with_def starts_with_iff)
  then have "s = rev r @ p" by (metis rev_append rev_rev_ident)
  then show "\<exists>r. s = r @ p" by blast
qed (auto simp: ends_with_def starts_with_iff)

lemma strip_no_space_ends:
  "s \<noteq> [] \<Longrightarrow> \<not> is_space (hd s) \<Longrightarrow> \<not> is_space (last s) \<Longrightarrow> strip s = s"
proof -
  assume ne: "s \<noteq> []" and h: "\<not> is_space (hd s)" and l: "\<not> is_space (last s)"
  from ne h have 1: "dropWhile is_space s = s" by (cases s) auto
  from ne l have "\<not> is_space (hd (rev s))" by (simp add: hd_rev)
  with ne have 2: "dropWhile is_space (rev s) = rev s" by (cases "rev s") auto
  from 1 2 show ?thesis by (simp add: strip_def lstrip_def rstrip_def)
qed

lemma lstrip_idem [simp]: "lstrip (lstrip s) = lstrip s"
  by (simp add: lstrip_def dropWhile_idem)

text \<open>\<open>str.lower()\<close> and \<open>str.casefold()\<close>. Only \<open>casefold\<close> grows a text: the sharp s becomes two.\<close>

definition lower_char :: "char \<Rightarrow> char" where
  "lower_char c = (let n = code c in
     if (65 \<le> n \<and> n \<le> 90) \<or> (192 \<le> n \<and> n \<le> 222 \<and> n \<noteq> 215) then char_of (n + 32) else c)"

definition lower :: "string \<Rightarrow> string" where
  "lower = map lower_char"

text \<open>
  The micro sign folds to a code point outside the range; keeping it in place is a renaming, since
  no other character of the range folds to it.
\<close>

definition casefold :: "string \<Rightarrow> string" where
  "casefold s = concat (map (\<lambda>c. if code c = 223 then ''ss'' else [lower_char c]) s)"

text \<open>\<open>needle in haystack\<close> for strings.\<close>

fun contains :: "string \<Rightarrow> string \<Rightarrow> bool" where
  "contains needle [] = (needle = [])"
| "contains needle (c # cs) = (starts_with (c # cs) needle \<or> contains needle cs)"

lemma contains_iff: "contains n h \<longleftrightarrow> (\<exists>a b. h = a @ n @ b)"
proof (induction h)
  case (Cons c cs)
  show ?case
  proof
    assume "contains n (c # cs)"
    then consider "starts_with (c # cs) n" | "contains n cs" by auto
    then show "\<exists>a b. c # cs = a @ n @ b"
    proof cases
      case 1
      then obtain r where "c # cs = [] @ n @ r" by (auto simp: starts_with_iff)
      then show ?thesis by blast
    next
      case 2
      with Cons.IH obtain a b where "cs = a @ n @ b" by auto
      then have "c # cs = (c # a) @ n @ b" by simp
      then show ?thesis by blast
    qed
  next
    assume "\<exists>a b. c # cs = a @ n @ b"
    then obtain a b where ab: "c # cs = a @ n @ b" by blast
    show "contains n (c # cs)"
    proof (cases a)
      case Nil
      with ab have "starts_with (c # cs) n" unfolding starts_with_iff by auto
      then show ?thesis by simp
    next
      case (Cons d ds)
      with ab have "cs = ds @ n @ b" by simp
      with Cons.IH show ?thesis by auto
    qed
  qed
qed simp

subsection \<open>Decimal numbers\<close>

definition digit_char :: "nat \<Rightarrow> char" where
  "digit_char d = char_of (48 + d)"

fun nat_str :: "nat \<Rightarrow> string" where
  "nat_str n = (if n < 10 then [digit_char n] else nat_str (n div 10) @ [digit_char (n mod 10)])"

declare nat_str.simps [simp del]

definition int_str :: "int \<Rightarrow> string" where
  "int_str i = (if i < 0 then CHR ''-'' # nat_str (nat (- i)) else nat_str (nat i))"

definition parse_nat :: "string \<Rightarrow> nat" where
  "parse_nat s = foldl (\<lambda>n c. 10 * n + (code c - 48)) 0 s"

subsection \<open>Splitting and joining\<close>

text \<open>\<^verbatim>\<open>str.isprintable\<close> on the range of the model: neither controls, nor the no-break space, nor the soft hyphen.\<close>

definition is_printable :: "char \<Rightarrow> bool" where
  "is_printable c = ((32 \<le> code c \<and> code c \<le> 126) \<or> (161 \<le> code c \<and> code c \<noteq> 173))"

text \<open>\<^verbatim>\<open>" ".join(s.split())\<close>\<close>

fun split_words :: "string \<Rightarrow> string list" where
  "split_words [] = []"
| "split_words (c # cs) =
     (if is_space c then split_words cs
      else (case cs of
              [] \<Rightarrow> [[c]]
            | d # ds \<Rightarrow> if is_space d then [c] # split_words cs
                       else (case split_words cs of [] \<Rightarrow> [[c]] | w # ws \<Rightarrow> (c # w) # ws)))"

fun join_with :: "string \<Rightarrow> string list \<Rightarrow> string" where
  "join_with sep [] = []"
| "join_with sep [w] = w"
| "join_with sep (w # ws) = w @ sep @ join_with sep ws"

text \<open>\<^verbatim>\<open>s.split(d)\<close> at one character.\<close>

fun split_on :: "char \<Rightarrow> string \<Rightarrow> string list" where
  "split_on d [] = [[]]"
| "split_on d (c # cs) =
     (if c = d then [] # split_on d cs
      else (case split_on d cs of [] \<Rightarrow> [[c]] | w # ws \<Rightarrow> (c # w) # ws))"

end
