(* ===== verification/Plan_Lines.thy ===== *)
theory Plan_Lines
  imports Py_Text
begin

text \<open>
  The line level of \<^verbatim>\<open>aflow/plan.py\<close>: the regular expressions that classify a line of a
  Markdown plan, the fenced-block automaton every scanner of the program runs
  (\<^verbatim>\<open>in_fence\<close>, \<^verbatim>\<open>fence_char\<close>, \<^verbatim>\<open>fence_len\<close> are one value of type
  \<open>fence\<close>), and \<open>live_plan_lines\<close>. The program repeats the automaton inline in nine loops; the
  locale \<open>fenced_loop\<close> states what such a loop is and that it sees exactly the visible lines.
\<close>

subsection \<open>The fence automaton\<close>

datatype fence = Outside | Inside char nat

text \<open>\<^verbatim>\<open>FENCE_RE\<close>: three or more backticks or tildes at the start of the line, as a marker.\<close>

definition fence_match :: "string \<Rightarrow> (char \<times> nat) option" where
  "fence_match l =
     (case l of
        [] \<Rightarrow> None
      | c # _ \<Rightarrow>
          let n = length (takeWhile (\<lambda>d. d = c) l) in
          if (c = TICK \<or> c = CHR ''~'') \<and> 3 \<le> n then Some (c, n) else None)"

fun fence_toggle :: "fence \<Rightarrow> char \<times> nat \<Rightarrow> fence" where
  "fence_toggle Outside (c, n) = Inside c n"
| "fence_toggle (Inside d m) (c, n) = (if c = d \<and> m \<le> n then Outside else Inside d m)"

text \<open>The lines outside every fence, over any line type with a text projection.\<close>

fun visible :: "('l \<Rightarrow> string) \<Rightarrow> fence \<Rightarrow> 'l list \<Rightarrow> 'l list" where
  "visible tx f [] = []"
| "visible tx f (l # ls) =
     (case fence_match (tx l) of
        Some m \<Rightarrow> visible tx (fence_toggle f m) ls
      | None \<Rightarrow> if f = Outside then l # visible tx f ls else visible tx f ls)"

text \<open>The state the automaton is left in.\<close>

fun fence_after :: "fence \<Rightarrow> string list \<Rightarrow> fence" where
  "fence_after f [] = f"
| "fence_after f (l # ls) =
     (case fence_match l of Some m \<Rightarrow> fence_after (fence_toggle f m) ls | None \<Rightarrow> fence_after f ls)"

definition live_plan_lines :: "string \<Rightarrow> (nat \<times> string) list" where
  "live_plan_lines text = visible snd Outside (enumerate 1 (splitlines text))"

lemma visible_append:
  "visible tx f (xs @ ys) = visible tx f xs @ visible tx (fence_after f (map tx xs)) ys"
  by (induction xs arbitrary: f) (auto split: option.splits)

lemma fence_after_append: "fence_after f (xs @ ys) = fence_after (fence_after f xs) ys"
  by (induction xs arbitrary: f) (auto split: option.splits)

lemma visible_subset: "set (visible tx f ls) \<subseteq> set ls"
  by (induction ls arbitrary: f) (auto split: option.splits if_splits)

lemma visible_no_fence: "l \<in> set (visible tx f ls) \<Longrightarrow> fence_match (tx l) = None"
  by (induction ls arbitrary: f) (auto split: option.splits if_splits)

lemma visible_map: "map g (visible (tx \<circ> g) f ls) = visible tx f (map g ls)"
  by (induction ls arbitrary: f) (auto split: option.splits)

lemma visible_sorted:
  "sorted_wrt P ls \<Longrightarrow> sorted_wrt P (visible tx f ls)"
proof (induction ls arbitrary: f)
  case (Cons l ls)
  then show ?case using visible_subset [of tx f ls] by (auto split: option.splits)
qed simp

lemma visible_all_plain:
  "\<forall>l \<in> set ls. fence_match (tx l) = None \<Longrightarrow> visible tx Outside ls = ls"
  by (induction ls) auto

lemma fence_after_all_plain: "\<forall>l \<in> set ls. fence_match l = None \<Longrightarrow> fence_after f ls = f"
  by (induction ls arbitrary: f) auto

subsection \<open>What a fence-aware loop is\<close>

text \<open>
  A loop over lines whose body may leave it with a result (\<open>Inl\<close>, a \<^verbatim>\<open>return\<close> or
  \<^verbatim>\<open>break\<close>) or go on with a new state (\<open>Inr\<close>).
\<close>

fun run_lines :: "('s \<Rightarrow> 'l \<Rightarrow> 'r + 's) \<Rightarrow> ('s \<Rightarrow> 'r) \<Rightarrow> 's \<Rightarrow> 'l list \<Rightarrow> 'r" where
  "run_lines body fin s [] = fin s"
| "run_lines body fin s (l # ls) =
     (case body s l of Inl r \<Rightarrow> r | Inr s' \<Rightarrow> run_lines body fin s' ls)"

locale fenced_loop =
  fixes tx :: "'l \<Rightarrow> string"
    and loop :: "fence \<Rightarrow> 's \<Rightarrow> 'l list \<Rightarrow> 'r"
    and body :: "'s \<Rightarrow> 'l \<Rightarrow> 'r + 's"
    and fin :: "'s \<Rightarrow> 'r"
  assumes loop_end: "loop f s [] = fin s"
    and loop_marker: "fence_match (tx l) = Some m \<Longrightarrow> loop f s (l # ls) = loop (fence_toggle f m) s ls"
    and loop_hidden: "fence_match (tx l) = None \<Longrightarrow> f \<noteq> Outside \<Longrightarrow> loop f s (l # ls) = loop f s ls"
    and loop_live: "fence_match (tx l) = None \<Longrightarrow>
      loop Outside s (l # ls) = (case body s l of Inl r \<Rightarrow> r | Inr s' \<Rightarrow> loop Outside s' ls)"
begin

lemma loop_visible: "loop f s ls = run_lines body fin s (visible tx f ls)"
proof (induction ls arbitrary: f s)
  case Nil
  show ?case by (simp add: loop_end)
next
  case (Cons l ls)
  show ?case
  proof (cases "fence_match (tx l)")
    case (Some m)
    then show ?thesis by (simp add: loop_marker Cons.IH)
  next
    case None
    show ?thesis
    proof (cases "f = Outside")
      case True
      with None Cons.IH show ?thesis by (simp add: loop_live split: sum.splits)
    next
      case False
      with None Cons.IH show ?thesis by (simp add: loop_hidden)
    qed
  qed
qed

text \<open>What the loop returns does not depend on fenced content.\<close>

lemma loop_cong: "visible tx f ls = visible tx g ks \<Longrightarrow> loop f s ls = loop g s ks"
  by (simp add: loop_visible)

end

lemma run_lines_append:
  assumes "\<And>s l. l \<in> set xs \<Longrightarrow> \<exists>s'. body s l = Inr s'"
  shows "\<exists>s'. run_lines body fin s (xs @ ys) = run_lines body fin s' ys"
  using assms
proof (induction xs arbitrary: s)
  case (Cons x xs)
  obtain s1 where "body s x = Inr s1" using Cons.prems [of x s] by auto
  moreover obtain s' where "run_lines body fin s1 (xs @ ys) = run_lines body fin s' ys"
    using Cons.IH [of s1] Cons.prems by auto
  ultimately show ?case by auto
qed auto

subsection \<open>The regular expressions\<close>

text \<open>\<^verbatim>\<open>\s+\<close>: the rest after at least one white-space character.\<close>

definition spaces1 :: "string \<Rightarrow> string option" where
  "spaces1 s = (let r = lstrip s in if r = s then None else Some r)"

text \<open>\<^verbatim>\<open>\b\<close> after a word character.\<close>

definition word_end :: "string \<Rightarrow> bool" where
  "word_end s = (case s of [] \<Rightarrow> True | c # _ \<Rightarrow> \<not> is_word c)"

text \<open>\<^verbatim>\<open>.*$\<close>: the rest of the line, but for one final line feed.\<close>

definition dot_star_end :: "string \<Rightarrow> string option" where
  "dot_star_end s =
     (let b = takeWhile (\<lambda>c. c \<noteq> LF) s; r = dropWhile (\<lambda>c. c \<noteq> LF) s in
      if r = [] \<or> r = [LF] then Some b else None)"

text \<open>\<^verbatim>\<open>\[([ xX])\]\<close>\<close>

definition check_box :: "string \<Rightarrow> (char \<times> string) option" where
  "check_box s =
     (case s of
        a # c # b # r \<Rightarrow>
          if a = CHR ''['' \<and> b = CHR '']'' \<and> (c = CHR '' '' \<or> c = CHR ''x'' \<or> c = CHR ''X'')
          then Some (c, r) else None
      | _ \<Rightarrow> None)"

text \<open>\<^verbatim>\<open>SECTION_RE\<close>: its two groups.\<close>

definition section_match :: "string \<Rightarrow> (char \<times> string) option" where
  "section_match l =
     Option.bind (strip_prefix ''###'' l) (\<lambda>r1.
     Option.bind (spaces1 r1) (\<lambda>r2.
     Option.bind (check_box r2) (\<lambda>(c, r3).
     Option.bind (spaces1 r3) (\<lambda>r4.
     Option.bind (strip_prefix ''Checkpoint'' r4) (\<lambda>r5.
     if word_end r5 then map_option (\<lambda>b. (c, ''Checkpoint'' @ b)) (dot_star_end r5) else None)))))"

text \<open>\<^verbatim>\<open>STEP_RE\<close>: its group and the text after the match.\<close>

definition step_match :: "string \<Rightarrow> (char \<times> string) option" where
  "step_match l =
     (case lstrip l of
        [] \<Rightarrow> None
      | b # r1 \<Rightarrow>
          if b = CHR ''-'' \<or> b = CHR ''*'' then
            Option.bind (spaces1 r1) (\<lambda>r2.
            Option.bind (check_box r2) (\<lambda>(c, r3).
            map_option (\<lambda>r4. (c, r4)) (spaces1 r3)))
          else None)"

text \<open>\<^verbatim>\<open>GIT_TRACKING_RE\<close>\<close>

definition is_ascii_digit :: "char \<Rightarrow> bool" where
  "is_ascii_digit c = (let n = code c in 48 \<le> n \<and> n \<le> 57)"

definition skip_numbering :: "string \<Rightarrow> string" where
  "skip_numbering s =
     (let r = dropWhile is_ascii_digit s in
      if r = s then s
      else (case r of
              [] \<Rightarrow> s
            | c # r' \<Rightarrow> if c = CHR ''.'' then (case spaces1 r' of Some r2 \<Rightarrow> r2 | None \<Rightarrow> s) else s))"

definition git_tracking_heading :: "string \<Rightarrow> bool" where
  "git_tracking_heading l =
     (case Option.bind (strip_prefix ''##'' l) spaces1 of
        None \<Rightarrow> False
      | Some r \<Rightarrow> (case strip_prefix ''Git Tracking'' (skip_numbering r) of
                     None \<Rightarrow> False | Some e \<Rightarrow> word_end e))"

text \<open>\<^verbatim>\<open>NON_CHECKPOINT_HEADING_RE\<close>\<close>

definition non_checkpoint_heading :: "string \<Rightarrow> bool" where
  "non_checkpoint_heading l =
     (let h = length (takeWhile (\<lambda>c. c = CHR ''#'') l);
          r = dropWhile (\<lambda>c. c = CHR ''#'') l in
      1 \<le> h \<and> h \<le> 3 \<and> (case r of [] \<Rightarrow> False | c # _ \<Rightarrow> is_space c))"

text \<open>\<^verbatim>\<open>GIT_TRACKING_FIELD_RE\<close>\<close>

definition git_tracking_field :: "string \<Rightarrow> bool" where
  "git_tracking_field l =
     (let r0 = lstrip l;
          r1 = (case r0 of
                  [] \<Rightarrow> r0
                | b # r \<Rightarrow> if b = CHR ''-'' \<or> b = CHR ''*''
                          then (case spaces1 r of Some r' \<Rightarrow> r' | None \<Rightarrow> r0) else r0) in
      (\<exists>p \<in> set [''Plan Branch:'', ''Pre-Handoff Base HEAD:'', ''Last Reviewed HEAD:'', ''Review Log:''].
         starts_with r1 p))"

subsection \<open>How the expressions relate\<close>

lemma section_match_heading: "section_match l = Some x \<Longrightarrow> non_checkpoint_heading l"
proof -
  assume "section_match l = Some x"
  then obtain r1 r2 where l: "l = ''###'' @ r1" and s: "spaces1 r1 = Some r2"
    by (auto simp: section_match_def bind_eq_Some_conv strip_prefix_Some)
  from s obtain c cs where "r1 = c # cs" and "is_space c"
    by (cases r1) (auto simp: spaces1_def lstrip_def Let_def split: if_splits)
  moreover from this have "c \<noteq> CHR ''#''" by (auto simp: char_class_defs Let_def)
  ultimately show ?thesis by (simp add: l non_checkpoint_heading_def)
qed

lemma git_heading_not_fence: "git_tracking_heading l \<Longrightarrow> fence_match l = None"
  by (cases l) (auto simp: git_tracking_heading_def fence_match_def split: option.splits)

lemma section_not_fence: "section_match l = Some x \<Longrightarrow> fence_match l = None"
  by (cases l) (auto simp: section_match_def fence_match_def bind_eq_Some_conv)

lemma section_not_git_heading: "section_match l = Some x \<Longrightarrow> \<not> git_tracking_heading l"
proof
  assume "section_match l = Some x" and g: "git_tracking_heading l"
  then obtain r1 where l: "l = ''###'' @ r1"
    by (auto simp: section_match_def bind_eq_Some_conv strip_prefix_Some)
  from g show False
    by (simp add: l git_tracking_heading_def spaces1_def lstrip_def char_class_defs)
qed

lemma git_heading_is_heading: "git_tracking_heading l \<Longrightarrow> non_checkpoint_heading l"
proof -
  assume "git_tracking_heading l"
  then obtain r1 r2 where l: "l = ''##'' @ r1" and s: "spaces1 r1 = Some r2"
    by (auto simp: git_tracking_heading_def bind_eq_Some_conv strip_prefix_Some split: option.splits)
  from s obtain c cs where "r1 = c # cs" and "is_space c"
    by (cases r1) (auto simp: spaces1_def lstrip_def Let_def split: if_splits)
  moreover from this have "c \<noteq> CHR ''#''" by (auto simp: char_class_defs Let_def)
  ultimately show ?thesis by (simp add: l non_checkpoint_heading_def)
qed

subsection \<open>Lines with and without their boundary\<close>

text \<open>
  \<^verbatim>\<open>splitlines()\<close> and \<^verbatim>\<open>splitlines(keepends=True)\<close> feed the same expressions; they agree on
  fences and sections whichever form the line has.
\<close>

lemma fence_match_append_eol:
  "no_eol b \<Longrightarrow> eol_mark e \<Longrightarrow> fence_match (b @ e) = fence_match b"
proof (cases b)
  case Nil
  assume "eol_mark e"
  with Nil show ?thesis by (auto simp: fence_match_def eol_mark_def char_class_defs Let_def)
next
  case (Cons c cs)
  assume nb: "no_eol b" and e: "eol_mark e"
  have "takeWhile (\<lambda>d. d = c) e = []" using e Cons nb
    by (auto simp: eol_mark_def)
  then have "takeWhile (\<lambda>d. d = c) (b @ e) = takeWhile (\<lambda>d. d = c) b"
    by (auto simp: takeWhile_append takeWhile_eq_all_conv intro: takeWhile_eq_all_conv [THEN iffD2, symmetric])
  then show ?thesis by (simp add: fence_match_def Cons)
qed

lemma strip_prefix_append_eol:
  "no_eol p \<Longrightarrow> eol_mark e \<Longrightarrow> strip_prefix p (b @ e) = map_option (\<lambda>r. r @ e) (strip_prefix p b)"
proof (induction p b rule: strip_prefix.induct)
  case (2 p ps)
  then show ?case by (cases e) (auto simp: eol_mark_def)
qed auto

lemma spaces1_append_eol:
  assumes "eol_mark e"
  shows "spaces1 b = Some r \<Longrightarrow> r \<noteq> [] \<Longrightarrow> spaces1 (b @ e) = Some (r @ e)"
    and "spaces1 b = None \<or> spaces1 b = Some [] \<Longrightarrow> spaces1 (b @ e) = None \<or> spaces1 (b @ e) = Some []"
proof -
  have e: "\<forall>c \<in> set e. is_space c" using eol_mark_all [OF assms] eol_is_space by blast
  have ls: "lstrip (b @ e) = (if lstrip b = [] then [] else lstrip b @ e)"
    using e by (auto simp: lstrip_def dropWhile_append dropWhile_eq_Nil_conv)
  show "spaces1 (b @ e) = Some (r @ e)" if "spaces1 b = Some r" "r \<noteq> []"
    using that by (auto simp: spaces1_def Let_def ls split: if_splits)
  show "spaces1 (b @ e) = None \<or> spaces1 (b @ e) = Some []"
    if "spaces1 b = None \<or> spaces1 b = Some []"
    using that by (auto simp: spaces1_def Let_def ls split: if_splits)
qed

lemma spaces1_length: "spaces1 b = Some r \<Longrightarrow> \<exists>w. b = w @ r"
  by (auto simp: spaces1_def lstrip_def Let_def split: if_splits)
    (metis takeWhile_dropWhile_id)

lemma check_box_append_eol:
  "eol_mark e \<Longrightarrow> check_box (b @ e) = map_option (\<lambda>(c, r). (c, r @ e)) (check_box b)"
  by (cases b; cases "tl b"; cases "tl (tl b)")
    (auto simp: check_box_def eol_mark_def char_class_defs split: list.splits)

lemma check_box_Nil [simp]: "check_box [] = None"
  by (simp add: check_box_def)

lemma check_box_Some: "check_box b = Some (c, r) \<Longrightarrow> b = CHR ''['' # c # CHR '']'' # r"
  by (auto simp: check_box_def split: list.splits if_splits)

lemma dot_star_end_no_eol: "no_eol b \<Longrightarrow> eol_mark e \<Longrightarrow> dot_star_end (b @ e) \<noteq> None"
proof -
  assume b: "no_eol b" and e: "eol_mark e"
  have "\<forall>c \<in> set b. c \<noteq> LF" using b by (auto simp: no_eol_def)
  then have "dropWhile (\<lambda>c. c \<noteq> LF) (b @ e) = dropWhile (\<lambda>c. c \<noteq> LF) e"
    by (simp add: dropWhile_append dropWhile_eq_Nil_conv)
  moreover have "dropWhile (\<lambda>c. c \<noteq> LF) e \<in> {[], [LF]}"
    using e by (auto simp: eol_mark_def)
  ultimately show ?thesis by (auto simp: dot_star_end_def Let_def)
qed

lemma word_end_append_eol: "eol_mark e \<Longrightarrow> word_end (b @ e) = word_end b"
  by (cases b) (auto simp: word_end_def eol_mark_def char_class_defs Let_def split: list.splits)

lemma section_match_unfold:
  "section_match l \<noteq> None \<longleftrightarrow>
     (\<exists>r1 r2 c r3 r4 r5. strip_prefix ''###'' l = Some r1 \<and> spaces1 r1 = Some r2 \<and>
        check_box r2 = Some (c, r3) \<and> spaces1 r3 = Some r4 \<and>
        strip_prefix ''Checkpoint'' r4 = Some r5 \<and> word_end r5 \<and> dot_star_end r5 \<noteq> None)"
  by (auto simp: section_match_def bind_eq_Some_conv split: if_splits) (metis option.simps(9))+

lemma no_eol_words: "no_eol ''###''" "no_eol ''Checkpoint''"
  by (simp_all add: char_class_defs)

lemmas word_append_eol =
  no_eol_words(1) [THEN strip_prefix_append_eol] no_eol_words(2) [THEN strip_prefix_append_eol]

lemma section_match_append_eol:
  assumes b: "no_eol b" and e: "eol_mark e"
  shows "section_match (b @ e) \<noteq> None \<longleftrightarrow> section_match b \<noteq> None"
proof
  assume "section_match b \<noteq> None"
  then obtain r1 r2 c r3 r4 r5 where m: "strip_prefix ''###'' b = Some r1" "spaces1 r1 = Some r2"
      "check_box r2 = Some (c, r3)" "spaces1 r3 = Some r4" "strip_prefix ''Checkpoint'' r4 = Some r5"
      "word_end r5"
    unfolding section_match_unfold by blast
  from m(1,2,3,4,5) obtain w1 w2 where "b = ''###'' @ w1 @ [CHR ''['', c, CHR '']''] @ w2 @ ''Checkpoint'' @ r5"
    by (auto simp: strip_prefix_Some dest!: spaces1_length check_box_Some)
  with b have r5: "no_eol r5" by simp
  from m have "r2 \<noteq> []" "r4 \<noteq> []" by auto
  with m e have "strip_prefix ''###'' (b @ e) = Some (r1 @ e)" "spaces1 (r1 @ e) = Some (r2 @ e)"
      "check_box (r2 @ e) = Some (c, r3 @ e)" "spaces1 (r3 @ e) = Some (r4 @ e)"
      "strip_prefix ''Checkpoint'' (r4 @ e) = Some (r5 @ e)"
    by (simp_all add: word_append_eol spaces1_append_eol(1) check_box_append_eol)
  moreover have "word_end (r5 @ e)" using e m(6) by (simp add: word_end_append_eol)
  moreover have "dot_star_end (r5 @ e) \<noteq> None" using r5 e by (rule dot_star_end_no_eol)
  ultimately show "section_match (b @ e) \<noteq> None" unfolding section_match_unfold by blast
next
  assume "section_match (b @ e) \<noteq> None"
  then obtain s1 s2 c s3 s4 s5 where m: "strip_prefix ''###'' (b @ e) = Some s1" "spaces1 s1 = Some s2"
      "check_box s2 = Some (c, s3)" "spaces1 s3 = Some s4" "strip_prefix ''Checkpoint'' s4 = Some s5"
      "word_end s5"
    unfolding section_match_unfold by blast
  from m(1) e obtain r1 where r1: "strip_prefix ''###'' b = Some r1" "s1 = r1 @ e"
    by (auto simp: word_append_eol)
  have "\<not> (spaces1 r1 = None \<or> spaces1 r1 = Some [])"
    using m(2,3) r1(2) spaces1_append_eol(2) [OF e, of r1] by (metis check_box_Nil option.distinct(1) option.inject strip_prefix.simps(2))
  then obtain r2 where r2: "spaces1 r1 = Some r2" "r2 \<noteq> []" by auto
  with m(2) r1(2) e have s2: "s2 = r2 @ e" by (simp add: spaces1_append_eol(1))
  with m(3) e obtain r3 where r3: "check_box r2 = Some (c, r3)" "s3 = r3 @ e"
    by (auto simp: check_box_append_eol)
  have "\<not> (spaces1 r3 = None \<or> spaces1 r3 = Some [])"
    using m(4,5) r3(2) spaces1_append_eol(2) [OF e, of r3] by (metis check_box_Nil option.distinct(1) option.inject strip_prefix.simps(2))
  then obtain r4 where r4: "spaces1 r3 = Some r4" "r4 \<noteq> []" by auto
  with m(4) r3(2) e have "s4 = r4 @ e" by (simp add: spaces1_append_eol(1))
  with m(5) e obtain r5 where r5: "strip_prefix ''Checkpoint'' r4 = Some r5" "s5 = r5 @ e"
    by (auto simp: word_append_eol)
  with m(6) e have w: "word_end r5" by (simp add: word_end_append_eol)
  from r1(1) r2(1) r3(1) r4(1) r5(1)
  obtain w1 w2 where "b = ''###'' @ w1 @ [CHR ''['', c, CHR '']''] @ w2 @ ''Checkpoint'' @ r5"
    by (auto simp: strip_prefix_Some dest!: spaces1_length check_box_Some)
  with b have "no_eol r5" by simp
  then have "dot_star_end r5 \<noteq> None" using dot_star_end_no_eol [of r5 "[]"] by simp
  with r1(1) r2(1) r3(1) r4(1) r5(1) w show "section_match b \<noteq> None"
    unfolding section_match_unfold by blast
qed

lemma chop_eol_kept:
  "l \<in> set (splitlines_keep t) \<Longrightarrow> fence_match (chop_eol l) = fence_match l"
  "l \<in> set (splitlines_keep t) \<Longrightarrow> section_match (chop_eol l) = None \<longleftrightarrow> section_match l = None"
  using splitlines_keep_line [of l t] fence_match_append_eol section_match_append_eol
  by fastforce+

lemma visible_kept:
  "set ls \<subseteq> set (splitlines_keep t) \<Longrightarrow>
     visible (\<lambda>l. l) f (map chop_eol ls) = map chop_eol (visible (\<lambda>l. l) f ls)"
  by (induction ls arbitrary: f) (auto simp: chop_eol_kept split: option.splits)

lemma fence_after_kept:
  "set ls \<subseteq> set (splitlines_keep t) \<Longrightarrow> fence_after f (map chop_eol ls) = fence_after f ls"
  by (induction ls arbitrary: f) (auto simp: chop_eol_kept split: option.splits)

lemma live_plan_lines_sorted: "sorted_wrt (<) (map fst (live_plan_lines text))"
proof -
  have "sorted_wrt (\<lambda>x y. fst x < fst y) (enumerate 1 (splitlines text))"
    by (simp add: sorted_wrt_iff_nth_less nth_enumerate_eq)
  then show ?thesis
    unfolding live_plan_lines_def sorted_wrt_map by (rule visible_sorted)
qed

lemma live_plan_lines_nth:
  "(n, l) \<in> set (live_plan_lines text) \<Longrightarrow>
     1 \<le> n \<and> n \<le> length (splitlines text) \<and> splitlines text ! (n - 1) = l"
  using visible_subset [of snd Outside "enumerate 1 (splitlines text)"]
  by (force simp: live_plan_lines_def in_set_enumerate_eq)

end
