(* ===== verification/Plan_Parser.thy ===== *)
theory Plan_Parser
  imports Plan_Lines
begin

text \<open>
  The checkpoint parser of \<^verbatim>\<open>aflow/plan.py\<close>: sections and their step counts, the consistency
  check, the snapshot that decides what runs next, and the strict and tolerant loaders. The
  single pass of \<open>collect_sections\<close> is related to the reference definition \<open>sections_spec\<close>, which
  reads each section's body on its own.
\<close>

subsection \<open>Data\<close>

record checkpoint_section =
  line_number :: nat
  section_name :: string
  heading_checked :: bool
  unchecked_step_count :: int
  checked_step_count :: int

record plan_snapshot =
  current_checkpoint_name :: "string option"
  unchecked_checkpoint_count :: int
  current_checkpoint_unchecked_step_count :: int
  is_complete :: bool
  total_checkpoint_count :: int
  current_checkpoint_index :: "int option"

record parsed_plan =
  plan_path :: string
  plan_sections :: "checkpoint_section list"
  plan_snap :: plan_snapshot

record plan_parse_error =
  pe_message :: string
  pe_checkpoint_name :: "string option"
  pe_checkpoint_line :: "nat option"
  pe_unchecked_step_count :: "int option"
  pe_checkpoint_index :: "int option"
  pe_total_checkpoint_count :: "int option"
  pe_error_kind :: "string option"
  pe_admission_kind :: "string option"

datatype plan_exn =
    PlanParseError plan_parse_error
  | PlanValueError string

record tolerant_result =
  tolerant_plan :: parsed_plan
  tolerant_error :: "plan_parse_error option"

definition MISSING_CHECKPOINT_SECTIONS :: string where
  "MISSING_CHECKPOINT_SECTIONS = ''missing_checkpoint_sections''"

definition plain_error :: "string \<Rightarrow> plan_parse_error" where
  "plain_error m =
     \<lparr>pe_message = m, pe_checkpoint_name = None, pe_checkpoint_line = None,
      pe_unchecked_step_count = None, pe_checkpoint_index = None,
      pe_total_checkpoint_count = None, pe_error_kind = None, pe_admission_kind = None\<rparr>"

subsection \<open>Collecting the sections\<close>

type_synonym collect_state = "checkpoint_section list \<times> checkpoint_section option \<times> bool"

definition close_section :: "checkpoint_section list \<Rightarrow> checkpoint_section option \<Rightarrow> checkpoint_section list" where
  "close_section secs cur = (case cur of None \<Rightarrow> secs | Some s \<Rightarrow> secs @ [s])"

definition open_section :: "nat \<Rightarrow> char \<Rightarrow> string \<Rightarrow> checkpoint_section" where
  "open_section n c nm =
     \<lparr>line_number = n, section_name = strip nm, heading_checked = (lower [c] = ''x''),
      unchecked_step_count = 0, checked_step_count = 0\<rparr>"

definition count_step :: "char \<Rightarrow> checkpoint_section \<Rightarrow> checkpoint_section" where
  "count_step c s =
     (if lower [c] = '' '' then s\<lparr>unchecked_step_count := unchecked_step_count s + 1\<rparr>
      else s\<lparr>checked_step_count := checked_step_count s + 1\<rparr>)"

definition collect_line :: "collect_state \<Rightarrow> nat \<times> string \<Rightarrow> collect_state" where
  "collect_line st nl =
     (case (st, nl) of ((secs, cur, in_scope), (n, line)) \<Rightarrow>
        (case section_match line of
           Some (c, nm) \<Rightarrow> (close_section secs cur, Some (open_section n c nm), True)
         | None \<Rightarrow>
             if non_checkpoint_heading line then (secs, cur, False)
             else (case cur of
                     None \<Rightarrow> st
                   | Some s \<Rightarrow>
                       if \<not> in_scope then st
                       else (case step_match line of
                               None \<Rightarrow> st
                             | Some (c, _) \<Rightarrow> (secs, Some (count_step c s), in_scope)))))"

definition collect_sections :: "string \<Rightarrow> string \<Rightarrow> plan_exn + checkpoint_section list" where
  "collect_sections text source_path =
     (let (secs, cur, _) = foldl collect_line ([], None, False) (live_plan_lines text);
          sections = close_section secs cur in
      if sections = [] then
        Inl (PlanParseError ((plain_error (source_path @ '': no checkpoint sections were found''))
               \<lparr>pe_admission_kind := Some MISSING_CHECKPOINT_SECTIONS\<rparr>))
      else Inr sections)"

text \<open>The reference reading: each section heading with the lines up to the next heading.\<close>

definition body_lines :: "(nat \<times> string) list \<Rightarrow> (nat \<times> string) list" where
  "body_lines ls = takeWhile (\<lambda>nl. \<not> non_checkpoint_heading (snd nl)) ls"

definition step_marks :: "(nat \<times> string) list \<Rightarrow> char list" where
  "step_marks ls = map fst (List.map_filter (\<lambda>nl. step_match (snd nl)) ls)"

definition count_marks :: "char list \<Rightarrow> checkpoint_section \<Rightarrow> checkpoint_section" where
  "count_marks cs s =
     s\<lparr>unchecked_step_count := unchecked_step_count s + int (length (filter (\<lambda>c. lower [c] = '' '') cs)),
       checked_step_count := checked_step_count s + int (length (filter (\<lambda>c. lower [c] \<noteq> '' '') cs))\<rparr>"

fun sections_spec :: "(nat \<times> string) list \<Rightarrow> checkpoint_section list" where
  "sections_spec [] = []"
| "sections_spec ((n, line) # ls) =
     (case section_match line of
        None \<Rightarrow> sections_spec ls
      | Some (c, nm) \<Rightarrow> count_marks (step_marks (body_lines ls)) (open_section n c nm) # sections_spec ls)"

lemma count_marks_Nil [simp]: "count_marks [] s = s"
  by (simp add: count_marks_def)

lemma count_marks_Cons: "count_marks (c # cs) s = count_marks cs (count_step c s)"
  by (simp add: count_marks_def count_step_def)

lemma step_marks_Cons:
  "step_marks (nl # ls) = (case step_match (snd nl) of None \<Rightarrow> step_marks ls | Some (c, _) \<Rightarrow> c # step_marks ls)"
  by (auto simp: step_marks_def map_filter_simps split: option.splits)

lemma step_marks_Nil [simp]: "step_marks [] = []"
  by (simp add: step_marks_def map_filter_simps)

lemma collect_fold:
  "(let (secs', cur', _) = foldl collect_line (secs, cur, scope) ls in close_section secs' cur') =
     secs @ (case cur of None \<Rightarrow> []
             | Some s \<Rightarrow> [if scope then count_marks (step_marks (body_lines ls)) s else s]) @ sections_spec ls"
proof (induction ls arbitrary: secs cur scope)
  case Nil
  show ?case by (auto simp: close_section_def body_lines_def split: option.splits)
next
  case (Cons nl ls)
  obtain n line where nl: "nl = (n, line)" by (cases nl)
  show ?case
  proof (cases "section_match line")
    case (Some cn)
    obtain c nm where cn: "cn = (c, nm)" by (cases cn)
    from Some have h: "non_checkpoint_heading line" by (rule section_match_heading)
    show ?thesis
      using Cons.IH [of "close_section secs cur" "Some (open_section n c nm)" True] Some h
      by (auto simp: nl cn collect_line_def close_section_def body_lines_def split: option.splits)
  next
    case None
    show ?thesis
    proof (cases "non_checkpoint_heading line")
      case True
      with None Cons.IH [of secs cur False] show ?thesis
        by (auto simp: nl collect_line_def body_lines_def split: option.splits)
    next
      case False
      show ?thesis
      proof (cases "cur = None \<or> \<not> scope \<or> step_match line = None")
        case True
        with None False Cons.IH [of secs cur scope] show ?thesis
          by (auto simp: nl collect_line_def body_lines_def step_marks_Cons split: option.splits)
      next
        case upd: False
        then obtain s c r where s: "cur = Some s" and m: "step_match line = Some (c, r)" and sc: scope
          by auto
        with None False Cons.IH [of secs "Some (count_step c s)" scope] show ?thesis
          by (simp add: nl collect_line_def body_lines_def step_marks_Cons count_marks_Cons)
      qed
    qed
  qed
qed

lemma collect_sections_spec:
  "collect_sections text p =
     (if sections_spec (live_plan_lines text) = [] then
        Inl (PlanParseError ((plain_error (p @ '': no checkpoint sections were found''))
               \<lparr>pe_admission_kind := Some MISSING_CHECKPOINT_SECTIONS\<rparr>))
      else Inr (sections_spec (live_plan_lines text)))"
  using collect_fold [of "[]" None False "live_plan_lines text"]
  by (auto simp: collect_sections_def Let_def split: prod.splits)

subsection \<open>Consistency and snapshots\<close>

definition inconsistent :: "checkpoint_section \<Rightarrow> bool" where
  "inconsistent s = (heading_checked s \<and> unchecked_step_count s > 0)"

definition inconsistent_error :: "string \<Rightarrow> nat \<Rightarrow> nat \<Rightarrow> checkpoint_section \<Rightarrow> plan_parse_error" where
  "inconsistent_error p i tot s =
     \<lparr>pe_message = p @ '': inconsistent checkpoint state at line '' @ nat_str (line_number s) @ '': '' @ [QUOTE]
        @ section_name s @ [QUOTE] @ '' is marked complete but still has '' @ int_str (unchecked_step_count s)
        @ '' unchecked step(s)'',
      pe_checkpoint_name = Some (section_name s), pe_checkpoint_line = Some (line_number s),
      pe_unchecked_step_count = Some (unchecked_step_count s), pe_checkpoint_index = Some (int i + 1),
      pe_total_checkpoint_count = Some (int tot),
      pe_error_kind = Some ''inconsistent_checkpoint_state'', pe_admission_kind = None\<rparr>"

fun validate_from :: "string \<Rightarrow> nat \<Rightarrow> nat \<Rightarrow> checkpoint_section list \<Rightarrow> plan_parse_error option" where
  "validate_from p tot i [] = None"
| "validate_from p tot i (s # ss) =
     (if inconsistent s then Some (inconsistent_error p i tot s) else validate_from p tot (Suc i) ss)"

definition validate_sections :: "checkpoint_section list \<Rightarrow> string \<Rightarrow> plan_parse_error option" where
  "validate_sections sections p = validate_from p (length sections) 0 sections"

definition build_snapshot :: "checkpoint_section list \<Rightarrow> plan_snapshot" where
  "build_snapshot sections =
     (let unchecked = int (length (filter (\<lambda>s. \<not> heading_checked s) sections));
          tot = int (length sections) in
      case find (\<lambda>s. \<not> heading_checked s) sections of
        None \<Rightarrow> \<lparr>current_checkpoint_name = None, unchecked_checkpoint_count = 0,
                 current_checkpoint_unchecked_step_count = 0, is_complete = True,
                 total_checkpoint_count = tot, current_checkpoint_index = None\<rparr>
      | Some cur \<Rightarrow>
          \<lparr>current_checkpoint_name = Some (section_name cur), unchecked_checkpoint_count = unchecked,
           current_checkpoint_unchecked_step_count = unchecked_step_count cur, is_complete = False,
           total_checkpoint_count = tot,
           current_checkpoint_index = map_option (\<lambda>i. int i + 1) (list_index sections cur)\<rparr>)"

definition build_recovery_snapshot :: "plan_parse_error \<Rightarrow> plan_exn + plan_snapshot" where
  "build_recovery_snapshot e =
     (case (pe_checkpoint_name e, pe_checkpoint_index e, pe_unchecked_step_count e, pe_total_checkpoint_count e) of
        (Some nm, Some i, Some u, Some t) \<Rightarrow>
          Inr \<lparr>current_checkpoint_name = Some nm, unchecked_checkpoint_count = t - (i - 1),
               current_checkpoint_unchecked_step_count = u, is_complete = False,
               total_checkpoint_count = t, current_checkpoint_index = Some i\<rparr>
      | _ \<Rightarrow> Inl (PlanValueError ''inconsistent checkpoint parse error is missing recovery metadata''))"

definition parse_plan_text :: "string \<Rightarrow> string \<Rightarrow> plan_exn + parsed_plan" where
  "parse_plan_text text p =
     rbind (collect_sections text p) (\<lambda>sections.
     case validate_sections sections p of
       Some e \<Rightarrow> Inl (PlanParseError e)
     | None \<Rightarrow> Inr \<lparr>plan_path = p, plan_sections = sections, plan_snap = build_snapshot sections\<rparr>)"

definition parse_plan_text_tolerant :: "string \<Rightarrow> string \<Rightarrow> plan_exn + tolerant_result" where
  "parse_plan_text_tolerant text p =
     rbind (collect_sections text p) (\<lambda>sections.
     case validate_sections sections p of
       Some e \<Rightarrow>
         if pe_error_kind e \<noteq> Some ''inconsistent_checkpoint_state'' then Inl (PlanParseError e)
         else rbind (build_recovery_snapshot e) (\<lambda>snap.
           Inr \<lparr>tolerant_plan = \<lparr>plan_path = p, plan_sections = sections, plan_snap = snap\<rparr>,
                tolerant_error = Some e\<rparr>)
     | None \<Rightarrow>
         Inr \<lparr>tolerant_plan = \<lparr>plan_path = p, plan_sections = sections, plan_snap = build_snapshot sections\<rparr>,
              tolerant_error = None\<rparr>)"

text \<open>A file is \<open>None\<close> where \<^verbatim>\<open>is_file()\<close> is false, and its text otherwise.\<close>

definition load_plan :: "string \<Rightarrow> string option \<Rightarrow> plan_exn + parsed_plan" where
  "load_plan p file =
     (case file of
        None \<Rightarrow> Inl (PlanParseError (plain_error (p @ '': plan file does not exist'')))
      | Some text \<Rightarrow> parse_plan_text text p)"

definition load_plan_tolerant :: "string \<Rightarrow> string option \<Rightarrow> plan_exn + tolerant_result" where
  "load_plan_tolerant p file =
     (case file of
        None \<Rightarrow> Inl (PlanParseError (plain_error (p @ '': plan file does not exist'')))
      | Some text \<Rightarrow> parse_plan_text_tolerant text p)"

subsection \<open>The unchecked steps of one section\<close>

fun unchecked_loop ::
  "nat \<Rightarrow> int \<Rightarrow> bool \<Rightarrow> string list \<Rightarrow> int \<Rightarrow> (nat \<times> string) list \<Rightarrow> string list \<times> int" where
  "unchecked_loop at limit scope texts count [] = (texts, count)"
| "unchecked_loop at limit scope texts count ((n, line) # ls) =
     (if n = at then unchecked_loop at limit True texts count ls
      else if \<not> scope then unchecked_loop at limit scope texts count ls
      else if non_checkpoint_heading line then (texts, count)
      else (case step_match line of
              Some (c, rest) \<Rightarrow>
                let task = strip rest in
                if c = CHR '' '' \<and> task \<noteq> [] then
                  unchecked_loop at limit scope
                    (if int (length texts) < limit then texts @ [task] else texts) (count + 1) ls
                else unchecked_loop at limit scope texts count ls
            | None \<Rightarrow> unchecked_loop at limit scope texts count ls))"

definition unchecked_step_texts :: "string \<Rightarrow> checkpoint_section \<Rightarrow> int \<Rightarrow> string list \<times> int" where
  "unchecked_step_texts text s limit =
     unchecked_loop (line_number s) limit False [] 0 (live_plan_lines text)"

subsection \<open>Facts about sections and snapshots\<close>

lemma open_section_simps [simp]:
  "line_number (open_section n c nm) = n"
  "unchecked_step_count (open_section n c nm) = 0"
  "checked_step_count (open_section n c nm) = 0"
  by (simp_all add: open_section_def)

lemma count_marks_simps [simp]:
  "line_number (count_marks cs s) = line_number s"
  "section_name (count_marks cs s) = section_name s"
  "heading_checked (count_marks cs s) = heading_checked s"
  by (simp_all add: count_marks_def)

lemma sections_spec_append:
  "(\<forall>nl \<in> set xs. section_match (snd nl) = None) \<Longrightarrow> sections_spec (xs @ ys) = sections_spec ys"
  by (induction xs) auto

lemma sections_spec_lines: "line_number ` set (sections_spec ls) \<subseteq> fst ` set ls"
proof (induction ls)
  case (Cons nl ls)
  then show ?case by (cases nl) (auto split: option.splits)
qed simp

lemma sections_spec_sorted:
  "sorted_wrt (<) (map fst ls) \<Longrightarrow> sorted_wrt (<) (map line_number (sections_spec ls))"
proof (induction ls)
  case (Cons nl ls)
  obtain n line where nl: "nl = (n, line)" by (cases nl)
  have "n < line_number s" if "s \<in> set (sections_spec ls)" for s
  proof -
    from that sections_spec_lines [of ls] obtain m where "m \<in> set ls" "line_number s = fst m" by blast
    with Cons.prems show ?thesis by (auto simp: nl)
  qed
  with Cons show ?case by (auto simp: nl split: option.splits)
qed simp

lemma sections_spec_nonneg:
  "s \<in> set (sections_spec ls) \<Longrightarrow> 0 \<le> unchecked_step_count s \<and> 0 \<le> checked_step_count s"
proof (induction ls)
  case (Cons nl ls)
  then show ?case by (cases nl) (auto simp: count_marks_def split: option.splits)
qed simp

lemma collect_sections_Inr:
  "collect_sections text p = Inr ss \<longleftrightarrow> ss = sections_spec (live_plan_lines text) \<and> ss \<noteq> []"
  by (auto simp: collect_sections_spec)

lemma collect_sections_Inl:
  "collect_sections text p = Inl x \<Longrightarrow>
     \<exists>e. x = PlanParseError e \<and> pe_admission_kind e = Some MISSING_CHECKPOINT_SECTIONS \<and> pe_error_kind e = None"
  by (auto simp: collect_sections_spec plain_error_def split: if_splits)

lemma validate_from_None: "validate_from p t i ss = None \<longleftrightarrow> (\<forall>s \<in> set ss. \<not> inconsistent s)"
  by (induction ss arbitrary: i) auto

lemma validate_from_Some:
  "validate_from p t i ss = Some e \<longleftrightarrow>
     (\<exists>k. find_index inconsistent ss = Some k \<and> e = inconsistent_error p (i + k) t (ss ! k))"
  by (induction ss arbitrary: i) auto

lemma build_snapshot_complete:
  "find_index (\<lambda>s. \<not> heading_checked s) ss = None \<Longrightarrow>
   build_snapshot ss =
     \<lparr>current_checkpoint_name = None, unchecked_checkpoint_count = 0,
      current_checkpoint_unchecked_step_count = 0, is_complete = True,
      total_checkpoint_count = int (length ss), current_checkpoint_index = None\<rparr>"
  by (simp add: build_snapshot_def find_eq_find_index)

lemma build_snapshot_open:
  assumes "find_index (\<lambda>s. \<not> heading_checked s) ss = Some i"
  shows "build_snapshot ss =
     \<lparr>current_checkpoint_name = Some (section_name (ss ! i)),
      unchecked_checkpoint_count = int (length (filter (\<lambda>s. \<not> heading_checked s) ss)),
      current_checkpoint_unchecked_step_count = unchecked_step_count (ss ! i), is_complete = False,
      total_checkpoint_count = int (length ss), current_checkpoint_index = Some (int i + 1)\<rparr>"
proof -
  from find_index_Some [OF assms]
  have i: "i < length ss" "\<not> heading_checked (ss ! i)" and before: "\<And>j. j < i \<Longrightarrow> heading_checked (ss ! j)"
    by auto
  have "list_index ss (ss ! i) = Some i"
    by (rule list_index_first) (use i before in force)+
  with assms show ?thesis by (simp add: build_snapshot_def find_eq_find_index)
qed

definition snapshot_exact :: "checkpoint_section list \<Rightarrow> plan_snapshot \<Rightarrow> bool" where
  "snapshot_exact ss sn \<longleftrightarrow>
     total_checkpoint_count sn = int (length ss) \<and>
     unchecked_checkpoint_count sn = int (length (filter (\<lambda>s. \<not> heading_checked s) ss)) \<and>
     (is_complete sn \<longleftrightarrow> (\<forall>s \<in> set ss. heading_checked s)) \<and>
     (case current_checkpoint_index sn of
        None \<Rightarrow> is_complete sn \<and> current_checkpoint_name sn = None
      | Some k \<Rightarrow>
          1 \<le> k \<and> k \<le> int (length ss) \<and> \<not> heading_checked (ss ! nat (k - 1)) \<and>
          (\<forall>j < nat (k - 1). heading_checked (ss ! j)) \<and>
          current_checkpoint_name sn = Some (section_name (ss ! nat (k - 1))) \<and>
          current_checkpoint_unchecked_step_count sn = unchecked_step_count (ss ! nat (k - 1)))"

lemma build_snapshot_exact: "snapshot_exact ss (build_snapshot ss)"
proof (cases "find_index (\<lambda>s. \<not> heading_checked s) ss")
  case None
  then have "\<forall>s \<in> set ss. heading_checked s" by (simp add: find_index_None)
  with None show ?thesis by (simp add: snapshot_exact_def build_snapshot_complete)
next
  case (Some i)
  from find_index_Some [OF Some] have "i < length ss" "\<not> heading_checked (ss ! i)" "\<forall>j < i. heading_checked (ss ! j)"
    by auto
  moreover from this have "\<not> (\<forall>s \<in> set ss. heading_checked s)" by (meson nth_mem)
  ultimately show ?thesis by (simp add: snapshot_exact_def build_snapshot_open [OF Some])
qed

lemma parse_plan_text_Inr:
  "parse_plan_text text p = Inr pl \<longleftrightarrow>
     sections_spec (live_plan_lines text) \<noteq> [] \<and>
     (\<forall>s \<in> set (sections_spec (live_plan_lines text)). \<not> inconsistent s) \<and>
     pl = \<lparr>plan_path = p, plan_sections = sections_spec (live_plan_lines text),
           plan_snap = build_snapshot (sections_spec (live_plan_lines text))\<rparr>"
  by (auto simp: parse_plan_text_def rbind_Inr_iff collect_sections_Inr validate_sections_def
      validate_from_None validate_from_Some find_index_None [symmetric] split: option.splits)

subsection \<open>The unchecked steps of a section, declaratively\<close>

definition open_tasks :: "(nat \<times> string) list \<Rightarrow> string list" where
  "open_tasks ls =
     filter (\<lambda>t. t \<noteq> []) (map (\<lambda>(c, r). strip r)
       (filter (\<lambda>(c, r). c = CHR '' '') (List.map_filter (\<lambda>nl. step_match (snd nl)) (body_lines ls))))"

lemma unchecked_skip:
  "at \<notin> fst ` set xs \<Longrightarrow>
     unchecked_loop at lim False ts c (xs @ ys) = unchecked_loop at lim False ts c ys"
  by (induction xs) auto

lemma unchecked_body:
  "at \<notin> fst ` set ls \<Longrightarrow>
     unchecked_loop at lim True ts c ls =
       (ts @ take (nat lim - length ts) (open_tasks ls), c + int (length (open_tasks ls)))"
proof (induction ls arbitrary: ts c)
  case Nil
  show ?case by (simp add: open_tasks_def body_lines_def map_filter_simps)
next
  case (Cons nl ls)
  obtain n line where nl: "nl = (n, line)" by (cases nl)
  from Cons.prems have at: "n \<noteq> at" "at \<notin> fst ` set ls" by (auto simp: nl)
  show ?case
  proof (cases "non_checkpoint_heading line")
    case True
    with at show ?thesis by (simp add: nl open_tasks_def body_lines_def map_filter_simps)
  next
    case False
    show ?thesis
    proof (cases "step_match line")
      case None
      with False at Cons.IH show ?thesis
        by (simp add: nl open_tasks_def body_lines_def map_filter_simps)
    next
      case (Some cr)
      obtain ch r where cr: "cr = (ch, r)" by (cases cr)
      show ?thesis
      proof (cases "ch = CHR '' '' \<and> strip r \<noteq> []")
        case True
        then have o: "open_tasks (nl # ls) = strip r # open_tasks ls"
          using False Some by (simp add: nl cr open_tasks_def body_lines_def map_filter_simps)
        have t: "take (nat lim - length ts) (strip r # open_tasks ls) =
            (if int (length ts) < lim then strip r # take (nat lim - Suc (length ts)) (open_tasks ls) else [])"
        proof (cases "int (length ts) < lim")
          case True
          then have "nat lim - length ts = Suc (nat lim - Suc (length ts))" by arith
          with True show ?thesis by simp
        qed simp
        from True False at Some show ?thesis
          unfolding o t by (simp add: nl cr Cons.IH Let_def)
      next
        case nt: False
        then have "open_tasks (nl # ls) = open_tasks ls"
          using False Some by (auto simp: nl cr open_tasks_def body_lines_def map_filter_simps)
        with nt False at Some show ?thesis by (simp add: nl cr Cons.IH Let_def)
      qed
    qed
  qed
qed

lemma length_filter_mono: "(\<And>x. p x \<Longrightarrow> q x) \<Longrightarrow> length (filter p xs) \<le> length (filter q xs)"
  by (induction xs) auto

lemma length_open_tasks:
  "int (length (open_tasks ls)) \<le> unchecked_step_count (count_marks (step_marks (body_lines ls)) (open_section n c nm))"
proof -
  let ?ms = "List.map_filter (\<lambda>nl. step_match (snd nl)) (body_lines ls)"
  have "length (open_tasks ls) \<le> length (filter (\<lambda>(c, r). c = CHR '' '') ?ms)"
    unfolding open_tasks_def by (metis length_filter_le length_map)
  also have "\<dots> \<le> length (filter (\<lambda>x. lower [fst x] = '' '') ?ms)"
    by (rule length_filter_mono) (auto simp: lower_def lower_char_def code_def)
  also have "\<dots> = length (filter (\<lambda>c. lower [c] = '' '') (step_marks (body_lines ls)))"
    by (simp add: step_marks_def filter_map comp_def)
  finally show ?thesis by (simp add: count_marks_def)
qed

lemma sections_spec_split:
  "s \<in> set (sections_spec ls) \<Longrightarrow>
     \<exists>xs n line c nm ys. ls = xs @ (n, line) # ys \<and> section_match line = Some (c, nm) \<and>
       s = count_marks (step_marks (body_lines ys)) (open_section n c nm)"
proof (induction ls)
  case (Cons nl ls)
  obtain n line where nl: "nl = (n, line)" by (cases nl)
  show ?case
  proof (cases "s \<in> set (sections_spec ls)")
    case True
    from Cons.IH [OF this] obtain xs m l2 c nm ys where "ls = xs @ (m, l2) # ys"
      "section_match l2 = Some (c, nm)" "s = count_marks (step_marks (body_lines ys)) (open_section m c nm)"
      by blast
    then show ?thesis by (intro exI [of _ "nl # xs"]) auto
  next
    case False
    with Cons.prems obtain c nm where "section_match line = Some (c, nm)"
      "s = count_marks (step_marks (body_lines ls)) (open_section n c nm)"
      by (auto simp: nl split: option.splits)
    then show ?thesis unfolding nl by (intro exI [of _ "[]"]) auto
  qed
qed simp

lemma unchecked_step_texts_section:
  assumes "s \<in> set (sections_spec (live_plan_lines text))"
  obtains ys where
    "unchecked_step_texts text s lim = (take (nat lim) (open_tasks ys), int (length (open_tasks ys)))"
    and "int (length (open_tasks ys)) \<le> unchecked_step_count s"
proof -
  let ?ls = "live_plan_lines text"
  from sections_spec_split [OF assms] obtain xs n line c nm ys
    where ls: "?ls = xs @ (n, line) # ys" and sm: "section_match line = Some (c, nm)"
      and s: "s = count_marks (step_marks (body_lines ys)) (open_section n c nm)"
    by blast
  from live_plan_lines_sorted [of "text"] have "n \<notin> fst ` set xs" "n \<notin> fst ` set ys"
    unfolding ls by (auto simp: sorted_wrt_append)
  then have "unchecked_step_texts text s lim = (take (nat lim) (open_tasks ys), int (length (open_tasks ys)))"
    by (simp add: unchecked_step_texts_def s ls unchecked_skip unchecked_body)
  moreover have "int (length (open_tasks ys)) \<le> unchecked_step_count s"
    unfolding s by (rule length_open_tasks)
  ultimately show ?thesis using that by blast
qed

end
