(* ===== verification/Git_Tracking.thy ===== *)
theory Git_Tracking
  imports Plan_Parser
begin

text \<open>
  The Git Tracking section of a plan (\<^verbatim>\<open>aflow/plan.py\<close>): finding its heading, reading its
  fields, deciding whether a plan is pristine, inserting the section and rewriting one field. Each
  function keeps the loop the code writes; the loops that only read are instances of
  \<open>fenced_loop\<close>.
\<close>

subsection \<open>The read-only loops\<close>

primrec has_git_tracking_loop :: "fence \<Rightarrow> unit \<Rightarrow> string list \<Rightarrow> bool" where
  "has_git_tracking_loop f u [] = False"
| "has_git_tracking_loop f u (line # ls) =
     (case fence_match line of
        Some m \<Rightarrow> has_git_tracking_loop (fence_toggle f m) u ls
      | None \<Rightarrow>
          if f \<noteq> Outside then has_git_tracking_loop f u ls
          else if git_tracking_heading line then True
          else has_git_tracking_loop f u ls)"

definition plan_has_git_tracking :: "string \<Rightarrow> bool" where
  "plan_has_git_tracking text = has_git_tracking_loop Outside () (splitlines text)"

fun checklist_loop :: "fence \<Rightarrow> char list \<Rightarrow> string list \<Rightarrow> char list" where
  "checklist_loop f states [] = states"
| "checklist_loop f states (line # ls) =
     (case fence_match line of
        Some m \<Rightarrow> checklist_loop (fence_toggle f m) states ls
      | None \<Rightarrow>
          if f \<noteq> Outside then checklist_loop f states ls
          else (case step_match line of
                  Some (c, _) \<Rightarrow> checklist_loop f (states @ [c]) ls
                | None \<Rightarrow> checklist_loop f states ls))"

text \<open>An unreadable file is \<open>None\<close>.\<close>

definition plan_step_checklist_is_complete :: "string option \<Rightarrow> bool" where
  "plan_step_checklist_is_complete file =
     (case file of
        None \<Rightarrow> False
      | Some text \<Rightarrow>
          let states = checklist_loop Outside [] (splitlines text) in
          states \<noteq> [] \<and> (\<forall>s \<in> set states. casefold [s] = ''x''))"

fun heading_numbers_loop :: "fence \<Rightarrow> nat list \<Rightarrow> (nat \<times> string) list \<Rightarrow> nat list" where
  "heading_numbers_loop f acc [] = acc"
| "heading_numbers_loop f acc (nl # ls) =
     (case fence_match (snd nl) of
        Some m \<Rightarrow> heading_numbers_loop (fence_toggle f m) acc ls
      | None \<Rightarrow>
          if f \<noteq> Outside then heading_numbers_loop f acc ls
          else if git_tracking_heading (snd nl) then heading_numbers_loop f (acc @ [fst nl]) ls
          else heading_numbers_loop f acc ls)"

definition live_git_tracking_heading_line_numbers :: "string \<Rightarrow> nat list" where
  "live_git_tracking_heading_line_numbers text =
     heading_numbers_loop Outside [] (enumerate 1 (splitlines text))"

fun metadata_lines_loop :: "fence \<Rightarrow> bool \<times> string list \<Rightarrow> string list \<Rightarrow> string list" where
  "metadata_lines_loop f st [] = snd st"
| "metadata_lines_loop f st (line # ls) =
     (case fence_match line of
        Some m \<Rightarrow> metadata_lines_loop (fence_toggle f m) st ls
      | None \<Rightarrow>
          if f \<noteq> Outside then metadata_lines_loop f st ls
          else if \<not> fst st then
            metadata_lines_loop f (if git_tracking_heading line then (True, snd st) else st) ls
          else if non_checkpoint_heading line then snd st
          else metadata_lines_loop f (True, snd st @ [line]) ls)"

primrec bootstrap_loop :: "fence \<Rightarrow> unit \<Rightarrow> string list \<Rightarrow> bool" where
  "bootstrap_loop f u [] = True"
| "bootstrap_loop f u (line # ls) =
     (case fence_match line of
        Some m \<Rightarrow> bootstrap_loop (fence_toggle f m) u ls
      | None \<Rightarrow>
          if f \<noteq> Outside then bootstrap_loop f u ls
          else if git_tracking_heading line \<or> git_tracking_field line then False
          else bootstrap_loop f u ls)"

interpretation has_git: fenced_loop "\<lambda>l. l" has_git_tracking_loop
  "\<lambda>u line. if git_tracking_heading line then Inl True else Inr u" "\<lambda>u. False"
  by unfold_locales auto

interpretation checklist: fenced_loop "\<lambda>l. l" checklist_loop
  "\<lambda>states line. case step_match line of Some (c, _) \<Rightarrow> Inr (states @ [c]) | None \<Rightarrow> Inr states" "\<lambda>s. s"
  by unfold_locales (auto split: option.splits)

interpretation numbers: fenced_loop snd heading_numbers_loop
  "\<lambda>acc nl. Inr (if git_tracking_heading (snd nl) then acc @ [fst nl] else acc)" "\<lambda>s. s"
  by unfold_locales auto

interpretation metadata: fenced_loop "\<lambda>l. l" metadata_lines_loop
  "\<lambda>st line. if \<not> fst st then Inr (if git_tracking_heading line then (True, snd st) else st)
             else if non_checkpoint_heading line then Inl (snd st) else Inr (True, snd st @ [line])"
  snd
  by unfold_locales (auto split: sum.splits)

interpretation bootstrap: fenced_loop "\<lambda>l. l" bootstrap_loop
  "\<lambda>u line. if git_tracking_heading line \<or> git_tracking_field line then Inl False else Inr u" "\<lambda>u. True"
  by unfold_locales auto

subsection \<open>Reading the metadata\<close>

record git_tracking_metadata =
  plan_branch :: "string option"
  pre_handoff_base_head :: "string option"
  last_reviewed_head :: "string option"
  review_log_entries :: "string list"

definition backtick_value :: "string \<Rightarrow> string option" where
  "backtick_value s =
     (case dropWhile (\<lambda>c. c \<noteq> TICK) s of
        [] \<Rightarrow> None
      | _ # r \<Rightarrow> if TICK \<in> set r then Some (takeWhile (\<lambda>c. c \<noteq> TICK) r) else None)"

definition or_keep :: "'a option \<Rightarrow> 'a option \<Rightarrow> 'a option" where
  "or_keep x old = (case x of Some _ \<Rightarrow> x | None \<Rightarrow> old)"

fun metadata_fields :: "git_tracking_metadata \<Rightarrow> bool \<Rightarrow> string list \<Rightarrow> git_tracking_metadata" where
  "metadata_fields md in_log [] = md"
| "metadata_fields md in_log (line # ls) =
     (let s = strip line in
      if s = [] then metadata_fields md in_log ls
      else if starts_with s ''- Plan Branch:'' then
        metadata_fields (md\<lparr>plan_branch := or_keep (backtick_value s) (plan_branch md)\<rparr>) in_log ls
      else if starts_with s ''- Pre-Handoff Base HEAD:'' then
        metadata_fields (md\<lparr>pre_handoff_base_head := or_keep (backtick_value s) (pre_handoff_base_head md)\<rparr>) in_log ls
      else if starts_with s ''- Last Reviewed HEAD:'' then
        metadata_fields (md\<lparr>last_reviewed_head := or_keep (backtick_value s) (last_reviewed_head md)\<rparr>) in_log ls
      else if starts_with s ''- Review Log:'' then metadata_fields md True ls
      else if in_log then
        (if starts_with s ''- '' then
           metadata_fields (md\<lparr>review_log_entries := review_log_entries md @ [drop 2 s]\<rparr>) in_log ls
         else if starts_with s ''  '' then
           metadata_fields (md\<lparr>review_log_entries := review_log_entries md @ [s]\<rparr>) in_log ls
         else md)
      else metadata_fields md in_log ls)"

definition empty_metadata :: git_tracking_metadata where
  "empty_metadata = \<lparr>plan_branch = None, pre_handoff_base_head = None, last_reviewed_head = None,
     review_log_entries = []\<rparr>"

definition ambiguous_message :: string where
  "ambiguous_message = ''AFLOW_STOP: git tracking metadata is ambiguous across multiple live sections''"

definition parse_git_tracking_metadata :: "string \<Rightarrow> string + git_tracking_metadata option" where
  "parse_git_tracking_metadata text =
     (let numbers = live_git_tracking_heading_line_numbers text in
      if numbers = [] then Inr None
      else if length numbers > 1 then Inl ambiguous_message
      else Inr (Some (metadata_fields empty_metadata False
                        (metadata_lines_loop Outside (False, []) (splitlines text)))))"

definition is_handoff_pristine_for_base_refresh ::
  "git_tracking_metadata \<Rightarrow> checkpoint_section list \<Rightarrow> bool" where
  "is_handoff_pristine_for_base_refresh md sections =
     (if (\<exists>s \<in> set sections. heading_checked s \<or> checked_step_count s > 0) then False
      else if last_reviewed_head md \<notin> {None, Some [], Some ''none''} then False
      else if review_log_entries md = [] then True
      else if length (review_log_entries md) \<noteq> 1 then False
      else strip (hd (review_log_entries md)) = ''None yet.'')"

definition is_plan_pristine_for_git_tracking_bootstrap ::
  "string \<Rightarrow> checkpoint_section list \<Rightarrow> bool" where
  "is_plan_pristine_for_git_tracking_bootstrap text sections =
     (if (\<exists>s \<in> set sections. heading_checked s \<or> checked_step_count s \<noteq> 0) then False
      else bootstrap_loop Outside () (splitlines text))"

subsection \<open>Inserting the section\<close>

fun remove_crlf :: "string \<Rightarrow> string" where
  "remove_crlf [] = []"
| "remove_crlf (c # cs) =
     (if c = CR \<and> take 1 cs = [LF] then remove_crlf (tl cs) else c # remove_crlf cs)"

fun insertion_loop :: "fence \<Rightarrow> nat \<Rightarrow> string list \<Rightarrow> nat option" where
  "insertion_loop f offset [] = None"
| "insertion_loop f offset (line # ls) =
     (case fence_match line of
        Some m \<Rightarrow> insertion_loop (fence_toggle f m) (offset + length line) ls
      | None \<Rightarrow>
          if f = Outside \<and> section_match line \<noteq> None then Some offset
          else insertion_loop f (offset + length line) ls)"

definition tracking_section :: "string \<Rightarrow> string \<Rightarrow> string \<Rightarrow> string" where
  "tracking_section newline branch head =
     ''## Git Tracking'' @ newline @ newline @
     ''- Plan Branch: '' @ [TICK] @ branch @ [TICK] @ newline @
     ''- Pre-Handoff Base HEAD: '' @ [TICK] @ head @ [TICK] @ newline @ newline"

definition single_value :: "string \<Rightarrow> bool" where
  "single_value v = (TICK \<notin> set v \<and> CR \<notin> set v \<and> LF \<notin> set v)"

definition insert_git_tracking_section :: "string \<Rightarrow> string \<Rightarrow> string \<Rightarrow> string + string" where
  "insert_git_tracking_section text head branch =
     (if \<not> single_value branch then Inl ''Plan Branch must be a single value without backticks''
      else if \<not> single_value head then Inl ''Pre-Handoff Base HEAD must be a single value without backticks''
      else if live_git_tracking_heading_line_numbers text \<noteq> [] then Inl ''Git Tracking section already exists''
      else
        let has_crlf = contains [CR, LF] text;
            has_bare_lf = contains [LF] (remove_crlf text) in
        if has_crlf \<and> has_bare_lf then Inl ''plan uses mixed newline conventions''
        else
          let newline = (if has_crlf then [CR, LF] else [LF]) in
          case insertion_loop Outside 0 (splitlines_keep text) of
            None \<Rightarrow> Inl ''plan has no live checkpoint for Git Tracking insertion''
          | Some off \<Rightarrow> Inr (take off text @ tracking_section newline branch head @ drop off text))"

subsection \<open>Rewriting one field\<close>

text \<open>
  The regular expression of the rewrite, for a field name that starts with a non-space character
  (every caller passes one): the part up to the opening backtick and the part from the closing one.
\<close>

definition field_line_match :: "string \<Rightarrow> string \<Rightarrow> (string \<times> string) option" where
  "field_line_match field line =
     (case lstrip line of
        [] \<Rightarrow> None
      | d # r1 \<Rightarrow>
          if d \<noteq> CHR ''-'' then None else
          Option.bind (spaces1 r1) (\<lambda>r2.
          Option.bind (strip_prefix (field @ '':'') r2) (\<lambda>r3.
          Option.bind (spaces1 r3) (\<lambda>r4.
          case r4 of
            [] \<Rightarrow> None
          | t # r5 \<Rightarrow>
              if t \<noteq> TICK then None else
              let value = takeWhile (\<lambda>c. c \<noteq> TICK) r5; rest = dropWhile (\<lambda>c. c \<noteq> TICK) r5 in
              if rest \<in> {[TICK], [TICK, CR], [TICK, LF], [TICK, CR, LF]}
              then Some (take (length line - length r5) line, rest) else None))))"

fun rewrite_loop ::
  "string \<Rightarrow> string \<Rightarrow> fence \<Rightarrow> bool \<Rightarrow> bool \<Rightarrow> string list \<Rightarrow> string list" where
  "rewrite_loop field v f found rewritten [] = []"
| "rewrite_loop field v f found rewritten (line # ls) =
     (case fence_match line of
        Some m \<Rightarrow> line # rewrite_loop field v (fence_toggle f m) found rewritten ls
      | None \<Rightarrow>
          if f \<noteq> Outside then line # rewrite_loop field v f found rewritten ls
          else if \<not> found then line # rewrite_loop field v f (git_tracking_heading line) rewritten ls
          else if non_checkpoint_heading line then line # rewrite_loop field v f found rewritten ls
          else if \<not> rewritten \<and> starts_with (strip line) (''- '' @ field @ '':'') then
            (case field_line_match field line of
               Some (a, b) \<Rightarrow> (a @ v @ b) # rewrite_loop field v f found True ls
             | None \<Rightarrow> line # rewrite_loop field v f found rewritten ls)
          else line # rewrite_loop field v f found rewritten ls)"

definition rewrite_git_tracking_field :: "string \<Rightarrow> string \<Rightarrow> string \<Rightarrow> string + string" where
  "rewrite_git_tracking_field text field v =
     (let numbers = live_git_tracking_heading_line_numbers text in
      if length numbers > 1 then Inl ambiguous_message
      else if numbers = [] then Inr text
      else Inr (concat (rewrite_loop field v Outside False False (splitlines_keep text))))"

end
