(* ===== verification/Git_Insert.thy ===== *)
theory Git_Insert
  imports Git_Tracking
begin

text \<open>
  What the Git Tracking loops compute, read off the visible lines, and the insertion of a section:
  the new text parses back to the inserted values and keeps every checkpoint section, five lines
  further down. The field rewrite changes at most one line.
\<close>

subsection \<open>The loops on the visible lines\<close>

lemma run_lines_unit:
  "run_lines (\<lambda>u line. if p line then Inl a else Inr u) (\<lambda>u. b) u ls = (if \<exists>l \<in> set ls. p l then a else b)"
  by (induction ls) auto

lemma visible_numbered: "map snd (visible snd f (enumerate n ls)) = visible (\<lambda>l. l) f ls"
  using visible_map [of snd "\<lambda>l. l" f "enumerate n ls"] by (simp add: comp_def)

lemma has_git_tracking_visible:
  "plan_has_git_tracking text \<longleftrightarrow> (\<exists>l \<in> set (visible (\<lambda>l. l) Outside (splitlines text)). git_tracking_heading l)"
  by (simp add: plan_has_git_tracking_def has_git.loop_visible run_lines_unit)

lemma run_lines_fold:
  "run_lines (\<lambda>s l. Inr (g s l)) (\<lambda>s. s) s ls = foldl g s ls"
  by (induction ls arbitrary: s) auto

lemma foldl_collect_if:
  "foldl (\<lambda>acc x. if p x then acc @ [h x] else acc) acc xs = acc @ map h (filter p xs)"
  by (induction xs arbitrary: acc) auto

lemma heading_numbers_live:
  "live_git_tracking_heading_line_numbers text =
     map fst (filter (\<lambda>nl. git_tracking_heading (snd nl)) (live_plan_lines text))"
  by (simp add: live_git_tracking_heading_line_numbers_def numbers.loop_visible run_lines_fold
      foldl_collect_if live_plan_lines_def)

lemma live_lines_visible: "map snd (live_plan_lines text) = visible (\<lambda>l. l) Outside (splitlines text)"
  by (simp add: live_plan_lines_def visible_numbered)

lemma heading_numbers_Nil:
  "live_git_tracking_heading_line_numbers text = [] \<longleftrightarrow> \<not> plan_has_git_tracking text"
  by (auto simp: heading_numbers_live has_git_tracking_visible live_lines_visible [symmetric] filter_empty_conv)

lemma checklist_visible:
  "checklist_loop Outside [] ls = List.map_filter (\<lambda>l. map_option fst (step_match l)) (visible (\<lambda>l. l) Outside ls)"
proof -
  have "run_lines (\<lambda>states line. case step_match line of Some (c, _) \<Rightarrow> Inr (states @ [c]) | None \<Rightarrow> Inr states)
          (\<lambda>s. s) acc ks = acc @ List.map_filter (\<lambda>l. map_option fst (step_match l)) ks" for acc ks
    by (induction ks arbitrary: acc) (auto simp: map_filter_simps split: option.splits)
  then show ?thesis by (simp add: checklist.loop_visible)
qed

lemma bootstrap_visible:
  "bootstrap_loop Outside () ls \<longleftrightarrow>
     (\<forall>l \<in> set (visible (\<lambda>l. l) Outside ls). \<not> git_tracking_heading l \<and> \<not> git_tracking_field l)"
  by (auto simp: bootstrap.loop_visible run_lines_unit)

text \<open>The lines of the section: those after the first heading up to the next heading.\<close>

lemma metadata_lines_visible:
  "metadata_lines_loop Outside (False, []) ls =
     takeWhile (\<lambda>l. \<not> non_checkpoint_heading l) (tl (dropWhile (\<lambda>l. \<not> git_tracking_heading l) (visible (\<lambda>l. l) Outside ls)))"
proof -
  let ?body = "\<lambda>st line. if \<not> fst st then Inr (if git_tracking_heading line then (True, snd st) else st)
             else if non_checkpoint_heading line then Inl (snd st) else Inr (True, snd st @ [line])"
  have found: "run_lines ?body snd (True, acc) ks = acc @ takeWhile (\<lambda>l. \<not> non_checkpoint_heading l) ks" for acc ks
    by (induction ks arbitrary: acc) auto
  have "run_lines ?body snd (False, []) ks =
      takeWhile (\<lambda>l. \<not> non_checkpoint_heading l) (tl (dropWhile (\<lambda>l. \<not> git_tracking_heading l) ks))" for ks
    by (induction ks) (auto simp: found)
  then show ?thesis by (simp add: metadata.loop_visible)
qed

subsection \<open>Where the section goes\<close>

lemma insertion_loop_Some:
  "insertion_loop f off ls = Some k \<Longrightarrow>
     \<exists>i < length ls. k = off + length (concat (take i ls)) \<and> fence_after f (take i ls) = Outside \<and>
       section_match (ls ! i) \<noteq> None \<and> fence_match (ls ! i) = None \<and>
       (\<forall>l \<in> set (visible (\<lambda>l. l) f (take i ls)). section_match l = None)"
proof (induction f off ls rule: insertion_loop.induct)
  case (2 f off line ls)
  let ?P = "\<lambda>f off ls i. i < length ls \<and> k = off + length (concat (take i ls)) \<and>
      fence_after f (take i ls) = Outside \<and> section_match (ls ! i) \<noteq> None \<and> fence_match (ls ! i) = None \<and>
      (\<forall>l \<in> set (visible (\<lambda>l. l) f (take i ls)). section_match l = None)"
  show ?case
  proof (cases "fence_match line")
    case (Some m)
    have "\<exists>i. ?P (fence_toggle f m) (off + length line) ls i"
      using 2(2) [OF Some] 2(3) Some by simp
    then obtain i where "?P (fence_toggle f m) (off + length line) ls i" by blast
    with Some have "?P f off (line # ls) (Suc i)" by auto
    then show ?thesis by blast
  next
    case None
    show ?thesis
    proof (cases "f = Outside \<and> section_match line \<noteq> None")
      case True
      with None 2(3) have "?P f off (line # ls) 0" by auto
      then show ?thesis by blast
    next
      case False
      have "\<exists>i. ?P f (off + length line) ls i"
        using 2(1) [OF None False] 2(3) None False by auto
      then obtain i where "?P f (off + length line) ls i" by blast
      with None False have "?P f off (line # ls) (Suc i)" by (cases "section_match line") auto
      then show ?thesis by blast
    qed
  qed
qed simp

definition section_lines :: "string \<Rightarrow> string \<Rightarrow> string list" where
  "section_lines branch head =
     [''## Git Tracking'', [], ''- Plan Branch: '' @ [TICK] @ branch @ [TICK],
      ''- Pre-Handoff Base HEAD: '' @ [TICK] @ head @ [TICK], []]"

lemma no_eol_section_lines:
  "no_eol branch \<Longrightarrow> no_eol head \<Longrightarrow> l \<in> set (section_lines branch head) \<Longrightarrow> no_eol l"
  by (auto simp: section_lines_def char_class_defs)

lemma splitlines_keep_newline:
  assumes "nl = [LF] \<or> nl = [CR, LF]" and "no_eol b"
  shows "splitlines_keep (b @ nl @ t) = (b @ nl) # splitlines_keep t"
  using assms splitlines_keep_LF [of b t] splitlines_keep_CRLF [of b t] by (auto simp: no_eol_def)

lemma splitlines_tracking_section:
  assumes nl: "nl = [LF] \<or> nl = [CR, LF]" and "no_eol branch" "no_eol head"
  shows "splitlines_keep (tracking_section nl branch head @ t) =
     map (\<lambda>l. l @ nl) (section_lines branch head) @ splitlines_keep t"
proof -
  have ne: "no_eol l" if "l \<in> set (section_lines branch head)" for l
    using no_eol_section_lines that assms(2,3) by blast
  have lines: "splitlines_keep (concat (map (\<lambda>l. l @ nl) ls) @ t) = map (\<lambda>l. l @ nl) ls @ splitlines_keep t"
    if "\<And>l. l \<in> set ls \<Longrightarrow> no_eol l" for ls
    using that by (induction ls) (simp_all add: splitlines_keep_newline [OF nl])
  have "tracking_section nl branch head = concat (map (\<lambda>l. l @ nl) (section_lines branch head))"
    by (simp add: tracking_section_def section_lines_def)
  with lines [of "section_lines branch head"] ne show ?thesis by simp
qed

text \<open>Everything the insertion does to the lines of the plan.\<close>

lemma insert_splitlines:
  assumes ins: "insert_git_tracking_section text head branch = Inr out"
    and ne: "no_eol branch" "no_eol head"
  obtains pre sec post where
    "splitlines text = pre @ sec # post"
    "splitlines out = pre @ section_lines branch head @ sec # post"
    "fence_after Outside pre = Outside" "section_match sec \<noteq> None"
    "\<forall>l \<in> set (visible (\<lambda>l. l) Outside pre). section_match l = None"
    "\<not> plan_has_git_tracking text" "single_value branch" "single_value head"
proof -
  let ?L = "splitlines_keep text"
  define nl where "nl = (if contains [CR, LF] text then [CR, LF] else [LF])"
  from ins obtain off where off: "insertion_loop Outside 0 ?L = Some off"
    and out: "out = take off text @ tracking_section nl branch head @ drop off text"
    and none: "live_git_tracking_heading_line_numbers text = []"
    and sv: "single_value branch" "single_value head"
    by (auto simp: insert_git_tracking_section_def nl_def Let_def split: if_splits option.splits)
  from insertion_loop_Some [OF off] obtain i where i: "i < length ?L"
    and k: "off = length (concat (take i ?L))" and fa: "fence_after Outside (take i ?L) = Outside"
    and sm: "section_match (?L ! i) \<noteq> None"
    and before: "\<forall>l \<in> set (visible (\<lambda>l. l) Outside (take i ?L)). section_match l = None"
    by auto
  have cut: "text = concat (take i ?L) @ concat (drop i ?L)"
    by (metis append_take_drop_id concat_append concat_splitlines_keep)
  have tk: "take off text = concat (take i ?L)" and dp: "drop off text = concat (drop i ?L)"
    using k by (subst cut, simp)+
  have nl2: "nl = [LF] \<or> nl = [CR, LF]" by (simp add: nl_def)
  let ?S = "map (\<lambda>l. l @ nl) (section_lines branch head)"
  have "splitlines_keep out = take i ?L @ splitlines_keep (tracking_section nl branch head @ concat (drop i ?L))"
    unfolding out tk dp by (rule splitlines_keep_take [OF i]) (simp add: tracking_section_def)
  also have "\<dots> = take i ?L @ ?S @ drop i ?L"
    by (simp add: splitlines_tracking_section [OF nl2 ne] splitlines_keep_take_drop)
  finally have kept: "splitlines_keep out = take i ?L @ ?S @ drop i ?L" .
  have eol: "eol_mark nl" using nl2 by auto
  have chopS: "map chop_eol ?S = section_lines branch head"
    using no_eol_section_lines [OF ne] eol by (auto simp: comp_def intro: map_idI)
  have dr: "drop i ?L = ?L ! i # drop (Suc i) ?L" using i by (simp add: Cons_nth_drop_Suc)
  have sub: "set (take i ?L) \<subseteq> set ?L" by (rule set_take_subset)
  have mem: "?L ! i \<in> set ?L" using i by simp
  show ?thesis
  proof (rule that)
    show "splitlines text = map chop_eol (take i ?L) @ chop_eol (?L ! i) # map chop_eol (drop (Suc i) ?L)"
      unfolding splitlines_def by (metis append_take_drop_id dr list.map(2) map_append)
    show "splitlines out = map chop_eol (take i ?L) @ section_lines branch head @
        chop_eol (?L ! i) # map chop_eol (drop (Suc i) ?L)"
      unfolding splitlines_def kept map_append chopS by (simp add: dr)
    show "fence_after Outside (map chop_eol (take i ?L)) = Outside"
      using fence_after_kept [OF sub] fa by simp
    show "section_match (chop_eol (?L ! i)) \<noteq> None"
      using chop_eol_kept(2) [OF mem] sm by simp
    show "\<forall>l \<in> set (visible (\<lambda>l. l) Outside (map chop_eol (take i ?L))). section_match l = None"
    proof
      fix l assume "l \<in> set (visible (\<lambda>l. l) Outside (map chop_eol (take i ?L)))"
      then obtain k where k: "k \<in> set (visible (\<lambda>l. l) Outside (take i ?L))" "l = chop_eol k"
        by (auto simp: visible_kept [OF sub])
      with visible_subset [of "\<lambda>l. l" Outside "take i ?L"] sub have "k \<in> set ?L" by blast
      with k before show "section_match l = None" by (simp add: chop_eol_kept(2))
    qed
    show "\<not> plan_has_git_tracking text" using none by (simp add: heading_numbers_Nil)
  qed (use sv in auto)
qed

subsection \<open>The inserted section is live and reads back\<close>

lemma fence_match_literals [simp]:
  "fence_match ''## Git Tracking'' = None" "fence_match [] = None"
  "fence_match (CHR ''-'' # s) = None"
  by (simp_all add: fence_match_def)

lemma section_lines_plain: "\<forall>l \<in> set (section_lines branch head). fence_match l = None"
  by (simp add: section_lines_def)

lemma non_heading_dash [simp]: "\<not> non_checkpoint_heading (CHR ''-'' # s)" "\<not> non_checkpoint_heading []"
  by (simp_all add: non_checkpoint_heading_def)

lemma git_heading_literal [simp]: "git_tracking_heading ''## Git Tracking''"
  by (simp add: git_tracking_heading_def spaces1_def lstrip_def char_class_defs skip_numbering_def
      is_ascii_digit_def word_end_def)

lemma not_git_heading_dash [simp]: "\<not> git_tracking_heading (CHR ''-'' # s)" "\<not> git_tracking_heading []"
  by (simp_all add: git_tracking_heading_def)

lemma visible_inserted:
  assumes "fence_after Outside pre = Outside"
  shows "visible (\<lambda>l. l) Outside (pre @ section_lines b h @ rest) =
     visible (\<lambda>l. l) Outside pre @ section_lines b h @ visible (\<lambda>l. l) Outside rest"
  using assms section_lines_plain [of b h]
  by (simp add: visible_append fence_after_all_plain visible_all_plain)

lemma strip_ends: "\<not> is_space c \<Longrightarrow> \<not> is_space d \<Longrightarrow> strip (c # s @ [d]) = c # s @ [d]"
  by (rule strip_no_space_ends) auto

lemma not_space_tick [simp]: "\<not> is_space TICK" "\<not> is_space (CHR ''-'')"
  by (simp_all add: char_class_defs)

lemma backtick_value_quoted:
  "TICK \<notin> set p \<Longrightarrow> TICK \<notin> set v \<Longrightarrow> backtick_value (p @ TICK # v @ [TICK]) = Some v"
proof -
  assume p: "TICK \<notin> set p" and v: "TICK \<notin> set v"
  have "dropWhile (\<lambda>c. c \<noteq> TICK) (p @ TICK # v @ [TICK]) = TICK # v @ [TICK]"
    using p by (induction p) auto
  moreover have "takeWhile (\<lambda>c. c \<noteq> TICK) (v @ [TICK]) = v"
    using v by (induction v) auto
  ultimately show ?thesis by (simp add: backtick_value_def)
qed

lemma metadata_of_section_lines:
  assumes "TICK \<notin> set branch" "TICK \<notin> set head"
  shows "metadata_fields empty_metadata False (tl (section_lines branch head)) =
     empty_metadata\<lparr>plan_branch := Some branch, pre_handoff_base_head := Some head\<rparr>"
proof -
  let ?p = "''- Plan Branch: '' @ TICK # branch @ [TICK]"
  let ?h = "''- Pre-Handoff Base HEAD: '' @ TICK # head @ [TICK]"
  have s: "strip ?p = ?p" "strip ?h = ?h"
    using strip_ends [of "CHR ''-''" TICK "'' Plan Branch: '' @ TICK # branch"]
      strip_ends [of "CHR ''-''" TICK "'' Pre-Handoff Base HEAD: '' @ TICK # head"] by simp_all
  have v: "backtick_value ?p = Some branch" "backtick_value ?h = Some head"
    by (rule backtick_value_quoted, simp, use assms in simp)+
  have st: "starts_with ?p ''- Plan Branch:''" "starts_with ?h ''- Pre-Handoff Base HEAD:''"
    "\<not> starts_with ?h ''- Plan Branch:''"
    by (simp_all add: starts_with_def)
  have "metadata_fields empty_metadata False [[], ?p, ?h, []] =
     empty_metadata\<lparr>plan_branch := Some branch, pre_handoff_base_head := Some head\<rparr>"
    using s v st by (simp add: Let_def or_keep_def strip_def lstrip_def rstrip_def)
  then show ?thesis by (simp add: section_lines_def)
qed

lemma insert_parse:
  assumes ins: "insert_git_tracking_section text head branch = Inr out"
    and ne: "no_eol branch" "no_eol head"
  shows "parse_git_tracking_metadata out =
     Inr (Some \<lparr>plan_branch = Some branch, pre_handoff_base_head = Some head,
                last_reviewed_head = None, review_log_entries = []\<rparr>)"
proof -
  obtain pre sec post where
    t: "splitlines text = pre @ sec # post" and o: "splitlines out = pre @ section_lines branch head @ sec # post"
    and fa: "fence_after Outside pre = Outside" and sm: "section_match sec \<noteq> None"
    and "\<forall>l \<in> set (visible (\<lambda>l. l) Outside pre). section_match l = None"
    and none: "\<not> plan_has_git_tracking text" and sv: "single_value branch" "single_value head"
    by (rule insert_splitlines [OF ins ne])
  let ?S = "section_lines branch head"
  from sm have sec: "fence_match sec = None" "\<not> git_tracking_heading sec" "non_checkpoint_heading sec"
    by (auto simp: section_not_fence section_not_git_heading section_match_heading)
  have vt: "visible (\<lambda>l. l) Outside (splitlines text) = visible (\<lambda>l. l) Outside pre @ sec # visible (\<lambda>l. l) Outside post"
    using fa sec by (simp add: t visible_append)
  have vo: "visible (\<lambda>l. l) Outside (splitlines out) = visible (\<lambda>l. l) Outside pre @ ?S @ sec # visible (\<lambda>l. l) Outside post"
    using fa sec by (simp add: o visible_inserted)
  from none have nh: "\<forall>l \<in> set (visible (\<lambda>l. l) Outside pre @ visible (\<lambda>l. l) Outside post). \<not> git_tracking_heading l"
    by (auto simp: has_git_tracking_visible vt)
  have "length (live_git_tracking_heading_line_numbers out) =
      length (filter git_tracking_heading (visible (\<lambda>l. l) Outside (splitlines out)))"
    by (simp add: heading_numbers_live live_lines_visible [symmetric] filter_map comp_def)
  also have "\<dots> = 1" using nh sec(2) unfolding vo
    by (simp add: section_lines_def filter_empty_conv)
  finally have one: "length (live_git_tracking_heading_line_numbers out) = 1" .
  have dw: "dropWhile (\<lambda>l. \<not> git_tracking_heading l) (visible (\<lambda>l. l) Outside (splitlines out)) =
      ?S @ sec # visible (\<lambda>l. l) Outside post"
    using nh unfolding vo by (simp add: dropWhile_append section_lines_def)
  have "metadata_lines_loop Outside (False, []) (splitlines out) = tl ?S"
    unfolding metadata_lines_visible dw using sec(3) by (simp add: section_lines_def)
  moreover have "metadata_fields empty_metadata False (tl ?S) =
     empty_metadata\<lparr>plan_branch := Some branch, pre_handoff_base_head := Some head\<rparr>"
    by (rule metadata_of_section_lines) (use sv in \<open>auto simp: single_value_def\<close>)
  moreover from one have "live_git_tracking_heading_line_numbers out \<noteq> []" by auto
  ultimately show ?thesis using one
    by (simp add: parse_git_tracking_metadata_def Let_def empty_metadata_def)
qed

subsection \<open>The sections move down by five lines\<close>

definition shift_line :: "nat \<Rightarrow> nat \<times> string \<Rightarrow> nat \<times> string" where
  "shift_line d nl = (fst nl + d, snd nl)"

lemma shift_line_simps [simp]: "shift_line d (n, l) = (n + d, l)" "snd (shift_line d nl) = snd nl"
  by (simp_all add: shift_line_def)

definition shift_section :: "nat \<Rightarrow> checkpoint_section \<Rightarrow> checkpoint_section" where
  "shift_section d s = s\<lparr>line_number := line_number s + d\<rparr>"

lemma enumerate_shift: "enumerate (n + d) ls = map (shift_line d) (enumerate n ls)"
  by (induction ls arbitrary: n) (simp_all add: shift_line_def del: add_Suc add: add_Suc [symmetric])

lemma visible_enumerate_shift:
  "visible snd f (enumerate (n + d) ls) = map (shift_line d) (visible snd f (enumerate n ls))"
  unfolding enumerate_shift visible_map [symmetric] by (simp add: comp_def shift_line_def)

lemma sections_spec_shift: "sections_spec (map (shift_line d) ls) = map (shift_section d) (sections_spec ls)"
proof (induction ls)
  case (Cons nl ls)
  have "step_marks (body_lines (map (shift_line d) ls)) = step_marks (body_lines ls)"
    by (induction ls) (auto simp: body_lines_def step_marks_Cons split: option.splits)
  with Cons show ?case
    by (cases nl) (auto simp: shift_section_def count_marks_def open_section_def split: option.splits)
qed simp

lemma section_match_section_lines: "\<forall>l \<in> set (section_lines b h). section_match l = None"
  by (simp add: section_lines_def section_match_def)

lemma insert_sections:
  assumes ins: "insert_git_tracking_section text head branch = Inr out"
    and ne: "no_eol branch" "no_eol head"
  shows "sections_spec (live_plan_lines out) = map (shift_section 5) (sections_spec (live_plan_lines text))"
proof -
  obtain pre sec post where
    t: "splitlines text = pre @ sec # post" and o: "splitlines out = pre @ section_lines branch head @ sec # post"
    and fa: "fence_after Outside pre = Outside" and "section_match sec \<noteq> None"
    and before: "\<forall>l \<in> set (visible (\<lambda>l. l) Outside pre). section_match l = None"
    and "\<not> plan_has_git_tracking text" "single_value branch" "single_value head"
    by (rule insert_splitlines [OF ins ne])
  let ?S = "section_lines branch head"
  let ?n = "Suc (length pre)"
  have fe: "fence_after Outside (map snd (enumerate 1 pre)) = Outside" using fa by simp
  have none: "\<forall>nl \<in> set (visible snd Outside (enumerate 1 pre)). section_match (snd nl) = None"
  proof
    fix nl assume "nl \<in> set (visible snd Outside (enumerate 1 pre))"
    then have "snd nl \<in> set (map snd (visible snd Outside (enumerate 1 pre)))" by simp
    then show "section_match (snd nl) = None" using before by (simp only: visible_numbered)
  qed
  have vS: "visible snd Outside (enumerate ?n ?S) = enumerate ?n ?S"
    by (rule visible_all_plain) (simp add: section_lines_def)
  have noneS: "\<forall>nl \<in> set (enumerate ?n ?S). section_match (snd nl) = None"
    using section_match_section_lines [of branch head] by (simp add: section_lines_def)
  have aS: "fence_after Outside (map snd (enumerate ?n ?S)) = Outside"
    by (simp add: fence_after_all_plain section_lines_plain)
  have "live_plan_lines text = visible snd Outside (enumerate 1 pre) @ visible snd Outside (enumerate ?n (sec # post))"
    unfolding live_plan_lines_def t by (simp add: enumerate_append_eq visible_append fe [simplified])
  then have 1: "sections_spec (live_plan_lines text) = sections_spec (visible snd Outside (enumerate ?n (sec # post)))"
    using none by (simp add: sections_spec_append)
  have len: "length ?S = 5" by (simp add: section_lines_def)
  have "live_plan_lines out = visible snd Outside (enumerate 1 pre) @ enumerate ?n ?S @
      visible snd Outside (enumerate (?n + 5) (sec # post))"
    unfolding live_plan_lines_def o
    by (simp add: enumerate_append_eq visible_append fe [simplified] aS [simplified] vS len add.commute
        del: enumerate_simps)
  then have "sections_spec (live_plan_lines out) = sections_spec (visible snd Outside (enumerate (?n + 5) (sec # post)))"
    using none noneS by (simp add: sections_spec_append)
  also have "\<dots> = map (shift_section 5) (sections_spec (visible snd Outside (enumerate ?n (sec # post))))"
    by (simp only: visible_enumerate_shift sections_spec_shift)
  finally show ?thesis by (simp only: 1)
qed

subsection \<open>The rewrite changes one value\<close>

lemma field_line_match_Some:
  assumes "field_line_match field line = Some (a, b)"
  shows "\<exists>old p. line = a @ old @ b \<and> TICK \<notin> set old \<and> a = p @ [TICK]"
proof -
  from assms obtain d r1 where l: "lstrip line = d # r1"
    by (cases "lstrip line") (simp_all add: field_line_match_def)
  from assms l obtain r2 where s1: "spaces1 r1 = Some r2"
    by (cases "spaces1 r1") (simp_all add: field_line_match_def split: if_splits)
  from assms l s1 obtain r3 where p: "strip_prefix (field @ '':'') r2 = Some r3"
    by (cases "strip_prefix (field @ '':'') r2") (simp_all add: field_line_match_def split: if_splits)
  from assms l s1 p obtain r4 where s2: "spaces1 r3 = Some r4"
    by (cases "spaces1 r3") (simp_all add: field_line_match_def split: if_splits)
  from assms l s1 p s2 obtain t r5 where r4: "r4 = t # r5"
    by (cases r4) (simp_all add: field_line_match_def split: if_splits)
  from assms l s1 p s2 r4 have t: "t = TICK" and a: "a = take (length line - length r5) line"
    and b: "b = dropWhile (\<lambda>c. c \<noteq> TICK) r5"
    unfolding field_line_match_def Let_def by (simp_all split: if_splits)
  note 1 = l s1 p s2 [unfolded r4 t]
  have "\<exists>w. line = w @ d # r1"
    using 1(1) by (metis lstrip_def takeWhile_dropWhile_id)
  with 1(2,3,4) obtain p where line: "line = p @ TICK # r5"
    by (auto simp: strip_prefix_Some dest!: spaces1_length)
  then have "a = p @ [TICK]" by (simp add: a)
  moreover have "r5 = takeWhile (\<lambda>c. c \<noteq> TICK) r5 @ b" by (simp add: b)
  moreover have "TICK \<notin> set (takeWhile (\<lambda>c. c \<noteq> TICK) r5)" by (auto dest: set_takeWhileD)
  ultimately show ?thesis using line by (metis append.assoc append_Cons append_Nil)
qed

lemma rewrite_loop_done: "rewrite_loop field v f found True ls = ls"
  by (induction ls arbitrary: f found) (auto split: option.splits)

lemma rewrite_loop_one:
  "rewrite_loop field v f found False ls = ls \<or>
   (\<exists>xs line ys a b. ls = xs @ line # ys \<and> field_line_match field line = Some (a, b) \<and>
      rewrite_loop field v f found False ls = xs @ (a @ v @ b) # ys \<and>
      fence_match line = None \<and> fence_after f xs = Outside \<and>
      (found \<or> (\<exists>l \<in> set xs. git_tracking_heading l)))"
  (is "?same f found ls \<or> ?one f found ls")
proof (induction ls arbitrary: f found)
  case (Cons l ls)
  have step: "?same f found (l # ls) \<or> ?one f found (l # ls)"
    if "rewrite_loop field v f found False (l # ls) = l # rewrite_loop field v g fd False ls"
      and "g = (case fence_match l of Some m \<Rightarrow> fence_toggle f m | None \<Rightarrow> f)"
      and "fd \<Longrightarrow> found \<or> git_tracking_heading l" for g fd
    using Cons.IH [of g fd]
  proof
    assume "?same g fd ls"
    with that(1) show ?thesis by simp
  next
    assume "?one g fd ls"
    then obtain xs line ys a b where x: "ls = xs @ line # ys" "field_line_match field line = Some (a, b)"
      "rewrite_loop field v g fd False ls = xs @ (a @ v @ b) # ys" "fence_match line = None"
      "fence_after g xs = Outside" "fd \<or> (\<exists>l \<in> set xs. git_tracking_heading l)" by blast
    have "l # ls = (l # xs) @ line # ys" "fence_after f (l # xs) = Outside"
      "rewrite_loop field v f found False (l # ls) = (l # xs) @ (a @ v @ b) # ys"
      "found \<or> (\<exists>l \<in> set (l # xs). git_tracking_heading l)"
      using x that by (auto split: option.splits)
    with x(2,4) show ?thesis by blast
  qed
  show ?case
  proof (cases "fence_match l")
    case (Some m)
    show ?thesis by (rule step [of "fence_toggle f m" found]) (use Some in auto)
  next
    case None
    show ?thesis
    proof (cases "f = Outside \<and> found \<and> \<not> non_checkpoint_heading l \<and>
        starts_with (strip l) (''- '' @ field @ '':'') \<and> field_line_match field l \<noteq> None")
      case True
      then obtain a b where m: "field_line_match field l = Some (a, b)" by auto
      have "rewrite_loop field v f found False (l # ls) = [] @ (a @ v @ b) # ls"
        using True None m by (simp add: rewrite_loop_done)
      moreover have "fence_after f [] = Outside" using True by simp
      ultimately have "?one f found (l # ls)" using m None True by (metis append_Nil)
      then show ?thesis ..
    next
      case False
      show ?thesis
        by (rule step [of f "if f = Outside \<and> \<not> found then git_tracking_heading l else found"])
          (use False None in \<open>auto split: option.splits if_splits\<close>)
    qed
  qed
qed simp

end
