(* ===== verification/Plan_Properties.thy ===== *)
theory Plan_Properties
  imports Git_Insert
begin

text \<open>
  The promises of the plan parser and of the Git Tracking section, each followed by an application
  to a concrete plan.
\<close>

definition sample_plan :: string where
  "sample_plan =
     ''# Demo'' @ [LF] @
     ''### [x] Checkpoint 1: setup'' @ [LF] @ ''- [x] make'' @ [LF] @
     ''~~~'' @ [LF] @ ''### [ ] Checkpoint 9: quoted'' @ [LF] @ ''~~~'' @ [LF] @
     ''### [ ] Checkpoint 2: build'' @ [LF] @ ''- [x] one'' @ [LF] @ ''- [ ] two'' @ [LF] @ ''- [ ] three'' @ [LF]"

definition sample_section :: checkpoint_section where
  "sample_section = \<lparr>line_number = 7, section_name = ''Checkpoint 2: build'', heading_checked = False,
     unchecked_step_count = 2, checked_step_count = 1\<rparr>"

definition sample_parsed :: parsed_plan where
  "sample_parsed =
     \<lparr>plan_path = ''p.md'',
      plan_sections =
        [\<lparr>line_number = 2, section_name = ''Checkpoint 1: setup'', heading_checked = True,
          unchecked_step_count = 0, checked_step_count = 1\<rparr>, sample_section],
      plan_snap =
        \<lparr>current_checkpoint_name = Some ''Checkpoint 2: build'', unchecked_checkpoint_count = 1,
         current_checkpoint_unchecked_step_count = 2, is_complete = False,
         total_checkpoint_count = 2, current_checkpoint_index = Some 2\<rparr>\<rparr>"

lemma sample_parses: "parse_plan_text sample_plan ''p.md'' = Inr sample_parsed"
  by code_simp

text \<open>
  The single pass over the live lines computes, for every plan text, exactly the sections of the
  reference reading: one per live checkpoint heading, with the checked and unchecked steps of the
  lines up to the next heading; a text without one is refused as having no checkpoint sections.
\<close>

theorem plan_sections_reference:
  "collect_sections text p =
     (if sections_spec (live_plan_lines text) = [] then
        Inl (PlanParseError ((plain_error (p @ '': no checkpoint sections were found''))
               \<lparr>pe_admission_kind := Some MISSING_CHECKPOINT_SECTIONS\<rparr>))
      else Inr (sections_spec (live_plan_lines text)))"
  by (rule collect_sections_spec)

text \<open>
  C25. The snapshot of a plan that parses is exact: its counts are the numbers of sections and of
  unchecked headings, its current checkpoint is the first unchecked one with that section's name and
  open steps, and it is complete exactly when every heading is checked, in which case no section has
  an unchecked step left.
\<close>

theorem plan_snapshot_is_exact:
  assumes "parse_plan_text text p = Inr pl"
  shows "snapshot_exact (plan_sections pl) (plan_snap pl) \<and>
    (is_complete (plan_snap pl) \<longrightarrow> (\<forall>s \<in> set (plan_sections pl). unchecked_step_count s = 0)) \<and>
    sorted_wrt (<) (map line_number (plan_sections pl))"
proof -
  let ?ss = "sections_spec (live_plan_lines text)"
  from assms have cons: "\<forall>s \<in> set ?ss. \<not> inconsistent s" and pl: "plan_sections pl = ?ss"
    "plan_snap pl = build_snapshot ?ss" by (auto simp: parse_plan_text_Inr)
  have ex: "snapshot_exact ?ss (build_snapshot ?ss)" by (rule build_snapshot_exact)
  have "unchecked_step_count s = 0" if "is_complete (build_snapshot ?ss)" "s \<in> set ?ss" for s
    using that ex cons sections_spec_nonneg [of s] by (force simp: snapshot_exact_def inconsistent_def)
  with ex sections_spec_sorted [OF live_plan_lines_sorted] show ?thesis by (auto simp: pl)
qed

theorem plan_snapshot_is_exact_witness:
  "snapshot_exact (plan_sections sample_parsed) (plan_snap sample_parsed) \<and>
   current_checkpoint_index (plan_snap sample_parsed) = Some 2"
  using plan_snapshot_is_exact [OF sample_parses] by (simp add: sample_parsed_def)

text \<open>
  The tolerant loader agrees with the strict one wherever that succeeds, repeats every other
  refusal unchanged, and turns exactly the inconsistent state into a recovery snapshot that points at
  the first checked heading with open steps and counts that checkpoint and all later ones as open.
\<close>

theorem tolerant_loader_recovers:
  "case parse_plan_text text p of
     Inr pl \<Rightarrow> parse_plan_text_tolerant text p = Inr \<lparr>tolerant_plan = pl, tolerant_error = None\<rparr>
   | Inl x \<Rightarrow>
       (case find_index inconsistent (sections_spec (live_plan_lines text)) of
          None \<Rightarrow> parse_plan_text_tolerant text p = Inl x
        | Some k \<Rightarrow>
            (\<exists>e t. x = PlanParseError e \<and> parse_plan_text_tolerant text p = Inr t \<and>
               tolerant_error t = Some e \<and>
               plan_sections (tolerant_plan t) = sections_spec (live_plan_lines text) \<and>
               \<not> is_complete (plan_snap (tolerant_plan t)) \<and>
               current_checkpoint_index (plan_snap (tolerant_plan t)) = Some (int k + 1) \<and>
               unchecked_checkpoint_count (plan_snap (tolerant_plan t)) =
                 int (length (sections_spec (live_plan_lines text))) - int k))"
proof -
  let ?ss = "sections_spec (live_plan_lines text)"
  show ?thesis
  proof (cases "?ss = []")
    case True
    then show ?thesis
      by (simp add: parse_plan_text_def parse_plan_text_tolerant_def collect_sections_spec)
  next
    case False
    show ?thesis
    proof (cases "find_index inconsistent ?ss")
      case None
      then have "validate_sections ?ss p = None"
        by (simp add: validate_sections_def validate_from_None find_index_None)
      with None False show ?thesis
        by (simp add: parse_plan_text_def parse_plan_text_tolerant_def collect_sections_spec)
    next
      case (Some k)
      then have "validate_sections ?ss p = Some (inconsistent_error p k (length ?ss) (?ss ! k))"
        by (simp add: validate_sections_def validate_from_Some)
      with Some False show ?thesis
        by (simp add: parse_plan_text_def parse_plan_text_tolerant_def collect_sections_spec
            inconsistent_error_def build_recovery_snapshot_def)
    qed
  qed
qed

text \<open>
  For every section of a parsed plan, the task texts listed for it are the first ones up to the
  limit and the reported number never exceeds the section's own count of unchecked steps.
\<close>

theorem unchecked_texts_within_count:
  assumes "collect_sections text p = Inr ss" and "s \<in> set ss" and "0 \<le> limit"
  shows "int (length (fst (unchecked_step_texts text s limit))) = min limit (snd (unchecked_step_texts text s limit)) \<and>
    0 \<le> snd (unchecked_step_texts text s limit) \<and>
    snd (unchecked_step_texts text s limit) \<le> unchecked_step_count s \<and>
    [] \<notin> set (fst (unchecked_step_texts text s limit))"
proof -
  from assms have "s \<in> set (sections_spec (live_plan_lines text))" by (simp add: collect_sections_Inr)
  then obtain ys where u: "unchecked_step_texts text s limit = (take (nat limit) (open_tasks ys), int (length (open_tasks ys)))"
    and le: "int (length (open_tasks ys)) \<le> unchecked_step_count s"
    by (rule unchecked_step_texts_section)
  have "[] \<notin> set (take (nat limit) (open_tasks ys))"
    using set_take_subset [of "nat limit" "open_tasks ys"] by (auto simp: open_tasks_def)
  with u le assms(3) show ?thesis by (auto simp: min_def)
qed

theorem unchecked_texts_within_count_witness:
  "unchecked_step_texts sample_plan sample_section 1 = ([''two''], 2) \<and> (2::int) \<le> unchecked_step_count sample_section"
proof -
  have c: "collect_sections sample_plan ''p.md'' = Inr (plan_sections sample_parsed)" by code_simp
  have m: "sample_section \<in> set (plan_sections sample_parsed)" by (simp add: sample_parsed_def)
  have u: "unchecked_step_texts sample_plan sample_section 1 = ([''two''], 2)" by code_simp
  show ?thesis using unchecked_texts_within_count [OF c m, of 1] u by simp
qed

text \<open>
  The fence-aware loops that the module writes out one by one all read the lines
  \<open>live_plan_lines\<close> yields: the presence test, the heading numbers, the checklist, the bootstrap
  test and the metadata section are functions of the live lines alone.
\<close>

theorem scanners_read_live_lines:
  "(plan_has_git_tracking text \<longleftrightarrow> (\<exists>nl \<in> set (live_plan_lines text). git_tracking_heading (snd nl))) \<and>
   live_git_tracking_heading_line_numbers text =
     map fst (filter (\<lambda>nl. git_tracking_heading (snd nl)) (live_plan_lines text)) \<and>
   checklist_loop Outside [] (splitlines text) =
     List.map_filter (\<lambda>l. map_option fst (step_match l)) (map snd (live_plan_lines text)) \<and>
   (bootstrap_loop Outside () (splitlines text) \<longleftrightarrow>
     \<not> (\<exists>nl \<in> set (live_plan_lines text). git_tracking_heading (snd nl) \<or> git_tracking_field (snd nl))) \<and>
   metadata_lines_loop Outside (False, []) (splitlines text) =
     takeWhile (\<lambda>l. \<not> non_checkpoint_heading l)
       (tl (dropWhile (\<lambda>l. \<not> git_tracking_heading l) (map snd (live_plan_lines text))))"
proof -
  have set: "set (visible (\<lambda>l. l) Outside (splitlines text)) = snd ` set (live_plan_lines text)"
    by (simp only: live_lines_visible [symmetric] set_map)
  have 1: "plan_has_git_tracking text \<longleftrightarrow> (\<exists>nl \<in> set (live_plan_lines text). git_tracking_heading (snd nl))"
    by (simp add: has_git_tracking_visible set)
  have 2: "bootstrap_loop Outside () (splitlines text) \<longleftrightarrow>
     \<not> (\<exists>nl \<in> set (live_plan_lines text). git_tracking_heading (snd nl) \<or> git_tracking_field (snd nl))"
    by (simp add: bootstrap_visible set)
  show ?thesis
    using 1 2 heading_numbers_live checklist_visible [of "splitlines text"] metadata_lines_visible [of "splitlines text"]
    by (simp only: live_lines_visible)
qed

text \<open>
  C39. Inserting the Git Tracking section and parsing the result reads the inserted branch and base
  commit back, with no review recorded, whenever the two values hold no line boundary.
\<close>

theorem inserted_section_reads_back:
  assumes "insert_git_tracking_section text head branch = Inr out" and "no_eol branch" and "no_eol head"
  shows "parse_git_tracking_metadata out =
     Inr (Some \<lparr>plan_branch = Some branch, pre_handoff_base_head = Some head,
                last_reviewed_head = None, review_log_entries = []\<rparr>)"
  using assms by (rule insert_parse)

theorem inserted_section_reads_back_witness:
  "\<exists>out. insert_git_tracking_section sample_plan ''abc1'' ''main'' = Inr out \<and>
     parse_git_tracking_metadata out =
       Inr (Some \<lparr>plan_branch = Some ''main'', pre_handoff_base_head = Some ''abc1'',
                  last_reviewed_head = None, review_log_entries = []\<rparr>)"
proof -
  have "\<not> is_error (insert_git_tracking_section sample_plan ''abc1'' ''main'')" by code_simp
  then obtain out where o: "insert_git_tracking_section sample_plan ''abc1'' ''main'' = Inr out"
    by (cases "insert_git_tracking_section sample_plan ''abc1'' ''main''") auto
  have n: "no_eol ''main''" "no_eol ''abc1''" by (simp_all add: char_class_defs)
  show ?thesis using o inserted_section_reads_back [OF o n] by blast
qed

text \<open>
  The insertion keeps every checkpoint section with its name, mark and step counts; each one only
  moves down by the five inserted lines.
\<close>

theorem insertion_keeps_sections:
  assumes "insert_git_tracking_section text head branch = Inr out" and "no_eol branch" and "no_eol head"
    and "collect_sections text p = Inr ss"
  shows "collect_sections out p = Inr (map (\<lambda>s. s\<lparr>line_number := line_number s + 5\<rparr>) ss)"
  using assms insert_sections [OF assms(1-3)]
  by (auto simp: collect_sections_Inr shift_section_def [abs_def])

theorem insertion_keeps_sections_witness:
  "\<exists>out. insert_git_tracking_section sample_plan ''abc1'' ''main'' = Inr out \<and>
     collect_sections out ''p.md'' =
       Inr (map (\<lambda>s. s\<lparr>line_number := line_number s + 5\<rparr>) (plan_sections sample_parsed))"
proof -
  have "\<not> is_error (insert_git_tracking_section sample_plan ''abc1'' ''main'')" by code_simp
  then obtain out where o: "insert_git_tracking_section sample_plan ''abc1'' ''main'' = Inr out"
    by (cases "insert_git_tracking_section sample_plan ''abc1'' ''main''") auto
  have n: "no_eol ''main''" "no_eol ''abc1''" by (simp_all add: char_class_defs)
  have c: "collect_sections sample_plan ''p.md'' = Inr (plan_sections sample_parsed)" by code_simp
  show ?thesis using o insertion_keeps_sections [OF o n c] by blast
qed

text \<open>
  The guard of the insertion excludes backticks, carriage returns and line feeds only. A branch
  name with another line boundary of \<^verbatim>\<open>splitlines\<close> (a vertical tab) passes it and is
  lost: the section is inserted but parses back without a branch.
\<close>

theorem insertion_loses_branch_with_vertical_tab:
  "\<exists>out md. insert_git_tracking_section sample_plan ''abc1'' (''a'' @ [CHR 0x0B] @ ''b'') = Inr out \<and>
     parse_git_tracking_metadata out = Inr (Some md) \<and> plan_branch md = None"
proof -
  let ?o = "insert_git_tracking_section sample_plan ''abc1'' (''a'' @ [CHR 0x0B] @ ''b'')"
  have "\<not> is_error ?o" by code_simp
  then obtain out where o: "?o = Inr out" by (cases ?o) auto
  have "rbind ?o parse_git_tracking_metadata =
      Inr (Some \<lparr>plan_branch = None, pre_handoff_base_head = Some ''abc1'',
                 last_reviewed_head = None, review_log_entries = []\<rparr>)"
    by code_simp
  with o show ?thesis by simp
qed

text \<open>
  A field rewrite either returns the text as it is or replaces the backtick value of one single
  line: a live line after the live Git Tracking heading that has the field's form.
\<close>

theorem rewrite_changes_one_value:
  assumes "rewrite_git_tracking_field text field v = Inr out"
  shows "out = text \<or>
    (\<exists>xs ys a old b. splitlines_keep text = xs @ (a @ old @ b) # ys \<and> TICK \<notin> set old \<and>
       field_line_match field (a @ old @ b) = Some (a, b) \<and>
       out = concat xs @ (a @ v @ b) @ concat ys \<and>
       fence_after Outside xs = Outside \<and> (\<exists>l \<in> set xs. git_tracking_heading l))"
proof -
  let ?L = "splitlines_keep text"
  from assms consider "out = text"
    | "out = concat (rewrite_loop field v Outside False False ?L)"
    by (auto simp: rewrite_git_tracking_field_def Let_def split: if_splits)
  then show ?thesis
  proof cases
    case 2
    from rewrite_loop_one [of field v Outside False ?L] show ?thesis
    proof
      assume "rewrite_loop field v Outside False False ?L = ?L"
      with 2 show ?thesis by simp
    next
      assume "\<exists>xs line ys a b. ?L = xs @ line # ys \<and> field_line_match field line = Some (a, b) \<and>
        rewrite_loop field v Outside False False ?L = xs @ (a @ v @ b) # ys \<and>
        fence_match line = None \<and> fence_after Outside xs = Outside \<and>
        (False \<or> (\<exists>l \<in> set xs. git_tracking_heading l))"
      then obtain xs line ys a b where x: "?L = xs @ line # ys" "field_line_match field line = Some (a, b)"
        "rewrite_loop field v Outside False False ?L = xs @ (a @ v @ b) # ys"
        "fence_after Outside xs = Outside" "\<exists>l \<in> set xs. git_tracking_heading l" by blast
      from field_line_match_Some [OF x(2)] obtain old where o: "line = a @ old @ b" "TICK \<notin> set old" by blast
      have "out = concat xs @ (a @ v @ b) @ concat ys" using 2 x(3) by simp
      with x o show ?thesis by blast
    qed
  qed simp
qed

definition tracked_plan :: string where
  "tracked_plan =
     ''## Git Tracking'' @ [LF] @ ''- Pre-Handoff Base HEAD: '' @ [TICK] @ ''h1'' @ [TICK, LF] @
     ''### [ ] Checkpoint 1'' @ [LF] @ ''- Plan Branch: '' @ [TICK] @ ''doc'' @ [TICK, LF] @ ''- [ ] t'' @ [LF]"

theorem rewrite_changes_one_value_witness:
  "\<exists>out. rewrite_git_tracking_field tracked_plan ''Pre-Handoff Base HEAD'' ''h2'' = Inr out \<and> out \<noteq> tracked_plan \<and>
     (\<exists>xs ys a old b. splitlines_keep tracked_plan = xs @ (a @ old @ b) # ys \<and> out = concat xs @ (a @ ''h2'' @ b) @ concat ys)"
proof -
  let ?r = "rewrite_git_tracking_field tracked_plan ''Pre-Handoff Base HEAD'' ''h2''"
  have "\<not> is_error ?r \<and> ?r \<noteq> Inr tracked_plan" by code_simp
  then obtain out where o: "?r = Inr out" "out \<noteq> tracked_plan" by (cases ?r) auto
  show ?thesis using o rewrite_changes_one_value [OF o(1)] by blast
qed

text \<open>
  The rewrite does not stop at the end of the Git Tracking section, although its description says
  that it rewrites the section's field only: with no such field in the section, a look-alike line in a
  later checkpoint is rewritten, and the parsed metadata does not change.
\<close>

theorem rewrite_leaves_the_section:
  "\<exists>out. rewrite_git_tracking_field tracked_plan ''Plan Branch'' ''b2'' = Inr out \<and> out \<noteq> tracked_plan \<and>
     parse_git_tracking_metadata out = parse_git_tracking_metadata tracked_plan"
proof -
  let ?r = "rewrite_git_tracking_field tracked_plan ''Plan Branch'' ''b2''"
  have "\<not> is_error ?r \<and> ?r \<noteq> Inr tracked_plan" by code_simp
  then obtain out where o: "?r = Inr out" "out \<noteq> tracked_plan" by (cases ?r) auto
  have "rbind ?r parse_git_tracking_metadata = parse_git_tracking_metadata tracked_plan" by code_simp
  with o show ?thesis by auto
qed

end
