(* ===== verification/Json.thy ===== *)
theory Json
  imports Prelude Py_Text
begin

text \<open>
  JSON values as Python's \<^verbatim>\<open>json\<close> module represents them, and the operations of
  \<^verbatim>\<open>dict\<close> the program applies to them. An object is an association list whose first entry
  for a key counts; no operation of the program depends on the order of keys. A float keeps its
  printed form and the integer it equals, if any, since Python's \<^verbatim>\<open>==\<close> compares \<open>1\<close>,
  \<open>1.0\<close> and \<open>True\<close> as equal. The size of a printed value is that of
  \<^verbatim>\<open>json.dumps(..., separators=(",", ":"))\<close> with its ASCII escapes.
\<close>

datatype json =
    JNull
  | JBool bool
  | JInt int
  | JFloat string "int option"
  | JStr string
  | JList "json list"
  | JObj "(string \<times> json) list"

type_synonym dict = "(string \<times> json) list"

text \<open>The exceptions a journal operation of the program may let escape.\<close>

datatype py_exn = TypeError string | KeyError string

subsection \<open>Dictionaries\<close>

text \<open>\<^verbatim>\<open>d.get(k)\<close>: a missing key reads as \<^verbatim>\<open>None\<close>.\<close>

definition dget :: "dict \<Rightarrow> string \<Rightarrow> json" where
  "dget d k = (case map_of d k of None \<Rightarrow> JNull | Some v \<Rightarrow> v)"

text \<open>\<^verbatim>\<open>d[k]\<close>\<close>

definition ditem :: "dict \<Rightarrow> string \<Rightarrow> py_exn + json" where
  "ditem d k = (case map_of d k of None \<Rightarrow> Inl (KeyError k) | Some v \<Rightarrow> Inr v)"

text \<open>\<^verbatim>\<open>d[k] = v\<close>: in place, or at the end.\<close>

fun dput :: "string \<Rightarrow> json \<Rightarrow> dict \<Rightarrow> dict" where
  "dput k v [] = [(k, v)]"
| "dput k v ((k', v') # d) = (if k' = k then (k, v) # d else (k', v') # dput k v d)"

text \<open>What a client of a key-value record relies on, and what it gets from that.\<close>

locale key_store =
  fixes get :: "'m \<Rightarrow> 'k \<Rightarrow> 'v" and put :: "'k \<Rightarrow> 'v \<Rightarrow> 'm \<Rightarrow> 'm"
  assumes get_put_same: "get (put k v m) k = v"
    and get_put_other: "k' \<noteq> k \<Longrightarrow> get (put k v m) k' = get m k'"
begin

lemma get_put: "get (put k v m) k' = (if k' = k then v else get m k')"
  by (simp add: get_put_same get_put_other)

definition put_all :: "('k \<times> 'v) list \<Rightarrow> 'm \<Rightarrow> 'm" where
  "put_all kvs m = foldl (\<lambda>m (k, v). put k v m) m kvs"

lemma put_all_simps:
  "put_all [] m = m"
  "put_all ((k, v) # kvs) m = put_all kvs (put k v m)"
  by (simp_all add: put_all_def)

text \<open>An update of several keys leaves every other key alone.\<close>

lemma get_put_all_other: "k' \<notin> fst ` set kvs \<Longrightarrow> get (put_all kvs m) k' = get m k'"
proof (induction kvs arbitrary: m)
  case (Cons kv kvs)
  then show ?case by (cases kv) (simp add: put_all_simps get_put_other)
qed (simp add: put_all_simps)

lemma get_put_all: "map_of (rev kvs) k = Some v \<Longrightarrow> get (put_all kvs m) k = v"
proof (induction kvs arbitrary: m)
  case (Cons kv kvs)
  obtain k1 v1 where kv: "kv = (k1, v1)" by (cases kv)
  show ?case
  proof (cases "map_of (rev kvs) k")
    case None
    then have "k \<notin> fst ` set kvs" by (metis map_of_eq_None_iff set_rev)
    moreover from Cons.prems None kv have "k1 = k" "v1 = v"
      by (auto simp: map_add_def split: if_splits)
    ultimately show ?thesis by (simp add: kv put_all_simps get_put_all_other get_put_same)
  next
    case (Some w)
    with Cons.prems kv have "w = v" by (simp add: map_add_def)
    with Some Cons.IH kv show ?thesis by (simp add: put_all_simps)
  qed
qed simp

end

lemma map_of_dput: "map_of (dput k v d) k' = (if k' = k then Some v else map_of d k')"
  by (induction k v d rule: dput.induct) auto

interpretation py_dict: key_store dget dput
  by unfold_locales (simp_all add: dget_def map_of_dput)

lemma dget_dput [simp]: "dget (dput k v d) k' = (if k' = k then v else dget d k')"
  by (rule py_dict.get_put)

lemma ditem_dput [simp]: "ditem (dput k v d) k' = (if k' = k then Inr v else ditem d k')"
  by (simp add: ditem_def map_of_dput)

lemma dget_simps [simp]:
  "dget [] k = JNull"
  "dget ((k, v) # d) k' = (if k' = k then v else dget d k')"
  by (simp_all add: dget_def)

lemma ditem_dget: "dget d k \<noteq> JNull \<Longrightarrow> ditem d k = Inr (dget d k)"
  by (auto simp: ditem_def dget_def split: option.splits)

lemma ditem_simps [simp]:
  "ditem [] k = Inl (KeyError k)"
  "ditem ((k, v) # d) k' = (if k' = k then Inr v else ditem d k')"
  by (simp_all add: ditem_def)

subsection \<open>Type tests and projections\<close>

fun is_str :: "json \<Rightarrow> bool" where
  "is_str (JStr s) = True"
| "is_str _ = False"

text \<open>\<^verbatim>\<open>isinstance(v, int) and not isinstance(v, bool)\<close>\<close>

fun is_plain_int :: "json \<Rightarrow> bool" where
  "is_plain_int (JInt n) = True"
| "is_plain_int _ = False"

fun str_of :: "json \<Rightarrow> string" where
  "str_of (JStr s) = s"
| "str_of _ = []"

fun int_of :: "json \<Rightarrow> int" where
  "int_of (JInt n) = n"
| "int_of _ = 0"

fun obj_of :: "json \<Rightarrow> dict" where
  "obj_of (JObj d) = d"
| "obj_of _ = []"

fun is_obj :: "json \<Rightarrow> bool" where
  "is_obj (JObj d) = True"
| "is_obj _ = False"

text \<open>\<^verbatim>\<open>v == n\<close> for a Python integer \<open>n\<close>.\<close>

fun equals_int :: "json \<Rightarrow> int \<Rightarrow> bool" where
  "equals_int (JInt m) n = (m = n)"
| "equals_int (JBool b) n = ((if b then 1 else 0) = n)"
| "equals_int (JFloat r i) n = (i = Some n)"
| "equals_int _ n = False"

text \<open>A list or a dictionary cannot be looked up in a set.\<close>

fun hashable :: "json \<Rightarrow> bool" where
  "hashable (JList xs) = False"
| "hashable (JObj d) = False"
| "hashable _ = True"

text \<open>Membership of a JSON value in a set of strings; an unhashable value raises.\<close>

definition in_str_set :: "string list \<Rightarrow> json \<Rightarrow> py_exn + bool" where
  "in_str_set ss v =
     (if \<not> hashable v then Inl (TypeError ''unhashable type'')
      else Inr (case v of JStr s \<Rightarrow> s \<in> set ss | _ \<Rightarrow> False))"

definition is_hex :: "char \<Rightarrow> bool" where
  "is_hex c = ((48 \<le> code c \<and> code c \<le> 57) \<or> (97 \<le> code c \<and> code c \<le> 102))"

definition hex_of_length :: "nat \<Rightarrow> json \<Rightarrow> bool" where
  "hex_of_length n v = (is_str v \<and> length (str_of v) = n \<and> list_all is_hex (str_of v))"

definition opt_json :: "('a \<Rightarrow> json) \<Rightarrow> 'a option \<Rightarrow> json" where
  "opt_json f x = (case x of None \<Rightarrow> JNull | Some a \<Rightarrow> f a)"

lemma is_str_iff: "is_str v \<longleftrightarrow> v = JStr (str_of v)"
  by (cases v) auto

lemma is_plain_int_iff: "is_plain_int v \<longleftrightarrow> v = JInt (int_of v)"
  by (cases v) auto

lemma is_obj_iff: "is_obj v \<longleftrightarrow> v = JObj (obj_of v)"
  by (cases v) auto

subsection \<open>The printed size\<close>

definition esc_size :: "char \<Rightarrow> nat" where
  "esc_size c =
     (if c = CHR 0x22 \<or> c = CHR 0x5C \<or> c = CHR 0x0A \<or> c = CHR 0x0D \<or> c = CHR 0x09 \<or>
         c = CHR 0x08 \<or> c = CHR 0x0C then 2
      else if 32 \<le> code c \<and> code c \<le> 126 then 1 else 6)"

definition str_size :: "string \<Rightarrow> nat" where
  "str_size s = 2 + sum_list (map esc_size s)"

fun json_size :: "json \<Rightarrow> nat" where
  "json_size JNull = 4"
| "json_size (JBool b) = (if b then 4 else 5)"
| "json_size (JInt n) = length (int_str n)"
| "json_size (JFloat r i) = length r"
| "json_size (JStr s) = str_size s"
| "json_size (JList xs) = 2 + (length xs - 1) + sum_list (map json_size xs)"
| "json_size (JObj d) =
     2 + (length d - 1) + sum_list (map (\<lambda>kv. str_size (fst kv) + 1 + json_size (snd kv)) d)"

end
