(* ===== verification/Broker_Journal.thy ===== *)
theory Broker_Journal
  imports Json
begin

text \<open>
  The journal of one execution resource (\<^verbatim>\<open>aflow/execution_resources.py\<close>): claim records and
  their validation, the journal's validation, and its reading and writing. A claim stays the
  dictionary the file holds, with keys this version does not know; after validation the journal is a
  record of the six keys the code rebuilds.
\<close>

subsection \<open>Claims\<close>

record controller_identity =
  ci_pid :: int
  ci_birth :: string
  ci_boot :: string

record claim_spec =
  cs_project_root :: string
  cs_run_id :: string
  cs_invocation_id :: string
  cs_kind :: string
  cs_role :: string
  cs_selector :: string

definition MAX_JOURNAL_BYTES :: nat where
  "MAX_JOURNAL_BYTES = 4 * 1024 * 1024"

definition MAX_OUTSTANDING_CLAIMS :: nat where
  "MAX_OUTSTANDING_CLAIMS = 4096"

definition CLAIM_STATUSES :: "string list" where
  "CLAIM_STATUSES = [''queued'', ''reserved'', ''launching'', ''running'', ''unconfirmed'']"

definition OWNER_STATUSES :: "string list" where
  "OWNER_STATUSES = [''reserved'', ''launching'', ''running'', ''unconfirmed'']"

definition valid_resource_id :: "string \<Rightarrow> bool" where
  "valid_resource_id r = (length r = 64 \<and> list_all is_hex r)"

definition claim_to_dict :: "claim_spec \<Rightarrow> int \<Rightarrow> controller_identity \<Rightarrow> string \<Rightarrow> dict" where
  "claim_to_dict spec ticket ctl status =
     [(''status'', JStr status),
      (''project_root'', JStr (cs_project_root spec)),
      (''run_id'', JStr (cs_run_id spec)),
      (''invocation_id'', JStr (cs_invocation_id spec)),
      (''kind'', JStr (cs_kind spec)),
      (''role'', JStr (cs_role spec)),
      (''selector'', JStr (cs_selector spec)),
      (''ticket'', JInt ticket),
      (''controller'', JObj [(''pid'', JInt (ci_pid ctl)), (''birth'', JStr (ci_birth ctl)),
                             (''boot'', JStr (ci_boot ctl))]),
      (''child_pid'', JNull),
      (''child_birth'', JNull),
      (''process_group'', JNull)]"

definition controller_fields_ok :: "dict \<Rightarrow> bool" where
  "controller_fields_ok ctl =
     (is_plain_int (dget ctl ''pid'') \<and> 1 \<le> int_of (dget ctl ''pid'') \<and>
      is_str (dget ctl ''birth'') \<and> str_of (dget ctl ''birth'') \<noteq> [] \<and>
      is_str (dget ctl ''boot'') \<and> str_of (dget ctl ''boot'') \<noteq> [])"

definition claim_from_dict :: "json \<Rightarrow> py_exn + dict option" where
  "claim_from_dict raw =
     (case raw of
        JObj c \<Rightarrow>
          if \<not> list_all (\<lambda>k. is_str (dget c k))
               [''project_root'', ''run_id'', ''invocation_id'', ''kind'', ''role'', ''selector'']
          then Inr None
          else rbind (in_str_set CLAIM_STATUSES (dget c ''status'')) (\<lambda>known.
            if \<not> known then Inr None
            else if \<not> is_plain_int (dget c ''ticket'') \<or> int_of (dget c ''ticket'') < 1 then Inr None
            else if \<not> is_obj (dget c ''controller'') then Inr None
            else if \<not> controller_fields_ok (obj_of (dget c ''controller'')) then Inr None
            else if \<not> list_all (\<lambda>k. dget c k = JNull \<or> is_plain_int (dget c k)) [''child_pid'', ''process_group'']
            then Inr None
            else if dget c ''child_birth'' \<noteq> JNull \<and> \<not> is_str (dget c ''child_birth'') then Inr None
            else Inr (Some c))
      | _ \<Rightarrow> Inr None)"

text \<open>The fields of a claim record.\<close>

definition c_status :: "dict \<Rightarrow> string" where "c_status c = str_of (dget c ''status'')"
definition c_ticket :: "dict \<Rightarrow> int" where "c_ticket c = int_of (dget c ''ticket'')"
definition c_inv :: "dict \<Rightarrow> string" where "c_inv c = str_of (dget c ''invocation_id'')"
definition c_controller :: "dict \<Rightarrow> dict" where "c_controller c = obj_of (dget c ''controller'')"

definition identity_matches :: "dict \<Rightarrow> controller_identity \<Rightarrow> bool" where
  "identity_matches claim ctl =
     (let r = c_controller claim in
      dget r ''pid'' = JInt (ci_pid ctl) \<and> dget r ''birth'' = JStr (ci_birth ctl) \<and>
      dget r ''boot'' = JStr (ci_boot ctl))"

definition spec_matches :: "dict \<Rightarrow> claim_spec \<Rightarrow> bool" where
  "spec_matches claim spec =
     (dget claim ''project_root'' = JStr (cs_project_root spec) \<and>
      dget claim ''run_id'' = JStr (cs_run_id spec) \<and>
      dget claim ''kind'' = JStr (cs_kind spec) \<and>
      dget claim ''role'' = JStr (cs_role spec) \<and>
      dget claim ''selector'' = JStr (cs_selector spec))"

text \<open>What the validation of a record decides, as one predicate.\<close>

definition claim_ok :: "dict \<Rightarrow> bool" where
  "claim_ok c =
     (list_all (\<lambda>k. is_str (dget c k))
        [''project_root'', ''run_id'', ''invocation_id'', ''kind'', ''role'', ''selector'', ''status''] \<and>
      c_status c \<in> set CLAIM_STATUSES \<and>
      is_plain_int (dget c ''ticket'') \<and> 1 \<le> c_ticket c \<and>
      is_obj (dget c ''controller'') \<and> controller_fields_ok (c_controller c) \<and>
      list_all (\<lambda>k. dget c k = JNull \<or> is_plain_int (dget c k)) [''child_pid'', ''process_group''] \<and>
      (dget c ''child_birth'' = JNull \<or> is_str (dget c ''child_birth'')))"

lemma claim_from_dict_ok: "claim_ok c \<Longrightarrow> claim_from_dict (JObj c) = Inr (Some c)"
  by (cases "dget c ''status''")
     (auto simp: claim_from_dict_def claim_ok_def in_str_set_def c_status_def c_ticket_def c_controller_def
       CLAIM_STATUSES_def)

lemma claim_from_dict_SomeD: "claim_from_dict raw = Inr (Some c) \<Longrightarrow> raw = JObj c \<and> claim_ok c"
  by (cases raw; cases "dget (obj_of raw) ''status''")
     (auto simp: claim_from_dict_def claim_ok_def in_str_set_def c_status_def c_ticket_def c_controller_def
       CLAIM_STATUSES_def split: if_splits)

lemma claim_from_dict_iff: "claim_from_dict raw = Inr (Some c) \<longleftrightarrow> raw = JObj c \<and> claim_ok c"
  using claim_from_dict_ok claim_from_dict_SomeD by blast

lemma dget_claim_to_dict [simp]:
  "dget (claim_to_dict spec t ctl st) ''status'' = JStr st"
  "dget (claim_to_dict spec t ctl st) ''invocation_id'' = JStr (cs_invocation_id spec)"
  "dget (claim_to_dict spec t ctl st) ''ticket'' = JInt t"
  "c_status (claim_to_dict spec t ctl st) = st"
  "c_inv (claim_to_dict spec t ctl st) = cs_invocation_id spec"
  "c_ticket (claim_to_dict spec t ctl st) = t"
  by (simp_all add: claim_to_dict_def c_status_def c_inv_def c_ticket_def)

lemma identity_matches_claim_to_dict: "identity_matches (claim_to_dict spec t ctl st) ctl"
  by (simp add: identity_matches_def claim_to_dict_def c_controller_def)

lemma spec_matches_claim_to_dict: "spec_matches (claim_to_dict spec t ctl st) spec"
  by (simp add: spec_matches_def claim_to_dict_def)

text \<open>The identity a controller obtains for itself.\<close>

definition controller_ok :: "controller_identity \<Rightarrow> bool" where
  "controller_ok ctl = (1 \<le> ci_pid ctl \<and> ci_birth ctl \<noteq> [] \<and> ci_boot ctl \<noteq> [])"

definition current_controller_identity :: "int \<Rightarrow> string option \<Rightarrow> string option \<Rightarrow> controller_identity option" where
  "current_controller_identity pid birth boot =
     (case (birth, boot) of
        (Some b, Some h) \<Rightarrow>
          if b = [] \<or> h = [] then None else Some \<lparr>ci_pid = pid, ci_birth = b, ci_boot = h\<rparr>
      | _ \<Rightarrow> None)"

lemma current_controller_identity_ok:
  "current_controller_identity pid birth boot = Some ctl \<Longrightarrow> 1 \<le> pid \<Longrightarrow> controller_ok ctl"
  by (auto simp: current_controller_identity_def controller_ok_def split: option.splits if_splits)

lemma claim_to_dict_ok:
  "controller_ok ctl \<Longrightarrow> 1 \<le> t \<Longrightarrow> st \<in> set CLAIM_STATUSES \<Longrightarrow> claim_ok (claim_to_dict spec t ctl st)"
  by (simp add: claim_ok_def claim_to_dict_def controller_ok_def controller_fields_ok_def c_status_def
      c_ticket_def c_controller_def)

text \<open>What an update leaves alone.\<close>

lemma claim_fields_dput [simp]:
  "c_status (dput k v c) = (if k = ''status'' then str_of v else c_status c)"
  "c_ticket (dput k v c) = (if k = ''ticket'' then int_of v else c_ticket c)"
  "c_inv (dput k v c) = (if k = ''invocation_id'' then str_of v else c_inv c)"
  "c_controller (dput k v c) = (if k = ''controller'' then obj_of v else c_controller c)"
  by (simp_all add: c_status_def c_ticket_def c_inv_def c_controller_def)

lemma identity_matches_dput [simp]:
  "k \<noteq> ''controller'' \<Longrightarrow> identity_matches (dput k v c) ctl = identity_matches c ctl"
  by (simp add: identity_matches_def)

lemma claim_ok_status: "claim_ok c \<Longrightarrow> s \<in> set CLAIM_STATUSES \<Longrightarrow> claim_ok (dput ''status'' (JStr s) c)"
  by (simp add: claim_ok_def)

subsection \<open>The journal\<close>

record journal =
  j_resource :: string
  j_revision :: int
  j_next :: int
  j_owner :: "dict option"
  j_queue :: "dict list"

definition empty_journal :: "string \<Rightarrow> journal" where
  "empty_journal r = \<lparr>j_resource = r, j_revision = 0, j_next = 1, j_owner = None, j_queue = []\<rparr>"

definition claims_of :: "journal \<Rightarrow> dict list" where
  "claims_of j = j_queue j @ (case j_owner j of None \<Rightarrow> [] | Some c \<Rightarrow> [c])"

text \<open>The loop over all claims, with the tickets and the invocations seen.\<close>

fun validate_claims :: "int list \<Rightarrow> string list \<Rightarrow> json list \<Rightarrow> py_exn + int list option" where
  "validate_claims ts is [] = Inr (Some ts)"
| "validate_claims ts is (raw # cs) =
     rbind (claim_from_dict raw) (\<lambda>r.
       case r of
         None \<Rightarrow> Inr None
       | Some c \<Rightarrow>
           if c_ticket c \<in> set ts then Inr None
           else if c_inv c \<in> set is then Inr None
           else validate_claims (c_ticket c # ts) (c_inv c # is) cs)"

definition validate_owner :: "json \<Rightarrow> py_exn + dict option option" where
  "validate_owner v =
     (if v = JNull then Inr (Some None)
      else rbind (claim_from_dict v) (\<lambda>r.
        case r of
          None \<Rightarrow> Inr None
        | Some c \<Rightarrow> if c_status c \<notin> set OWNER_STATUSES then Inr None else Inr (Some (Some c))))"

definition validate_journal :: "string \<Rightarrow> json \<Rightarrow> py_exn + journal option" where
  "validate_journal r data =
     (case data of
        JObj d \<Rightarrow>
          if \<not> equals_int (dget d ''version'') 1 then Inr None
          else if dget d ''resource'' \<noteq> JStr r then Inr None
          else if \<not> is_plain_int (dget d ''revision'') \<or> int_of (dget d ''revision'') < 0 then Inr None
          else if \<not> is_plain_int (dget d ''next_ticket'') \<or> int_of (dget d ''next_ticket'') < 1 then Inr None
          else rbind (validate_owner (dget d ''owner'')) (\<lambda>own.
            case own of
              None \<Rightarrow> Inr None
            | Some owner \<Rightarrow>
                (case dget d ''queue'' of
                   JList queue \<Rightarrow>
                     let claims = queue @ (case owner of None \<Rightarrow> [] | Some c \<Rightarrow> [JObj c]) in
                     if MAX_OUTSTANDING_CLAIMS < length claims then Inr None
                     else if \<not> list_all (\<lambda>q. is_obj q \<and> dget (obj_of q) ''status'' = JStr ''queued'') queue
                     then Inr None
                     else rbind (validate_claims [] [] claims) (\<lambda>ts.
                       case ts of
                         None \<Rightarrow> Inr None
                       | Some tickets \<Rightarrow>
                           if tickets \<noteq> [] \<and> int_of (dget d ''next_ticket'') \<le> max_default 0 tickets then Inr None
                           else Inr (Some \<lparr>j_resource = r, j_revision = int_of (dget d ''revision''),
                                          j_next = int_of (dget d ''next_ticket''), j_owner = owner,
                                          j_queue = map obj_of queue\<rparr>))
                 | _ \<Rightarrow> Inr None))
      | _ \<Rightarrow> Inr None)"

definition journal_to_json :: "journal \<Rightarrow> json" where
  "journal_to_json j =
     JObj [(''version'', JInt 1), (''resource'', JStr (j_resource j)), (''revision'', JInt (j_revision j)),
           (''next_ticket'', JInt (j_next j)), (''owner'', opt_json JObj (j_owner j)),
           (''queue'', JList (map JObj (j_queue j)))]"

text \<open>The invariant of a journal.\<close>

definition journal_ok :: "string \<Rightarrow> journal \<Rightarrow> bool" where
  "journal_ok r j =
     (j_resource j = r \<and> 0 \<le> j_revision j \<and> 1 \<le> j_next j \<and>
      list_all claim_ok (claims_of j) \<and>
      list_all (\<lambda>c. c_status c = ''queued'') (j_queue j) \<and>
      (case j_owner j of None \<Rightarrow> True | Some c \<Rightarrow> c_status c \<in> set OWNER_STATUSES) \<and>
      length (claims_of j) \<le> MAX_OUTSTANDING_CLAIMS \<and>
      distinct (map c_ticket (claims_of j)) \<and> distinct (map c_inv (claims_of j)) \<and>
      list_all (\<lambda>c. c_ticket c < j_next j) (claims_of j))"

lemma validate_claims_Inr:
  "validate_claims ts is raws = Inr (Some us) \<longleftrightarrow>
     (\<exists>cs. raws = map JObj cs \<and> list_all claim_ok cs \<and> us = rev (map c_ticket cs) @ ts \<and>
        distinct (map c_ticket cs) \<and> set (map c_ticket cs) \<inter> set ts = {} \<and>
        distinct (map c_inv cs) \<and> set (map c_inv cs) \<inter> set is = {})"
proof (induction raws arbitrary: ts "is")
  case Nil
  then show ?case by auto
next
  case (Cons raw raws)
  have *: "(\<exists>cs. raw # raws = map JObj cs \<and> P cs) \<longleftrightarrow> (\<exists>c cs. raw = JObj c \<and> raws = map JObj cs \<and> P (c # cs))" for P
    by (metis list.simps(9) map_eq_Cons_conv)
  show ?case
  proof (cases "\<exists>c. claim_from_dict raw = Inr (Some c)")
    case True
    then obtain c where c: "claim_from_dict raw = Inr (Some c)" by blast
    from claim_from_dict_SomeD [OF this] have rc: "raw = JObj c" "claim_ok c" by blast+
    show ?thesis
    proof (cases "c_ticket c \<in> set ts \<or> c_inv c \<in> set is")
      case True
      then have "validate_claims ts is (raw # raws) = Inr None" by (auto simp: c)
      with True show ?thesis unfolding * using rc by auto
    next
      case False
      then have "validate_claims ts is (raw # raws) = validate_claims (c_ticket c # ts) (c_inv c # is) raws"
        by (simp add: c)
      moreover have "(\<exists>cs. raws = map JObj cs \<and> list_all claim_ok cs \<and> us = rev (map c_ticket cs) @ c_ticket c # ts \<and>
            distinct (map c_ticket cs) \<and> set (map c_ticket cs) \<inter> set (c_ticket c # ts) = {} \<and>
            distinct (map c_inv cs) \<and> set (map c_inv cs) \<inter> set (c_inv c # is) = {}) \<longleftrightarrow>
         (\<exists>c' cs. raw = JObj c' \<and> raws = map JObj cs \<and> list_all claim_ok (c' # cs) \<and>
            us = rev (map c_ticket (c' # cs)) @ ts \<and>
            distinct (map c_ticket (c' # cs)) \<and> set (map c_ticket (c' # cs)) \<inter> set ts = {} \<and>
            distinct (map c_inv (c' # cs)) \<and> set (map c_inv (c' # cs)) \<inter> set is = {})"
        (is "(\<exists>cs. ?A cs) \<longleftrightarrow> (\<exists>c' cs. ?B c' cs)")
      proof -
        have 1: "?B c cs = ?A cs" for cs using rc False by (simp add: Int_insert_right conj_ac)
        have 2: "c' = c" if "?B c' cs" for c' cs using that rc by simp
        show ?thesis
        proof (rule iffI; elim exE)
          fix cs assume "?A cs"
          then have "?B c cs" by (rule 1 [THEN iffD2])
          then show "\<exists>c' cs. ?B c' cs" by (intro exI)
        next
          fix c' cs assume b: "?B c' cs"
          with 2 [OF b] have "?B c cs" by simp
          then have "?A cs" by (rule 1 [THEN iffD1])
          then show "\<exists>cs. ?A cs" by (rule exI)
        qed
      qed
      ultimately show ?thesis unfolding * using Cons.IH by simp
    qed
  next
    case False
    then have "\<not> (\<exists>c. raw = JObj c \<and> claim_ok c)" by (simp add: claim_from_dict_iff)
    with False show ?thesis unfolding * by (auto simp: rbind_Inr_iff split: option.splits)
  qed
qed

lemma validate_owner_Inr:
  "validate_owner v = Inr (Some ow) \<longleftrightarrow>
     (case ow of None \<Rightarrow> v = JNull
      | Some c \<Rightarrow> v = JObj c \<and> claim_ok c \<and> c_status c \<in> set OWNER_STATUSES)"
  by (auto simp: validate_owner_def rbind_Inr_iff claim_from_dict_iff split: option.splits if_splits)

lemma list_all_obj: "list_all is_obj vs \<longleftrightarrow> (\<exists>ds. vs = map JObj ds)"
proof (induction vs)
  case (Cons v vs)
  then show ?case by (cases v) (auto simp: Cons_eq_map_conv)
qed simp

lemma claim_ok_status_eq: "claim_ok c \<Longrightarrow> dget c ''status'' = JStr s \<longleftrightarrow> c_status c = s"
  by (auto simp: claim_ok_def c_status_def is_str_iff)

lemma max_default_less: "xs \<noteq> [] \<Longrightarrow> max_default d xs < (n::'a::linorder) \<longleftrightarrow> (\<forall>x \<in> set xs. x < n)"
  using max_default_ge [of _ xs d] max_default_in [of xs d] by (meson le_less_trans)

text \<open>Validation accepts what was printed from a well-formed journal, and nothing ill-formed.\<close>

lemma validate_to_json: "journal_ok r j \<Longrightarrow> validate_journal r (journal_to_json j) = Inr (Some j)"
proof -
  assume ok: "journal_ok r j"
  have own: "validate_owner (opt_json JObj (j_owner j)) = Inr (Some (j_owner j))"
    using ok by (auto simp: validate_owner_Inr journal_ok_def opt_json_def claims_of_def split: option.splits)
  have cl: "map JObj (j_queue j) @ (case j_owner j of None \<Rightarrow> [] | Some c \<Rightarrow> [JObj c]) = map JObj (claims_of j)"
    by (simp add: claims_of_def split: option.splits)
  have q: "list_all (\<lambda>q. is_obj q \<and> dget (obj_of q) ''status'' = JStr ''queued'') (map JObj (j_queue j))"
    using ok claim_ok_status_eq by (auto simp: journal_ok_def list_all_iff claims_of_def)
  have v: "validate_claims [] [] (map JObj (claims_of j)) = Inr (Some (rev (map c_ticket (claims_of j))))"
    using ok by (subst validate_claims_Inr) (auto simp: journal_ok_def)
  have n: "\<not> (rev (map c_ticket (claims_of j)) \<noteq> [] \<and> j_next j \<le> max_default 0 (rev (map c_ticket (claims_of j))))"
    using ok max_default_less [of "rev (map c_ticket (claims_of j))" 0 "j_next j"]
    by (auto simp: journal_ok_def list_all_iff not_le)
  have m: "\<not> MAX_OUTSTANDING_CLAIMS < length (map JObj (claims_of j))"
    using ok by (simp add: journal_ok_def)
  have m': "length (j_queue j) + length (case j_owner j of None \<Rightarrow> [] | Some c \<Rightarrow> [JObj c]) \<le> MAX_OUTSTANDING_CLAIMS"
    using m arg_cong [OF cl, of length] by simp
  show ?thesis
    using ok own q v n m m'
    by (simp add: validate_journal_def journal_to_json_def cl Let_def journal_ok_def
        del: map_append max_default_def length_map) (simp add: comp_def)
qed

lemma validate_journal_ok: "validate_journal r data = Inr (Some j) \<Longrightarrow> journal_ok r j"
proof -
  assume v: "validate_journal r data = Inr (Some j)"
  then obtain d where d: "data = JObj d" by (cases data) (auto simp: validate_journal_def)
  from v obtain ow where ow: "validate_owner (dget d ''owner'') = Inr (Some ow)"
    by (auto simp: d validate_journal_def rbind_Inr_iff split: if_splits option.splits)
  from v ow obtain queue where qq: "dget d ''queue'' = JList queue"
    by (auto simp: d validate_journal_def split: if_splits json.splits)
  let ?claims = "queue @ (case ow of None \<Rightarrow> [] | Some c \<Rightarrow> [JObj c])"
  from v ow qq obtain ts where ts: "validate_claims [] [] ?claims = Inr (Some ts)"
    and len: "length ?claims \<le> MAX_OUTSTANDING_CLAIMS"
    and st: "list_all (\<lambda>q. is_obj q \<and> dget (obj_of q) ''status'' = JStr ''queued'') queue"
    and nx: "ts \<noteq> [] \<Longrightarrow> max_default 0 ts < int_of (dget d ''next_ticket'')"
    and rv: "0 \<le> int_of (dget d ''revision'')" and n1: "1 \<le> int_of (dget d ''next_ticket'')"
    and j: "j = \<lparr>j_resource = r, j_revision = int_of (dget d ''revision''),
                 j_next = int_of (dget d ''next_ticket''), j_owner = ow, j_queue = map obj_of queue\<rparr>"
    by (auto simp: d validate_journal_def Let_def rbind_Inr_iff not_le split: if_splits option.splits)
  from ts obtain cs where cs: "?claims = map JObj cs" "list_all claim_ok cs"
    "ts = rev (map c_ticket cs)" "distinct (map c_ticket cs)" "distinct (map c_inv cs)"
    by (auto simp: validate_claims_Inr)
  have "map obj_of ?claims = cs" by (simp add: cs(1) comp_def)
  then have cl: "claims_of j = cs" by (simp add: claims_of_def j split: option.splits)
  have "\<forall>c \<in> set cs. c_ticket c < j_next j"
  proof (cases "cs = []")
    case False
    then have "ts \<noteq> []" by (simp add: cs(3))
    with nx have "max_default 0 ts < j_next j" by (simp add: j)
    with max_default_less [OF \<open>ts \<noteq> []\<close>] show ?thesis by (auto simp: cs(3))
  qed simp
  moreover have "list_all (\<lambda>c. c_status c = ''queued'') (j_queue j)"
    using st by (auto simp: j list_all_iff c_status_def)
  moreover have "case j_owner j of None \<Rightarrow> True | Some c \<Rightarrow> c_status c \<in> set OWNER_STATUSES"
    using ow by (auto simp: j validate_owner_Inr split: option.splits)
  moreover have "length cs \<le> MAX_OUTSTANDING_CLAIMS" using len cs(1) by (metis length_map)
  ultimately show ?thesis
    using cs rv n1 by (simp add: journal_ok_def cl list_all_iff) (simp add: j)
qed

lemma empty_journal_ok: "journal_ok r (empty_journal r)"
  by (simp add: journal_ok_def empty_journal_def claims_of_def MAX_OUTSTANDING_CLAIMS_def)

lemma journal_okD:
  assumes "journal_ok r j"
  shows "0 \<le> j_revision j" "1 \<le> j_next j" "\<And>c. c \<in> set (claims_of j) \<Longrightarrow> claim_ok c"
    "\<And>c. c \<in> set (j_queue j) \<Longrightarrow> c_status c = ''queued''"
    "\<And>c. j_owner j = Some c \<Longrightarrow> c_status c \<in> set OWNER_STATUSES"
    "\<And>c. c \<in> set (claims_of j) \<Longrightarrow> c_ticket c < j_next j"
    "distinct (map c_inv (claims_of j))" "distinct (map c_ticket (claims_of j))"
  using assms by (auto simp: journal_ok_def list_all_iff)

end
