(* ===== verification/Broker_Ops.thy ===== *)
theory Broker_Ops
  imports Broker_Journal
begin

text \<open>
  The operations of \<^verbatim>\<open>ExecutionResourceStore\<close> (\<^verbatim>\<open>aflow/execution_resources.py\<close>). What the
  operating system answers is one record \<open>env\<close> per call: opening the lock file, taking the lock,
  reading the journal and replacing it. Every operation but the reconciliation has the shape
  \<open>run_locked\<close>: lock, read, decide, write. The locale \<open>journal_op\<close> states what a decision has to
  promise and what \<open>run_locked\<close> then guarantees; every operation is an interpretation of it.
\<close>

subsection \<open>Outcomes, the file and the environment\<close>

datatype outcome_state =
    Queued | Acquired | Contended | Rejected | Cancelled | Released | Retained | Reclaimed
  | Unchanged | Launching | Running

record outcome =
  o_state :: outcome_state
  o_ticket :: "int option"
  o_reason :: "string option"

definition rejected :: "string \<Rightarrow> outcome" where
  "rejected why = \<lparr>o_state = Rejected, o_ticket = None, o_reason = Some why\<rparr>"

text \<open>A journal path: absent, not a regular file, or a file of some size and decoded content.\<close>

datatype node = Missing | Irregular | Regular nat "json option"

datatype lock_result = Granted | Busy | Broken

text \<open>
  Replacing the file: it succeeds, it fails before the rename, or the rename took place and removing
  the temporary name failed.
\<close>

datatype write_result = Written | Lost | Published_Then_Failed

record env =
  e_open_ok :: bool
  e_lock :: lock_result
  e_stat_ok :: bool
  e_read_ok :: bool
  e_write :: write_result

subsection \<open>Reading and writing\<close>

definition read_journal :: "env \<Rightarrow> string \<Rightarrow> node \<Rightarrow> py_exn + (string + journal)" where
  "read_journal env r nd =
     (case nd of
        Missing \<Rightarrow> Inr (Inr (empty_journal r))
      | Irregular \<Rightarrow>
          if \<not> e_stat_ok env then Inr (Inl ''journal_io_failure'') else Inr (Inl ''journal_not_regular'')
      | Regular sz content \<Rightarrow>
          if \<not> e_stat_ok env then Inr (Inl ''journal_io_failure'')
          else if MAX_JOURNAL_BYTES < sz then Inr (Inl ''journal_size_exceeded'')
          else if \<not> e_read_ok env then Inr (Inl ''malformed_journal'')
          else (case content of
                  None \<Rightarrow> Inr (Inl ''malformed_journal'')
                | Some data \<Rightarrow>
                    rbind (validate_journal r data) (\<lambda>res.
                      Inr (case res of None \<Rightarrow> Inl ''malformed_journal'' | Some j \<Rightarrow> Inr j))))"

definition write_journal :: "env \<Rightarrow> journal \<Rightarrow> node \<Rightarrow> node \<times> string option" where
  "write_journal env j nd =
     (let payload = journal_to_json j; new = Regular (json_size payload) (Some payload) in
      if MAX_JOURNAL_BYTES < json_size payload then (nd, Some ''journal_size_exceeded'')
      else (case e_write env of
              Written \<Rightarrow> (new, None)
            | Lost \<Rightarrow> (nd, Some ''io_failure'')
            | Published_Then_Failed \<Rightarrow> (new, Some ''io_failure'')))"

text \<open>What a locked body decides: an answer with nothing written, or a journal and the answer after it.\<close>

datatype decision = Stop outcome | Publish journal outcome

definition run_locked ::
  "env \<Rightarrow> string \<Rightarrow> node \<Rightarrow> (journal \<Rightarrow> decision) \<Rightarrow> node \<times> (py_exn + outcome)" where
  "run_locked env r nd body =
     (if \<not> e_open_ok env then (nd, Inr (rejected ''store_io_failure''))
      else (case e_lock env of
              Broken \<Rightarrow> (nd, Inr (rejected ''lock_io_failure''))
            | Busy \<Rightarrow> (nd, Inr \<lparr>o_state = Contended, o_ticket = None, o_reason = Some ''lock_contended''\<rparr>)
            | Granted \<Rightarrow>
                (case read_journal env r nd of
                   Inl e \<Rightarrow> (nd, Inl e)
                 | Inr (Inl why) \<Rightarrow> (nd, Inr (rejected why))
                 | Inr (Inr j) \<Rightarrow>
                     (case body j of
                        Stop out \<Rightarrow> (nd, Inr out)
                      | Publish j' out \<Rightarrow>
                          (case write_journal env j' nd of
                             (nd', None) \<Rightarrow> (nd', Inr out)
                           | (nd', Some why) \<Rightarrow> (nd', Inr (rejected why)))))))"

subsection \<open>The bodies\<close>

text \<open>Where a claim was found: the object identity the code compares with \<^verbatim>\<open>is\<close>.\<close>

datatype claim_ref = AtOwner | AtQueue nat

definition find_claim :: "journal \<Rightarrow> string \<Rightarrow> (claim_ref \<times> dict) option" where
  "find_claim j iv =
     (let scan = map_option (\<lambda>i. (AtQueue i, j_queue j ! i)) (find_index (\<lambda>c. c_inv c = iv) (j_queue j)) in
      case j_owner j of
        Some c \<Rightarrow> if c_inv c = iv then Some (AtOwner, c) else scan
      | None \<Rightarrow> scan)"

definition drop_at :: "nat \<Rightarrow> 'a list \<Rightarrow> 'a list" where
  "drop_at i xs = take i xs @ drop (Suc i) xs"

definition enqueue_body :: "claim_spec \<Rightarrow> controller_identity \<Rightarrow> journal \<Rightarrow> decision" where
  "enqueue_body spec ctl j =
     (case find_claim j (cs_invocation_id spec) of
        Some (_, existing) \<Rightarrow>
          if identity_matches existing ctl \<and> spec_matches existing spec then
            (if c_status existing = ''reserved''
             then Stop \<lparr>o_state = Acquired, o_ticket = Some (c_ticket existing), o_reason = None\<rparr>
             else Stop \<lparr>o_state = Queued, o_ticket = Some (c_ticket existing), o_reason = None\<rparr>)
          else Stop (rejected ''identity_conflict'')
      | None \<Rightarrow>
          if MAX_OUTSTANDING_CLAIMS \<le> length (j_queue j) + (case j_owner j of None \<Rightarrow> 0 | Some _ \<Rightarrow> 1)
          then Stop (rejected ''capacity'')
          else Publish
                 (j\<lparr>j_next := j_next j + 1,
                    j_queue := j_queue j @ [claim_to_dict spec (j_next j) ctl ''queued''],
                    j_revision := j_revision j + 1\<rparr>)
                 \<lparr>o_state = Queued, o_ticket = Some (j_next j), o_reason = None\<rparr>)"

definition enqueue ::
  "env \<Rightarrow> string \<Rightarrow> claim_spec \<Rightarrow> controller_identity option \<Rightarrow> node \<Rightarrow> node \<times> (py_exn + outcome)" where
  "enqueue env r spec ctl nd =
     (if \<not> valid_resource_id r then (nd, Inr (rejected ''invalid_resource_id''))
      else (case ctl of
              None \<Rightarrow> (nd, Inr (rejected ''controller_identity_unavailable''))
            | Some c \<Rightarrow> run_locked env r nd (enqueue_body spec c)))"

definition busy :: "dict \<Rightarrow> string \<Rightarrow> outcome" where
  "busy claim why = \<lparr>o_state = Queued, o_ticket = Some (c_ticket claim), o_reason = Some why\<rparr>"

definition acquire_body :: "string \<Rightarrow> controller_identity \<Rightarrow> journal \<Rightarrow> decision" where
  "acquire_body iv ctl j =
     (case find_claim j iv of
        None \<Rightarrow> Stop (rejected ''unknown_invocation'')
      | Some (at, claim) \<Rightarrow>
          if \<not> identity_matches claim ctl then Stop (rejected ''identity_conflict'')
          else if c_status claim \<noteq> ''queued'' then Stop (busy claim ''busy'')
          else (case (j_owner j, at, min_by c_ticket (j_queue j)) of
                  (Some ow, _, _) \<Rightarrow>
                    Stop (busy claim (if c_status ow = ''unconfirmed'' then ''owner_unconfirmed'' else ''busy''))
                | (None, AtQueue i, Some head) \<Rightarrow>
                    if c_inv head \<noteq> iv then Stop (busy claim ''busy'')
                    else Publish
                           (j\<lparr>j_queue := drop_at i (j_queue j),
                              j_owner := Some (dput ''status'' (JStr ''reserved'') claim),
                              j_revision := j_revision j + 1\<rparr>)
                           \<lparr>o_state = Acquired, o_ticket = Some (c_ticket claim), o_reason = None\<rparr>
                | _ \<Rightarrow> Stop (rejected ''unknown_invocation'')))"

definition try_acquire ::
  "env \<Rightarrow> string \<Rightarrow> string \<Rightarrow> controller_identity \<Rightarrow> node \<Rightarrow> node \<times> (py_exn + outcome)" where
  "try_acquire env r iv ctl nd =
     (if \<not> valid_resource_id r then (nd, Inr (rejected ''invalid_resource_id''))
      else run_locked env r nd (acquire_body iv ctl))"

definition cancel_body :: "string \<Rightarrow> controller_identity \<Rightarrow> journal \<Rightarrow> decision" where
  "cancel_body iv ctl j =
     (case find_claim j iv of
        None \<Rightarrow> Stop (rejected ''unknown_invocation'')
      | Some (at, claim) \<Rightarrow>
          if \<not> identity_matches claim ctl then Stop (rejected ''identity_conflict'')
          else if c_status claim \<notin> {''queued'', ''reserved''} then Stop (rejected ''not_cancellable'')
          else Publish
                 (case at of
                    AtOwner \<Rightarrow> j\<lparr>j_owner := None, j_revision := j_revision j + 1\<rparr>
                  | AtQueue i \<Rightarrow> j\<lparr>j_queue := drop_at i (j_queue j), j_revision := j_revision j + 1\<rparr>)
                 \<lparr>o_state = Cancelled, o_ticket = Some (c_ticket claim), o_reason = None\<rparr>)"

definition cancel ::
  "env \<Rightarrow> string \<Rightarrow> string \<Rightarrow> controller_identity \<Rightarrow> node \<Rightarrow> node \<times> (py_exn + outcome)" where
  "cancel env r iv ctl nd =
     (if \<not> valid_resource_id r then (nd, Inr (rejected ''invalid_resource_id''))
      else run_locked env r nd (cancel_body iv ctl))"

text \<open>A transition of the owner: \<open>None\<close> releases the resource, \<open>Some\<close> rewrites the claim.\<close>

definition owned_body ::
  "string \<Rightarrow> controller_identity \<Rightarrow> string list \<Rightarrow> (dict \<Rightarrow> dict) option \<Rightarrow> outcome_state \<Rightarrow>
   string option \<Rightarrow> journal \<Rightarrow> decision" where
  "owned_body iv ctl allowed mutate success why j =
     (case j_owner j of
        None \<Rightarrow> Stop (rejected ''not_owner'')
      | Some ow \<Rightarrow>
          if c_inv ow \<noteq> iv then Stop (rejected ''not_owner'')
          else if \<not> identity_matches ow ctl then Stop (rejected ''identity_conflict'')
          else if c_status ow \<notin> set allowed then Stop (rejected ''not_owner'')
          else Publish
                 (j\<lparr>j_owner := map_option (\<lambda>f. f ow) mutate, j_revision := j_revision j + 1\<rparr>)
                 \<lparr>o_state = success, o_ticket = Some (c_ticket ow), o_reason = why\<rparr>)"

definition owned_transition ::
  "env \<Rightarrow> string \<Rightarrow> string \<Rightarrow> controller_identity \<Rightarrow> string list \<Rightarrow> (dict \<Rightarrow> dict) option \<Rightarrow>
   outcome_state \<Rightarrow> string option \<Rightarrow> node \<Rightarrow> node \<times> (py_exn + outcome)" where
  "owned_transition env r iv ctl allowed mutate success why nd =
     run_locked env r nd (owned_body iv ctl allowed mutate success why)"

definition mark_launching ::
  "env \<Rightarrow> string \<Rightarrow> string \<Rightarrow> controller_identity \<Rightarrow> node \<Rightarrow> node \<times> (py_exn + outcome)" where
  "mark_launching env r iv ctl nd =
     owned_transition env r iv ctl [''reserved''] (Some (dput ''status'' (JStr ''launching''))) Launching None nd"

text \<open>\<^verbatim>\<open>dict.update\<close>\<close>

definition dupdate :: "(string \<times> json) list \<Rightarrow> dict \<Rightarrow> dict" where
  "dupdate kvs d = foldl (\<lambda>d (k, v). dput k v d) d kvs"

definition child_update :: "int \<Rightarrow> string option \<Rightarrow> int option \<Rightarrow> dict \<Rightarrow> dict" where
  "child_update pid birth grp =
     dupdate [(''child_pid'', JInt pid), (''child_birth'', opt_json JStr birth),
              (''process_group'', opt_json JInt grp), (''status'', JStr ''running'')]"

definition register_child ::
  "env \<Rightarrow> string \<Rightarrow> string \<Rightarrow> controller_identity \<Rightarrow> int \<Rightarrow> string option \<Rightarrow> int option \<Rightarrow>
   node \<Rightarrow> node \<times> (py_exn + outcome)" where
  "register_child env r iv ctl pid birth grp nd =
     (if pid < 1 then (nd, Inr (rejected ''invalid_child''))
      else owned_transition env r iv ctl [''launching''] (Some (child_update pid birth grp)) Running None nd)"

definition record_completion ::
  "env \<Rightarrow> string \<Rightarrow> string \<Rightarrow> controller_identity \<Rightarrow> bool \<Rightarrow> node \<Rightarrow> node \<times> (py_exn + outcome)" where
  "record_completion env r iv ctl unconfirmed nd =
     (if unconfirmed then
        owned_transition env r iv ctl OWNER_STATUSES (Some (dput ''status'' (JStr ''unconfirmed''))) Retained
          (Some ''owner_unconfirmed'') nd
      else owned_transition env r iv ctl OWNER_STATUSES None Released None nd)"

subsection \<open>Facts about the queue\<close>

lemma child_update_as_puts: "dupdate kvs d = py_dict.put_all kvs d"
  by (simp add: dupdate_def py_dict.put_all_def)

lemma dget_child_update:
  "dget (child_update pid birth grp c) k =
     (if k = ''status'' then JStr ''running'' else if k = ''process_group'' then opt_json JInt grp
      else if k = ''child_birth'' then opt_json JStr birth else if k = ''child_pid'' then JInt pid else dget c k)"
  by (simp add: child_update_def dupdate_def)

lemma child_update_fields [simp]:
  "c_status (child_update pid birth grp c) = ''running''"
  "c_ticket (child_update pid birth grp c) = c_ticket c"
  "c_inv (child_update pid birth grp c) = c_inv c"
  "c_controller (child_update pid birth grp c) = c_controller c"
  by (simp_all add: c_status_def c_ticket_def c_inv_def c_controller_def dget_child_update)

lemma child_update_ok: "claim_ok c \<Longrightarrow> claim_ok (child_update pid birth grp c)"
  by (cases birth; cases grp)
     (simp_all add: claim_ok_def dget_child_update opt_json_def CLAIM_STATUSES_def)

lemma drop_at_split: "i < length xs \<Longrightarrow> xs = take i xs @ xs ! i # drop (Suc i) xs"
  by (rule id_take_nth_drop)

lemma set_drop_at: "set (drop_at i xs) \<subseteq> set xs"
  using set_take_subset [of i xs] set_drop_subset [of "Suc i" xs] by (auto simp: drop_at_def)

lemma length_drop_at: "i < length xs \<Longrightarrow> length (drop_at i xs) = length xs - 1"
  by (simp add: drop_at_def)

lemma map_drop_at: "map f (drop_at i xs) = drop_at i (map f xs)"
  by (simp add: drop_at_def take_map drop_map)

lemma distinct_drop_at: "distinct xs \<Longrightarrow> distinct (drop_at i xs)"
proof -
  assume d: "distinct xs"
  have "set (take i xs) \<inter> set (drop (Suc i) xs) = {}"
    by (rule set_take_disj_set_drop_if_distinct [OF d]) simp
  with d show ?thesis by (simp add: drop_at_def)
qed

lemma mset_drop_at: "i < length xs \<Longrightarrow> insert (xs ! i) (set (drop_at i xs)) = set xs"
proof -
  assume "i < length xs"
  then have "set xs = set (take i xs @ xs ! i # drop (Suc i) xs)" by (simp only: drop_at_split [symmetric])
  then show ?thesis by (auto simp: drop_at_def)
qed

lemma distinct_insert_drop_at:
  "i < length xs \<Longrightarrow> distinct (map f xs) \<Longrightarrow> f (xs ! i) \<notin> f ` set (drop_at i xs)"
proof -
  assume i: "i < length xs" and d: "distinct (map f xs)"
  have "map f xs = map f (take i xs) @ f (xs ! i) # map f (drop (Suc i) xs)"
    using drop_at_split [OF i] by (metis list.simps(9) map_append)
  with d have "distinct (map f (take i xs) @ f (xs ! i) # map f (drop (Suc i) xs))" by simp
  then show ?thesis by (auto simp: drop_at_def)
qed

lemma find_claim_cases:
  assumes "find_claim j iv = Some (at, c)"
  obtains (owner) "at = AtOwner" "j_owner j = Some c" "c_inv c = iv"
    | (waiting) i where "at = AtQueue i" "i < length (j_queue j)" "c = j_queue j ! i" "c_inv c = iv"
proof -
  consider (a) "at = AtOwner" "j_owner j = Some c" "c_inv c = iv"
    | (b) i where "find_index (\<lambda>c. c_inv c = iv) (j_queue j) = Some i" "at = AtQueue i" "c = j_queue j ! i"
    using assms by (auto simp: find_claim_def Let_def split: option.splits if_splits)
  then show thesis
  proof cases
    case a
    then show thesis by (rule owner)
  next
    case b
    with find_index_Some [OF b(1)] show thesis by (auto intro: waiting)
  qed
qed

lemma find_claim_in: "find_claim j iv = Some (at, c) \<Longrightarrow> c \<in> set (claims_of j) \<and> c_inv c = iv"
  by (erule find_claim_cases) (auto simp: claims_of_def)

lemma find_claim_None: "find_claim j iv = None \<longleftrightarrow> iv \<notin> c_inv ` set (claims_of j)"
  by (auto simp: find_claim_def claims_of_def Let_def find_index_None split: option.splits)

lemma find_claim_unique:
  assumes "journal_ok r j" and "c \<in> set (claims_of j)"
  shows "\<exists>at. find_claim j (c_inv c) = Some (at, c)"
proof (cases "find_claim j (c_inv c)")
  case None
  with assms(2) show ?thesis by (simp add: find_claim_None)
next
  case (Some x)
  then obtain at c' where f: "find_claim j (c_inv c) = Some (at, c')" by (cases x) auto
  from find_claim_in [OF f] assms have "c' = c"
    by (meson inj_onD distinct_map journal_okD(7))
  with f show ?thesis by simp
qed

subsection \<open>What every locked operation keeps\<close>

text \<open>
  The contract of a body: what it publishes is well formed and one revision later, and its tickets
  only grow. The consequences for the file are proved once.
\<close>

definition readable :: "string \<Rightarrow> node \<Rightarrow> bool" where
  "readable r nd =
     (case nd of
        Missing \<Rightarrow> True
      | Irregular \<Rightarrow> False
      | Regular sz content \<Rightarrow>
          sz \<le> MAX_JOURNAL_BYTES \<and>
          (case content of None \<Rightarrow> False | Some data \<Rightarrow> \<not> is_error (validate_journal r data) \<and>
             validate_journal r data \<noteq> Inr None))"

text \<open>The journal a readable file holds.\<close>

definition journal_of :: "string \<Rightarrow> node \<Rightarrow> journal" where
  "journal_of r nd =
     (case nd of
        Regular sz (Some data) \<Rightarrow>
          (case validate_journal r data of Inr (Some j) \<Rightarrow> j | _ \<Rightarrow> empty_journal r)
      | _ \<Rightarrow> empty_journal r)"

definition all_ok :: env where
  "all_ok = \<lparr>e_open_ok = True, e_lock = Granted, e_stat_ok = True, e_read_ok = True, e_write = Written\<rparr>"

lemma readable_simps [simp]:
  "readable r Missing" "\<not> readable r Irregular" "\<not> readable r (Regular sz None)"
  "readable r (Regular sz (Some data)) \<longleftrightarrow>
     sz \<le> MAX_JOURNAL_BYTES \<and> (\<exists>j. validate_journal r data = Inr (Some j))"
  by (simp_all add: readable_def) (cases "validate_journal r data"; auto)

lemma journal_of_simps [simp]:
  "journal_of r Missing = empty_journal r"
  "validate_journal r data = Inr (Some j) \<Longrightarrow> journal_of r (Regular sz (Some data)) = j"
  by (simp_all add: journal_of_def)

lemma read_journal_readable:
  assumes "readable r nd" and "e_stat_ok env" and "e_read_ok env"
  shows "read_journal env r nd = Inr (Inr (journal_of r nd))"
proof (cases nd)
  case (Regular sz content)
  with assms show ?thesis by (cases content) (auto simp: read_journal_def)
qed (use assms in \<open>simp_all add: read_journal_def\<close>)

lemma read_journal_Inr:
  assumes "read_journal env r nd = Inr (Inr j)"
  shows "readable r nd \<and> j = journal_of r nd \<and> journal_ok r j"
proof (cases nd)
  case (Regular sz content)
  with assms obtain data where c: "content = Some data" and sz: "sz \<le> MAX_JOURNAL_BYTES"
    by (auto simp: read_journal_def split: if_splits option.splits)
  have e: "e_stat_ok env" "e_read_ok env" using assms Regular c by (auto simp: read_journal_def split: if_splits)
  have v: "validate_journal r data = Inr (Some j)"
  proof (cases "validate_journal r data")
    case (Inl x)
    with assms Regular c e sz show ?thesis by (simp add: read_journal_def not_less)
  next
    case (Inr res)
    with assms Regular c e sz show ?thesis by (cases res) (simp_all add: read_journal_def not_less)
  qed
  from v sz c Regular validate_journal_ok [OF v] show ?thesis by simp
next
  case Missing
  with assms have "j = empty_journal r" by (simp add: read_journal_def)
  with Missing empty_journal_ok show ?thesis by simp
next
  case Irregular
  with assms show ?thesis by (cases "e_stat_ok env") (simp_all add: read_journal_def)
qed

lemma journal_of_ok:
  assumes "readable r nd"
  shows "journal_ok r (journal_of r nd)"
proof -
  have "read_journal all_ok r nd = Inr (Inr (journal_of r nd))"
    by (rule read_journal_readable [OF assms]) (simp_all add: all_ok_def)
  from read_journal_Inr [OF this] show ?thesis by simp
qed

lemma write_journal_readable:
  assumes "write_journal env j nd = (nd', res)" and "readable r nd" and "journal_ok r j"
  shows "readable r nd' \<and> ((nd' = nd \<and> res \<noteq> None) \<or> journal_of r nd' = j)"
  using assms validate_to_json [OF assms(3)]
  by (auto simp: write_journal_def Let_def readable_def journal_of_def not_less
      split: if_splits write_result.splits)

locale journal_op =
  fixes body :: "journal \<Rightarrow> decision" and legit :: bool
  assumes publish_ok: "legit \<Longrightarrow> journal_ok r j \<Longrightarrow> body j = Publish j' out \<Longrightarrow> journal_ok r j'"
    and publish_revision: "body j = Publish j' out \<Longrightarrow> j_revision j' = j_revision j + 1"
    and publish_next: "body j = Publish j' out \<Longrightarrow> j_next j \<le> j_next j'"
    and publish_done: "legit \<Longrightarrow> body j = Publish j' out \<Longrightarrow> o_state out \<notin> {Rejected, Contended, Unchanged}"
begin

lemma run_locked_cases:
  assumes "run_locked env r nd body = (nd', res)" and "readable r nd" and "legit"
  obtains (kept) "nd' = nd"
    | (published) out where "body (journal_of r nd) = Publish (journal_of r nd') out"
        "readable r nd'" "res = Inr out \<or> res = Inr (rejected ''io_failure'')"
proof -
  have ok: "journal_ok r (journal_of r nd)" by (rule journal_of_ok [OF assms(2)])
  show thesis
  proof (cases "nd' = nd")
    case True
    then show thesis by (rule kept)
  next
    case False
    with assms(1) obtain j j' out where rd: "read_journal env r nd = Inr (Inr j)"
      and b: "body j = Publish j' out"
      and w: "(\<exists>err. write_journal env j' nd = (nd', err) \<and>
                 res = Inr (case err of None \<Rightarrow> out | Some why \<Rightarrow> rejected why))"
      by (auto simp: run_locked_def split: if_splits lock_result.splits sum.splits decision.splits prod.splits option.splits)
    from read_journal_Inr [OF rd] have j: "j = journal_of r nd" by simp
    from w obtain err where we: "write_journal env j' nd = (nd', err)"
      and res: "res = Inr (case err of None \<Rightarrow> out | Some why \<Rightarrow> rejected why)" by blast
    from publish_ok [OF assms(3) ok] b j have ok': "journal_ok r j'" by blast
    from write_journal_readable [OF we assms(2) ok'] False
    have "readable r nd'" "journal_of r nd' = j'" by auto
    moreover have "err = None \<or> err = Some ''io_failure''"
      using we False by (auto simp: write_journal_def Let_def split: if_splits write_result.splits)
    ultimately show thesis using published [of out] b j res by auto
  qed
qed

lemma keeps_readable:
  assumes "run_locked env r nd body = (nd', res)" and "readable r nd" and "legit"
  shows "readable r nd'"
  using assms by (rule run_locked_cases) (use assms in auto)

lemma revision_grows:
  assumes "run_locked env r nd body = (nd', res)" and "readable r nd" and "legit"
  shows "nd' = nd \<or> j_revision (journal_of r nd') = j_revision (journal_of r nd) + 1"
  using assms by (rule run_locked_cases) (use publish_revision in auto)

lemma next_grows:
  assumes "run_locked env r nd body = (nd', res)" and "readable r nd" and "legit"
  shows "j_next (journal_of r nd) \<le> j_next (journal_of r nd')"
  using assms by (rule run_locked_cases) (use publish_next in auto)

text \<open>An operation that reports a change has made exactly the change its body decided on.\<close>

lemma success_published:
  assumes "run_locked env r nd body = (nd', Inr out)" and "o_state out \<notin> {Rejected, Contended}"
    and "body (journal_of r nd) \<noteq> Stop out" and "legit"
  shows "readable r nd \<and> readable r nd' \<and> body (journal_of r nd) = Publish (journal_of r nd') out"
proof -
  from assms obtain j where rd: "read_journal env r nd = Inr (Inr j)"
    by (auto simp: run_locked_def rejected_def split: if_splits lock_result.splits sum.splits)
  from read_journal_Inr [OF rd] have j: "j = journal_of r nd" "readable r nd" "journal_ok r j" by auto
  from assms rd j(1) obtain j' where b: "body j = Publish j' out" and w: "write_journal env j' nd = (nd', None)"
    by (auto simp: run_locked_def rejected_def
        split: if_splits lock_result.splits decision.splits prod.splits option.splits)
  from write_journal_readable [OF w j(2) publish_ok [OF assms(4) j(3) b]] show ?thesis using b j by auto
qed

text \<open>A contended or rejected call leaves the file alone, unless the replacement itself was
  reported as failed after it took place.\<close>

lemma failure_keeps:
  assumes "run_locked env r nd body = (nd', Inr out)" and "o_state out \<in> {Rejected, Contended, Unchanged}"
    and "o_reason out \<noteq> Some ''io_failure''" and "readable r nd" and "legit"
  shows "nd' = nd"
  using assms(1,4,5)
proof (rule run_locked_cases)
  fix out'
  assume "body (journal_of r nd) = Publish (journal_of r nd') out'"
    and "Inr out = Inr out' \<or> Inr out = (Inr (rejected ''io_failure'') :: py_exn + outcome)"
  with publish_done [OF assms(5)] assms(2,3) show ?thesis by (auto simp: rejected_def)
qed

end

lemma claims_of_simps:
  "claims_of (j\<lparr>j_revision := v\<rparr>) = claims_of j"
  "claims_of (j\<lparr>j_next := n\<rparr>) = claims_of j"
  by (simp_all add: claims_of_def)

lemma enqueue_body_ok:
  assumes "journal_ok r j" and "enqueue_body spec ctl j = Publish j' out" and "controller_ok ctl"
  shows "journal_ok r j'"
proof -
  let ?c = "claim_to_dict spec (j_next j) ctl ''queued''"
  from assms(2) have f: "find_claim j (cs_invocation_id spec) = None"
    and cap: "length (claims_of j) < MAX_OUTSTANDING_CLAIMS"
    and j': "j' = j\<lparr>j_next := j_next j + 1, j_queue := j_queue j @ [?c], j_revision := j_revision j + 1\<rparr>"
    by (auto simp: enqueue_body_def claims_of_def not_le split: option.splits if_splits)
  note ok = journal_okD [OF assms(1)]
  have c: "claim_ok ?c" by (rule claim_to_dict_ok [OF assms(3) ok(2)]) (simp add: CLAIM_STATUSES_def)
  have set: "set (claims_of j') = insert ?c (set (claims_of j))"
    by (auto simp: claims_of_def j' split: option.splits)
  have tick: "c_ticket ?c \<notin> c_ticket ` set (claims_of j)" using ok(6) by fastforce
  have iv: "c_inv ?c \<notin> c_inv ` set (claims_of j)" using f by (simp add: find_claim_None)
  have d: "distinct (map g (claims_of j'))" if "distinct (map g (claims_of j))" "g ?c \<notin> g ` set (claims_of j)"
    for g :: "dict \<Rightarrow> 'b"
    using that by (auto simp: claims_of_def j' split: option.splits)
  have "list_all claim_ok (claims_of j')" using ok(3) c by (auto simp: list_all_iff set)
  moreover have "list_all (\<lambda>x. c_ticket x < j_next j') (claims_of j')"
    unfolding list_all_iff set using ok(6) by (force simp: j')
  moreover have "length (claims_of j') \<le> MAX_OUTSTANDING_CLAIMS"
    using cap by (simp add: claims_of_def j' split: option.splits)
  moreover note d [OF ok(8) tick] d [OF ok(7) iv]
  ultimately show ?thesis using assms(1) by (simp add: journal_ok_def) (simp add: j')
qed

lemma mset_claims_drop:
  "distinct (map f (q @ ws)) \<Longrightarrow> distinct (map f (drop_at i q @ ws))"
proof -
  assume d: "distinct (map f (q @ ws))"
  then have "distinct (drop_at i (map f q))" using distinct_drop_at by auto
  moreover have "set (map f (drop_at i q)) \<subseteq> set (map f q)" using set_drop_at by fastforce
  ultimately show ?thesis using d by (auto simp: map_drop_at)
qed

lemma queue_drop_ok:
  assumes "journal_ok r j" and "i < length (j_queue j)"
  shows "journal_ok r (j\<lparr>j_queue := drop_at i (j_queue j), j_revision := j_revision j + 1\<rparr>)"
proof -
  let ?ws = "case j_owner j of None \<Rightarrow> [] | Some c \<Rightarrow> [c]"
  have "distinct (map c_ticket (drop_at i (j_queue j) @ ?ws))" "distinct (map c_inv (drop_at i (j_queue j) @ ?ws))"
    using assms(1) by (auto simp only: journal_ok_def claims_of_def intro!: mset_claims_drop)
  moreover have "length (drop_at i (j_queue j)) \<le> length (j_queue j)"
    using length_drop_at [OF assms(2)] by simp
  ultimately show ?thesis
    using assms(1) set_drop_at [of i "j_queue j"] by (auto simp: journal_ok_def claims_of_def list_all_iff)
qed

lemma owner_clear_ok: "journal_ok r j \<Longrightarrow> journal_ok r (j\<lparr>j_owner := None, j_revision := j_revision j + 1\<rparr>)"
  by (auto simp: journal_ok_def claims_of_def split: option.splits)

lemma owner_update_ok:
  assumes "journal_ok r j" and "j_owner j = Some c" and "claim_ok c'" and "c_ticket c' = c_ticket c"
    and "c_inv c' = c_inv c" and "c_status c' \<in> set OWNER_STATUSES"
  shows "journal_ok r (j\<lparr>j_owner := Some c', j_revision := j_revision j + 1\<rparr>)"
  using assms by (simp add: journal_ok_def claims_of_def)

lemma promote_ok:
  assumes ok: "journal_ok r j" and "j_owner j = None" and i: "i < length (j_queue j)"
  shows "journal_ok r (j\<lparr>j_queue := drop_at i (j_queue j),
           j_owner := Some (dput ''status'' (JStr ''reserved'') (j_queue j ! i)), j_revision := j_revision j + 1\<rparr>)"
proof -
  let ?c = "j_queue j ! i" and ?q = "drop_at i (j_queue j)"
  have cl: "claims_of j = j_queue j" using assms(2) by (simp add: claims_of_def)
  note okd = journal_okD [OF ok, unfolded cl]
  have c: "claim_ok ?c" "c_ticket ?c < j_next j" using okd(3,6) i by simp_all
  have q: "list_all claim_ok ?q" "list_all (\<lambda>c. c_status c = ''queued'') ?q" "list_all (\<lambda>c. c_ticket c < j_next j) ?q"
    using okd(3,4,6) set_drop_at [of i "j_queue j"] by (auto simp: list_all_iff)
  have d: "distinct (map c_ticket ?q)" "distinct (map c_inv ?q)"
    using okd(7,8) by (simp_all add: map_drop_at distinct_drop_at)
  have n: "c_ticket ?c \<notin> c_ticket ` set ?q" "c_inv ?c \<notin> c_inv ` set ?q"
    using distinct_insert_drop_at [OF i okd(8)] distinct_insert_drop_at [OF i okd(7)] by simp_all
  have l: "length ?q < MAX_OUTSTANDING_CLAIMS"
    using ok cl i length_drop_at [OF i] by (simp add: journal_ok_def) arith
  have r: "claim_ok (dput ''status'' (JStr ''reserved'') ?c)"
    by (rule claim_ok_status [OF c(1)]) (simp add: CLAIM_STATUSES_def)
  show ?thesis
    using ok q d n l r c(2) by (simp add: journal_ok_def claims_of_def OWNER_STATUSES_def)
qed

lemma acquire_body_Publish:
  assumes "acquire_body iv ctl j = Publish j' out"
  obtains i c where "i < length (j_queue j)" "c = j_queue j ! i" "c_inv c = iv" "c_status c = ''queued''"
    "identity_matches c ctl" "j_owner j = None" "\<forall>d \<in> set (j_queue j). c_inv d = iv \<or> c_ticket d \<ge> c_ticket (the (min_by c_ticket (j_queue j)))"
    "min_by c_ticket (j_queue j) \<noteq> None" "c_inv (the (min_by c_ticket (j_queue j))) = iv"
    "j' = j\<lparr>j_queue := drop_at i (j_queue j), j_owner := Some (dput ''status'' (JStr ''reserved'') c),
            j_revision := j_revision j + 1\<rparr>"
    "out = \<lparr>o_state = Acquired, o_ticket = Some (c_ticket c), o_reason = None\<rparr>"
proof -
  from assms obtain at c where f: "find_claim j iv = Some (at, c)"
    by (auto simp: acquire_body_def split: option.splits)
  from assms f obtain i head where p: "at = AtQueue i" "j_owner j = None" "identity_matches c ctl" "c_status c = ''queued''"
    "min_by c_ticket (j_queue j) = Some head" "c_inv head = iv"
    "j' = j\<lparr>j_queue := drop_at i (j_queue j), j_owner := Some (dput ''status'' (JStr ''reserved'') c),
            j_revision := j_revision j + 1\<rparr>"
    "out = \<lparr>o_state = Acquired, o_ticket = Some (c_ticket c), o_reason = None\<rparr>"
    by (auto simp: acquire_body_def split: option.splits claim_ref.splits if_splits)
  from f p(1) have "i < length (j_queue j)" "c = j_queue j ! i" "c_inv c = iv"
    by (auto elim!: find_claim_cases)
  with p min_by_Some [OF p(5)] show thesis by (intro that) auto
qed

lemma cancel_body_Publish:
  assumes "cancel_body iv ctl j = Publish j' out"
  obtains (owner) c where "j_owner j = Some c" "c_inv c = iv" "identity_matches c ctl"
      "c_status c = ''queued'' \<or> c_status c = ''reserved''"
      "j' = j\<lparr>j_owner := None, j_revision := j_revision j + 1\<rparr>" "o_state out = Cancelled"
    | (waiting) i where "i < length (j_queue j)" "c_inv (j_queue j ! i) = iv" "identity_matches (j_queue j ! i) ctl"
      "j' = j\<lparr>j_queue := drop_at i (j_queue j), j_revision := j_revision j + 1\<rparr>" "o_state out = Cancelled"
proof -
  from assms obtain at c where f: "find_claim j iv = Some (at, c)"
    by (auto simp: cancel_body_def split: option.splits)
  from assms f have p: "identity_matches c ctl" "c_status c = ''queued'' \<or> c_status c = ''reserved''"
    "j' = (case at of AtOwner \<Rightarrow> j\<lparr>j_owner := None, j_revision := j_revision j + 1\<rparr>
                    | AtQueue i \<Rightarrow> j\<lparr>j_queue := drop_at i (j_queue j), j_revision := j_revision j + 1\<rparr>)"
    "o_state out = Cancelled"
    by (auto simp: cancel_body_def split: if_splits)
  from f show thesis
    by (rule find_claim_cases) (use p owner waiting in auto)
qed

lemma owned_body_Publish:
  assumes "owned_body iv ctl allowed m success why j = Publish j' out"
  obtains c where "j_owner j = Some c" "c_inv c = iv" "identity_matches c ctl" "c_status c \<in> set allowed"
    "j' = j\<lparr>j_owner := map_option (\<lambda>f. f c) m, j_revision := j_revision j + 1\<rparr>"
    "out = \<lparr>o_state = success, o_ticket = Some (c_ticket c), o_reason = why\<rparr>"
  using assms by (auto simp: owned_body_def split: option.splits if_splits)

text \<open>The rewrites of a claim the store applies to an owner.\<close>

definition owner_rewrite :: "(dict \<Rightarrow> dict) option \<Rightarrow> bool" where
  "owner_rewrite m \<longleftrightarrow>
     (case m of
        None \<Rightarrow> True
      | Some f \<Rightarrow> (\<forall>c. claim_ok c \<longrightarrow> claim_ok (f c) \<and> c_ticket (f c) = c_ticket c \<and> c_inv (f c) = c_inv c \<and>
                     c_status (f c) \<in> set OWNER_STATUSES))"

lemma owner_rewrites [simp]:
  "owner_rewrite None"
  "owner_rewrite (Some (dput ''status'' (JStr ''launching'')))"
  "owner_rewrite (Some (dput ''status'' (JStr ''unconfirmed'')))"
  "owner_rewrite (Some (child_update pid birth grp))"
  by (auto simp: owner_rewrite_def OWNER_STATUSES_def child_update_ok claim_ok_status CLAIM_STATUSES_def)

lemma owned_body_ok:
  assumes "journal_ok r j" and "owned_body iv ctl allowed m success why j = Publish j' out" and "owner_rewrite m"
  shows "journal_ok r j'"
  using assms(2)
proof (rule owned_body_Publish)
  fix c
  assume c: "j_owner j = Some c"
    and j': "j' = j\<lparr>j_owner := map_option (\<lambda>f. f c) m, j_revision := j_revision j + 1\<rparr>"
  have ok: "claim_ok c" by (rule journal_okD(3) [OF assms(1)]) (simp add: claims_of_def c)
  show ?thesis
  proof (cases m)
    case None
    with assms(1) j' show ?thesis by (simp add: owner_clear_ok)
  next
    case (Some f)
    with assms(3) ok have "claim_ok (f c)" "c_ticket (f c) = c_ticket c" "c_inv (f c) = c_inv c"
      "c_status (f c) \<in> set OWNER_STATUSES"
      by (auto simp: owner_rewrite_def)
    from owner_update_ok [OF assms(1) c this] j' Some show ?thesis by simp
  qed
qed

interpretation enq: journal_op "enqueue_body spec ctl" "controller_ok ctl" for spec ctl
proof
  fix r j j' out
  show "controller_ok ctl \<Longrightarrow> journal_ok r j \<Longrightarrow> enqueue_body spec ctl j = Publish j' out \<Longrightarrow> journal_ok r j'"
    by (rule enqueue_body_ok)
qed (auto simp: enqueue_body_def split: option.splits if_splits)

interpretation acq: journal_op "acquire_body iv ctl" True for iv ctl
proof
  fix r j j' out
  assume ok: "journal_ok r j" and b: "acquire_body iv ctl j = Publish j' out"
  from b show "journal_ok r j'"
    by (rule acquire_body_Publish) (use promote_ok [OF ok] in auto)
qed (auto elim!: acquire_body_Publish)

interpretation can: journal_op "cancel_body iv ctl" True for iv ctl
proof
  fix r j j' out
  assume ok: "journal_ok r j" and b: "cancel_body iv ctl j = Publish j' out"
  from b show "journal_ok r j'"
    by (rule cancel_body_Publish) (use queue_drop_ok [OF ok] owner_clear_ok [OF ok] in auto)
qed (auto elim!: cancel_body_Publish)

interpretation own: journal_op "owned_body iv ctl allowed m success why"
    "owner_rewrite m \<and> success \<notin> {Rejected, Contended, Unchanged}" for iv ctl allowed m success why
proof
  fix r j j' out
  assume "owner_rewrite m \<and> success \<notin> {Rejected, Contended, Unchanged}" and "journal_ok r j"
    and "owned_body iv ctl allowed m success why j = Publish j' out"
  then show "journal_ok r j'" using owned_body_ok by blast
qed (auto elim!: owned_body_Publish)

end
