(* ===== verification/Broker_Reconcile.thy ===== *)
theory Broker_Reconcile
  imports Broker_Ops
begin

text \<open>
  \<^verbatim>\<open>ExecutionResourceStore.reconcile\<close>: claims of dead controllers are judged on a journal read
  without the lock and removed under the lock if its revision is still the one that was read. Then the
  store as a transition system: one step is one locked call of any process, with whatever the
  operating system answered.
\<close>

subsection \<open>Evidence and the verdict on one claim\<close>

datatype liveness = Present | Absent | Unknown
datatype group_state = Group_Absent | Group_Present | Group_Unknown

record process_evidence =
  pe_liveness :: liveness
  pe_birth :: "string option"

definition json_opt_int :: "json \<Rightarrow> int option" where
  "json_opt_int v = (case v of JInt n \<Rightarrow> Some n | _ \<Rightarrow> None)"

definition child_gone :: "dict \<Rightarrow> process_evidence \<Rightarrow> py_exn + bool" where
  "child_gone c child =
     (if pe_liveness child = Absent then Inr True
      else if pe_liveness child \<noteq> Present then Inr False
      else rbind (ditem c ''child_birth'') (\<lambda>b.
        Inr (b \<noteq> JNull \<and> (case pe_birth child of None \<Rightarrow> False | Some b' \<Rightarrow> JStr b' \<noteq> b))))"

definition reconcile_gone :: "dict \<Rightarrow> (int \<Rightarrow> process_evidence) \<Rightarrow> (int option \<Rightarrow> group_state) \<Rightarrow> py_exn + bool" where
  "reconcile_gone c evidence groups =
     (if c_status c \<in> {''queued'', ''reserved''} then Inr True
      else rbind (ditem c ''child_pid'') (\<lambda>p.
        if p = JNull then Inr False
        else rbind (child_gone c (evidence (int_of p))) (\<lambda>gone.
          if \<not> gone then Inr False
          else rbind (ditem c ''process_group'') (\<lambda>g. Inr (groups (json_opt_int g) = Group_Absent)))))"

text \<open>\<open>True\<close> is the answer \<^verbatim>\<open>"remove"\<close>.\<close>

definition reconcile_claim ::
  "dict \<Rightarrow> string option \<Rightarrow> (int \<Rightarrow> process_evidence) \<Rightarrow> (int option \<Rightarrow> group_state) \<Rightarrow> py_exn + bool" where
  "reconcile_claim c boot evidence groups =
     (let ctl = c_controller c; observed = evidence (int_of (dget ctl ''pid'')) in
      if (case boot of None \<Rightarrow> False | Some b \<Rightarrow> dget ctl ''boot'' \<noteq> JStr b) then Inr True
      else (case pe_liveness observed of
              Present \<Rightarrow>
                (case pe_birth observed of
                   None \<Rightarrow> Inr False
                 | Some b \<Rightarrow> if JStr b \<noteq> dget ctl ''birth'' then reconcile_gone c evidence groups else Inr False)
            | Absent \<Rightarrow> reconcile_gone c evidence groups
            | Unknown \<Rightarrow> Inr False))"

subsection \<open>Sampling and committing\<close>

text \<open>The loop over the sampled claims: the invocations to remove, and the reason of the last one.\<close>

fun sample_claims ::
  "(dict \<Rightarrow> py_exn + bool) \<Rightarrow> string list \<Rightarrow> string option \<Rightarrow> (dict \<times> bool) list \<Rightarrow>
   py_exn + string list \<times> string option" where
  "sample_claims verdict removed why [] = Inr (removed, why)"
| "sample_claims verdict removed why ((c, is_owner) # cs) =
     rbind (verdict c) (\<lambda>remove.
       if remove then
         sample_claims verdict (removed @ [c_inv c])
           (Some (if is_owner then ''owner_reclaimed'' else ''dead_waiter_removed'')) cs
       else sample_claims verdict removed why cs)"

definition tagged_claims :: "journal \<Rightarrow> (dict \<times> bool) list" where
  "tagged_claims j =
     map (\<lambda>c. (c, False)) (j_queue j) @ (case j_owner j of None \<Rightarrow> [] | Some c \<Rightarrow> [(c, True)])"

definition commit_body :: "int \<Rightarrow> string list \<Rightarrow> string option \<Rightarrow> journal \<Rightarrow> decision" where
  "commit_body revision removed why j =
     (if j_revision j \<noteq> revision
      then Stop \<lparr>o_state = Unchanged, o_ticket = None, o_reason = Some ''revision_changed''\<rparr>
      else
        let drop_owner = (case j_owner j of None \<Rightarrow> False | Some c \<Rightarrow> c_inv c \<in> set removed);
            kept = filter (\<lambda>c. c_inv c \<notin> set removed) (j_queue j) in
        if \<not> drop_owner \<and> length kept = length (j_queue j)
        then Stop \<lparr>o_state = Unchanged, o_ticket = None, o_reason = None\<rparr>
        else Publish
               (j\<lparr>j_owner := (if drop_owner then None else j_owner j), j_queue := kept,
                  j_revision := j_revision j + 1\<rparr>)
               \<lparr>o_state = Reclaimed, o_ticket = None, o_reason = why\<rparr>)"

text \<open>
  The call: \<open>seen\<close> is the file at the unlocked read, \<open>nd\<close> the file when the lock is held. The
  environments are those of the two reads.
\<close>

definition reconcile ::
  "env \<Rightarrow> env \<Rightarrow> string \<Rightarrow> string option \<Rightarrow> (int \<Rightarrow> process_evidence) \<Rightarrow> (int option \<Rightarrow> group_state) \<Rightarrow>
   node \<Rightarrow> node \<Rightarrow> node \<times> (py_exn + outcome)" where
  "reconcile env0 env r boot evidence groups seen nd =
     (if \<not> valid_resource_id r then (nd, Inr (rejected ''invalid_resource_id''))
      else (case read_journal env0 r seen of
              Inl e \<Rightarrow> (nd, Inl e)
            | Inr (Inl why) \<Rightarrow> (nd, Inr (rejected why))
            | Inr (Inr j) \<Rightarrow>
                (case sample_claims (\<lambda>c. reconcile_claim c boot evidence groups) [] None (tagged_claims j) of
                   Inl e \<Rightarrow> (nd, Inl e)
                 | Inr (removed, why) \<Rightarrow>
                     if removed = [] then (nd, Inr \<lparr>o_state = Unchanged, o_ticket = None, o_reason = None\<rparr>)
                     else run_locked env r nd (commit_body (j_revision j) removed why))))"

lemma commit_body_Publish:
  assumes "commit_body rv removed why j = Publish j' out"
  shows "j_revision j = rv \<and> o_state out = Reclaimed \<and>
    j' = j\<lparr>j_owner := (case j_owner j of None \<Rightarrow> None | Some c \<Rightarrow> if c_inv c \<in> set removed then None else Some c),
           j_queue := filter (\<lambda>c. c_inv c \<notin> set removed) (j_queue j), j_revision := j_revision j + 1\<rparr>"
  using assms by (auto simp: commit_body_def Let_def split: if_splits option.splits)

lemma commit_body_ok:
  assumes "journal_ok r j" and "commit_body rv removed why j = Publish j' out"
  shows "journal_ok r j'"
proof -
  let ?p = "\<lambda>c. c_inv c \<notin> set removed"
  from commit_body_Publish [OF assms(2)]
  have j': "j' = j\<lparr>j_owner := (case j_owner j of None \<Rightarrow> None | Some c \<Rightarrow> if c_inv c \<in> set removed then None else Some c),
           j_queue := filter ?p (j_queue j), j_revision := j_revision j + 1\<rparr>" by simp
  have cl: "claims_of j' = filter ?p (claims_of j)" by (simp add: claims_of_def j' split: option.splits)
  have "length (claims_of j') \<le> length (claims_of j)" by (simp add: cl)
  moreover have "distinct (map c_ticket (claims_of j'))" "distinct (map c_inv (claims_of j'))"
    unfolding cl using assms(1) by (simp_all add: journal_ok_def distinct_map_filter')
  moreover have "list_all claim_ok (claims_of j')" "list_all (\<lambda>c. c_ticket c < j_next j') (claims_of j')"
    unfolding cl using assms(1) by (auto simp: journal_ok_def list_all_iff j')
  moreover have "list_all (\<lambda>c. c_status c = ''queued'') (j_queue j')"
    using assms(1) by (auto simp: journal_ok_def list_all_iff j')
  ultimately show ?thesis
    using assms(1) by (simp add: journal_ok_def) (auto simp: j' split: option.splits)
qed

interpretation rec: journal_op "commit_body rv removed why" True for rv removed why
proof
  fix r j j' out
  show "journal_ok r j \<Longrightarrow> commit_body rv removed why j = Publish j' out \<Longrightarrow> journal_ok r j'"
    by (rule commit_body_ok)
qed (auto dest!: commit_body_Publish)

subsection \<open>The verdicts\<close>

text \<open>Positive evidence that nothing of the claim runs any more.\<close>

definition controller_gone :: "dict \<Rightarrow> string option \<Rightarrow> (int \<Rightarrow> process_evidence) \<Rightarrow> bool" where
  "controller_gone c boot evidence \<longleftrightarrow>
     (let ctl = c_controller c; ob = evidence (int_of (dget ctl ''pid'')) in
      pe_liveness ob = Absent \<or>
      (pe_liveness ob = Present \<and> pe_birth ob \<noteq> None \<and> pe_birth ob \<noteq> Some (str_of (dget ctl ''birth''))))"

definition rebooted :: "dict \<Rightarrow> string option \<Rightarrow> bool" where
  "rebooted c boot \<longleftrightarrow> boot \<noteq> None \<and> boot \<noteq> Some (str_of (dget (c_controller c) ''boot''))"

definition child_positively_gone ::
  "dict \<Rightarrow> (int \<Rightarrow> process_evidence) \<Rightarrow> (int option \<Rightarrow> group_state) \<Rightarrow> bool" where
  "child_positively_gone c evidence groups \<longleftrightarrow>
     (\<exists>pid. dget c ''child_pid'' = JInt pid \<and>
        (pe_liveness (evidence pid) = Absent \<or>
         (pe_liveness (evidence pid) = Present \<and>
          (\<exists>b b'. dget c ''child_birth'' = JStr b \<and> pe_birth (evidence pid) = Some b' \<and> b' \<noteq> b))) \<and>
        groups (json_opt_int (dget c ''process_group'')) = Group_Absent)"

lemma claim_ok_controller:
  "claim_ok c \<Longrightarrow> dget (c_controller c) ''birth'' = JStr (str_of (dget (c_controller c) ''birth'')) \<and>
     dget (c_controller c) ''boot'' = JStr (str_of (dget (c_controller c) ''boot''))"
  by (auto simp: claim_ok_def controller_fields_ok_def is_str_iff)

lemma ditem_cases: "ditem c k = Inr v \<Longrightarrow> dget c k = v"
  by (auto simp: ditem_def dget_def split: option.splits)

lemma child_gone_True:
  assumes "claim_ok c" and "child_gone c child = Inr True"
  shows "pe_liveness child = Absent \<or>
    (pe_liveness child = Present \<and> (\<exists>b b'. dget c ''child_birth'' = JStr b \<and> pe_birth child = Some b' \<and> b' \<noteq> b))"
proof (cases "pe_liveness child")
  case Present
  with assms(2) obtain b b' where b: "dget c ''child_birth'' = b" "b \<noteq> JNull" "pe_birth child = Some b'" "JStr b' \<noteq> b"
    by (auto simp: child_gone_def rbind_Inr_iff dest!: ditem_cases split: option.splits)
  with assms(1) have "b = JStr (str_of b)" by (auto simp: claim_ok_def is_str_iff)
  then obtain s where s: "b = JStr s" by blast
  with b have "dget c ''child_birth'' = JStr s \<and> pe_birth child = Some b' \<and> b' \<noteq> s" by simp
  with Present show ?thesis by blast
qed (use assms in \<open>auto simp: child_gone_def\<close>)

lemma reconcile_gone_True:
  assumes "claim_ok c" and "reconcile_gone c evidence groups = Inr True"
  shows "c_status c \<in> {''queued'', ''reserved''} \<or> child_positively_gone c evidence groups"
proof (cases "c_status c \<in> {''queued'', ''reserved''}")
  case False
  with assms(2) obtain p g where p: "ditem c ''child_pid'' = Inr p" "p \<noteq> JNull"
    and cg: "child_gone c (evidence (int_of p)) = Inr True" and g: "ditem c ''process_group'' = Inr g"
    and grp: "groups (json_opt_int g) = Group_Absent"
    by (auto simp: reconcile_gone_def rbind_Inr_iff split: if_splits)
  from p assms(1) obtain n where n: "p = JInt n" "dget c ''child_pid'' = JInt n"
    by (auto simp: claim_ok_def is_plain_int_iff dest!: ditem_cases)
  from child_gone_True [OF assms(1) cg] n g grp show ?thesis
    by (auto simp: child_positively_gone_def dest!: ditem_cases)
qed simp

lemma reconcile_claim_True:
  assumes "claim_ok c" and "reconcile_claim c boot evidence groups = Inr True"
  shows "rebooted c boot \<or>
    (controller_gone c boot evidence \<and>
     (c_status c \<in> {''queued'', ''reserved''} \<or> child_positively_gone c evidence groups))"
proof -
  note b = claim_ok_controller [OF assms(1)]
  show ?thesis
  proof (cases "rebooted c boot")
    case False
    then have nb: "\<not> (case boot of None \<Rightarrow> False | Some x \<Rightarrow> dget (c_controller c) ''boot'' \<noteq> JStr x)"
      using b by (cases boot) (auto simp: rebooted_def)
    let ?o = "evidence (int_of (dget (c_controller c) ''pid''))"
    have "reconcile_gone c evidence groups = Inr True \<and> controller_gone c boot evidence"
      using assms(2) nb b
      by (cases "pe_liveness ?o"; cases "pe_birth ?o")
         (auto simp: reconcile_claim_def Let_def controller_gone_def split: if_splits)
    with reconcile_gone_True [OF assms(1)] show ?thesis by blast
  qed simp
qed

lemma sample_claims_removed:
  assumes "sample_claims verdict removed why cs = Inr (removed', why')"
  shows "set removed' = set removed \<union> c_inv ` {c. c \<in> fst ` set cs \<and> verdict c = Inr True}"
  using assms
proof (induction cs arbitrary: removed why)
  case (Cons cb cs)
  obtain c b where cb: "cb = (c, b)" by (cases cb)
  from Cons.prems cb obtain v where v: "verdict c = Inr v" by (auto simp: rbind_Inr_iff)
  show ?case
  proof (cases v)
    case True
    with Cons.prems v cb have "set removed' = set (removed @ [c_inv c]) \<union> c_inv ` {c. c \<in> fst ` set cs \<and> verdict c = Inr True}"
      by (intro Cons.IH) auto
    with v True cb show ?thesis by auto
  next
    case False
    with Cons.prems v cb have "set removed' = set removed \<union> c_inv ` {c. c \<in> fst ` set cs \<and> verdict c = Inr True}"
      by (intro Cons.IH) auto
    moreover have "{x. x \<in> fst ` set (cb # cs) \<and> verdict x = Inr True} = {x. x \<in> fst ` set cs \<and> verdict x = Inr True}"
      using v False cb by auto
    ultimately show ?thesis by simp
  qed
qed auto

lemma tagged_claims_fst: "fst ` set (tagged_claims j) = set (claims_of j)"
  by (cases "j_owner j") (simp_all add: tagged_claims_def claims_of_def image_Un image_image)

subsection \<open>The store as a transition system\<close>

datatype store_label =
    Enqueues controller_identity | Acquires string controller_identity | Cancels string controller_identity
  | Launches string controller_identity | Registers string controller_identity
  | Completes string controller_identity bool | Reconciles "string list"

inductive store_step :: "string \<Rightarrow> store_label \<Rightarrow> node \<Rightarrow> node \<Rightarrow> bool" for r where
  step_enqueue: "controller_ok ctl \<Longrightarrow> enqueue env r spec (Some ctl) nd = (nd', res) \<Longrightarrow>
    store_step r (Enqueues ctl) nd nd'"
| step_acquire: "try_acquire env r iv ctl nd = (nd', res) \<Longrightarrow> store_step r (Acquires iv ctl) nd nd'"
| step_cancel: "cancel env r iv ctl nd = (nd', res) \<Longrightarrow> store_step r (Cancels iv ctl) nd nd'"
| step_launch: "mark_launching env r iv ctl nd = (nd', res) \<Longrightarrow> store_step r (Launches iv ctl) nd nd'"
| step_register: "register_child env r iv ctl pid birth grp nd = (nd', res) \<Longrightarrow>
    store_step r (Registers iv ctl) nd nd'"
| step_complete: "record_completion env r iv ctl unc nd = (nd', res) \<Longrightarrow>
    store_step r (Completes iv ctl unc) nd nd'"
| step_reconcile: "run_locked env r nd (commit_body rv removed why) = (nd', res) \<Longrightarrow>
    store_step r (Reconciles removed) nd nd'"

inductive reaches :: "string \<Rightarrow> node \<Rightarrow> node \<Rightarrow> bool" for r where
  reaches_refl: "reaches r nd nd"
| reaches_step: "reaches r nd nd1 \<Longrightarrow> store_step r l nd1 nd2 \<Longrightarrow> reaches r nd nd2"

inductive_cases store_stepE: "store_step r l nd nd'"

text \<open>A step keeps the file, or its journal is what one of the bodies published.\<close>

definition step_body :: "store_label \<Rightarrow> journal \<Rightarrow> journal \<Rightarrow> bool" where
  "step_body l j j' \<longleftrightarrow>
     (case l of
        Enqueues ctl \<Rightarrow> \<exists>spec out. controller_ok ctl \<and> enqueue_body spec ctl j = Publish j' out
      | Acquires iv ctl \<Rightarrow> \<exists>out. acquire_body iv ctl j = Publish j' out
      | Cancels iv ctl \<Rightarrow> \<exists>out. cancel_body iv ctl j = Publish j' out
      | Launches iv ctl \<Rightarrow> \<exists>out. owned_body iv ctl [''reserved''] (Some (dput ''status'' (JStr ''launching'')))
                                Launching None j = Publish j' out
      | Registers iv ctl \<Rightarrow> \<exists>out pid birth grp. owned_body iv ctl [''launching''] (Some (child_update pid birth grp))
                                Running None j = Publish j' out
      | Completes iv ctl unc \<Rightarrow> \<exists>out. owned_body iv ctl OWNER_STATUSES
                                (if unc then Some (dput ''status'' (JStr ''unconfirmed'')) else None)
                                (if unc then Retained else Released) (if unc then Some ''owner_unconfirmed'' else None)
                                j = Publish j' out
      | Reconciles removed \<Rightarrow> \<exists>rv why out. commit_body rv removed why j = Publish j' out)"

lemma store_step_body:
  assumes "store_step r l nd nd'" and "readable r nd"
  shows "nd' = nd \<or> (readable r nd' \<and> step_body l (journal_of r nd) (journal_of r nd'))"
  using assms(1)
proof cases
  case (step_enqueue ctl env spec res)
  then have "nd' = nd \<or> run_locked env r nd (enqueue_body spec ctl) = (nd', res)"
    by (auto simp: enqueue_def split: if_splits)
  then show ?thesis
  proof
    assume "run_locked env r nd (enqueue_body spec ctl) = (nd', res)"
    then show ?thesis
      by (rule enq.run_locked_cases) (use assms(2) step_enqueue in \<open>auto simp: step_body_def\<close>)
  qed simp
next
  case (step_acquire env iv ctl res)
  then have "nd' = nd \<or> run_locked env r nd (acquire_body iv ctl) = (nd', res)"
    by (auto simp: try_acquire_def split: if_splits)
  then show ?thesis
  proof
    assume "run_locked env r nd (acquire_body iv ctl) = (nd', res)"
    then show ?thesis
      by (rule acq.run_locked_cases) (use assms(2) step_acquire in \<open>auto simp: step_body_def\<close>)
  qed simp
next
  case (step_cancel env iv ctl res)
  then have "nd' = nd \<or> run_locked env r nd (cancel_body iv ctl) = (nd', res)"
    by (auto simp: cancel_def split: if_splits)
  then show ?thesis
  proof
    assume "run_locked env r nd (cancel_body iv ctl) = (nd', res)"
    then show ?thesis
      by (rule can.run_locked_cases) (use assms(2) step_cancel in \<open>auto simp: step_body_def\<close>)
  qed simp
next
  case (step_launch env iv ctl res)
  from step_launch(2) show ?thesis
    unfolding mark_launching_def owned_transition_def
    by (rule own.run_locked_cases) (use assms(2) step_launch in \<open>auto simp: step_body_def\<close>)
next
  case (step_register env iv ctl pid birth grp res)
  show ?thesis
  proof (cases "pid < 1")
    case False
    with step_register(2) have "run_locked env r nd (owned_body iv ctl [''launching'']
        (Some (child_update pid birth grp)) Running None) = (nd', res)"
      by (simp add: register_child_def owned_transition_def)
    then show ?thesis
      by (rule own.run_locked_cases) (use assms(2) step_register in \<open>auto simp: step_body_def\<close>)
  qed (use step_register in \<open>simp add: register_child_def\<close>)
next
  case (step_complete env iv ctl unc res)
  then have "run_locked env r nd (owned_body iv ctl OWNER_STATUSES
        (if unc then Some (dput ''status'' (JStr ''unconfirmed'')) else None)
        (if unc then Retained else Released) (if unc then Some ''owner_unconfirmed'' else None)) = (nd', res)"
    by (simp add: record_completion_def owned_transition_def split: if_splits)
  then show ?thesis
    by (rule own.run_locked_cases) (use assms(2) step_complete in \<open>auto simp: step_body_def\<close>)
next
  case (step_reconcile env rv removed why res)
  from step_reconcile(2) show ?thesis
    by (rule rec.run_locked_cases) (use assms(2) step_reconcile in \<open>auto simp: step_body_def\<close>)
qed

lemma step_body_counts:
  assumes "step_body l j j'"
  shows "j_revision j' = j_revision j + 1 \<and> j_next j \<le> j_next j'"
  using assms
  by (cases l)
     (auto simp: step_body_def dest: enq.publish_revision enq.publish_next acq.publish_revision acq.publish_next
       can.publish_revision can.publish_next own.publish_revision own.publish_next
       rec.publish_revision rec.publish_next)

lemma reaches_readable: "reaches r nd nd' \<Longrightarrow> readable r nd \<Longrightarrow> readable r nd'"
  by (induction rule: reaches.induct) (use store_step_body in blast)+

text \<open>Unless the file is the same, the revision has grown.\<close>

lemma reaches_revision:
  assumes "reaches r nd nd'" and "readable r nd"
  shows "nd' = nd \<or> j_revision (journal_of r nd) < j_revision (journal_of r nd')"
  using assms
proof (induction rule: reaches.induct)
  case (reaches_step nd nd1 l nd2)
  have rd: "readable r nd1" by (rule reaches_readable [OF reaches_step.hyps(1) reaches_step.prems])
  from store_step_body [OF reaches_step.hyps(2) rd] step_body_counts reaches_step.IH [OF reaches_step.prems]
  show ?case by fastforce
qed simp

subsection \<open>First come, first served\<close>

text \<open>The owner's ticket and the queue's, from the front.\<close>

definition line_of :: "journal \<Rightarrow> int list" where
  "line_of j = map c_ticket ((case j_owner j of None \<Rightarrow> [] | Some c \<Rightarrow> [c]) @ j_queue j)"

definition fifo :: "journal \<Rightarrow> bool" where
  "fifo j \<longleftrightarrow> sorted_wrt (<) (line_of j)"

lemma fifo_empty: "fifo (empty_journal r)"
  by (simp add: fifo_def line_of_def empty_journal_def)

lemma sorted_wrt_drop_at: "sorted_wrt P xs \<Longrightarrow> sorted_wrt P (drop_at i xs)"
proof -
  assume s: "sorted_wrt P xs"
  have "xs = take (Suc i) xs @ drop (Suc i) xs" by simp
  moreover have "set (take i xs) \<subseteq> set (take (Suc i) xs)" by (rule set_take_subset_set_take) simp
  moreover have "sorted_wrt P (take (Suc i) xs @ drop (Suc i) xs)" using s by simp
  ultimately have "\<forall>x \<in> set (take i xs). \<forall>y \<in> set (drop (Suc i) xs). P x y"
    unfolding sorted_wrt_append by blast
  moreover have "sorted_wrt P (take i xs)" "sorted_wrt P (drop (Suc i) xs)"
    using s by (simp_all add: sorted_wrt_take sorted_wrt_drop)
  ultimately show ?thesis by (simp add: drop_at_def sorted_wrt_append)
qed

lemma min_index_zero:
  assumes "sorted_wrt (<) (map (f :: 'a \<Rightarrow> 'b::linorder) xs)" and "i < length xs" and "\<forall>x \<in> set xs. f (xs ! i) \<le> f x"
  shows "i = 0"
proof (rule ccontr)
  assume "i \<noteq> 0"
  with assms(2) have "map f xs ! 0 < map f xs ! i" by (intro sorted_wrt_nth_less [OF assms(1)]) simp_all
  moreover have "map f xs ! i = f (xs ! i)" "map f xs ! 0 = f (xs ! 0)" using assms(2) by (auto intro!: nth_map)
  ultimately have "f (xs ! 0) < f (xs ! i)" by (simp only:)
  moreover have "f (xs ! i) \<le> f (xs ! 0)" using assms(2,3) by (cases xs) auto
  ultimately show False by simp
qed

lemma fifo_enqueue:
  assumes "journal_ok r j" and "fifo j" and "enqueue_body spec ctl j = Publish j' out"
  shows "fifo j'"
proof -
  from assms(3) have j': "j_owner j' = j_owner j" "j_queue j' = j_queue j @ [claim_to_dict spec (j_next j) ctl ''queued'']"
    by (auto simp: enqueue_body_def split: option.splits if_splits)
  have "line_of j' = line_of j @ [j_next j]" by (simp add: line_of_def j')
  moreover have "\<forall>t \<in> set (line_of j). t < j_next j"
    using journal_okD(6) [OF assms(1)] by (auto simp: line_of_def claims_of_def split: option.splits)
  ultimately show ?thesis using assms(2) by (simp add: fifo_def sorted_wrt_append)
qed

lemma fifo_acquire:
  assumes "journal_ok r j" and "fifo j" and "acquire_body iv ctl j = Publish j' out"
  shows "fifo j'"
  using assms(3)
proof (rule acquire_body_Publish)
  fix i c
  assume i: "i < length (j_queue j)" and c: "c = j_queue j ! i" "c_inv c = iv" and o: "j_owner j = None"
    and m: "min_by c_ticket (j_queue j) \<noteq> None" "c_inv (the (min_by c_ticket (j_queue j))) = iv"
    and j': "j' = j\<lparr>j_queue := drop_at i (j_queue j), j_owner := Some (dput ''status'' (JStr ''reserved'') c),
            j_revision := j_revision j + 1\<rparr>"
  from m(1) obtain h where h1: "min_by c_ticket (j_queue j) = Some h" by blast
  with m(2) have h: "min_by c_ticket (j_queue j) = Some h" "c_inv h = iv" by simp_all
  from min_by_Some [OF h(1)] have hq: "h \<in> set (j_queue j)" "\<forall>y \<in> set (j_queue j). c_ticket h \<le> c_ticket y" by auto
  have "distinct (map c_inv (j_queue j))" using journal_okD(7) [OF assms(1)] o by (simp add: claims_of_def)
  with hq(1) h(2) c i have "h = c" by (metis inj_onD distinct_map nth_mem)
  have s: "sorted_wrt (<) (map c_ticket (j_queue j))" using assms(2) o by (simp add: fifo_def line_of_def)
  from min_index_zero [OF s i] hq(2) \<open>h = c\<close> c have "i = 0" by simp
  with i c have "map c_ticket (j_queue j) = c_ticket c # map c_ticket (drop_at i (j_queue j))"
    by (cases "j_queue j") (auto simp: drop_at_def)
  with s show ?thesis by (simp add: fifo_def line_of_def j')
qed

lemma step_body_kinds:
  assumes "step_body l j j'"
  obtains "\<exists>spec ctl out. enqueue_body spec ctl j = Publish j' out"
    | "\<exists>iv ctl out. acquire_body iv ctl j = Publish j' out"
    | "\<exists>iv ctl out. cancel_body iv ctl j = Publish j' out"
    | "\<exists>iv ctl al m su why out. owner_rewrite m \<and> owned_body iv ctl al m su why j = Publish j' out"
    | "\<exists>rv removed why out. commit_body rv removed why j = Publish j' out"
proof (cases l)
  case (Launches iv ctl)
  with assms obtain out where "owned_body iv ctl [''reserved''] (Some (dput ''status'' (JStr ''launching''))) Launching None j =
    Publish j' out" by (auto simp: step_body_def)
  with owner_rewrites(2) show thesis by (intro that(4)) blast
next
  case (Registers iv ctl)
  with assms obtain out pid birth grp where "owned_body iv ctl [''launching''] (Some (child_update pid birth grp))
    Running None j = Publish j' out" by (auto simp: step_body_def)
  with owner_rewrites(4) show thesis by (intro that(4)) blast
next
  case (Completes iv ctl unc)
  have "owner_rewrite (if unc then Some (dput ''status'' (JStr ''unconfirmed'')) else None)" by simp
  moreover have "\<exists>out. owned_body iv ctl OWNER_STATUSES
                                (if unc then Some (dput ''status'' (JStr ''unconfirmed'')) else None)
                                (if unc then Retained else Released) (if unc then Some ''owner_unconfirmed'' else None)
                                j = Publish j' out"
    using assms Completes by (simp add: step_body_def)
  ultimately show thesis by (intro that(4)) blast
next
  case (Enqueues ctl)
  with assms show thesis by (intro that(1)) (auto simp: step_body_def)
next
  case (Acquires iv ctl)
  with assms show thesis by (intro that(2)) (auto simp: step_body_def)
next
  case (Cancels iv ctl)
  with assms show thesis by (intro that(3)) (auto simp: step_body_def)
next
  case (Reconciles removed)
  with assms show thesis by (intro that(5)) (auto simp: step_body_def)
qed

lemma fifo_step:
  assumes "journal_ok r j" and "fifo j" and "step_body l j j'"
  shows "fifo j'"
proof -
  note f = assms(2) [unfolded fifo_def line_of_def]
  from assms(3) consider "\<exists>spec ctl out. enqueue_body spec ctl j = Publish j' out" | "\<exists>iv ctl out. acquire_body iv ctl j = Publish j' out"
    | "\<exists>iv ctl out. cancel_body iv ctl j = Publish j' out"
    | "\<exists>iv ctl al m su why out. owner_rewrite m \<and> owned_body iv ctl al m su why j = Publish j' out"
    | "\<exists>rv removed why out. commit_body rv removed why j = Publish j' out"
    by (rule step_body_kinds)
  then show ?thesis
  proof cases
    case 1
    with fifo_enqueue [OF assms(1,2)] show ?thesis by blast
  next
    case 2
    with fifo_acquire [OF assms(1,2)] show ?thesis by blast
  next
    case 3
    then obtain iv ctl out where "cancel_body iv ctl j = Publish j' out" by blast
    then show ?thesis
    proof (rule cancel_body_Publish)
      assume "j' = j\<lparr>j_owner := None, j_revision := j_revision j + 1\<rparr>"
      with f show ?thesis by (simp add: fifo_def line_of_def sorted_wrt_append split: option.splits)
    next
      fix i
      assume j': "j' = j\<lparr>j_queue := drop_at i (j_queue j), j_revision := j_revision j + 1\<rparr>"
      have "sorted_wrt (<) (map c_ticket (drop_at i (j_queue j)))"
        using f by (simp add: map_drop_at sorted_wrt_drop_at sorted_wrt_append)
      with f j' set_drop_at [of i "j_queue j"] show ?thesis
        by (auto simp: fifo_def line_of_def sorted_wrt_append split: option.splits)
    qed
  next
    case 4
    then obtain iv ctl al m su why out where m: "owner_rewrite m"
      and b: "owned_body iv ctl al m su why j = Publish j' out" by blast
    from b show ?thesis
    proof (rule owned_body_Publish)
      fix c
      assume c: "j_owner j = Some c" and j': "j' = j\<lparr>j_owner := map_option (\<lambda>f. f c) m, j_revision := j_revision j + 1\<rparr>"
      have "claim_ok c" by (rule journal_okD(3) [OF assms(1)]) (simp add: claims_of_def c)
      with m have "m = Some g \<Longrightarrow> c_ticket (g c) = c_ticket c" for g by (simp add: owner_rewrite_def)
      with f c j' show ?thesis by (cases m) (auto simp: fifo_def line_of_def)
    qed
  next
    case 5
    then obtain rv removed why out where "commit_body rv removed why j = Publish j' out" by blast
    from commit_body_Publish [OF this]
    have "line_of j' = map c_ticket (filter (\<lambda>c. c_inv c \<notin> set removed)
        ((case j_owner j of None \<Rightarrow> [] | Some c \<Rightarrow> [c]) @ j_queue j))"
      by (simp add: line_of_def split: option.splits)
    moreover have "sorted_wrt (\<lambda>x y. c_ticket x < c_ticket y) ((case j_owner j of None \<Rightarrow> [] | Some c \<Rightarrow> [c]) @ j_queue j)"
      using f by (simp only: sorted_wrt_map)
    ultimately show ?thesis
      by (simp only: fifo_def sorted_wrt_map) (rule sorted_wrt_filter)
  qed
qed

lemma reaches_fifo:
  "reaches r nd nd' \<Longrightarrow> readable r nd \<Longrightarrow> fifo (journal_of r nd) \<Longrightarrow> fifo (journal_of r nd')"
proof (induction rule: reaches.induct)
  case (reaches_step nd nd1 l nd2)
  have rd: "readable r nd1" by (rule reaches_readable [OF reaches_step.hyps(1) reaches_step.prems(1)])
  from store_step_body [OF reaches_step.hyps(2) rd] fifo_step [OF journal_of_ok [OF rd]]
    reaches_step.IH [OF reaches_step.prems]
  show ?case by blast
qed

end
