(* ===== verification/Broker_Properties.thy ===== *)
theory Broker_Properties
  imports Broker_Reconcile
begin

text \<open>
  What the execution-resource store promises: every file it can leave behind is one it accepts again,
  resources are granted first come first served, claims move through one life cycle, an owner leaves
  only by its own controller or on positive evidence, tickets are not reused, and two ways in which a
  damaged journal makes a call raise instead of failing closed.
\<close>

subsection \<open>One step, seen from a claim\<close>

lemma enqueue_body_Publish:
  "enqueue_body spec ctl j = Publish j' out \<Longrightarrow>
     find_claim j (cs_invocation_id spec) = None \<and> j_owner j' = j_owner j \<and>
     j_queue j' = j_queue j @ [claim_to_dict spec (j_next j) ctl ''queued''] \<and>
     out = \<lparr>o_state = Queued, o_ticket = Some (j_next j), o_reason = None\<rparr>"
  by (auto simp: enqueue_body_def split: option.splits if_splits)

inductive lifecycle :: "string \<Rightarrow> string \<Rightarrow> bool" where
  granted: "lifecycle ''queued'' ''reserved''"
| intent: "lifecycle ''reserved'' ''launching''"
| bound: "lifecycle ''launching'' ''running''"
| doubt: "s \<in> set OWNER_STATUSES \<Longrightarrow> lifecycle s ''unconfirmed''"

code_pred lifecycle .

definition same_claim :: "dict \<Rightarrow> dict \<Rightarrow> bool" where
  "same_claim c c' \<longleftrightarrow> c_inv c' = c_inv c \<and> c_ticket c' = c_ticket c \<and> c_controller c' = c_controller c \<and>
     (c_status c' = c_status c \<or> lifecycle (c_status c) (c_status c'))"

lemma same_claim_refl: "same_claim c c"
  by (simp add: same_claim_def)

lemma step_claims:
  assumes "step_body l j j'" and "c' \<in> set (claims_of j')"
  shows "(\<exists>c \<in> set (claims_of j). same_claim c c') \<or>
    (\<exists>ctl. l = Enqueues ctl \<and> c_ticket c' = j_next j \<and> c_status c' = ''queued'' \<and> identity_matches c' ctl \<and>
       c_inv c' \<notin> c_inv ` set (claims_of j))"
proof (cases l)
  case (Enqueues ctl)
  with assms(1) obtain spec out where b: "enqueue_body spec ctl j = Publish j' out" by (auto simp: step_body_def)
  then have f: "find_claim j (cs_invocation_id spec) = None" and
    j': "j_owner j' = j_owner j" "j_queue j' = j_queue j @ [claim_to_dict spec (j_next j) ctl ''queued'']"
    by (auto simp: enqueue_body_def split: option.splits if_splits)
  from assms(2) have "c' \<in> set (claims_of j) \<or> c' = claim_to_dict spec (j_next j) ctl ''queued''"
    by (auto simp: claims_of_def j')
  then show ?thesis
  proof
    assume "c' = claim_to_dict spec (j_next j) ctl ''queued''"
    with Enqueues f show ?thesis by (simp add: find_claim_None identity_matches_claim_to_dict)
  qed (use same_claim_refl in blast)
next
  case (Acquires iv ctl)
  with assms(1) obtain out where "acquire_body iv ctl j = Publish j' out" by (auto simp: step_body_def)
  then show ?thesis
  proof (rule acquire_body_Publish)
    fix i c
    assume c: "i < length (j_queue j)" "c = j_queue j ! i" "c_status c = ''queued''"
      and j': "j' = j\<lparr>j_queue := drop_at i (j_queue j), j_owner := Some (dput ''status'' (JStr ''reserved'') c),
            j_revision := j_revision j + 1\<rparr>"
    have "c \<in> set (claims_of j)" using c by (simp add: claims_of_def)
    moreover have "same_claim c (dput ''status'' (JStr ''reserved'') c)"
      using c(3) lifecycle.granted by (simp add: same_claim_def)
    moreover have "c' = dput ''status'' (JStr ''reserved'') c \<or> c' \<in> set (claims_of j)"
      using assms(2) set_drop_at [of i "j_queue j"] by (auto simp: claims_of_def j')
    ultimately show ?thesis using same_claim_refl by blast
  qed
next
  case (Cancels iv ctl)
  with assms(1) obtain out where "cancel_body iv ctl j = Publish j' out" by (auto simp: step_body_def)
  then have "c' \<in> set (claims_of j)"
  proof (rule cancel_body_Publish)
    fix i
    assume "j' = j\<lparr>j_queue := drop_at i (j_queue j), j_revision := j_revision j + 1\<rparr>"
    with assms(2) set_drop_at [of i "j_queue j"] show ?thesis by (auto simp: claims_of_def)
  qed (use assms(2) in \<open>auto simp: claims_of_def\<close>)
  then show ?thesis using same_claim_refl by blast
next
  case (Launches iv ctl)
  with assms(1) obtain out where "owned_body iv ctl [''reserved''] (Some (dput ''status'' (JStr ''launching'')))
      Launching None j = Publish j' out" by (auto simp: step_body_def)
  then show ?thesis
  proof (rule owned_body_Publish)
    fix c
    assume c: "j_owner j = Some c" "c_status c \<in> set [''reserved'']"
      and j': "j' = j\<lparr>j_owner := map_option (\<lambda>f. f c) (Some (dput ''status'' (JStr ''launching''))),
                    j_revision := j_revision j + 1\<rparr>"
    have "same_claim c (dput ''status'' (JStr ''launching'') c)"
      using c(2) lifecycle.intent by (simp add: same_claim_def)
    with c(1) assms(2) j' same_claim_refl show ?thesis by (auto simp: claims_of_def)
  qed
next
  case (Registers iv ctl)
  with assms(1) obtain out pid birth grp where "owned_body iv ctl [''launching''] (Some (child_update pid birth grp))
      Running None j = Publish j' out" by (auto simp: step_body_def)
  then show ?thesis
  proof (rule owned_body_Publish)
    fix c
    assume c: "j_owner j = Some c" "c_status c \<in> set [''launching'']"
      and j': "j' = j\<lparr>j_owner := map_option (\<lambda>f. f c) (Some (child_update pid birth grp)),
                    j_revision := j_revision j + 1\<rparr>"
    have "same_claim c (child_update pid birth grp c)"
      using c(2) lifecycle.bound by (simp add: same_claim_def)
    with c(1) assms(2) j' same_claim_refl show ?thesis by (auto simp: claims_of_def)
  qed
next
  case (Completes iv ctl unc)
  with assms(1) obtain out su why where "owned_body iv ctl OWNER_STATUSES
      (if unc then Some (dput ''status'' (JStr ''unconfirmed'')) else None) su why j = Publish j' out"
    by (auto simp: step_body_def)
  then show ?thesis
  proof (rule owned_body_Publish)
    fix c
    assume c: "j_owner j = Some c" "c_status c \<in> set OWNER_STATUSES"
      and j': "j' = j\<lparr>j_owner := map_option (\<lambda>f. f c) (if unc then Some (dput ''status'' (JStr ''unconfirmed'')) else None),
                    j_revision := j_revision j + 1\<rparr>"
    have "same_claim c (dput ''status'' (JStr ''unconfirmed'') c)"
      using lifecycle.doubt [OF c(2)] by (simp add: same_claim_def)
    with c(1) assms(2) j' same_claim_refl show ?thesis by (auto simp: claims_of_def split: if_splits)
  qed
next
  case (Reconciles removed)
  with assms(1) obtain rv why out where "commit_body rv removed why j = Publish j' out"
    by (auto simp: step_body_def)
  from commit_body_Publish [OF this] assms(2) have "c' \<in> set (claims_of j)"
    by (auto simp: claims_of_def split: option.splits if_splits)
  then show ?thesis using same_claim_refl by blast
qed

lemma step_owner_gone:
  assumes "journal_ok r j" and "step_body l j j'" and "j_owner j = Some c" and "c_inv c \<notin> c_inv ` set (claims_of j')"
  shows "(\<exists>ctl. identity_matches c ctl \<and>
      ((l = Cancels (c_inv c) ctl \<and> c_status c = ''reserved'') \<or> l = Completes (c_inv c) ctl False)) \<or>
    (\<exists>removed. l = Reconciles removed \<and> c_inv c \<in> set removed)"
proof (cases l)
  case (Enqueues ctl)
  with assms(2) have "j_owner j' = j_owner j"
    by (auto simp: step_body_def enqueue_body_def split: option.splits if_splits)
  with assms(3,4) show ?thesis by (simp add: claims_of_def)
next
  case (Acquires iv ctl)
  with assms(2,3) show ?thesis by (auto simp: step_body_def elim: acquire_body_Publish)
next
  case (Cancels iv ctl)
  with assms(2) obtain out where "cancel_body iv ctl j = Publish j' out" by (auto simp: step_body_def)
  then show ?thesis
  proof (rule cancel_body_Publish)
    fix d
    assume d: "j_owner j = Some d" "c_inv d = iv" "identity_matches d ctl" "c_status d = ''queued'' \<or> c_status d = ''reserved''"
    have "c_status c \<in> set OWNER_STATUSES" by (rule journal_okD(5) [OF assms(1,3)])
    with d assms(3) Cancels show ?thesis by (auto simp: OWNER_STATUSES_def)
  next
    fix i
    assume "j' = j\<lparr>j_queue := drop_at i (j_queue j), j_revision := j_revision j + 1\<rparr>"
    with assms(3,4) show ?thesis by (simp add: claims_of_def)
  qed
next
  case (Launches iv ctl)
  with assms(2) show ?thesis
    by (auto simp: step_body_def elim!: owned_body_Publish) (use assms(3,4) in \<open>simp add: claims_of_def\<close>)
next
  case (Registers iv ctl)
  with assms(2) show ?thesis
    by (auto simp: step_body_def elim!: owned_body_Publish) (use assms(3,4) in \<open>simp add: claims_of_def\<close>)
next
  case (Completes iv ctl unc)
  with assms(2) obtain out su why where "owned_body iv ctl OWNER_STATUSES
      (if unc then Some (dput ''status'' (JStr ''unconfirmed'')) else None) su why j = Publish j' out"
    by (auto simp: step_body_def)
  then show ?thesis
  proof (rule owned_body_Publish)
    fix d
    assume "j_owner j = Some d" "c_inv d = iv" "identity_matches d ctl"
      "j' = j\<lparr>j_owner := map_option (\<lambda>f. f d) (if unc then Some (dput ''status'' (JStr ''unconfirmed'')) else None),
              j_revision := j_revision j + 1\<rparr>"
    with assms(3,4) Completes show ?thesis by (cases unc) (auto simp: claims_of_def)
  qed
next
  case (Reconciles removed)
  with assms(2) obtain rv why out where "commit_body rv removed why j = Publish j' out"
    by (auto simp: step_body_def)
  from commit_body_Publish [OF this] assms(3,4) Reconciles show ?thesis
    by (cases "c_inv c \<in> set removed") (auto simp: claims_of_def)
qed

subsection \<open>A sample store\<close>

definition rid :: string where "rid = replicate 64 (CHR ''a'')"

definition ctl1 :: controller_identity where
  "ctl1 = \<lparr>ci_pid = 7, ci_birth = ''b7'', ci_boot = ''h''\<rparr>"

definition spec1 :: claim_spec where
  "spec1 = \<lparr>cs_project_root = ''/p'', cs_run_id = ''r1'', cs_invocation_id = ''i1'', cs_kind = ''turn'',
            cs_role = ''worker'', cs_selector = ''codex''\<rparr>"

definition claim1 :: "string \<Rightarrow> dict" where
  "claim1 st = claim_to_dict spec1 1 ctl1 st"

definition journal1 :: journal where
  "journal1 = \<lparr>j_resource = rid, j_revision = 1, j_next = 2, j_owner = None, j_queue = [claim1 ''queued'']\<rparr>"

definition file1 :: node where
  "file1 = Regular (json_size (journal_to_json journal1)) (Some (journal_to_json journal1))"

definition journal2 :: journal where
  "journal2 = \<lparr>j_resource = rid, j_revision = 2, j_next = 2, j_owner = Some (claim1 ''reserved''), j_queue = []\<rparr>"

definition file2 :: node where
  "file2 = Regular (json_size (journal_to_json journal2)) (Some (journal_to_json journal2))"

lemma sample_enqueue:
  "enqueue all_ok rid spec1 (Some ctl1) Missing =
     (file1, Inr \<lparr>o_state = Queued, o_ticket = Some 1, o_reason = None\<rparr>)"
  by code_simp

lemma sample_acquire:
  "try_acquire all_ok rid ''i1'' ctl1 file1 =
     (file2, Inr \<lparr>o_state = Acquired, o_ticket = Some 1, o_reason = None\<rparr>)"
  by code_simp

lemma journals_ok: "journal_ok rid journal1" "journal_ok rid journal2"
  by code_simp+

lemma files: "readable rid file1" "journal_of rid file1 = journal1" "readable rid file2" "journal_of rid file2 = journal2"
proof -
  have s: "json_size (journal_to_json journal1) \<le> MAX_JOURNAL_BYTES" "json_size (journal_to_json journal2) \<le> MAX_JOURNAL_BYTES"
    by code_simp+
  show "readable rid file1" "journal_of rid file1 = journal1" "readable rid file2" "journal_of rid file2 = journal2"
    using s by (simp_all add: file1_def file2_def validate_to_json journals_ok)
qed

lemma sample_reach: "reaches rid Missing file1" "reaches rid Missing file2" "reaches rid file1 file2"
proof -
  have c: "controller_ok ctl1" by (simp add: controller_ok_def ctl1_def)
  show 1: "reaches rid Missing file1"
    by (rule reaches_step [OF reaches_refl step_enqueue [OF c sample_enqueue]])
  show "reaches rid Missing file2" by (rule reaches_step [OF 1 step_acquire [OF sample_acquire]])
  show "reaches rid file1 file2" by (rule reaches_step [OF reaches_refl step_acquire [OF sample_acquire]])
qed

subsection \<open>The properties\<close>

text \<open>
  C3. Whatever sequence of store calls processes make, with whatever lock, read and write failures,
  the journal file stays one that the reader accepts: it validates, its revision and tickets are
  consistent, and the owner and the queue stand in strictly increasing ticket order.
\<close>

theorem store_keeps_journal_valid:
  assumes "reaches r Missing nd" and "e_stat_ok env" and "e_read_ok env"
  shows "\<exists>j. read_journal env r nd = Inr (Inr j) \<and> journal_ok r j \<and> fifo j"
proof -
  have rd: "readable r nd" by (rule reaches_readable [OF assms(1)]) simp
  have "fifo (journal_of r nd)" by (rule reaches_fifo [OF assms(1)]) (simp_all add: fifo_empty)
  with read_journal_readable [OF rd assms(2,3)] journal_of_ok [OF rd] show ?thesis by blast
qed

theorem store_keeps_journal_valid_witness:
  "\<exists>j. read_journal all_ok rid file2 = Inr (Inr j) \<and> journal_ok rid j \<and> fifo j"
  by (rule store_keeps_journal_valid [OF sample_reach(2)]) (simp_all add: all_ok_def)

text \<open>
  C5. A successful acquisition grants the front of the line: nobody owned the resource, the caller's
  claim was the first of the queue and leaves it as the reserved owner, and everybody still waiting
  holds a larger ticket.
\<close>

theorem acquire_grants_the_front:
  assumes "reaches r Missing nd" and "try_acquire env r iv ctl nd = (nd', Inr out)" and "o_state out = Acquired"
  shows "\<exists>c rest. j_owner (journal_of r nd) = None \<and> j_queue (journal_of r nd) = c # rest \<and>
    c_inv c = iv \<and> identity_matches c ctl \<and> o_ticket out = Some (c_ticket c) \<and>
    j_owner (journal_of r nd') = Some (dput ''status'' (JStr ''reserved'') c) \<and>
    j_queue (journal_of r nd') = rest \<and> \<not> (\<exists>d \<in> set rest. c_ticket d \<le> c_ticket c)"
proof -
  let ?j = "journal_of r nd" and ?j' = "journal_of r nd'"
  have rd: "readable r nd" by (rule reaches_readable [OF assms(1)]) simp
  have ff: "fifo ?j" by (rule reaches_fifo [OF assms(1)]) (simp_all add: fifo_empty)
  have "run_locked env r nd (acquire_body iv ctl) = (nd', Inr out)"
    using assms(2,3) by (auto simp: try_acquire_def rejected_def split: if_splits)
  moreover have "acquire_body iv ctl ?j \<noteq> Stop out"
    using assms(3) by (auto simp: acquire_body_def rejected_def busy_def split: option.splits claim_ref.splits if_splits)
  ultimately have b: "acquire_body iv ctl ?j = Publish ?j' out"
    using acq.success_published [of env r nd iv ctl nd' out] assms(3) by simp
  from b show ?thesis
  proof (rule acquire_body_Publish)
    fix i c
    assume c: "i < length (j_queue ?j)" "c = j_queue ?j ! i" "c_inv c = iv" "identity_matches c ctl"
      and ow: "j_owner ?j = None"
      and j': "?j' = ?j\<lparr>j_queue := drop_at i (j_queue ?j), j_owner := Some (dput ''status'' (JStr ''reserved'') c),
            j_revision := j_revision ?j + 1\<rparr>"
      and out: "out = \<lparr>o_state = Acquired, o_ticket = Some (c_ticket c), o_reason = None\<rparr>"
    have f': "fifo ?j'" by (rule fifo_acquire [OF journal_of_ok [OF rd] ff b])
    then have lt: "\<forall>d \<in> set (drop_at i (j_queue ?j)). c_ticket c < c_ticket d"
      by (simp add: fifo_def line_of_def j')
    have "i = 0"
    proof (rule ccontr)
      assume "i \<noteq> 0"
      with c(1) have "take i (j_queue ?j) \<noteq> []" by auto
      then obtain d where d: "d \<in> set (take i (j_queue ?j))" by (meson last_in_set)
      then have "c_ticket c < c_ticket d" using lt by (simp add: drop_at_def)
      moreover from d obtain k where "k < i" "d = j_queue ?j ! k"
        by (metis in_set_conv_nth length_take min_less_iff_conj nth_take)
      then have "c_ticket d < c_ticket c"
        using sorted_wrt_nth_less [of "(<)" "map c_ticket (j_queue ?j)" k i] ff ow c(1,2)
        by (simp add: fifo_def line_of_def)
      ultimately show False by simp
    qed
    with c obtain rest where q: "j_queue ?j = c # rest" by (cases "j_queue ?j") auto
    with \<open>i = 0\<close> have "drop_at i (j_queue ?j) = rest" by (simp add: drop_at_def)
    with q c ow j' out lt show ?thesis by (auto simp: not_le)
  qed
qed

theorem acquire_grants_the_front_witness:
  "\<exists>c rest. j_queue (journal_of rid file1) = c # rest \<and> c_inv c = ''i1'' \<and>
     j_owner (journal_of rid file2) = Some (dput ''status'' (JStr ''reserved'') c)"
  using acquire_grants_the_front [OF sample_reach(1) sample_acquire] by auto

text \<open>
  C36. Claims live one life: after any step every claim is one that was there before, with the same
  invocation, ticket and controller and a status that stayed or moved along queued, reserved,
  launching, running or to unconfirmed, or it is the new claim of an enqueue, with the next ticket.
\<close>

theorem claims_follow_the_lifecycle:
  assumes "store_step r l nd nd'" and "readable r nd" and "c' \<in> set (claims_of (journal_of r nd'))"
  shows "(\<exists>c \<in> set (claims_of (journal_of r nd)). c_inv c' = c_inv c \<and> c_ticket c' = c_ticket c \<and>
        c_controller c' = c_controller c \<and> (c_status c' = c_status c \<or> lifecycle (c_status c) (c_status c'))) \<or>
    (\<exists>ctl. l = Enqueues ctl \<and> c_ticket c' = j_next (journal_of r nd) \<and> c_status c' = ''queued'' \<and>
       identity_matches c' ctl)"
  using store_step_body [OF assms(1,2)]
proof
  assume "nd' = nd"
  with assms(3) show ?thesis by blast
next
  assume "readable r nd' \<and> step_body l (journal_of r nd) (journal_of r nd')"
  with step_claims [of l "journal_of r nd" "journal_of r nd'" c'] assms(3) show ?thesis
    unfolding same_claim_def by blast
qed

theorem claims_follow_the_lifecycle_witness:
  "\<exists>c \<in> set (claims_of (journal_of rid file1)). c_ticket c = 1 \<and> lifecycle (c_status c) ''reserved''"
proof -
  have "claim1 ''reserved'' \<in> set (claims_of (journal_of rid file2))"
    by (simp add: files claims_of_def journal2_def)
  from claims_follow_the_lifecycle [OF step_acquire [OF sample_acquire] files(1) this]
  show ?thesis
    by (simp add: files claims_of_def journal1_def claim1_def)
qed

text \<open>
  C35. Ownership is never taken away silently: when a step removes the owner's claim, either a
  controller of the claim's own identity cancelled it while it was only reserved, or that controller
  recorded its completion, or a reconciliation named it.
\<close>

theorem owner_leaves_by_its_controller_or_reconciliation:
  assumes "store_step r l nd nd'" and "readable r nd" and "j_owner (journal_of r nd) = Some c"
    and "c_inv c \<notin> c_inv ` set (claims_of (journal_of r nd'))"
  shows "(\<exists>ctl. identity_matches c ctl \<and>
      (l = Cancels (c_inv c) ctl \<and> c_status c = ''reserved'' \<or> l = Completes (c_inv c) ctl False)) \<or>
    (\<exists>removed. l = Reconciles removed \<and> c_inv c \<in> set removed)"
  using store_step_body [OF assms(1,2)]
proof
  assume "nd' = nd"
  with assms(3,4) show ?thesis by (simp add: claims_of_def)
next
  assume "readable r nd' \<and> step_body l (journal_of r nd) (journal_of r nd')"
  with step_owner_gone [OF journal_of_ok [OF assms(2)] _ assms(3,4)] show ?thesis by blast
qed

lemma sample_complete:
  "fst (record_completion all_ok rid ''i1'' ctl1 False file2) =
     Regular (json_size (journal_to_json (journal2\<lparr>j_owner := None, j_revision := 3\<rparr>)))
       (Some (journal_to_json (journal2\<lparr>j_owner := None, j_revision := 3\<rparr>)))"
  by code_simp

theorem owner_leaves_by_its_controller_or_reconciliation_witness:
  "\<exists>ctl. identity_matches (claim1 ''reserved'') ctl \<and> Completes ''i1'' ctl1 False = Completes ''i1'' ctl False"
proof -
  let ?j3 = "journal2\<lparr>j_owner := None, j_revision := 3\<rparr>"
  let ?nd = "fst (record_completion all_ok rid ''i1'' ctl1 False file2)"
  have ok: "journal_ok rid ?j3" by code_simp
  have st: "store_step rid (Completes ''i1'' ctl1 False) file2 ?nd" by (rule step_complete) (rule prod.collapse [symmetric])
  have sz: "json_size (journal_to_json ?j3) \<le> MAX_JOURNAL_BYTES" by code_simp
  have j: "journal_of rid ?nd = ?j3" unfolding sample_complete by (simp add: validate_to_json [OF ok])
  have own: "j_owner (journal_of rid file2) = Some (claim1 ''reserved'')" by (simp add: files journal2_def)
  have gone: "c_inv (claim1 ''reserved'') \<notin> c_inv ` set (claims_of (journal_of rid ?nd))"
    by (simp add: j claims_of_def journal2_def)
  from owner_leaves_by_its_controller_or_reconciliation [OF st files(3) own gone]
  show ?thesis by auto
qed

text \<open>
  C10. A reconciliation removes a claim only on positive evidence, although it looks at the journal
  without the lock and other processes may write in between: the host was rebooted since, or the
  claim's controller is gone and the claim had not launched, or its recorded child is gone as well
  and the child's process group is empty.
\<close>

theorem reconcile_needs_evidence:
  assumes "readable r seen" and "reaches r seen nd"
    and "reconcile env0 env r boot evidence groups seen nd = (nd', res)"
    and "c \<in> set (claims_of (journal_of r nd))" and "c \<notin> set (claims_of (journal_of r nd'))"
  shows "rebooted c boot \<or> (controller_gone c boot evidence \<and>
    (c_status c \<in> {''queued'', ''reserved''} \<or> child_positively_gone c evidence groups))"
proof -
  have rd: "readable r nd" by (rule reaches_readable [OF assms(2,1)])
  have ne: "nd' \<noteq> nd" using assms(4,5) by auto
  with assms(3) obtain j where j: "read_journal env0 r seen = Inr (Inr j)"
    by (auto simp: reconcile_def split: if_splits sum.splits)
  with assms(3) ne obtain removed why
    where s: "sample_claims (\<lambda>c. reconcile_claim c boot evidence groups) [] None (tagged_claims j) = Inr (removed, why)"
    by (auto simp: reconcile_def split: if_splits sum.splits)
  with assms(3) ne j have run: "run_locked env r nd (commit_body (j_revision j) removed why) = (nd', res)"
    by (auto simp: reconcile_def split: if_splits)
  have js: "j = journal_of r seen" using read_journal_Inr [OF j] by simp
  from run have "\<exists>out. commit_body (j_revision j) removed why (journal_of r nd) = Publish (journal_of r nd') out"
    by (rule rec.run_locked_cases) (use rd ne in auto)
  then obtain out where p: "commit_body (j_revision j) removed why (journal_of r nd) = Publish (journal_of r nd') out" by blast
  from commit_body_Publish [OF p] have "j_revision (journal_of r nd) = j_revision (journal_of r seen)"
    by (simp add: js)
  with reaches_revision [OF assms(2,1)] have eq: "nd = seen" by auto
  from commit_body_Publish [OF p] assms(4,5) have "c_inv c \<in> set removed"
    by (auto simp: claims_of_def split: option.splits if_splits)
  with sample_claims_removed [OF s] obtain d where d: "d \<in> set (claims_of j)" "c_inv d = c_inv c"
    and v: "reconcile_claim d boot evidence groups = Inr True"
    by (auto simp: tagged_claims_fst)
  have "c = d" using d assms(4) journal_okD(7) [OF journal_of_ok [OF rd]] js eq
    by (metis inj_onD distinct_map)
  moreover have "claim_ok c" by (rule journal_okD(3) [OF journal_of_ok [OF rd] assms(4)])
  ultimately show ?thesis using reconcile_claim_True v by blast
qed

lemma sample_reconcile:
  "fst (reconcile all_ok all_ok rid (Some ''later'') (\<lambda>_. \<lparr>pe_liveness = Unknown, pe_birth = None\<rparr>)
       (\<lambda>_. Group_Unknown) file2 file2) =
     Regular (json_size (journal_to_json (journal2\<lparr>j_owner := None, j_revision := 3\<rparr>)))
       (Some (journal_to_json (journal2\<lparr>j_owner := None, j_revision := 3\<rparr>)))"
  by code_simp

theorem reconcile_needs_evidence_witness:
  "rebooted (claim1 ''reserved'') (Some ''later'')"
proof -
  let ?ev = "\<lambda>_::int. \<lparr>pe_liveness = Unknown, pe_birth = None\<rparr>" and ?g = "\<lambda>_::int option. Group_Unknown"
  let ?j3 = "journal2\<lparr>j_owner := None, j_revision := 3\<rparr>"
  let ?rc = "reconcile all_ok all_ok rid (Some ''later'') ?ev ?g file2 file2"
  have ok: "journal_ok rid ?j3" by code_simp
  have j: "journal_of rid (fst ?rc) = ?j3" unfolding sample_reconcile by (simp add: validate_to_json [OF ok])
  have own: "claim1 ''reserved'' \<in> set (claims_of (journal_of rid file2))"
    by (simp add: files journal2_def claims_of_def)
  have gone: "claim1 ''reserved'' \<notin> set (claims_of (journal_of rid (fst ?rc)))"
    by (simp add: j claims_of_def journal2_def)
  have c: "?rc = (fst ?rc, snd ?rc)" by simp
  from reconcile_needs_evidence [OF files(3) reaches_refl c own gone]
  show ?thesis by (auto simp: controller_gone_def Let_def)
qed

lemma reaches_next: "reaches r nd nd' \<Longrightarrow> readable r nd \<Longrightarrow> j_next (journal_of r nd) \<le> j_next (journal_of r nd')"
proof (induction rule: reaches.induct)
  case (reaches_step nd nd1 l nd2)
  have rd: "readable r nd1" by (rule reaches_readable [OF reaches_step.hyps(1) reaches_step.prems])
  from store_step_body [OF reaches_step.hyps(2) rd] step_body_counts reaches_step.IH [OF reaches_step.prems]
  show ?case by fastforce
qed simp

text \<open>
  Tickets are not reused: a claim seen later whose ticket was already handed out earlier is the
  very claim that held it then.
\<close>

theorem tickets_are_not_reused:
  assumes "reaches r nd nd'" and "readable r nd" and "c' \<in> set (claims_of (journal_of r nd'))"
    and "c_ticket c' < j_next (journal_of r nd)"
  shows "\<exists>c \<in> set (claims_of (journal_of r nd)). c_ticket c = c_ticket c' \<and> c_inv c = c_inv c' \<and>
    c_controller c = c_controller c'"
  using assms
proof (induction arbitrary: c' rule: reaches.induct)
  case (reaches_step nd nd1 l nd2)
  have rd: "readable r nd1" by (rule reaches_readable [OF reaches_step.hyps(1) reaches_step.prems(1)])
  have nx: "j_next (journal_of r nd) \<le> j_next (journal_of r nd1)"
    by (rule reaches_next [OF reaches_step.hyps(1) reaches_step.prems(1)])
  from store_step_body [OF reaches_step.hyps(2) rd] step_claims [of l "journal_of r nd1" "journal_of r nd2" c']
    reaches_step.prems(2,3) nx
  obtain c where c: "c \<in> set (claims_of (journal_of r nd1))" "same_claim c c'"
    using same_claim_refl by fastforce
  then have e: "c_ticket c = c_ticket c'" "c_inv c = c_inv c'" "c_controller c = c_controller c'"
    by (simp_all add: same_claim_def)
  have "c_ticket c < j_next (journal_of r nd)" using e(1) reaches_step.prems(3) by simp
  from reaches_step.IH [OF reaches_step.prems(1) c(1) this] e show ?case by simp
qed blast

theorem tickets_are_not_reused_witness:
  "\<exists>c \<in> set (claims_of (journal_of rid file1)). c_ticket c = 1 \<and> c_inv c = ''i1''"
proof -
  have "claim1 ''reserved'' \<in> set (claims_of (journal_of rid file2))"
    by (simp add: files claims_of_def journal2_def)
  moreover have "c_ticket (claim1 ''reserved'') < j_next (journal_of rid file1)"
    by (simp add: files journal1_def claim1_def)
  ultimately show ?thesis
    using tickets_are_not_reused [OF sample_reach(3) files(1)] by (fastforce simp: claim1_def spec1_def)
qed

text \<open>
  Enqueueing is idempotent: once a claim is queued, repeating the call answers with the same
  ticket and writes nothing.
\<close>

theorem enqueue_is_idempotent:
  assumes "readable r nd" and "controller_ok ctl"
    and "enqueue env r spec (Some ctl) nd = (nd', Inr out)" and "o_state out = Queued"
    and "e_open_ok env'" and "e_lock env' = Granted" and "e_stat_ok env'" and "e_read_ok env'"
  shows "enqueue env' r spec (Some ctl) nd' = (nd', Inr out)"
proof -
  from assms(3,4) have vr: "valid_resource_id r" and
    run: "run_locked env r nd (enqueue_body spec ctl) = (nd', Inr out)"
    by (auto simp: enqueue_def rejected_def split: if_splits)
  have fin: "readable r nd' \<and> enqueue_body spec ctl (journal_of r nd') = Stop out"
  proof (cases "enqueue_body spec ctl (journal_of r nd) = Stop out")
    case True
    from run assms(1) have "nd' = nd"
    proof (rule enq.run_locked_cases [OF _ _ assms(2)])
      fix out'
      assume "enqueue_body spec ctl (journal_of r nd) = Publish (journal_of r nd') out'"
      with True show ?thesis by simp
    qed
    with True assms(1) show ?thesis by simp
  next
    case False
    from enq.success_published [OF run _ False assms(2)] assms(4)
    have rd: "readable r nd'" and b: "enqueue_body spec ctl (journal_of r nd) = Publish (journal_of r nd') out" by auto
    let ?c = "claim_to_dict spec (j_next (journal_of r nd)) ctl ''queued''"
    note p = enqueue_body_Publish [OF b]
    then have q: "?c \<in> set (claims_of (journal_of r nd'))"
      and out: "out = \<lparr>o_state = Queued, o_ticket = Some (j_next (journal_of r nd)), o_reason = None\<rparr>"
      by (simp_all add: claims_of_def)
    from find_claim_unique [OF journal_of_ok [OF rd] q] obtain at
      where "find_claim (journal_of r nd') (cs_invocation_id spec) = Some (at, ?c)" by auto
    with rd out show ?thesis
      by (simp add: enqueue_body_def identity_matches_claim_to_dict spec_matches_claim_to_dict)
  qed
  with read_journal_readable [of r nd' env'] assms(5-8) vr show ?thesis
    by (simp add: enqueue_def run_locked_def)
qed

theorem enqueue_is_idempotent_witness:
  "enqueue all_ok rid spec1 (Some ctl1) file1 = (file1, Inr \<lparr>o_state = Queued, o_ticket = Some 1, o_reason = None\<rparr>)"
  by (rule enqueue_is_idempotent [OF _ _ sample_enqueue])
     (simp_all add: all_ok_def controller_ok_def ctl1_def)

text \<open>
  A call that reports a rejection, contention or no change has left the file alone, unless the
  reason is that replacing the file failed.
\<close>

theorem refused_calls_write_nothing:
  assumes "readable r nd" and "controller_ok ctl" and "o_state out \<in> {Rejected, Contended, Unchanged}"
    and "o_reason out \<noteq> Some ''io_failure''"
    and "enqueue env r spec (Some ctl) nd = (nd', Inr out) \<or> try_acquire env r iv ctl nd = (nd', Inr out) \<or>
      cancel env r iv ctl nd = (nd', Inr out) \<or> mark_launching env r iv ctl nd = (nd', Inr out) \<or>
      register_child env r iv ctl pid birth grp nd = (nd', Inr out) \<or>
      record_completion env r iv ctl unc nd = (nd', Inr out) \<or>
      reconcile env0 env r boot evidence groups seen nd = (nd', Inr out)"
  shows "nd' = nd"
proof -
  note k = assms(3,4,1)
  have e: "enqueue env r spec (Some ctl) nd = (nd', Inr out) \<Longrightarrow> nd' = nd \<or>
      run_locked env r nd (enqueue_body spec ctl) = (nd', Inr out)"
    by (auto simp: enqueue_def split: if_splits)
  have a: "try_acquire env r iv ctl nd = (nd', Inr out) \<Longrightarrow> nd' = nd \<or>
      run_locked env r nd (acquire_body iv ctl) = (nd', Inr out)"
    by (auto simp: try_acquire_def split: if_splits)
  have c: "cancel env r iv ctl nd = (nd', Inr out) \<Longrightarrow> nd' = nd \<or>
      run_locked env r nd (cancel_body iv ctl) = (nd', Inr out)"
    by (auto simp: cancel_def split: if_splits)
  have l: "mark_launching env r iv ctl nd = (nd', Inr out) \<Longrightarrow>
      \<exists>al m su why. owner_rewrite m \<and> su \<notin> {Rejected, Contended, Unchanged} \<and>
        run_locked env r nd (owned_body iv ctl al m su why) = (nd', Inr out)"
    using owner_rewrites(2) unfolding mark_launching_def owned_transition_def by (blast intro: exI [of _ Launching])
  have g: "register_child env r iv ctl pid birth grp nd = (nd', Inr out) \<Longrightarrow> nd' = nd \<or>
      (\<exists>al m su why. owner_rewrite m \<and> su \<notin> {Rejected, Contended, Unchanged} \<and>
        run_locked env r nd (owned_body iv ctl al m su why) = (nd', Inr out))"
  proof (cases "pid < 1")
    case False
    moreover assume "register_child env r iv ctl pid birth grp nd = (nd', Inr out)"
    ultimately have "run_locked env r nd (owned_body iv ctl [''launching''] (Some (child_update pid birth grp))
        Running None) = (nd', Inr out)"
      by (simp add: register_child_def owned_transition_def)
    moreover have "Running \<notin> {Rejected, Contended, Unchanged}" by simp
    ultimately show ?thesis using owner_rewrites(4) by blast
  qed (simp add: register_child_def)
  have d: "record_completion env r iv ctl unc nd = (nd', Inr out) \<Longrightarrow>
      \<exists>al m su why. owner_rewrite m \<and> su \<notin> {Rejected, Contended, Unchanged} \<and>
        run_locked env r nd (owned_body iv ctl al m su why) = (nd', Inr out)"
  proof -
    assume c: "record_completion env r iv ctl unc nd = (nd', Inr out)"
    let ?m = "if unc then Some (dput ''status'' (JStr ''unconfirmed'')) else None"
      and ?su = "if unc then Retained else Released" and ?why = "if unc then Some ''owner_unconfirmed'' else None"
    from c have "run_locked env r nd (owned_body iv ctl OWNER_STATUSES ?m ?su ?why) = (nd', Inr out)"
      by (cases unc) (simp_all add: record_completion_def owned_transition_def)
    moreover have "owner_rewrite ?m" "?su \<notin> {Rejected, Contended, Unchanged}" by simp_all
    ultimately show ?thesis by blast
  qed
  have q: "reconcile env0 env r boot evidence groups seen nd = (nd', Inr out) \<Longrightarrow> nd' = nd \<or>
      (\<exists>rv removed why. run_locked env r nd (commit_body rv removed why) = (nd', Inr out))"
    by (auto simp: reconcile_def split: if_splits sum.splits)
  have own: "nd' = nd" if "\<exists>al m su why. owner_rewrite m \<and> su \<notin> {Rejected, Contended, Unchanged} \<and>
        run_locked env r nd (owned_body iv ctl al m su why) = (nd', Inr out)"
    using that own.failure_keeps [OF _ k] by blast
  have "enqueue env r spec (Some ctl) nd = (nd', Inr out) \<Longrightarrow> nd' = nd"
    using e enq.failure_keeps [OF _ k assms(2)] by blast
  moreover have "try_acquire env r iv ctl nd = (nd', Inr out) \<Longrightarrow> nd' = nd"
    using a acq.failure_keeps [OF _ k] by blast
  moreover have "cancel env r iv ctl nd = (nd', Inr out) \<Longrightarrow> nd' = nd"
    using c can.failure_keeps [OF _ k] by blast
  moreover have "mark_launching env r iv ctl nd = (nd', Inr out) \<Longrightarrow> nd' = nd" using l own by blast
  moreover have "register_child env r iv ctl pid birth grp nd = (nd', Inr out) \<Longrightarrow> nd' = nd" using g own by blast
  moreover have "record_completion env r iv ctl unc nd = (nd', Inr out) \<Longrightarrow> nd' = nd" using d own by blast
  moreover have "reconcile env0 env r boot evidence groups seen nd = (nd', Inr out) \<Longrightarrow> nd' = nd"
    using q rec.failure_keeps [OF _ k] by blast
  ultimately show ?thesis using assms(5) by blast
qed

theorem refused_calls_write_nothing_witness:
  "fst (mark_launching all_ok rid ''i1'' ctl1 file1) = file1"
proof -
  let ?m = "mark_launching all_ok rid ''i1'' ctl1 file1"
  have e: "snd ?m = Inr (rejected ''not_owner'')" by code_simp
  have m: "?m = (fst ?m, Inr (rejected ''not_owner''))" by (simp add: e [symmetric])
  have c: "controller_ok ctl1" by (simp add: controller_ok_def ctl1_def)
  show ?thesis
    by (rule refused_calls_write_nothing [OF files(1) c, where out = "rejected ''not_owner''"])
       (use m in \<open>auto simp: rejected_def\<close>)
qed

text \<open>
  Validation fails closed on every malformed owner but one shape: a status that is a list or an
  object cannot be looked up in a set, so every locked call on such a journal raises instead of
  answering that the journal is malformed.
\<close>

theorem unhashable_status_raises:
  "\<exists>data. dget (obj_of (dget (obj_of data) ''owner'')) ''status'' = JList [] \<and>
     try_acquire all_ok rid ''i1'' ctl1 (Regular 100 (Some data)) =
       (Regular 100 (Some data), Inl (TypeError ''unhashable type''))"
proof -
  define data where "data = JObj [(''version'', JInt 1), (''resource'', JStr rid), (''revision'', JInt 0),
    (''next_ticket'', JInt 2), (''owner'', JObj (dput ''status'' (JList []) (claim1 ''running''))), (''queue'', JList [])]"
  have "try_acquire all_ok rid ''i1'' ctl1 (Regular 100 (Some data)) =
       (Regular 100 (Some data), Inl (TypeError ''unhashable type''))"
    unfolding data_def by code_simp
  moreover have "dget (obj_of (dget (obj_of data) ''owner'')) ''status'' = JList []" by (simp add: data_def)
  ultimately show ?thesis by blast
qed

text \<open>
  A launched claim without the key \<^verbatim>\<open>child_pid\<close> passes validation, which reads the missing
  key as null, but makes reconciliation raise once its controller is gone.
\<close>

theorem missing_child_pid_raises:
  "\<exists>j. journal_ok rid j \<and> validate_journal rid (journal_to_json j) = Inr (Some j) \<and>
     (let nd = Regular 500 (Some (journal_to_json j)) in
      reconcile all_ok all_ok rid (Some ''h'') (\<lambda>_. \<lparr>pe_liveness = Absent, pe_birth = None\<rparr>) (\<lambda>_. Group_Absent) nd nd =
        (nd, Inl (KeyError ''child_pid'')))"
proof -
  define c where "c = filter (\<lambda>kv. fst kv \<noteq> ''child_pid'') (claim1 ''running'')"
  define j where "j = journal2\<lparr>j_owner := Some c\<rparr>"
  have ok: "journal_ok rid j" unfolding j_def c_def by code_simp
  moreover have "reconcile all_ok all_ok rid (Some ''h'') (\<lambda>_. \<lparr>pe_liveness = Absent, pe_birth = None\<rparr>) (\<lambda>_. Group_Absent)
      (Regular 500 (Some (journal_to_json j))) (Regular 500 (Some (journal_to_json j))) =
      (Regular 500 (Some (journal_to_json j)), Inl (KeyError ''child_pid''))"
    unfolding j_def c_def by code_simp
  ultimately show ?thesis using validate_to_json [OF ok] by (auto simp: Let_def)
qed

end
