(* ===== verification/Broker_Lease.thy ===== *)
theory Broker_Lease
  imports Broker_Properties
begin

text \<open>
  \<^verbatim>\<open>ExecutionLease\<close> and \<^verbatim>\<open>ExecutionResourceAdmission\<close> (\<^verbatim>\<open>aflow/execution_resources.py\<close>):
  the bounded retry of one transition under lock contention, the transitions of a lease, and the
  admission loop with its controls. Time and the other processes are inputs: every attempt of a
  loop consumes one \<open>tick\<close> (what others did to the file before it, what the operating system answers,
  and the clock after it), in milliseconds; a loop whose ticks run out is still running and has no
  result (\<open>None\<close>).
\<close>

record tick =
  t_others :: "node \<Rightarrow> node"
  t_env :: env
  t_now :: int

type_synonym store_call = "env \<Rightarrow> node \<Rightarrow> node \<times> (py_exn + outcome)"

text \<open>\<^verbatim>\<open>ExecutionLease._transition\<close>: the same call again while it is contended.\<close>

fun lease_transition :: "store_call \<Rightarrow> int \<Rightarrow> tick list \<Rightarrow> node \<Rightarrow> (node \<times> (py_exn + outcome)) option" where
  "lease_transition op deadline [] nd = None"
| "lease_transition op deadline (t # ts) nd =
     (case op (t_env t) (t_others t nd) of
        (nd', Inl e) \<Rightarrow> Some (nd', Inl e)
      | (nd', Inr out) \<Rightarrow>
          if o_state out \<noteq> Contended \<or> deadline \<le> t_now t then Some (nd', Inr out)
          else lease_transition op deadline ts nd')"

datatype lease_exn =
    Resource_Lease_Error string string
  | Store_Raised py_exn
  | Stop_Requested
  | Revalidation_Failed
  | Turn_Reprepare_Required "string option" string

fun state_name :: "outcome_state \<Rightarrow> string" where
  "state_name Queued = ''queued''"
| "state_name Acquired = ''acquired''"
| "state_name Contended = ''contended''"
| "state_name Rejected = ''rejected''"
| "state_name Cancelled = ''cancelled''"
| "state_name Released = ''released''"
| "state_name Retained = ''retained''"
| "state_name Reclaimed = ''reclaimed''"
| "state_name Unchanged = ''unchanged''"
| "state_name Launching = ''launching''"
| "state_name Running = ''running''"

text \<open>\<^verbatim>\<open>x or default\<close> on an optional string.\<close>

definition or_default :: "string option \<Rightarrow> string \<Rightarrow> string" where
  "or_default x d = (case x of None \<Rightarrow> d | Some s \<Rightarrow> if s = [] then d else s)"

definition lease_require ::
  "string \<Rightarrow> outcome_state \<Rightarrow> store_call \<Rightarrow> int \<Rightarrow> tick list \<Rightarrow> node \<Rightarrow> (node \<times> (lease_exn + unit)) option" where
  "lease_require stage expected op deadline ts nd =
     (case lease_transition op deadline ts nd of
        None \<Rightarrow> None
      | Some (nd', Inl e) \<Rightarrow> Some (nd', Inl (Store_Raised e))
      | Some (nd', Inr out) \<Rightarrow>
          Some (nd',
            if o_state out \<noteq> expected
            then Inl (Resource_Lease_Error stage (or_default (o_reason out) (state_name (o_state out))))
            else Inr ()))"

record lease =
  l_resource :: string
  l_invocation :: string
  l_controller :: controller_identity
  l_launch_marked :: bool

text \<open>The deadline of a lease's retries: five seconds after \<open>start\<close>.\<close>

definition lease_deadline :: "int \<Rightarrow> int" where
  "lease_deadline start = start + 5000"

definition lease_mark_launching :: "lease \<Rightarrow> int \<Rightarrow> tick list \<Rightarrow> node \<Rightarrow> (lease \<times> node \<times> (lease_exn + unit)) option" where
  "lease_mark_launching l start ts nd =
     (if l_launch_marked l then Some (l, nd, Inr ())
      else (case lease_require ''mark_launching'' Launching
                   (\<lambda>env. mark_launching env (l_resource l) (l_invocation l) (l_controller l))
                   (lease_deadline start) ts nd of
              None \<Rightarrow> None
            | Some (nd', Inl e) \<Rightarrow> Some (l, nd', Inl e)
            | Some (nd', Inr _) \<Rightarrow> Some (l\<lparr>l_launch_marked := True\<rparr>, nd', Inr ())))"

definition lease_bind_child ::
  "lease \<Rightarrow> int \<Rightarrow> string option \<Rightarrow> int option \<Rightarrow> int \<Rightarrow> tick list \<Rightarrow> node \<Rightarrow> (node \<times> (lease_exn + unit)) option" where
  "lease_bind_child l pid birth grp start ts nd =
     lease_require ''register_child'' Running
       (\<lambda>env. register_child env (l_resource l) (l_invocation l) (l_controller l) pid birth grp)
       (lease_deadline start) ts nd"

definition lease_complete :: "lease \<Rightarrow> int \<Rightarrow> tick list \<Rightarrow> node \<Rightarrow> (node \<times> (lease_exn + unit)) option" where
  "lease_complete l start ts nd =
     lease_require ''release'' Released
       (\<lambda>env. record_completion env (l_resource l) (l_invocation l) (l_controller l) False)
       (lease_deadline start) ts nd"

definition lease_mark_unconfirmed :: "lease \<Rightarrow> int \<Rightarrow> tick list \<Rightarrow> node \<Rightarrow> (node \<times> (lease_exn + unit)) option" where
  "lease_mark_unconfirmed l start ts nd =
     lease_require ''retain'' Retained
       (\<lambda>env. record_completion env (l_resource l) (l_invocation l) (l_controller l) True)
       (lease_deadline start) ts nd"

subsection \<open>What a retried call establishes\<close>

text \<open>Other processes only make store calls.\<close>

definition fair :: "string \<Rightarrow> tick list \<Rightarrow> bool" where
  "fair r ts \<longleftrightarrow> (\<forall>t \<in> set ts. \<forall>nd. reaches r nd (t_others t nd))"

lemma fair_Cons [simp]: "fair r (t # ts) \<longleftrightarrow> (\<forall>nd. reaches r nd (t_others t nd)) \<and> fair r ts"
  by (simp add: fair_def)

text \<open>
  A retried call whose every attempt keeps the journal readable, and whose answer \<open>good\<close> means \<open>post\<close>
  holds of the file it leaves.
\<close>

locale retried =
  fixes r :: string and op :: store_call and good :: "outcome \<Rightarrow> bool" and post :: "node \<Rightarrow> node \<Rightarrow> bool"
  assumes attempt_readable: "op env nd = (nd', res) \<Longrightarrow> readable r nd \<Longrightarrow> readable r nd'"
    and attempt_post: "op env nd = (nd', Inr out) \<Longrightarrow> readable r nd \<Longrightarrow> good out \<Longrightarrow> post nd nd'"
begin

lemma transition_post:
  assumes "lease_transition op deadline ts nd = Some (nd', res)" and "fair r ts" and "readable r nd"
  shows "readable r nd' \<and> (\<forall>out. res = Inr out \<longrightarrow> good out \<longrightarrow> (\<exists>nd0. readable r nd0 \<and> post nd0 nd'))"
  using assms
proof (induction ts arbitrary: nd)
  case (Cons t ts)
  obtain nd1 res1 where op: "op (t_env t) (t_others t nd) = (nd1, res1)" by (cases "op (t_env t) (t_others t nd)")
  have rd0: "readable r (t_others t nd)"
    using reaches_readable Cons.prems(2,3) by auto
  have rd: "readable r nd1" by (rule attempt_readable [OF op rd0])
  show ?case
  proof (cases res1)
    case (Inl e)
    with Cons.prems(1) op have "nd' = nd1" "res = Inl e" by auto
    with rd show ?thesis by simp
  next
    case (Inr out)
    show ?thesis
    proof (cases "o_state out \<noteq> Contended \<or> deadline \<le> t_now t")
      case True
      with Cons.prems(1) op Inr have "nd' = nd1" "res = Inr out" by auto
      with rd attempt_post [OF op [unfolded Inr] rd0] rd0 show ?thesis by auto
    next
      case False
      with Cons.prems(1) op Inr have "lease_transition op deadline ts nd1 = Some (nd', res)" by auto
      from Cons.IH [OF this] Cons.prems(2) rd show ?thesis by simp
    qed
  qed
qed simp

text \<open>The loop ends at the latest with the first clock reading past the deadline.\<close>

lemma transition_ends: "\<exists>t \<in> set ts. deadline \<le> t_now t \<Longrightarrow> lease_transition op deadline ts nd \<noteq> None"
  by (induction ts arbitrary: nd) (auto split: prod.splits sum.splits)

lemma require_post:
  assumes "lease_require stage expected op deadline ts nd = Some (nd', Inr u)" and "fair r ts" and "readable r nd"
    and "\<And>out. o_state out = expected \<Longrightarrow> good out"
  shows "readable r nd' \<and> (\<exists>nd0. readable r nd0 \<and> post nd0 nd')"
proof -
  from assms(1) obtain out where t: "lease_transition op deadline ts nd = Some (nd', Inr out)"
    and e: "o_state out = expected"
    by (auto simp: lease_require_def split: option.splits sum.splits if_splits)
  from transition_post [OF t assms(2,3)] assms(4) [OF e] show ?thesis by blast
qed

end

text \<open>What the transitions of an owner establish.\<close>

definition owner_was :: "string \<Rightarrow> string \<Rightarrow> string list \<Rightarrow> node \<Rightarrow> (dict \<Rightarrow> dict option) \<Rightarrow> node \<Rightarrow> bool" where
  "owner_was r iv allowed nd f nd' \<longleftrightarrow>
     (\<exists>c. j_owner (journal_of r nd) = Some c \<and> c_inv c = iv \<and> c_status c \<in> set allowed \<and>
          j_owner (journal_of r nd') = f c \<and> j_queue (journal_of r nd') = j_queue (journal_of r nd))"

lemma owned_transition_readable:
  assumes "owned_transition env r iv ctl allowed m su why nd = (nd', res)" and "readable r nd" and "owner_rewrite m"
    and "su \<notin> {Rejected, Contended, Unchanged}"
  shows "readable r nd'"
  using own.keeps_readable [OF assms(1) [unfolded owned_transition_def] assms(2)] assms(3,4) by blast

lemma owned_transition_post:
  assumes "owned_transition env r iv ctl allowed m su why nd = (nd', Inr out)" and "readable r nd" and "owner_rewrite m"
    and "su \<notin> {Rejected, Contended, Unchanged}" and "o_state out = su"
  shows "owner_was r iv allowed nd (\<lambda>c. map_option (\<lambda>f. f c) m) nd'"
proof -
  have "owned_body iv ctl allowed m su why (journal_of r nd) \<noteq> Stop out"
    using assms(4,5) by (auto simp: owned_body_def rejected_def split: option.splits if_splits)
  with own.success_published [OF assms(1) [unfolded owned_transition_def]] assms(3-5)
  have b: "owned_body iv ctl allowed m su why (journal_of r nd) = Publish (journal_of r nd') out" by simp
  then show ?thesis
  proof (rule owned_body_Publish)
    fix c
    assume "j_owner (journal_of r nd) = Some c" "c_inv c = iv" "c_status c \<in> set allowed"
      "journal_of r nd' = journal_of r nd\<lparr>j_owner := map_option (\<lambda>f. f c) m,
          j_revision := j_revision (journal_of r nd) + 1\<rparr>"
    then show ?thesis by (simp add: owner_was_def)
  qed
qed

interpretation launching: retried r "\<lambda>env. mark_launching env r iv ctl" "\<lambda>out. o_state out = Launching"
  "\<lambda>nd nd'. owner_was r iv [''reserved''] nd (\<lambda>c. Some (dput ''status'' (JStr ''launching'') c)) nd'" for r iv ctl
proof
  fix env nd nd' res out
  show "mark_launching env r iv ctl nd = (nd', res) \<Longrightarrow> readable r nd \<Longrightarrow> readable r nd'"
    unfolding mark_launching_def by (erule owned_transition_readable) simp_all
  show "mark_launching env r iv ctl nd = (nd', Inr out) \<Longrightarrow> readable r nd \<Longrightarrow> o_state out = Launching \<Longrightarrow>
      owner_was r iv [''reserved''] nd (\<lambda>c. Some (dput ''status'' (JStr ''launching'') c)) nd'"
    unfolding mark_launching_def by (drule owned_transition_post) simp_all
qed

interpretation binding: retried r "\<lambda>env. register_child env r iv ctl pid birth grp" "\<lambda>out. o_state out = Running"
  "\<lambda>nd nd'. owner_was r iv [''launching''] nd (\<lambda>c. Some (child_update pid birth grp c)) nd'" for r iv ctl pid birth grp
proof
  fix env nd nd' res out
  show "register_child env r iv ctl pid birth grp nd = (nd', res) \<Longrightarrow> readable r nd \<Longrightarrow> readable r nd'"
    unfolding register_child_def by (auto split: if_splits elim: owned_transition_readable)
  show "register_child env r iv ctl pid birth grp nd = (nd', Inr out) \<Longrightarrow> readable r nd \<Longrightarrow> o_state out = Running \<Longrightarrow>
      owner_was r iv [''launching''] nd (\<lambda>c. Some (child_update pid birth grp c)) nd'"
    unfolding register_child_def by (auto simp: rejected_def split: if_splits dest: owned_transition_post)
qed

interpretation completing: retried r "\<lambda>env. record_completion env r iv ctl False" "\<lambda>out. o_state out = Released"
  "\<lambda>nd nd'. owner_was r iv OWNER_STATUSES nd (\<lambda>c. None) nd'" for r iv ctl
proof
  fix env nd nd' res out
  show "record_completion env r iv ctl False nd = (nd', res) \<Longrightarrow> readable r nd \<Longrightarrow> readable r nd'"
    unfolding record_completion_def by (auto elim: owned_transition_readable)
  show "record_completion env r iv ctl False nd = (nd', Inr out) \<Longrightarrow> readable r nd \<Longrightarrow> o_state out = Released \<Longrightarrow>
      owner_was r iv OWNER_STATUSES nd (\<lambda>c. None) nd'"
    unfolding record_completion_def by (auto dest: owned_transition_post)
qed

interpretation retaining: retried r "\<lambda>env. record_completion env r iv ctl True" "\<lambda>out. o_state out = Retained"
  "\<lambda>nd nd'. owner_was r iv OWNER_STATUSES nd (\<lambda>c. Some (dput ''status'' (JStr ''unconfirmed'') c)) nd'" for r iv ctl
proof
  fix env nd nd' res out
  show "record_completion env r iv ctl True nd = (nd', res) \<Longrightarrow> readable r nd \<Longrightarrow> readable r nd'"
    unfolding record_completion_def by (auto elim: owned_transition_readable)
  show "record_completion env r iv ctl True nd = (nd', Inr out) \<Longrightarrow> readable r nd \<Longrightarrow> o_state out = Retained \<Longrightarrow>
      owner_was r iv OWNER_STATUSES nd (\<lambda>c. Some (dput ''status'' (JStr ''unconfirmed'') c)) nd'"
    unfolding record_completion_def by (auto dest: owned_transition_post)
qed

end
