(* ===== verification/Broker_Admission.thy ===== *)
theory Broker_Admission
  imports Broker_Lease
begin

text \<open>
  \<^verbatim>\<open>ExecutionResourceAdmission\<close> (\<^verbatim>\<open>aflow/execution_resources.py\<close>): withdrawing a claim,
  servicing the controls while waiting and before the launch, and the admission loop. The callbacks
  are inputs (\<open>controls\<close>: whether \<^verbatim>\<open>stop_check\<close> raises, what \<^verbatim>\<open>revalidate\<close> says, and what other
  processes did to the file until then, the sleep before a repeated check included); the
  hooks are outputs, the list of events the controller is told. Each round of the waiting loop
  consumes one \<open>wait_round\<close>.
\<close>

subsection \<open>Withdrawal\<close>

fun withdraw_loop ::
  "string \<Rightarrow> string \<Rightarrow> controller_identity \<Rightarrow> int \<Rightarrow> tick list \<Rightarrow> node \<Rightarrow> (node \<times> (lease_exn + unit)) option" where
  "withdraw_loop r iv ctl deadline [] nd = None"
| "withdraw_loop r iv ctl deadline (t # ts) nd =
     (case cancel (t_env t) r iv ctl (t_others t nd) of
        (nd', Inl e) \<Rightarrow> Some (nd', Inl (Resource_Lease_Error ''withdrawal'' ''store_failure''))
      | (nd', Inr out) \<Rightarrow>
          if o_state out = Cancelled \<or> (o_state out = Rejected \<and> o_reason out = Some ''unknown_invocation'')
          then Some (nd', Inr ())
          else if o_state out \<noteq> Contended \<or> deadline \<le> t_now t
          then Some (nd', Inl (Resource_Lease_Error ''withdrawal''
                                 (or_default (o_reason out) (state_name (o_state out)))))
          else withdraw_loop r iv ctl deadline ts nd')"

definition withdraw_claim ::
  "int \<Rightarrow> string \<Rightarrow> claim_spec \<Rightarrow> controller_identity \<Rightarrow> int \<Rightarrow> tick list \<Rightarrow> node \<Rightarrow>
   (node \<times> (lease_exn + unit)) option" where
  "withdraw_claim limit r spec ctl start ts nd =
     withdraw_loop r (cs_invocation_id spec) ctl (start + limit) ts nd"

subsection \<open>Controls\<close>

datatype verdict = Unchanged_Verdict | Retry_Verdict | Reprepare_Verdict "string option" "string option"

record controls =
  c_others :: "node \<Rightarrow> node"
  c_stop :: bool
  c_verdict :: "verdict option"
  c_start :: int
  c_ticks :: "tick list"

datatype adm_event = Waiting "string option" "int option" | Got "int option" | Withdrawn string

text \<open>A run that has events and a file even when it raises; \<open>None\<close> when its inputs ran out.\<close>

type_synonym 'a run = "(node \<times> adm_event list \<times> (lease_exn + 'a)) option"

definition and_then :: "'a run \<Rightarrow> ('a \<Rightarrow> node \<Rightarrow> 'b run) \<Rightarrow> 'b run" where
  "and_then m k =
     (case m of
        None \<Rightarrow> None
      | Some (nd, es, Inl e) \<Rightarrow> Some (nd, es, Inl e)
      | Some (nd, es, Inr x) \<Rightarrow>
          (case k x nd of None \<Rightarrow> None | Some (nd', es', res) \<Rightarrow> Some (nd', es @ es', res)))"

text \<open>Withdraw the claim, then tell the events and raise; a failed withdrawal raises its own error.\<close>

definition withdraw_and_raise ::
  "int \<Rightarrow> string \<Rightarrow> claim_spec \<Rightarrow> controller_identity \<Rightarrow> controls \<Rightarrow> adm_event list \<Rightarrow> lease_exn \<Rightarrow> node \<Rightarrow> 'a run" where
  "withdraw_and_raise limit r spec ctl c es x nd =
     (case withdraw_claim limit r spec ctl (c_start c) (c_ticks c) nd of
        None \<Rightarrow> None
      | Some (nd', Inl e) \<Rightarrow> Some (nd', [], Inl e)
      | Some (nd', Inr _) \<Rightarrow> Some (nd', es, Inl x))"

definition service_controls ::
  "int \<Rightarrow> string \<Rightarrow> claim_spec \<Rightarrow> controller_identity \<Rightarrow> controls \<Rightarrow> node \<Rightarrow> unit run" where
  "service_controls limit r spec ctl c before =
     (let nd = c_others c before in
      if c_stop c then withdraw_and_raise limit r spec ctl c [] Stop_Requested nd
      else (case c_verdict c of
              None \<Rightarrow> withdraw_and_raise limit r spec ctl c [] Revalidation_Failed nd
            | Some (Reprepare_Verdict retained why) \<Rightarrow>
                (case retained of
                   None \<Rightarrow>
                     withdraw_and_raise limit r spec ctl c [Withdrawn (or_default why ''reprepare'')]
                       (Turn_Reprepare_Required None (or_default why ''reprepare'')) nd
                 | Some iv \<Rightarrow>
                     Some (nd, [], Inl (Turn_Reprepare_Required (Some iv) (or_default why ''reprepare''))))
            | Some _ \<Rightarrow> Some (nd, [], Inr ())))"

text \<open>The check between the acquisition and the launch, repeated after a sleep while it is told to retry.\<close>

fun service_controls_final ::
  "int \<Rightarrow> string \<Rightarrow> claim_spec \<Rightarrow> controller_identity \<Rightarrow> controls list \<Rightarrow> node \<Rightarrow> unit run" where
  "service_controls_final limit r spec ctl [] nd = None"
| "service_controls_final limit r spec ctl (c # cs) before =
     (let nd = c_others c before in
      if c_stop c then
        withdraw_and_raise limit r spec ctl c [Withdrawn ''stop_before_launch''] Stop_Requested nd
      else (case c_verdict c of
              None \<Rightarrow>
                withdraw_and_raise limit r spec ctl c [Withdrawn ''config_failure_before_launch'']
                  Revalidation_Failed nd
            | Some Retry_Verdict \<Rightarrow> service_controls_final limit r spec ctl cs nd
            | Some (Reprepare_Verdict retained why) \<Rightarrow>
                (case retained of
                   None \<Rightarrow>
                     withdraw_and_raise limit r spec ctl c [Withdrawn (or_default why ''reprepare'')]
                       (Turn_Reprepare_Required None (or_default why ''reprepare'')) nd
                 | Some iv \<Rightarrow>
                     Some (nd, [], Inl (Turn_Reprepare_Required (Some iv) (or_default why ''reprepare''))))
            | Some Unchanged_Verdict \<Rightarrow> Some (nd, [], Inr ())))"

subsection \<open>The admission loop\<close>

text \<open>What one reconciliation meets: others before its unlocked read and before its locked commit.\<close>

record reconcile_inputs =
  ri_before :: "node \<Rightarrow> node"
  ri_between :: "node \<Rightarrow> node"
  ri_env0 :: env
  ri_env :: env
  ri_boot :: "string option"
  ri_evidence :: "int \<Rightarrow> process_evidence"
  ri_groups :: "int option \<Rightarrow> group_state"

definition reconcile_dead_owner :: "string \<Rightarrow> reconcile_inputs \<Rightarrow> node \<Rightarrow> unit run" where
  "reconcile_dead_owner r ri nd =
     (let seen = ri_before ri nd in
      case reconcile (ri_env0 ri) (ri_env ri) r (ri_boot ri) (ri_evidence ri) (ri_groups ri) seen (ri_between ri seen) of
        (nd', Inl e) \<Rightarrow> Some (nd', [], Inl (Store_Raised e))
      | (nd', Inr out) \<Rightarrow>
          Some (nd', [],
            if o_state out = Rejected
            then Inl (Resource_Lease_Error ''admission'' (or_default (o_reason out) ''reconciliation_rejected''))
            else Inr ()))"

record wait_round =
  w_now :: int
  w_controls :: controls
  w_reconcile :: reconcile_inputs
  w_now_after :: int
  w_tick :: tick

record wait_state =
  ws_last_control :: int
  ws_ticket :: "int option"
  ws_last_reason :: "string option"

text \<open>One store call of the loop, its rejection turned into an error.\<close>

definition admission_call :: "store_call \<Rightarrow> string \<Rightarrow> tick \<Rightarrow> node \<Rightarrow> outcome run" where
  "admission_call op dflt t nd =
     (case op (t_env t) (t_others t nd) of
        (nd', Inl e) \<Rightarrow> Some (nd', [], Inl (Store_Raised e))
      | (nd', Inr out) \<Rightarrow>
          Some (nd', [],
            if o_state out = Rejected
            then Inl (Resource_Lease_Error ''admission'' (or_default (o_reason out) dflt))
            else Inr out))"

definition round_controls ::
  "int \<Rightarrow> int \<Rightarrow> string \<Rightarrow> claim_spec \<Rightarrow> controller_identity \<Rightarrow> wait_round \<Rightarrow> wait_state \<Rightarrow> node \<Rightarrow> wait_state run" where
  "round_controls limit interval r spec ctl w st nd =
     (if interval \<le> w_now w - ws_last_control st then
        and_then (service_controls limit r spec ctl (w_controls w) nd) (\<lambda>_ nd.
        and_then (reconcile_dead_owner r (w_reconcile w) nd) (\<lambda>_ nd.
        Some (nd, [], Inr (st\<lparr>ws_last_control := w_now_after w\<rparr>))))
      else Some (nd, [], Inr st))"

definition round_call ::
  "string \<Rightarrow> claim_spec \<Rightarrow> controller_identity \<Rightarrow> wait_round \<Rightarrow> wait_state \<Rightarrow> node \<Rightarrow> (bool \<times> wait_state) run" where
  "round_call r spec ctl w st nd =
     (if ws_ticket st = None then
        and_then (admission_call (\<lambda>env. enqueue env r spec (Some ctl)) ''claim rejected'' (w_tick w) nd) (\<lambda>out nd.
        let acquired = (o_state out = Acquired) in
        Some (nd,
          (if \<not> acquired \<and> (o_ticket out \<noteq> None \<or> o_reason out \<noteq> ws_last_reason st)
           then [Waiting (o_reason out) (o_ticket out)] else []),
          Inr (acquired, st\<lparr>ws_ticket := o_ticket out, ws_last_reason := o_reason out\<rparr>)))
      else
        and_then (admission_call (\<lambda>env. try_acquire env r (cs_invocation_id spec) ctl) ''acquire rejected'' (w_tick w) nd)
          (\<lambda>out nd.
        let acquired = (o_state out = Acquired) in
        if \<not> acquired \<and> o_reason out \<noteq> ws_last_reason st
        then Some (nd, [Waiting (o_reason out) (o_ticket out)], Inr (acquired, st\<lparr>ws_last_reason := o_reason out\<rparr>))
        else Some (nd, [], Inr (acquired, st))))"

fun wait_loop ::
  "int \<Rightarrow> int \<Rightarrow> string \<Rightarrow> claim_spec \<Rightarrow> controller_identity \<Rightarrow> wait_round list \<Rightarrow> wait_state \<Rightarrow> node \<Rightarrow>
   (int option) run" where
  "wait_loop limit interval r spec ctl [] st nd = None"
| "wait_loop limit interval r spec ctl (w # ws) st nd =
     and_then (round_controls limit interval r spec ctl w st nd) (\<lambda>st nd.
     and_then (round_call r spec ctl w st nd) (\<lambda>(acquired, st) nd.
     if acquired then Some (nd, [], Inr (ws_ticket st))
     else wait_loop limit interval r spec ctl ws st nd))"

text \<open>
  The whole admission. \<open>hooks\<close> of the code are always present here; without one, its events are not
  told. \<open>limit\<close> is the contention deadline, \<open>interval\<close> the control interval.
\<close>

definition admit ::
  "int \<Rightarrow> int \<Rightarrow> string option \<Rightarrow> claim_spec \<Rightarrow> controller_identity option \<Rightarrow> tick \<Rightarrow> controls \<Rightarrow>
   reconcile_inputs \<Rightarrow> int \<Rightarrow> wait_round list \<Rightarrow> controls list \<Rightarrow> node \<Rightarrow> (lease option) run" where
  "admit limit interval resource spec controller t c ri now ws cs nd =
     (case resource of
        None \<Rightarrow> Some (nd, [], Inr None)
      | Some r \<Rightarrow>
          (case controller of
             None \<Rightarrow>
               Some (nd, [], Inl (Resource_Lease_Error ''admission'' ''durable controller identity is unavailable''))
           | Some ctl \<Rightarrow>
               and_then (admission_call (\<lambda>env. enqueue env r spec (Some ctl)) ''claim rejected'' t nd) (\<lambda>out nd.
               and_then
                 (if o_state out = Acquired then Some (nd, [], Inr (o_ticket out))
                  else
                    and_then (service_controls limit r spec ctl c nd) (\<lambda>_ nd.
                    and_then (reconcile_dead_owner r ri nd) (\<lambda>_ nd.
                    and_then (Some (nd, [Waiting (o_reason out) (o_ticket out)], Inr ())) (\<lambda>_ nd.
                    wait_loop limit interval r spec ctl ws
                      \<lparr>ws_last_control = now, ws_ticket = o_ticket out, ws_last_reason = o_reason out\<rparr> nd))))
                 (\<lambda>ticket nd.
               and_then (service_controls_final limit r spec ctl cs nd) (\<lambda>_ nd.
               Some (nd, [Got ticket],
                 Inr (Some \<lparr>l_resource = r, l_invocation = cs_invocation_id spec, l_controller = ctl,
                            l_launch_marked = False\<rparr>)))))))"

subsection \<open>Laws of the sequencing\<close>

lemma and_then_Inr:
  "and_then m k = Some (nd, es, Inr y) \<longleftrightarrow>
     (\<exists>nd1 es1 x es2. m = Some (nd1, es1, Inr x) \<and> k x nd1 = Some (nd, es2, Inr y) \<and> es = es1 @ es2)"
  by (auto simp: and_then_def split: option.splits sum.splits)

lemma and_then_Inl:
  "and_then m k = Some (nd, es, Inl e) \<longleftrightarrow>
     m = Some (nd, es, Inl e) \<or>
     (\<exists>nd1 es1 x es2. m = Some (nd1, es1, Inr x) \<and> k x nd1 = Some (nd, es2, Inl e) \<and> es = es1 @ es2)"
  by (auto simp: and_then_def split: option.splits sum.splits)

subsection \<open>What a withdrawal establishes\<close>

definition absent :: "string \<Rightarrow> string \<Rightarrow> node \<Rightarrow> bool" where
  "absent r iv nd \<longleftrightarrow> readable r nd \<and> iv \<notin> c_inv ` set (claims_of (journal_of r nd))"

lemma cancel_readable: "cancel env r iv ctl nd = (nd', res) \<Longrightarrow> readable r nd \<Longrightarrow> readable r nd'"
  by (auto simp: cancel_def split: if_splits elim: can.keeps_readable)

lemma cancel_body_absent:
  assumes "journal_ok r j" and "cancel_body iv ctl j = Publish j' out"
  shows "iv \<notin> c_inv ` set (claims_of j')"
proof -
  have d: "distinct (map c_inv (claims_of j))" by (rule journal_okD(7) [OF assms(1)])
  from assms(2) show ?thesis
  proof (rule cancel_body_Publish)
    fix c
    assume "j_owner j = Some c" "c_inv c = iv" "j' = j\<lparr>j_owner := None, j_revision := j_revision j + 1\<rparr>"
    with d show ?thesis by (auto simp: claims_of_def)
  next
    fix i
    assume i: "i < length (j_queue j)" "c_inv (j_queue j ! i) = iv"
      and j': "j' = j\<lparr>j_queue := drop_at i (j_queue j), j_revision := j_revision j + 1\<rparr>"
    have dq: "distinct (map c_inv (j_queue j))" using d by (simp add: claims_of_def)
    have "iv \<notin> c_inv ` set (drop_at i (j_queue j))" using distinct_insert_drop_at [OF i(1) dq] i(2) by simp
    moreover have "iv \<in> c_inv ` set (j_queue j)" using i by auto
    moreover have "j_owner j = Some c \<Longrightarrow> c_inv c \<noteq> iv" for c
      using d \<open>iv \<in> c_inv ` set (j_queue j)\<close> by (auto simp: claims_of_def)
    ultimately show ?thesis by (cases "j_owner j") (auto simp: claims_of_def j')
  qed
qed

lemma cancel_absent:
  assumes "cancel env r iv ctl nd = (nd', Inr out)" and "readable r nd"
    and "o_state out = Cancelled \<or> (o_state out = Rejected \<and> o_reason out = Some ''unknown_invocation'')"
  shows "absent r iv nd'"
proof -
  have run: "run_locked env r nd (cancel_body iv ctl) = (nd', Inr out)"
    using assms(1,3) by (auto simp: cancel_def rejected_def split: if_splits)
  note rd' = cancel_readable [OF assms(1,2)]
  show ?thesis
  proof (cases "o_state out = Cancelled")
    case True
    have "cancel_body iv ctl (journal_of r nd) \<noteq> Stop out"
      using True by (auto simp: cancel_body_def rejected_def split: option.splits if_splits)
    with can.success_published [OF run] True
    have "cancel_body iv ctl (journal_of r nd) = Publish (journal_of r nd') out" by simp
    from cancel_body_absent [OF journal_of_ok [OF assms(2)] this] rd' show ?thesis by (simp add: absent_def)
  next
    case False
    with assms(3) have r: "o_state out = Rejected" "o_reason out = Some ''unknown_invocation''" by auto
    have "nd' = nd" by (rule can.failure_keeps [OF run _ _ assms(2)]) (simp_all add: r)
    have "cancel_body iv ctl (journal_of r nd) = Stop out"
    proof -
      from run r obtain j where rj: "read_journal env r nd = Inr (Inr j)"
        by (auto simp: run_locked_def rejected_def read_journal_def rbind_Inr_iff
            split: if_splits lock_result.splits sum.splits node.splits option.splits)
      have lk: "e_open_ok env" "e_lock env = Granted"
        using run r by (auto simp: run_locked_def rejected_def split: if_splits lock_result.splits)
      from rj read_journal_Inr [OF rj] have j: "j = journal_of r nd" by simp
      show ?thesis
      proof (cases "cancel_body iv ctl j")
        case (Stop x)
        with run rj j lk show ?thesis by (simp add: run_locked_def)
      next
        case (Publish j' x)
        with can.publish_done [OF TrueI Publish] run rj r show ?thesis
          by (auto simp: run_locked_def rejected_def write_journal_def Let_def
              split: if_splits lock_result.splits write_result.splits prod.splits option.splits)
      qed
    qed
    with r have "find_claim (journal_of r nd) iv = None"
      by (auto simp: cancel_body_def rejected_def split: option.splits if_splits)
    with \<open>nd' = nd\<close> assms(2) show ?thesis by (simp add: absent_def find_claim_None)
  qed
qed

lemma withdraw_loop_absent:
  assumes "withdraw_loop r iv ctl deadline ts nd = Some (nd', res)" and "fair r ts" and "readable r nd"
  shows "readable r nd' \<and> (\<forall>u. res = Inr u \<longrightarrow> absent r iv nd')"
  using assms
proof (induction ts arbitrary: nd)
  case (Cons t ts)
  obtain nd1 res1 where op: "cancel (t_env t) r iv ctl (t_others t nd) = (nd1, res1)"
    by (cases "cancel (t_env t) r iv ctl (t_others t nd)")
  have rd0: "readable r (t_others t nd)" using reaches_readable Cons.prems(2,3) by auto
  have rd: "readable r nd1" by (rule cancel_readable [OF op rd0])
  show ?case
  proof (cases res1)
    case (Inl e)
    with Cons.prems(1) op have "nd' = nd1" "res = Inl (Resource_Lease_Error ''withdrawal'' ''store_failure'')" by auto
    with rd show ?thesis by simp
  next
    case (Inr out)
    let ?good = "o_state out = Cancelled \<or> (o_state out = Rejected \<and> o_reason out = Some ''unknown_invocation'')"
    show ?thesis
    proof (cases "?good \<or> o_state out \<noteq> Contended \<or> deadline \<le> t_now t")
      case True
      show ?thesis
      proof (cases ?good)
        case True
        with Cons.prems(1) op Inr have "nd' = nd1" by auto
        with cancel_absent [OF op [unfolded Inr] rd0 True] rd show ?thesis by simp
      next
        case False
        with True Cons.prems(1) op Inr have "nd' = nd1" "\<exists>x. res = Inl x" by auto
        with rd show ?thesis by auto
      qed
    next
      case False
      with Cons.prems(1) op Inr have "withdraw_loop r iv ctl deadline ts nd1 = Some (nd', res)" by auto
      from Cons.IH [OF this] Cons.prems(2) rd show ?thesis by simp
    qed
  qed
qed simp

text \<open>The retry loop of a withdrawal is a retried \<^verbatim>\<open>cancel\<close> whose answer is judged afterwards.\<close>

lemma withdraw_loop_as_transition:
  "withdraw_loop r iv ctl deadline ts nd =
     (case lease_transition (\<lambda>env. cancel env r iv ctl) deadline ts nd of
        None \<Rightarrow> None
      | Some (nd', Inl e) \<Rightarrow> Some (nd', Inl (Resource_Lease_Error ''withdrawal'' ''store_failure''))
      | Some (nd', Inr out) \<Rightarrow>
          Some (nd',
            if o_state out = Cancelled \<or> (o_state out = Rejected \<and> o_reason out = Some ''unknown_invocation'')
            then Inr ()
            else Inl (Resource_Lease_Error ''withdrawal'' (or_default (o_reason out) (state_name (o_state out))))))"
proof (induction ts arbitrary: nd)
  case (Cons t ts)
  obtain nd1 res1 where op: "cancel (t_env t) r iv ctl (t_others t nd) = (nd1, res1)"
    by (cases "cancel (t_env t) r iv ctl (t_others t nd)")
  show ?case by (cases res1) (auto simp: op Cons.IH)
qed simp

lemma withdraw_and_raise_cases:
  assumes "withdraw_and_raise limit r spec ctl c es x nd = Some (nd', es', res)" and "fair r (c_ticks c)"
    and "readable r nd"
  shows "readable r nd' \<and> (res = Inl x \<and> absent r (cs_invocation_id spec) nd' \<and> es' = es \<or>
    (\<exists>why. res = Inl (Resource_Lease_Error ''withdrawal'' why) \<and> es' = []))"
proof -
  from assms(1) obtain w where w: "withdraw_claim limit r spec ctl (c_start c) (c_ticks c) nd = Some (nd', w)"
    and r: "case w of Inl e \<Rightarrow> es' = [] \<and> res = Inl e | Inr _ \<Rightarrow> es' = es \<and> res = Inl x"
    by (auto simp: withdraw_and_raise_def split: option.splits sum.splits)
  from withdraw_loop_absent [OF w [unfolded withdraw_claim_def] assms(2,3)]
  have "readable r nd'" "\<forall>u. w = Inr u \<longrightarrow> absent r (cs_invocation_id spec) nd'" by auto
  moreover have "\<exists>why. e = Resource_Lease_Error ''withdrawal'' why" if "w = Inl e" for e
    using w that unfolding withdraw_claim_def withdraw_loop_as_transition
    by (auto split: option.splits sum.splits if_splits)
  ultimately show ?thesis using r by (cases w) auto
qed

end
