(* ===== verification/Broker_Admission_Properties.thy ===== *)
theory Broker_Admission_Properties
  imports Broker_Admission
begin

text \<open>
  What admission and leases promise, over every behaviour of the other processes that is made of store
  calls: a lease is returned for a reserved owner only, an admission that is stopped or re-prepared
  leaves no claim behind, every lease transition happens from the status it is meant for, and the
  retry loops end with their deadline.
\<close>

subsection \<open>A small logic of runs\<close>

text \<open>The exceptions that stand for a withdrawn claim.\<close>

definition withdrawn_exn :: "lease_exn \<Rightarrow> bool" where
  "withdrawn_exn e \<longleftrightarrow>
     e = Stop_Requested \<or> e = Revalidation_Failed \<or> (\<exists>why. e = Turn_Reprepare_Required None why)"

lemma withdrawn_exn_simps [simp]:
  "withdrawn_exn Stop_Requested" "withdrawn_exn Revalidation_Failed"
  "withdrawn_exn (Turn_Reprepare_Required None why)"
  "\<not> withdrawn_exn (Turn_Reprepare_Required (Some iv) why)"
  "\<not> withdrawn_exn (Resource_Lease_Error stage why)" "\<not> withdrawn_exn (Store_Raised x)"
  by (auto simp: withdrawn_exn_def)

definition ok_run :: "string \<Rightarrow> string \<Rightarrow> ('a \<Rightarrow> node \<Rightarrow> bool) \<Rightarrow> 'a run \<Rightarrow> bool" where
  "ok_run r iv Q m \<longleftrightarrow>
     (case m of
        None \<Rightarrow> True
      | Some (nd, es, res) \<Rightarrow> readable r nd \<and>
          (case res of Inl e \<Rightarrow> withdrawn_exn e \<longrightarrow> absent r iv nd | Inr x \<Rightarrow> Q x nd))"

lemma ok_run_simps [simp]:
  "ok_run r iv Q None"
  "ok_run r iv Q (Some (nd, es, Inr x)) \<longleftrightarrow> readable r nd \<and> Q x nd"
  "ok_run r iv Q (Some (nd, es, Inl e)) \<longleftrightarrow> readable r nd \<and> (withdrawn_exn e \<longrightarrow> absent r iv nd)"
  by (auto simp: ok_run_def)

lemma ok_and_then:
  assumes "ok_run r iv P m" and "\<And>x nd. readable r nd \<Longrightarrow> P x nd \<Longrightarrow> ok_run r iv Q (k x nd)"
  shows "ok_run r iv Q (and_then m k)"
proof (cases m)
  case None
  then show ?thesis by (simp add: and_then_def)
next
  case (Some a)
  obtain nd es res where a: "a = (nd, es, res)" by (cases a)
  show ?thesis
  proof (cases res)
    case (Inl e)
    with assms(1) show ?thesis by (simp add: Some a and_then_def)
  next
    case (Inr x)
    with assms(1) have k: "ok_run r iv Q (k x nd)" by (intro assms(2)) (simp_all add: Some a)
    show ?thesis
    proof (cases "k x nd")
      case None
      then show ?thesis by (simp add: Some a Inr and_then_def)
    next
      case (Some b)
      with k \<open>m = Some a\<close> a Inr show ?thesis by (cases b; cases "snd (snd b)") (simp_all add: and_then_def)
    qed
  qed
qed

subsection \<open>The stages\<close>

definition fair_reconcile :: "string \<Rightarrow> reconcile_inputs \<Rightarrow> bool" where
  "fair_reconcile r ri \<longleftrightarrow> (\<forall>nd. reaches r nd (ri_before ri nd) \<and> reaches r nd (ri_between ri nd))"

text \<open>The caller's claim owns the resource and has not launched.\<close>

definition own_reserved :: "string \<Rightarrow> string \<Rightarrow> controller_identity \<Rightarrow> node \<Rightarrow> bool" where
  "own_reserved r iv ctl nd \<longleftrightarrow>
     (\<exists>c. j_owner (journal_of r nd) = Some c \<and> c_inv c = iv \<and> c_status c = ''reserved'' \<and> identity_matches c ctl)"

lemma ok_withdraw_and_raise:
  assumes "fair r (c_ticks c)" and "readable r nd" and "iv = cs_invocation_id spec"
  shows "ok_run r iv Q (withdraw_and_raise limit r spec ctl c es x nd)"
proof (cases "withdraw_and_raise limit r spec ctl c es x nd :: 'a run")
  case (Some a)
  obtain nd' es' res where a: "a = (nd', es', res)" by (cases a)
  from withdraw_and_raise_cases [OF Some [unfolded a] assms(1,2)] assms(3) show ?thesis
    unfolding Some a by auto
qed simp

text \<open>
  What other processes do to a resource while a claim waits for its launch: any store call but those
  of the claim's own controller for it, and any reconciliation that does not name the claim. This is
  the rely of the window between acquisition and launch, and a reserved owner is stable under it.
\<close>

definition foreign :: "string \<Rightarrow> controller_identity \<Rightarrow> store_label \<Rightarrow> bool" where
  "foreign iv ctl l =
     (case l of
        Enqueues ctl' \<Rightarrow> True
      | Acquires iv' ctl' \<Rightarrow> True
      | Cancels iv' ctl' \<Rightarrow> (iv', ctl') \<noteq> (iv, ctl)
      | Launches iv' ctl' \<Rightarrow> (iv', ctl') \<noteq> (iv, ctl)
      | Registers iv' ctl' \<Rightarrow> (iv', ctl') \<noteq> (iv, ctl)
      | Completes iv' ctl' unc \<Rightarrow> (iv', ctl') \<noteq> (iv, ctl)
      | Reconciles removed \<Rightarrow> iv \<notin> set removed)"

inductive foreign_reaches :: "string \<Rightarrow> string \<Rightarrow> controller_identity \<Rightarrow> node \<Rightarrow> node \<Rightarrow> bool" for r iv ctl where
  foreign_refl: "foreign_reaches r iv ctl nd nd"
| foreign_step: "foreign_reaches r iv ctl nd nd1 \<Longrightarrow> store_step r l nd1 nd2 \<Longrightarrow> foreign iv ctl l \<Longrightarrow> foreign_reaches r iv ctl nd nd2"

lemma foreign_reaches_trans: "foreign_reaches r iv ctl nd1 nd2 \<Longrightarrow> foreign_reaches r iv ctl nd nd1 \<Longrightarrow> foreign_reaches r iv ctl nd nd2"
  by (induction rule: foreign_reaches.induct) (auto intro: foreign_step)

lemma foreign_reaches_reaches: "foreign_reaches r iv ctl nd nd' \<Longrightarrow> reaches r nd nd'"
  by (induction rule: foreign_reaches.induct) (auto intro: reaches_refl reaches_step)

lemma identity_matches_unique: "identity_matches c ctl \<Longrightarrow> identity_matches c ctl' \<Longrightarrow> ctl = ctl'"
  by (cases ctl; cases ctl') (simp add: identity_matches_def Let_def)

lemma foreign_owner:
  assumes "step_body l j j'" and "foreign iv ctl l" and "j_owner j = Some c" and "c_inv c = iv" and "identity_matches c ctl"
  shows "j_owner j' = Some c"
proof (cases l)
  case (Enqueues ctl')
  with assms show ?thesis by (auto simp: step_body_def dest: enqueue_body_Publish)
next
  case (Acquires iv' ctl')
  with assms(1,3) show ?thesis by (auto simp: step_body_def elim: acquire_body_Publish)
next
  case (Cancels iv' ctl')
  with assms(1) obtain out where "cancel_body iv' ctl' j = Publish j' out" by (auto simp: step_body_def)
  then show ?thesis
    by (rule cancel_body_Publish)
      (use assms(2-5) Cancels identity_matches_unique in \<open>auto simp: foreign_def\<close>)
next
  case (Launches iv' ctl')
  with assms identity_matches_unique show ?thesis
    by (auto simp: step_body_def foreign_def elim!: owned_body_Publish)
next
  case (Registers iv' ctl')
  with assms identity_matches_unique show ?thesis
    by (auto simp: step_body_def foreign_def elim!: owned_body_Publish)
next
  case (Completes iv' ctl' unc)
  with assms identity_matches_unique show ?thesis
    by (auto simp: step_body_def foreign_def elim!: owned_body_Publish)
next
  case (Reconciles removed)
  with assms(1) obtain rv why out where "commit_body rv removed why j = Publish j' out" by (auto simp: step_body_def)
  from commit_body_Publish [OF this] assms(2-4) Reconciles show ?thesis by (auto simp: foreign_def)
qed

lemma own_reserved_stable:
  assumes "foreign_reaches r iv ctl nd nd'" and "readable r nd" and "own_reserved r iv ctl nd"
  shows "own_reserved r iv ctl nd'"
  using assms
proof (induction rule: foreign_reaches.induct)
  case (foreign_step nd nd1 l nd2)
  have rd: "readable r nd1"
    by (rule reaches_readable [OF foreign_reaches_reaches [OF foreign_step.hyps(1)] foreign_step.prems(1)])
  from foreign_step.IH [OF foreign_step.prems] obtain c where
    c: "j_owner (journal_of r nd1) = Some c" "c_inv c = iv" "c_status c = ''reserved''" "identity_matches c ctl"
    by (auto simp: own_reserved_def)
  from store_step_body [OF foreign_step.hyps(2) rd] c foreign_owner [OF _ foreign_step.hyps(3) c(1,2,4)] show ?case
    unfolding own_reserved_def by auto
qed simp

definition fair_controls :: "string \<Rightarrow> controls \<Rightarrow> bool" where
  "fair_controls r c \<longleftrightarrow> fair r (c_ticks c) \<and> (\<forall>nd. reaches r nd (c_others c nd))"

definition foreign_controls :: "string \<Rightarrow> string \<Rightarrow> controller_identity \<Rightarrow> controls \<Rightarrow> bool" where
  "foreign_controls r iv ctl c \<longleftrightarrow> (\<forall>nd. foreign_reaches r iv ctl nd (c_others c nd))"

definition fair_round :: "string \<Rightarrow> wait_round \<Rightarrow> bool" where
  "fair_round r w \<longleftrightarrow> fair_controls r (w_controls w) \<and> fair_reconcile r (w_reconcile w) \<and> fair r [w_tick w]"

lemma fair_controls_readable: "fair_controls r c \<Longrightarrow> readable r nd \<Longrightarrow> readable r (c_others c nd)"
  using reaches_readable by (auto simp: fair_controls_def)

lemma ok_service_controls:
  assumes "fair_controls r c" and "readable r nd" and "iv = cs_invocation_id spec"
  shows "ok_run r iv (\<lambda>_ _. True) (service_controls limit r spec ctl c nd)"
proof -
  have f: "fair r (c_ticks c)" and rd: "readable r (c_others c nd)"
    using assms(1) fair_controls_readable [OF assms(1,2)] by (simp_all add: fair_controls_def)
  show ?thesis
    using rd by (simp add: service_controls_def Let_def ok_withdraw_and_raise [OF f rd assms(3)] split: option.splits verdict.splits)
qed

lemma ok_service_controls_final:
  assumes "\<forall>c \<in> set cs. fair_controls r c" and "readable r nd" and "iv = cs_invocation_id spec"
  shows "ok_run r iv (\<lambda>_ nd'. (\<forall>c \<in> set cs. foreign_controls r iv ctl c) \<longrightarrow> foreign_reaches r iv ctl nd nd')
    (service_controls_final limit r spec ctl cs nd)"
  using assms(1,2)
proof (induction cs arbitrary: nd)
  case (Cons c cs)
  let ?nd = "c_others c nd"
  have f: "fair_controls r c" "fair r (c_ticks c)" using Cons.prems(1) by (simp_all add: fair_controls_def)
  have rd: "readable r ?nd" by (rule fair_controls_readable [OF f(1) Cons.prems(2)])
  have one: "foreign_controls r iv ctl c \<Longrightarrow> foreign_reaches r iv ctl nd ?nd" by (simp add: foreign_controls_def)
  have "ok_run r iv (\<lambda>_ nd'. (\<forall>c \<in> set cs. foreign_controls r iv ctl c) \<longrightarrow> foreign_reaches r iv ctl ?nd nd')
      (service_controls_final limit r spec ctl cs ?nd)"
    using Cons.IH [of ?nd] Cons.prems(1) rd by simp
  then have rest: "ok_run r iv (\<lambda>_ nd'. (\<forall>c \<in> set (c # cs). foreign_controls r iv ctl c) \<longrightarrow> foreign_reaches r iv ctl nd nd')
      (service_controls_final limit r spec ctl cs ?nd)"
    using one foreign_reaches_trans by (fastforce simp: ok_run_def split: option.splits sum.splits)
  show ?case
    using rest rd one by (auto simp: Let_def ok_withdraw_and_raise [OF f(2) rd assms(3)] split: option.splits verdict.splits)
qed simp

lemma ok_reconcile_dead_owner:
  assumes "fair_reconcile r ri" and "readable r nd"
  shows "ok_run r iv (\<lambda>_ _. True) (reconcile_dead_owner r ri nd)"
proof -
  let ?seen = "ri_before ri nd" and ?nd = "ri_between ri (ri_before ri nd)"
  have "readable r ?seen" by (rule reaches_readable [OF _ assms(2)]) (use assms(1) in \<open>simp add: fair_reconcile_def\<close>)
  then have rd: "readable r ?nd" by (rule reaches_readable [rotated]) (use assms(1) in \<open>simp add: fair_reconcile_def\<close>)
  obtain nd' res where rc: "reconcile (ri_env0 ri) (ri_env ri) r (ri_boot ri) (ri_evidence ri) (ri_groups ri) ?seen ?nd = (nd', res)"
    by (cases "reconcile (ri_env0 ri) (ri_env ri) r (ri_boot ri) (ri_evidence ri) (ri_groups ri) ?seen ?nd")
  have "nd' = ?nd \<or> (\<exists>rv removed why. run_locked (ri_env ri) r ?nd (commit_body rv removed why) = (nd', res))"
    using rc by (auto simp: reconcile_def split: if_splits sum.splits)
  then have "readable r nd'" using rd rec.keeps_readable by blast
  then show ?thesis by (cases res) (simp_all add: reconcile_dead_owner_def rc)
qed

lemma enqueue_reserved:
  assumes "enqueue env r spec (Some ctl) nd = (nd', Inr out)" and "readable r nd" and "o_state out = Acquired"
  shows "nd' = nd \<and> own_reserved r (cs_invocation_id spec) ctl nd"
proof -
  have run: "run_locked env r nd (enqueue_body spec ctl) = (nd', Inr out)"
    using assms(1,3) by (auto simp: enqueue_def rejected_def split: if_splits)
  with assms(3) obtain j where rj: "read_journal env r nd = Inr (Inr j)"
    by (auto simp: run_locked_def rejected_def split: if_splits lock_result.splits sum.splits)
  have j: "j = journal_of r nd" "journal_ok r j" using read_journal_Inr [OF rj] by blast+
  have lk: "e_open_ok env" "e_lock env = Granted"
    using run assms(3) by (auto simp: run_locked_def rejected_def split: if_splits lock_result.splits)
  have "enqueue_body spec ctl j = Stop out \<and> nd' = nd"
  proof (cases "enqueue_body spec ctl j")
    case (Stop x)
    with run rj lk show ?thesis by (simp add: run_locked_def)
  next
    case (Publish j' x)
    with enqueue_body_Publish [OF Publish] run rj lk assms(3) show ?thesis
      by (auto simp: run_locked_def rejected_def split: prod.splits option.splits)
  qed
  then obtain at c where f: "find_claim j (cs_invocation_id spec) = Some (at, c)" and "nd' = nd"
    and c: "identity_matches c ctl" "c_status c = ''reserved''"
    using assms(3) by (auto simp: enqueue_body_def rejected_def split: option.splits if_splits)
  from f have "j_owner j = Some c \<and> c_inv c = cs_invocation_id spec"
  proof (rule find_claim_cases)
    fix i
    assume "i < length (j_queue j)" "c = j_queue j ! i"
    with journal_okD(4) [OF j(2)] have "c_status c = ''queued''" by simp
    with c(2) show ?thesis by simp
  qed simp
  with c j(1) \<open>nd' = nd\<close> show ?thesis by (auto simp: own_reserved_def)
qed

lemma acquire_reserved:
  assumes "try_acquire env r iv ctl nd = (nd', Inr out)" and "readable r nd" and "o_state out = Acquired"
  shows "own_reserved r iv ctl nd'"
proof -
  have "run_locked env r nd (acquire_body iv ctl) = (nd', Inr out)"
    using assms(1,3) by (auto simp: try_acquire_def rejected_def split: if_splits)
  moreover have "acquire_body iv ctl (journal_of r nd) \<noteq> Stop out"
    using assms(3) by (auto simp: acquire_body_def rejected_def busy_def split: option.splits claim_ref.splits if_splits)
  ultimately have "acquire_body iv ctl (journal_of r nd) = Publish (journal_of r nd') out"
    using acq.success_published [of env r nd iv ctl nd' out] assms(3) by simp
  then show ?thesis
    by (rule acquire_body_Publish) (auto simp: own_reserved_def)
qed

lemma enqueue_readable:
  "enqueue env r spec (Some ctl) nd = (nd', res) \<Longrightarrow> readable r nd \<Longrightarrow> controller_ok ctl \<Longrightarrow> readable r nd'"
  by (auto simp: enqueue_def split: if_splits elim: enq.keeps_readable)

lemma acquire_readable: "try_acquire env r iv ctl nd = (nd', res) \<Longrightarrow> readable r nd \<Longrightarrow> readable r nd'"
  by (auto simp: try_acquire_def split: if_splits elim: acq.keeps_readable)

lemma ok_admission_call:
  assumes "fair r [t]" and "readable r nd"
    and "\<And>env nd nd' res. op env nd = (nd', res) \<Longrightarrow> readable r nd \<Longrightarrow> readable r nd'"
    and "\<And>env nd nd' out. op env nd = (nd', Inr out) \<Longrightarrow> readable r nd \<Longrightarrow> o_state out = Acquired \<Longrightarrow> G nd'"
  shows "ok_run r iv (\<lambda>out nd'. o_state out = Acquired \<longrightarrow> G nd') (admission_call op why t nd)"
proof -
  have rd: "readable r (t_others t nd)" using assms(1,2) reaches_readable by auto
  obtain nd' res where op: "op (t_env t) (t_others t nd) = (nd', res)" by (cases "op (t_env t) (t_others t nd)")
  from assms(3) [OF op rd] assms(4) [of "t_env t" "t_others t nd" nd'] op rd show ?thesis
    by (cases res) (simp_all add: admission_call_def)
qed

lemma ok_enqueue_call:
  assumes ctl: "controller_ok ctl" and iv: "iv = cs_invocation_id spec"
    and "fair r [t]" and "readable r nd"
  shows "ok_run r iv (\<lambda>out nd'. o_state out = Acquired \<longrightarrow> own_reserved r iv ctl nd')
    (admission_call (\<lambda>env. enqueue env r spec (Some ctl)) why t nd)"
  by (rule ok_admission_call [OF assms(3,4)]) (use enqueue_readable ctl enqueue_reserved iv in blast)+

lemma ok_acquire_call:
  assumes ctl: "controller_ok ctl" and iv: "iv = cs_invocation_id spec"
    and "fair r [t]" and "readable r nd"
  shows "ok_run r iv (\<lambda>out nd'. o_state out = Acquired \<longrightarrow> own_reserved r iv ctl nd')
    (admission_call (\<lambda>env. try_acquire env r (cs_invocation_id spec) ctl) why t nd)"
  by (rule ok_admission_call [OF assms(3,4)]) (use acquire_readable acquire_reserved iv in blast)+

lemma ok_round_controls:
  assumes ctl: "controller_ok ctl" and iv: "iv = cs_invocation_id spec"
    and "fair_round r w" and "readable r nd"
  shows "ok_run r iv (\<lambda>_ _. True) (round_controls limit interval r spec ctl w st nd)"
  using assms iv unfolding round_controls_def fair_round_def
  by (auto intro!: ok_and_then [OF ok_service_controls] ok_and_then [OF ok_reconcile_dead_owner])

lemma ok_round_call:
  assumes ctl: "controller_ok ctl" and iv: "iv = cs_invocation_id spec"
    and "fair_round r w" and "readable r nd"
  shows "ok_run r iv (\<lambda>(acquired, _) nd'. acquired \<longrightarrow> own_reserved r iv ctl nd') (round_call r spec ctl w st nd)"
proof (cases "ws_ticket st = None")
  case True
  from assms(3) have f: "fair r [w_tick w]" by (simp add: fair_round_def)
  from True show ?thesis
    by (simp add: round_call_def Let_def ok_and_then [OF ok_enqueue_call [OF ctl iv f assms(4)]])
next
  case False
  from assms(3) have f: "fair r [w_tick w]" by (simp add: fair_round_def)
  from False obtain tk where "ws_ticket st = Some tk" by blast
  then show ?thesis
    by (simp add: round_call_def Let_def ok_and_then [OF ok_acquire_call [OF ctl iv f assms(4)]])
qed

lemma ok_wait_loop:
  assumes ctl: "controller_ok ctl" and iv: "iv = cs_invocation_id spec"
    and "\<forall>w \<in> set ws. fair_round r w" and "readable r nd"
  shows "ok_run r iv (\<lambda>_ nd'. own_reserved r iv ctl nd') (wait_loop limit interval r spec ctl ws st nd)"
  using assms(3,4)
proof (induction ws arbitrary: st nd)
  case (Cons w ws)
  have f: "fair_round r w" using Cons.prems by simp
  show ?case
    unfolding wait_loop.simps
    by (rule ok_and_then [OF ok_round_controls [OF ctl iv f Cons.prems(2)]], rule ok_and_then [OF ok_round_call [OF ctl iv f]])
       (use Cons in \<open>auto split: prod.splits\<close>)
qed simp

lemma ok_admit:
  assumes ctl: "controller_ok ctl" and iv: "iv = cs_invocation_id spec"
    and "fair r [t]" and "fair_controls r c" and "fair_reconcile r ri" and "\<forall>w \<in> set ws. fair_round r w"
    and "\<forall>c \<in> set cs. fair_controls r c" and "readable r nd"
  shows "ok_run r iv (\<lambda>l nd'. ((\<forall>c \<in> set cs. foreign_controls r iv ctl c) \<longrightarrow> own_reserved r iv ctl nd') \<and>
      l = Some \<lparr>l_resource = r, l_invocation = iv, l_controller = ctl, l_launch_marked = False\<rparr>)
    (admit limit interval (Some r) spec (Some ctl) t c ri now ws cs nd)"
proof -
  have wait: "ok_run r iv (\<lambda>_ nd'. own_reserved r iv ctl nd')
      (and_then (service_controls limit r spec ctl c nd) (\<lambda>_ nd.
       and_then (reconcile_dead_owner r ri nd) (\<lambda>_ nd.
       and_then (Some (nd, [Waiting (o_reason out) (o_ticket out)], Inr ())) (\<lambda>_ nd.
       wait_loop limit interval r spec ctl ws st nd))))" if "readable r nd" for nd out st
    by (rule ok_and_then [OF ok_service_controls [OF assms(4) that iv]],
        rule ok_and_then [OF ok_reconcile_dead_owner [OF assms(5)]], simp,
        rule ok_and_then [where P = "\<lambda>_ _. True"], simp, rule ok_wait_loop [OF ctl iv assms(6)]) simp_all
  have fin: "ok_run r iv (\<lambda>l nd'. ((\<forall>c \<in> set cs. foreign_controls r iv ctl c) \<longrightarrow> own_reserved r iv ctl nd') \<and>
      l = Some \<lparr>l_resource = r, l_invocation = iv, l_controller = ctl, l_launch_marked = False\<rparr>)
     (and_then (service_controls_final limit r spec ctl cs nd) (\<lambda>_ nd.
        Some (nd, [Got ticket],
          Inr (Some \<lparr>l_resource = r, l_invocation = cs_invocation_id spec, l_controller = ctl,
                     l_launch_marked = False\<rparr>))))"
    if "readable r nd" "own_reserved r iv ctl nd" for nd ticket
    by (rule ok_and_then [OF ok_service_controls_final [OF assms(7) that(1) iv, where ctl = ctl]])
      (use that iv own_reserved_stable in auto)
  show ?thesis
    unfolding admit_def option.case
  proof (rule ok_and_then [OF ok_enqueue_call [OF ctl iv assms(3,8)]], goal_cases)
    case (1 out nd1)
    show ?case
      by (rule ok_and_then [where P = "\<lambda>_ nd'. own_reserved r iv ctl nd'"])
         (use 1 wait fin in auto)
  qed
qed

subsection \<open>The properties\<close>

definition quiet :: tick where
  "quiet = \<lparr>t_others = (\<lambda>nd. nd), t_env = all_ok, t_now = 0\<rparr>"

definition calm :: controls where
  "calm = \<lparr>c_others = (\<lambda>nd. nd), c_stop = False, c_verdict = Some Unchanged_Verdict, c_start = 0, c_ticks = [quiet]\<rparr>"

definition no_evidence :: reconcile_inputs where
  "no_evidence = \<lparr>ri_before = (\<lambda>nd. nd), ri_between = (\<lambda>nd. nd), ri_env0 = all_ok, ri_env = all_ok, ri_boot = None,
     ri_evidence = (\<lambda>_. \<lparr>pe_liveness = Unknown, pe_birth = None\<rparr>), ri_groups = (\<lambda>_. Group_Unknown)\<rparr>"

definition calm_round :: wait_round where
  "calm_round = \<lparr>w_now = 10, w_controls = calm, w_reconcile = no_evidence, w_now_after = 20, w_tick = quiet\<rparr>"

definition lease1 :: lease where
  "lease1 = \<lparr>l_resource = rid, l_invocation = ''i1'', l_controller = ctl1, l_launch_marked = False\<rparr>"

lemma quiet_fair: "fair r [quiet]" "fair_controls r calm" "fair_reconcile r no_evidence" "fair_round r calm_round"
  by (simp_all add: fair_def quiet_def calm_def calm_round_def fair_round_def fair_reconcile_def no_evidence_def
      fair_controls_def reaches_refl)

lemma ctl1_ok: "controller_ok ctl1"
  by (simp add: controller_ok_def ctl1_def)

lemma run_returned:
  assumes "case m of Some (nd', es, Inr l) \<Rightarrow> True | _ \<Rightarrow> False"
  shows "\<exists>nd' es l. m = Some (nd', es, Inr l)"
proof (cases m)
  case (Some a)
  with assms show ?thesis by (cases a; cases "snd (snd a)") auto
qed (use assms in simp)

lemma run_stopped:
  assumes "case m of Some (nd', es, Inl e) \<Rightarrow> e = Stop_Requested | _ \<Rightarrow> False"
  shows "\<exists>nd' es. m = Some (nd', es, Inl Stop_Requested)"
proof (cases m)
  case (Some a)
  with assms show ?thesis by (cases a; cases "snd (snd a)") auto
qed (use assms in simp)

lemma require_returned:
  assumes "case m of Some (nd', Inr (u :: unit)) \<Rightarrow> True | _ \<Rightarrow> False"
  shows "\<exists>nd'. m = Some (nd', Inr ())"
proof (cases m)
  case (Some a)
  with assms show ?thesis by (cases a; cases "snd a") auto
qed (use assms in simp)

text \<open>
  C1. An admission that returns a lease returns it for a claim that owns the resource: the file it
  leaves has this invocation as its owner, reserved, under the caller's identity. Other processes make any
  store calls between the calls of the admission; between the acquisition and the return, while the
  final controls are checked, retried and slept over, any but the calls of the caller's own identity for
  this invocation and reconciliations that name it (which C10 shows to need evidence that the caller is gone).
\<close>

theorem admitted_owns_a_reservation:
  assumes "admit limit interval (Some r) spec (Some ctl) t c ri now ws cs nd = Some (nd', es, Inr l)"
    and "readable r nd" and "controller_ok ctl"
    and "fair r [t]" and "fair_controls r c" and "fair_reconcile r ri"
    and "\<forall>w \<in> set ws. fair_round r w"
    and "\<forall>c \<in> set cs. fair_controls r c \<and> foreign_controls r (cs_invocation_id spec) ctl c"
  shows "l = Some \<lparr>l_resource = r, l_invocation = cs_invocation_id spec, l_controller = ctl, l_launch_marked = False\<rparr> \<and>
    readable r nd' \<and>
    (\<exists>own. j_owner (journal_of r nd') = Some own \<and> c_inv own = cs_invocation_id spec \<and>
       c_status own = ''reserved'' \<and> identity_matches own ctl)"
proof -
  have f: "\<forall>c \<in> set cs. fair_controls r c" "\<forall>c \<in> set cs. foreign_controls r (cs_invocation_id spec) ctl c"
    using assms(8) by simp_all
  from ok_admit [OF assms(3) refl assms(4-7) f(1) assms(2), where spec = spec and limit = limit and interval = interval and now = now]
    assms(1) f(2)
  show ?thesis by (simp add: own_reserved_def)
qed

text \<open>While the caller checks its controls again, another process joins the queue.\<close>

definition spec2 :: claim_spec where
  "spec2 = spec1\<lparr>cs_invocation_id := ''i2''\<rparr>"

definition ctl2 :: controller_identity where
  "ctl2 = ctl1\<lparr>ci_pid := 8\<rparr>"

definition joined :: controls where
  "joined = calm\<lparr>c_others := (\<lambda>nd. fst (enqueue all_ok rid spec2 (Some ctl2) nd)), c_verdict := Some Retry_Verdict\<rparr>"

lemma joined_fair: "fair_controls rid joined" "foreign_controls rid ''i1'' ctl1 joined" "foreign_controls rid ''i1'' ctl1 calm"
proof -
  have "controller_ok ctl2" by (simp add: controller_ok_def ctl1_def ctl2_def)
  then have st: "store_step rid (Enqueues ctl2) nd (fst (enqueue all_ok rid spec2 (Some ctl2) nd))" for nd
    by (rule step_enqueue) (rule prod.collapse [symmetric])
  show f: "foreign_controls rid ''i1'' ctl1 joined"
    using foreign_step [OF foreign_refl st] by (simp add: foreign_controls_def joined_def foreign_def)
  have "reaches rid nd (c_others joined nd)" for nd
    using foreign_reaches_reaches f unfolding foreign_controls_def by blast
  moreover have "fair rid (c_ticks joined)"
    using quiet_fair(2) [of rid] by (simp add: fair_controls_def joined_def)
  ultimately show "fair_controls rid joined" by (simp add: fair_controls_def)
  show "foreign_controls rid ''i1'' ctl1 calm" by (simp add: foreign_controls_def calm_def foreign_refl)
qed

theorem admitted_owns_a_reservation_witness:
  "\<exists>nd' es. admit 5000 1 (Some rid) spec1 (Some ctl1) quiet calm no_evidence 0 [calm_round] [joined, calm] Missing =
      Some (nd', es, Inr (Some lease1)) \<and>
    (\<exists>own. j_owner (journal_of rid nd') = Some own \<and> c_status own = ''reserved'')"
proof -
  let ?a = "admit 5000 1 (Some rid) spec1 (Some ctl1) quiet calm no_evidence 0 [calm_round] [joined, calm] Missing"
  have "case ?a of Some (nd', es, Inr l) \<Rightarrow> True | _ \<Rightarrow> False" by code_simp
  from run_returned [OF this]
  obtain nd' es l where a: "?a = Some (nd', es, Inr l)" by blast
  have i: "cs_invocation_id spec1 = ''i1''" by (simp add: spec1_def)
  have f: "\<forall>w \<in> set [calm_round]. fair_round rid w"
    "\<forall>c \<in> set [joined, calm]. fair_controls rid c \<and> foreign_controls rid (cs_invocation_id spec1) ctl1 c"
    using quiet_fair joined_fair i by simp_all
  have m: "readable rid Missing" by simp
  from admitted_owns_a_reservation [OF a m ctl1_ok quiet_fair(1-3) f] a show ?thesis
    by (auto simp: lease1_def spec1_def)
qed

text \<open>
  C11. An admission that ends with an owner stop, a failed revalidation or a re-preparation without a
  retained claim has confirmed that its claim is gone: the file it leaves has no claim of this
  invocation, queued or owning.
\<close>

theorem stopped_admission_leaves_no_claim:
  assumes "admit limit interval (Some r) spec (Some ctl) t c ri now ws cs nd = Some (nd', es, Inl e)"
    and "e = Stop_Requested \<or> e = Revalidation_Failed \<or> e = Turn_Reprepare_Required None why"
    and "readable r nd" and "controller_ok ctl"
    and "fair r [t]" and "fair_controls r c" and "fair_reconcile r ri"
    and "\<forall>w \<in> set ws. fair_round r w" and "\<forall>c \<in> set cs. fair_controls r c"
  shows "readable r nd' \<and> cs_invocation_id spec \<notin> c_inv ` set (claims_of (journal_of r nd'))"
  using ok_admit [OF assms(4) refl assms(5-9) assms(3), where spec = spec and limit = limit and interval = interval and now = now] assms(1,2)
  by (auto simp: absent_def)

theorem stopped_admission_leaves_no_claim_witness:
  "\<exists>nd' es. admit 5000 1 (Some rid) spec1 (Some ctl1) quiet calm no_evidence 0 [calm_round] [calm\<lparr>c_stop := True\<rparr>]
      Missing = Some (nd', es, Inl Stop_Requested) \<and> ''i1'' \<notin> c_inv ` set (claims_of (journal_of rid nd'))"
proof -
  let ?a = "admit 5000 1 (Some rid) spec1 (Some ctl1) quiet calm no_evidence 0 [calm_round] [calm\<lparr>c_stop := True\<rparr>] Missing"
  have "case ?a of Some (nd', es, Inl e) \<Rightarrow> e = Stop_Requested | _ \<Rightarrow> False" by code_simp
  from run_stopped [OF this]
  obtain nd' es where a: "?a = Some (nd', es, Inl Stop_Requested)" by blast
  have f: "\<forall>w \<in> set [calm_round]. fair_round rid w" "\<forall>c \<in> set [calm\<lparr>c_stop := True\<rparr>]. fair_controls rid c"
    using quiet_fair by (simp_all add: fair_controls_def)
  have m: "readable rid Missing" by simp
  from stopped_admission_leaves_no_claim [OF a _ m ctl1_ok quiet_fair(1-3) f] a show ?thesis
    by (auto simp: spec1_def)
qed

text \<open>
  The transitions of a lease are fenced: each one that returns normally found its own invocation
  as the owner in the status the transition is meant for and replaced exactly that owner; the waiting
  queue is untouched.
\<close>

theorem lease_transitions_are_fenced:
  assumes "readable r nd" and "fair r ts" and "l_resource l = r" and "l_launch_marked l = False"
  shows "(lease_mark_launching l start ts nd = Some (l', nd', Inr ()) \<longrightarrow> l_launch_marked l' \<and>
      (\<exists>nd0. owner_was r (l_invocation l) [''reserved''] nd0 (\<lambda>c. Some (dput ''status'' (JStr ''launching'') c)) nd')) \<and>
    (lease_bind_child l pid birth grp start ts nd = Some (nd', Inr ()) \<longrightarrow>
      (\<exists>nd0. owner_was r (l_invocation l) [''launching''] nd0 (\<lambda>c. Some (child_update pid birth grp c)) nd')) \<and>
    (lease_complete l start ts nd = Some (nd', Inr ()) \<longrightarrow>
      (\<exists>nd0. owner_was r (l_invocation l) OWNER_STATUSES nd0 (\<lambda>c. None) nd')) \<and>
    (lease_mark_unconfirmed l start ts nd = Some (nd', Inr ()) \<longrightarrow>
      (\<exists>nd0. owner_was r (l_invocation l) OWNER_STATUSES nd0 (\<lambda>c. Some (dput ''status'' (JStr ''unconfirmed'') c)) nd'))"
proof (intro conjI impI)
  assume "lease_mark_launching l start ts nd = Some (l', nd', Inr ())"
  with assms(4) have l': "l' = l\<lparr>l_launch_marked := True\<rparr>" and
    q: "lease_require ''mark_launching'' Launching (\<lambda>env. mark_launching env (l_resource l) (l_invocation l) (l_controller l))
      (lease_deadline start) ts nd = Some (nd', Inr ())"
    by (auto simp: lease_mark_launching_def split: option.splits sum.splits)
  show "l_launch_marked l'" by (simp add: l')
  show "\<exists>nd0. owner_was r (l_invocation l) [''reserved''] nd0 (\<lambda>c. Some (dput ''status'' (JStr ''launching'') c)) nd'"
    using launching.require_post [OF q [unfolded assms(3)] assms(2,1)] by auto
next
  assume "lease_bind_child l pid birth grp start ts nd = Some (nd', Inr ())"
  from binding.require_post [OF this [unfolded lease_bind_child_def assms(3)] assms(2,1)]
  show "\<exists>nd0. owner_was r (l_invocation l) [''launching''] nd0 (\<lambda>c. Some (child_update pid birth grp c)) nd'" by auto
next
  assume "lease_complete l start ts nd = Some (nd', Inr ())"
  from completing.require_post [OF this [unfolded lease_complete_def assms(3)] assms(2,1)]
  show "\<exists>nd0. owner_was r (l_invocation l) OWNER_STATUSES nd0 (\<lambda>c. None) nd'" by auto
next
  assume "lease_mark_unconfirmed l start ts nd = Some (nd', Inr ())"
  from retaining.require_post [OF this [unfolded lease_mark_unconfirmed_def assms(3)] assms(2,1)]
  show "\<exists>nd0. owner_was r (l_invocation l) OWNER_STATUSES nd0 (\<lambda>c. Some (dput ''status'' (JStr ''unconfirmed'') c)) nd'"
    by auto
qed

theorem lease_transitions_are_fenced_witness:
  "\<exists>nd' nd0. lease_complete lease1 0 [quiet] file2 = Some (nd', Inr ()) \<and>
     owner_was rid ''i1'' OWNER_STATUSES nd0 (\<lambda>c. None) nd'"
proof -
  have "case lease_complete lease1 0 [quiet] file2 of Some (nd', Inr u) \<Rightarrow> True | _ \<Rightarrow> False" by code_simp
  from require_returned [OF this]
  obtain nd' where c: "lease_complete lease1 0 [quiet] file2 = Some (nd', Inr ())" by blast
  have "l_resource lease1 = rid" "l_launch_marked lease1 = False" "l_invocation lease1 = ''i1''"
    by (simp_all add: lease1_def)
  with lease_transitions_are_fenced [OF files(3) quiet_fair(1), of lease1] c show ?thesis by metis
qed

text \<open>
  C40. Contention cannot keep a lease or a withdrawal waiting for ever: once a clock reading reaches the
  deadline the retry loops have an answer.
\<close>

theorem retries_end_at_the_deadline:
  assumes "\<exists>t \<in> set ts. start + 5000 \<le> t_now t"
  shows "lease_complete l start ts nd \<noteq> None \<and> lease_mark_launching l start ts nd \<noteq> None \<and>
    lease_bind_child l pid birth grp start ts nd \<noteq> None \<and> lease_mark_unconfirmed l start ts nd \<noteq> None \<and>
    withdraw_claim 5000 r spec ctl start ts nd \<noteq> None"
proof -
  have d: "\<exists>t \<in> set ts. lease_deadline start \<le> t_now t" using assms by (simp add: lease_deadline_def)
  note e = launching.transition_ends [OF d] binding.transition_ends [OF d] completing.transition_ends [OF d]
    retaining.transition_ends [OF d]
  have t: "lease_transition op (start + 5000) ts nd \<noteq> None" for op
    using assms by (induction ts arbitrary: nd) (auto split: prod.splits sum.splits)
  have n: "lease_require stage ex op (lease_deadline start) ts nd \<noteq> None" for stage ex op
    using t [of op] by (auto simp: lease_require_def lease_deadline_def split: option.splits sum.splits)
  have "withdraw_claim 5000 r spec ctl start ts nd \<noteq> None"
    unfolding withdraw_claim_def withdraw_loop_as_transition using t by (auto split: option.splits sum.splits)
  moreover have "lease_mark_launching l start ts nd \<noteq> None"
    using n [of "''mark_launching''" Launching
        "\<lambda>env. mark_launching env (l_resource l) (l_invocation l) (l_controller l)"]
    by (auto simp: lease_mark_launching_def split: option.splits sum.splits)
  ultimately show ?thesis
    using n by (simp add: lease_complete_def lease_bind_child_def lease_mark_unconfirmed_def)
qed

theorem retries_end_at_the_deadline_witness:
  "\<exists>nd' res. lease_complete lease1 0 [quiet\<lparr>t_env := all_ok\<lparr>e_lock := Busy\<rparr>, t_now := 6000\<rparr>] file2 = Some (nd', res)"
  using retries_end_at_the_deadline [of "[quiet\<lparr>t_env := all_ok\<lparr>e_lock := Busy\<rparr>, t_now := 6000\<rparr>]" 0 lease1 file2]
  by auto

end
