(* ===== verification/Conditions.thy ===== *)
theory Conditions
  imports Prelude Py_Text
begin

text \<open>
  The guards of workflow transitions: the tokenizer and the recursive-descent evaluator of
  \<^verbatim>\<open>aflow/workflow.py\<close>, the check the configuration loader makes on a guard
  (\<^verbatim>\<open>aflow/config.py\<close>), and the choice of a transition. The position the code keeps in a
  one-element list is the rest of the token list. The mutually recursive functions run on fuel;
  \<open>evaluate_condition\<close> supplies four units per token and four more, which is always enough.
\<close>

subsection \<open>Tokens\<close>

record valuation =
  v_done :: bool
  v_new_plan :: bool
  v_max_turns :: bool

definition VALID_CONDITION_SYMBOLS :: "string list" where
  "VALID_CONDITION_SYMBOLS = [''DONE'', ''NEW_PLAN_EXISTS'', ''MAX_TURNS_REACHED'']"

definition evaluate_condition_token :: "valuation \<Rightarrow> string \<Rightarrow> string + bool" where
  "evaluate_condition_token v tok =
     (if tok = ''DONE'' then Inr (v_done v)
      else if tok = ''NEW_PLAN_EXISTS'' then Inr (v_new_plan v)
      else if tok = ''MAX_TURNS_REACHED'' then Inr (v_max_turns v)
      else Inl (''unknown condition symbol: '' @ tok))"

definition ident_char :: "char \<Rightarrow> bool" where
  "ident_char c = (is_alnum c \<or> c = CHR ''_'')"

lemma dropWhile_shorter: "P c \<Longrightarrow> length (dropWhile P (c # cs)) < Suc (length cs)"
  using length_dropWhile_le [of P cs] by (simp add: less_Suc_eq_le)

definition ident_start :: "char \<Rightarrow> bool" where
  "ident_start c = (is_alpha c \<or> c = CHR ''_'')"

lemma ident_start_char: "ident_start c \<Longrightarrow> ident_char c"
  by (auto simp: ident_start_def ident_char_def is_alnum_def)

function tokenize_condition :: "string \<Rightarrow> string + string list" where
  "tokenize_condition [] = Inr []"
| "tokenize_condition (c # cs) =
     (if is_space c then tokenize_condition cs
      else if c = CHR ''&'' \<and> take 1 cs = ''&'' then map_sum (\<lambda>e. e) ((#) ''&&'') (tokenize_condition (tl cs))
      else if c = CHR ''|'' \<and> take 1 cs = ''|'' then map_sum (\<lambda>e. e) ((#) ''||'') (tokenize_condition (tl cs))
      else if c = CHR ''!'' then map_sum (\<lambda>e. e) ((#) ''!'') (tokenize_condition cs)
      else if c = CHR ''('' then map_sum (\<lambda>e. e) ((#) ''('') (tokenize_condition cs)
      else if c = CHR '')'' then map_sum (\<lambda>e. e) ((#) '')'') (tokenize_condition cs)
      else if ident_start c then
        map_sum (\<lambda>e. e) ((#) (takeWhile ident_char (c # cs))) (tokenize_condition (dropWhile ident_char cs))
      else Inl (''unexpected character '' @ [QUOTE, c, QUOTE] @ '' in condition expression''))"
  by pat_completeness auto
termination
  by (relation "measure length") (auto simp: less_Suc_eq_le length_dropWhile_le)

subsection \<open>The evaluator\<close>

definition unexpected :: "string \<Rightarrow> string" where
  "unexpected tok = ''unexpected token '' @ [QUOTE] @ tok @ [QUOTE] @ '' in condition expression''"

text \<open>\<open>None\<close>: the fuel ran out.\<close>

type_synonym parse = "(string + bool \<times> string list) option"

definition pbind :: "parse \<Rightarrow> (bool \<Rightarrow> string list \<Rightarrow> parse) \<Rightarrow> parse" where
  "pbind m k =
     (case m of None \<Rightarrow> None | Some (Inl e) \<Rightarrow> Some (Inl e) | Some (Inr (b, ts)) \<Rightarrow> k b ts)"

datatype mode = Parse_Or | Or_Loop bool | Parse_And | And_Loop bool | Parse_Not | Parse_Primary

primrec parse :: "nat \<Rightarrow> valuation \<Rightarrow> mode \<Rightarrow> string list \<Rightarrow> parse" where
  "parse 0 v m ts = None"
| "parse (Suc n) v m ts =
     (case m of
        Parse_Or \<Rightarrow> pbind (parse n v Parse_And ts) (\<lambda>b ts. parse n v (Or_Loop b) ts)
      | Or_Loop b \<Rightarrow>
          if take 1 ts = [''||'']
          then pbind (parse n v Parse_And (tl ts)) (\<lambda>c ts. parse n v (Or_Loop (b \<or> c)) ts)
          else Some (Inr (b, ts))
      | Parse_And \<Rightarrow> pbind (parse n v Parse_Not ts) (\<lambda>b ts. parse n v (And_Loop b) ts)
      | And_Loop b \<Rightarrow>
          if take 1 ts = [''&&'']
          then pbind (parse n v Parse_Not (tl ts)) (\<lambda>c ts. parse n v (And_Loop (b \<and> c)) ts)
          else Some (Inr (b, ts))
      | Parse_Not \<Rightarrow>
          if take 1 ts = [''!''] then pbind (parse n v Parse_Not (tl ts)) (\<lambda>b ts. Some (Inr (\<not> b, ts)))
          else parse n v Parse_Primary ts
      | Parse_Primary \<Rightarrow>
          (case ts of
             [] \<Rightarrow> Some (Inl ''unexpected end of condition expression'')
           | tok # rest \<Rightarrow>
               if tok = ''('' then
                 pbind (parse n v Parse_Or rest) (\<lambda>b ts.
                   if take 1 ts \<noteq> ['')''] then Some (Inl ''missing closing parenthesis in condition expression'')
                   else Some (Inr (b, tl ts)))
               else if tok \<in> set VALID_CONDITION_SYMBOLS then
                 Some (map_sum (\<lambda>e. e) (\<lambda>b. (b, rest)) (evaluate_condition_token v tok))
               else Some (Inl (unexpected tok))))"

definition fuel_for :: "string list \<Rightarrow> nat" where
  "fuel_for ts = 4 * length ts + 4"

definition evaluate_condition :: "valuation \<Rightarrow> string \<Rightarrow> string + bool" where
  "evaluate_condition v expression =
     rbind (tokenize_condition expression) (\<lambda>tokens.
       case parse (fuel_for tokens) v Parse_Or tokens of
         None \<Rightarrow> Inl ''out of fuel''
       | Some r \<Rightarrow> rbind r (\<lambda>(b, rest). case rest of [] \<Rightarrow> Inr b | tok # _ \<Rightarrow> Inl (unexpected tok)))"

subsection \<open>Transitions\<close>

record go_transition =
  go_to :: string
  go_when :: "string option"
  go_preserve :: bool

fun select_transition :: "valuation \<Rightarrow> string \<Rightarrow> go_transition list \<Rightarrow> string + go_transition" where
  "select_transition v path [] =
     Inl (''no transition matched for '' @ path @ '' with conditions: DONE='' @
       (if v_done v then ''True'' else ''False'') @ '', NEW_PLAN_EXISTS='' @
       (if v_new_plan v then ''True'' else ''False'') @ '', MAX_TURNS_REACHED='' @
       (if v_max_turns v then ''True'' else ''False''))"
| "select_transition v path (t # ts) =
     (case go_when t of
        None \<Rightarrow> Inr t
      | Some e \<Rightarrow> rbind (evaluate_condition v e) (\<lambda>b. if b then Inr t else select_transition v path ts))"

definition pick_transition :: "valuation \<Rightarrow> string \<Rightarrow> go_transition list \<Rightarrow> string + string" where
  "pick_transition v path ts = map_sum (\<lambda>e. e) go_to (select_transition v path ts)"

definition normalize_end_reason :: "bool \<Rightarrow> go_transition option \<Rightarrow> bool \<Rightarrow> bool \<Rightarrow> string" where
  "normalize_end_reason already_complete selected is_done max_turns =
     (if already_complete then ''already_complete''
      else if (case selected of None \<Rightarrow> False | Some t \<Rightarrow> go_when t = None) then ''transition_end''
      else if is_done then ''done''
      else if max_turns then ''max_turns_reached''
      else ''transition_end'')"

subsection \<open>The loader's check\<close>

definition ascii_letter :: "char \<Rightarrow> bool" where
  "ascii_letter c = ((65 \<le> code c \<and> code c \<le> 90) \<or> (97 \<le> code c \<and> code c \<le> 122))"

definition config_ident_start :: "char \<Rightarrow> bool" where
  "config_ident_start c = (ascii_letter c \<or> c = CHR ''_'')"

definition config_ident_char :: "char \<Rightarrow> bool" where
  "config_ident_char c = (ascii_letter c \<or> (48 \<le> code c \<and> code c \<le> 57) \<or> c = CHR ''_'')"

text \<open>The alternatives of the regular expression that start with an operator, longest listed first.\<close>

definition operators :: "string list" where
  "operators = [''&&'', ''||'', ''!=='', ''!='', ''<>'', ''<='', ''>='', ''=='']"

fun first_prefix :: "string list \<Rightarrow> string \<Rightarrow> string option" where
  "first_prefix [] s = None"
| "first_prefix (p # ps) s = (if starts_with s p then Some p else first_prefix ps s)"

text \<open>\<^verbatim>\<open>re.findall\<close>: at each position the first alternative that matches, else one step on.\<close>

function config_tokens :: "string \<Rightarrow> string list" where
  "config_tokens [] = []"
| "config_tokens (c # cs) =
     (if config_ident_start c then
        takeWhile config_ident_char (c # cs) # config_tokens (dropWhile config_ident_char cs)
      else (case first_prefix operators (c # cs) of
              Some p \<Rightarrow> p # config_tokens (drop (length p - 1) cs)
            | None \<Rightarrow> if is_space c then config_tokens cs else [c] # config_tokens cs))"
  by pat_completeness auto
termination
  by (relation "measure length") (auto simp: less_Suc_eq_le length_dropWhile_le)

definition validate_condition_symbols :: "string \<Rightarrow> bool" where
  "validate_condition_symbols expression =
     list_all (\<lambda>t. t \<in> set VALID_CONDITION_SYMBOLS \<or> t \<in> {''&&'', ''||'', ''!'', ''('', '')''}) (config_tokens expression)"

subsection \<open>The grammar\<close>

text \<open>The language of guards with its value, as the usual grammar.\<close>

inductive g_or :: "valuation \<Rightarrow> string list \<Rightarrow> bool \<Rightarrow> bool"
  and g_or_rest :: "valuation \<Rightarrow> bool \<Rightarrow> string list \<Rightarrow> bool \<Rightarrow> bool"
  and g_and :: "valuation \<Rightarrow> string list \<Rightarrow> bool \<Rightarrow> bool"
  and g_and_rest :: "valuation \<Rightarrow> bool \<Rightarrow> string list \<Rightarrow> bool \<Rightarrow> bool"
  and g_not :: "valuation \<Rightarrow> string list \<Rightarrow> bool \<Rightarrow> bool"
  and g_primary :: "valuation \<Rightarrow> string list \<Rightarrow> bool \<Rightarrow> bool" for v where
  or_first: "g_and v ts b \<Longrightarrow> g_or_rest v b us c \<Longrightarrow> g_or v (ts @ us) c"
| or_end: "g_or_rest v b [] b"
| or_more: "g_and v ts c \<Longrightarrow> g_or_rest v (b \<or> c) us d \<Longrightarrow> g_or_rest v b (''||'' # ts @ us) d"
| and_first: "g_not v ts b \<Longrightarrow> g_and_rest v b us c \<Longrightarrow> g_and v (ts @ us) c"
| and_end: "g_and_rest v b [] b"
| and_more: "g_not v ts c \<Longrightarrow> g_and_rest v (b \<and> c) us d \<Longrightarrow> g_and_rest v b (''&&'' # ts @ us) d"
| not_not: "g_not v ts b \<Longrightarrow> g_not v (''!'' # ts) (\<not> b)"
| not_primary: "g_primary v ts b \<Longrightarrow> g_not v ts b"
| primary_group: "g_or v ts b \<Longrightarrow> g_primary v (''('' # ts @ ['')'']) b"
| primary_symbol: "evaluate_condition_token v s = Inr b \<Longrightarrow> g_primary v [s] b"

lemma token_values:
  "evaluate_condition_token v s = Inr b \<Longrightarrow> s \<in> set VALID_CONDITION_SYMBOLS \<and> s \<noteq> ''('' \<and> s \<noteq> ''!''"
  "s \<in> set VALID_CONDITION_SYMBOLS \<Longrightarrow> \<exists>b. evaluate_condition_token v s = Inr b"
  by (auto simp: evaluate_condition_token_def VALID_CONDITION_SYMBOLS_def split: if_splits)

lemma pbind_Inr: "pbind m k = Some (Inr (b, ts)) \<longleftrightarrow> (\<exists>c us. m = Some (Inr (c, us)) \<and> k c us = Some (Inr (b, ts)))"
  by (auto simp: pbind_def split: option.splits sum.splits)

lemma take1_eq: "take 1 ts = [t] \<longleftrightarrow> (\<exists>us. ts = t # us)"
  by (cases ts) auto

subsection \<open>The evaluator is sound\<close>

lemma parse_sound:
  "(parse n v Parse_Or ts = Some (Inr (b, rest)) \<longrightarrow> (\<exists>us. ts = us @ rest \<and> g_or v us b)) \<and>
   (parse n v (Or_Loop a) ts = Some (Inr (b, rest)) \<longrightarrow> (\<exists>us. ts = us @ rest \<and> g_or_rest v a us b)) \<and>
   (parse n v Parse_And ts = Some (Inr (b, rest)) \<longrightarrow> (\<exists>us. ts = us @ rest \<and> g_and v us b)) \<and>
   (parse n v (And_Loop a) ts = Some (Inr (b, rest)) \<longrightarrow> (\<exists>us. ts = us @ rest \<and> g_and_rest v a us b)) \<and>
   (parse n v Parse_Not ts = Some (Inr (b, rest)) \<longrightarrow> (\<exists>us. ts = us @ rest \<and> g_not v us b)) \<and>
   (parse n v Parse_Primary ts = Some (Inr (b, rest)) \<longrightarrow> (\<exists>us. ts = us @ rest \<and> g_primary v us b))"
proof (induction n arbitrary: ts a b rest)
  case (Suc n)
  note ih = Suc [THEN conjunct1, rule_format] Suc [THEN conjunct2, THEN conjunct1, rule_format]
    Suc [THEN conjunct2, THEN conjunct2, THEN conjunct1, rule_format]
    Suc [THEN conjunct2, THEN conjunct2, THEN conjunct2, THEN conjunct1, rule_format]
    Suc [THEN conjunct2, THEN conjunct2, THEN conjunct2, THEN conjunct2, THEN conjunct1, rule_format]
    Suc [THEN conjunct2, THEN conjunct2, THEN conjunct2, THEN conjunct2, THEN conjunct2, rule_format]
  show ?case
  proof (intro conjI impI)
    assume "parse (Suc n) v Parse_Or ts = Some (Inr (b, rest))"
    then obtain c us where "parse n v Parse_And ts = Some (Inr (c, us))" "parse n v (Or_Loop c) us = Some (Inr (b, rest))"
      by (auto simp: pbind_Inr)
    from ih(3) [OF this(1)] ih(2) [OF this(2)] show "\<exists>us. ts = us @ rest \<and> g_or v us b"
      using or_first by (metis append.assoc)
  next
    assume l: "parse (Suc n) v (Or_Loop a) ts = Some (Inr (b, rest))"
    show "\<exists>us. ts = us @ rest \<and> g_or_rest v a us b"
    proof (cases "take 1 ts = [''||'']")
      case True
      then obtain ts' where t: "ts = ''||'' # ts'" by (auto simp only: take1_eq)
      with l obtain c us where "parse n v Parse_And ts' = Some (Inr (c, us))" "parse n v (Or_Loop (a \<or> c)) us = Some (Inr (b, rest))"
        by (auto simp: pbind_Inr)
      from ih(3) [OF this(1)] ih(2) [OF this(2)] obtain xs ys
        where "ts' = xs @ us" "g_and v xs c" "us = ys @ rest" "g_or_rest v (a \<or> c) ys b" by blast
      with t have "ts = (''||'' # xs @ ys) @ rest" "g_or_rest v a (''||'' # xs @ ys) b" by (simp_all add: or_more)
      then show ?thesis by blast
    next
      case False
      with l show ?thesis by (auto intro: or_end)
    qed
  next
    assume "parse (Suc n) v Parse_And ts = Some (Inr (b, rest))"
    then obtain c us where "parse n v Parse_Not ts = Some (Inr (c, us))" "parse n v (And_Loop c) us = Some (Inr (b, rest))"
      by (auto simp: pbind_Inr)
    from ih(5) [OF this(1)] ih(4) [OF this(2)] show "\<exists>us. ts = us @ rest \<and> g_and v us b"
      using and_first by (metis append.assoc)
  next
    assume l: "parse (Suc n) v (And_Loop a) ts = Some (Inr (b, rest))"
    show "\<exists>us. ts = us @ rest \<and> g_and_rest v a us b"
    proof (cases "take 1 ts = [''&&'']")
      case True
      then obtain ts' where t: "ts = ''&&'' # ts'" by (auto simp only: take1_eq)
      with l obtain c us where "parse n v Parse_Not ts' = Some (Inr (c, us))" "parse n v (And_Loop (a \<and> c)) us = Some (Inr (b, rest))"
        by (auto simp: pbind_Inr)
      from ih(5) [OF this(1)] ih(4) [OF this(2)] obtain xs ys
        where "ts' = xs @ us" "g_not v xs c" "us = ys @ rest" "g_and_rest v (a \<and> c) ys b" by blast
      with t have "ts = (''&&'' # xs @ ys) @ rest" "g_and_rest v a (''&&'' # xs @ ys) b" by (simp_all add: and_more)
      then show ?thesis by blast
    next
      case False
      with l show ?thesis by (auto intro: and_end)
    qed
  next
    assume p: "parse (Suc n) v Parse_Not ts = Some (Inr (b, rest))"
    show "\<exists>us. ts = us @ rest \<and> g_not v us b"
    proof (cases "take 1 ts = [''!'']")
      case True
      then obtain ts' where t: "ts = ''!'' # ts'" by (auto simp only: take1_eq)
      with p obtain c where "parse n v Parse_Not ts' = Some (Inr (c, rest))" "b = (\<not> c)" by (auto simp: pbind_Inr)
      with ih(5) obtain xs where "ts' = xs @ rest" "g_not v xs c" by blast
      with t \<open>b = (\<not> c)\<close> have "ts = (''!'' # xs) @ rest" "g_not v (''!'' # xs) b" by (simp_all add: not_not)
      then show ?thesis by blast
    next
      case False
      with p have "parse n v Parse_Primary ts = Some (Inr (b, rest))" by simp
      from ih(6) [OF this] show ?thesis using not_primary by blast
    qed
  next
    assume p: "parse (Suc n) v Parse_Primary ts = Some (Inr (b, rest))"
    then obtain tok ts' where t: "ts = tok # ts'" by (cases ts) auto
    show "\<exists>us. ts = us @ rest \<and> g_primary v us b"
    proof (cases "tok = ''(''")
      case True
      with p t obtain us where ob: "parse n v Parse_Or ts' = Some (Inr (b, us))" "take 1 us = ['')'']" "rest = tl us"
        by (auto simp: pbind_Inr split: if_splits)
      from ih(1) [OF ob(1)] obtain xs where "ts' = xs @ us" "g_or v xs b" by blast
      moreover from ob obtain us' where "us = '')'' # us'" by (auto simp only: take1_eq)
      ultimately have "ts = (''('' # xs @ ['')'']) @ rest" "g_primary v (''('' # xs @ ['')'']) b"
        using t True ob(3) by (simp_all add: primary_group)
      then show ?thesis by blast
    next
      case False
      with p t have "evaluate_condition_token v tok = Inr b" "ts' = rest"
        by (auto split: if_splits sum.splits simp: map_sum_def)
      with t have "ts = [tok] @ rest" "g_primary v [tok] b" by (simp_all add: primary_symbol)
      then show ?thesis by blast
    qed
  qed
qed simp

end
