(* ===== verification/Condition_Properties.thy ===== *)
theory Condition_Properties
  imports Conditions
begin

text \<open>
  The evaluator of transition guards decides exactly its grammar: it always has an answer within its
  fuel, every answer is a derivation and every derivation is found. The loader's check guarantees that
  the tokenizer never fails at run time, and a transition is chosen by the first guard that holds.
\<close>

subsection \<open>Fuel\<close>

fun need :: "mode \<Rightarrow> string list \<Rightarrow> nat" where
  "need Parse_Or ts = 4 * length ts + 4"
| "need Parse_And ts = 4 * length ts + 3"
| "need Parse_Not ts = 4 * length ts + 2"
| "need m ts = 4 * length ts + 1"

fun is_loop :: "mode \<Rightarrow> bool" where
  "is_loop (Or_Loop b) = True"
| "is_loop (And_Loop b) = True"
| "is_loop _ = False"

definition answers :: "mode \<Rightarrow> string list \<Rightarrow> parse \<Rightarrow> bool" where
  "answers m ts res \<longleftrightarrow>
     (case res of
        None \<Rightarrow> False
      | Some (Inl e) \<Rightarrow> True
      | Some (Inr (b, rest)) \<Rightarrow> length rest \<le> length ts \<and> (is_loop m \<or> length rest < length ts))"

lemma answers_simps [simp]:
  "\<not> answers m ts None" "answers m ts (Some (Inl e))"
  "answers m ts (Some (Inr (b, rest))) \<longleftrightarrow> length rest \<le> length ts \<and> (is_loop m \<or> length rest < length ts)"
  by (simp_all add: answers_def)

lemma answers_pbind:
  assumes "answers m' us res"
    and "\<And>b rest. length rest \<le> length us \<Longrightarrow> is_loop m' \<or> length rest < length us \<Longrightarrow> answers m ts (k b rest)"
  shows "answers m ts (pbind res k)"
proof (cases res)
  case (Some a)
  with assms show ?thesis by (cases a) (auto simp: pbind_def)
qed (use assms in simp)

lemma answers_weaken: "answers m' us res \<Longrightarrow> length us \<le> length ts \<Longrightarrow> is_loop m' \<longrightarrow> is_loop m \<or> length us < length ts \<Longrightarrow>
    answers m ts res"
  by (auto simp: answers_def split: option.splits sum.splits)

lemma parse_answers: "need m ts \<le> n \<Longrightarrow> answers m ts (parse n v m ts)"
proof (induction n arbitrary: m ts)
  case 0
  then show ?case by (cases m) simp_all
next
  case (Suc n)
  show ?case
  proof (cases m)
    case Parse_Or
    have "answers Parse_And ts (parse n v Parse_And ts)" using Suc Parse_Or by simp
    then show ?thesis unfolding Parse_Or parse.simps mode.case
    proof (rule answers_pbind)
      fix b :: bool and rest :: "string list"
      assume l: "length rest \<le> length ts" "is_loop Parse_And \<or> length rest < length ts"
      then have "answers (Or_Loop b) rest (parse n v (Or_Loop b) rest)" using Suc Parse_Or by simp
      with l show "answers Parse_Or ts (parse n v (Or_Loop b) rest)" by (auto elim: answers_weaken)
    qed
  next
    case (Or_Loop b)
    show ?thesis
    proof (cases "take 1 ts = [''||'']")
      case True
      then obtain us where t: "ts = ''||'' # us" by (auto simp only: take1_eq)
      have "answers Parse_And us (parse n v Parse_And us)" using Suc Or_Loop t by simp
      then have "answers m ts (pbind (parse n v Parse_And us) (\<lambda>c ts. parse n v (Or_Loop (b \<or> c)) ts))"
      proof (rule answers_pbind)
        fix c :: bool and rest :: "string list"
        assume l: "length rest \<le> length us" "is_loop Parse_And \<or> length rest < length us"
        then have "answers (Or_Loop (b \<or> c)) rest (parse n v (Or_Loop (b \<or> c)) rest)" using Suc Or_Loop t by simp
        with l show "answers m ts (parse n v (Or_Loop (b \<or> c)) rest)" by (auto elim: answers_weaken simp: t Or_Loop)
      qed
      then show ?thesis using Or_Loop t by simp
    next
      case False
      then show ?thesis by (simp add: Or_Loop)
    qed
  next
    case Parse_And
    have "answers Parse_Not ts (parse n v Parse_Not ts)" using Suc Parse_And by simp
    then show ?thesis unfolding Parse_And parse.simps mode.case
    proof (rule answers_pbind)
      fix b :: bool and rest :: "string list"
      assume l: "length rest \<le> length ts" "is_loop Parse_Not \<or> length rest < length ts"
      then have "answers (And_Loop b) rest (parse n v (And_Loop b) rest)" using Suc Parse_And by simp
      with l show "answers Parse_And ts (parse n v (And_Loop b) rest)" by (auto elim: answers_weaken)
    qed
  next
    case (And_Loop b)
    show ?thesis
    proof (cases "take 1 ts = [''&&'']")
      case True
      then obtain us where t: "ts = ''&&'' # us" by (auto simp only: take1_eq)
      have "answers Parse_Not us (parse n v Parse_Not us)" using Suc And_Loop t by simp
      then have "answers m ts (pbind (parse n v Parse_Not us) (\<lambda>c ts. parse n v (And_Loop (b \<and> c)) ts))"
      proof (rule answers_pbind)
        fix c :: bool and rest :: "string list"
        assume l: "length rest \<le> length us" "is_loop Parse_Not \<or> length rest < length us"
        then have "answers (And_Loop (b \<and> c)) rest (parse n v (And_Loop (b \<and> c)) rest)" using Suc And_Loop t by simp
        with l show "answers m ts (parse n v (And_Loop (b \<and> c)) rest)" by (auto elim: answers_weaken simp: t And_Loop)
      qed
      then show ?thesis using And_Loop t by simp
    next
      case False
      then show ?thesis by (simp add: And_Loop)
    qed
  next
    case Parse_Not
    show ?thesis
    proof (cases "take 1 ts = [''!'']")
      case True
      then obtain us where t: "ts = ''!'' # us" by (auto simp only: take1_eq)
      have "answers Parse_Not us (parse n v Parse_Not us)" using Suc Parse_Not t by simp
      then have "answers m ts (pbind (parse n v Parse_Not us) (\<lambda>b ts. Some (Inr (\<not> b, ts))))"
        by (rule answers_pbind) (auto simp: t)
      then show ?thesis using Parse_Not t by simp
    next
      case False
      have "answers Parse_Primary ts (parse n v Parse_Primary ts)" using Suc Parse_Not by simp
      with False show ?thesis by (auto simp: Parse_Not elim: answers_weaken)
    qed
  next
    case Parse_Primary
    show ?thesis
    proof (cases ts)
      case Nil
      then show ?thesis by (simp add: Parse_Primary)
    next
      case (Cons tok us)
      show ?thesis
      proof (cases "tok = ''(''")
        case True
        have "answers Parse_Or us (parse n v Parse_Or us)" using Suc Parse_Primary Cons by simp
        then have "answers m ts (pbind (parse n v Parse_Or us) (\<lambda>b ts.
            if take 1 ts \<noteq> ['')''] then Some (Inl ''missing closing parenthesis in condition expression'')
            else Some (Inr (b, tl ts))))"
          by (rule answers_pbind) (auto simp: Cons)
        then show ?thesis using Parse_Primary Cons True by simp
      next
        case False
        then show ?thesis
          by (cases "evaluate_condition_token v tok") (auto simp: Parse_Primary Cons)
      qed
    qed
  qed
qed

lemma pbind_mono: "pbind m k = Some r \<Longrightarrow> (\<And>x. m = Some x \<Longrightarrow> m' = Some x) \<Longrightarrow>
    (\<And>b ts x. k b ts = Some x \<Longrightarrow> k' b ts = Some x) \<Longrightarrow> pbind m' k' = Some r"
  by (auto simp: pbind_def split: option.splits sum.splits)

lemma parse_mono1: "parse n v m ts = Some r \<Longrightarrow> parse (Suc n) v m ts = Some r"
proof (induction n arbitrary: m ts r)
  case (Suc n)
  note ih = Suc.IH
  show ?case
  proof (cases m)
    case Parse_Or
    with Suc.prems have "pbind (parse n v Parse_And ts) (\<lambda>b ts. parse n v (Or_Loop b) ts) = Some r" by simp
    then have "pbind (parse (Suc n) v Parse_And ts) (\<lambda>b ts. parse (Suc n) v (Or_Loop b) ts) = Some r"
      by (rule pbind_mono) (use ih in blast)+
    then show ?thesis by (simp only: Parse_Or parse.simps(2) [of "Suc n"] mode.case)
  next
    case (Or_Loop b)
    show ?thesis
    proof (cases "take 1 ts = [''||'']")
      case True
      with Suc.prems Or_Loop have "pbind (parse n v Parse_And (tl ts)) (\<lambda>c ts. parse n v (Or_Loop (b \<or> c)) ts) = Some r" by simp
      then have "pbind (parse (Suc n) v Parse_And (tl ts)) (\<lambda>c ts. parse (Suc n) v (Or_Loop (b \<or> c)) ts) = Some r"
        by (rule pbind_mono) (use ih in blast)+
      with True show ?thesis by (simp only: Or_Loop parse.simps(2) [of "Suc n"] mode.case if_True simp_thms)
    next
      case False
      with Suc.prems show ?thesis by (simp add: Or_Loop)
    qed
  next
    case Parse_And
    with Suc.prems have "pbind (parse n v Parse_Not ts) (\<lambda>b ts. parse n v (And_Loop b) ts) = Some r" by simp
    then have "pbind (parse (Suc n) v Parse_Not ts) (\<lambda>b ts. parse (Suc n) v (And_Loop b) ts) = Some r"
      by (rule pbind_mono) (use ih in blast)+
    then show ?thesis by (simp only: Parse_And parse.simps(2) [of "Suc n"] mode.case)
  next
    case (And_Loop b)
    show ?thesis
    proof (cases "take 1 ts = [''&&'']")
      case True
      with Suc.prems And_Loop have "pbind (parse n v Parse_Not (tl ts)) (\<lambda>c ts. parse n v (And_Loop (b \<and> c)) ts) = Some r" by simp
      then have "pbind (parse (Suc n) v Parse_Not (tl ts)) (\<lambda>c ts. parse (Suc n) v (And_Loop (b \<and> c)) ts) = Some r"
        by (rule pbind_mono) (use ih in blast)+
      with True show ?thesis by (simp only: And_Loop parse.simps(2) [of "Suc n"] mode.case if_True simp_thms)
    next
      case False
      with Suc.prems show ?thesis by (simp add: And_Loop)
    qed
  next
    case Parse_Not
    show ?thesis
    proof (cases "take 1 ts = [''!'']")
      case True
      with Suc.prems Parse_Not have "pbind (parse n v Parse_Not (tl ts)) (\<lambda>b ts. Some (Inr (\<not> b, ts))) = Some r" by simp
      then have "pbind (parse (Suc n) v Parse_Not (tl ts)) (\<lambda>b ts. Some (Inr (\<not> b, ts))) = Some r"
        by (rule pbind_mono) (use ih in blast)+
      with True show ?thesis by (simp only: Parse_Not parse.simps(2) [of "Suc n"] mode.case if_True simp_thms)
    next
      case False
      with Suc.prems Parse_Not have "parse n v Parse_Primary ts = Some r" by simp
      from ih [OF this] False show ?thesis by (simp only: Parse_Not parse.simps(2) [of "Suc n"] mode.case if_False simp_thms)
    qed
  next
    case Parse_Primary
    show ?thesis
    proof (cases ts)
      case Nil
      with Suc.prems show ?thesis by (simp add: Parse_Primary)
    next
      case (Cons tok us)
      show ?thesis
      proof (cases "tok = ''(''")
        case True
        let ?k = "\<lambda>b ts. if take 1 ts \<noteq> ['')''] then Some (Inl ''missing closing parenthesis in condition expression'')
            else Some (Inr (b, tl ts))"
        from True Suc.prems Parse_Primary Cons have "pbind (parse n v Parse_Or us) ?k = Some r" by simp
        then have "pbind (parse (Suc n) v Parse_Or us) ?k = Some r"
          by (rule pbind_mono) (use ih in blast)+
        with True show ?thesis by (simp only: Parse_Primary Cons parse.simps(2) [of "Suc n"] mode.case list.case if_True simp_thms)
      next
        case False
        with Suc.prems show ?thesis by (simp add: Parse_Primary Cons)
      qed
    qed
  qed
qed simp

lemma parse_mono: "parse n v m ts = Some r \<Longrightarrow> n \<le> k \<Longrightarrow> parse k v m ts = Some r"
proof (induction "k - n" arbitrary: k)
  case (Suc d)
  then have "parse (k - 1) v m ts = Some r" by (cases k) auto
  from parse_mono1 [OF this] Suc show ?case by (cases k) auto
qed simp

subsection \<open>Completeness\<close>

text \<open>What follows an expression must not continue it.\<close>

definition ends :: "string list \<Rightarrow> string list \<Rightarrow> bool" where
  "ends stops rest \<longleftrightarrow> (\<forall>s \<in> set stops. take 1 rest \<noteq> [s])"

definition reads :: "valuation \<Rightarrow> mode \<Rightarrow> string list \<Rightarrow> string list \<Rightarrow> bool \<Rightarrow> bool" where
  "reads v m stops us b \<longleftrightarrow>
     (\<exists>n. \<forall>rest. ends stops rest \<longrightarrow> parse n v m (us @ rest) = Some (Inr (b, rest)))"

lemma readsD:
  "reads v m stops us b \<Longrightarrow>
     \<exists>n. \<forall>k \<ge> n. \<forall>rest. ends stops rest \<longrightarrow> parse k v m (us @ rest) = Some (Inr (b, rest))"
  unfolding reads_def using parse_mono by blast

lemma g_rest_start:
  "g_or_rest v a us b \<Longrightarrow> ends [''||'', ''&&''] rest \<Longrightarrow> ends [''&&''] (us @ rest)"
  by (cases rule: g_or_rest.cases) (auto simp: ends_def)

lemma reads_by_steps:
  assumes "\<And>rest. ends stops rest \<Longrightarrow> parse n v m (us @ rest) = Some (Inr (b, rest))"
  shows "reads v m stops us b"
  using assms unfolding reads_def by blast

lemma grammar_reads:
  "g_or v us b \<Longrightarrow> reads v Parse_Or [''||'', ''&&''] us b"
  "g_or_rest v a us b \<Longrightarrow> reads v (Or_Loop a) [''||'', ''&&''] us b"
  "g_and v us b \<Longrightarrow> reads v Parse_And [''&&''] us b"
  "g_and_rest v a us b \<Longrightarrow> reads v (And_Loop a) [''&&''] us b"
  "g_not v us b \<Longrightarrow> reads v Parse_Not [] us b"
  "g_primary v us b \<Longrightarrow> reads v Parse_Primary [] us b"
proof (induction rule: g_or_g_or_rest_g_and_g_and_rest_g_not_g_primary.inducts)
  case (or_first ts b us c)
  from readsD [OF or_first.IH(2)] obtain n1 where "\<forall>k \<ge> n1. \<forall>rest. ends [''&&''] rest \<longrightarrow>
      parse k v Parse_And (ts @ rest) = Some (Inr (b, rest))" by blast
  note 1 = this [rule_format]
  from readsD [OF or_first.IH(4)] obtain n2 where "\<forall>k \<ge> n2. \<forall>rest. ends [''||'', ''&&''] rest \<longrightarrow>
      parse k v (Or_Loop b) (us @ rest) = Some (Inr (c, rest))" by blast
  note 2 = this [rule_format]
  show ?case
  proof (rule reads_by_steps)
    fix rest assume e: "ends [''||'', ''&&''] rest"
    show "parse (Suc (max n1 n2)) v Parse_Or ((ts @ us) @ rest) = Some (Inr (c, rest))"
      using 1 [OF _ g_rest_start [OF or_first.IH(3) e], of "max n1 n2"] 2 [OF _ e, of "max n1 n2"]
      by (simp add: pbind_def)
  qed
next
  case (or_end b)
  show ?case by (rule reads_by_steps [where n = 1]) (simp add: ends_def)
next
  case (or_more ts c b us d)
  from readsD [OF or_more.IH(2)] obtain n1 where "\<forall>k \<ge> n1. \<forall>rest. ends [''&&''] rest \<longrightarrow>
      parse k v Parse_And (ts @ rest) = Some (Inr (c, rest))" by blast
  note 1 = this [rule_format]
  from readsD [OF or_more.IH(4)] obtain n2 where "\<forall>k \<ge> n2. \<forall>rest. ends [''||'', ''&&''] rest \<longrightarrow>
      parse k v (Or_Loop (b \<or> c)) (us @ rest) = Some (Inr (d, rest))" by blast
  note 2 = this [rule_format]
  show ?case
  proof (rule reads_by_steps)
    fix rest assume e: "ends [''||'', ''&&''] rest"
    show "parse (Suc (max n1 n2)) v (Or_Loop b) ((''||'' # ts @ us) @ rest) = Some (Inr (d, rest))"
      using 1 [OF _ g_rest_start [OF or_more.IH(3) e], of "max n1 n2"] 2 [OF _ e, of "max n1 n2"]
      by (simp add: pbind_def)
  qed
next
  case (and_first ts b us c)
  from readsD [OF and_first.IH(2)] obtain n1 where "\<forall>k \<ge> n1. \<forall>rest. ends [] rest \<longrightarrow>
      parse k v Parse_Not (ts @ rest) = Some (Inr (b, rest))" by blast
  note 1 = this [rule_format]
  from readsD [OF and_first.IH(4)] obtain n2 where "\<forall>k \<ge> n2. \<forall>rest. ends [''&&''] rest \<longrightarrow>
      parse k v (And_Loop b) (us @ rest) = Some (Inr (c, rest))" by blast
  note 2 = this [rule_format]
  show ?case
  proof (rule reads_by_steps)
    fix rest assume e: "ends [''&&''] rest"
    show "parse (Suc (max n1 n2)) v Parse_And ((ts @ us) @ rest) = Some (Inr (c, rest))"
      using 1 [of "max n1 n2" "us @ rest"] 2 [OF _ e, of "max n1 n2"] by (simp add: pbind_def ends_def)
  qed
next
  case (and_end b)
  show ?case by (rule reads_by_steps [where n = 1]) (simp add: ends_def)
next
  case (and_more ts c b us d)
  from readsD [OF and_more.IH(2)] obtain n1 where "\<forall>k \<ge> n1. \<forall>rest. ends [] rest \<longrightarrow>
      parse k v Parse_Not (ts @ rest) = Some (Inr (c, rest))" by blast
  note 1 = this [rule_format]
  from readsD [OF and_more.IH(4)] obtain n2 where "\<forall>k \<ge> n2. \<forall>rest. ends [''&&''] rest \<longrightarrow>
      parse k v (And_Loop (b \<and> c)) (us @ rest) = Some (Inr (d, rest))" by blast
  note 2 = this [rule_format]
  show ?case
  proof (rule reads_by_steps)
    fix rest assume e: "ends [''&&''] rest"
    show "parse (Suc (max n1 n2)) v (And_Loop b) ((''&&'' # ts @ us) @ rest) = Some (Inr (d, rest))"
      using 1 [of "max n1 n2" "us @ rest"] 2 [OF _ e, of "max n1 n2"] by (simp add: pbind_def ends_def)
  qed
next
  case (not_not ts b)
  from readsD [OF not_not.IH(2)] obtain n where "\<forall>k \<ge> n. \<forall>rest. ends [] rest \<longrightarrow>
      parse k v Parse_Not (ts @ rest) = Some (Inr (b, rest))" by blast
  note 1 = this [rule_format]
  show ?case
  proof (rule reads_by_steps)
    fix rest
    show "parse (Suc n) v Parse_Not ((''!'' # ts) @ rest) = Some (Inr (\<not> b, rest))"
      using 1 [of n rest] by (simp add: pbind_def ends_def)
  qed
next
  case (not_primary ts b)
  from readsD [OF not_primary.IH(2)] obtain n where "\<forall>k \<ge> n. \<forall>rest. ends [] rest \<longrightarrow>
      parse k v Parse_Primary (ts @ rest) = Some (Inr (b, rest))" by blast
  note 1 = this [rule_format]
  have nb: "take 1 (ts @ rest) \<noteq> [''!'']" for rest
    using not_primary.IH(1) token_values(1) by (cases rule: g_primary.cases) auto
  show ?case
  proof (rule reads_by_steps)
    fix rest
    show "parse (Suc n) v Parse_Not (ts @ rest) = Some (Inr (b, rest))"
      using 1 [of n rest] nb [of rest] by (simp add: ends_def)
  qed
next
  case (primary_group ts b)
  from readsD [OF primary_group.IH(2)] obtain n where "\<forall>k \<ge> n. \<forall>rest. ends [''||'', ''&&''] rest \<longrightarrow>
      parse k v Parse_Or (ts @ rest) = Some (Inr (b, rest))" by blast
  note 1 = this [rule_format]
  show ?case
  proof (rule reads_by_steps)
    fix rest
    show "parse (Suc n) v Parse_Primary ((''('' # ts @ ['')'']) @ rest) = Some (Inr (b, rest))"
      using 1 [of n "'')'' # rest"] by (simp add: pbind_def ends_def)
  qed
next
  case (primary_symbol s b)
  from token_values(1) [OF primary_symbol.IH] primary_symbol.IH
  show ?case by (intro reads_by_steps [where n = 1]) simp
qed

lemma parse_tokens:
  "parse (fuel_for ts) v Parse_Or ts = Some (Inr (b, [])) \<longleftrightarrow> g_or v ts b"
proof
  assume "parse (fuel_for ts) v Parse_Or ts = Some (Inr (b, []))"
  with parse_sound [of "fuel_for ts" v ts b "[]"] show "g_or v ts b" by auto
next
  assume "g_or v ts b"
  from readsD [OF grammar_reads(1) [OF this]] obtain n
    where "\<forall>rest. ends [''||'', ''&&''] rest \<longrightarrow> parse n v Parse_Or (ts @ rest) = Some (Inr (b, rest))" by blast
  from this [rule_format, of "[]"] have n: "parse n v Parse_Or ts = Some (Inr (b, []))" by (simp add: ends_def)
  have "need Parse_Or ts \<le> fuel_for ts" by (simp add: fuel_for_def)
  from parse_answers [OF this, of v] obtain r where r: "parse (fuel_for ts) v Parse_Or ts = Some r"
    by (cases "parse (fuel_for ts) v Parse_Or ts") auto
  from parse_mono [OF n, of "max n (fuel_for ts)"] parse_mono [OF r, of "max n (fuel_for ts)"] r
  show "parse (fuel_for ts) v Parse_Or ts = Some (Inr (b, []))" by simp
qed

subsection \<open>The loader's tokens\<close>

lemma first_prefix_operator:
  "first_prefix operators (c # cs) = Some p \<Longrightarrow> hd p = c \<and> p \<noteq> [] \<and> c \<in> set ''&|!<>=''"
  by (auto simp: operators_def starts_with_def split: if_splits)

lemma first_prefix_append: "first_prefix ps s = Some p \<Longrightarrow> \<exists>t. s = p @ t"
  by (induction ps) (auto simp: starts_with_def strip_prefix_Some split: if_splits)

lemma ident_char_code:
  "ident_char c \<Longrightarrow> \<not> is_space c \<and> c \<notin> set ''&|!<>=()''"
  by (auto simp: ident_char_def char_class_defs Let_def)

lemma ident_start_code: "ident_start c \<Longrightarrow> c \<notin> set ''&|!<>=()'' \<and> \<not> is_space c"
  using ident_char_code ident_start_char by blast

lemma config_ident_subset:
  "config_ident_start c \<Longrightarrow> ident_start c" "config_ident_char c \<Longrightarrow> ident_char c"
  "config_ident_start c \<Longrightarrow> config_ident_char c"
  by (auto simp: config_ident_start_def config_ident_char_def ascii_letter_def ident_start_def ident_char_def
      is_alpha_def is_alnum_def is_digit_def Let_def)

lemma space_not_ident: "is_space c \<Longrightarrow> \<not> config_ident_start c \<and> c \<notin> set ''&|!<>=()''"
  using ident_start_code config_ident_subset(1) ident_char_code by (auto simp: char_class_defs)

definition allowed_token :: "string \<Rightarrow> bool" where
  "allowed_token t \<longleftrightarrow> t \<in> set VALID_CONDITION_SYMBOLS \<or> t \<in> {''&&'', ''||'', ''!'', ''('', '')''}"

lemma allowed_single: "allowed_token [c] \<Longrightarrow> c \<in> set ''!()''"
  by (auto simp: allowed_token_def VALID_CONDITION_SYMBOLS_def)

lemma allowed_operator: "first_prefix operators s = Some p \<Longrightarrow> allowed_token p \<Longrightarrow> p = ''&&'' \<or> p = ''||''"
  by (auto simp: operators_def allowed_token_def VALID_CONDITION_SYMBOLS_def split: if_splits)

lemma takeWhile_same:
  assumes "takeWhile p xs = takeWhile q xs"
  shows "dropWhile p xs = dropWhile q xs"
  by (metis assms takeWhile_dropWhile_id same_append_eq)

text \<open>After an accepted identifier the next character ends it for the runtime tokenizer too.\<close>

lemma accepted_word:
  assumes "list_all allowed_token (config_tokens (dropWhile config_ident_char cs))"
  shows "takeWhile config_ident_char cs = takeWhile ident_char cs"
  using assms
proof (induction cs)
  case (Cons d ds)
  show ?case
  proof (cases "config_ident_char d")
    case True
    with Cons show ?thesis by (simp add: config_ident_subset(2))
  next
    case False
    have "\<not> ident_char d"
    proof
      assume i: "ident_char d"
      have ns: "\<not> config_ident_start d" using False config_ident_subset(3) by blast
      have "first_prefix operators (d # ds) = None"
        using first_prefix_operator ident_char_code [OF i] by (cases "first_prefix operators (d # ds)") auto
      with Cons.prems False ns ident_char_code [OF i] have "allowed_token [d]" by simp
      with allowed_single ident_char_code [OF i] show False by auto
    qed
    with False show ?thesis by simp
  qed
qed simp

lemma accepted_tokens:
  "list_all allowed_token (config_tokens e) \<Longrightarrow> tokenize_condition e = Inr (config_tokens e)"
proof (induction e rule: length_induct)
  case (1 e)
  show ?case
  proof (cases e)
    case (Cons c cs)
    show ?thesis
    proof (cases "config_ident_start c")
      case True
      let ?rest = "dropWhile config_ident_char cs"
      have a: "list_all allowed_token (config_tokens ?rest)" using "1.prems" Cons True by simp
      have w: "takeWhile config_ident_char (c # cs) = takeWhile ident_char (c # cs)"
        using accepted_word [OF a] True config_ident_subset by simp
      have dw: "?rest = dropWhile ident_char cs" by (rule takeWhile_same [OF accepted_word [OF a]])
      have "length ?rest < length e" using length_dropWhile_le [of config_ident_char cs] by (simp add: Cons)
      then have "tokenize_condition ?rest = Inr (config_tokens ?rest)" using "1.IH" a by blast
      moreover note ident_start_code [OF config_ident_subset(1) [OF True]] config_ident_subset(1) [OF True]
      ultimately show ?thesis using True w dw by (simp add: Cons del: takeWhile.simps)
    next
      case False
      show ?thesis
      proof (cases "first_prefix operators (c # cs)")
        case (Some p)
        with "1.prems" Cons False have ap: "allowed_token p" "list_all allowed_token (config_tokens (drop (length p - 1) cs))"
          by simp_all
        have "\<not> is_space c" using first_prefix_operator [OF Some] space_not_ident by auto
        from allowed_operator [OF Some ap(1)] show ?thesis
        proof
          assume p: "p = ''&&''"
          with Some obtain ds where ds: "cs = CHR ''&'' # ds" "c = CHR ''&''"
            using first_prefix_append [OF Some] by auto
          have "list_all allowed_token (config_tokens ds)" "length ds < length e" using ap(2) p ds Cons by simp_all
          with "1.IH" have i: "tokenize_condition ds = Inr (config_tokens ds)" by blast
          have "config_tokens e = p # config_tokens (drop (length p - 1) cs)"
            unfolding Cons config_tokens.simps using False Some by simp
          then have k: "config_tokens e = ''&&'' # config_tokens ds" by (simp add: p ds)
          have "tokenize_condition e = Inr (''&&'' # config_tokens ds)"
            unfolding Cons ds tokenize_condition.simps using i by (simp add: is_space_def code_def)
          with k show ?thesis by simp
        next
          assume p: "p = ''||''"
          with Some obtain ds where ds: "cs = CHR ''|'' # ds" "c = CHR ''|''"
            using first_prefix_append [OF Some] by auto
          have "list_all allowed_token (config_tokens ds)" "length ds < length e" using ap(2) p ds Cons by simp_all
          with "1.IH" have i: "tokenize_condition ds = Inr (config_tokens ds)" by blast
          have "config_tokens e = p # config_tokens (drop (length p - 1) cs)"
            unfolding Cons config_tokens.simps using False Some by simp
          then have k: "config_tokens e = ''||'' # config_tokens ds" by (simp add: p ds)
          have "tokenize_condition e = Inr (''||'' # config_tokens ds)"
            unfolding Cons ds tokenize_condition.simps using i by (simp add: is_space_def code_def)
          with k show ?thesis by simp
        qed
      next
        case None
        show ?thesis
        proof (cases "is_space c")
          case True
          with "1.prems" "1.IH" False None Cons show ?thesis by simp
        next
          case ns: False
          with "1.prems" False None Cons have a: "allowed_token [c]" "list_all allowed_token (config_tokens cs)" by simp_all
          from "1.IH" a(2) Cons have "tokenize_condition cs = Inr (config_tokens cs)" by simp
          with allowed_single [OF a(1)] False None Cons ns show ?thesis by auto
        qed
      qed
    qed
  qed simp
qed

subsection \<open>Properties\<close>

text \<open>
  C24. The guard evaluator decides its grammar: it answers with a value exactly when the text tokenizes
  to a sentence of the guard grammar, and the value is the sentence's; the fuel supplied never runs out, on
  any token list.
\<close>

theorem guards_follow_the_grammar:
  "(evaluate_condition v e = Inr b) = (\<exists>ts. tokenize_condition e = Inr ts \<and> g_or v ts b) \<and>
   parse (fuel_for us) v Parse_Or us \<noteq> None"
proof -
  have p: "\<exists>r. parse (fuel_for ts) v Parse_Or ts = Some r" for ts
    using parse_answers [of Parse_Or ts "fuel_for ts" v]
    by (cases "parse (fuel_for ts) v Parse_Or ts") (auto simp: fuel_for_def)
  have r: "rbind r (\<lambda>(b, rest). case rest of [] \<Rightarrow> Inr b | tok # _ \<Rightarrow> Inl (unexpected tok)) = Inr b
      \<longleftrightarrow> r = Inr (b, [])" for r :: "string + bool \<times> string list"
    by (cases r) (auto split: list.splits)
  show ?thesis
  proof
    show "(evaluate_condition v e = Inr b) = (\<exists>ts. tokenize_condition e = Inr ts \<and> g_or v ts b)"
    proof (cases "tokenize_condition e")
      case (Inr ts)
      obtain r where "parse (fuel_for ts) v Parse_Or ts = Some r" using p by blast
      with parse_tokens [of ts v b] r [of _] show ?thesis by (simp add: evaluate_condition_def Inr)
    qed (simp add: evaluate_condition_def)
  qed (use p in auto)
qed

text \<open>
  A guard that the configuration loader accepts is one the run-time tokenizer reads without error,
  into the very tokens the loader checked.
\<close>

theorem accepted_guards_tokenize:
  assumes "validate_condition_symbols e"
  shows "tokenize_condition e = Inr (config_tokens e) \<and>
    list_all (\<lambda>t. t \<in> set VALID_CONDITION_SYMBOLS \<or> t \<in> {''&&'', ''||'', ''!'', ''('', '')''}) (config_tokens e)"
  using accepted_tokens [of e] assms
  by (simp add: validate_condition_symbols_def allowed_token_def [abs_def])

theorem accepted_guards_tokenize_witness:
  "tokenize_condition ''DONE || !(NEW_PLAN_EXISTS&&MAX_TURNS_REACHED)'' =
     Inr [''DONE'', ''||'', ''!'', ''('', ''NEW_PLAN_EXISTS'', ''&&'', ''MAX_TURNS_REACHED'', '')'']"
proof -
  let ?e = "''DONE || !(NEW_PLAN_EXISTS&&MAX_TURNS_REACHED)''"
  have v: "validate_condition_symbols ?e" by code_simp
  have c: "config_tokens ?e = [''DONE'', ''||'', ''!'', ''('', ''NEW_PLAN_EXISTS'', ''&&'', ''MAX_TURNS_REACHED'', '')'']"
    by code_simp
  from accepted_guards_tokenize [OF v] show ?thesis by (simp only: c)
qed

lemma select_transition_append:
  "\<forall>u \<in> set us. \<exists>e. go_when u = Some e \<and> evaluate_condition v e = Inr False \<Longrightarrow>
     select_transition v path (us @ ts) = select_transition v path ts"
  by (induction us) auto

text \<open>
  A transition is chosen exactly when it is the first one without a guard or with a guard that
  holds: every earlier one has a guard that evaluates to false.
\<close>

theorem first_matching_transition_is_taken:
  "(select_transition v path ts = Inr t) =
     (\<exists>us ws. ts = us @ t # ws \<and>
        (go_when t = None \<or> (\<exists>e. go_when t = Some e \<and> evaluate_condition v e = Inr True)) \<and>
        \<not> (\<exists>u \<in> set us. \<not> (\<exists>e. go_when u = Some e \<and> evaluate_condition v e = Inr False)))"
  (is "_ = (\<exists>us ws. ?P us ws)")
proof
  assume "\<exists>us ws. ?P us ws"
  then obtain us ws where p: "?P us ws" by blast
  then have "select_transition v path ts = select_transition v path (t # ws)"
    using select_transition_append [of us v path "t # ws"] by auto
  with p show "select_transition v path ts = Inr t" by auto
next
  assume "select_transition v path ts = Inr t"
  then show "\<exists>us ws. ?P us ws"
  proof (induction ts)
    case (Cons u us)
    show ?case
    proof (cases "go_when u")
      case None
      with Cons.prems have "u # us = [] @ t # us \<and> go_when t = None" by simp
      then show ?thesis by (metis (no_types, lifting) empty_iff list.set(1))
    next
      case (Some e)
      with Cons.prems obtain b where b: "evaluate_condition v e = Inr b" by (auto simp: rbind_Inr_iff)
      show ?thesis
      proof (cases b)
        case True
        with Cons.prems Some b have "u # us = [] @ t # us \<and> go_when t = Some e \<and> evaluate_condition v e = Inr True" by simp
        then show ?thesis by (metis (no_types, lifting) empty_iff list.set(1))
      next
        case False
        with Cons Some b obtain xs ws where "us = xs @ t # ws"
          "go_when t = None \<or> (\<exists>e. go_when t = Some e \<and> evaluate_condition v e = Inr True)"
          "\<not> (\<exists>u \<in> set xs. \<not> (\<exists>e. go_when u = Some e \<and> evaluate_condition v e = Inr False))" by auto
        with False Some b show ?thesis by (intro exI [of _ "u # xs"] exI [of _ ws]) auto
      qed
    qed
  qed simp
qed

end
