(* ===== verification/Signals.thy ===== *)
theory Signals
  imports Plan_Lines Json
begin

text \<open>
  The signals an agent gives in its output: stop requests (\<^verbatim>\<open>aflow/stop_marker.py\<close>) and scope
  pressure (\<^verbatim>\<open>aflow/scope_pressure.py\<close>), both read from the lines outside Markdown fences, and
  the recorded metadata that says which streams count.
\<close>

subsection \<open>Recorded metadata\<close>

text \<open>An artifact file as the readers meet it.\<close>

datatype artifact = Unreadable | Undecodable | Not_Json | Decoded json

datatype signal_exn = Unicode_Decode_Error | Signal_Value_Error string

definition FINAL_TEXT :: string where "FINAL_TEXT = ''final_text''"
definition STRUCTURED_TRANSPORT :: string where "STRUCTURED_TRANSPORT = ''structured_transport''"

definition source_name :: "json \<Rightarrow> string option" where
  "source_name v =
     (if v = JStr FINAL_TEXT then Some FINAL_TEXT
      else if v = JStr STRUCTURED_TRANSPORT then Some STRUCTURED_TRANSPORT else None)"

text \<open>The loop over \<^verbatim>\<open>result.json\<close> and \<^verbatim>\<open>argv.json\<close>.\<close>

fun source_from_artifacts :: "artifact list \<Rightarrow> signal_exn + string" where
  "source_from_artifacts [] = Inr FINAL_TEXT"
| "source_from_artifacts (a # as) =
     (case a of
        Undecodable \<Rightarrow> Inl Unicode_Decode_Error
      | Decoded (JObj d) \<Rightarrow>
          (case source_name (dget d ''semantic_output_source'') of
             Some s \<Rightarrow> Inr s
           | None \<Rightarrow> source_from_artifacts as)
      | _ \<Rightarrow> source_from_artifacts as)"

definition resolve_semantic_output_source :: "json \<Rightarrow> (artifact \<times> artifact) option \<Rightarrow> signal_exn + string" where
  "resolve_semantic_output_source v dir =
     (case source_name v of
        Some s \<Rightarrow> Inr s
      | None \<Rightarrow>
          (case dir of
             None \<Rightarrow> Inr FINAL_TEXT
           | Some (result, argv) \<Rightarrow> source_from_artifacts [result, argv]))"

datatype contract = Agent_Output | Command_Output

definition contract_name :: "json \<Rightarrow> contract option" where
  "contract_name v =
     (if v = JStr ''agent'' then Some Agent_Output
      else if v = JStr ''command'' then Some Command_Output else None)"

definition resolve_output_contract :: "json \<Rightarrow> artifact option \<Rightarrow> signal_exn + contract" where
  "resolve_output_contract v argv =
     (case contract_name v of
        Some c \<Rightarrow> Inr c
      | None \<Rightarrow>
          (case argv of
             Some Undecodable \<Rightarrow> Inl Unicode_Decode_Error
           | Some (Decoded (JObj d)) \<Rightarrow>
               Inr (case contract_name (dget d ''output_contract'') of Some c \<Rightarrow> c | None \<Rightarrow> Command_Output)
           | _ \<Rightarrow> Inr Command_Output))"

subsection \<open>Lines outside fences\<close>

fun non_fenced_loop :: "fence \<Rightarrow> string list \<Rightarrow> string list \<Rightarrow> string list" where
  "non_fenced_loop f acc [] = acc"
| "non_fenced_loop f acc (line # ls) =
     (case fence_match line of
        Some m \<Rightarrow> non_fenced_loop (fence_toggle f m) acc ls
      | None \<Rightarrow> non_fenced_loop f (if f = Outside then acc @ [line] else acc) ls)"

definition iter_non_fenced_lines :: "string \<Rightarrow> string list" where
  "iter_non_fenced_lines text = non_fenced_loop Outside [] (splitlines text)"

interpretation non_fenced: fenced_loop "\<lambda>l. l" non_fenced_loop "\<lambda>acc l. Inr (acc @ [l])" "\<lambda>acc. acc"
  by unfold_locales simp_all

lemma run_lines_collect: "run_lines (\<lambda>acc l. Inr (acc @ [l])) (\<lambda>acc. acc) acc ls = acc @ ls"
  by (induction ls arbitrary: acc) simp_all

lemma iter_non_fenced_visible: "iter_non_fenced_lines text = visible (\<lambda>l. l) Outside (splitlines text)"
  by (simp add: iter_non_fenced_lines_def non_fenced.loop_visible run_lines_collect)

subsection \<open>Markers\<close>

text \<open>The loop both modules run, for their own prefix and fallback reason.\<close>

fun stop_loop :: "string list \<Rightarrow> string list \<Rightarrow> string list" where
  "stop_loop msgs [] = msgs"
| "stop_loop msgs (line # ls) =
     (case strip_prefix ''AFLOW_STOP:'' line of
        None \<Rightarrow> stop_loop msgs ls
      | Some rest \<Rightarrow>
          let reason = strip rest in
          if reason = ''<reason>'' then stop_loop msgs ls
          else stop_loop
            (msgs @ [if reason = [] then ''implementer requested stop without a reason'' else reason]) ls)"

definition extract_stop_markers :: "string \<Rightarrow> string list" where
  "extract_stop_markers text = stop_loop [] (iter_non_fenced_lines text)"

fun pressure_loop :: "string list \<Rightarrow> string list \<Rightarrow> string list" where
  "pressure_loop msgs [] = msgs"
| "pressure_loop msgs (line # ls) =
     (case strip_prefix ''AFLOW_SCOPE_PRESSURE:'' line of
        None \<Rightarrow> pressure_loop msgs ls
      | Some rest \<Rightarrow>
          let reason = strip rest in
          if reason = ''<reason>'' then pressure_loop msgs ls
          else pressure_loop
            (msgs @ [if reason = [] then ''scope pressure without a reason'' else reason]) ls)"

definition extract_scope_pressure_markers :: "string \<Rightarrow> string list" where
  "extract_scope_pressure_markers text = pressure_loop [] (iter_non_fenced_lines text)"

fun semantic_output_streams :: "string \<Rightarrow> string \<Rightarrow> contract \<Rightarrow> string list" where
  "semantic_output_streams out err Agent_Output = [out]"
| "semantic_output_streams out err Command_Output = [out, err]"

definition extract_trusted_stop_markers :: "string \<Rightarrow> string \<Rightarrow> contract \<Rightarrow> string list" where
  "extract_trusted_stop_markers out err c = concat (map extract_stop_markers (semantic_output_streams out err c))"

text \<open>The first message of the first stream that has one.\<close>

fun first_message :: "(string \<Rightarrow> string list) \<Rightarrow> string list \<Rightarrow> string option" where
  "first_message extract [] = None"
| "first_message extract (t # ts) =
     (case extract t of [] \<Rightarrow> first_message extract ts | m # _ \<Rightarrow> Some m)"

definition detect_stop_marker :: "string \<Rightarrow> string \<Rightarrow> contract \<Rightarrow> string option" where
  "detect_stop_marker out err c = first_message extract_stop_markers (semantic_output_streams out err c)"

record scope_pressure_result =
  detected :: bool
  pressure_reason :: "string option"

definition parse_scope_pressure :: "string \<Rightarrow> string \<Rightarrow> contract \<Rightarrow> scope_pressure_result" where
  "parse_scope_pressure out err c =
     (case first_message extract_scope_pressure_markers (semantic_output_streams out err c) of
        Some m \<Rightarrow> \<lparr>detected = True, pressure_reason = Some m\<rparr>
      | None \<Rightarrow> \<lparr>detected = False, pressure_reason = None\<rparr>)"

definition detect_scope_pressure :: "string \<Rightarrow> string \<Rightarrow> contract \<Rightarrow> string option" where
  "detect_scope_pressure out err c = pressure_reason (parse_scope_pressure out err c)"

definition has_scope_pressure :: "string \<Rightarrow> string \<Rightarrow> contract \<Rightarrow> bool" where
  "has_scope_pressure out err c = detected (parse_scope_pressure out err c)"

subsection \<open>What a marker line is\<close>

text \<open>The reason a line gives under a prefix, none for another line or for the placeholder.\<close>

definition marker_reason :: "string \<Rightarrow> string \<Rightarrow> string \<Rightarrow> string option" where
  "marker_reason prefix fallback line =
     (case strip_prefix prefix line of
        None \<Rightarrow> None
      | Some rest \<Rightarrow>
          if strip rest = ''<reason>'' then None else Some (if strip rest = [] then fallback else strip rest))"

abbreviation stop_reason :: "string \<Rightarrow> string option" where
  "stop_reason \<equiv> marker_reason ''AFLOW_STOP:'' ''implementer requested stop without a reason''"

abbreviation pressure_line :: "string \<Rightarrow> string option" where
  "pressure_line \<equiv> marker_reason ''AFLOW_SCOPE_PRESSURE:'' ''scope pressure without a reason''"

lemma stop_loop_filter: "stop_loop msgs ls = msgs @ List.map_filter stop_reason ls"
  by (induction ls arbitrary: msgs) (simp_all add: marker_reason_def Let_def List.map_filter_def split: option.split)

lemma pressure_loop_filter: "pressure_loop msgs ls = msgs @ List.map_filter pressure_line ls"
  by (induction ls arbitrary: msgs) (simp_all add: marker_reason_def Let_def List.map_filter_def split: option.split)

lemma first_message_concat: "first_message extract ts = (case concat (map extract ts) of [] \<Rightarrow> None | m # _ \<Rightarrow> Some m)"
proof (induction ts)
  case (Cons t ts)
  then show ?case by (cases "extract t") simp_all
qed simp

subsection \<open>Properties\<close>

text \<open>
  A stop request is exactly a live line with the marker and a reason other than the placeholder:
  the reasons extracted are those of the visible lines in order, the detected one is the first of the
  trusted streams, and an agent's error stream never matters.
\<close>

theorem stop_markers_are_live_lines:
  "extract_stop_markers text = List.map_filter stop_reason (visible (\<lambda>l. l) Outside (splitlines text)) \<and>
   detect_stop_marker out err c =
     (case extract_trusted_stop_markers out err c of [] \<Rightarrow> None | m # _ \<Rightarrow> Some m) \<and>
   extract_trusted_stop_markers out err Agent_Output = extract_stop_markers out \<and>
   extract_trusted_stop_markers out err Command_Output = extract_stop_markers out @ extract_stop_markers err"
  by (simp add: extract_stop_markers_def stop_loop_filter iter_non_fenced_visible detect_stop_marker_def
      first_message_concat extract_trusted_stop_markers_def)

text \<open>
  The three readers of scope pressure agree: pressure is present exactly when a reason is
  reported, which is the first reason of the visible marker lines of the trusted streams.
\<close>

theorem scope_pressure_readers_agree:
  "has_scope_pressure out err c = (detect_scope_pressure out err c \<noteq> None) \<and>
   detect_scope_pressure out err c =
     (case concat (map (\<lambda>t. List.map_filter pressure_line (visible (\<lambda>l. l) Outside (splitlines t)))
             (semantic_output_streams out err c)) of [] \<Rightarrow> None | m # _ \<Rightarrow> Some m)"
proof -
  have e: "extract_scope_pressure_markers =
      (\<lambda>t. List.map_filter pressure_line (visible (\<lambda>l. l) Outside (splitlines t)))"
    by (rule ext) (simp add: extract_scope_pressure_markers_def pressure_loop_filter iter_non_fenced_visible)
  show ?thesis
    by (simp add: has_scope_pressure_def detect_scope_pressure_def parse_scope_pressure_def first_message_concat e
        split: list.split)
qed

end
