(* ===== verification/Admission_Journal.thy ===== *)
theory Admission_Journal
  imports Broker_Journal "HOL-Library.AList" "HOL-Library.List_Lexorder" "HOL-Library.Char_ord"
begin

text \<open>
  The reservation journal of project admission (\<^verbatim>\<open>aflow/project_admission.py\<close>): the identities it
  accepts, the reservation record with its constructor's checks, the journal's decoding, its payload
  and its compaction. The journal is the dictionary of the code, an association list in insertion
  order with one entry per key.
\<close>

subsection \<open>Errors\<close>

text \<open>
  The exceptions an admission call can raise: the classes of the module, and those of its callees
  it does not catch everywhere (\<^verbatim>\<open>RunIdentityError\<close>, \<^verbatim>\<open>RepositoryError\<close>, \<^verbatim>\<open>OSError\<close>, and the
  built-in errors of a dictionary or set lookup).
\<close>

datatype adm_error =
    Safety_Error string
  | Conflict string
  | Plan_Claim_Conflict string
  | Dependency_Blocked string
  | Automatic_Disabled string
  | Plan_Changed string
  | Capacity_Reached int nat bool
  | Run_Identity_Error string
  | Repository_Failure string
  | Os_Error
  | Py_Error py_exn

definition MAX_SAFE_ADMISSION_MESSAGE_LENGTH :: nat where
  "MAX_SAFE_ADMISSION_MESSAGE_LENGTH = 256"

definition error_text :: "adm_error \<Rightarrow> string" where
  "error_text e = (case e of
       Safety_Error m \<Rightarrow> m | Conflict m \<Rightarrow> m | Plan_Claim_Conflict m \<Rightarrow> m | Dependency_Blocked m \<Rightarrow> m
     | Automatic_Disabled m \<Rightarrow> m | Plan_Changed m \<Rightarrow> m
     | Capacity_Reached lim occ auto \<Rightarrow>
         ''project implementation capacity is currently full ('' @ nat_str occ @ ''/'' @ int_str lim @ '')''
     | Run_Identity_Error m \<Rightarrow> m | Repository_Failure m \<Rightarrow> m | Os_Error \<Rightarrow> [] | Py_Error x \<Rightarrow> [])"

definition safe_message :: "string \<Rightarrow> string" where
  "safe_message s =
     (let m = join_with '' '' (split_words (map (\<lambda>c. if is_printable c then c else CHR '' '') s));
          m = (if m = [] then ''project admission could not be completed safely'' else m)
      in if length m > MAX_SAFE_ADMISSION_MESSAGE_LENGTH
         then take (MAX_SAFE_ADMISSION_MESSAGE_LENGTH - 3) m @ ''...'' else m)"

subsection \<open>Identities\<close>

definition ascii_lower_alnum :: "char \<Rightarrow> bool" where
  "ascii_lower_alnum c = ((97 \<le> code c \<and> code c \<le> 122) \<or> (48 \<le> code c \<and> code c \<le> 57))"

definition ascii_alnum :: "char \<Rightarrow> bool" where
  "ascii_alnum c = (ascii_lower_alnum c \<or> (65 \<le> code c \<and> code c \<le> 90))"

definition ascii_digit :: "char \<Rightarrow> bool" where
  "ascii_digit c = (48 \<le> code c \<and> code c \<le> 57)"

text \<open>
  \<^verbatim>\<open>^[a-z0-9](?:[a-z0-9-]{0,62}[a-z0-9])?$\<close>, matched in full, and the shape of old identities,
  \<^verbatim>\<open>^\d{8}T\d{6}Z-[0-9a-f]{8}$\<close>.
\<close>

definition bounded_name :: "(char \<Rightarrow> bool) \<Rightarrow> (char \<Rightarrow> bool) \<Rightarrow> string \<Rightarrow> bool" where
  "bounded_name p q s =
     (s \<noteq> [] \<and> length s \<le> 64 \<and> p (hd s) \<and> p (last s) \<and> list_all (\<lambda>c. p c \<or> q c) s)"

definition canonical_run_id :: "string \<Rightarrow> bool" where
  "canonical_run_id = bounded_name ascii_lower_alnum (\<lambda>c. c = CHR ''-'')"

definition legacy_run_id :: "string \<Rightarrow> bool" where
  "legacy_run_id s =
     (length s = 25 \<and> list_all ascii_digit (take 8 s) \<and> s ! 8 = CHR ''T'' \<and>
      list_all ascii_digit (take 6 (drop 9 s)) \<and> s ! 15 = CHR ''Z'' \<and> s ! 16 = CHR ''-'' \<and>
      list_all is_hex (drop 17 s))"

definition validate_run_id :: "json \<Rightarrow> adm_error + string" where
  "validate_run_id v = (case v of
       JStr s \<Rightarrow>
         if length s > 64 \<or> (\<not> canonical_run_id s \<and> \<not> legacy_run_id s)
         then Inl (Run_Identity_Error
           ''run id must be lowercase ASCII letters/digits/hyphens, bounded, and path-safe'')
         else if s \<in> {''.'', ''..''} \<or> (contains ''--'' s \<and> starts_with s ''-'')
         then Inl (Run_Identity_Error ''run id is not a safe unit/path component'')
         else Inr s
     | _ \<Rightarrow> Inl (Run_Identity_Error ''run id must be a string''))"

text \<open>\<^verbatim>\<open>^[A-Za-z0-9](?:[A-Za-z0-9_-]{0,62}[A-Za-z0-9])?$\<close>\<close>

definition source_provenance_ok :: "string \<Rightarrow> bool" where
  "source_provenance_ok = bounded_name ascii_alnum (\<lambda>c. c = CHR ''_'' \<or> c = CHR ''-'')"

definition validate_source_provenance_id :: "json \<Rightarrow> adm_error + string" where
  "validate_source_provenance_id v =
     (if is_str v \<and> length (str_of v) \<le> 64 \<and> source_provenance_ok (str_of v) then Inr (str_of v)
      else Inl (Safety_Error ''admission source provenance is not a safe path component''))"

subsection \<open>Reservations\<close>

datatype res_state = Reserved | Starting | Active | Uncertain | Released

record reservation =
  r_run_id :: string
  r_nonce :: string
  r_state :: res_state
  r_source :: "string option"
  r_plan_key :: "string option"
  r_key :: "string option"
  r_retained :: bool
  r_bound :: bool
  r_owner_pid :: "int option"
  r_owner_birth :: "string option"
  r_created :: string
  r_updated :: string

definition live_state :: "res_state \<Rightarrow> bool" where
  "live_state s = (s \<in> {Reserved, Starting, Active, Uncertain})"

definition res_state_name :: "res_state \<Rightarrow> string" where
  "res_state_name s = (case s of Reserved \<Rightarrow> ''reserved'' | Starting \<Rightarrow> ''starting'' | Active \<Rightarrow> ''active''
                    | Uncertain \<Rightarrow> ''uncertain'' | Released \<Rightarrow> ''released'')"

definition state_of_name :: "string \<Rightarrow> res_state option" where
  "state_of_name s =
     (if s = ''reserved'' then Some Reserved else if s = ''starting'' then Some Starting
      else if s = ''active'' then Some Active else if s = ''uncertain'' then Some Uncertain
      else if s = ''released'' then Some Released else None)"



text \<open>\<^verbatim>\<open>Path(s).as_posix()\<close> of a relative path drops empty components and single dots.\<close>

definition as_posix :: "string \<Rightarrow> string" where
  "as_posix s =
     (let ps = filter (\<lambda>p. p \<noteq> [] \<and> p \<noteq> ''.'') (split_on (CHR ''/'') s)
      in if ps = [] then ''.'' else join_with ''/'' ps)"

definition plan_key_ok :: "string \<Rightarrow> bool" where
  "plan_key_ok k =
     (k \<noteq> [] \<and> length k \<le> 4096 \<and> \<not> starts_with k ''/'' \<and>
      list_all (\<lambda>p. p \<notin> {[], ''.'', ''..''}) (split_on (CHR ''/'') k) \<and> as_posix k = k)"

definition nonce_ok :: "string \<Rightarrow> bool" where
  "nonce_ok n = (16 \<le> length n \<and> length n \<le> 128 \<and> list_all is_hex n)"

text \<open>A field that is \<open>None\<close> or satisfies a test, and its value.\<close>

definition none_or :: "(json \<Rightarrow> bool) \<Rightarrow> json \<Rightarrow> bool" where
  "none_or p v = (v = JNull \<or> p v)"

definition text_within :: "nat \<Rightarrow> json \<Rightarrow> bool" where
  "text_within n v = (is_str v \<and> str_of v \<noteq> [] \<and> length (str_of v) \<le> n)"

fun is_bool :: "json \<Rightarrow> bool" where
  "is_bool (JBool b) = True"
| "is_bool _ = False"

definition pid_ok :: "json \<Rightarrow> bool" where
  "pid_ok v = (is_plain_int v \<and> 1 \<le> int_of v)"

definition str_opt :: "json \<Rightarrow> string option" where
  "str_opt v = (if v = JNull then None else Some (str_of v))"

definition int_opt :: "json \<Rightarrow> int option" where
  "int_opt v = (if v = JNull then None else Some (int_of v))"

text \<open>
  The constructor with its \<^verbatim>\<open>__post_init__\<close>, on the keyword arguments of a call. A state that is a
  list or a dictionary cannot be looked up in the set of states.
\<close>

definition make_reservation :: "dict \<Rightarrow> adm_error + reservation" where
  "make_reservation a =
     rbind (validate_run_id (dget a ''run_id'')) (\<lambda>run_id.
     rbind (if dget a ''source_run_id'' = JNull then Inr []
            else validate_source_provenance_id (dget a ''source_run_id'')) (\<lambda>_.
     guard_r (none_or (\<lambda>v. is_str v \<and> plan_key_ok (str_of v)) (dget a ''plan_key''))
       (Safety_Error ''admission plan identity is invalid'')
     (guard_r (is_str (dget a ''nonce'') \<and> nonce_ok (str_of (dget a ''nonce'')))
       (Safety_Error ''admission reservation nonce is invalid'')
     (guard_r (hashable (dget a ''state'')) (Py_Error (TypeError ''unhashable type''))
     (guard_r (is_str (dget a ''state'') \<and> state_of_name (str_of (dget a ''state'')) \<noteq> None)
       (Safety_Error ''admission reservation state is invalid'')
     (guard_r (is_bool (dget a ''claim_retained'') \<and> is_bool (dget a ''bound''))
       (Safety_Error ''admission reservation flags are invalid'')
     (guard_r (none_or pid_ok (dget a ''owner_pid''))
       (Safety_Error ''admission reservation owner is invalid'')
     (guard_r (none_or (text_within 256) (dget a ''owner_birth''))
       (Safety_Error ''admission reservation owner identity is invalid'')
     (Inr \<lparr>r_run_id = run_id, r_nonce = str_of (dget a ''nonce''),
           r_state = the (state_of_name (str_of (dget a ''state''))),
           r_source = str_opt (dget a ''source_run_id''), r_plan_key = str_opt (dget a ''plan_key''),
           r_key = str_opt (dget a ''idempotency_key''),
           r_retained = (dget a ''claim_retained'' = JBool True),
           r_bound = (dget a ''bound'' = JBool True),
           r_owner_pid = int_opt (dget a ''owner_pid''), r_owner_birth = str_opt (dget a ''owner_birth''),
           r_created = str_of (dget a ''created_at''), r_updated = str_of (dget a ''updated_at'')\<rparr>)))))))))"

definition to_dict :: "reservation \<Rightarrow> dict" where
  "to_dict r =
     [(''run_id'', JStr (r_run_id r)),
      (''nonce'', JStr (r_nonce r)),
      (''state'', JStr (res_state_name (r_state r))),
      (''source_run_id'', opt_json JStr (r_source r)),
      (''plan_key'', opt_json JStr (r_plan_key r)),
      (''idempotency_key'', opt_json JStr (r_key r)),
      (''claim_retained'', JBool (r_retained r)),
      (''bound'', JBool (r_bound r)),
      (''owner_pid'', opt_json JInt (r_owner_pid r)),
      (''owner_birth'', opt_json JStr (r_owner_birth r)),
      (''created_at'', JStr (r_created r)),
      (''updated_at'', JStr (r_updated r))]"

text \<open>What the constructor and the decoder guarantee of a reservation.\<close>

definition reservation_ok :: "reservation \<Rightarrow> bool" where
  "reservation_ok r =
     (validate_run_id (JStr (r_run_id r)) = Inr (r_run_id r) \<and> nonce_ok (r_nonce r) \<and>
      (case r_source r of None \<Rightarrow> True
         | Some s \<Rightarrow> validate_source_provenance_id (JStr s) = Inr s) \<and>
      (case r_plan_key r of None \<Rightarrow> True | Some k \<Rightarrow> plan_key_ok k) \<and>
      (case r_key r of None \<Rightarrow> True | Some k \<Rightarrow> k \<noteq> [] \<and> length k \<le> 4096) \<and>
      (case r_owner_pid r of None \<Rightarrow> True | Some p \<Rightarrow> 1 \<le> p) \<and>
      (case r_owner_birth r of None \<Rightarrow> True | Some b \<Rightarrow> b \<noteq> [] \<and> length b \<le> 256))"

subsection \<open>Decoding\<close>

definition dget_or :: "dict \<Rightarrow> string \<Rightarrow> json \<Rightarrow> json" where
  "dget_or d k dflt = (case map_of d k of None \<Rightarrow> dflt | Some v \<Rightarrow> v)"

definition malformed :: "adm_error" where
  "malformed = Safety_Error ''admission reservation is malformed''"

text \<open>A missing key, or a run identity the validator refuses, is one malformed reservation.\<close>

definition or_malformed :: "'e + 'a \<Rightarrow> adm_error + 'a" where
  "or_malformed r = (case r of Inl _ \<Rightarrow> Inl malformed | Inr x \<Rightarrow> Inr x)"

definition required_fields :: "dict \<Rightarrow> adm_error + string \<times> json \<times> json" where
  "required_fields d =
     rbind (or_malformed (rbind (or_malformed (ditem d ''run_id'')) validate_run_id)) (\<lambda>run_id.
     rbind (or_malformed (ditem d ''nonce'')) (\<lambda>nonce.
     rbind (or_malformed (ditem d ''state'')) (\<lambda>state. Inr (run_id, nonce, state))))"

text \<open>The last \<open>except (TypeError, ValueError)\<close>: safety errors pass through it.\<close>

definition as_invalid :: "adm_error + reservation \<Rightarrow> adm_error + reservation" where
  "as_invalid r = (case r of
       Inl (Run_Identity_Error m) \<Rightarrow> Inl (Safety_Error ''admission reservation is invalid'')
     | Inl (Py_Error x) \<Rightarrow> Inl (Safety_Error ''admission reservation is invalid'')
     | _ \<Rightarrow> r)"

definition decode_reservation :: "json \<Rightarrow> adm_error + reservation" where
  "decode_reservation v =
     guard_r (is_obj v) malformed
     (let d = obj_of v in
      rbind (required_fields d) (\<lambda>(run_id, nonce, state).
      guard_r (none_or (\<lambda>s. \<not> is_error (validate_source_provenance_id s)) (dget d ''source_run_id''))
        (Safety_Error ''admission source run is invalid'')
      (guard_r (none_or (text_within 4096) (dget d ''idempotency_key''))
        (Safety_Error ''admission idempotency key is invalid'')
      (guard_r (is_str (dget_or d ''created_at'' (JStr [])) \<and> is_str (dget_or d ''updated_at'' (JStr [])))
        (Safety_Error ''admission reservation timestamps are invalid'')
      (guard_r (none_or pid_ok (dget d ''owner_pid''))
        (Safety_Error ''admission reservation owner is invalid'')
      (guard_r (none_or (text_within 256) (dget d ''owner_birth''))
        (Safety_Error ''admission reservation owner identity is invalid'')
      (as_invalid (make_reservation
        [(''run_id'', JStr run_id), (''nonce'', nonce), (''state'', state),
         (''source_run_id'', dget d ''source_run_id''), (''plan_key'', dget d ''plan_key''),
         (''idempotency_key'', dget d ''idempotency_key''),
         (''claim_retained'', dget_or d ''claim_retained'' (JBool False)),
         (''bound'', dget_or d ''bound'' (JBool False)),
         (''owner_pid'', dget d ''owner_pid''), (''owner_birth'', dget d ''owner_birth''),
         (''created_at'', dget_or d ''created_at'' (JStr [])),
         (''updated_at'', dget_or d ''updated_at'' (JStr []))]))))))))"

type_synonym reservations = "(string \<times> reservation) list"

definition ADMISSION_SCHEMA_VERSION :: int where
  "ADMISSION_SCHEMA_VERSION = 1"

fun decode_items :: "reservations \<Rightarrow> dict \<Rightarrow> adm_error + reservations" where
  "decode_items decoded [] = Inr decoded"
| "decode_items decoded ((key, raw) # items) =
     rbind (decode_reservation raw) (\<lambda>r.
     guard_r (key = r_run_id r) (Safety_Error ''project admission reservation identity is invalid'')
     (guard_r (map_of decoded key = None)
       (Safety_Error ''project admission contains duplicate reservations'')
     (decode_items (decoded @ [(key, r)]) items)))"

definition decode_state :: "string \<Rightarrow> dict option \<Rightarrow> adm_error + reservations" where
  "decode_state root value = (case value of
       None \<Rightarrow> Inr []
     | Some d \<Rightarrow>
         guard_r (set (map fst d) = {''schema_version'', ''project_root'', ''reservations''})
           (Safety_Error ''project admission state has an invalid shape'')
         (guard_r (equals_int (dget d ''schema_version'') ADMISSION_SCHEMA_VERSION)
           (Safety_Error ''project admission state schema is unsupported'')
         (guard_r (dget d ''project_root'' = JStr root)
           (Safety_Error ''project admission state belongs to another project'')
         (guard_r (is_obj (dget d ''reservations''))
           (Safety_Error ''project admission reservations are invalid'')
         (decode_items [] (obj_of (dget d ''reservations'')))))))"

definition sorted_items :: "(string \<times> 'a) list \<Rightarrow> (string \<times> 'a) list" where
  "sorted_items xs = sort_key fst xs"

definition state_payload :: "string \<Rightarrow> reservations \<Rightarrow> json" where
  "state_payload root rs =
     JObj [(''schema_version'', JInt ADMISSION_SCHEMA_VERSION), (''project_root'', JStr root),
           (''reservations'', JObj (map (\<lambda>(k, r). (k, JObj (to_dict r))) (sorted_items rs)))]"

subsection \<open>What a decoded journal looks like\<close>

definition journal_wf :: "reservations \<Rightarrow> bool" where
  "journal_wf rs =
     (distinct (map fst rs) \<and> list_all (\<lambda>(k, r). k = r_run_id r \<and> reservation_ok r) rs)"

lemma state_of_name_name [simp]: "state_of_name (res_state_name s) = Some s"
  by (cases s) (simp_all add: state_of_name_def res_state_name_def)

lemma validate_run_id_Inr: "validate_run_id v = Inr s \<Longrightarrow> v = JStr s"
  by (cases v) (auto simp: validate_run_id_def split: if_splits)

lemma validate_run_id_again: "validate_run_id v = Inr s \<Longrightarrow> validate_run_id (JStr s) = Inr s"
  by (frule validate_run_id_Inr) simp

lemma validate_source_Inr: "validate_source_provenance_id v = Inr s \<Longrightarrow> v = JStr s"
  by (cases v) (auto simp: validate_source_provenance_id_def split: if_splits)

lemma is_error_iff: "is_error r \<longleftrightarrow> (\<exists>e. r = Inl e)"
  by (cases r) auto

lemma str_opt_simps [simp]: "str_opt JNull = None" "str_opt (JStr s) = Some s"
  by (simp_all add: str_opt_def)

lemma int_opt_simps [simp]: "int_opt JNull = None" "int_opt (JInt n) = Some n"
  by (simp_all add: int_opt_def)

lemma opt_json_simps [simp]: "opt_json f None = JNull" "opt_json f (Some a) = f a"
  by (simp_all add: opt_json_def)

lemma str_opt_opt_json [simp]: "str_opt (opt_json JStr x) = x"
  by (cases x) simp_all

lemma int_opt_opt_json [simp]: "int_opt (opt_json JInt x) = x"
  by (cases x) simp_all

lemma none_or_simps [simp]: "none_or p JNull" "v \<noteq> JNull \<Longrightarrow> none_or p v = p v"
  by (simp_all add: none_or_def)

lemma dget_or_dget: "dget d k \<noteq> JNull \<Longrightarrow> dget_or d k z = dget d k"
  by (auto simp: dget_or_def dget_def split: option.splits)

lemma dget_or_simps [simp]:
  "dget_or [] k z = z" "dget_or ((k, v) # d) k' z = (if k' = k then v else dget_or d k' z)"
  by (auto simp: dget_or_def)

text \<open>The constructor accepts the fields of a good reservation, and makes only good ones.\<close>

lemma make_reservation_to_dict:
  assumes "reservation_ok r"
  shows "make_reservation (to_dict r) = Inr r"
  using assms
  by (cases "r_source r"; cases "r_plan_key r"; cases "r_owner_pid r"; cases "r_owner_birth r")
     (simp_all add: make_reservation_def to_dict_def reservation_ok_def guard_r_def pid_ok_def
        text_within_def)

lemma make_reservation_args:
  assumes "make_reservation a = Inr r"
  shows "dget a ''run_id'' = JStr (r_run_id r)"
    and "r_key r = str_opt (dget a ''idempotency_key'')"
    and "\<exists>t. dget a ''state'' = JStr t \<and> state_of_name t = Some (r_state r)"
    and "dget a ''plan_key'' = opt_json JStr (r_plan_key r)"
    and "dget a ''source_run_id'' = opt_json JStr (r_source r)"
    and "dget a ''claim_retained'' = JBool (r_retained r)"
    and "dget a ''bound'' = JBool (r_bound r)"
    and "dget a ''nonce'' = JStr (r_nonce r)"
proof -
  note m = assms [unfolded make_reservation_def rbind_Inr_iff guard_r_Inr_iff]
  from m show "dget a ''run_id'' = JStr (r_run_id r)"
    by (auto dest: validate_run_id_Inr)
  from m show "r_key r = str_opt (dget a ''idempotency_key'')" by auto
  from m show "\<exists>t. dget a ''state'' = JStr t \<and> state_of_name t = Some (r_state r)"
    by (cases "dget a ''state''") auto
  from m show "dget a ''plan_key'' = opt_json JStr (r_plan_key r)"
    by (cases "dget a ''plan_key''") (auto simp: none_or_def)
  from m show "dget a ''source_run_id'' = opt_json JStr (r_source r)"
    by (cases "dget a ''source_run_id''") (auto dest: validate_source_Inr split: if_splits)
  from m show "dget a ''claim_retained'' = JBool (r_retained r)"
    by (cases "dget a ''claim_retained''") auto
  from m show "dget a ''bound'' = JBool (r_bound r)" by (cases "dget a ''bound''") auto
  from m show "dget a ''nonce'' = JStr (r_nonce r)" by (cases "dget a ''nonce''") auto
qed

lemma make_reservation_ok:
  assumes "make_reservation a = Inr r"
    and key: "none_or (text_within 4096) (dget a ''idempotency_key'')"
  shows "reservation_ok r"
proof -
  note m = assms(1) [unfolded make_reservation_def rbind_Inr_iff guard_r_Inr_iff]
  from m have 1: "validate_run_id (JStr (r_run_id r)) = Inr (r_run_id r)"
    by (auto intro: validate_run_id_again)
  from m have 2: "nonce_ok (r_nonce r)" by auto
  from m have 3: "case r_source r of None \<Rightarrow> True
      | Some s \<Rightarrow> validate_source_provenance_id (JStr s) = Inr s"
    by (cases "dget a ''source_run_id''") (auto dest: validate_source_Inr split: if_splits)
  from m have 4: "case r_plan_key r of None \<Rightarrow> True | Some k \<Rightarrow> plan_key_ok k"
    by (cases "dget a ''plan_key''") (auto simp: none_or_def)
  from m key have 5: "case r_key r of None \<Rightarrow> True | Some k \<Rightarrow> k \<noteq> [] \<and> length k \<le> 4096"
    by (cases "dget a ''idempotency_key''") (auto simp: none_or_def text_within_def)
  from m have 6: "case r_owner_pid r of None \<Rightarrow> True | Some p \<Rightarrow> 1 \<le> p"
    by (cases "dget a ''owner_pid''") (auto simp: none_or_def pid_ok_def)
  from m have 7: "case r_owner_birth r of None \<Rightarrow> True | Some b \<Rightarrow> b \<noteq> [] \<and> length b \<le> 256"
    by (cases "dget a ''owner_birth''") (auto simp: none_or_def text_within_def)
  from 1 2 3 4 5 6 7 show ?thesis by (simp only: reservation_ok_def simp_thms)
qed

lemma as_invalid_Inr [simp]: "as_invalid x = Inr r \<longleftrightarrow> x = Inr r"
  by (auto simp: as_invalid_def split: sum.splits adm_error.splits)

lemma decode_reservation_ok: "decode_reservation v = Inr r \<Longrightarrow> reservation_ok r"
  by (auto simp: decode_reservation_def guard_r_Inr_iff rbind_Inr_iff Let_def
      intro!: make_reservation_ok)

lemma decode_reservation_to_dict:
  assumes "reservation_ok r"
  shows "decode_reservation (JObj (to_dict r)) = Inr r"
proof -
  have req: "required_fields (to_dict r)
      = Inr (r_run_id r, JStr (r_nonce r), JStr (res_state_name (r_state r)))"
    using assms by (simp add: required_fields_def or_malformed_def to_dict_def reservation_ok_def)
  have src: "none_or (\<lambda>s. \<not> is_error (validate_source_provenance_id s)) (opt_json JStr (r_source r))"
    using assms by (cases "r_source r") (simp_all add: reservation_ok_def)
  have key: "none_or (text_within 4096) (opt_json JStr (r_key r))"
    using assms by (cases "r_key r") (simp_all add: reservation_ok_def text_within_def)
  have pid: "none_or pid_ok (opt_json JInt (r_owner_pid r))"
    using assms by (cases "r_owner_pid r") (simp_all add: reservation_ok_def pid_ok_def)
  have birth: "none_or (text_within 256) (opt_json JStr (r_owner_birth r))"
    using assms by (cases "r_owner_birth r") (simp_all add: reservation_ok_def text_within_def)
  from make_reservation_to_dict [OF assms] show ?thesis
    unfolding decode_reservation_def is_obj.simps obj_of.simps Let_def guard_r_def req rbind_simps prod.case
    by (simp add: to_dict_def src key pid birth)
qed

lemma decode_items_wf:
  "decode_items acc d = Inr rs \<Longrightarrow> journal_wf acc \<Longrightarrow> journal_wf rs"
proof (induction acc d arbitrary: rs rule: decode_items.induct)
  case (2 acc key raw items)
  from 2 (2) obtain r where r: "decode_reservation raw = Inr r" "key = r_run_id r"
      "map_of acc key = None" "decode_items (acc @ [(key, r)]) items = Inr rs"
    by (auto simp: rbind_Inr_iff guard_r_Inr_iff)
  have "journal_wf (acc @ [(key, r)])"
    using 2 (3) r decode_reservation_ok [OF r(1)]
    by (auto simp: journal_wf_def map_of_eq_None_iff)
  with 2 (1) r show ?case by blast
qed simp

lemma decode_state_wf:
  assumes "decode_state root v = Inr rs"
  shows "journal_wf rs"
proof (cases v)
  case (Some d)
  from assms have "decode_items [] (obj_of (dget d ''reservations'')) = Inr rs"
    unfolding decode_state_def Some option.case guard_r_Inr_iff by simp
  then show ?thesis by (rule decode_items_wf) (simp add: journal_wf_def)
qed (use assms in \<open>simp add: decode_state_def journal_wf_def\<close>)

lemma decode_items_encoded:
  "journal_wf (acc @ rs) \<Longrightarrow>
   decode_items acc (map (\<lambda>(k, r). (k, JObj (to_dict r))) rs) = Inr (acc @ rs)"
proof (induction rs arbitrary: acc)
  case (Cons kr rs)
  obtain k r where kr: "kr = (k, r)" by (cases kr)
  from Cons.prems kr have "reservation_ok r" "k = r_run_id r" "k \<notin> fst ` set acc"
    by (auto simp: journal_wf_def)
  moreover from Cons.prems kr have "journal_wf ((acc @ [(k, r)]) @ rs)" by simp
  ultimately show ?case
    using Cons.IH [of "acc @ [(k, r)]"]
    by (simp add: kr decode_reservation_to_dict guard_r_def map_of_eq_None_iff [THEN iffD2])
qed simp

lemma set_sorted_items [simp]: "set (sorted_items rs) = set rs"
  by (simp add: sorted_items_def)

lemma distinct_sorted_items [simp]:
  "distinct (map fst (sorted_items rs)) \<longleftrightarrow> distinct (map fst rs)"
  by (simp add: sorted_items_def distinct_map)

lemma journal_wf_sorted [simp]: "journal_wf (sorted_items rs) \<longleftrightarrow> journal_wf rs"
  by (simp add: journal_wf_def list_all_iff)

lemma decode_state_payload:
  assumes "journal_wf rs"
  shows "decode_state root (Some (obj_of (state_payload root rs))) = Inr (sorted_items rs)"
  using decode_items_encoded [of "[]" "sorted_items rs"] assms
  by (simp add: decode_state_def state_payload_def guard_r_def ADMISSION_SCHEMA_VERSION_def)

lemma map_of_sorted_items [simp]:
  "distinct (map fst rs) \<Longrightarrow> map_of (sorted_items rs) = map_of rs"
  by (rule map_of_inject_set [THEN iffD2]) simp_all

end
