(* ===== verification/Admission_Evidence.thy ===== *)
theory Admission_Evidence
  imports Admission_Journal
begin

text \<open>
  The evidence project admission decides on: the classification of one run's status, the run
  identities and the worktrees of a project, the merged evidence of all its checkouts, and the
  stricter evidence a resume needs. What the code reads from the file system, from Git, from the
  workflow units and from the run repository is one observation, fixed while the admission lock is
  held, as the code's read view keeps it.
\<close>

subsection \<open>Observations\<close>

datatype repo_exn = Repository_Error string | Not_Found string | Raised py_exn

definition repo_safety :: "repo_exn \<Rightarrow> adm_error" where
  "repo_safety x = (case x of
       Repository_Error m \<Rightarrow> Safety_Error m | Not_Found m \<Rightarrow> Safety_Error m | Raised e \<Rightarrow> Py_Error e)"

text \<open>The fields of \<^verbatim>\<open>RunStatus\<close> and \<^verbatim>\<open>LaunchManifest\<close> admission reads.\<close>

record run_status =
  s_status :: string
  s_ownership :: string
  s_unit :: "string option"
  s_phase :: "string option"
  s_evidence :: json

record launch_manifest =
  m_run_id :: string
  m_plan_path :: string
  m_unit :: "string option"
  m_root :: "string option"       \<comment> \<open>the resolved project root, if it resolves\<close>
  m_restarted :: "string option"

text \<open>A directory entry after \<^verbatim>\<open>_contained_existing_path\<close>, and a directory's listing.\<close>

datatype entry = Gone | Escapes | Directory | Plain_File | Special

datatype listing = No_Directory | Escaping | Not_Directory | Unreadable_Directory
  | Listing "(string \<times> entry) list"

datatype json_content = Undecodable | Json json

datatype json_file = No_File | Stat_Fails | Irregular | Regular nat "(nat \<times> json_content) option"

datatype legacy_metadata = Meta_Missing | Meta_Symlink | Meta_File nat "json option"

record root_view =
  v_runs :: listing
  v_launches :: listing
  v_startups :: listing
  v_run_dir :: "string \<Rightarrow> entry"
  v_status :: "string \<Rightarrow> repo_exn + run_status"
  v_manifest :: "string \<Rightarrow> repo_exn + launch_manifest option"
  v_startup :: "string \<Rightarrow> repo_exn + dict"
  v_metadata :: "string \<Rightarrow> repo_exn + json_file option"
  v_legacy :: "string \<Rightarrow> legacy_metadata"

datatype unit_read = Unit_Fails | No_Unit | Unit_Found "string option" json

datatype git_run = Git_Unavailable | Git_Exit | Git_Output string

datatype worktree = Not_A_Checkout | Identity_Fails | Identity string string

record evidence_env =
  e_root :: string
  e_checkout :: string
  e_git_entry :: bool
  e_git :: git_run
  e_worktree :: "string \<Rightarrow> worktree"       \<comment> \<open>primary and checkout root of a candidate path\<close>
  e_views :: "string \<Rightarrow> root_view"
  e_units :: "(string \<Rightarrow> unit_read) option"

subsection \<open>Classification of one run\<close>

datatype ev_state = Ev_Absent | Ev_Reserved | Ev_Starting | Ev_Active | Ev_Uncertain | Ev_Inactive

record run_evidence =
  ev_state :: ev_state
  ev_retained :: bool

definition evidence :: "ev_state \<Rightarrow> run_evidence" where
  "evidence s = \<lparr>ev_state = s, ev_retained = False\<rparr>"

fun truthy :: "json \<Rightarrow> bool" where
  "truthy JNull = False"
| "truthy (JBool b) = b"
| "truthy (JInt n) = (n \<noteq> 0)"
| "truthy (JFloat r i) = (i \<noteq> Some 0)"
| "truthy (JStr s) = (s \<noteq> [])"
| "truthy (JList xs) = (xs \<noteq> [])"
| "truthy (JObj d) = (d \<noteq> [])"

definition confirmed_inactive :: "dict \<Rightarrow> bool" where
  "confirmed_inactive w =
     (dget w ''active'' = JBool False \<and>
      (map_of w ''exit_code'' \<noteq> None \<or> dget w ''observation'' = JStr ''stopped'' \<or>
       truthy (dget w ''wrapper_error'') \<or> dget w ''processes_absent'' = JBool True))"

definition status_evidence :: "run_status \<Rightarrow> dict" where
  "status_evidence st = obj_of (s_evidence st)"

definition unit_activity :: "(string \<Rightarrow> unit_read) option \<Rightarrow> run_status \<Rightarrow> adm_error + json" where
  "unit_activity units st =
     (let recorded = dget (status_evidence st) ''unit_active'' in
      case (units, s_unit st) of
        (Some get, Some name) \<Rightarrow>
          if name = [] then Inr recorded
          else (case get name of
                  Unit_Fails \<Rightarrow> Inl (Safety_Error ''workflow unit evidence is unavailable'')
                | No_Unit \<Rightarrow> Inr recorded
                | Unit_Found n active \<Rightarrow>
                    if n = Some name then Inr active
                    else Inl (Safety_Error ''workflow unit identity is ambiguous''))
      | _ \<Rightarrow> Inr recorded)"

definition preparation_failed :: "dict \<Rightarrow> bool" where
  "preparation_failed e =
     (is_obj (dget e ''startup_failure'') \<and>
      dget (obj_of (dget e ''startup_failure'')) ''stage'' = JStr ''preparation'' \<and>
      dget e ''has_run_metadata'' \<noteq> JBool True)"

definition worker_stopped :: "dict \<Rightarrow> bool" where
  "worker_stopped e = (is_obj (dget e ''worker'') \<and> confirmed_inactive (obj_of (dget e ''worker'')))"

definition terminal_statuses :: "string list" where
  "terminal_statuses = [''completed'', ''failed'', ''interrupted'']"

definition recorded_terminal :: "string list" where
  "recorded_terminal = [''completed'', ''failed'', ''interrupted'', ''owner_stopped'']"

definition phase_in :: "string list \<Rightarrow> run_status \<Rightarrow> bool" where
  "phase_in ps st = (case s_phase st of None \<Rightarrow> False | Some p \<Rightarrow> p \<in> set ps)"

text \<open>The tests after the terminal ones: every run that reaches them is charged.\<close>

definition classify_charged :: "run_status \<Rightarrow> run_evidence" where
  "classify_charged st =
     (if s_status st = ''manifest_only'' \<and> (s_phase st = None \<or> phase_in [''manifest_only''] st)
      then evidence Ev_Reserved
      else if phase_in [''launch_requested''] st \<or>
              dget (status_evidence st) ''startup_state'' = JStr ''preparing''
      then evidence Ev_Starting
      else if s_status st \<in> {''running'', ''paused'', ''waiting_for_input'', ''waiting_for_valid_override''} \<or>
              phase_in [''launch_started'', ''unit_started''] st
      then evidence Ev_Uncertain
      else if s_status st = ''needs_attention'' then evidence Ev_Uncertain
      else evidence Ev_Uncertain)"

text \<open>\<^verbatim>\<open>status.ownership == "legacy" and (... or recorded_status in {...})\<close>, with its short circuits.\<close>

definition legacy_terminal :: "run_status \<Rightarrow> py_exn + bool" where
  "legacy_terminal st =
     (if s_ownership st \<noteq> ''legacy'' then Inr False
      else if s_status st \<in> set terminal_statuses then Inr True
      else in_str_set recorded_terminal (dget (status_evidence st) ''recorded_status''))"

definition classify_status :: "(string \<Rightarrow> unit_read) option \<Rightarrow> run_status \<Rightarrow> adm_error + run_evidence" where
  "classify_status units st =
     rbind (unit_activity units st) (\<lambda>unit_active.
     (let e = status_evidence st in
      if unit_active = JBool True \<or> dget e ''preparation_active'' = JBool True
      then Inr (evidence Ev_Active)
      else if s_status st = ''awaiting_startup_answer'' \<and> truthy (dget e ''startup_question_valid'')
      then (if dget e ''preparation_active'' \<noteq> JBool True
            then Inr \<lparr>ev_state = Ev_Inactive, ev_retained = True\<rparr>
            else Inr (evidence Ev_Starting))
      else if s_status st = ''owner_stopped'' \<or> dget e ''controller_terminal'' = JBool True
      then Inr (evidence Ev_Inactive)
      else if preparation_failed e then Inr (evidence Ev_Inactive)
      else if worker_stopped e then Inr (evidence Ev_Inactive)
      else (case legacy_terminal st of
              Inl x \<Rightarrow> Inl (Py_Error x)
            | Inr True \<Rightarrow> Inr (evidence Ev_Inactive)
            | Inr False \<Rightarrow> Inr (classify_charged st))))"

definition evidence_rank :: "run_evidence \<Rightarrow> nat" where
  "evidence_rank e = (case ev_state e of Ev_Absent \<Rightarrow> 0 | Ev_Inactive \<Rightarrow> 1 | Ev_Reserved \<Rightarrow> 2
                       | Ev_Starting \<Rightarrow> 3 | Ev_Uncertain \<Rightarrow> 4 | Ev_Active \<Rightarrow> 5)"

subsection \<open>Runs outside the control plane's names\<close>

definition MAX_READ_ARTIFACT_BYTES :: nat where
  "MAX_READ_ARTIFACT_BYTES = 8 * 1024 * 1024"

definition escape_error :: repo_exn where
  "escape_error = Repository_Error ''repository artifact escapes project root''"

definition legacy_directory_evidence :: "root_view \<Rightarrow> string \<Rightarrow> repo_exn + run_evidence" where
  "legacy_directory_evidence v run_id =
     (case v_run_dir v run_id of
        Escapes \<Rightarrow> Inl escape_error
      | Directory \<Rightarrow>
          (case v_legacy v run_id of
             Meta_Missing \<Rightarrow> Inr (evidence Ev_Uncertain)
           | Meta_Symlink \<Rightarrow> Inl (Repository_Error ''run metadata may not be a symlink'')
           | Meta_File sz content \<Rightarrow>
               if sz > MAX_READ_ARTIFACT_BYTES
               then Inl (Repository_Error ''run metadata exceeds the bounded read limit'')
               else (case content of
                       None \<Rightarrow> Inl (Repository_Error ''run metadata is unreadable'')
                     | Some meta \<Rightarrow>
                         if \<not> is_obj meta then Inl (Repository_Error ''run metadata is not an object'')
                         else (case in_str_set recorded_terminal (dget (obj_of meta) ''status'') of
                                 Inl x \<Rightarrow> Inl (Raised x)
                               | Inr True \<Rightarrow> Inr (evidence Ev_Inactive)
                               | Inr False \<Rightarrow> Inr (evidence Ev_Uncertain))))
      | _ \<Rightarrow> Inl (Repository_Error ''legacy run directory is unavailable''))"

subsection \<open>The identities of one checkout\<close>

definition path_stem :: "string \<Rightarrow> string" where
  "path_stem name = (if name = ''.json'' then name else take (length name - 5) name)"

text \<open>Identities found so far, and those of them only the provenance grammar accepts.\<close>

type_synonym found = "string list \<times> string list"

fun scan_runs :: "(string \<times> entry) list \<Rightarrow> found \<Rightarrow> repo_exn + found" where
  "scan_runs [] acc = Inr acc"
| "scan_runs ((name, ent) # es) acc =
     (if ent = Escapes then Inl escape_error
      else if ent \<noteq> Directory then scan_runs es acc
      else case validate_run_id (JStr name) of
             Inr r \<Rightarrow> scan_runs es (List.insert r (fst acc), snd acc)
           | Inl _ \<Rightarrow>
               (case validate_source_provenance_id (JStr name) of
                  Inl _ \<Rightarrow> Inl (Repository_Error ''runs directory contains an invalid identity'')
                | Inr r \<Rightarrow> scan_runs es (List.insert r (fst acc), List.insert r (snd acc))))"

fun scan_launches :: "(string \<times> entry) list \<Rightarrow> found \<Rightarrow> repo_exn + found" where
  "scan_launches [] acc = Inr acc"
| "scan_launches ((name, ent) # es) acc =
     (if \<not> ends_with name ''.json'' \<or> ends_with name ''.state.json'' then scan_launches es acc
      else if ent = Escapes then Inl escape_error
      else if ent \<noteq> Plain_File then scan_launches es acc
      else case validate_run_id (JStr (path_stem name)) of
             Inr r \<Rightarrow> scan_launches es (List.insert r (fst acc), snd acc)
           | Inl _ \<Rightarrow> Inl (Repository_Error ''launch directory contains an invalid identity''))"

definition scan_listing ::
  "string \<Rightarrow> ((string \<times> entry) list \<Rightarrow> found \<Rightarrow> repo_exn + found) \<Rightarrow> listing \<Rightarrow> found \<Rightarrow> repo_exn + found"
where
  "scan_listing unreadable scan l acc = (case l of
       No_Directory \<Rightarrow> Inr acc
     | Not_Directory \<Rightarrow> Inr acc
     | Escaping \<Rightarrow> Inl escape_error
     | Unreadable_Directory \<Rightarrow> Inl (Repository_Error unreadable)
     | Listing es \<Rightarrow> scan es acc)"

definition scan_repository_run_ids :: "root_view \<Rightarrow> repo_exn + found" where
  "scan_repository_run_ids v =
     rbind (scan_listing ''runs directory is unreadable'' scan_runs (v_runs v) ([], [])) (\<lambda>acc.
     scan_listing ''launch directory is unreadable'' scan_launches (v_launches v) acc)"

subsection \<open>The checkouts of a project\<close>

text \<open>One line of Git's worktree listing; a full list of roots ends the scan with an error.\<close>

fun add_worktrees :: "evidence_env \<Rightarrow> string list \<Rightarrow> string list \<Rightarrow> adm_error + string list" where
  "add_worktrees env roots [] = Inr roots"
| "add_worktrees env roots (line # lines) =
     (case strip_prefix ''worktree '' line of
        None \<Rightarrow> add_worktrees env roots lines
      | Some path \<Rightarrow>
          (case e_worktree env path of
             Not_A_Checkout \<Rightarrow> add_worktrees env roots lines
           | Identity_Fails \<Rightarrow> Inl (Safety_Error ''Git worktree identity is invalid'')
           | Identity primary checkout \<Rightarrow>
               (let roots = (if primary = e_root env \<and> checkout \<notin> set roots
                             then roots @ [checkout] else roots)
                in if 256 \<le> length roots
                   then Inl (Safety_Error ''too many Git worktrees for admission'')
                   else add_worktrees env roots lines)))"

definition repository_roots :: "evidence_env \<Rightarrow> adm_error + string list" where
  "repository_roots env =
     (let roots = e_root env # (if e_checkout env \<noteq> e_root env then [e_checkout env] else []) in
      if \<not> e_git_entry env then Inr roots
      else (case e_git env of
              Git_Unavailable \<Rightarrow> Inl (Safety_Error ''Git worktree identity is unavailable'')
            | Git_Exit \<Rightarrow> Inl (Safety_Error ''Git worktree identity is invalid'')
            | Git_Output out \<Rightarrow> add_worktrees env roots (splitlines out)))"

subsection \<open>The evidence of all runs\<close>

type_synonym evidence_map = "(string \<times> run_evidence) list"

definition run_candidate :: "evidence_env \<Rightarrow> root_view \<Rightarrow> string list \<Rightarrow> string \<Rightarrow> adm_error + run_evidence" where
  "run_candidate env v legacy run_id =
     (if run_id \<in> set legacy
      then (case legacy_directory_evidence v run_id of Inl x \<Rightarrow> Inl (repo_safety x) | Inr c \<Rightarrow> Inr c)
      else (case v_status v run_id of
              Inl x \<Rightarrow> Inl (repo_safety x)
            | Inr st \<Rightarrow> classify_status (e_units env) st))"

definition stronger :: "string \<Rightarrow> run_evidence \<Rightarrow> evidence_map \<Rightarrow> evidence_map" where
  "stronger run_id c m = (case map_of m run_id of
       None \<Rightarrow> AList.update run_id c m
     | Some prior \<Rightarrow> if evidence_rank prior < evidence_rank c then AList.update run_id c m else m)"

fun evidence_of_ids ::
  "evidence_env \<Rightarrow> root_view \<Rightarrow> string list \<Rightarrow> string list \<Rightarrow> evidence_map \<Rightarrow> adm_error + evidence_map"
where
  "evidence_of_ids env v legacy [] m = Inr m"
| "evidence_of_ids env v legacy (r # rs) m =
     rbind (run_candidate env v legacy r) (\<lambda>c. evidence_of_ids env v legacy rs (stronger r c m))"

fun evidence_of_roots :: "evidence_env \<Rightarrow> string list \<Rightarrow> evidence_map \<Rightarrow> adm_error + evidence_map" where
  "evidence_of_roots env [] m = Inr m"
| "evidence_of_roots env (root # roots) m =
     (case scan_repository_run_ids (e_views env root) of
        Inl x \<Rightarrow> Inl (repo_safety x)
      | Inr (ids, legacy) \<Rightarrow>
          rbind (evidence_of_ids env (e_views env root) legacy (sort ids) m) (evidence_of_roots env roots))"

definition all_run_evidence :: "evidence_env \<Rightarrow> adm_error + evidence_map" where
  "all_run_evidence env = rbind (repository_roots env) (\<lambda>roots. evidence_of_roots env roots [])"

definition evidence_or :: "run_evidence \<Rightarrow> evidence_map \<Rightarrow> string \<Rightarrow> run_evidence" where
  "evidence_or dflt m run_id = (case map_of m run_id of None \<Rightarrow> dflt | Some c \<Rightarrow> c)"

definition run_evidence_of :: "evidence_env \<Rightarrow> string \<Rightarrow> adm_error + run_evidence" where
  "run_evidence_of env run_id =
     rbind (all_run_evidence env) (\<lambda>m. Inr (evidence_or (evidence Ev_Absent) m run_id))"

subsection \<open>What a resume needs\<close>

definition predecessor_unavailable :: adm_error where
  "predecessor_unavailable = Safety_Error ''resume predecessor evidence is unavailable''"

definition unit_for :: "string \<Rightarrow> string" where
  "unit_for run_id = ''aflow-run-'' @ run_id @ ''.service''"

text \<open>The terminal evidence of a run whose manifest is its own, under its own unit name.\<close>

definition owned_run_stopped :: "run_status \<Rightarrow> bool" where
  "owned_run_stopped st =
     (let e = status_evidence st in
      (s_status st = ''owner_stopped'' \<and> s_phase st = Some ''owner_stopped'') \<or>
      (s_status st \<in> set terminal_statuses \<and> dget e ''controller_terminal'' = JBool True) \<or>
      worker_stopped e \<or>
      (s_status st = ''awaiting_startup_answer'' \<and> dget e ''startup_question_valid'' = JBool True \<and>
       dget e ''preparation_active'' \<noteq> JBool True) \<or>
      (preparation_failed e \<and> (s_phase st = None \<or> s_phase st = Some ''manifest_only'')))"

text \<open>One checkout's answer: true ends the search, false goes on with the next checkout.\<close>

definition legacy_verdict :: "root_view \<Rightarrow> string \<Rightarrow> adm_error + bool" where
  "legacy_verdict v source =
     (case v_run_dir v source of
        Escapes \<Rightarrow> Inl (Repository_Failure ''repository artifact escapes project root'')
      | Gone \<Rightarrow> Inr False
      | _ \<Rightarrow> (case legacy_directory_evidence v source of
                 Inl (Raised x) \<Rightarrow> Inl (Py_Error x)
               | Inl _ \<Rightarrow> Inl predecessor_unavailable
               | Inr c \<Rightarrow> Inr (ev_state c = Ev_Inactive)))"

definition manifest_verdict :: "root_view \<Rightarrow> string \<Rightarrow> string \<Rightarrow> run_status \<Rightarrow> adm_error + bool" where
  "manifest_verdict v root source st =
     (if s_ownership st \<noteq> ''control_plane'' \<or> s_unit st \<noteq> Some (unit_for source) then Inr False
      else case v_manifest v source of
             Inl (Raised x) \<Rightarrow> Inl (Py_Error x)
           | Inl _ \<Rightarrow> Inl predecessor_unavailable
           | Inr None \<Rightarrow> Inr False
           | Inr (Some mf) \<Rightarrow>
               (case m_root mf of
                  None \<Rightarrow> Inl predecessor_unavailable
                | Some mroot \<Rightarrow>
                    Inr (m_run_id mf = source \<and> m_unit mf = Some (unit_for source) \<and> mroot = root \<and>
                         owned_run_stopped st)))"

definition root_verdict :: "evidence_env \<Rightarrow> string \<Rightarrow> string \<Rightarrow> adm_error + bool" where
  "root_verdict env source root =
     (let v = e_views env root in
      case validate_run_id (JStr source) of
        Inl _ \<Rightarrow> legacy_verdict v source
      | Inr canonical \<Rightarrow>
          (case v_status v canonical of
             Inl (Not_Found m) \<Rightarrow> Inr False
           | Inl (Raised x) \<Rightarrow> Inl (Py_Error x)
           | Inl (Repository_Error m) \<Rightarrow> Inl predecessor_unavailable
           | Inr st \<Rightarrow>
               (let e = status_evidence st in
                if dget e ''retained_terminal_summary'' = JBool True then Inr False
                else rbind (if s_ownership st = ''legacy''
                            then (case in_str_set recorded_terminal (dget e ''recorded_status'') of
                                    Inl x \<Rightarrow> Inl (Py_Error x) | Inr b \<Rightarrow> Inr b)
                            else Inr False)
                     (\<lambda>recorded. if recorded then Inr True else manifest_verdict v root source st))))"

fun any_root :: "(string \<Rightarrow> adm_error + bool) \<Rightarrow> string list \<Rightarrow> adm_error + bool" where
  "any_root verdict [] = Inr False"
| "any_root verdict (r # rs) = rbind (verdict r) (\<lambda>b. if b then Inr True else any_root verdict rs)"

definition authoritative_inactive_predecessor :: "evidence_env \<Rightarrow> string \<Rightarrow> adm_error + bool" where
  "authoritative_inactive_predecessor env source =
     rbind (repository_roots env) (any_root (root_verdict env source))"

definition state_word :: "ev_state \<Rightarrow> string" where
  "state_word s = (case s of Ev_Absent \<Rightarrow> ''absent'' | Ev_Reserved \<Rightarrow> ''reserved'' | Ev_Starting \<Rightarrow> ''starting''
     | Ev_Active \<Rightarrow> ''active'' | Ev_Uncertain \<Rightarrow> ''uncertain'' | Ev_Inactive \<Rightarrow> ''inactive'')"

definition require_inactive_predecessor :: "evidence_env \<Rightarrow> string option \<Rightarrow> adm_error + unit" where
  "require_inactive_predecessor env source = (case source of
       None \<Rightarrow> Inr ()
     | Some src \<Rightarrow>
         rbind (run_evidence_of env src) (\<lambda>ev.
         rbind (if ev_state ev \<noteq> Ev_Inactive then Inr False
                else authoritative_inactive_predecessor env src) (\<lambda>proven.
         guard_r proven
           (Conflict (''resume predecessor inactivity is not proven for '' @ src @ '' ('' @
                      state_word (ev_state ev) @ '')''))
           (Inr ()))))"

text \<open>The preview answers no for a conflict and for nothing else.\<close>

definition predecessor_inactive_for_preview :: "evidence_env \<Rightarrow> string \<Rightarrow> adm_error + bool" where
  "predecessor_inactive_for_preview env source =
     rbind (validate_run_id (JStr source)) (\<lambda>valid.
     case require_inactive_predecessor env (Some valid) of
       Inr _ \<Rightarrow> Inr True
     | Inl (Conflict m) \<Rightarrow> Inr False
     | Inl e \<Rightarrow> Inl e)"

definition classify_run_for_preview ::
  "(string \<Rightarrow> unit_read) option \<Rightarrow> run_status \<Rightarrow> adm_error + (string \<times> bool)" where
  "classify_run_for_preview units st =
     rbind (classify_status units st) (\<lambda>ev. Inr (state_word (ev_state ev), ev_retained ev))"

end
