(* ===== verification/Plan_Dependencies.thy ===== *)
theory Plan_Dependencies
  imports Admission_Evidence
begin

text \<open>
  Numbered plan series (\<^verbatim>\<open>aflow/plan_dependencies.py\<close>): the file names that form a series, the
  durable inventory of its members, what counts as a delivered member, and the check that holds back
  a plan until its known predecessors are delivered. The inventory is the dictionary of the code,
  keyed by identity and name.
\<close>

subsection \<open>Names of a series\<close>

datatype dep_error = Dep_Error string | Dep_Blocked string | Dep_Os_Error | Dep_Settings_Error

text \<open>\<^verbatim>\<open>s.partition(sep)\<close> at the first occurrence, and \<^verbatim>\<open>s.count(sep)\<close> of a separator that does not overlap itself.\<close>

fun partition_at :: "string \<Rightarrow> string \<Rightarrow> (string \<times> string) option" where
  "partition_at sep [] = (if sep = [] then Some ([], []) else None)"
| "partition_at sep (c # cs) =
     (case strip_prefix sep (c # cs) of
        Some r \<Rightarrow> Some ([], r)
      | None \<Rightarrow> map_option (\<lambda>(a, b). (c # a, b)) (partition_at sep cs))"

fun sub_count :: "string \<Rightarrow> string \<Rightarrow> nat" where
  "sub_count sep [] = 0"
| "sub_count sep (c # cs) = (if starts_with (c # cs) sep then 1 else 0) + sub_count sep cs"

definition no_newline :: "string \<Rightarrow> bool" where
  "no_newline s = list_all (\<lambda>c. code c \<noteq> 10) s"

text \<open>
  \<^verbatim>\<open>^(?P<series>.+)_P(?P<position>[0-9]{2,})_(?P<title>.+)\.md$\<close> on a name with one marker: the digits
  after it are all the digits there are, since an underscore follows them.
\<close>

definition match_sequence :: "string \<Rightarrow> (string \<times> nat) option" where
  "match_sequence name = (case partition_at ''_P'' name of
       None \<Rightarrow> None
     | Some (series, r) \<Rightarrow>
         (let ds = takeWhile ascii_digit r; t = drop (length ds) r in
          if series \<noteq> [] \<and> no_newline series \<and> 2 \<le> length ds \<and> starts_with t ''_'' \<and>
             ends_with t ''.md'' \<and> 5 \<le> length t \<and> no_newline t
          then Some (series, parse_nat ds) else None))"

definition parse_sequence_name :: "string \<Rightarrow> string + (string \<times> nat) option" where
  "parse_sequence_name name =
     (if \<not> ends_with name ''.md'' then Inl ''plan filename is invalid''
      else if sub_count ''_P'' name = 0 then Inr None
      else case match_sequence name of
             Some (series, p) \<Rightarrow>
               if sub_count ''_P'' name \<noteq> 1 \<or> p = 0 then Inl ''plan sequence filename needs correction''
               else Inr (Some (series, p))
           | None \<Rightarrow> Inl ''plan sequence filename needs correction'')"

record series_member =
  d_identity :: string
  d_origin :: string
  d_name :: string
  d_series :: string
  d_position :: json
  d_delivered :: bool

text \<open>A name that only resembles a member joins its series without a position.\<close>

definition series_member_of :: "string \<Rightarrow> string \<Rightarrow> string \<Rightarrow> dep_error + series_member option" where
  "series_member_of name ident origin =
     (case parse_sequence_name name of
        Inl m \<Rightarrow>
          (case partition_at ''_P'' name of
             None \<Rightarrow> Inl (Dep_Error m)
           | Some (series, _) \<Rightarrow>
               Inr (Some \<lparr>d_identity = ident, d_origin = origin, d_name = name, d_series = series,
                          d_position = JNull, d_delivered = False\<rparr>))
      | Inr None \<Rightarrow> Inr None
      | Inr (Some (series, p)) \<Rightarrow>
          Inr (Some \<lparr>d_identity = ident, d_origin = origin, d_name = name, d_series = series,
                     d_position = JInt (int p), d_delivered = False\<rparr>))"

text \<open>The integer a position equals; Python compares \<open>1\<close>, \<open>1.0\<close> and \<open>True\<close> as equal.\<close>

fun number_of :: "json \<Rightarrow> int option" where
  "number_of (JInt n) = Some n"
| "number_of (JBool b) = Some (if b then 1 else 0)"
| "number_of (JFloat r i) = i"
| "number_of _ = None"

definition sequence_conflict :: "series_member list \<Rightarrow> bool" where
  "sequence_conflict peers =
     (list_ex (\<lambda>m. d_position m = JNull) peers \<or> \<not> distinct (map (number_of \<circ> d_position) peers))"

subsection \<open>Observations\<close>

text \<open>An owner record of the plan-identity store, and one finished run's directory entry.\<close>

record owner_record =
  o_identity :: string
  o_current :: "string option"
  o_owned :: "string list"

datatype run_entry = Run_Symlink | Run_Other | Run_Directory json_file

datatype run_history = History_Symlink | History_Absent | History "run_entry list"

datatype plan_entry = Plan_Unsafe string | Plan_File string "string option"

datatype plan_dir = Plan_Dir_Symlink | Plan_Dir_Absent | Plan_Dir_Invalid | Plan_Dir "plan_entry list"

datatype save_result = Save_Ok | Directory_Unsafe | Temporary_Fails | Write_Fails | Sync_Fails

record dep_env =
  x_root :: string
  x_sha :: "string \<Rightarrow> string"
  x_project :: "string \<Rightarrow> worktree"
  x_plans_symlink :: "string \<Rightarrow> bool"
  x_plan_dir :: "string \<Rightarrow> string \<Rightarrow> plan_dir"    \<comment> \<open>checkout and location\<close>
  x_owners :: "string \<Rightarrow> owner_record list option"
  x_identity :: "string \<Rightarrow> string \<Rightarrow> string option"    \<comment> \<open>checkout and plan path\<close>
  x_runs :: "string \<Rightarrow> run_history"
  x_save :: save_result

definition DIRECTORIES :: "string list" where
  "DIRECTORIES = [''todo'', ''in-progress'', ''done'', ''failed'', ''needs-plan-change'']"

definition MAX_STATE :: nat where
  "MAX_STATE = 4 * 1024 * 1024"

definition MAX_RECEIPT :: nat where
  "MAX_RECEIPT = 4 * 1024 * 1024"

definition regular_json :: "json_file \<Rightarrow> nat \<Rightarrow> dep_error + json option" where
  "regular_json f limit = (case f of
       No_File \<Rightarrow> Inr None
     | Stat_Fails \<Rightarrow> Inl (Dep_Error ''dependency evidence is unavailable'')
     | Irregular \<Rightarrow> Inl (Dep_Error ''dependency evidence is unsafe'')
     | Regular sz content \<Rightarrow>
         if sz > limit then Inl (Dep_Error ''dependency evidence is unsafe'')
         else (case content of
                 None \<Rightarrow> Inl (Dep_Error ''dependency evidence is malformed'')
               | Some (n, c) \<Rightarrow>
                   if n > limit then Inl (Dep_Error ''dependency evidence is too large'')
                   else (case c of
                           Undecodable \<Rightarrow> Inl (Dep_Error ''dependency evidence is malformed'')
                         | Json v \<Rightarrow> Inr (Some v))))"

subsection \<open>The inventory\<close>

type_synonym members = "(string \<times> series_member) list"

definition inventory_malformed :: "dep_error" where
  "inventory_malformed = Dep_Error ''dependency inventory is malformed''"

text \<open>\<^verbatim>\<open>Path(name).name == name\<close>\<close>

definition plain_name :: "string \<Rightarrow> bool" where
  "plain_name s = (CHR ''/'' \<notin> set s \<and> s \<noteq> ''.'')"

definition member_key :: "string \<Rightarrow> string \<Rightarrow> string" where
  "member_key ident name = ident @ '':'' @ name"

definition same_position :: "json \<Rightarrow> json \<Rightarrow> bool" where
  "same_position v w = (if w = JNull then v = JNull else number_of v \<noteq> None \<and> number_of v = number_of w)"

definition load_item :: "dep_env \<Rightarrow> json \<Rightarrow> dep_error + series_member" where
  "load_item env item =
     (let d = obj_of item;
          keys = set (map fst d);
          origin = dget_or d ''origin'' (JStr (x_sha env (x_root env)));
          base = {''identity'', ''name'', ''series'', ''position'', ''delivered''} in
      guard_r (is_obj item \<and> (keys = base \<or> keys = insert ''origin'' base)) inventory_malformed
      (guard_r (hex_of_length 32 (dget d ''identity'') \<and> hex_of_length 64 origin \<and>
                is_str (dget d ''name'') \<and> plain_name (str_of (dget d ''name'')) \<and>
                length (str_of (dget d ''name'')) \<le> 203) inventory_malformed
      (rbind (series_member_of (str_of (dget d ''name'')) (str_of (dget d ''identity'')) (str_of origin))
        (\<lambda>expected. case expected of
           None \<Rightarrow> Inl inventory_malformed
         | Some m \<Rightarrow>
             guard_r (dget d ''series'' = JStr (d_series m) \<and>
                      same_position (dget d ''position'') (d_position m)) inventory_malformed
             (guard_r (is_bool (dget d ''delivered'')) inventory_malformed
             (Inr (m\<lparr>d_position := dget d ''position'',
                     d_delivered := (dget d ''delivered'' = JBool True)\<rparr>)))))))"

fun load_items :: "dep_env \<Rightarrow> members \<Rightarrow> json list \<Rightarrow> dep_error + members" where
  "load_items env acc [] = Inr acc"
| "load_items env acc (item # items) =
     rbind (load_item env item) (\<lambda>m.
     guard_r (map_of acc (member_key (d_identity m) (d_name m)) = None)
       (Dep_Error ''dependency inventory has duplicate members'')
     (load_items env (acc @ [(member_key (d_identity m) (d_name m), m)]) items))"

fun list_of :: "json \<Rightarrow> json list" where
  "list_of (JList xs) = xs"
| "list_of _ = []"

fun is_list :: "json \<Rightarrow> bool" where
  "is_list (JList xs) = True"
| "is_list _ = False"

definition load_members :: "dep_env \<Rightarrow> json_file \<Rightarrow> dep_error + members" where
  "load_members env f =
     rbind (regular_json f MAX_STATE) (\<lambda>payload. case payload of
       None \<Rightarrow> Inr []
     | Some v \<Rightarrow>
         guard_r (is_obj v \<and> equals_int (dget (obj_of v) ''schema'') 1 \<and>
                  is_list (dget (obj_of v) ''members'')) inventory_malformed
         (load_items env [] (list_of (dget (obj_of v) ''members''))))"

definition member_json :: "series_member \<Rightarrow> json" where
  "member_json m =
     JObj [(''identity'', JStr (d_identity m)), (''origin'', JStr (d_origin m)),
           (''name'', JStr (d_name m)), (''series'', JStr (d_series m)),
           (''position'', d_position m), (''delivered'', JBool (d_delivered m))]"

definition inventory_payload :: "members \<Rightarrow> json" where
  "inventory_payload ms =
     JObj [(''schema'', JInt 1),
           (''members'', JList (map member_json
              (sort_key (\<lambda>m. [d_series m, d_name m, d_identity m]) (map snd ms))))]"

text \<open>The length \<^verbatim>\<open>json.dumps\<close> gives with its default separators, a space after each.\<close>

fun spaced_size :: "json \<Rightarrow> nat" where
  "spaced_size (JList xs) = 2 + 2 * (length xs - 1) + sum_list (map spaced_size xs)"
| "spaced_size (JObj d) =
     2 + 2 * (length d - 1) + sum_list (map (\<lambda>kv. str_size (fst kv) + 2 + spaced_size (snd kv)) d)"
| "spaced_size v = json_size v"

text \<open>
  A save and the file it leaves. Only a failure after the replacement leaves the new file behind.
\<close>

definition save_members :: "dep_env \<Rightarrow> members \<Rightarrow> json_file \<Rightarrow> (dep_error + unit) \<times> json_file" where
  "save_members env ms f =
     (let payload = inventory_payload ms; n = spaced_size payload + 1 in
      if x_save env = Directory_Unsafe then (Inl (Dep_Error ''dependency directory is unsafe''), f)
      else if n > MAX_STATE then (Inl (Dep_Error ''dependency inventory is too large''), f)
      else if x_save env = Temporary_Fails \<or> x_save env = Write_Fails then (Inl Dep_Os_Error, f)
      else if x_save env = Sync_Fails then (Inl Dep_Os_Error, Regular n (Some (n, Json payload)))
      else (Inr (), Regular n (Some (n, Json payload))))"

subsection \<open>Discovery\<close>

definition add_member :: "string \<Rightarrow> string \<Rightarrow> string \<Rightarrow> members \<Rightarrow> dep_error + members" where
  "add_member name ident origin ms =
     (if map_of ms (member_key ident name) \<noteq> None then Inr ms
      else if list_ex (\<lambda>(k, m). d_name m = name \<and> d_origin m \<noteq> origin) ms then Inr ms
      else rbind (series_member_of name ident origin) (\<lambda>item. case item of
             None \<Rightarrow> Inr ms
           | Some m \<Rightarrow> Inr (ms @ [(member_key ident name, m)])))"

definition md_suffix :: "string \<Rightarrow> bool" where
  "md_suffix name = (ends_with name ''.md'' \<and> name \<noteq> ''.md'')"

fun discover_files :: "string \<Rightarrow> plan_entry list \<Rightarrow> members \<Rightarrow> dep_error + members" where
  "discover_files origin [] ms = Inr ms"
| "discover_files origin (Plan_Unsafe name # es) ms =
     (if \<not> md_suffix name then discover_files origin es ms
      else Inl (Dep_Error ''plan entry is unsafe''))"
| "discover_files origin (Plan_File name ident # es) ms =
     (if \<not> md_suffix name \<or> \<not> contains ''_P'' name then discover_files origin es ms
      else case ident of
             None \<Rightarrow> Inl (Dep_Error ''plan identity is unavailable'')
           | Some i \<Rightarrow> rbind (add_member name i origin ms) (discover_files origin es))"

fun discover_locations :: "dep_env \<Rightarrow> string \<Rightarrow> string list \<Rightarrow> members \<Rightarrow> dep_error + members" where
  "discover_locations env root [] ms = Inr ms"
| "discover_locations env root (l # ls) ms =
     (case x_plan_dir env root l of
        Plan_Dir_Symlink \<Rightarrow> Inl (Dep_Error ''plan directory is unsafe'')
      | Plan_Dir_Absent \<Rightarrow> discover_locations env root ls ms
      | Plan_Dir_Invalid \<Rightarrow> Inl (Dep_Error ''plan directory is invalid'')
      | Plan_Dir es \<Rightarrow>
          rbind (discover_files (x_sha env root) es ms) (discover_locations env root ls))"

text \<open>The components of a path, and a path below a checkout.\<close>

definition path_parts :: "string \<Rightarrow> string list" where
  "path_parts p = filter (\<lambda>x. x \<noteq> [] \<and> x \<noteq> ''.'') (split_on (CHR ''/'') p)"

definition parts_below :: "string \<Rightarrow> string \<Rightarrow> string list option" where
  "parts_below root p =
     (if starts_with p ''/'' \<and> take (length (path_parts root)) (path_parts p) = path_parts root
      then Some (drop (length (path_parts root)) (path_parts p)) else None)"

text \<open>The name of a plan directly in one of the given locations of a checkout.\<close>

definition plan_in :: "string list \<Rightarrow> string list \<Rightarrow> string option" where
  "plan_in locations parts =
     (case parts of [a, l, name] \<Rightarrow> if a = ''plans'' \<and> l \<in> set locations then Some name else None
      | _ \<Rightarrow> None)"

definition owned_plan :: "string \<Rightarrow> string \<Rightarrow> string option" where
  "owned_plan root p = (case parts_below root p of
       None \<Rightarrow> None
     | Some parts \<Rightarrow>
         (case plan_in DIRECTORIES parts of
            None \<Rightarrow> None
          | Some name \<Rightarrow> if contains ''_P'' name then Some name else None))"

fun discover_owned :: "string \<Rightarrow> string \<Rightarrow> string \<Rightarrow> string list \<Rightarrow> members \<Rightarrow> dep_error + members" where
  "discover_owned root origin ident [] ms = Inr ms"
| "discover_owned root origin ident (p # ps) ms =
     (case owned_plan root p of
        None \<Rightarrow> discover_owned root origin ident ps ms
      | Some name \<Rightarrow> rbind (add_member name ident origin ms) (discover_owned root origin ident ps))"

fun discover_owners :: "string \<Rightarrow> string \<Rightarrow> owner_record list \<Rightarrow> members \<Rightarrow> dep_error + members" where
  "discover_owners root origin [] ms = Inr ms"
| "discover_owners root origin (r # rs) ms =
     rbind (discover_owned root origin (o_identity r) (o_owned r) ms) (discover_owners root origin rs)"

fun discover :: "dep_env \<Rightarrow> string list \<Rightarrow> members \<Rightarrow> dep_error + members" where
  "discover env [] ms = Inr ms"
| "discover env (root # roots) ms =
     guard_r (\<not> x_plans_symlink env root) (Dep_Error ''plan directory is unsafe'')
     (rbind (discover_locations env root DIRECTORIES ms) (\<lambda>ms.
      case x_owners env root of
        None \<Rightarrow> Inl (Dep_Error ''plan identity history is unavailable'')
      | Some rs \<Rightarrow> rbind (discover_owners root (x_sha env root) rs ms) (discover env roots)))"

subsection \<open>Delivery\<close>

text \<open>\<^verbatim>\<open>^[0-9a-f]{40,64}$\<close>\<close>

definition sha_ok :: "json \<Rightarrow> bool" where
  "sha_ok v = (is_str v \<and> 40 \<le> length (str_of v) \<and> length (str_of v) \<le> 64 \<and> list_all is_hex (str_of v))"

definition valid_published_receipt :: "dict \<Rightarrow> bool" where
  "valid_published_receipt d =
     (dget d ''status'' = JStr ''published'' \<and> sha_ok (dget d ''commit'') \<and>
      sha_ok (dget d ''source_commit'') \<and>
      is_str (dget d ''remote'') \<and> str_of (dget d ''remote'') \<noteq> [] \<and>
      is_str (dget d ''branch'') \<and> str_of (dget d ''branch'') \<noteq> [])"

definition delivers :: "string \<Rightarrow> json \<Rightarrow> bool" where
  "delivers name v =
     (is_obj v \<and> valid_published_receipt (obj_of v) \<and>
      is_obj (dget (obj_of v) ''plan_lifecycle'') \<and>
      (let l = obj_of (dget (obj_of v) ''plan_lifecycle'') in
       dget l ''phase'' = JStr ''committed'' \<and> dget l ''complete'' = JBool True \<and>
       dget l ''source'' = JStr (''plans/in-progress/'' @ name) \<and>
       dget l ''destination'' = JStr (''plans/done/'' @ name)))"

fun delivered_in :: "string \<Rightarrow> run_entry list \<Rightarrow> dep_error + bool" where
  "delivered_in name [] = Inr False"
| "delivered_in name (Run_Symlink # es) = Inl (Dep_Error ''run history is unsafe'')"
| "delivered_in name (Run_Other # es) = delivered_in name es"
| "delivered_in name (Run_Directory f # es) =
     rbind (regular_json f MAX_RECEIPT) (\<lambda>r.
     if (case r of None \<Rightarrow> False | Some v \<Rightarrow> delivers name v) then Inr True else delivered_in name es)"

definition delivered :: "dep_env \<Rightarrow> string \<Rightarrow> string \<Rightarrow> dep_error + bool" where
  "delivered env name root = (case x_runs env root of
       History_Symlink \<Rightarrow> Inl (Dep_Error ''run history is unsafe'')
     | History_Absent \<Rightarrow> Inr False
     | History es \<Rightarrow> delivered_in name es)"

definition plan_path_in :: "string \<Rightarrow> string \<Rightarrow> string \<Rightarrow> string" where
  "plan_path_in root location name = root @ ''/plans/'' @ location @ ''/'' @ name"

definition done_owner :: "dep_env \<Rightarrow> string \<Rightarrow> string \<Rightarrow> string \<Rightarrow> string \<Rightarrow> owner_record \<Rightarrow> bool" where
  "done_owner env ident name origin root r =
     (let finished = plan_path_in root ''done'' name in
      finished \<in> set (o_owned r) \<and> (o_current r = None \<or> o_current r = Some finished) \<and>
      (if x_sha env root = origin then o_identity r = ident
       else plan_path_in root ''in-progress'' name \<in> set (o_owned r)))"

fun any_dep :: "('a \<Rightarrow> dep_error + bool) \<Rightarrow> 'a list \<Rightarrow> dep_error + bool" where
  "any_dep p [] = Inr False"
| "any_dep p (x # xs) = rbind (p x) (\<lambda>b. if b then Inr True else any_dep p xs)"

definition identity_has_done_owner ::
  "dep_env \<Rightarrow> string \<Rightarrow> string \<Rightarrow> string \<Rightarrow> string list \<Rightarrow> dep_error + bool" where
  "identity_has_done_owner env ident name origin roots =
     any_dep (\<lambda>root. case x_owners env root of
         None \<Rightarrow> Inl (Dep_Error ''plan identity history is unavailable'')
       | Some rs \<Rightarrow> Inr (list_ex (done_owner env ident name origin root) rs)) roots"

definition member_delivered :: "dep_env \<Rightarrow> series_member \<Rightarrow> string list \<Rightarrow> dep_error + bool" where
  "member_delivered env m roots =
     rbind (identity_has_done_owner env (d_identity m) (d_name m) (d_origin m) roots) (\<lambda>b.
     if b then any_dep (delivered env (d_name m)) roots else Inr False)"

subsection \<open>The check before a launch\<close>

definition project_is :: "dep_env \<Rightarrow> string \<Rightarrow> bool" where
  "project_is env root = (x_project env root = Identity (x_root env) root)"

fun verify_roots :: "dep_env \<Rightarrow> string list \<Rightarrow> string list \<Rightarrow> dep_error + string list" where
  "verify_roots env acc [] = Inr acc"
| "verify_roots env acc (root # roots) =
     (if x_project env root = Identity_Fails \<or> x_project env root = Not_A_Checkout
      then Inl (Dep_Error ''dependency evidence root is not verified'')
      else guard_r (starts_with root ''/'' \<and> project_is env root)
             (Dep_Error ''dependency evidence belongs to another project'')
           (verify_roots env (if root \<in> set acc then acc else acc @ [root]) roots))"

fun refresh :: "dep_env \<Rightarrow> string \<Rightarrow> string list \<Rightarrow> members \<Rightarrow> dep_error + members" where
  "refresh env series roots [] = Inr []"
| "refresh env series roots ((k, m) # ms) =
     (if d_series m \<noteq> series
      then rbind (refresh env series roots ms) (\<lambda>ms. Inr ((k, m) # ms))
      else rbind (member_delivered env m roots) (\<lambda>b.
           rbind (refresh env series roots ms) (\<lambda>ms. Inr ((k, m\<lparr>d_delivered := b\<rparr>) # ms))))"

text \<open>\<^verbatim>\<open>isinstance(position, int) and position < n\<close>: a boolean is an integer, a float is not.\<close>

fun integer_below :: "json \<Rightarrow> nat \<Rightarrow> bool" where
  "integer_below (JInt i) n = (i < int n)"
| "integer_below (JBool b) n = ((if b then 1 else 0) < int n)"
| "integer_below _ n = False"

definition sequenced_plan :: "string \<Rightarrow> string option" where
  "sequenced_plan plan_key = plan_in [''todo'', ''in-progress''] (path_parts plan_key)"

definition discovery_roots :: "dep_env \<Rightarrow> string option \<Rightarrow> dep_error + string list" where
  "discovery_roots env checkout = (case checkout of
       None \<Rightarrow> Inr [x_root env]
     | Some c \<Rightarrow>
         if x_project env c = Identity_Fails \<or> x_project env c = Not_A_Checkout
         then Inl (Dep_Error ''dependency checkout is not verified'')
         else guard_r (starts_with c ''/'' \<and> project_is env c)
                (Dep_Error ''dependency checkout belongs to another project'')
              (Inr (if c \<noteq> x_root env then [x_root env, c] else [x_root env])))"

definition blocked_by :: "string \<Rightarrow> nat \<Rightarrow> members \<Rightarrow> dep_error option" where
  "blocked_by series p ms =
     (let peers = filter (\<lambda>m. d_series m = series) (map snd ms) in
      if sequence_conflict peers then Some (Dep_Blocked ''plan sequence needs correction'')
      else if list_ex (\<lambda>m. integer_below (d_position m) p \<and> \<not> d_delivered m) peers
      then Some (Dep_Blocked ''a known predecessor has not been delivered'')
      else None)"

definition check_series ::
  "dep_env \<Rightarrow> string \<Rightarrow> nat \<Rightarrow> string list \<Rightarrow> string list \<Rightarrow> json_file \<Rightarrow> (dep_error + unit) \<times> json_file"
where
  "check_series env series p discovered verified f =
     (case rbind (load_members env f) (\<lambda>ms0.
           rbind (discover env discovered ms0) (\<lambda>ms1.
           rbind (refresh env series verified ms1) (\<lambda>ms. Inr (ms0, ms)))) of
        Inl e \<Rightarrow> (Inl e, f)
      | Inr (ms0, ms) \<Rightarrow>
          (case (if ms \<noteq> ms0 then save_members env ms f else (Inr (), f)) of
             (Inl e, f') \<Rightarrow> (Inl e, f')
           | (Inr _, f') \<Rightarrow>
               (case blocked_by series p ms of Some e \<Rightarrow> (Inl e, f') | None \<Rightarrow> (Inr (), f'))))"

definition require_ready ::
  "dep_env \<Rightarrow> string \<Rightarrow> string option \<Rightarrow> string list option \<Rightarrow> json_file \<Rightarrow> (dep_error + unit) \<times> json_file"
where
  "require_ready env plan_key checkout roots f =
     (case sequenced_plan plan_key of
        None \<Rightarrow> (Inr (), f)
      | Some name \<Rightarrow>
          (case parse_sequence_name name of
             Inl m \<Rightarrow> (Inl (Dep_Blocked m), f)
           | Inr None \<Rightarrow> (Inr (), f)
           | Inr (Some (series, p)) \<Rightarrow>
               (case rbind (discovery_roots env checkout) (\<lambda>discovered.
                     rbind (verify_roots env [] (case roots of Some (r # rs) \<Rightarrow> r # rs | _ \<Rightarrow> discovered))
                       (\<lambda>verified.
                     guard_r (list_all (\<lambda>r. r \<in> set verified) discovered)
                       (Dep_Error ''dependency checkout is absent from verified roots'')
                     (Inr (discovered, verified)))) of
                  Inl e \<Rightarrow> (Inl e, f)
                | Inr (discovered, verified) \<Rightarrow> check_series env series p discovered verified f)))"

subsection \<open>Read-only projections\<close>

fun foreign_root :: "dep_env \<Rightarrow> string list \<Rightarrow> dep_error + unit" where
  "foreign_root env [] = Inr ()"
| "foreign_root env (root # roots) =
     (if x_project env root = Identity_Fails \<or> x_project env root = Not_A_Checkout
      then Inl Dep_Settings_Error
      else guard_r (project_is env root) (Dep_Error ''dependency evidence belongs to another project'')
           (foreign_root env roots))"

fun first_undelivered ::
  "dep_env \<Rightarrow> nat \<Rightarrow> string list \<Rightarrow> series_member list \<Rightarrow> dep_error + string option" where
  "first_undelivered env p roots [] = Inr None"
| "first_undelivered env p roots (m # ms) =
     (if int p \<le> the (number_of (d_position m)) then first_undelivered env p roots ms
      else rbind (member_delivered env m roots) (\<lambda>b.
           if b then first_undelivered env p roots ms else Inr (Some (d_name m))))"

definition blocking_predecessor ::
  "dep_env \<Rightarrow> string \<Rightarrow> string list option \<Rightarrow> json_file \<Rightarrow> dep_error + string option" where
  "blocking_predecessor env plan_key roots f =
     (case parse_sequence_name (case path_parts plan_key of [] \<Rightarrow> [] | ps \<Rightarrow> last ps) of
        Inl m \<Rightarrow> Inl (Dep_Error m)
      | Inr None \<Rightarrow> Inr None
      | Inr (Some (series, p)) \<Rightarrow>
          (let roots = (case roots of Some (r # rs) \<Rightarrow> r # rs | _ \<Rightarrow> [x_root env]) in
           rbind (foreign_root env roots) (\<lambda>_.
           rbind (load_members env f) (\<lambda>ms.
           (let peers = filter (\<lambda>m. d_series m = series) (map snd ms) in
            if sequence_conflict peers then Inr (Some ''sequence_conflict'')
            else first_undelivered env p roots
                   (sort_key (\<lambda>m. the (number_of (d_position m))) peers))))))"

fun members_of_names :: "string list \<Rightarrow> dep_error + series_member list" where
  "members_of_names [] = Inr []"
| "members_of_names (n # ns) =
     rbind (series_member_of n [] []) (\<lambda>m.
     rbind (members_of_names ns) (\<lambda>ms. Inr (case m of None \<Rightarrow> ms | Some m \<Rightarrow> m # ms)))"

definition observed_sequence_conflict :: "string \<Rightarrow> string list \<Rightarrow> dep_error + bool" where
  "observed_sequence_conflict plan_name names =
     (case parse_sequence_name plan_name of
        Inl m \<Rightarrow> Inl (Dep_Error m)
      | Inr None \<Rightarrow> Inr False
      | Inr (Some (series, p)) \<Rightarrow>
          rbind (members_of_names names) (\<lambda>ms.
          Inr (sequence_conflict (filter (\<lambda>m. d_series m = series) ms))))"

definition observed_done_delivered ::
  "dep_env \<Rightarrow> string \<Rightarrow> string \<Rightarrow> string list \<Rightarrow> dep_error + bool" where
  "observed_done_delivered env name checkout roots =
     guard_r (checkout \<in> set roots) (Dep_Error ''dependency checkout is absent from verified roots'')
     (rbind (foreign_root env roots) (\<lambda>_.
      case x_identity env checkout (plan_path_in checkout ''done'' name) of
        None \<Rightarrow> Inr False
      | Some ident \<Rightarrow>
          member_delivered env
            \<lparr>d_identity = ident, d_origin = x_sha env checkout, d_name = name, d_series = [],
             d_position = JNull, d_delivered = False\<rparr> roots))"

end
