(* ===== verification/Project_Admission.thy ===== *)
theory Project_Admission
  imports Plan_Dependencies
begin

text \<open>
  The operations of \<^verbatim>\<open>ProjectAdmission\<close> (\<^verbatim>\<open>aflow/project_admission.py\<close>). An operation is one locked
  section: it reads the journal, reconciles it with the evidence, and writes it back. The state it
  works on is what it leaves on disk, the journal and the dependency inventory; what happens to its
  writes is a list of outcomes it consumes.
\<close>

subsection \<open>Environment and state\<close>

record settings =
  g_auto :: bool
  g_limit :: int

datatype adm_lock = Lock_Held | Admission_Directory_Unsafe string | Lock_Unavailable
  | Lock_Irregular | Flock_Fails

datatype resolution = Unresolvable | Resolved string bool    \<comment> \<open>the path, and whether it is a file\<close>

record file_stat =
  f_regular :: bool
  f_links :: nat
  f_identity :: "int list"      \<comment> \<open>device, inode, size, and both times in nanoseconds\<close>
  f_size :: nat

datatype plan_read = Plan_Open_Fails | Plan_Opened file_stat string file_stat "file_stat option"

record adm_env = evidence_env +
  a_lock :: adm_lock
  a_now :: string
  a_nonce :: string
  a_pid :: int
  a_birth :: "int \<Rightarrow> string option"
  a_liveness :: "int \<Rightarrow> string"
  a_settings :: "settings option"
  a_resolve :: "bool \<Rightarrow> string \<Rightarrow> resolution"
  a_plan :: "string \<Rightarrow> plan_read"
  a_sha :: "string \<Rightarrow> string"                \<comment> \<open>the hexadecimal SHA-256 digest of a text\<close>
  a_identity :: "string \<Rightarrow> string \<Rightarrow> string option"
  a_deps :: dep_env

record adm_store =
  st_journal :: json_file
  st_inventory :: json_file
  st_saves :: "save_result list"

type_synonym 'a adm = "(adm_error + 'a) \<times> adm_store"

definition abind :: "'a adm \<Rightarrow> ('a \<Rightarrow> adm_store \<Rightarrow> 'b adm) \<Rightarrow> 'b adm" where
  "abind m f = (case m of (Inl e, s) \<Rightarrow> (Inl e, s) | (Inr x, s) \<Rightarrow> f x s)"

lemma abind_simps [simp]:
  "abind (Inl e, s) f = (Inl e, s)"
  "abind (Inr x, s) f = f x s"
  by (simp_all add: abind_def)

definition MAX_ADMISSION_STATE_BYTES :: nat where
  "MAX_ADMISSION_STATE_BYTES = 4 * 1024 * 1024"

definition MAX_RESERVATIONS :: nat where
  "MAX_RESERVATIONS = 4096"

definition settings_error :: adm_error where
  "settings_error = Safety_Error ''project admission settings are unavailable or invalid''"

definition read_settings :: "adm_env \<Rightarrow> adm_error + settings" where
  "read_settings env = (case a_settings env of None \<Rightarrow> Inl settings_error | Some g \<Rightarrow> Inr g)"

definition locked :: "adm_env \<Rightarrow> (adm_store \<Rightarrow> 'a adm) \<Rightarrow> adm_store \<Rightarrow> 'a adm" where
  "locked env body s = (case a_lock env of
       Lock_Held \<Rightarrow> body s
     | Admission_Directory_Unsafe m \<Rightarrow> (Inl (Safety_Error m), s)
     | Lock_Unavailable \<Rightarrow> (Inl (Safety_Error ''project admission lock is unavailable''), s)
     | Lock_Irregular \<Rightarrow> (Inl (Safety_Error ''project admission lock must be a regular file''), s)
     | Flock_Fails \<Rightarrow> (Inl Os_Error, s))"

subsection \<open>The journal file\<close>

definition read_json_file :: "json_file \<Rightarrow> adm_error + dict option" where
  "read_json_file f = (case f of
       No_File \<Rightarrow> Inr None
     | Stat_Fails \<Rightarrow> Inl (Safety_Error ''project admission state is unavailable'')
     | Irregular \<Rightarrow> Inl (Safety_Error ''project admission state must be a regular file'')
     | Regular sz content \<Rightarrow>
         if sz > MAX_ADMISSION_STATE_BYTES
         then Inl (Safety_Error ''project admission state exceeds the size limit'')
         else (case content of
                 None \<Rightarrow> Inl (Safety_Error ''project admission state is unreadable'')
               | Some (n, c) \<Rightarrow>
                   if n > MAX_ADMISSION_STATE_BYTES
                   then Inl (Safety_Error ''project admission state exceeds the size limit'')
                   else (case c of
                           Undecodable \<Rightarrow> Inl (Safety_Error ''project admission state is malformed'')
                         | Json v \<Rightarrow>
                             if is_obj v then Inr (Some (obj_of v))
                             else Inl (Safety_Error ''project admission state must be an object''))))"

definition written :: "string \<Rightarrow> reservations \<Rightarrow> json_file" where
  "written root rs =
     (let payload = state_payload root rs; n = json_size payload + 1 in Regular n (Some (n, Json payload)))"

definition journal_full :: adm_error where
  "journal_full = Safety_Error ''project admission reservation history is full''"

text \<open>
  A save. The temporary file is made outside the \<open>try\<close>; a failure of the directory sync comes after
  the replacement.
\<close>

definition save_locked :: "adm_env \<Rightarrow> reservations \<Rightarrow> adm_store \<Rightarrow> unit adm" where
  "save_locked env rs s =
     (if length rs > MAX_RESERVATIONS then (Inl journal_full, s)
      else let outcome = (case st_saves s of [] \<Rightarrow> Save_Ok | r # _ \<Rightarrow> r);
               s' = s\<lparr>st_saves := tl (st_saves s)\<rparr> in
           case outcome of
             Directory_Unsafe \<Rightarrow> (Inl (Safety_Error ''project admission state must not be a symlink''), s')
           | Temporary_Fails \<Rightarrow> (Inl Os_Error, s')
           | Write_Fails \<Rightarrow> (Inl (Safety_Error ''project admission state write failed''), s')
           | Sync_Fails \<Rightarrow> (Inl (Safety_Error ''project admission state write failed''),
                            s'\<lparr>st_journal := written (e_root env) rs\<rparr>)
           | Save_Ok \<Rightarrow> (Inr (), s'\<lparr>st_journal := written (e_root env) rs\<rparr>))"

definition compact_released ::
  "reservations \<Rightarrow> string list \<Rightarrow> nat \<Rightarrow> adm_error + reservations" where
  "compact_released rs preserve reserve_slots =
     (if reserve_slots \<noteq> 0 \<and> reserve_slots \<noteq> 1
      then Inl (Safety_Error ''invalid admission compaction request'')
      else let target = MAX_RESERVATIONS - reserve_slots in
           if length rs \<le> target then Inr rs
           else let retained = filter (\<lambda>(k, r). r_state r \<noteq> Released \<or> r_retained r \<or> k \<in> set preserve) rs in
                if length retained > target then Inl journal_full else Inr retained)"

definition load_locked :: "adm_env \<Rightarrow> string list \<Rightarrow> adm_store \<Rightarrow> reservations adm" where
  "load_locked env preserve s =
     (case rbind (read_json_file (st_journal s)) (decode_state (e_root env)) of
        Inl e \<Rightarrow> (Inl e, s)
      | Inr rs \<Rightarrow>
          (case compact_released rs preserve 0 of
             Inl e \<Rightarrow> (Inl e, s)
           | Inr compacted \<Rightarrow>
               if compacted \<noteq> rs
               then abind (save_locked env compacted s) (\<lambda>_ s. (Inr compacted, s))
               else (Inr compacted, s)))"

definition require_nonce :: "reservations \<Rightarrow> string \<Rightarrow> string \<Rightarrow> adm_error + reservation" where
  "require_nonce rs run_id nonce = (case map_of rs run_id of
       None \<Rightarrow> Inl (Conflict ''admission reservation does not exist'')
     | Some r \<Rightarrow>
         if r_nonce r \<noteq> nonce then Inl (Conflict ''admission reservation nonce does not match'')
         else Inr r)"

text \<open>A pure step inside a locked section: its error ends the operation.\<close>

definition lift :: "adm_error + 'a \<Rightarrow> adm_store \<Rightarrow> 'a adm" where
  "lift r s = (r, s)"

lemma lift_simps [simp]: "abind (lift (Inl e) s) f = (Inl e, s)" "abind (lift (Inr x) s) f = f x s"
  by (simp_all add: lift_def)

subsection \<open>Reconciliation\<close>

definition BIRTH_IDENTITY_PREFIXES :: "string list" where
  "BIRTH_IDENTITY_PREFIXES = [''linux-start-ticks:'', ''ps-lstart:'']"

definition birth_identity_scheme :: "string \<Rightarrow> string option" where
  "birth_identity_scheme ident = find (starts_with ident) BIRTH_IDENTITY_PREFIXES"

definition unbound_owner_is_definitely_inactive :: "adm_env \<Rightarrow> reservation \<Rightarrow> bool" where
  "unbound_owner_is_definitely_inactive env r = (case r_owner_pid r of
       None \<Rightarrow> False
     | Some pid \<Rightarrow>
         (case (a_birth env pid, r_owner_birth r) of
            (Some observed, Some stored) \<Rightarrow>
              if birth_identity_scheme observed \<noteq> None \<and>
                 birth_identity_scheme observed = birth_identity_scheme stored
              then observed \<noteq> stored
              else a_liveness env pid = ''absent''
          | _ \<Rightarrow> a_liveness env pid = ''absent''))"

text \<open>The reservation state a charged evidence stands for.\<close>

definition charged_state :: "ev_state \<Rightarrow> res_state option" where
  "charged_state s = (case s of Ev_Reserved \<Rightarrow> Some Reserved | Ev_Starting \<Rightarrow> Some Starting
     | Ev_Active \<Rightarrow> Some Active | Ev_Uncertain \<Rightarrow> Some Uncertain | _ \<Rightarrow> None)"

definition reconcile_one :: "adm_env \<Rightarrow> run_evidence \<Rightarrow> reservation \<Rightarrow> reservation" where
  "reconcile_one env ev r =
     (if ev_state ev = Ev_Inactive
      then (if r_state r = Reserved \<and> ev_retained ev \<and> r_retained r \<and>
               \<not> unbound_owner_is_definitely_inactive env r \<and> r_owner_pid r \<noteq> None
            then r\<lparr>r_retained := True\<rparr>
            else r\<lparr>r_state := Released, r_retained := r_retained r \<or> ev_retained ev, r_updated := a_now env\<rparr>)
      else if ev_state ev = Ev_Absent \<and> \<not> r_bound r \<and> unbound_owner_is_definitely_inactive env r
      then r\<lparr>r_state := Released, r_updated := a_now env\<rparr>
      else (let target = (case charged_state (ev_state ev) of
                            Some t \<Rightarrow> t
                          | None \<Rightarrow> if r_state r = Reserved then Reserved else Uncertain)
            in r\<lparr>r_state := target,
                 r_updated := (if target = r_state r then r_updated r else a_now env)\<rparr>))"

definition reconcile_entry :: "adm_env \<Rightarrow> evidence_map \<Rightarrow> string \<times> reservation \<Rightarrow> string \<times> reservation" where
  "reconcile_entry env m kr =
     (if r_state (snd kr) = Released then kr
      else (fst kr, reconcile_one env (evidence_or (evidence Ev_Absent) m (fst kr)) (snd kr)))"

abbreviation env_evidence :: "adm_env \<Rightarrow> adm_error + evidence_map" where
  "env_evidence env \<equiv> all_run_evidence (evidence_env.truncate env)"

definition reconcile_locked :: "adm_env \<Rightarrow> reservations \<Rightarrow> adm_store \<Rightarrow> reservations adm" where
  "reconcile_locked env rs s =
     (if list_ex (\<lambda>(k, r). r_state r \<noteq> Released) rs
      then abind (lift (env_evidence env) s) (\<lambda>m s.
           (let rs' = map (reconcile_entry env m) rs in
            if rs' \<noteq> rs then abind (save_locked env rs' s) (\<lambda>_ s. (Inr rs', s)) else (Inr rs', s)))
      else (Inr rs, s))"

subsection \<open>Capacity\<close>

record snapshot =
  n_limit :: int
  n_reserved :: nat
  n_starting :: nat
  n_active :: nat
  n_uncertain :: nat
  n_unmanaged :: "string list"
  n_retained :: "string list"

definition occupied_count :: "snapshot \<Rightarrow> nat" where
  "occupied_count n = n_reserved n + n_starting n + n_active n + n_uncertain n"

definition available_slots :: "snapshot \<Rightarrow> int" where
  "available_slots n = max 0 (n_limit n - int (occupied_count n))"

definition snapshot_to_dict :: "snapshot \<Rightarrow> dict" where
  "snapshot_to_dict n =
     [(''limit'', JInt (n_limit n)),
      (''reserved_count'', JInt (int (n_reserved n))),
      (''starting_count'', JInt (int (n_starting n))),
      (''active_count'', JInt (int (n_active n))),
      (''uncertain_count'', JInt (int (n_uncertain n))),
      (''occupied_count'', JInt (int (occupied_count n))),
      (''available_slots'', JInt (available_slots n)),
      (''unmanaged_run_ids'', JList (map JStr (n_unmanaged n))),
      (''claim_retained_run_ids'', JList (map JStr (n_retained n)))]"

definition count_state :: "res_state \<Rightarrow> string option \<Rightarrow> reservations \<Rightarrow> nat" where
  "count_state t excl rs = length (filter (\<lambda>(k, r). Some k \<noteq> excl \<and> r_state r = t) rs)"

definition occupied_run_ids :: "string option \<Rightarrow> reservations \<Rightarrow> string list" where
  "occupied_run_ids excl rs =
     map fst (filter (\<lambda>(k, r). live_state (r_state r) \<and> Some k \<noteq> excl) rs)"

definition unmanaged_ids :: "string option \<Rightarrow> reservations \<Rightarrow> evidence_map \<Rightarrow> string list" where
  "unmanaged_ids excl rs m =
     sort (remdups (map fst (filter (\<lambda>(k, ev). k \<notin> set (occupied_run_ids excl rs) \<and> Some k \<noteq> excl \<and>
                                              charged_state (ev_state ev) \<noteq> None) m)))"

definition count_unmanaged :: "res_state \<Rightarrow> evidence_map \<Rightarrow> string list \<Rightarrow> nat" where
  "count_unmanaged t m ids =
     length (filter (\<lambda>k. charged_state (ev_state (evidence_or (evidence Ev_Absent) m k)) = Some t) ids)"

definition snapshot_locked ::
  "adm_env \<Rightarrow> reservations \<Rightarrow> string option \<Rightarrow> (string \<times> run_evidence) option \<Rightarrow> adm_error + snapshot"
where
  "snapshot_locked env rs excl extra =
     rbind (env_evidence env) (\<lambda>m0.
     (let m = (case extra of None \<Rightarrow> m0 | Some (k, ev) \<Rightarrow> AList.update k ev m0);
          unmanaged = unmanaged_ids excl rs m;
          n = (\<lambda>t. count_state t excl rs + count_unmanaged t m unmanaged) in
      rbind (read_settings env) (\<lambda>g.
      Inr \<lparr>n_limit = g_limit g, n_reserved = n Reserved, n_starting = n Starting, n_active = n Active,
           n_uncertain = n Uncertain, n_unmanaged = unmanaged,
           n_retained = sort (remdups (map fst (filter (\<lambda>(k, r). r_retained r \<and> Some k \<noteq> excl) rs)))\<rparr>)))"

end
