(* ===== verification/Admission_Operations.thy ===== *)
theory Admission_Operations
  imports Project_Admission
begin

text \<open>
  Who owns what: the key of a plan, the successors of a run and the claims on a plan; then the public
  operations, each one locked section.
\<close>

subsection \<open>The key of a plan\<close>

abbreviation roots_of :: "adm_env \<Rightarrow> adm_error + string list" where
  "roots_of env \<equiv> repository_roots (evidence_env.truncate env)"

text \<open>The path below the first candidate that contains it.\<close>

fun first_below :: "string list \<Rightarrow> string \<Rightarrow> string option" where
  "first_below [] p = None"
| "first_below (root # roots) p =
     (case parts_below root p of
        Some parts \<Rightarrow> Some (if parts = [] then ''.'' else join_with ''/'' parts)
      | None \<Rightarrow> first_below roots p)"

definition plan_key :: "adm_env \<Rightarrow> string \<Rightarrow> bool \<Rightarrow> string list option \<Rightarrow> json \<Rightarrow> adm_error + string" where
  "plan_key env root require_file roots path =
     guard_r (is_str path \<and> starts_with (str_of path) ''/'') (Safety_Error ''admission plan path is invalid'')
     (case a_resolve env require_file (str_of path) of
        Unresolvable \<Rightarrow> Inl (Safety_Error ''admission plan is unavailable'')
      | Resolved p is_file \<Rightarrow>
          guard_r (require_file \<longrightarrow> is_file) (Safety_Error ''admission plan is not a file'')
          (rbind (case roots of Some (r # rs) \<Rightarrow> Inr (r # rs) | _ \<Rightarrow> roots_of env) (\<lambda>roots.
           (let key = (case first_below (root # roots) p of
                         Some k \<Rightarrow> k | None \<Rightarrow> ''@external/'' @ a_sha env p) in
            guard_r (key \<noteq> [] \<and> key \<noteq> ''.'' \<and> length key \<le> 4096)
              (Safety_Error ''admission plan identity is invalid'') (Inr key)))))"

subsection \<open>Successors of a run\<close>

fun startup_ids :: "(string \<times> entry) list \<Rightarrow> string list \<Rightarrow> string list option" where
  "startup_ids [] ids = Some ids"
| "startup_ids ((name, ent) # es) ids =
     (if \<not> ends_with name ''.json'' then startup_ids es ids
      else case validate_run_id (JStr (path_stem name)) of
             Inl _ \<Rightarrow> None
           | Inr r \<Rightarrow> startup_ids es (List.insert r ids))"

text \<open>
  The identities of a checkout with its startup records. Every failure is the same safety error of
  the caller, except a built-in exception.
\<close>

definition with_startups :: "string \<Rightarrow> root_view \<Rightarrow> adm_error + found" where
  "with_startups msg v =
     (case scan_repository_run_ids v of
        Inl (Raised x) \<Rightarrow> Inl (Py_Error x)
      | Inl _ \<Rightarrow> Inl (Safety_Error msg)
      | Inr (ids, legacy) \<Rightarrow>
          (case v_startups v of
             No_Directory \<Rightarrow> Inr (ids, legacy)
           | Listing es \<Rightarrow>
               (case startup_ids es ids of None \<Rightarrow> Inl (Safety_Error msg) | Some ids \<Rightarrow> Inr (ids, legacy))
           | _ \<Rightarrow> Inl (Safety_Error msg)))"

definition repo_read :: "string \<Rightarrow> repo_exn + 'a \<Rightarrow> adm_error + 'a" where
  "repo_read msg r = (case r of Inl (Raised x) \<Rightarrow> Inl (Py_Error x) | Inl _ \<Rightarrow> Inl (Safety_Error msg)
                       | Inr x \<Rightarrow> Inr x)"

text \<open>\<^verbatim>\<open>run.json\<close>, if there is one.\<close>

definition run_metadata :: "string \<Rightarrow> root_view \<Rightarrow> string \<Rightarrow> adm_error + dict option" where
  "run_metadata msg v run_id =
     rbind (repo_read msg (v_metadata v run_id)) (\<lambda>f. case f of
       None \<Rightarrow> Inr None | Some f \<Rightarrow> read_json_file f)"

definition lineage_unavailable :: string where
  "lineage_unavailable = ''successor lineage evidence is unavailable''"

definition optional_source :: "json \<Rightarrow> adm_error + string list" where
  "optional_source v =
     (if v = JNull then Inr [] else rbind (validate_source_provenance_id v) (\<lambda>s. Inr [s]))"

definition run_lineage :: "root_view \<Rightarrow> string list \<Rightarrow> string \<Rightarrow> adm_error + string list" where
  "run_lineage v legacy run_id =
     rbind (if run_id \<in> set legacy then Inr []
            else rbind (repo_read lineage_unavailable (v_manifest v run_id)) (\<lambda>mf.
                 rbind (repo_read lineage_unavailable (v_startup v run_id)) (\<lambda>startup.
                 rbind (optional_source (dget startup ''resumed_from_run_id'')) (\<lambda>resumed.
                 Inr ((case mf of
                         Some m \<Rightarrow> (case m_restarted m of Some s \<Rightarrow> if s \<noteq> [] then [s] else [] | None \<Rightarrow> [])
                       | None \<Rightarrow> []) @ resumed))))) (\<lambda>l1.
     rbind (run_metadata lineage_unavailable v run_id) (\<lambda>md.
     rbind (case md of None \<Rightarrow> Inr [] | Some d \<Rightarrow> optional_source (dget d ''resumed_from_run_id'')) (\<lambda>l2.
     Inr (l1 @ l2))))"

definition successor_conflict :: adm_error where
  "successor_conflict = Conflict ''resume predecessor already has an unresolved successor''"

fun successors_in_ids ::
  "root_view \<Rightarrow> string list \<Rightarrow> evidence_map \<Rightarrow> string \<Rightarrow> string \<Rightarrow> string list \<Rightarrow> adm_error + unit"
where
  "successors_in_ids v legacy m source requested [] = Inr ()"
| "successors_in_ids v legacy m source requested (r # rs) =
     (if r = requested then successors_in_ids v legacy m source requested rs
      else rbind (run_lineage v legacy r) (\<lambda>lineage.
           (let ev = evidence_or (evidence Ev_Uncertain) m r in
            guard_r (source \<in> set lineage \<longrightarrow> ev_state ev = Ev_Inactive \<and> \<not> ev_retained ev)
              successor_conflict (successors_in_ids v legacy m source requested rs))))"

fun successors_in_roots ::
  "adm_env \<Rightarrow> evidence_map \<Rightarrow> string \<Rightarrow> string \<Rightarrow> string list \<Rightarrow> adm_error + unit"
where
  "successors_in_roots env m source requested [] = Inr ()"
| "successors_in_roots env m source requested (root # roots) =
     rbind (with_startups lineage_unavailable (e_views env root)) (\<lambda>(ids, legacy).
     rbind (successors_in_ids (e_views env root) legacy m source requested ids) (\<lambda>_.
     successors_in_roots env m source requested roots))"

text \<open>A reservation that continues the source and is not done with.\<close>

definition unresolved_successor ::
  "evidence_map \<Rightarrow> string \<Rightarrow> string \<Rightarrow> string \<times> reservation \<Rightarrow> bool" where
  "unresolved_successor m source requested kr =
     (let k = fst kr; r = snd kr; ev = evidence_or (evidence Ev_Absent) m k in
      k \<noteq> requested \<and> r_source r = Some source \<and>
      (live_state (r_state r) \<or> r_retained r \<or> ev_state ev \<notin> {Ev_Absent, Ev_Inactive} \<or>
       (r_bound r \<and> ev_state ev = Ev_Absent)))"

definition require_unique_successor ::
  "adm_env \<Rightarrow> string option \<Rightarrow> string \<Rightarrow> reservations \<Rightarrow> adm_error + unit" where
  "require_unique_successor env source requested rs = (case source of
       None \<Rightarrow> Inr ()
     | Some src \<Rightarrow>
         rbind (env_evidence env) (\<lambda>m.
         guard_r (\<not> list_ex (unresolved_successor m src requested) rs) successor_conflict
         (rbind (roots_of env) (successors_in_roots env m src requested))))"

subsection \<open>Claims on a plan\<close>

record claims =
  c_claims :: "(string \<times> string) list"
  c_publications :: "string list"
  c_parents :: "(string \<times> string) list"

definition ownership_unavailable :: string where
  "ownership_unavailable = ''plan ownership evidence is unavailable''"

text \<open>The plan a run's artifacts name, the manifest's before the startup record's before the run's.\<close>

definition claimed_plan :: "launch_manifest option \<Rightarrow> dict \<Rightarrow> dict option \<Rightarrow> json" where
  "claimed_plan mf startup md =
     (let request = dget startup ''request''; prepared = dget startup ''prepared'';
          p1 = (case mf of Some m \<Rightarrow> JStr (m_plan_path m) | None \<Rightarrow> JNull);
          p2 = (if p1 = JNull \<and> is_obj request then dget (obj_of request) ''plan_path'' else p1);
          p3 = (if p2 = JNull \<and> is_obj prepared then dget (obj_of prepared) ''plan_path'' else p2) in
      case md of
        None \<Rightarrow> p3
      | Some d \<Rightarrow>
          if p3 = JNull
          then (if truthy (dget d ''original_plan_path'') then dget d ''original_plan_path''
                else dget d ''plan_path'')
          else p3)"

definition publication_pending :: "dict option \<Rightarrow> bool" where
  "publication_pending md = (case md of
       None \<Rightarrow> False
     | Some d \<Rightarrow> dget d ''failure_kind'' = JStr ''completion_publication'' \<and>
                dget d ''status'' \<noteq> JStr ''completed'')"

definition run_claims ::
  "adm_env \<Rightarrow> string list \<Rightarrow> string \<Rightarrow> string list \<Rightarrow> string \<Rightarrow> claims \<Rightarrow> adm_error + claims"
where
  "run_claims env roots root legacy run_id c =
     (let v = e_views env root; old = (run_id \<in> set legacy) in
      rbind (if old then Inr None else repo_read ownership_unavailable (v_manifest v run_id)) (\<lambda>mf.
      rbind (if old then Inr [] else repo_read ownership_unavailable (v_startup v run_id)) (\<lambda>startup.
      rbind (run_metadata ownership_unavailable v run_id) (\<lambda>md.
      rbind (case md of
               Some d \<Rightarrow> if is_str (dget d ''resumed_from_run_id'')
                         then rbind (validate_source_provenance_id (dget d ''resumed_from_run_id''))
                                (\<lambda>s. Inr (AList.update run_id s (c_parents c)))
                         else Inr (c_parents c)
             | None \<Rightarrow> Inr (c_parents c)) (\<lambda>parents.
      (let c = c\<lparr>c_parents := parents,
                 c_publications := (if publication_pending md then run_id # c_publications c
                                    else c_publications c)\<rparr>;
           raw = claimed_plan mf startup md in
       if raw = JNull then Inr c
       else rbind (plan_key env root False (Some roots) raw) (\<lambda>key.
            Inr (c\<lparr>c_claims := c_claims c @ [(run_id, key)]\<rparr>))))))))"

fun claims_of_ids ::
  "adm_env \<Rightarrow> string list \<Rightarrow> string \<Rightarrow> string list \<Rightarrow> string list \<Rightarrow> claims \<Rightarrow> adm_error + claims"
where
  "claims_of_ids env roots root legacy [] c = Inr c"
| "claims_of_ids env roots root legacy (r # rs) c =
     rbind (run_claims env roots root legacy r c) (claims_of_ids env roots root legacy rs)"

fun claims_of_roots :: "adm_env \<Rightarrow> string list \<Rightarrow> string list \<Rightarrow> claims \<Rightarrow> adm_error + claims" where
  "claims_of_roots env roots [] c = Inr c"
| "claims_of_roots env roots (root # rest) c =
     rbind (with_startups ownership_unavailable (e_views env root)) (\<lambda>(ids, legacy).
     rbind (claims_of_ids env roots root legacy ids c) (claims_of_roots env roots rest))"

text \<open>The run and its recorded predecessors, each once.\<close>

function ancestors :: "(string \<times> string) list \<Rightarrow> string list \<Rightarrow> string \<Rightarrow> string list" where
  "ancestors parents acc p =
     (if p \<in> set acc then acc
      else case map_of parents p of
             None \<Rightarrow> p # acc
           | Some q \<Rightarrow> ancestors parents (p # acc) q)"
  by pat_completeness auto

lemma unvisited_parent_decreases:
  assumes "p \<notin> set acc" "map_of parents p = Some q"
  shows "card (fst ` set parents - set (p # acc)) < card (fst ` set parents - set acc)"
proof (rule psubset_card_mono)
  have "p \<in> fst ` set parents" using assms(2) by (metis map_of_eq_None_iff option.distinct(1))
  then show "fst ` set parents - set (p # acc) \<subset> fst ` set parents - set acc" using assms(1) by auto
qed simp

termination ancestors
  by (relation "measure (\<lambda>(parents, acc, p). card (fst ` set parents - set acc))")
     (simp, metis (mono_tags, lifting) case_prod_conv in_measure unvisited_parent_decreases)

definition plan_claim_conflict :: adm_error where
  "plan_claim_conflict = Plan_Claim_Conflict ''plan already has an unresolved run claim''"

definition reservation_claims ::
  "evidence_map \<Rightarrow> string \<Rightarrow> string option \<Rightarrow> string option \<Rightarrow> bool \<Rightarrow> string \<times> reservation \<Rightarrow> bool"
where
  "reservation_claims m key source requested direct kr =
     (let k = fst kr; r = snd kr; ev = evidence_or (evidence Ev_Absent) m k in
      Some k \<noteq> requested \<and> r_plan_key r = Some key \<and> \<not> (Some k = source \<and> direct) \<and>
      (live_state (r_state r) \<or>
       (r_retained r \<and> (ev_state ev \<noteq> Ev_Inactive \<or> ev_retained ev)) \<or>
       (r_bound r \<and> ev_state ev = Ev_Absent)))"

definition artifact_claims ::
  "evidence_map \<Rightarrow> claims \<Rightarrow> string list \<Rightarrow> string \<Rightarrow> string option \<Rightarrow> string option \<Rightarrow> bool \<Rightarrow>
   string \<times> string \<Rightarrow> bool"
where
  "artifact_claims m c lineage key source requested direct rk =
     (let k = fst rk; ev = evidence_or (evidence Ev_Uncertain) m k;
          pending = (k \<in> set (c_publications c)) in
      Some k \<noteq> requested \<and> snd rk = key \<and> \<not> (Some k = source \<and> direct) \<and>
      \<not> (k \<in> set lineage \<and> pending \<and> ev_state ev = Ev_Inactive) \<and>
      (pending \<or> ev_state ev \<noteq> Ev_Inactive \<or> ev_retained ev))"

definition require_unique_plan_claim ::
  "adm_env \<Rightarrow> string \<Rightarrow> string option \<Rightarrow> string option \<Rightarrow> reservations \<Rightarrow> bool \<Rightarrow> adm_error + unit"
where
  "require_unique_plan_claim env key source requested rs direct =
     rbind (env_evidence env) (\<lambda>m.
     rbind (roots_of env) (\<lambda>roots.
     rbind (claims_of_roots env roots roots \<lparr>c_claims = [], c_publications = [], c_parents = []\<rparr>) (\<lambda>c.
     (let lineage = (case source of
                       Some src \<Rightarrow> if direct then ancestors (c_parents c) [] src else []
                     | None \<Rightarrow> []);
          source_keys = (case source of
                       Some src \<Rightarrow> if direct then map snd (filter (\<lambda>(k, _). k = src) (c_claims c)) else []
                     | None \<Rightarrow> []) in
      guard_r (source_keys = [] \<or> key \<in> set source_keys)
        (Conflict ''resume plan does not match its validated source'')
      (guard_r (\<not> list_ex (reservation_claims m key source requested direct) rs) plan_claim_conflict
      (guard_r (\<not> list_ex (artifact_claims m c lineage key source requested direct) (c_claims c))
        plan_claim_conflict (Inr ())))))))"

subsection \<open>Requests\<close>

datatype direct_proof = No_Proof | Foreign_Proof | Proof bool string   \<comment> \<open>the token is ours, the source\<close>

record request =
  q_run_id :: string
  q_plan :: "string option"
  q_key :: "string option"
  q_source :: "string option"
  q_automatic :: bool
  q_revision :: "string option"
  q_identity :: "string option"
  q_proof :: direct_proof

definition resume_source :: "request \<Rightarrow> adm_error + string option \<times> bool" where
  "resume_source q = (case q_proof q of
       Foreign_Proof \<Rightarrow> Inl (Conflict ''direct resume admission proof is invalid'')
     | Proof genuine src \<Rightarrow>
         guard_r (genuine \<and> q_source q = Some src)
           (Conflict ''direct resume admission proof does not match the source'') (Inr (Some src, True))
     | No_Proof \<Rightarrow>
         (case q_source q of
            None \<Rightarrow> Inr (None, False)
          | Some src \<Rightarrow> rbind (validate_source_provenance_id (JStr src)) (\<lambda>src. Inr (Some src, False))))"

definition validate_key :: "string option \<Rightarrow> adm_error + unit" where
  "validate_key k =
     guard_r (case k of None \<Rightarrow> True | Some s \<Rightarrow> s \<noteq> [] \<and> length s \<le> 4096)
       (Safety_Error ''admission idempotency key is invalid'') (Inr ())"

definition assert_request_matches ::
  "reservation \<Rightarrow> string option \<Rightarrow> string option \<Rightarrow> string option \<Rightarrow> adm_error + unit" where
  "assert_request_matches r key source pkey =
     guard_r (\<not> (r_key r \<noteq> key \<or> r_source r \<noteq> source \<or> (r_plan_key r \<noteq> None \<and> r_plan_key r \<noteq> pkey)))
       (Conflict ''logical run is already reserved for a different launch request'') (Inr ())"

definition MAX_PLAN_BYTES :: nat where
  "MAX_PLAN_BYTES = 256 * 1024"

definition require_plan_revision :: "adm_env \<Rightarrow> string option \<Rightarrow> string \<Rightarrow> adm_error + unit" where
  "require_plan_revision env plan revision =
     (case plan of
        None \<Rightarrow> Inl (Plan_Changed ''automatic plan revision is invalid'')
      | Some path \<Rightarrow>
          guard_r (hex_of_length 64 (JStr revision)) (Plan_Changed ''automatic plan revision is invalid'')
          (case a_plan env path of
             Plan_Open_Fails \<Rightarrow> Inl (Plan_Changed ''automatic plan is unavailable'')
           | Plan_Opened opened content later current \<Rightarrow>
               guard_r (f_regular opened \<and> f_links opened = 1 \<and> f_size opened \<le> MAX_PLAN_BYTES)
                 (Plan_Changed ''automatic plan entry is unsafe'')
               (case current of
                  None \<Rightarrow> Inl (Plan_Changed ''automatic plan is unavailable'')
                | Some now \<Rightarrow>
                    guard_r (f_identity opened = f_identity later \<and> f_identity opened = f_identity now \<and>
                             length content \<le> MAX_PLAN_BYTES)
                      (Plan_Changed ''automatic plan changed during admission'')
                    (guard_r (a_sha env content = revision)
                      (Plan_Changed ''automatic plan changed during admission'') (Inr ())))))"

definition require_automatic :: "adm_env \<Rightarrow> request \<Rightarrow> adm_error + unit" where
  "require_automatic env q =
     rbind (case q_revision q of None \<Rightarrow> Inr () | Some r \<Rightarrow> require_plan_revision env (q_plan q) r) (\<lambda>_.
     rbind (case q_identity q of
              None \<Rightarrow> Inr ()
            | Some i \<Rightarrow>
                guard_r (case q_plan q of
                           None \<Rightarrow> False
                         | Some p \<Rightarrow> hex_of_length 32 (JStr i) \<and> a_identity env (e_checkout env) p = Some i)
                  (Plan_Changed ''automatic plan identity changed during admission'') (Inr ())) (\<lambda>_.
     if q_automatic q
     then rbind (read_settings env) (\<lambda>g.
          guard_r (g_auto g) (Automatic_Disabled ''automatic plan consumption is disabled'') (Inr ()))
     else Inr ()))"

definition dep_env_of :: "adm_env \<Rightarrow> dep_env" where
  "dep_env_of env = (a_deps env)\<lparr>x_root := e_root env, x_sha := a_sha env\<rparr>"

definition dependency_error :: "dep_error \<Rightarrow> adm_error" where
  "dependency_error e = (case e of
       Dep_Blocked m \<Rightarrow> Dependency_Blocked m | Dep_Error m \<Rightarrow> Safety_Error m | Dep_Os_Error \<Rightarrow> Os_Error
     | Dep_Settings_Error \<Rightarrow> settings_error)"

text \<open>The checkout a plan is in, and the checkouts its evidence may come from.\<close>

definition dependency_checkout :: "adm_env \<Rightarrow> string \<Rightarrow> string \<Rightarrow> bool \<Rightarrow> adm_error + string \<times> string list" where
  "dependency_checkout env key path direct =
     (if \<not> starts_with key ''plans/'' then Inr (e_root env, [e_root env])
      else case a_resolve env (\<not> direct) path of
             Unresolvable \<Rightarrow> Inl (Safety_Error ''dependency plan checkout is unavailable'')
           | Resolved p _ \<Rightarrow>
               rbind (roots_of env) (\<lambda>roots.
               case find (\<lambda>root. p = root @ ''/'' @ key) roots of
                 None \<Rightarrow> Inl (Safety_Error ''dependency plan checkout is not verified'')
               | Some root \<Rightarrow> Inr (root, roots)))"

definition require_dependencies :: "adm_env \<Rightarrow> string \<Rightarrow> string \<Rightarrow> bool \<Rightarrow> adm_store \<Rightarrow> unit adm" where
  "require_dependencies env key path direct s =
     abind (lift (dependency_checkout env key path direct) s) (\<lambda>(checkout, roots) s.
     case require_ready (dep_env_of env) key (Some checkout) (Some roots) (st_inventory s) of
       (Inl e, f) \<Rightarrow> (Inl (dependency_error e), s\<lparr>st_inventory := f\<rparr>)
     | (Inr _, f) \<Rightarrow> (Inr (), s\<lparr>st_inventory := f\<rparr>))"

subsection \<open>Acquiring a reservation\<close>

definition fresh_reservation ::
  "adm_env \<Rightarrow> request \<Rightarrow> string \<Rightarrow> string option \<Rightarrow> string option \<Rightarrow> run_evidence \<Rightarrow> reservation option \<Rightarrow>
   adm_error + reservation"
where
  "fresh_reservation env q valid source key ev current =
     make_reservation
       [(''run_id'', JStr valid), (''nonce'', JStr (a_nonce env)), (''state'', JStr ''reserved''),
        (''source_run_id'', opt_json JStr source), (''plan_key'', opt_json JStr key),
        (''idempotency_key'', opt_json JStr (q_key q)),
        (''claim_retained'', JBool (case current of Some r \<Rightarrow> r_retained r | None \<Rightarrow> ev_retained ev)),
        (''bound'', JBool (ev_state ev \<noteq> Ev_Absent)),
        (''owner_pid'', JInt (a_pid env)), (''owner_birth'', opt_json JStr (a_birth env (a_pid env))),
        (''created_at'', JStr (a_now env)), (''updated_at'', JStr (a_now env))]"

definition admit_request ::
  "adm_env \<Rightarrow> request \<Rightarrow> string \<Rightarrow> string option \<Rightarrow> bool \<Rightarrow> string option \<Rightarrow> reservations \<Rightarrow> adm_store \<Rightarrow>
   reservation adm"
where
  "admit_request env q valid source direct key rs s =
     (let current = map_of rs valid in
      abind (lift (require_automatic env q) s) (\<lambda>_ s.
      abind (lift (require_unique_successor env source valid rs) s) (\<lambda>_ s.
      abind (case key of
               None \<Rightarrow> (Inr (), s)
             | Some k \<Rightarrow>
                 abind (lift (require_unique_plan_claim env k source (Some valid) rs direct) s) (\<lambda>_ s.
                 require_dependencies env k (the (q_plan q)) direct s)) (\<lambda>_ s.
      abind (lift (run_evidence_of (evidence_env.truncate env) valid) s) (\<lambda>ev s.
      abind (lift (snapshot_locked env rs (Some valid) (Some (valid, ev))) s) (\<lambda>n s.
      if n_limit n \<le> int (occupied_count n)
      then (Inl (Capacity_Reached (n_limit n) (occupied_count n) (q_automatic q)), s)
      else
      abind (lift (compact_released rs [valid] (if current = None then 1 else 0)) s) (\<lambda>rs s.
      abind (lift (fresh_reservation env q valid source key ev current) s) (\<lambda>r s.
      abind (save_locked env (AList.update valid r rs) s) (\<lambda>_ s. (Inr r, s))))))))))"

definition request_key :: "adm_env \<Rightarrow> request \<Rightarrow> bool \<Rightarrow> adm_error + string option" where
  "request_key env q require_file = (case q_plan q of
       None \<Rightarrow> Inr None
     | Some p \<Rightarrow> rbind (plan_key env (e_checkout env) require_file None (JStr p)) (\<lambda>k. Inr (Some k)))"

definition acquire_locked ::
  "adm_env \<Rightarrow> request \<Rightarrow> string \<Rightarrow> string option \<Rightarrow> bool \<Rightarrow> adm_store \<Rightarrow> reservation adm" where
  "acquire_locked env q valid source direct s =
     abind (lift (request_key env q (\<not> direct)) s) (\<lambda>key s.
     abind (load_locked env [valid] s) (\<lambda>rs s.
     abind (reconcile_locked env rs s) (\<lambda>rs s.
     abind (lift (require_inactive_predecessor (evidence_env.truncate env) source) s) (\<lambda>_ s.
     case map_of rs valid of
       None \<Rightarrow> admit_request env q valid source direct key rs s
     | Some current \<Rightarrow>
         abind (lift (assert_request_matches current (q_key q) source key) s) (\<lambda>_ s.
         if live_state (r_state current) then (Inr current, s)
         else admit_request env q valid source direct key rs s)))))"

definition acquire :: "adm_env \<Rightarrow> request \<Rightarrow> adm_store \<Rightarrow> reservation adm" where
  "acquire env q s =
     abind (lift (validate_run_id (JStr (q_run_id q))) s) (\<lambda>valid s.
     abind (lift (resume_source q) s) (\<lambda>(source, direct) s.
     if source = Some valid then (Inl (Conflict ''a reservation cannot restart itself''), s)
     else abind (lift (validate_key (q_key q)) s) (\<lambda>_ s.
          locked env (acquire_locked env q valid source direct) s)))"

definition ensure_locked ::
  "adm_env \<Rightarrow> request \<Rightarrow> string \<Rightarrow> string option \<Rightarrow> adm_store \<Rightarrow> reservation option adm" where
  "ensure_locked env q valid source s =
     abind (lift (request_key env q True) s) (\<lambda>key s.
     abind (load_locked env [valid] s) (\<lambda>rs s.
     abind (reconcile_locked env rs s) (\<lambda>rs s.
     abind (lift (require_inactive_predecessor (evidence_env.truncate env) source) s) (\<lambda>_ s.
     case map_of rs valid of
       None \<Rightarrow> (Inr None, s)
     | Some current \<Rightarrow>
         if live_state (r_state current)
         then abind (lift (assert_request_matches current (q_key q) source key) s)
                (\<lambda>_ s. (Inr (Some current), s))
         else (Inr None, s)))))"

text \<open>
  Two locked sections: a live reservation is returned by the first, anything else is acquired by the
  second, which sees the environment of its own time.
\<close>

definition ensure :: "adm_env \<Rightarrow> adm_env \<Rightarrow> request \<Rightarrow> adm_store \<Rightarrow> reservation adm" where
  "ensure env env' q s =
     abind (lift (validate_run_id (JStr (q_run_id q))) s) (\<lambda>valid s.
     abind (lift (case q_source q of
                    None \<Rightarrow> Inr None
                  | Some src \<Rightarrow> rbind (validate_run_id (JStr src)) (\<lambda>src.
                      guard_r (src \<noteq> valid) (Conflict ''a reservation cannot restart itself'')
                        (Inr (Some src)))) s) (\<lambda>source s.
     abind (locked env (ensure_locked env q valid source) s) (\<lambda>found s.
     case found of
       Some r \<Rightarrow> (Inr r, s)
     | None \<Rightarrow> acquire env' (q\<lparr>q_run_id := valid, q_source := source, q_proof := No_Proof\<rparr>) s)))"

subsection \<open>Transitions and release\<close>

definition transition_locked ::
  "adm_env \<Rightarrow> string \<Rightarrow> string \<Rightarrow> res_state option \<Rightarrow> bool \<Rightarrow> adm_store \<Rightarrow> reservation adm" where
  "transition_locked env run_id nonce state bound s =
     abind (load_locked env [run_id] s) (\<lambda>rs s.
     abind (lift (require_nonce rs run_id nonce) s) (\<lambda>current s.
     if r_state current = Released
     then (Inl (Conflict ''admission reservation has already been released''), s)
     else (let updated = current\<lparr>r_state := (case state of None \<Rightarrow> r_state current | Some t \<Rightarrow> t),
                                 r_bound := r_bound current \<or> bound, r_updated := a_now env\<rparr>
           in abind (save_locked env (AList.update run_id updated rs) s) (\<lambda>_ s. (Inr updated, s)))))"

definition transition ::
  "adm_env \<Rightarrow> string \<Rightarrow> string \<Rightarrow> res_state option \<Rightarrow> bool \<Rightarrow> adm_store \<Rightarrow> reservation adm" where
  "transition env run_id nonce state bound s =
     abind (lift (validate_run_id (JStr run_id)) s) (\<lambda>valid s.
     locked env (transition_locked env valid nonce state bound) s)"

definition bind :: "adm_env \<Rightarrow> string \<Rightarrow> string \<Rightarrow> adm_store \<Rightarrow> reservation adm" where
  "bind env run_id nonce = transition env run_id nonce None True"

definition mark_starting :: "adm_env \<Rightarrow> string \<Rightarrow> string \<Rightarrow> adm_store \<Rightarrow> reservation adm" where
  "mark_starting env run_id nonce = transition env run_id nonce (Some Starting) True"

definition consume :: "adm_env \<Rightarrow> string \<Rightarrow> string \<Rightarrow> adm_store \<Rightarrow> reservation adm" where
  "consume env run_id nonce = transition env run_id nonce (Some Active) True"

definition release_locked ::
  "adm_env \<Rightarrow> string \<Rightarrow> string \<Rightarrow> bool \<Rightarrow> adm_store \<Rightarrow> reservation adm" where
  "release_locked env run_id nonce retained s =
     abind (load_locked env [run_id] s) (\<lambda>rs s.
     abind (lift (require_nonce rs run_id nonce) s) (\<lambda>current s.
     if r_state current = Released then (Inr current, s)
     else
     abind (lift (run_evidence_of (evidence_env.truncate env) run_id) s) (\<lambda>ev s.
     if \<not> r_bound current \<and> charged_state (ev_state ev) \<noteq> None
     then (Inl (Safety_Error ''cannot release an unbound reservation while run evidence exists''), s)
     else if r_bound current \<and> ev_state ev \<notin> {Ev_Inactive, Ev_Absent}
     then (Inl (Safety_Error ''cannot release a reservation without proven inactive ownership''), s)
     else if r_bound current \<and> ev_state ev = Ev_Absent
     then (Inl (Safety_Error ''cannot release a reservation while run ownership is unknown''), s)
     else (let released = current\<lparr>r_state := Released, r_retained := r_retained current \<or> retained,
                                  r_updated := a_now env\<rparr>
           in abind (save_locked env (AList.update run_id released rs) s) (\<lambda>_ s. (Inr released, s))))))"

definition release ::
  "adm_env \<Rightarrow> string \<Rightarrow> string \<Rightarrow> string \<Rightarrow> bool \<Rightarrow> adm_store \<Rightarrow> reservation adm" where
  "release env run_id nonce reason retained s =
     (if length reason > 256 then (Inl (Safety_Error ''admission release reason is too long''), s)
      else abind (lift (validate_run_id (JStr run_id)) s) (\<lambda>valid s.
           locked env (release_locked env valid nonce retained) s))"

subsection \<open>Reading the journal\<close>

definition reconciled :: "adm_env \<Rightarrow> string list \<Rightarrow> adm_store \<Rightarrow> reservations adm" where
  "reconciled env preserve s = abind (load_locked env preserve s) (reconcile_locked env)"

definition reconcile_journal :: "adm_env \<Rightarrow> adm_store \<Rightarrow> snapshot adm" where
  "reconcile_journal env = locked env (\<lambda>s.
     abind (reconciled env [] s) (\<lambda>rs s. lift (snapshot_locked env rs None None) s))"

definition claims_from_reservations :: "reservations \<Rightarrow> (string \<times> string \<times> string \<times> bool) list" where
  "claims_from_reservations rs =
     map (\<lambda>r. (the (r_plan_key r), r_run_id r, res_state_name (r_state r), r_retained r))
       (sort_key (\<lambda>r. [the (r_plan_key r), r_run_id r])
         (filter (\<lambda>r. r_plan_key r \<noteq> None \<and> (live_state (r_state r) \<or> r_retained r)) (map snd rs)))"

definition queue_view ::
  "adm_env \<Rightarrow> adm_store \<Rightarrow> (snapshot \<times> (string \<times> string \<times> string \<times> bool) list \<times> string list) adm" where
  "queue_view env = locked env (\<lambda>s.
     abind (reconciled env [] s) (\<lambda>rs s.
     abind (lift (snapshot_locked env rs None None) s) (\<lambda>n s.
     lift (rbind (roots_of env) (\<lambda>roots. Inr (n, claims_from_reservations rs, roots))) s)))"

definition plan_claims :: "adm_env \<Rightarrow> adm_store \<Rightarrow> (string \<times> string \<times> string \<times> bool) list adm" where
  "plan_claims env = locked env (\<lambda>s.
     abind (reconciled env [] s) (\<lambda>rs s. (Inr (claims_from_reservations rs), s)))"

definition read_reservation :: "adm_env \<Rightarrow> string \<Rightarrow> adm_store \<Rightarrow> reservation option adm" where
  "read_reservation env run_id s =
     abind (lift (validate_run_id (JStr run_id)) s) (\<lambda>valid s.
     locked env (\<lambda>s. abind (reconciled env [valid] s) (\<lambda>rs s. (Inr (map_of rs valid), s))) s)"

text \<open>Admission held while a plan is moved; the body of the guard runs after a normal return.\<close>

definition plan_lifecycle_guard ::
  "adm_env \<Rightarrow> string \<Rightarrow> string option \<Rightarrow> bool \<Rightarrow> adm_store \<Rightarrow> unit adm" where
  "plan_lifecycle_guard env plan source require_file s =
     abind (lift (case source of
                    None \<Rightarrow> Inr None
                  | Some src \<Rightarrow> rbind (validate_source_provenance_id (JStr src)) (\<lambda>x. Inr (Some x))) s)
       (\<lambda>source s.
     locked env (\<lambda>s.
       abind (lift (plan_key env (e_checkout env) require_file None (JStr plan)) s) (\<lambda>key s.
       abind (reconciled env [] s) (\<lambda>rs s.
       abind (lift (require_inactive_predecessor (evidence_env.truncate env) source) s) (\<lambda>_ s.
       lift (require_unique_plan_claim env key source None rs (source \<noteq> None)) s)))) s)"

end
