(* ===== verification/Admission_Laws.thy ===== *)
theory Admission_Laws
  imports Admission_Operations
begin

text \<open>
  What an operation leaves on disk. The journal of a state is what the next operation will read; a
  locale states what a property of journals needs to survive every operation, and the operations are
  shown once, inside it, to keep any such property.
\<close>

subsection \<open>Runs\<close>

definition journal_at :: "string \<Rightarrow> adm_store \<Rightarrow> adm_error + reservations" where
  "journal_at root s = rbind (read_json_file (st_journal s)) (decode_state root)"

text \<open>The state after an operation satisfies one predicate, its result, if it returns, another.\<close>

definition yields :: "(adm_store \<Rightarrow> bool) \<Rightarrow> ('a \<Rightarrow> bool) \<Rightarrow> 'a adm \<Rightarrow> bool" where
  "yields I Q m = (I (snd m) \<and> (\<forall>x. fst m = Inr x \<longrightarrow> Q x))"

lemma yields_simps [simp]:
  "yields I Q (Inl e, s) = I s"
  "yields I Q (Inr x, s) = (I s \<and> Q x)"
  by (simp_all add: yields_def)

lemma yields_weaken: "yields I Q m \<Longrightarrow> (\<And>x. Q x \<Longrightarrow> R x) \<Longrightarrow> yields I R m"
  by (auto simp: yields_def)

lemma yields_abind:
  assumes "yields I Q m" and "\<And>x s. I s \<Longrightarrow> Q x \<Longrightarrow> yields I R (f x s)"
  shows "yields I R (abind m f)"
  using assms by (cases m rule: prod.exhaust [case_product sum.exhaust]) (auto simp: abind_def yields_def split: sum.splits prod.splits)

lemma yields_lift:
  assumes "I s" and "\<And>x. r = Inr x \<Longrightarrow> yields I R (f x s)"
  shows "yields I R (abind (lift r s) f)"
  using assms by (cases r) simp_all

lemma yields_locked: "I s \<Longrightarrow> yields I Q (body s) \<Longrightarrow> yields I Q (locked env body s)"
  by (simp add: locked_def split: adm_lock.split)

lemma yields_if: "(b \<Longrightarrow> yields I Q m) \<Longrightarrow> (\<not> b \<Longrightarrow> yields I Q m') \<Longrightarrow> yields I Q (if b then m else m')"
  by simp

subsection \<open>What a save leaves\<close>

lemma read_written:
  "read_json_file (written root rs) =
     (if MAX_ADMISSION_STATE_BYTES < json_size (state_payload root rs) + 1
      then Inl (Safety_Error ''project admission state exceeds the size limit'')
      else Inr (Some (obj_of (state_payload root rs))))"
  by (simp add: read_json_file_def written_def Let_def state_payload_def)

lemma journal_at_written:
  assumes "journal_wf rs" and "st_journal s = written root rs"
    and "json_size (state_payload root rs) + 1 \<le> MAX_ADMISSION_STATE_BYTES"
  shows "journal_at root s = Inr (sorted_items rs)"
  using assms by (simp add: journal_at_def read_written decode_state_payload)

lemma journal_at_wf: "journal_at root s = Inr rs \<Longrightarrow> journal_wf rs"
  by (auto simp: journal_at_def rbind_Inr_iff dest: decode_state_wf)

lemma journal_at_saves [simp]: "journal_at root (s\<lparr>st_saves := x\<rparr>) = journal_at root s"
  "journal_at root (s\<lparr>st_inventory := f\<rparr>) = journal_at root s"
  by (simp_all add: journal_at_def)

lemma save_cases:
  assumes "save_locked env rs s = (x, s')"
  shows "(st_journal s' = st_journal s \<and> is_error x \<or> st_journal s' = written (e_root env) rs) \<and>
    (x = Inr () \<longrightarrow> st_journal s' = written (e_root env) rs \<and> length rs \<le> MAX_RESERVATIONS) \<and>
    st_inventory s' = st_inventory s"
  using assms
  by (auto simp: save_locked_def Let_def split: if_splits save_result.splits list.splits)

lemma compact_Inr:
  assumes "compact_released rs preserve n = Inr rs'"
  shows "\<exists>p. rs' = filter p rs \<and>
    (\<forall>k r. r_state r \<noteq> Released \<or> r_retained r \<or> k \<in> set preserve \<longrightarrow> p (k, r)) \<and>
    length rs' \<le> MAX_RESERVATIONS - n"
proof (cases "rs' = rs")
  case True
  then have "rs' = filter (\<lambda>_. True) rs" by simp
  moreover from assms True have "length rs' \<le> MAX_RESERVATIONS - n"
    by (auto simp: compact_released_def Let_def split: if_splits)
  ultimately show ?thesis by blast
next
  case False
  with assms have "rs' = filter (\<lambda>(k, r). r_state r \<noteq> Released \<or> r_retained r \<or> k \<in> set preserve) rs"
      "length rs' \<le> MAX_RESERVATIONS - n"
    by (auto simp: compact_released_def Let_def split: if_splits)
  then show ?thesis by (intro exI [of _ "\<lambda>(k, r). r_state r \<noteq> Released \<or> r_retained r \<or> k \<in> set preserve"]) simp
qed

lemma journal_wf_filter: "journal_wf rs \<Longrightarrow> journal_wf (filter p rs)"
  by (auto simp: journal_wf_def list_all_iff distinct_map_filter)

lemma set_update_subset: "set (AList.update k v al) \<subseteq> insert (k, v) (set al)"
  by (induction al) auto

lemma journal_wf_update:
  assumes "journal_wf rs" "reservation_ok r" "r_run_id r = k"
  shows "journal_wf (AList.update k r rs)"
  using assms set_update_subset [of k r rs]
  by (fastforce simp: journal_wf_def list_all_iff AList.distinct_update)

lemma reservation_ok_change:
  "reservation_ok (r\<lparr>r_state := t, r_retained := c, r_bound := b, r_updated := u\<rparr>) = reservation_ok r"
  "reservation_ok (r\<lparr>r_retained := c\<rparr>) = reservation_ok r"
  "reservation_ok (r\<lparr>r_state := t, r_retained := c, r_updated := u\<rparr>) = reservation_ok r"
  "reservation_ok (r\<lparr>r_state := t, r_bound := b, r_updated := u\<rparr>) = reservation_ok r"
  "reservation_ok (r\<lparr>r_state := t, r_updated := u\<rparr>) = reservation_ok r"
  by (simp_all add: reservation_ok_def)

text \<open>What reconciliation may change of a reservation: its state, its retained claim, its time.\<close>

lemma reconcile_one_keeps:
  "r_run_id (reconcile_one env ev r) = r_run_id r \<and> r_nonce (reconcile_one env ev r) = r_nonce r \<and>
   r_source (reconcile_one env ev r) = r_source r \<and> r_plan_key (reconcile_one env ev r) = r_plan_key r \<and>
   r_key (reconcile_one env ev r) = r_key r \<and> r_bound (reconcile_one env ev r) = r_bound r \<and>
   reservation_ok (reconcile_one env ev r) = reservation_ok r"
  by (simp add: reconcile_one_def Let_def reservation_ok_change)

lemma fst_reconcile_entry [simp]: "fst (reconcile_entry env m kr) = fst kr"
  by (simp add: reconcile_entry_def)

lemma keys_reconcile: "map fst (map (reconcile_entry env m) rs) = map fst rs"
  by simp

lemma journal_wf_reconcile:
  assumes "journal_wf rs"
  shows "journal_wf (map (reconcile_entry env m) rs)"
  unfolding journal_wf_def keys_reconcile
  using assms by (auto simp: journal_wf_def list_all_iff reconcile_entry_def reconcile_one_keeps)

lemma fresh_fields:
  assumes "fresh_reservation env q valid source key ev current = Inr r" and "validate_key (q_key q) = Inr ()"
  shows "r_run_id r = valid" "r_state r = Reserved" "r_source r = source" "r_plan_key r = key"
    "r_bound r = (ev_state ev \<noteq> Ev_Absent)" "reservation_ok r" "r_nonce r = a_nonce env"
proof -
  note m = assms(1) [unfolded fresh_reservation_def]
  from make_reservation_args [OF m] show "r_run_id r = valid" "r_state r = Reserved"
      "r_bound r = (ev_state ev \<noteq> Ev_Absent)" "r_nonce r = a_nonce env"
    by (auto simp: state_of_name_def)
  from make_reservation_args(4,5) [OF m] show "r_source r = source" "r_plan_key r = key"
    by (cases "r_source r"; cases source; cases "r_plan_key r"; cases key; simp)+
  show "reservation_ok r"
    by (rule make_reservation_ok [OF m], cases "q_key q")
       (use assms(2) in \<open>simp_all add: validate_key_def guard_r_Inr_iff text_within_def\<close>)
qed

subsection \<open>Properties of journals that survive every operation\<close>

locale journal_law =
  fixes P :: "reservations \<Rightarrow> bool" and allowed :: "request \<Rightarrow> bool"
  assumes sorted_law: "journal_wf rs \<Longrightarrow> P rs \<Longrightarrow> P (sorted_items rs)"
    and filter_law: "journal_wf rs \<Longrightarrow> P rs \<Longrightarrow> P (filter p rs)"
    and reconcile_law: "journal_wf rs \<Longrightarrow> P rs \<Longrightarrow> P (map (reconcile_entry env m) rs)"
    and change_law: "journal_wf rs \<Longrightarrow> P rs \<Longrightarrow> map_of rs k = Some r \<Longrightarrow> r_state r \<noteq> Released \<Longrightarrow>
      P (AList.update k (r\<lparr>r_state := t, r_retained := c, r_bound := b, r_updated := u\<rparr>) rs)"
    and admit_law: "journal_wf rs \<Longrightarrow> P rs \<Longrightarrow> allowed q \<Longrightarrow>
      resume_source q = Inr (source, direct) \<Longrightarrow>
      require_unique_successor env source valid rs = Inr () \<Longrightarrow>
      (\<And>k. key = Some k \<Longrightarrow> require_unique_plan_claim env k source (Some valid) rs direct = Inr ()) \<Longrightarrow>
      r_plan_key r = key \<Longrightarrow> r_source r = source \<Longrightarrow> P (AList.update valid r (filter p rs))"
    and allowed_law: "allowed q \<Longrightarrow> q_proof q' = No_Proof \<Longrightarrow> allowed q'"
begin

definition holds :: "string \<Rightarrow> adm_store \<Rightarrow> bool" where
  "holds root s = (\<forall>rs. journal_at root s = Inr rs \<longrightarrow> P rs)"

definition good :: "reservations \<Rightarrow> bool" where
  "good rs = (journal_wf rs \<and> P rs)"

lemma holds_written:
  assumes "good rs" "st_journal s = written root rs"
  shows "holds root s"
proof (cases "json_size (state_payload root rs) + 1 \<le> MAX_ADMISSION_STATE_BYTES")
  case True
  with assms journal_at_written [of rs s root] show ?thesis
    by (simp add: holds_def good_def sorted_law)
next
  case False
  with assms(2) show ?thesis by (simp add: holds_def journal_at_def read_written)
qed

lemma holds_same: "st_journal s' = st_journal s \<Longrightarrow> holds root s \<Longrightarrow> holds root s'"
  by (simp add: holds_def journal_at_def)

lemma yields_save:
  assumes "holds root s" "good rs" "e_root env = root" "Q ()"
  shows "yields (holds root) Q (save_locked env rs s)"
proof (cases "save_locked env rs s")
  case (Pair x s')
  from save_cases [OF Pair] assms have "holds root s'"
    by (metis holds_same holds_written)
  with Pair assms(4) show ?thesis by (cases x) simp_all
qed

lemma yields_load:
  assumes "holds root s" "e_root env = root"
  shows "yields (holds root) good (load_locked env preserve s)"
proof (cases "journal_at root s")
  case (Inl e)
  with assms show ?thesis by (simp add: load_locked_def journal_at_def [symmetric])
next
  case (Inr rs)
  then have g: "good rs" using assms(1) journal_at_wf by (auto simp: good_def holds_def)
  show ?thesis
  proof (cases "compact_released rs preserve 0")
    case (Inl e)
    with Inr assms show ?thesis by (simp add: load_locked_def journal_at_def [symmetric])
  next
    case (Inr rs')
    from compact_Inr [OF this] g have g': "good rs'"
      by (auto simp: good_def journal_wf_filter filter_law)
    have "yields (holds root) good (abind (save_locked env rs' s) (\<lambda>_ s. (Inr rs', s)))"
      by (rule yields_abind [OF yields_save [of root s rs' env "\<lambda>_. True"]]) (use assms g' in auto)
    with assms Inr g g' \<open>journal_at root s = Inr rs\<close> show ?thesis
      by (simp add: load_locked_def journal_at_def [symmetric])
  qed
qed

lemma good_reconcile: "good rs \<Longrightarrow> good (map (reconcile_entry env m) rs)"
  by (simp add: good_def journal_wf_reconcile reconcile_law)

lemma yields_reconcile:
  assumes "holds root s" "good rs" "e_root env = root"
  shows "yields (holds root) good (reconcile_locked env rs s)"
proof (cases "env_evidence env")
  case (Inl e)
  with assms show ?thesis by (simp add: reconcile_locked_def)
next
  case (Inr m)
  let ?rs = "map (reconcile_entry env m) rs"
  have "yields (holds root) good (abind (save_locked env ?rs s) (\<lambda>_ s. (Inr ?rs, s)))"
    by (rule yields_abind [OF yields_save [of root s ?rs env "\<lambda>_. True"]])
       (use assms good_reconcile in auto)
  with assms Inr good_reconcile [OF assms(2)] show ?thesis
    by (simp add: reconcile_locked_def Let_def)
qed

lemma yields_reconciled:
  assumes "holds root s" "e_root env = root"
  shows "yields (holds root) good (reconciled env preserve s)"
  unfolding reconciled_def
  by (rule yields_abind [OF yields_load [OF assms]]) (rule yields_reconcile, simp_all add: assms)

lemma good_change:
  assumes "good rs" "map_of rs k = Some r" "r_state r \<noteq> Released"
  shows "good (AList.update k (r\<lparr>r_state := t, r_retained := c, r_bound := b, r_updated := u\<rparr>) rs)"
proof -
  from assms(1,2) have "r_run_id r = k" "reservation_ok r"
    by (auto simp: good_def journal_wf_def list_all_iff dest!: map_of_SomeD)
  with assms show ?thesis
    by (auto simp: good_def change_law reservation_ok_change intro!: journal_wf_update)
qed

lemma good_transition:
  assumes "good rs" "map_of rs k = Some r" "r_state r \<noteq> Released"
  shows "good (AList.update k (r\<lparr>r_state := t, r_bound := b, r_updated := u\<rparr>) rs)"
    and "good (AList.update k (r\<lparr>r_state := t, r_retained := c, r_updated := u\<rparr>) rs)"
proof -
  have "r\<lparr>r_state := t, r_retained := r_retained r, r_bound := b, r_updated := u\<rparr>
      = r\<lparr>r_state := t, r_bound := b, r_updated := u\<rparr>" by (cases r) simp
  with good_change [OF assms, where t = t and c = "r_retained r" and b = b and u = u]
  show "good (AList.update k (r\<lparr>r_state := t, r_bound := b, r_updated := u\<rparr>) rs)" by simp
  have "r\<lparr>r_state := t, r_retained := c, r_bound := r_bound r, r_updated := u\<rparr>
      = r\<lparr>r_state := t, r_retained := c, r_updated := u\<rparr>" by (cases r) simp
  with good_change [OF assms, where t = t and c = c and b = "r_bound r" and u = u]
  show "good (AList.update k (r\<lparr>r_state := t, r_retained := c, r_updated := u\<rparr>) rs)" by simp
qed

lemma yields_transition:
  assumes "holds root s" "e_root env = root"
  shows "yields (holds root) (\<lambda>_. True) (transition env run_id nonce state bound s)"
  unfolding transition_def
proof (rule yields_lift, rule assms(1), rule yields_locked, rule assms(1), unfold transition_locked_def,
       rule yields_abind [OF yields_load [OF assms]], rule yields_lift)
  fix valid rs current s
  assume *: "holds root s" "good rs" "require_nonce rs valid nonce = Inr current"
  then have cur: "map_of rs valid = Some current"
    by (simp add: require_nonce_def split: option.splits if_splits)
  show "yields (holds root) (\<lambda>_. True)
    (if r_state current = Released
     then (Inl (Conflict ''admission reservation has already been released''), s)
     else (let updated = current\<lparr>r_state := (case state of None \<Rightarrow> r_state current | Some t \<Rightarrow> t),
                                 r_bound := r_bound current \<or> bound, r_updated := a_now env\<rparr>
           in abind (save_locked env (AList.update valid updated rs) s) (\<lambda>_ s. (Inr updated, s))))"
    unfolding Let_def
  proof (rule yields_if)
    assume "r_state current \<noteq> Released"
    from good_transition(1) [OF *(2) cur this] * assms(2)
    show "yields (holds root) (\<lambda>_. True) (abind (save_locked env (AList.update valid
        (current\<lparr>r_state := (case state of None \<Rightarrow> r_state current | Some t \<Rightarrow> t),
                r_bound := r_bound current \<or> bound, r_updated := a_now env\<rparr>) rs) s)
        (\<lambda>_ s. (Inr (current\<lparr>r_state := (case state of None \<Rightarrow> r_state current | Some t \<Rightarrow> t),
                r_bound := r_bound current \<or> bound, r_updated := a_now env\<rparr>), s)))"
      by (intro yields_abind [OF yields_save [where Q = "\<lambda>_. True"]]) auto
  qed (use * in simp)
qed (simp_all)

lemma yields_release:
  assumes "holds root s" "e_root env = root"
  shows "yields (holds root) (\<lambda>_. True) (release env run_id nonce reason retained s)"
  unfolding release_def
proof (rule yields_if, simp add: assms, rule yields_lift, rule assms(1), rule yields_locked, rule assms(1),
       unfold release_locked_def, rule yields_abind [OF yields_load [OF assms]], rule yields_lift)
  fix valid rs current s
  assume *: "holds root s" "good rs" "require_nonce rs valid nonce = Inr current"
  then have cur: "map_of rs valid = Some current"
    by (simp add: require_nonce_def split: option.splits if_splits)
  have save: "yields (holds root) (\<lambda>_. True) (abind (save_locked env (AList.update valid
      (current\<lparr>r_state := Released, r_retained := c, r_updated := a_now env\<rparr>) rs) s)
      (\<lambda>_ s. (Inr r, s)))" if "r_state current \<noteq> Released" for c and r :: reservation
    using good_transition(2) [OF *(2) cur that] * assms(2)
    by (intro yields_abind [OF yields_save [where Q = "\<lambda>_. True"]]) auto
  show "yields (holds root) (\<lambda>_. True)
    (if r_state current = Released then (Inr current, s)
     else
     abind (lift (run_evidence_of (evidence_env.truncate env) valid) s) (\<lambda>ev s.
     if \<not> r_bound current \<and> charged_state (ev_state ev) \<noteq> None
     then (Inl (Safety_Error ''cannot release an unbound reservation while run evidence exists''), s)
     else if r_bound current \<and> ev_state ev \<notin> {Ev_Inactive, Ev_Absent}
     then (Inl (Safety_Error ''cannot release a reservation without proven inactive ownership''), s)
     else if r_bound current \<and> ev_state ev = Ev_Absent
     then (Inl (Safety_Error ''cannot release a reservation while run ownership is unknown''), s)
     else (let released = current\<lparr>r_state := Released, r_retained := r_retained current \<or> retained,
                                  r_updated := a_now env\<rparr>
           in abind (save_locked env (AList.update valid released rs) s) (\<lambda>_ s. (Inr released, s)))))"
    unfolding Let_def
    by (intro yields_if yields_lift) (use * save in simp_all)
qed (simp_all)

lemma yields_views:
  assumes "holds root s" "e_root env = root"
  shows "yields (holds root) (\<lambda>_. True) (reconcile_journal env s)"
    and "yields (holds root) (\<lambda>_. True) (queue_view env s)"
    and "yields (holds root) (\<lambda>_. True) (plan_claims env s)"
    and "yields (holds root) (\<lambda>_. True) (read_reservation env run_id s)"
    and "yields (holds root) (\<lambda>_. True) (plan_lifecycle_guard env plan source req s)"
proof -
  note rec = yields_abind [OF yields_reconciled]
  show "yields (holds root) (\<lambda>_. True) (reconcile_journal env s)"
    unfolding reconcile_journal_def
    by (rule yields_locked, rule assms(1), rule rec [OF assms]) (simp add: yields_def lift_def)
  show "yields (holds root) (\<lambda>_. True) (queue_view env s)"
    unfolding queue_view_def
    by (rule yields_locked, rule assms(1), rule rec [OF assms], rule yields_lift)
       (simp_all add: yields_def lift_def)
  show "yields (holds root) (\<lambda>_. True) (plan_claims env s)"
    unfolding plan_claims_def
    by (rule yields_locked, rule assms(1), rule rec [OF assms]) simp
  show "yields (holds root) (\<lambda>_. True) (read_reservation env run_id s)"
    unfolding read_reservation_def
    by (rule yields_lift, rule assms(1), rule yields_locked, rule assms(1), rule rec [OF assms]) simp
  show "yields (holds root) (\<lambda>_. True) (plan_lifecycle_guard env plan source req s)"
    unfolding plan_lifecycle_guard_def
    by (rule yields_lift, rule assms(1), rule yields_locked, rule assms(1), rule yields_lift, rule assms(1),
        rule rec [OF assms], rule yields_lift) (simp_all add: yields_def lift_def)
qed

lemma yields_dependencies:
  assumes "holds root s"
  shows "yields (holds root) (\<lambda>_. True) (require_dependencies env key path direct s)"
  unfolding require_dependencies_def
proof (rule yields_lift, rule assms)
  fix x
  show "yields (holds root) (\<lambda>_. True) ((\<lambda>(checkout, roots) s.
     case require_ready (dep_env_of env) key (Some checkout) (Some roots) (st_inventory s) of
       (Inl e, f) \<Rightarrow> (Inl (dependency_error e), s\<lparr>st_inventory := f\<rparr>)
     | (Inr _, f) \<Rightarrow> (Inr (), s\<lparr>st_inventory := f\<rparr>)) x s)"
    using assms by (simp add: holds_def split: prod.split sum.split)
qed

lemma yields_admit:
  assumes "holds root s" "e_root env = root" "good rs" "allowed q"
    and src: "resume_source q = Inr (source, direct)" and vk: "validate_key (q_key q) = Inr ()"
  shows "yields (holds root) (\<lambda>_. True) (admit_request env q valid source direct key rs s)"
  unfolding admit_request_def Let_def
proof (rule yields_lift, rule assms(1), rule yields_lift, rule assms(1))
  fix w u
  assume succ: "require_unique_successor env source valid rs = Inr u"
  then have succ: "require_unique_successor env source valid rs = Inr ()" by simp
  let ?claimed = "\<lambda>_. \<forall>k. key = Some k \<longrightarrow> require_unique_plan_claim env k source (Some valid) rs direct = Inr ()"
  have claim: "yields (holds root) ?claimed (case key of
       None \<Rightarrow> (Inr (), s)
     | Some k \<Rightarrow> abind (lift (require_unique_plan_claim env k source (Some valid) rs direct) s)
                  (\<lambda>_ s. require_dependencies env k (the (q_plan q)) direct s))"
  proof (cases key)
    case (Some k)
    show ?thesis unfolding Some option.case
      by (rule yields_lift, rule assms(1),
          rule yields_weaken [OF yields_dependencies [OF assms(1)]]) simp
  qed (use assms(1) in simp)
  have save: "yields (holds root) (\<lambda>_. True)
      (abind (save_locked env (AList.update valid r rs') s') (\<lambda>_ s. (Inr r, s)))"
    if "holds root s'" "?claimed ()" "compact_released rs [valid] n = Inr rs'"
      "fresh_reservation env q valid source key ev current = Inr r" for s' n rs' ev current r
  proof -
    from compact_Inr [OF that(3)] obtain p where p: "rs' = filter p rs" by blast
    note f = fresh_fields [OF that(4) vk]
    have "P (AList.update valid r rs')"
      unfolding p
      by (rule admit_law [where q = q and source = source and direct = direct and key = key])
         (use assms(3,4) src succ that(2) f in \<open>auto simp: good_def\<close>)
    with assms(3) f have "good (AList.update valid r rs')"
      by (simp add: good_def p journal_wf_filter journal_wf_update)
    with that(1) assms(2) show ?thesis
      by (intro yields_abind [OF yields_save [where Q = "\<lambda>_. True"]]) auto
  qed
  show "yields (holds root) (\<lambda>_. True) (abind (case key of
       None \<Rightarrow> (Inr (), s)
     | Some k \<Rightarrow> abind (lift (require_unique_plan_claim env k source (Some valid) rs direct) s)
                  (\<lambda>_ s. require_dependencies env k (the (q_plan q)) direct s)) (\<lambda>_ s.
      abind (lift (run_evidence_of (evidence_env.truncate env) valid) s) (\<lambda>ev s.
      abind (lift (snapshot_locked env rs (Some valid) (Some (valid, ev))) s) (\<lambda>n s.
      if n_limit n \<le> int (occupied_count n)
      then (Inl (Capacity_Reached (n_limit n) (occupied_count n) (q_automatic q)), s)
      else
      abind (lift (compact_released rs [valid] (if map_of rs valid = None then 1 else 0)) s) (\<lambda>rs' s.
      abind (lift (fresh_reservation env q valid source key ev (map_of rs valid)) s) (\<lambda>r s.
      abind (save_locked env (AList.update valid r rs') s) (\<lambda>_ s. (Inr r, s))))))))"
    by (rule yields_abind [OF claim]) (intro yields_lift yields_if; simp add: save)
qed

lemma yields_acquire:
  assumes "holds root s" "e_root env = root" "allowed q"
  shows "yields (holds root) (\<lambda>_. True) (acquire env q s)"
  unfolding acquire_def
proof (rule yields_lift, rule assms(1), rule yields_lift, rule assms(1))
  fix valid x
  assume src: "resume_source q = Inr x"
  obtain source direct where x: "x = (source, direct)" by (cases x)
  show "yields (holds root) (\<lambda>_. True) ((\<lambda>(source, direct) s.
     if source = Some valid then (Inl (Conflict ''a reservation cannot restart itself''), s)
     else abind (lift (validate_key (q_key q)) s) (\<lambda>_ s.
          locked env (acquire_locked env q valid source direct) s)) x s)"
    unfolding x prod.case
  proof (rule yields_if, simp add: assms(1), rule yields_lift, rule assms(1), rule yields_locked, rule assms(1))
    fix u
    assume "validate_key (q_key q) = Inr u"
    then have vk: "validate_key (q_key q) = Inr ()" by simp
    note adm = yields_admit [OF _ assms(2) _ assms(3) src [unfolded x] vk]
    show "yields (holds root) (\<lambda>_. True) (acquire_locked env q valid source direct s)"
      unfolding acquire_locked_def
    proof (rule yields_lift, rule assms(1), rule yields_abind [OF yields_load [OF assms(1,2)]],
           rule yields_abind, rule yields_reconcile, simp_all add: assms(2), rule yields_lift, simp)
      fix key rs and s :: adm_store
      assume *: "holds root s" "good rs"
      show "yields (holds root) (\<lambda>_. True) (case map_of rs valid of
         None \<Rightarrow> admit_request env q valid source direct key rs s
       | Some current \<Rightarrow>
           abind (lift (assert_request_matches current (q_key q) source key) s) (\<lambda>_ s.
           if live_state (r_state current) then (Inr current, s)
           else admit_request env q valid source direct key rs s))"
        by (cases "map_of rs valid") (use * adm in \<open>auto intro!: yields_lift yields_if\<close>)
    qed
  qed
qed

lemma yields_ensure:
  assumes "holds root s" "e_root env = root" "e_root env' = root" "allowed q"
  shows "yields (holds root) (\<lambda>_. True) (ensure env env' q s)"
  unfolding ensure_def
proof (rule yields_lift, rule assms(1), rule yields_lift, rule assms(1))
  fix valid source
  have "yields (holds root) (\<lambda>_. True) (ensure_locked env q valid source s)"
    unfolding ensure_locked_def
  proof (rule yields_lift, rule assms(1), rule yields_abind [OF yields_load [OF assms(1,2)]],
         rule yields_abind, rule yields_reconcile, simp_all add: assms(2), rule yields_lift, simp)
    fix key rs and s :: adm_store
    assume *: "holds root s" "good rs"
    show "yields (holds root) (\<lambda>_. True) (case map_of rs valid of
       None \<Rightarrow> (Inr None, s)
     | Some current \<Rightarrow>
         if live_state (r_state current)
         then abind (lift (assert_request_matches current (q_key q) source key) s)
                (\<lambda>_ s. (Inr (Some current), s))
         else (Inr None, s))"
      by (cases "map_of rs valid") (use * in \<open>auto intro!: yields_lift yields_if\<close>)
  qed
  then have first: "yields (holds root) (\<lambda>_. True) (locked env (ensure_locked env q valid source) s)"
    by (rule yields_locked [rotated]) (rule assms(1))
  show "yields (holds root) (\<lambda>_. True)
     (abind (locked env (ensure_locked env q valid source) s) (\<lambda>found s.
      case found of Some r \<Rightarrow> (Inr r, s)
      | None \<Rightarrow> acquire env' (q\<lparr>q_run_id := valid, q_source := source, q_proof := No_Proof\<rparr>) s))"
    by (rule yields_abind [OF first])
       (auto intro!: yields_acquire assms allowed_law [OF assms(4)] split: option.split)
qed

text \<open>Every call, whatever it returns, leaves a journal with the property.\<close>

lemma admission_keeps:
  assumes "holds root s" "e_root env = root" "e_root env' = root" "allowed q"
  shows "holds root (snd (acquire env q s))"
    and "holds root (snd (ensure env env' q s))"
  using yields_acquire [OF assms(1,2,4)] yields_ensure [OF assms] by (simp_all add: yields_def)

lemma call_keeps:
  assumes "holds root s" "e_root env = root"
  shows "holds root (snd (transition env run_id nonce state bound s))"
    and "holds root (snd (release env run_id nonce reason retained s))"
    and "holds root (snd (reconcile_journal env s))"
    and "holds root (snd (queue_view env s))"
    and "holds root (snd (plan_claims env s))"
    and "holds root (snd (read_reservation env run_id s))"
    and "holds root (snd (plan_lifecycle_guard env plan source req s))"
  using yields_transition [OF assms] yields_release [OF assms] yields_views [OF assms]
  by (simp_all add: yields_def)

end

subsection \<open>Sequences of calls\<close>

text \<open>
  One call on a project, in any environment with the project's root. The calls of other processes
  are serialized by the lock, so a sequence of calls is what can happen to the journal.
\<close>

inductive adm_step :: "(request \<Rightarrow> bool) \<Rightarrow> string \<Rightarrow> adm_store \<Rightarrow> adm_store \<Rightarrow> bool"
  for allowed root where
  acquires: "allowed q \<Longrightarrow> e_root env = root \<Longrightarrow> adm_step allowed root s (snd (acquire env q s))"
| ensures: "allowed q \<Longrightarrow> e_root env = root \<Longrightarrow> e_root env' = root \<Longrightarrow>
    adm_step allowed root s (snd (ensure env env' q s))"
| transits: "e_root env = root \<Longrightarrow> adm_step allowed root s (snd (transition env run_id nonce state bound s))"
| releases: "e_root env = root \<Longrightarrow> adm_step allowed root s (snd (release env run_id nonce reason retained s))"
| reconciles: "e_root env = root \<Longrightarrow> adm_step allowed root s (snd (reconcile_journal env s))"
| queues: "e_root env = root \<Longrightarrow> adm_step allowed root s (snd (queue_view env s))"
| lists: "e_root env = root \<Longrightarrow> adm_step allowed root s (snd (plan_claims env s))"
| reads: "e_root env = root \<Longrightarrow> adm_step allowed root s (snd (read_reservation env run_id s))"
| guards: "e_root env = root \<Longrightarrow> adm_step allowed root s (snd (plan_lifecycle_guard env plan source req s))"

inductive adm_reaches :: "(request \<Rightarrow> bool) \<Rightarrow> string \<Rightarrow> adm_store \<Rightarrow> adm_store \<Rightarrow> bool"
  for allowed root where
  here: "adm_reaches allowed root s s"
| after: "adm_reaches allowed root s t \<Longrightarrow> adm_step allowed root t u \<Longrightarrow> adm_reaches allowed root s u"

context journal_law
begin

lemma step_keeps: "adm_step allowed root s t \<Longrightarrow> holds root s \<Longrightarrow> holds root t"
  by (induction rule: adm_step.induct) (auto intro: admission_keeps call_keeps)

lemma reaches_keeps: "adm_reaches allowed root s t \<Longrightarrow> holds root s \<Longrightarrow> holds root t"
  by (induction rule: adm_reaches.induct) (auto intro: step_keeps)

end

subsection \<open>One live reservation for each tag\<close>

text \<open>
  A tag of a reservation, such as its plan or its predecessor, that operations other than admission
  do not change, and that at most one live reservation may carry.
\<close>

definition live_tags :: "(reservation \<Rightarrow> 'a option) \<Rightarrow> reservations \<Rightarrow> bool" where
  "live_tags tag rs =
     (\<forall>k r k' r'. (k, r) \<in> set rs \<and> (k', r') \<in> set rs \<and> live_state (r_state r) \<and> live_state (r_state r') \<and>
        tag r \<noteq> None \<and> tag r = tag r' \<longrightarrow> k = k')"

lemma live_tags_subset: "live_tags tag rs \<Longrightarrow> set rs' \<subseteq> set rs \<Longrightarrow> live_tags tag rs'"
  unfolding live_tags_def by blast

lemma not_released_live: "r_state r \<noteq> Released \<longleftrightarrow> live_state (r_state r)"
  by (cases "r_state r") (simp_all add: live_state_def)

text \<open>An entry of the journal replaced by one whose tag no other live entry carries.\<close>

lemma live_tags_update:
  assumes tags: "live_tags tag rs" and wf: "distinct (map fst rs)"
    and fresh: "\<And>k' r'. (k', r') \<in> set rs \<Longrightarrow> k' \<noteq> k \<Longrightarrow> live_state (r_state r') \<Longrightarrow> tag r \<noteq> None \<Longrightarrow> tag r' \<noteq> tag r"
  shows "live_tags tag (AList.update k r rs)"
proof -
  have entry: "k' = k \<and> r' = r \<or> k' \<noteq> k \<and> (k', r') \<in> set rs" if "(k', r') \<in> set (AList.update k r rs)" for k' r'
  proof -
    from that wf have "map_of (AList.update k r rs) k' = Some r'"
      by (simp add: AList.distinct_update)
    then show ?thesis by (auto simp: AList.update_conv' split: if_splits dest: map_of_SomeD)
  qed
  show ?thesis
    unfolding live_tags_def
  proof (intro allI impI, elim conjE)
    fix a x b y
    assume *: "(a, x) \<in> set (AList.update k r rs)" "(b, y) \<in> set (AList.update k r rs)"
      "live_state (r_state x)" "live_state (r_state y)" "tag x \<noteq> None" "tag x = tag y"
    from entry [OF *(1)] entry [OF *(2)] show "a = b"
    proof (elim disjE conjE)
      assume "a \<noteq> k" "(a, x) \<in> set rs" "b \<noteq> k" "(b, y) \<in> set rs"
      with tags * show ?thesis unfolding live_tags_def by blast
    next
      assume "a = k" "x = r" "b \<noteq> k" "(b, y) \<in> set rs"
      with fresh [of b y] * show ?thesis by auto
    next
      assume "a \<noteq> k" "(a, x) \<in> set rs" "b = k" "y = r"
      with fresh [of a x] * show ?thesis by auto
    qed simp
  qed
qed

locale stable_tag =
  fixes tag :: "reservation \<Rightarrow> 'a option" and allowed :: "request \<Rightarrow> bool"
  assumes reconcile_tag: "tag (reconcile_one env ev r) = tag r"
    and change_tag: "tag (r\<lparr>r_state := t, r_retained := c, r_bound := b, r_updated := u\<rparr>) = tag r"
    and admit_tag: "allowed q \<Longrightarrow> resume_source q = Inr (source, direct) \<Longrightarrow>
      require_unique_successor env source valid rs = Inr () \<Longrightarrow>
      (\<And>k. key = Some k \<Longrightarrow> require_unique_plan_claim env k source (Some valid) rs direct = Inr ()) \<Longrightarrow>
      r_plan_key r = key \<Longrightarrow> r_source r = source \<Longrightarrow>
      (k', r') \<in> set rs \<Longrightarrow> k' \<noteq> valid \<Longrightarrow> live_state (r_state r') \<Longrightarrow> tag r \<noteq> None \<Longrightarrow> tag r' \<noteq> tag r"
    and allowed_tag: "allowed q \<Longrightarrow> q_proof q' = No_Proof \<Longrightarrow> allowed q'"

sublocale stable_tag \<subseteq> journal_law "live_tags tag" allowed
proof unfold_locales
  fix rs :: reservations and env m
  assume tags: "live_tags tag rs"
  have "\<exists>r. (k, r) \<in> set rs \<and> live_state (r_state r) \<and> tag r = tag r'"
    if "(k, r') \<in> set (map (reconcile_entry env m) rs)" "live_state (r_state r')" for k r'
    using that
    by (auto simp: reconcile_entry_def reconcile_tag not_released_live [symmetric] split: if_splits)
  with tags show "live_tags tag (map (reconcile_entry env m) rs)"
    unfolding live_tags_def by metis
next
  fix rs :: reservations and k t c b u and r :: reservation
  assume *: "journal_wf rs" "live_tags tag rs" "map_of rs k = Some r" "r_state r \<noteq> Released"
  show "live_tags tag (AList.update k (r\<lparr>r_state := t, r_retained := c, r_bound := b, r_updated := u\<rparr>) rs)"
  proof (rule live_tags_update [OF *(2)])
    fix k' r'
    assume "(k', r') \<in> set rs" "k' \<noteq> k" "live_state (r_state r')"
      "tag (r\<lparr>r_state := t, r_retained := c, r_bound := b, r_updated := u\<rparr>) \<noteq> None"
    with *(2,4) map_of_SomeD [OF *(3)]
    show "tag r' \<noteq> tag (r\<lparr>r_state := t, r_retained := c, r_bound := b, r_updated := u\<rparr>)"
      unfolding live_tags_def not_released_live change_tag by metis
  qed (use *(1) in \<open>simp add: journal_wf_def\<close>)
next
  fix rs :: reservations and q source direct env valid key and r :: reservation and p
  assume *: "journal_wf rs" "live_tags tag rs" "allowed q" "resume_source q = Inr (source, direct)"
    "require_unique_successor env source valid rs = Inr ()"
    "\<And>k. key = Some k \<Longrightarrow> require_unique_plan_claim env k source (Some valid) rs direct = Inr ()"
    "r_plan_key r = key" "r_source r = source"
  show "live_tags tag (AList.update valid r (filter p rs))"
  proof (rule live_tags_update)
    show "live_tags tag (filter p rs)" by (rule live_tags_subset [OF *(2)]) auto
    show "distinct (map fst (filter p rs))"
      using *(1) by (simp add: journal_wf_def distinct_map_filter)
  qed (use admit_tag [OF *(3-8)] in auto)
qed (auto intro: allowed_tag live_tags_subset)

text \<open>The plan of a run, when no direct-resume proof is presented; and its predecessor, always.\<close>

definition without_proof :: "request \<Rightarrow> bool" where
  "without_proof q = (q_proof q = No_Proof)"

interpretation plan_tag: stable_tag r_plan_key without_proof
proof unfold_locales
  fix q source direct env valid and rs :: reservations and key k' and r r' :: reservation
  assume *: "without_proof q" "resume_source q = Inr (source, direct)"
    "\<And>k. key = Some k \<Longrightarrow> require_unique_plan_claim env k source (Some valid) rs direct = Inr ()"
    "r_plan_key r = key" "(k', r') \<in> set rs" "k' \<noteq> valid" "live_state (r_state r')" "r_plan_key r \<noteq> None"
  then obtain k where k: "key = Some k" by auto
  from *(1,2) have "\<not> direct"
    by (auto simp: without_proof_def resume_source_def rbind_Inr_iff split: option.splits)
  with *(3) [OF k] have "\<not> list_ex (reservation_claims m k source (Some valid) False) rs"
    if "env_evidence env = Inr m" for m
    using that by (auto simp: require_unique_plan_claim_def Let_def guard_r_Inr_iff rbind_Inr_iff)
  moreover from *(3) [OF k] obtain m where "env_evidence env = Inr m"
    by (auto simp: require_unique_plan_claim_def rbind_Inr_iff)
  ultimately show "r_plan_key r' \<noteq> r_plan_key r"
    using * k by (auto simp: list_ex_iff reservation_claims_def Let_def)
qed (simp_all add: reconcile_one_keeps without_proof_def)

interpretation source_tag: stable_tag r_source "\<lambda>_. True"
proof unfold_locales
  fix source env valid and rs :: reservations and k' and r r' :: reservation
  assume *: "require_unique_successor env source valid rs = Inr ()" "r_source r = source"
    "(k', r') \<in> set rs" "k' \<noteq> valid" "live_state (r_state r')" "r_source r \<noteq> None"
  then obtain src where src: "source = Some src" by auto
  from *(1) obtain m where "\<not> list_ex (unresolved_successor m src valid) rs"
    by (auto simp: require_unique_successor_def src rbind_Inr_iff guard_r_Inr_iff)
  with * src show "r_source r' \<noteq> r_source r"
    by (auto simp: list_ex_iff unresolved_successor_def Let_def)
qed (simp_all add: reconcile_one_keeps)

end
