(* ===== verification/Admission_Samples.thy ===== *)
theory Admission_Samples
  imports Admission_Operations
begin

text \<open>
  A small project to evaluate admission on: one checkout without runs, whose plans resolve to
  themselves, and variants with one run.
\<close>

definition empty_view :: root_view where
  "empty_view = \<lparr>v_runs = No_Directory, v_launches = No_Directory, v_startups = No_Directory,
     v_run_dir = (\<lambda>_. Gone), v_status = (\<lambda>_. Inl (Not_Found ''no run'')),
     v_manifest = (\<lambda>_. Inr None), v_startup = (\<lambda>_. Inr []), v_metadata = (\<lambda>_. Inr None),
     v_legacy = (\<lambda>_. Meta_Missing)\<rparr>"

definition view_with :: "string \<Rightarrow> run_status \<Rightarrow> root_view" where
  "view_with run_id st = empty_view\<lparr>v_runs := Listing [(run_id, Directory)], v_status := (\<lambda>_. Inr st)\<rparr>"

definition sample_status :: "string \<Rightarrow> dict \<Rightarrow> run_status" where
  "sample_status st e = \<lparr>s_status = st, s_ownership = ''control_plane'', s_unit = Some ''unit'',
     s_phase = Some ''unit_started'', s_evidence = JObj e\<rparr>"

definition sample_deps :: dep_env where
  "sample_deps = \<lparr>x_root = ''/p'', x_sha = (\<lambda>_. replicate 64 (CHR ''a'')),
     x_project = (\<lambda>r. Identity ''/p'' r), x_plans_symlink = (\<lambda>_. False),
     x_plan_dir = (\<lambda>_ _. Plan_Dir_Absent), x_owners = (\<lambda>_. Some []), x_identity = (\<lambda>_ _. None),
     x_runs = (\<lambda>_. History_Absent), x_save = Save_Ok\<rparr>"

definition sample_nonce :: string where
  "sample_nonce = replicate 32 (CHR ''0'')"

definition sample_env :: "root_view \<Rightarrow> int \<Rightarrow> adm_env" where
  "sample_env v lim = \<lparr>e_root = ''/p'', e_checkout = ''/p'', e_git_entry = False, e_git = Git_Exit,
     e_worktree = (\<lambda>_. Not_A_Checkout), e_views = (\<lambda>_. v), e_units = None,
     a_lock = Lock_Held, a_now = ''now'', a_nonce = sample_nonce, a_pid = 7,
     a_birth = (\<lambda>_. Some ''linux-start-ticks:1''), a_liveness = (\<lambda>_. ''present''),
     a_settings = Some \<lparr>g_auto = True, g_limit = lim\<rparr>, a_resolve = (\<lambda>_ p. Resolved p True),
     a_plan = (\<lambda>_. Plan_Open_Fails), a_sha = (\<lambda>_. replicate 64 (CHR ''a'')),
     a_identity = (\<lambda>_ _. None), a_deps = sample_deps\<rparr>"

definition sample_store :: adm_store where
  "sample_store = \<lparr>st_journal = No_File, st_inventory = No_File, st_saves = []\<rparr>"

definition sample_request :: "string \<Rightarrow> string option \<Rightarrow> request" where
  "sample_request run_id plan = \<lparr>q_run_id = run_id, q_plan = plan, q_key = None, q_source = None,
     q_automatic = False, q_revision = None, q_identity = None, q_proof = No_Proof\<rparr>"

definition one_admitted :: adm_store where
  "one_admitted = snd (acquire (sample_env empty_view 1) (sample_request ''run-a'' (Some ''/p/plans/x.md'')) sample_store)"

text \<open>The process that made the reservation is gone.\<close>

definition orphan_env :: adm_env where
  "orphan_env = (sample_env empty_view 1)\<lparr>a_birth := (\<lambda>_. None), a_liveness := (\<lambda>_. ''absent'')\<rparr>"

text \<open>A project with one run, active or stopped.\<close>

definition active_env :: adm_env where
  "active_env = sample_env (view_with ''run-a'' (sample_status ''running'' [(''unit_active'', JBool True)])) 1"

definition stopped_env :: adm_env where
  "stopped_env = sample_env (view_with ''run-a'' (sample_status ''owner_stopped'' [])) 1"

text \<open>A project whose run \<^verbatim>\<open>run-p\<close> its owner stopped, and a request that continues it.\<close>

definition resume_view :: root_view where
  "resume_view = (view_with ''run-p''
     \<lparr>s_status = ''owner_stopped'', s_ownership = ''control_plane'', s_unit = Some (unit_for ''run-p''),
      s_phase = Some ''owner_stopped'', s_evidence = JObj []\<rparr>)\<lparr>v_manifest := (\<lambda>_. Inr (Some
     \<lparr>m_run_id = ''run-p'', m_plan_path = ''/p/plans/y.md'', m_unit = Some (unit_for ''run-p''),
      m_root = Some ''/p'', m_restarted = None\<rparr>))\<rparr>"

definition resume_request :: "string \<Rightarrow> request" where
  "resume_request run_id = (sample_request run_id None)\<lparr>q_source := Some ''run-p''\<rparr>"

end
