(* ===== verification/Project_Admission_Properties.thy ===== *)
theory Project_Admission_Properties
  imports Admission_Laws Admission_Samples
begin

text \<open>
  The properties of project admission: one live reservation per plan and per predecessor, admission
  within the limit, release and reconciliation only on evidence, the journal's round trip, its
  compaction, and the sizes it does not check.
\<close>

subsection \<open>Runs that return\<close>

lemma abind_Inr_iff:
  "abind m f = (Inr y, s') \<longleftrightarrow> (\<exists>x s1. m = (Inr x, s1) \<and> f x s1 = (Inr y, s'))"
  by (cases m rule: prod.exhaust [case_product sum.exhaust]) (auto simp: abind_def split: sum.splits prod.splits)

lemma lift_eq [simp]: "lift r s = (Inr x, s') \<longleftrightarrow> r = Inr x \<and> s' = s"
  by (auto simp: lift_def)

lemma locked_Inr: "locked env body s = (Inr y, s') \<Longrightarrow> body s = (Inr y, s')"
  by (simp add: locked_def split: adm_lock.splits)

lemma save_Inr:
  "save_locked env rs s = (Inr u, s') \<Longrightarrow>
   st_journal s' = written (e_root env) rs \<and> length rs \<le> MAX_RESERVATIONS"
  using save_cases by fastforce

lemma load_Inr:
  assumes "load_locked env preserve s = (Inr rs, s')"
  shows "\<exists>rs0 p. journal_at (e_root env) s = Inr rs0 \<and> rs = filter p rs0 \<and>
    (\<forall>k r. r_state r \<noteq> Released \<or> r_retained r \<or> k \<in> set preserve \<longrightarrow> p (k, r)) \<and>
    length rs \<le> MAX_RESERVATIONS \<and>
    (rs = rs0 \<and> s' = s \<or> st_journal s' = written (e_root env) rs)"
proof -
  from assms obtain rs0 where j: "journal_at (e_root env) s = Inr rs0"
    by (auto simp: load_locked_def journal_at_def split: sum.splits)
  with assms obtain rs1 where c: "compact_released rs0 preserve 0 = Inr rs1"
    by (auto simp: load_locked_def journal_at_def [symmetric] split: sum.splits)
  have "rs = rs1 \<and> (rs = rs0 \<and> s' = s \<or> st_journal s' = written (e_root env) rs)"
    using assms j c save_Inr
    by (auto simp: load_locked_def journal_at_def [symmetric] abind_Inr_iff split: if_splits)
  with j compact_Inr [OF c] show ?thesis by auto
qed

lemma reconcile_Inr:
  assumes "reconcile_locked env rs s = (Inr rs', s')"
  shows "(rs' = rs \<and> s' = s \<and> (\<forall>k r. (k, r) \<in> set rs \<longrightarrow> r_state r = Released)) \<or>
    (\<exists>m. env_evidence env = Inr m \<and> rs' = map (reconcile_entry env m) rs \<and>
       (rs' = rs \<and> s' = s \<or> st_journal s' = written (e_root env) rs'))"
proof (cases "list_ex (\<lambda>(k, r). r_state r \<noteq> Released) rs")
  case True
  with assms show ?thesis
    by (auto simp: reconcile_locked_def Let_def abind_Inr_iff split: if_splits dest: save_Inr)
next
  case False
  with assms show ?thesis by (auto simp: reconcile_locked_def list_ex_iff)
qed

subsection \<open>One live reservation per plan and per predecessor\<close>

lemma no_file_holds: "st_journal s = No_File \<Longrightarrow> journal_at root s = Inr []"
  by (simp add: journal_at_def read_json_file_def decode_state_def)

lemma live_tagsD:
  assumes "live_tags tag rs" "(k, r) \<in> set rs" "(k', r') \<in> set rs"
    "live_state (r_state r)" "live_state (r_state r')" "tag r = Some p" "tag r' = Some p"
  shows "k = k'"
  using assms unfolding live_tags_def by (metis option.distinct(1))

text \<open>
  C4. From an empty journal on, whatever calls are made without a direct-resume proof, in whatever
  environments and with whatever failures of their writes, two live reservations for the same plan are
  the same run's.
\<close>

theorem plan_has_one_live_reservation:
  assumes "st_journal s = No_File" and "adm_reaches without_proof root s t"
    and "journal_at root t = Inr rs" and "(k, r) \<in> set rs" and "(k', r') \<in> set rs"
    and "live_state (r_state r)" and "live_state (r_state r')"
    and "r_plan_key r = Some p" and "r_plan_key r' = Some p"
  shows "k = k'"
proof -
  have "plan_tag.holds root s"
    by (simp add: plan_tag.holds_def no_file_holds [OF assms(1)] live_tags_def)
  from plan_tag.reaches_keeps [OF assms(2) this] assms(3) have "live_tags r_plan_key rs"
    by (simp add: plan_tag.holds_def)
  then show ?thesis by (rule live_tagsD) (rule assms)+
qed

lemma returned: "\<not> is_error (fst m) \<Longrightarrow> \<exists>x. m = (Inr x, snd m)"
  by (cases m; cases "fst m") auto

theorem plan_has_one_live_reservation_witness:
  "\<exists>rs k r. journal_at ''/p'' (snd (acquire (sample_env empty_view 5)
      (sample_request ''run-b'' (Some ''/p/plans/x.md'')) one_admitted)) = Inr rs \<and> (k, r) \<in> set rs \<and>
    live_state (r_state r) \<and> r_plan_key r = Some ''plans/x.md'' \<and> k = ''run-a''"
proof -
  let ?q = "\<lambda>i. sample_request i (Some ''/p/plans/x.md'')"
  let ?t = "snd (acquire (sample_env empty_view 5) (?q ''run-b'') one_admitted)"
  let ?r = "\<lparr>r_run_id = ''run-a'', r_nonce = sample_nonce, r_state = Reserved, r_source = None,
    r_plan_key = Some ''plans/x.md'', r_key = None, r_retained = False, r_bound = False,
    r_owner_pid = Some 7, r_owner_birth = Some ''linux-start-ticks:1'', r_created = ''now'', r_updated = ''now''\<rparr>"
  have step: "adm_step without_proof ''/p'' s (snd (acquire (sample_env empty_view n) (?q i) s))" for n i s
    by (rule adm_step.acquires) (simp_all add: sample_env_def sample_request_def without_proof_def)
  have reach: "adm_reaches without_proof ''/p'' sample_store ?t"
    unfolding one_admitted_def by (rule adm_reaches.after [OF adm_reaches.after [OF adm_reaches.here step] step])
  have start: "st_journal sample_store = No_File" by (simp add: sample_store_def)
  have j: "journal_at ''/p'' ?t = Inr [(''run-a'', ?r)]" by code_simp
  have live: "live_state (r_state ?r)" by (simp add: live_state_def)
  have "fst (hd [(''run-a'', ?r)]) = ''run-a''"
    by (rule plan_has_one_live_reservation [OF start reach j, where p = "''plans/x.md''" and r = ?r and r' = ?r])
       (use live in simp_all)
  with j live show ?thesis by fastforce
qed

text \<open>
  C26. From an empty journal on, whatever calls are made, direct resumes included, at most one live
  reservation continues a given predecessor.
\<close>

theorem predecessor_has_one_live_successor:
  assumes "st_journal s = No_File" and "adm_reaches (\<lambda>_. True) root s t"
    and "journal_at root t = Inr rs" and "(k, r) \<in> set rs" and "(k', r') \<in> set rs"
    and "live_state (r_state r)" and "live_state (r_state r')"
    and "r_source r = Some p" and "r_source r' = Some p"
  shows "k = k'"
proof -
  have "source_tag.holds root s"
    by (simp add: source_tag.holds_def no_file_holds [OF assms(1)] live_tags_def)
  from source_tag.reaches_keeps [OF assms(2) this] assms(3) have "live_tags r_source rs"
    by (simp add: source_tag.holds_def)
  then show ?thesis by (rule live_tagsD) (rule assms)+
qed

theorem predecessor_has_one_live_successor_witness:
  "\<exists>rs k r. journal_at ''/p'' (snd (acquire (sample_env resume_view 5) (resume_request ''run-b'') sample_store)) = Inr rs \<and>
    (k, r) \<in> set rs \<and> live_state (r_state r) \<and> r_source r = Some ''run-p'' \<and> k = ''run-b''"
proof -
  let ?t = "snd (acquire (sample_env resume_view 5) (resume_request ''run-b'') sample_store)"
  let ?r = "\<lparr>r_run_id = ''run-b'', r_nonce = sample_nonce, r_state = Reserved, r_source = Some ''run-p'',
    r_plan_key = None, r_key = None, r_retained = False, r_bound = False,
    r_owner_pid = Some 7, r_owner_birth = Some ''linux-start-ticks:1'', r_created = ''now'', r_updated = ''now''\<rparr>"
  have "adm_step (\<lambda>_. True) ''/p'' sample_store ?t"
    by (rule adm_step.acquires) (simp_all add: sample_env_def)
  then have reach: "adm_reaches (\<lambda>_. True) ''/p'' sample_store ?t"
    by (rule adm_reaches.after [OF adm_reaches.here])
  have start: "st_journal sample_store = No_File" by (simp add: sample_store_def)
  have j: "journal_at ''/p'' ?t = Inr [(''run-b'', ?r)]" by code_simp
  have live: "live_state (r_state ?r)" by (simp add: live_state_def)
  have "fst (hd [(''run-b'', ?r)]) = ''run-b''"
    by (rule predecessor_has_one_live_successor [OF start reach j, where p = "''run-p''" and r = ?r and r' = ?r])
       (use live in simp_all)
  with j live show ?thesis by fastforce
qed

subsection \<open>Counting occupied slots\<close>

lemma distinct_stronger: "distinct (map fst m) \<Longrightarrow> distinct (map fst (stronger k c m))"
  by (simp add: stronger_def AList.distinct_update split: option.split)

lemma distinct_evidence_of_ids:
  "evidence_of_ids env v legacy ids m = Inr m' \<Longrightarrow> distinct (map fst m) \<Longrightarrow> distinct (map fst m')"
  by (induction env v legacy ids m rule: evidence_of_ids.induct)
     (auto simp: rbind_Inr_iff distinct_stronger)

lemma distinct_evidence_of_roots:
  "evidence_of_roots env roots m = Inr m' \<Longrightarrow> distinct (map fst m) \<Longrightarrow> distinct (map fst m')"
  by (induction env roots m rule: evidence_of_roots.induct)
     (auto simp: rbind_Inr_iff split: sum.splits prod.splits dest: distinct_evidence_of_ids)

lemma distinct_all_run_evidence: "all_run_evidence env = Inr m \<Longrightarrow> distinct (map fst m)"
  by (auto simp: all_run_evidence_def rbind_Inr_iff intro: distinct_evidence_of_roots)

lemma length_four:
  assumes "\<And>x. x \<in> set xs \<Longrightarrow> t x \<in> {Reserved, Starting, Active, Uncertain}"
  shows "length (filter (\<lambda>x. t x = Reserved) xs) + length (filter (\<lambda>x. t x = Starting) xs) +
    length (filter (\<lambda>x. t x = Active) xs) + length (filter (\<lambda>x. t x = Uncertain) xs) = length xs"
  using assms by (induction xs) auto

definition live_count :: "string option \<Rightarrow> reservations \<Rightarrow> nat" where
  "live_count excl rs = length (filter (\<lambda>(k, r). Some k \<noteq> excl \<and> live_state (r_state r)) rs)"

lemma count_states:
  "count_state Reserved excl rs + count_state Starting excl rs + count_state Active excl rs +
   count_state Uncertain excl rs = live_count excl rs"
  unfolding count_state_def live_count_def
  by (induction rs) (auto simp: live_state_def)

lemma unmanaged_ids_iff:
  "distinct (map fst m) \<Longrightarrow> k \<in> set (unmanaged_ids excl rs m) \<longleftrightarrow>
     k \<notin> set (occupied_run_ids excl rs) \<and> Some k \<noteq> excl \<and>
     charged_state (ev_state (evidence_or (evidence Ev_Absent) m k)) \<noteq> None"
  by (auto simp: unmanaged_ids_def evidence_or_def charged_state_def evidence_def image_iff
      split: option.splits dest: map_of_SomeD)
     (metis map_of_SomeD map_of_is_SomeI option.distinct(1) option.inject)+

lemma charged_live: "charged_state e = Some t \<Longrightarrow> t \<in> {Reserved, Starting, Active, Uncertain}"
  by (auto simp: charged_state_def split: ev_state.splits)

lemma count_unmanaged_states:
  assumes "distinct (map fst m)" and "ids = unmanaged_ids excl rs m"
  shows "count_unmanaged Reserved m ids + count_unmanaged Starting m ids + count_unmanaged Active m ids +
    count_unmanaged Uncertain m ids = length ids"
proof -
  let ?c = "\<lambda>k. charged_state (ev_state (evidence_or (evidence Ev_Absent) m k))"
  have some: "?c k = Some (the (?c k))" "the (?c k) \<in> {Reserved, Starting, Active, Uncertain}"
    if "k \<in> set ids" for k
    using that assms charged_live by (auto simp: unmanaged_ids_iff)
  have "count_unmanaged t m ids = length (filter (\<lambda>k. the (?c k) = t) ids)" for t
    unfolding count_unmanaged_def
    by (rule arg_cong [where f = length], rule filter_cong [OF refl]) (metis option.inject some(1))
  with length_four [of ids "\<lambda>k. the (?c k)", OF some(2)] show ?thesis by simp
qed

lemma occupied_count_snapshot:
  assumes "env_evidence env = Inr m0" "snapshot_locked env rs excl extra = Inr n"
  shows "occupied_count n = live_count excl rs +
    length (unmanaged_ids excl rs (case extra of None \<Rightarrow> m0 | Some (k, ev) \<Rightarrow> AList.update k ev m0))"
proof -
  let ?m = "case extra of None \<Rightarrow> m0 | Some (k, ev) \<Rightarrow> AList.update k ev m0"
  have "distinct (map fst ?m)"
    using distinct_all_run_evidence [OF assms(1)]
    by (simp add: AList.distinct_update split: option.split prod.split)
  from count_unmanaged_states [OF this refl, of excl rs] count_states [of excl rs] assms
  show ?thesis by (auto simp: snapshot_locked_def Let_def rbind_Inr_iff occupied_count_def)
qed

subsection \<open>Admission within the limit\<close>

lemma live_count_simps:
  "live_count excl [] = 0"
  "live_count excl ((k, r) # rs) = (if Some k \<noteq> excl \<and> live_state (r_state r) then 1 else 0) + live_count excl rs"
  by (simp_all add: live_count_def)

lemma live_count_absent: "k \<notin> fst ` set rs \<Longrightarrow> live_count (Some k) rs = live_count None rs"
  by (induction rs) (auto simp: live_count_simps)

lemma live_count_update:
  "distinct (map fst rs) \<Longrightarrow> live_count None (AList.update k r rs) =
    live_count (Some k) rs + (if live_state (r_state r) then 1 else 0)"
proof (induction rs)
  case (Cons kr rs)
  then show ?case by (cases kr) (auto simp: live_count_simps live_count_absent)
qed (simp add: live_count_simps)

lemma live_count_filter:
  assumes "\<And>k r. r_state r \<noteq> Released \<Longrightarrow> p (k, r)"
  shows "live_count excl (filter p rs) = live_count excl rs"
  using assms by (induction rs) (auto simp: live_count_def not_released_live)

text \<open>A new live reservation takes one slot and leaves the runs of others as they were.\<close>

lemma unmanaged_after_update:
  assumes "distinct (map fst m0)" "distinct (map fst rs)" "live_state (r_state r)"
    and "\<And>k r. r_state r \<noteq> Released \<Longrightarrow> p (k, r)"
  shows "unmanaged_ids None (AList.update valid r (filter p rs)) m0 =
    unmanaged_ids (Some valid) rs (AList.update valid ev m0)" (is "?L = ?R")
proof -
  let ?rs = "AList.update valid r (filter p rs)"
  have d: "distinct (map fst ?rs)" "distinct (map fst (AList.update valid ev m0))"
    using assms(1,2) by (simp_all add: AList.distinct_update distinct_map_filter)
  have occ: "k \<in> set (occupied_run_ids None ?rs) \<longleftrightarrow> k = valid \<or> k \<in> set (occupied_run_ids (Some valid) rs)" for k
  proof -
    have "k \<in> set (occupied_run_ids None ?rs) \<longleftrightarrow> (\<exists>x. map_of ?rs k = Some x \<and> live_state (r_state x))"
      using d(1) by (auto simp: occupied_run_ids_def image_iff)
    also have "\<dots> \<longleftrightarrow> k = valid \<or> (\<exists>x. (k, x) \<in> set (filter p rs) \<and> live_state (r_state x))"
      using assms(2,3) by (auto simp: AList.update_conv' distinct_map_filter)
    also have "\<dots> \<longleftrightarrow> k = valid \<or> k \<in> set (occupied_run_ids (Some valid) rs)"
      using assms(4) by (auto simp: occupied_run_ids_def image_iff not_released_live)
    finally show ?thesis .
  qed
  have "set ?L = set ?R"
  proof (rule set_eqI)
    fix k
    show "k \<in> set ?L \<longleftrightarrow> k \<in> set ?R"
      unfolding unmanaged_ids_iff [OF assms(1)] unmanaged_ids_iff [OF d(2)] occ
      by (auto simp: evidence_or_def AList.update_conv')
  qed
  moreover have "sorted ?L" "distinct ?L" "sorted ?R" "distinct ?R"
    by (simp_all add: unmanaged_ids_def)
  ultimately show ?thesis by (metis sorted_distinct_set_unique)
qed

text \<open>What a call that admits a new reservation did.\<close>

lemma admit_Inr:
  assumes "admit_request env q valid source direct key rs s = (Inr r, s')" and "journal_wf rs"
    and vk: "validate_key (q_key q) = Inr ()"
  shows "\<exists>p m ev n. env_evidence env = Inr m \<and>
    (\<forall>k r. r_state r \<noteq> Released \<or> r_retained r \<or> k = valid \<longrightarrow> p (k, r)) \<and>
    st_journal s' = written (e_root env) (AList.update valid r (filter p rs)) \<and>
    journal_wf (AList.update valid r (filter p rs)) \<and>
    snapshot_locked env rs (Some valid) (Some (valid, ev)) = Inr n \<and> int (occupied_count n) < n_limit n \<and>
    r_state r = Reserved \<and> r_nonce r = a_nonce env \<and> r_plan_key r = key \<and> r_source r = source"
proof -
  from assms(1) obtain ev n rs1 s1 s2 u where
    ev: "run_evidence_of (evidence_env.truncate env) valid = Inr ev" and
    n: "snapshot_locked env rs (Some valid) (Some (valid, ev)) = Inr n" "\<not> n_limit n \<le> int (occupied_count n)" and
    c: "compact_released rs [valid] (if map_of rs valid = None then 1 else 0) = Inr rs1" and
    f: "fresh_reservation env q valid source key ev (map_of rs valid) = Inr r" and
    sv: "save_locked env (AList.update valid r rs1) s1 = (Inr u, s2)" and s': "s' = s2"
    by (auto simp: admit_request_def Let_def abind_Inr_iff split: if_splits)
  from compact_Inr [OF c] obtain p where p: "rs1 = filter p rs"
    "\<forall>k r. r_state r \<noteq> Released \<or> r_retained r \<or> k \<in> set [valid] \<longrightarrow> p (k, r)" by blast
  from ev obtain m where m: "env_evidence env = Inr m"
    by (auto simp: run_evidence_of_def rbind_Inr_iff)
  note ff = fresh_fields [OF f vk]
  from assms(2) ff have "journal_wf (AList.update valid r (filter p rs))"
    by (simp add: journal_wf_filter journal_wf_update)
  with m p n ff save_Inr [OF sv] s' show ?thesis
    by (intro exI [of _ p] exI [of _ m] exI [of _ ev] exI [of _ n]) auto
qed

definition reconciled_journal :: "adm_env \<Rightarrow> string list \<Rightarrow> adm_store \<Rightarrow> reservations \<Rightarrow> bool" where
  "reconciled_journal env preserve s rs = (\<exists>s'. reconciled env preserve s = (Inr rs, s'))"

lemma journal_wf_reconciled: "reconciled_journal env preserve s rs \<Longrightarrow> journal_wf rs"
  unfolding reconciled_journal_def reconciled_def abind_Inr_iff
  by (auto dest!: load_Inr reconcile_Inr simp: journal_wf_filter journal_wf_reconcile journal_at_wf)

text \<open>A call that returns had the reconciled journal, and either replays an entry of it or admits.\<close>

lemma acquire_Inr:
  assumes "acquire env q s = (Inr r, s')"
  shows "\<exists>rs valid source direct key s1. valid = q_run_id q \<and> reconciled env [valid] s = (Inr rs, s1) \<and>
    validate_key (q_key q) = Inr () \<and> resume_source q = Inr (source, direct) \<and>
    (map_of rs valid = Some r \<and> live_state (r_state r) \<and> s' = s1 \<or>
     (\<forall>c. map_of rs valid = Some c \<longrightarrow> \<not> live_state (r_state c)) \<and>
     admit_request env q valid source direct key rs s1 = (Inr r, s'))"
proof -
  from assms obtain valid source direct where
    v: "validate_run_id (JStr (q_run_id q)) = Inr valid" and
    src: "resume_source q = Inr (source, direct)" and
    vk: "validate_key (q_key q) = Inr ()" and
    l: "locked env (acquire_locked env q valid source direct) s = (Inr r, s')"
    by (auto simp: acquire_def abind_Inr_iff split: if_splits)
  from v have valid: "valid = q_run_id q" by (auto dest: validate_run_id_Inr)
  from locked_Inr [OF l] obtain key rs s1 where
    rec: "reconciled env [valid] s = (Inr rs, s1)" and
    rest: "(case map_of rs valid of
       None \<Rightarrow> admit_request env q valid source direct key rs s1
     | Some current \<Rightarrow>
         abind (lift (assert_request_matches current (q_key q) source key) s1) (\<lambda>_ s.
         if live_state (r_state current) then (Inr current, s)
         else admit_request env q valid source direct key rs s)) = (Inr r, s')"
    unfolding acquire_locked_def reconciled_def abind_Inr_iff lift_eq by blast
  from rest have "map_of rs valid = Some r \<and> live_state (r_state r) \<and> s' = s1 \<or>
     (\<forall>c. map_of rs valid = Some c \<longrightarrow> \<not> live_state (r_state c)) \<and>
     admit_request env q valid source direct key rs s1 = (Inr r, s')"
    by (auto simp: abind_Inr_iff split: option.splits if_splits)
  with rec vk src valid show ?thesis by blast
qed

text \<open>
  C9. A call that admits a run without a live reservation writes a journal in which the run holds a
  reserved slot, and whose occupied slots, runs without a reservation included, are within the
  project's limit.
\<close>

theorem admission_within_the_limit:
  assumes "acquire env q s = (Inr r, s')" and "reconciled_journal env [q_run_id q] s rs"
    and "\<And>c. map_of rs (q_run_id q) = Some c \<Longrightarrow> \<not> live_state (r_state c)"
  shows "\<exists>rs' n. st_journal s' = written (e_root env) rs' \<and> map_of rs' (q_run_id q) = Some r \<and>
    r_state r = Reserved \<and> snapshot_locked env rs' None None = Inr n \<and> int (occupied_count n) \<le> n_limit n"
proof -
  let ?id = "q_run_id q"
  from acquire_Inr [OF assms(1)] assms(2,3) obtain source direct key s1 where
    vk: "validate_key (q_key q) = Inr ()" and
    adm: "admit_request env q ?id source direct key rs s1 = (Inr r, s')"
    by (auto simp: reconciled_journal_def)
  have wf: "journal_wf rs" by (rule journal_wf_reconciled [OF assms(2)])
  from admit_Inr [OF adm wf vk] obtain p m ev n where
    m: "env_evidence env = Inr m" and
    p: "\<And>k r. r_state r \<noteq> Released \<Longrightarrow> p (k, r)" and
    w: "st_journal s' = written (e_root env) (AList.update ?id r (filter p rs))" and
    n: "snapshot_locked env rs (Some ?id) (Some (?id, ev)) = Inr n" "int (occupied_count n) < n_limit n" and
    r: "r_state r = Reserved" by blast
  let ?rs = "AList.update ?id r (filter p rs)"
  have d: "distinct (map fst rs)" "distinct (map fst (filter p rs))" "distinct (map fst m)"
    using wf distinct_all_run_evidence [OF m] by (simp_all add: journal_wf_def distinct_map_filter)
  have live: "live_state (r_state r)" using r by (simp add: live_state_def)
  from n(1) obtain n' where n': "snapshot_locked env ?rs None None = Inr n'" "n_limit n' = n_limit n"
    by (auto simp: snapshot_locked_def Let_def rbind_Inr_iff m)
  have "occupied_count n' = occupied_count n + 1"
    using occupied_count_snapshot [OF m n'(1)] occupied_count_snapshot [OF m n(1)]
      unmanaged_after_update [where p = p, OF d(3) d(1) live p] live_count_update [OF d(2)] live live_count_filter [where p = p, OF p]
    by simp
  with n(2) n' w r d(2) show ?thesis
    by (intro exI [of _ ?rs] exI [of _ n']) (simp add: AList.update_conv')
qed

theorem admission_within_the_limit_witness:
  "\<exists>rs' n. st_journal one_admitted = written ''/p'' rs' \<and>
    snapshot_locked (sample_env empty_view 1) rs' None None = Inr n \<and> int (occupied_count n) \<le> n_limit n"
proof -
  let ?env = "sample_env empty_view 1"
  let ?q = "sample_request ''run-a'' (Some ''/p/plans/x.md'')"
  have "\<not> is_error (fst (acquire ?env ?q sample_store))" by code_simp
  from returned [OF this] obtain r where r: "acquire ?env ?q sample_store = (Inr r, one_admitted)"
    by (auto simp: one_admitted_def)
  have "reconciled ?env [''run-a''] sample_store = (Inr [], sample_store)" by code_simp
  then have rec: "reconciled_journal ?env [q_run_id ?q] sample_store []"
    by (auto simp: reconciled_journal_def sample_request_def)
  from admission_within_the_limit [OF r rec] show ?thesis by (auto simp: sample_env_def)
qed

subsection \<open>Evidence of all checkouts\<close>

lemma stronger_at: "\<exists>best. map_of (stronger k c m) k = Some best \<and> evidence_rank c \<le> evidence_rank best"
  by (auto simp: stronger_def AList.update_conv' not_less split: option.split)

lemma stronger_mono:
  "map_of m k = Some b \<Longrightarrow> \<exists>b'. map_of (stronger k' c m) k = Some b' \<and> evidence_rank b \<le> evidence_rank b'"
  by (auto simp: stronger_def AList.update_conv' split: option.split)

lemma evidence_of_ids_mono:
  "evidence_of_ids env v legacy ids m = Inr m' \<Longrightarrow> map_of m k = Some b \<Longrightarrow>
   \<exists>b'. map_of m' k = Some b' \<and> evidence_rank b \<le> evidence_rank b'"
proof (induction env v legacy ids m arbitrary: b rule: evidence_of_ids.induct)
  case (2 env v legacy r rs m)
  from 2(2) obtain c where c: "run_candidate env v legacy r = Inr c"
      "evidence_of_ids env v legacy rs (stronger r c m) = Inr m'" by (auto simp: rbind_Inr_iff)
  from stronger_mono [OF 2(3)] obtain b1 where
    b1: "map_of (stronger r c m) k = Some b1" "evidence_rank b \<le> evidence_rank b1" by blast
  from 2(1) [OF c(2) b1(1)] b1(2) show ?case by (meson le_trans)
qed auto

lemma evidence_of_ids_candidate:
  "evidence_of_ids env v legacy ids m = Inr m' \<Longrightarrow> k \<in> set ids \<Longrightarrow>
   \<exists>c b. run_candidate env v legacy k = Inr c \<and> map_of m' k = Some b \<and> evidence_rank c \<le> evidence_rank b"
proof (induction env v legacy ids m rule: evidence_of_ids.induct)
  case (2 env v legacy r rs m)
  from 2(2) obtain c where c: "run_candidate env v legacy r = Inr c"
      "evidence_of_ids env v legacy rs (stronger r c m) = Inr m'" by (auto simp: rbind_Inr_iff)
  show ?case
  proof (cases "k = r")
    case True
    from stronger_at obtain b where "map_of (stronger r c m) r = Some b" "evidence_rank c \<le> evidence_rank b"
      by blast
    with evidence_of_ids_mono [OF c(2)] c(1) True show ?thesis by (metis le_trans)
  next
    case False
    with 2(1) [OF c(2)] 2(3) show ?thesis by simp
  qed
qed simp

lemma evidence_of_roots_mono:
  "evidence_of_roots env roots m = Inr m' \<Longrightarrow> map_of m k = Some b \<Longrightarrow>
   \<exists>b'. map_of m' k = Some b' \<and> evidence_rank b \<le> evidence_rank b'"
proof (induction env roots m arbitrary: b rule: evidence_of_roots.induct)
  case (2 env root roots m)
  from 2(2) obtain ids legacy m1 where
    m1: "evidence_of_ids env (e_views env root) legacy (sort ids) m = Inr m1"
      "evidence_of_roots env roots m1 = Inr m'" and
    scan: "scan_repository_run_ids (e_views env root) = Inr (ids, legacy)"
    by (auto simp: rbind_Inr_iff split: sum.splits)
  from evidence_of_ids_mono [OF m1(1) 2(3)] obtain b1 where
    b1: "map_of m1 k = Some b1" "evidence_rank b \<le> evidence_rank b1" by blast
  from 2(1) [OF scan refl m1(2) b1(1)] b1(2) show ?case by (meson le_trans)
qed auto

lemma evidence_of_roots_candidate:
  "evidence_of_roots env roots m = Inr m' \<Longrightarrow> root \<in> set roots \<Longrightarrow>
   scan_repository_run_ids (e_views env root) = Inr (ids, legacy) \<Longrightarrow> k \<in> set ids \<Longrightarrow>
   \<exists>c b. run_candidate env (e_views env root) legacy k = Inr c \<and> map_of m' k = Some b \<and>
     evidence_rank c \<le> evidence_rank b"
proof (induction env roots m rule: evidence_of_roots.induct)
  case (2 env r roots m)
  from 2(2) obtain ids' legacy' m1 where
    m1: "evidence_of_ids env (e_views env r) legacy' (sort ids') m = Inr m1"
      "evidence_of_roots env roots m1 = Inr m'" and
    scan: "scan_repository_run_ids (e_views env r) = Inr (ids', legacy')"
    by (auto simp: rbind_Inr_iff split: sum.splits)
  show ?case
  proof (cases "root = r")
    case True
    with scan 2(4) have same: "ids' = ids" "legacy' = legacy" by simp_all
    with 2(5) have "k \<in> set (sort ids')" by simp
    from evidence_of_ids_candidate [OF m1(1) this] evidence_of_roots_mono [OF m1(2)] same True
    show ?thesis by (metis le_trans)
  next
    case False
    with 2(1) [OF scan refl m1(2)] 2(3-5) show ?thesis by simp
  qed
qed simp

lemma rank_active: "evidence_rank c = 5 \<longleftrightarrow> ev_state c = Ev_Active"
  by (simp add: evidence_rank_def split: ev_state.split)

lemma rank_le: "evidence_rank c \<le> 5"
  by (simp add: evidence_rank_def split: ev_state.split)

text \<open>A run whose unit is active in one checkout is active in the evidence of the project.\<close>

lemma active_unit_is_active:
  assumes "all_run_evidence env = Inr m" and "repository_roots env = Inr roots" and "root \<in> set roots"
    and "scan_repository_run_ids (e_views env root) = Inr (ids, legacy)"
    and "k \<in> set ids" and "k \<notin> set legacy"
    and "v_status (e_views env root) k = Inr st"
    and "unit_activity (e_units env) st = Inr (JBool True)"
  shows "\<exists>b. map_of m k = Some b \<and> ev_state b = Ev_Active"
proof -
  from assms(1,2) have "evidence_of_roots env roots [] = Inr m" by (simp add: all_run_evidence_def)
  from evidence_of_roots_candidate [OF this assms(3-5)] obtain c b where
    c: "run_candidate env (e_views env root) legacy k = Inr c" and
    b: "map_of m k = Some b" "evidence_rank c \<le> evidence_rank b" by blast
  from c assms(6-8) have "ev_state c = Ev_Active"
    by (auto simp: run_candidate_def classify_status_def evidence_def)
  with b rank_le [of b] have "ev_state b = Ev_Active" by (simp add: rank_active [symmetric])
  with b(1) show ?thesis by blast
qed

subsection \<open>Release and reconciliation\<close>

lemma truncate_simps [simp]:
  "e_views (evidence_env.truncate env) = e_views env" "e_units (evidence_env.truncate env) = e_units env"
  by (simp_all add: evidence_env.truncate_def)

lemma release_outcome:
  assumes "release env run_id nonce reason retained s = (Inr r, s')"
  shows "\<exists>rs old. journal_at (e_root env) s = Inr rs \<and> map_of rs run_id = Some old \<and> r_nonce old = nonce \<and>
    r_state r = Released \<and> (r_retained old \<longrightarrow> r_retained r) \<and>
    (r = old \<or> (\<exists>ev. run_evidence_of (evidence_env.truncate env) run_id = Inr ev \<and>
       (ev_state ev = Ev_Inactive \<or> (\<not> r_bound old \<and> ev_state ev = Ev_Absent))))"
proof -
  from assms have "locked env (release_locked env run_id nonce retained) s = (Inr r, s')"
    by (auto simp: release_def abind_Inr_iff split: if_splits dest: validate_run_id_Inr)
  from locked_Inr [OF this] obtain rs s1 old where
    load: "load_locked env [run_id] s = (Inr rs, s1)" and
    n: "require_nonce rs run_id nonce = Inr old" and
    rest: "r_state old = Released \<and> r = old \<or>
      (\<exists>ev. run_evidence_of (evidence_env.truncate env) run_id = Inr ev \<and>
        \<not> (\<not> r_bound old \<and> charged_state (ev_state ev) \<noteq> None) \<and>
        \<not> (r_bound old \<and> ev_state ev \<notin> {Ev_Inactive, Ev_Absent}) \<and>
        \<not> (r_bound old \<and> ev_state ev = Ev_Absent) \<and>
        r = old\<lparr>r_state := Released, r_retained := r_retained old \<or> retained, r_updated := a_now env\<rparr>)"
    unfolding release_locked_def abind_Inr_iff lift_eq
    by (auto simp: abind_Inr_iff Let_def split: if_splits)
  from load_Inr [OF load] obtain rs0 p where
    j: "journal_at (e_root env) s = Inr rs0" and rs: "rs = filter p rs0" by blast
  from n have old: "map_of rs run_id = Some old" "r_nonce old = nonce"
    by (auto simp: require_nonce_def split: option.splits if_splits)
  from journal_at_wf [OF j] have "distinct (map fst rs0)" by (simp add: journal_wf_def)
  with map_of_SomeD [OF old(1)] rs have "map_of rs0 run_id = Some old" by simp
  moreover from rest have "r_state r = Released \<and> (r_retained old \<longrightarrow> r_retained r) \<and>
    (r = old \<or> (\<exists>ev. run_evidence_of (evidence_env.truncate env) run_id = Inr ev \<and>
       (ev_state ev = Ev_Inactive \<or> (\<not> r_bound old \<and> ev_state ev = Ev_Absent))))"
    by (auto simp: charged_state_def split: ev_state.splits) (metis ev_state.exhaust)+
  ultimately show ?thesis using j old(2) by blast
qed



lemma reconcile_one_released:
  assumes "r_state r \<noteq> Released" and "r_state (reconcile_one env ev r) = Released"
  shows "ev_state ev = Ev_Inactive \<or>
    ev_state ev = Ev_Absent \<and> \<not> r_bound r \<and> unbound_owner_is_definitely_inactive env r"
  using assms
  by (auto simp: reconcile_one_def Let_def charged_state_def split: if_splits ev_state.splits)

text \<open>The journal a reconciliation leaves, entry by entry.\<close>

lemma reconciled_entry:
  assumes "reconciled env preserve s = (Inr rs, s')" and "journal_at (e_root env) s = Inr rs0"
    and "map_of rs0 k = Some r" and "r_state r \<noteq> Released"
  shows "\<exists>m. env_evidence env = Inr m \<and>
    map_of rs k = Some (reconcile_one env (evidence_or (evidence Ev_Absent) m k) r)"
proof -
  from assms(1) obtain rs1 s1 where
    l: "load_locked env preserve s = (Inr rs1, s1)" and c: "reconcile_locked env rs1 s1 = (Inr rs, s')"
    by (auto simp: reconciled_def abind_Inr_iff)
  from load_Inr [OF l] assms(2) obtain p where
    p: "rs1 = filter p rs0" "\<And>k r. r_state r \<noteq> Released \<Longrightarrow> p (k, r)" by auto
  have mem: "(k, r) \<in> set rs1" using map_of_SomeD [OF assms(3)] p assms(4) by simp
  with assms(4) reconcile_Inr [OF c] obtain m where
    m: "env_evidence env = Inr m" "rs = map (reconcile_entry env m) rs1" by blast
  have "journal_wf rs" unfolding m(2) p(1)
    by (rule journal_wf_reconcile [OF journal_wf_filter [OF journal_at_wf [OF assms(2)]]])
  moreover have "(k, reconcile_one env (evidence_or (evidence Ev_Absent) m k) r) \<in> set rs"
    unfolding m(2) using mem assms(4) by (force simp: reconcile_entry_def image_iff)
  ultimately show ?thesis using m(1) by (auto simp: journal_wf_def)
qed

lemma read_outcome:
  assumes "read_reservation env run_id s = (Inr (Some r), s')"
    and "journal_at (e_root env) s = Inr rs" and "map_of rs run_id = Some old" and "r_state old \<noteq> Released"
  shows "\<exists>ev. run_evidence_of (evidence_env.truncate env) run_id = Inr ev \<and>
    (r_state r = Released \<longrightarrow> ev_state ev = Ev_Inactive \<or>
       ev_state ev = Ev_Absent \<and> \<not> r_bound old \<and> unbound_owner_is_definitely_inactive env old) \<and>
    (ev_state ev = Ev_Active \<longrightarrow> r_state r = Active) \<and>
    r_nonce r = r_nonce old \<and> r_plan_key r = r_plan_key old \<and> r_bound r = r_bound old"
proof -
  from assms(1) obtain rs' s1 where
    rec: "reconciled env [run_id] s = (Inr rs', s1)" and r: "map_of rs' run_id = Some r"
    by (auto simp: read_reservation_def abind_Inr_iff dest!: locked_Inr validate_run_id_Inr)
  from reconciled_entry [OF rec assms(2-4)] obtain m where
    m: "env_evidence env = Inr m" "map_of rs' run_id = Some (reconcile_one env (evidence_or (evidence Ev_Absent) m run_id) old)"
    by blast
  let ?ev = "evidence_or (evidence Ev_Absent) m run_id"
  from m r have r': "r = reconcile_one env ?ev old" by simp
  have "ev_state ?ev = Ev_Active \<Longrightarrow> r_state r = Active"
    by (simp add: r' reconcile_one_def charged_state_def)
  with reconcile_one_released [OF assms(4)] m(1) r' show ?thesis
    by (intro exI [of _ ?ev]) (auto simp: run_evidence_of_def reconcile_one_keeps)
qed

text \<open>
  Reading the queue releases a reservation only if its run is inactive in the evidence of the
  project, or if it never reached a launch and the process that made it is gone; the run of an active
  unit, in any checkout, keeps its slot, as an active one.
\<close>

theorem reconciliation_releases_on_evidence:
  assumes "read_reservation env run_id s = (Inr (Some r), s')"
    and "journal_at (e_root env) s = Inr rs" and "map_of rs run_id = Some old" and "r_state old \<noteq> Released"
  shows "\<exists>ev. run_evidence_of (evidence_env.truncate env) run_id = Inr ev \<and>
    (r_state r = Released \<longrightarrow> ev_state ev = Ev_Inactive \<or>
       ev_state ev = Ev_Absent \<and> \<not> r_bound old \<and> unbound_owner_is_definitely_inactive env old) \<and>
    (ev_state ev = Ev_Active \<longrightarrow> r_state r = Active) \<and>
    r_nonce r = r_nonce old \<and> r_plan_key r = r_plan_key old \<and> r_bound r = r_bound old"
  by (rule read_outcome [OF assms])

theorem reconciliation_releases_on_evidence_witness:
  "\<exists>r s' old. read_reservation orphan_env ''run-a'' one_admitted = (Inr (Some r), s') \<and>
    r_state r = Released \<and> unbound_owner_is_definitely_inactive orphan_env old"
proof -
  let ?r = "\<lparr>r_run_id = ''run-a'', r_nonce = sample_nonce, r_state = Reserved, r_source = None,
    r_plan_key = Some ''plans/x.md'', r_key = None, r_retained = False, r_bound = False,
    r_owner_pid = Some 7, r_owner_birth = Some ''linux-start-ticks:1'', r_created = ''now'', r_updated = ''now''\<rparr>"
  let ?m = "read_reservation orphan_env ''run-a'' one_admitted"
  have m: "fst ?m = Inr (Some (?r\<lparr>r_state := Released\<rparr>))" by code_simp
  then have "?m = (Inr (Some (?r\<lparr>r_state := Released\<rparr>)), snd ?m)" by (simp add: prod_eq_iff)
  moreover have "journal_at (e_root orphan_env) one_admitted = Inr [(''run-a'', ?r)]" by code_simp
  moreover have "run_evidence_of (evidence_env.truncate orphan_env) ''run-a'' = Inr (evidence Ev_Absent)"
    by code_simp
  ultimately show ?thesis
    using reconciliation_releases_on_evidence
      [of orphan_env "''run-a''" one_admitted "?r\<lparr>r_state := Released\<rparr>" "snd ?m" "[(''run-a'', ?r)]" ?r]
    by (auto simp: evidence_def)
qed

text \<open>
  C12. A run whose unit is active in any checkout of the project can neither be released nor lose its
  slot: its release is refused, and every read of its reservation shows it active.
\<close>

theorem active_run_keeps_its_slot:
  assumes "repository_roots (evidence_env.truncate env) = Inr roots" and "root \<in> set roots"
    and "scan_repository_run_ids (e_views env root) = Inr (ids, legacy)"
    and "run_id \<in> set ids" and "run_id \<notin> set legacy"
    and "v_status (e_views env root) run_id = Inr st"
    and "unit_activity (e_units env) st = Inr (JBool True)"
    and "journal_at (e_root env) s = Inr rs" and "map_of rs run_id = Some old" and "r_state old \<noteq> Released"
  shows "(\<exists>e. fst (release env run_id nonce reason retained s) = Inl e) \<and>
    (\<forall>r s'. read_reservation env run_id s = (Inr (Some r), s') \<longrightarrow> r_state r = Active)"
proof -
  have active: "ev_state ev = Ev_Active"
    if "run_evidence_of (evidence_env.truncate env) run_id = Inr ev" for ev
  proof -
    from that obtain m where m: "env_evidence env = Inr m" "ev = evidence_or (evidence Ev_Absent) m run_id"
      by (auto simp: run_evidence_of_def rbind_Inr_iff)
    have "\<exists>b. map_of m run_id = Some b \<and> ev_state b = Ev_Active"
      by (rule active_unit_is_active [OF m(1) assms(1,2) _ assms(4,5), where st = st])
         (use assms(3,6,7) in simp_all)
    with m(2) show ?thesis by (auto simp: evidence_or_def)
  qed
  have "fst (release env run_id nonce reason retained s) \<noteq> Inr r" for r
  proof
    assume "fst (release env run_id nonce reason retained s) = Inr r"
    then have "release env run_id nonce reason retained s = (Inr r, snd (release env run_id nonce reason retained s))"
      by (simp add: prod_eq_iff)
    from release_outcome [OF this] active assms(8-10) show False by auto
  qed
  then have "\<exists>e. fst (release env run_id nonce reason retained s) = Inl e"
    by (cases "fst (release env run_id nonce reason retained s)") auto
  moreover have "r_state r = Active" if "read_reservation env run_id s = (Inr (Some r), s')" for r s'
    using read_outcome [OF that assms(8-10)] active by blast
  ultimately show ?thesis by blast
qed

theorem active_run_keeps_its_slot_witness:
  "\<exists>e. fst (release active_env ''run-a'' sample_nonce [] False one_admitted) = Inl e"
proof -
  let ?v = "view_with ''run-a'' (sample_status ''running'' [(''unit_active'', JBool True)])"
  let ?st = "sample_status ''running'' [(''unit_active'', JBool True)]"
  let ?r = "\<lparr>r_run_id = ''run-a'', r_nonce = sample_nonce, r_state = Reserved, r_source = None,
    r_plan_key = Some ''plans/x.md'', r_key = None, r_retained = False, r_bound = False,
    r_owner_pid = Some 7, r_owner_birth = Some ''linux-start-ticks:1'', r_created = ''now'', r_updated = ''now''\<rparr>"
  have roots: "repository_roots (evidence_env.truncate active_env) = Inr [''/p'']" by code_simp
  have scan: "scan_repository_run_ids (e_views active_env ''/p'') = Inr ([''run-a''], [])" by code_simp
  have st: "v_status (e_views active_env ''/p'') ''run-a'' = Inr ?st"
    by (simp add: active_env_def sample_env_def view_with_def)
  have act: "unit_activity (e_units active_env) ?st = Inr (JBool True)" by code_simp
  have j: "journal_at (e_root active_env) one_admitted = Inr [(''run-a'', ?r)]" by code_simp
  show ?thesis
    by (rule active_run_keeps_its_slot [where old = ?r, OF roots _ scan _ _ st act j, THEN conjunct1]) simp_all
qed

end
