(* ===== verification/Admission_Limits.thy ===== *)
theory Admission_Limits
  imports Project_Admission_Properties Admission_Samples
begin

text \<open>
  What a save leaves can be read back, as long as the journal stays within the size the reader
  accepts, which the writer does not check; and a project whose runs are all proven inactive admits.
\<close>

subsection \<open>Round trip\<close>

text \<open>
  C37. A save that reports success leaves a journal that the next load reads as the same reservations,
  provided its text is within the four megabytes the reader accepts.
\<close>

theorem saved_journal_reads_back:
  assumes "save_locked env rs s = (Inr (), s')" and "journal_wf rs"
    and "json_size (state_payload (e_root env) rs) + 1 \<le> MAX_ADMISSION_STATE_BYTES"
  shows "\<exists>rs'. load_locked env preserve s' = (Inr rs', s') \<and> map_of rs' = map_of rs \<and> set rs' = set rs"
proof -
  from save_Inr [OF assms(1)] have w: "st_journal s' = written (e_root env) rs" "length rs \<le> MAX_RESERVATIONS"
    by auto
  have len: "length (sorted_items rs) = length rs" by (simp add: sorted_items_def)
  have "journal_at (e_root env) s' = Inr (sorted_items rs)"
    by (rule journal_at_written [OF assms(2) w(1) assms(3)])
  then have "load_locked env preserve s' = (Inr (sorted_items rs), s')"
    using w(2) len by (simp add: load_locked_def journal_at_def compact_released_def)
  with assms(2) show ?thesis by (auto simp: journal_wf_def)
qed

theorem saved_journal_reads_back_witness:
  "\<exists>rs'. load_locked (sample_env empty_view 1) [] one_admitted = (Inr rs', one_admitted)"
proof -
  let ?env = "sample_env empty_view 1"
  let ?r = "\<lparr>r_run_id = ''run-a'', r_nonce = sample_nonce, r_state = Reserved, r_source = None,
    r_plan_key = Some ''plans/x.md'', r_key = None, r_retained = False, r_bound = False,
    r_owner_pid = Some 7, r_owner_birth = Some ''linux-start-ticks:1'', r_created = ''now'', r_updated = ''now''\<rparr>"
  have "save_locked ?env [(''run-a'', ?r)] sample_store = (Inr (), one_admitted)" by code_simp
  moreover have "journal_wf [(''run-a'', ?r)]" by code_simp
  moreover have "json_size (state_payload (e_root ?env) [(''run-a'', ?r)]) + 1 \<le> MAX_ADMISSION_STATE_BYTES"
    by code_simp
  ultimately show ?thesis using saved_journal_reads_back by blast
qed

subsection \<open>A journal the reader refuses\<close>

definition crowd_id :: "nat \<Rightarrow> string" where
  "crowd_id i = replicate (i mod 32 + 1) (CHR ''a'') @ CHR ''b'' # replicate (i div 32) (CHR ''c'')"

definition crowd_entry :: "nat \<Rightarrow> string \<times> reservation" where
  "crowd_entry i = (crowd_id i,
     \<lparr>r_run_id = crowd_id i, r_nonce = sample_nonce, r_state = Uncertain, r_source = None,
      r_plan_key = None, r_key = Some (replicate 4096 (CHR ''k'')), r_retained = False, r_bound = True,
      r_owner_pid = None, r_owner_birth = None, r_created = [], r_updated = []\<rparr>)"

definition crowd :: reservations where
  "crowd = map crowd_entry [0..<1024]"

lemma crowd_id_parts:
  "length (takeWhile (\<lambda>c. c = CHR ''a'') (crowd_id i)) = i mod 32 + 1"
  "length (crowd_id i) = i mod 32 + 2 + i div 32"
  by (simp_all add: crowd_id_def takeWhile_append)

lemma crowd_id_inj: "crowd_id i = crowd_id j \<Longrightarrow> i = j"
  using crowd_id_parts [of i] crowd_id_parts [of j] div_mult_mod_eq [of i 32] div_mult_mod_eq [of j 32]
  by simp

lemma crowd_id_valid: "i < 1024 \<Longrightarrow> validate_run_id (JStr (crowd_id i)) = Inr (crowd_id i)"
proof -
  assume "i < 1024"
  then have "i div 32 < 32" by (simp add: less_mult_imp_div_less)
  then have len: "length (crowd_id i) \<le> 64" by (simp add: crowd_id_parts)
  have all: "list_all ascii_lower_alnum (crowd_id i)"
    by (auto simp: crowd_id_def list_all_iff ascii_lower_alnum_def code_def set_replicate_conv_if
        split: if_splits)
  have "canonical_run_id (crowd_id i)"
    using len all unfolding canonical_run_id_def bounded_name_def
    by (auto simp: list_all_iff crowd_id_def)
  moreover have "\<not> starts_with (crowd_id i) ''-''" "crowd_id i \<notin> {''.'', ''..''}"
    by (auto simp: crowd_id_def starts_with_def)
  ultimately show ?thesis using len by (simp add: validate_run_id_def)
qed

lemma crowd_wf: "journal_wf crowd"
proof -
  have "map fst crowd = map crowd_id [0..<1024]"
    by (simp add: crowd_def crowd_entry_def)
  moreover have "distinct (map crowd_id [0..<1024])"
    by (simp add: distinct_map inj_on_def crowd_id_inj)
  moreover have "nonce_ok sample_nonce" by code_simp
  then have "list_all (\<lambda>(k, r). k = r_run_id r \<and> reservation_ok r) crowd"
    by (auto simp: list_all_iff crowd_def crowd_entry_def reservation_ok_def crowd_id_valid)
  ultimately show ?thesis by (simp only: journal_wf_def simp_thms)
qed

lemma str_size_ge: "length s \<le> str_size s"
proof -
  have "1 \<le> esc_size c" for c by (simp add: esc_size_def)
  note one = this
  have "length s \<le> sum_list (map esc_size s)"
  proof (induction s)
    case (Cons c s)
    with one [of c] show ?case by simp
  qed simp
  then show ?thesis by (simp add: str_size_def)
qed

lemma reservation_size: "r_key r = Some k \<Longrightarrow> length k \<le> json_size (JObj (to_dict r))"
  using str_size_ge [of k] by (simp add: to_dict_def)

lemma sum_list_insort: "sum_list (map f (insort_key g x xs)) = f x + (sum_list (map f xs) :: nat)"
  by (induction xs) simp_all

lemma sum_list_sort: "sum_list (map f (sort_key g xs)) = (sum_list (map f xs) :: nat)"
  by (induction xs) (simp_all add: sum_list_insort)

lemma payload_size: "sum_list (map (\<lambda>kr. json_size (JObj (to_dict (snd kr)))) rs) \<le> json_size (state_payload root rs)"
proof -
  let ?f = "\<lambda>kr. json_size (JObj (to_dict (snd kr)))"
  have "sum_list (map ?f xs) \<le>
      sum_list (map (\<lambda>kv. str_size (fst kv) + 1 + json_size (snd kv)) (map (\<lambda>(k, r). (k, JObj (to_dict r))) xs))" for xs
    by (induction xs) (auto simp: add_le_mono split: prod.splits)
  from this [of "sorted_items rs"] have
    "sum_list (map ?f (sorted_items rs)) \<le> json_size (state_payload root rs)"
    by (simp add: state_payload_def case_prod_beta comp_def)
  moreover have "sum_list (map ?f (sorted_items rs)) = sum_list (map ?f rs)"
    unfolding sorted_items_def by (rule sum_list_sort)
  ultimately show ?thesis by (simp only:)
qed

lemma crowd_size: "MAX_ADMISSION_STATE_BYTES < json_size (state_payload root crowd) + 1"
proof -
  have "sum_list (map (\<lambda>i. 4096) [0..<1024::nat]) \<le> sum_list (map (\<lambda>i. json_size (JObj (to_dict (snd (crowd_entry i))))) [0..<1024])"
  proof (rule sum_list_mono)
    fix i
    have "r_key (snd (crowd_entry i)) = Some (replicate 4096 (CHR ''k''))" by (simp add: crowd_entry_def)
    from reservation_size [OF this] show "4096 \<le> json_size (JObj (to_dict (snd (crowd_entry i))))"
      by (simp only: length_replicate)
  qed
  also have "\<dots> \<le> json_size (state_payload root crowd)"
    using payload_size [of crowd root] by (simp add: crowd_def comp_def case_prod_beta)
  finally show ?thesis by (simp add: MAX_ADMISSION_STATE_BYTES_def sum_list_triv)
qed

text \<open>
  The writer bounds the number of reservations and not the size of the journal: there are
  well-formed reservations whose save succeeds and leaves a journal that every later load refuses.
\<close>

theorem saved_journal_can_be_refused:
  "\<exists>rs. journal_wf rs \<and> fst (save_locked env rs (s\<lparr>st_saves := []\<rparr>)) = Inr () \<and>
    journal_at (e_root env) (snd (save_locked env rs (s\<lparr>st_saves := []\<rparr>))) =
      Inl (Safety_Error ''project admission state exceeds the size limit'')"
proof -
  have len: "length crowd = 1024" by (simp add: crowd_def)
  have "save_locked env crowd (s\<lparr>st_saves := []\<rparr>) =
      (Inr (), s\<lparr>st_saves := [], st_journal := written (e_root env) crowd\<rparr>)"
    by (simp add: save_locked_def len MAX_RESERVATIONS_def)
  then show ?thesis
    using crowd_wf crowd_size [of "e_root env"]
    by (intro exI [of _ crowd]) (simp add: journal_at_def read_written)
qed

subsection \<open>Freed slots\<close>

text \<open>What the environment and the request of an ordinary new run look like.\<close>

definition ready_env :: "adm_env \<Rightarrow> bool" where
  "ready_env env =
     (a_lock env = Lock_Held \<and> nonce_ok (a_nonce env) \<and> 1 \<le> a_pid env \<and>
      (case a_birth env (a_pid env) of None \<Rightarrow> True | Some b \<Rightarrow> b \<noteq> [] \<and> length b \<le> 256) \<and>
      (case a_settings env of None \<Rightarrow> False | Some g \<Rightarrow> 1 \<le> g_limit g))"

text \<open>
  A request that continues no run. Its plan, if it names one, has a key, and the checks of an automatic
  request, of the plan's revision, its identity and the setting, pass.
\<close>

definition new_run_request :: "adm_env \<Rightarrow> request \<Rightarrow> string option \<Rightarrow> bool" where
  "new_run_request env q key =
     (validate_run_id (JStr (q_run_id q)) = Inr (q_run_id q) \<and> validate_key (q_key q) = Inr () \<and>
      q_source q = None \<and> q_proof q = No_Proof \<and> require_automatic env q = Inr () \<and>
      request_key env q True = Inr key)"

text \<open>All runs that are known have stopped, and none holds a claim.\<close>

definition all_stopped :: "evidence_map \<Rightarrow> bool" where
  "all_stopped m = list_all (\<lambda>(k, ev). ev = evidence Ev_Inactive) m"

lemma all_stopped_at: "all_stopped m \<Longrightarrow> map_of m k = Some ev \<Longrightarrow> ev = evidence Ev_Inactive"
  by (auto simp: all_stopped_def list_all_iff dest: map_of_SomeD)

lemma reconciled_stopped:
  assumes "all_stopped m" and "fst ` set rs \<subseteq> dom (map_of m)"
  shows "\<forall>kr \<in> set (map (reconcile_entry env m) rs). r_state (snd kr) = Released"
proof
  fix kr assume "kr \<in> set (map (reconcile_entry env m) rs)"
  then obtain k r where kr: "(k, r) \<in> set rs" "kr = reconcile_entry env m (k, r)" by auto
  with assms(2) obtain ev where "map_of m k = Some ev" by force
  with all_stopped_at [OF assms(1) this] have "evidence_or (evidence Ev_Absent) m k = evidence Ev_Inactive"
    by (simp add: evidence_or_def)
  with kr(2) show "r_state (snd kr) = Released"
    by (simp add: reconcile_entry_def reconcile_one_def evidence_def)
qed

lemma stopped_snapshot:
  assumes m: "env_evidence env = Inr m" "all_stopped m" and g: "a_settings env = Some g"
    and rel: "\<forall>kr \<in> set rs. r_state (snd kr) = Released"
  shows "\<exists>n. snapshot_locked env rs (Some k) (Some (k, evidence Ev_Absent)) = Inr n \<and>
    occupied_count n = 0 \<and> n_limit n = g_limit g"
proof -
  let ?m = "AList.update k (evidence Ev_Absent) m"
  from m(1) g obtain n where n: "snapshot_locked env rs (Some k) (Some (k, evidence Ev_Absent)) = Inr n"
      "n_limit n = g_limit g"
    by (simp add: snapshot_locked_def read_settings_def Let_def)
  have live: "live_count (Some k) rs = 0"
    using rel by (simp add: live_count_def filter_empty_conv case_prod_beta live_state_def)
  have d: "distinct (map fst ?m)"
    using distinct_all_run_evidence [OF m(1)] by (simp add: AList.distinct_update)
  have "charged_state (ev_state (evidence_or (evidence Ev_Absent) ?m x)) = None" for x
  proof (cases "map_of m x")
    case None
    then show ?thesis by (simp add: evidence_or_def AList.update_conv' evidence_def charged_state_def)
  next
    case (Some ev)
    then show ?thesis
      by (simp add: all_stopped_at [OF m(2) Some] evidence_or_def AList.update_conv' evidence_def
          charged_state_def)
  qed
  then have none: "x \<notin> set (unmanaged_ids (Some k) rs ?m)" for x
    unfolding unmanaged_ids_iff [OF d] by simp
  then have "unmanaged_ids (Some k) rs ?m = []"
    by (metis list.set_intros(1) neq_Nil_conv)
  with occupied_count_snapshot [OF m(1) n(1)] live have "occupied_count n = 0" by simp
  with n show ?thesis by blast
qed

lemma plain_fresh:
  assumes "ready_env env" "new_run_request env q key" "\<forall>k. key = Some k \<longrightarrow> plan_key_ok k"
  shows "\<exists>r. fresh_reservation env q (q_run_id q) None key (evidence Ev_Absent) None = Inr r"
proof -
  let ?r = "\<lparr>r_run_id = q_run_id q, r_nonce = a_nonce env, r_state = Reserved, r_source = None,
    r_plan_key = key, r_key = q_key q, r_retained = False, r_bound = False, r_owner_pid = Some (a_pid env),
    r_owner_birth = a_birth env (a_pid env), r_created = a_now env, r_updated = a_now env\<rparr>"
  from assms(2) have "case q_key q of None \<Rightarrow> True | Some k \<Rightarrow> k \<noteq> [] \<and> length k \<le> 4096"
    by (simp add: new_run_request_def validate_key_def guard_r_Inr_iff)
  with assms have "reservation_ok ?r"
    by (simp add: ready_env_def new_run_request_def reservation_ok_def split: option.split)
  from make_reservation_to_dict [OF this] show ?thesis
    by (simp add: fresh_reservation_def to_dict_def res_state_name_def evidence_def)
qed

text \<open>
  The plan of a request is free: the runs that claim it are known, and none of them has a publication
  outstanding; and the series it is in, if it is in one, lets it start.
\<close>

definition no_claims :: claims where
  "no_claims = \<lparr>c_claims = [], c_publications = [], c_parents = []\<rparr>"

definition plan_startable :: "adm_env \<Rightarrow> evidence_map \<Rightarrow> request \<Rightarrow> string \<Rightarrow> json_file \<Rightarrow> bool" where
  "plan_startable env m q k inventory \<longleftrightarrow>
     plan_key_ok k \<and>
     (\<exists>roots c. roots_of env = Inr roots \<and> claims_of_roots env roots roots no_claims = Inr c \<and>
        (\<forall>run. (run, k) \<in> set (c_claims c) \<longrightarrow> run \<in> dom (map_of m) \<and> run \<notin> set (c_publications c))) \<and>
     (\<exists>checkout evidence_roots. dependency_checkout env k (the (q_plan q)) False = Inr (checkout, evidence_roots) \<and>
        fst (require_ready (dep_env_of env) k (Some checkout) (Some evidence_roots) inventory) = Inr ())"

lemma reservation_claims_stopped:
  assumes "all_stopped m" and "fst ` set rs \<subseteq> dom (map_of m)" and "\<forall>kr \<in> set rs. r_state (snd kr) = Released"
  shows "\<not> list_ex (reservation_claims m k None (Some valid) False) rs"
proof -
  have "\<not> reservation_claims m k None (Some valid) False kr" if kr: "kr \<in> set rs" for kr
  proof -
    from assms(2) kr obtain ev where "map_of m (fst kr) = Some ev" by force
    moreover from all_stopped_at [OF assms(1) this] have "ev = evidence Ev_Inactive" .
    ultimately show ?thesis using assms(3) kr
      by (auto simp: reservation_claims_def Let_def evidence_or_def evidence_def live_state_def)
  qed
  then show ?thesis by (auto simp: list_ex_iff)
qed

lemma startable_unclaimed:
  assumes "plan_startable env m q k f" and "env_evidence env = Inr m" and "all_stopped m"
    and "fst ` set rs \<subseteq> dom (map_of m)" and "\<forall>kr \<in> set rs. r_state (snd kr) = Released"
  shows "require_unique_plan_claim env k None (Some valid) rs False = Inr ()"
proof -
  from assms(1) obtain roots c where r: "roots_of env = Inr roots" "claims_of_roots env roots roots no_claims = Inr c"
    and c: "\<forall>run. (run, k) \<in> set (c_claims c) \<longrightarrow> run \<in> dom (map_of m) \<and> run \<notin> set (c_publications c)"
    by (auto simp: plan_startable_def)
  have "\<not> artifact_claims m c [] k None (Some valid) False rk" if rk: "rk \<in> set (c_claims c)" for rk
  proof (cases "snd rk = k")
    case True
    with c rk have "fst rk \<in> dom (map_of m)" and p: "fst rk \<notin> set (c_publications c)" by (cases rk; auto)+
    then obtain ev where "map_of m (fst rk) = Some ev" by auto
    moreover from all_stopped_at [OF assms(3) this] have "ev = evidence Ev_Inactive" .
    ultimately show ?thesis using p by (simp add: artifact_claims_def Let_def evidence_or_def evidence_def)
  qed (simp add: artifact_claims_def Let_def)
  then have "\<not> list_ex (artifact_claims m c [] k None (Some valid) False) (c_claims c)" by (auto simp: list_ex_iff)
  with assms(2) r reservation_claims_stopped [OF assms(3-5)] show ?thesis
    by (simp add: require_unique_plan_claim_def no_claims_def guard_r_def)
qed

lemma startable_ready:
  assumes "plan_startable env m q k (st_inventory s)"
  shows "\<exists>f. require_dependencies env k (the (q_plan q)) False s = (Inr (), s\<lparr>st_inventory := f\<rparr>)"
proof -
  from assms obtain co ds where d: "dependency_checkout env k (the (q_plan q)) False = Inr (co, ds)"
    and r: "fst (require_ready (dep_env_of env) k (Some co) (Some ds) (st_inventory s)) = Inr ()"
    by (auto simp: plan_startable_def)
  then show ?thesis
    by (cases "require_ready (dep_env_of env) k (Some co) (Some ds) (st_inventory s)") (auto simp: require_dependencies_def)
qed

text \<open>
  C38. When every known run of a project has stopped and left no claim, the reservations they still
  hold do not stand in the way: a request for a new run, with or without a plan, is admitted at the
  first call, whatever the limit and however many reservations, short of the journal's capacity,
  look live, those of the same plan included. The plan must be one that may start at all: its
  series lets it, and no run that claims it has a publication outstanding.
\<close>

theorem stopped_runs_free_their_slots:
  assumes "ready_env env" and "new_run_request env q key"
    and "journal_at (e_root env) s = Inr rs" and "length rs < MAX_RESERVATIONS" and "st_saves s = []"
    and "env_evidence env = Inr m" and "all_stopped m" and "fst ` set rs \<subseteq> dom (map_of m)"
    and "map_of m (q_run_id q) = None"
    and "case key of None \<Rightarrow> True | Some k \<Rightarrow> plan_startable env m q k (st_inventory s)"
  shows "\<exists>r s'. acquire env q s = (Inr r, s') \<and> r_state r = Reserved \<and> r_run_id r = q_run_id q \<and> r_plan_key r = key"
proof -
  let ?id = "q_run_id q"
  let ?rs = "map (reconcile_entry env m) rs"
  have load: "load_locked env [?id] s = (Inr rs, s)"
    using assms(3,4) by (simp add: load_locked_def journal_at_def compact_released_def)
  have "\<exists>s1. reconcile_locked env rs s = (Inr ?rs, s1) \<and> st_saves s1 = [] \<and> st_inventory s1 = st_inventory s"
  proof (cases "list_ex (\<lambda>(k, r). r_state r \<noteq> Released) rs")
    case True
    with assms(4-6) show ?thesis by (auto simp: reconcile_locked_def save_locked_def Let_def)
  next
    case False
    then have "?rs = rs" by (intro map_idI) (auto simp: reconcile_entry_def list_ex_iff)
    with False assms(5) show ?thesis by (simp add: reconcile_locked_def)
  qed
  then obtain s1 where rec: "reconcile_locked env rs s = (Inr ?rs, s1)" "st_saves s1 = []" "st_inventory s1 = st_inventory s"
    by blast
  note rel = reconciled_stopped [OF assms(7,8)]
  have keys: "fst ` set ?rs \<subseteq> dom (map_of m)" using assms(8) by (simp add: image_image)
  have gone: "map_of rs ?id = None"
    using assms(8,9) by (auto simp: map_of_eq_None_iff domIff subset_iff)
  then have gone': "map_of ?rs ?id = None"
    by (simp add: map_of_eq_None_iff image_iff)
  have ev: "run_evidence_of (evidence_env.truncate env) ?id = Inr (evidence Ev_Absent)"
    using assms(6,9) by (simp add: run_evidence_of_def evidence_or_def)
  from assms(1) obtain g where g: "a_settings env = Some g" "1 \<le> g_limit g"
    by (auto simp: ready_env_def split: option.splits)
  from stopped_snapshot [OF assms(6,7) g(1) rel]
  obtain n where n: "snapshot_locked env ?rs (Some ?id) (Some (?id, evidence Ev_Absent)) = Inr n"
    "occupied_count n = 0" "n_limit n = g_limit g" by blast
  have comp: "compact_released ?rs [?id] 1 = Inr ?rs"
    using assms(4) by (simp add: compact_released_def Let_def) linarith
  have ok: "\<forall>k. key = Some k \<longrightarrow> plan_key_ok k" using assms(10) by (auto simp: plan_startable_def)
  from plain_fresh [OF assms(1,2) ok] obtain r where
    r: "fresh_reservation env q ?id None key (evidence Ev_Absent) None = Inr r" by blast
  let ?plan = "case key of None \<Rightarrow> (Inr (), s1)
     | Some k \<Rightarrow> abind (lift (require_unique_plan_claim env k None (Some ?id) ?rs False) s1) (\<lambda>_ s.
         require_dependencies env k (the (q_plan q)) False s)"
  have "\<exists>s2. ?plan = (Inr (), s2) \<and> st_saves s2 = []"
  proof (cases key)
    case (Some k)
    with assms(10) have st: "plan_startable env m q k (st_inventory s1)" by (simp add: rec(3))
    from startable_ready [OF st] startable_unclaimed [OF st assms(6,7) keys rel] Some rec(2) show ?thesis by auto
  qed (simp add: rec(2))
  then obtain s2 where plan: "?plan = (Inr (), s2)" "st_saves s2 = []" by blast
  have "length (AList.update ?id r ?rs) \<le> MAX_RESERVATIONS"
    using assms(4) gone' by (metis AList.update_keys Suc_leI length_append_singleton length_map map_of_eq_None_iff
        set_map)
  then obtain s3 where sv: "save_locked env (AList.update ?id r ?rs) s2 = (Inr (), s3)"
    using plan(2) by (simp add: save_locked_def)
  from assms(2) have auto: "require_automatic env q = Inr ()" and rk: "request_key env q True = Inr key"
    by (simp_all add: new_run_request_def)
  have adm: "admit_request env q ?id None False key ?rs s1 = (Inr r, s3)"
    using g(2) comp unfolding admit_request_def Let_def
    by (simp add: auto require_unique_successor_def plan(1) ev n r sv gone')
  have "acquire env q s = (Inr r, s3)"
    using assms(1,2) load rec(1) gone' rk adm
    by (simp add: acquire_def new_run_request_def ready_env_def resume_source_def locked_def acquire_locked_def
        require_inactive_predecessor_def)
  moreover from assms(2) have vk: "validate_key (q_key q) = Inr ()" by (simp add: new_run_request_def)
  ultimately show ?thesis using fresh_fields [OF r vk] by blast
qed

text \<open>Run \<^verbatim>\<open>run-a\<close> stopped and still holds the reservation of the plan; another run of that plan is admitted.\<close>

theorem stopped_runs_free_their_slots_witness:
  "\<exists>r s'. acquire stopped_env (sample_request ''run-b'' (Some ''/p/plans/x.md'')) one_admitted = (Inr r, s') \<and>
     r_state r = Reserved \<and> r_plan_key r = Some ''plans/x.md''"
proof -
  let ?q = "sample_request ''run-b'' (Some ''/p/plans/x.md'')" and ?k = "''plans/x.md''"
  let ?r = "\<lparr>r_run_id = ''run-a'', r_nonce = sample_nonce, r_state = Reserved, r_source = None,
    r_plan_key = Some ''plans/x.md'', r_key = None, r_retained = False, r_bound = False,
    r_owner_pid = Some 7, r_owner_birth = Some ''linux-start-ticks:1'', r_created = ''now'', r_updated = ''now''\<rparr>"
  let ?m = "[(''run-a'', evidence Ev_Inactive)]"
  have 1: "ready_env stopped_env" by code_simp
  have 2: "new_run_request stopped_env ?q (Some ?k)" by code_simp
  have 3: "journal_at (e_root stopped_env) one_admitted = Inr [(''run-a'', ?r)]" by code_simp
  have 4: "st_saves one_admitted = []" by code_simp
  have 5: "env_evidence stopped_env = Inr ?m" by code_simp
  have 6: "all_stopped ?m" by (simp add: all_stopped_def)
  have "roots_of stopped_env = Inr [''/p'']" by code_simp
  moreover have "claims_of_roots stopped_env [''/p''] [''/p''] no_claims = Inr no_claims" by code_simp
  moreover have "dependency_checkout stopped_env ?k (the (q_plan ?q)) False = Inr (''/p'', [''/p''])" by code_simp
  moreover have "fst (require_ready (dep_env_of stopped_env) ?k (Some ''/p'') (Some [''/p'']) (st_inventory one_admitted)) = Inr ()"
    by code_simp
  moreover have "plan_key_ok ?k" by code_simp
  ultimately have 7: "plan_startable stopped_env ?m ?q ?k (st_inventory one_admitted)"
    by (simp add: plan_startable_def no_claims_def)
  have 8: "length [(''run-a'', ?r)] < MAX_RESERVATIONS" by (simp add: MAX_RESERVATIONS_def)
  have 9: "fst ` set [(''run-a'', ?r)] \<subseteq> dom (map_of ?m)" by simp
  have 10: "map_of ?m (q_run_id ?q) = None" by (simp add: sample_request_def)
  from 7 have 11: "case Some ?k of None \<Rightarrow> True | Some k \<Rightarrow> plan_startable stopped_env ?m ?q k (st_inventory one_admitted)"
    by (simp only: option.case)
  from stopped_runs_free_their_slots [OF 1 2 3 8 4 5 6 9 10 11] show ?thesis by blast
qed

end
