(* ===== verification/Plan_Dependency_Properties.thy ===== *)
theory Plan_Dependency_Properties
  imports Plan_Dependencies Admission_Samples
begin

text \<open>
  The properties of plan series: a plan that may start has no known undelivered predecessor, a known
  member stays in the inventory, and the name length the writer does not check.
\<close>

subsection \<open>The inventory only grows\<close>

definition extends :: "members \<Rightarrow> members \<Rightarrow> bool" where
  "extends ms' ms = (\<exists>ys. ms' = ms @ ys)"

lemma extends_refl [simp]: "extends ms ms"
  by (simp add: extends_def)

lemma extends_trans: "extends ms2 ms1 \<Longrightarrow> extends ms1 ms0 \<Longrightarrow> extends ms2 ms0"
  by (auto simp: extends_def)

lemma add_member_extends: "add_member name ident origin ms = Inr ms' \<Longrightarrow> extends ms' ms"
  by (auto simp: add_member_def extends_def rbind_Inr_iff split: if_splits option.splits)

lemma discover_files_extends: "discover_files origin es ms = Inr ms' \<Longrightarrow> extends ms' ms"
  by (induction origin es ms rule: discover_files.induct)
     (auto simp: rbind_Inr_iff split: if_splits option.splits
        intro: extends_trans dest: add_member_extends)

lemma discover_locations_extends: "discover_locations env root ls ms = Inr ms' \<Longrightarrow> extends ms' ms"
  by (induction env root ls ms rule: discover_locations.induct)
     (auto simp: rbind_Inr_iff split: plan_dir.splits intro: extends_trans dest: discover_files_extends)

lemma discover_owned_extends: "discover_owned root origin ident ps ms = Inr ms' \<Longrightarrow> extends ms' ms"
  by (induction root origin ident ps ms rule: discover_owned.induct)
     (auto simp: rbind_Inr_iff split: option.splits intro: extends_trans dest: add_member_extends)

lemma discover_owners_extends: "discover_owners root origin rs ms = Inr ms' \<Longrightarrow> extends ms' ms"
  by (induction root origin rs ms rule: discover_owners.induct)
     (auto simp: rbind_Inr_iff intro: extends_trans dest: discover_owned_extends)

lemma discover_extends: "discover env roots ms = Inr ms' \<Longrightarrow> extends ms' ms"
proof (induction env roots ms rule: discover.induct)
  case (2 env root roots ms)
  from 2(2) obtain ms1 rs ms2 where
    "discover_locations env root DIRECTORIES ms = Inr ms1" "x_owners env root = Some rs"
    "discover_owners root (x_sha env root) rs ms1 = Inr ms2" "discover env roots ms2 = Inr ms'"
    by (auto simp: rbind_Inr_iff guard_r_Inr_iff split: option.splits)
  then show ?case
    using 2(1) extends_trans discover_locations_extends discover_owners_extends by metis
qed simp

text \<open>A refresh changes delivery marks, to what the evidence says, and nothing else.\<close>

lemma refresh_members:
  "refresh env series roots ms = Inr ms' \<Longrightarrow> (k, m) \<in> set ms \<Longrightarrow>
   \<exists>b. (k, m\<lparr>d_delivered := b\<rparr>) \<in> set ms' \<and>
     (d_series m = series \<longrightarrow> member_delivered env m roots = Inr b)"
proof (induction env series roots ms arbitrary: ms' rule: refresh.induct)
  case (2 env series roots k' m' ms)
  have same: "m'\<lparr>d_delivered := d_delivered m'\<rparr> = m'" by simp
  show ?case
  proof (cases "d_series m' = series")
    case True
    with 2(3) obtain b rest where b: "member_delivered env m' roots = Inr b"
        "refresh env series roots ms = Inr rest" "ms' = (k', m'\<lparr>d_delivered := b\<rparr>) # rest"
      by (auto simp: rbind_Inr_iff)
    with 2(2) [OF _ b(2)] 2(4) True show ?thesis by auto
  next
    case False
    with 2(3) obtain rest where b: "refresh env series roots ms = Inr rest" "ms' = (k', m') # rest"
      by (auto simp: rbind_Inr_iff)
    with 2(1) [OF False b(1)] 2(4) False same show ?thesis by (metis list.set_intros(1,2) prod.inject set_ConsD)
  qed
qed simp

lemma verify_roots_project:
  "verify_roots env acc roots = Inr vs \<Longrightarrow> list_all (project_is env) acc \<Longrightarrow> list_all (project_is env) vs"
proof (induction env acc roots rule: verify_roots.induct)
  case (2 env acc root roots)
  from 2(2) have "project_is env root"
    and next': "verify_roots env (if root \<in> set acc then acc else acc @ [root]) roots = Inr vs"
    by (auto simp: guard_r_Inr_iff split: if_splits)
  with 2(3) have "list_all (project_is env) (if root \<in> set acc then acc else acc @ [root])" by simp
  with 2(1) [OF _ next'] 2(2) show ?case by (auto split: if_splits)
qed simp

lemma save_members_file:
  assumes "save_members env ms f = (x, f')"
  shows "f' = f \<or> f' = Regular (spaced_size (inventory_payload ms) + 1)
    (Some (spaced_size (inventory_payload ms) + 1, Json (inventory_payload ms)))"
  using assms by (cases "x_save env") (simp_all add: save_members_def Let_def split: if_splits)

lemma check_series_cases:
  assumes "check_series env series p discovered verified f = (x, f')"
  shows "f' = f \<or> (\<exists>ms0 ms1 ms. load_members env f = Inr ms0 \<and> extends ms1 ms0 \<and>
    refresh env series verified ms1 = Inr ms \<and> f' = Regular (spaced_size (inventory_payload ms) + 1)
      (Some (spaced_size (inventory_payload ms) + 1, Json (inventory_payload ms))))"
proof (cases "rbind (load_members env f) (\<lambda>ms0. rbind (discover env discovered ms0) (\<lambda>ms1.
    rbind (refresh env series verified ms1) (\<lambda>ms. Inr (ms0, ms))))")
  case (Inl e)
  with assms show ?thesis by (simp add: check_series_def)
next
  case (Inr msp)
  then obtain ms0 ms1 ms where
    r: "load_members env f = Inr ms0" "discover env discovered ms0 = Inr ms1"
      "refresh env series verified ms1 = Inr ms" and msp: "msp = (ms0, ms)"
    by (auto simp: rbind_Inr_iff)
  obtain y g where g: "(if ms \<noteq> ms0 then save_members env ms f else (Inr (), f)) = (y, g)"
    by (meson prod.exhaust)
  have "f' = g"
    using assms Inr g unfolding check_series_def msp
    by (cases y) (auto split: option.splits)
  moreover have "g = f \<or> g = Regular (spaced_size (inventory_payload ms) + 1)
      (Some (spaced_size (inventory_payload ms) + 1, Json (inventory_payload ms)))"
    using g save_members_file [of env ms f] by (auto split: if_splits)
  ultimately show ?thesis using r discover_extends by blast
qed

subsection \<open>What discovery finds\<close>

text \<open>
  What discovery finds: every file of a plan directory with a numbered name is then a member of its
  series at its number, under some checkout's identity. The identities of plans are hexadecimal, so
  that the key of a member, its identity and its name around a colon, is the key of no other name.
\<close>

definition keyed :: "members \<Rightarrow> bool" where
  "keyed ms \<longleftrightarrow> (\<forall>(k, m) \<in> set ms. k = member_key (d_identity m) (d_name m) \<and> CHR '':'' \<notin> set (d_identity m) \<and>
     (\<exists>e. series_member_of (d_name m) (d_identity m) (d_origin m) = Inr (Some e) \<and>
        d_series m = d_series e \<and> same_position (d_position m) (d_position e)))"

definition plain_identities :: "dep_env \<Rightarrow> bool" where
  "plain_identities env \<longleftrightarrow>
     (\<forall>root l es n i. x_plan_dir env root l = Plan_Dir es \<and> Plan_File n (Some i) \<in> set es \<longrightarrow> CHR '':'' \<notin> set i) \<and>
     (\<forall>root rs r. x_owners env root = Some rs \<and> r \<in> set rs \<longrightarrow> CHR '':'' \<notin> set (o_identity r))"

definition named :: "members \<Rightarrow> string \<Rightarrow> bool" where
  "named ms n \<longleftrightarrow> (\<exists>k m. (k, m) \<in> set ms \<and> d_name m = n)"

lemma named_extends: "extends ms' ms \<Longrightarrow> named ms n \<Longrightarrow> named ms' n"
  unfolding named_def extends_def by (metis Un_iff set_append)

lemma member_key_inject:
  assumes "member_key i n = member_key i' n'" and "CHR '':'' \<notin> set i" and "CHR '':'' \<notin> set i'"
  shows "n = n'"
proof -
  have "dropWhile (\<lambda>c. c \<noteq> CHR '':'') (member_key a b) = CHR '':'' # b" if "CHR '':'' \<notin> set a" for a b
  proof -
    have "dropWhile (\<lambda>c. c \<noteq> CHR '':'') (a @ CHR '':'' # b) = dropWhile (\<lambda>c. c \<noteq> CHR '':'') (CHR '':'' # b)"
      using that by (intro dropWhile_append2) auto
    then show ?thesis by (simp add: member_key_def)
  qed
  with assms show ?thesis by (metis list.inject)
qed

lemma same_position_refl: "same_position (JInt p) (JInt p)" "same_position JNull JNull"
  by (simp_all add: same_position_def)

lemma series_member_of_keyed:
  assumes "series_member_of name ident origin = Inr (Some m)" and "CHR '':'' \<notin> set ident"
  shows "keyed [(member_key ident name, m)]"
  using assms by (auto simp: keyed_def series_member_of_def same_position_refl
      split: sum.splits option.splits prod.splits)

lemma keyed_append [simp]: "keyed (ms @ ms') \<longleftrightarrow> keyed ms \<and> keyed ms'"
  by (auto simp: keyed_def)

lemma keyed_Nil [simp]: "keyed []"
  by (simp add: keyed_def)

lemma add_member_keyed:
  "add_member name ident origin ms = Inr ms' \<Longrightarrow> keyed ms \<Longrightarrow> CHR '':'' \<notin> set ident \<Longrightarrow> keyed ms'"
  by (auto simp: add_member_def rbind_Inr_iff series_member_of_keyed split: if_splits option.splits)

lemma add_member_named:
  assumes "add_member name ident origin ms = Inr ms'" and "keyed ms" and "CHR '':'' \<notin> set ident"
    and "parse_sequence_name name = Inr (Some (series, q))"
  shows "named ms' name"
proof (cases "map_of ms (member_key ident name)")
  case (Some m)
  then have m: "(member_key ident name, m) \<in> set ms" by (rule map_of_SomeD)
  with assms(2) have "member_key ident name = member_key (d_identity m) (d_name m)" "CHR '':'' \<notin> set (d_identity m)"
    by (auto simp: keyed_def)
  from member_key_inject [OF this(1) assms(3) this(2)] m assms(1) Some show ?thesis
    by (auto simp: add_member_def named_def)
next
  case None
  show ?thesis
  proof (cases "list_ex (\<lambda>(k, m). d_name m = name \<and> d_origin m \<noteq> origin) ms")
    case True
    with assms(1) None show ?thesis by (auto simp: add_member_def named_def list_ex_iff)
  next
    case False
    let ?m = "\<lparr>d_identity = ident, d_origin = origin, d_name = name, d_series = series,
      d_position = JInt (int q), d_delivered = False\<rparr>"
    from assms(1,4) None False have "(member_key ident name, ?m) \<in> set ms'"
      by (auto simp: add_member_def series_member_of_def)
    then show ?thesis unfolding named_def by (intro exI [of _ "member_key ident name"] exI [of _ ?m]) simp
  qed
qed

lemma sub_count_contains: "sub_count sep s \<noteq> 0 \<Longrightarrow> contains sep s"
  by (induction s) (auto split: if_splits)

lemma sequence_name_md:
  assumes "parse_sequence_name n = Inr (Some (series, q))"
  shows "md_suffix n" and "contains ''_P'' n"
proof -
  from assms have c: "sub_count ''_P'' n \<noteq> 0" and e: "ends_with n ''.md''"
    by (auto simp: parse_sequence_name_def split: if_splits)
  have "n \<noteq> ''.md''"
  proof
    assume "n = ''.md''"
    moreover have "sub_count ''_P'' ''.md'' = 0" by code_simp
    ultimately show False using c by simp
  qed
  with e show "md_suffix n" by (simp add: md_suffix_def)
  from sub_count_contains [OF c] show "contains ''_P'' n" .
qed

lemma discover_files_keyed:
  "discover_files origin es ms = Inr ms' \<Longrightarrow> keyed ms \<Longrightarrow>
   \<forall>n i. Plan_File n (Some i) \<in> set es \<longrightarrow> CHR '':'' \<notin> set i \<Longrightarrow> keyed ms'"
proof (induction origin es ms rule: discover_files.induct)
  case (3 origin name ident es ms)
  show ?case
  proof (cases "\<not> md_suffix name \<or> \<not> contains ''_P'' name")
    case True
    with 3(3-5) 3(1) [OF True] show ?thesis by auto
  next
    case False
    with 3(3) obtain j ms1 where i: "ident = Some j" and a: "add_member name j origin ms = Inr ms1"
      and d: "discover_files origin es ms1 = Inr ms'" by (auto simp: rbind_Inr_iff split: option.splits)
    from 3(5) i have j: "CHR '':'' \<notin> set j" by auto
    from 3(2) [OF False i d add_member_keyed [OF a 3(4) j]] 3(5) show ?thesis by simp
  qed
qed (auto split: if_splits)

lemma discover_files_named:
  assumes "discover_files origin es ms = Inr ms'" and "keyed ms"
    and "\<forall>n i. Plan_File n (Some i) \<in> set es \<longrightarrow> CHR '':'' \<notin> set i"
    and "Plan_File n (Some i) \<in> set es" and "parse_sequence_name n = Inr (Some (series, q))"
  shows "named ms' n"
  using assms
proof (induction origin es ms rule: discover_files.induct)
  case (3 origin name ident es ms)
  show ?case
  proof (cases "\<not> md_suffix name \<or> \<not> contains ''_P'' name")
    case True
    with 3(3) have d: "discover_files origin es ms = Inr ms'" by auto
    from True 3(6,7) sequence_name_md have "Plan_File n (Some i) \<in> set es" by auto
    with 3(1) [OF True d] 3(4-7) show ?thesis by simp
  next
    case False
    with 3(3) obtain j ms1 where i: "ident = Some j" and a: "add_member name j origin ms = Inr ms1"
      and d: "discover_files origin es ms1 = Inr ms'" by (auto simp: rbind_Inr_iff split: option.splits)
    from 3(5) i have j: "CHR '':'' \<notin> set j" by auto
    note k = add_member_keyed [OF a 3(4) j]
    show ?thesis
    proof (cases "Plan_File n (Some i) \<in> set es")
      case True
      with 3(2) [OF False i d] k 3(5,7) show ?thesis by simp
    next
      case False
      with 3(6) i have "n = name" by simp
      with add_member_named [OF a 3(4) j] 3(7) named_extends [OF discover_files_extends [OF d]] show ?thesis by simp
    qed
  qed
qed (auto split: if_splits)

lemma discover_locations_named:
  assumes "discover_locations env root ls ms = Inr ms'" and "keyed ms" and "plain_identities env"
  shows "keyed ms' \<and> (\<forall>l es n i series q. l \<in> set ls \<and> x_plan_dir env root l = Plan_Dir es \<and>
    Plan_File n (Some i) \<in> set es \<and> parse_sequence_name n = Inr (Some (series, q)) \<longrightarrow> named ms' n)"
  using assms
proof (induction env root ls ms rule: discover_locations.induct)
  case (2 env root l ls ms)
  show ?case
  proof (cases "x_plan_dir env root l")
    case (Plan_Dir es)
    with 2(3) obtain ms1 where f: "discover_files (x_sha env root) es ms = Inr ms1"
      and d: "discover_locations env root ls ms1 = Inr ms'" by (auto simp: rbind_Inr_iff)
    from 2(5) Plan_Dir have p: "\<forall>n i. Plan_File n (Some i) \<in> set es \<longrightarrow> CHR '':'' \<notin> set i"
      by (auto simp: plain_identities_def)
    note rest = 2(2) [OF Plan_Dir d discover_files_keyed [OF f 2(4) p] 2(5)]
    have here: "named ms' n" if "Plan_File n (Some i) \<in> set es" "parse_sequence_name n = Inr (Some (series, q))" for n i series q
      using named_extends [OF discover_locations_extends [OF d] discover_files_named [OF f 2(4) p that]] .
    show ?thesis
    proof (intro conjI allI impI)
      fix l' es' n i series q
      assume a: "l' \<in> set (l # ls) \<and> x_plan_dir env root l' = Plan_Dir es' \<and> Plan_File n (Some i) \<in> set es' \<and>
        parse_sequence_name n = Inr (Some (series, q))"
      show "named ms' n"
      proof (cases "l' = l")
        case True
        with a Plan_Dir here show ?thesis by auto
      next
        case False
        with a have "l' \<in> set ls" by simp
        with a rest show ?thesis by blast
      qed
    qed (use rest in blast)
  next
    case Plan_Dir_Absent
    with 2(3) have "discover_locations env root ls ms = Inr ms'" by simp
    with 2(1) [OF Plan_Dir_Absent this 2(4,5)] Plan_Dir_Absent show ?thesis by auto blast
  qed (use 2(3) in simp_all)
qed simp

lemma discover_owned_keyed:
  "discover_owned root origin ident ps ms = Inr ms' \<Longrightarrow> keyed ms \<Longrightarrow> CHR '':'' \<notin> set ident \<Longrightarrow> keyed ms'"
  by (induction root origin ident ps ms rule: discover_owned.induct)
     (auto simp: rbind_Inr_iff split: option.splits dest: add_member_keyed)

lemma discover_owners_keyed:
  "discover_owners root origin rs ms = Inr ms' \<Longrightarrow> keyed ms \<Longrightarrow> \<forall>r \<in> set rs. CHR '':'' \<notin> set (o_identity r) \<Longrightarrow> keyed ms'"
  by (induction root origin rs ms rule: discover_owners.induct) (auto simp: rbind_Inr_iff dest: discover_owned_keyed)

text \<open>A numbered plan file of the checkouts.\<close>

definition numbered_file :: "dep_env \<Rightarrow> string list \<Rightarrow> string \<Rightarrow> string \<Rightarrow> nat \<Rightarrow> bool" where
  "numbered_file env roots n series q \<longleftrightarrow>
     (\<exists>root l es i. root \<in> set roots \<and> l \<in> set DIRECTORIES \<and> x_plan_dir env root l = Plan_Dir es \<and>
        Plan_File n (Some i) \<in> set es \<and> parse_sequence_name n = Inr (Some (series, q)))"

lemma discover_named:
  "discover env roots ms = Inr ms' \<Longrightarrow> keyed ms \<Longrightarrow> plain_identities env \<Longrightarrow>
   keyed ms' \<and> (numbered_file env roots n series q \<longrightarrow> named ms' n)"
proof (induction env roots ms rule: discover.induct)
  case (2 env root roots ms)
  from 2(2) obtain ms1 rs ms2 where l: "discover_locations env root DIRECTORIES ms = Inr ms1"
    and ow: "x_owners env root = Some rs" "discover_owners root (x_sha env root) rs ms1 = Inr ms2"
    and d: "discover env roots ms2 = Inr ms'" and s: "\<not> x_plans_symlink env root"
    by (auto simp: rbind_Inr_iff guard_r_Inr_iff split: option.splits)
  note ln = discover_locations_named [OF l 2(3,4)]
  from 2(4) ow(1) have "\<forall>r \<in> set rs. CHR '':'' \<notin> set (o_identity r)" by (auto simp: plain_identities_def)
  with discover_owners_keyed [OF ow(2)] ln have k: "keyed ms2" by blast
  have here: "named ms' n" if "l \<in> set DIRECTORIES" "x_plan_dir env root l = Plan_Dir es"
      "Plan_File n (Some i) \<in> set es" "parse_sequence_name n = Inr (Some (series, q))" for l es i
  proof -
    from ln that have "named ms1 n" by blast
    with named_extends [OF discover_owners_extends [OF ow(2)]] named_extends [OF discover_extends [OF d]]
    show ?thesis by blast
  qed
  from 2(1) [OF ow(1) d k 2(4)] here show ?case by (auto simp: numbered_file_def)
qed (simp add: numbered_file_def)

lemma hex_no_colon: "list_all is_hex s \<Longrightarrow> CHR '':'' \<notin> set s"
  by (auto simp: list_all_iff is_hex_def code_def)

lemma load_item_keyed:
  assumes "load_item env item = Inr m" shows "keyed [(member_key (d_identity m) (d_name m), m)]"
proof -
  let ?d = "obj_of item"
  from assms obtain e org where e: "series_member_of (str_of (dget ?d ''name'')) (str_of (dget ?d ''identity'')) org = Inr (Some e)"
    and h: "hex_of_length 32 (dget ?d ''identity'')" and p: "same_position (dget ?d ''position'') (d_position e)"
    and m: "m = e\<lparr>d_position := dget ?d ''position'', d_delivered := (dget ?d ''delivered'' = JBool True)\<rparr>"
    by (auto simp: load_item_def Let_def rbind_Inr_iff guard_r_Inr_iff split: option.splits)
  from e have "d_name e = str_of (dget ?d ''name'')" "d_identity e = str_of (dget ?d ''identity'')" "d_origin e = org"
    by (auto simp: series_member_of_def split: sum.splits option.splits prod.splits)
  with e h p m hex_no_colon show ?thesis by (auto simp: keyed_def hex_of_length_def)
qed

lemma load_items_keyed: "load_items env acc items = Inr ms \<Longrightarrow> keyed acc \<Longrightarrow> keyed ms"
  by (induction env acc items rule: load_items.induct) (auto simp: rbind_Inr_iff guard_r_Inr_iff load_item_keyed)

lemma load_members_keyed: "load_members env f = Inr ms \<Longrightarrow> keyed ms"
  by (auto simp: load_members_def rbind_Inr_iff guard_r_Inr_iff split: option.splits intro: load_items_keyed)

lemma keyed_numbered:
  assumes "keyed ms" and "named ms n" and "parse_sequence_name n = Inr (Some (series, q))"
  shows "\<exists>k m. (k, m) \<in> set ms \<and> d_name m = n \<and> d_series m = series \<and> number_of (d_position m) = Some (int q)"
  using assms by (fastforce simp: keyed_def named_def series_member_of_def same_position_def)

subsection \<open>The properties\<close>

text \<open>
  C13. When the check lets a numbered plan start, every member of its series with a smaller number that
  the inventory knew, or that the same check found in the plan directories and owner records of the
  checkouts it looks at, is delivered: one of the project's checkouts owns it as done, and a finished
  run of one of them published its move. The checkouts looked at are among those the evidence comes
  from, and every numbered plan file in their plan directories is among those members.
\<close>

theorem ready_plan_has_delivered_predecessors:
  assumes "require_ready env key checkout roots f = (Inr (), f')"
    and "sequenced_plan key = Some name" and "parse_sequence_name name = Inr (Some (series, p))"
    and "plain_identities env"
  shows "\<exists>known discovered ms verified. load_members env f = Inr known \<and>
    discovery_roots env checkout = Inr discovered \<and> discover env discovered known = Inr ms \<and> set known \<subseteq> set ms \<and>
    (\<forall>n s q. numbered_file env discovered n s q \<longrightarrow>
       (\<exists>k m. (k, m) \<in> set ms \<and> d_name m = n \<and> d_series m = s \<and> number_of (d_position m) = Some (int q))) \<and>
    set discovered \<subseteq> set verified \<and> list_all (project_is env) verified \<and>
    (\<forall>k m. (k, m) \<in> set ms \<and> d_series m = series \<and> integer_below (d_position m) p \<longrightarrow>
       member_delivered env m verified = Inr True)"
proof -
  from assms obtain discovered verified where dr: "discovery_roots env checkout = Inr discovered" and
    v: "verify_roots env [] (case roots of Some (r # rs) \<Rightarrow> r # rs | _ \<Rightarrow> discovered) = Inr verified" and
    sub: "set discovered \<subseteq> set verified" and
    c: "check_series env series p discovered verified f = (Inr (), f')"
    by (auto simp: require_ready_def rbind_Inr_iff guard_r_Inr_iff list_all_iff split: sum.splits)
  from c obtain ms0 ms1 ms where
    l: "load_members env f = Inr ms0" and d: "discover env discovered ms0 = Inr ms1" and
    r: "refresh env series verified ms1 = Inr ms" and nb: "blocked_by series p ms = None"
    by (auto simp: check_series_def rbind_Inr_iff split: sum.splits prod.splits option.splits)
  have del: "member_delivered env m verified = Inr True"
    if "(k, m) \<in> set ms1" "d_series m = series" "integer_below (d_position m) p" for k m
  proof -
    from refresh_members [OF r that(1)] that(2) obtain b where
      fin: "(k, m\<lparr>d_delivered := b\<rparr>) \<in> set ms" "member_delivered env m verified = Inr b" by blast
    have "\<not> list_ex (\<lambda>m. integer_below (d_position m) p \<and> \<not> d_delivered m)
        (filter (\<lambda>m. d_series m = series) (map snd ms))"
      using nb by (simp add: blocked_by_def Let_def split: if_splits)
    with fin(1) that(2,3) have "b" by (force simp: list_ex_iff)
    with fin(2) show ?thesis by simp
  qed
  note kn = discover_named [OF d load_members_keyed [OF l] assms(4)]
  have num: "\<exists>k m. (k, m) \<in> set ms1 \<and> d_name m = n \<and> d_series m = s \<and> number_of (d_position m) = Some (int q)"
    if "numbered_file env discovered n s q" for n s q
    using kn [of n s q] that by (intro keyed_numbered) (auto simp: numbered_file_def)
  from discover_extends [OF d] have "set ms0 \<subseteq> set ms1" by (auto simp: extends_def)
  with l dr d num sub verify_roots_project [OF v] del show ?thesis
    by (intro exI [of _ ms0] exI [of _ discovered] exI [of _ ms1] exI [of _ verified]) auto
qed

definition series_deps :: dep_env where
  "series_deps = sample_deps\<lparr>x_plan_dir := (\<lambda>_ l. if l = ''todo''
     then Plan_Dir [Plan_File ''s_P02_b.md'' (Some (replicate 32 (CHR ''1'')))] else Plan_Dir_Absent)\<rparr>"

text \<open>The plan before it lies in \<^verbatim>\<open>plans/done\<close>, and the run that finished it published the move.\<close>

definition delivery_receipt :: json where
  "delivery_receipt = JObj [(''status'', JStr ''published''), (''commit'', JStr (replicate 40 (CHR ''c''))),
     (''source_commit'', JStr (replicate 40 (CHR ''d''))), (''remote'', JStr ''origin''), (''branch'', JStr ''main''),
     (''plan_lifecycle'', JObj [(''phase'', JStr ''committed''), (''complete'', JBool True),
        (''source'', JStr ''plans/in-progress/s_P01_a.md''), (''destination'', JStr ''plans/done/s_P01_a.md'')])]"

definition delivered_deps :: dep_env where
  "delivered_deps = sample_deps\<lparr>
     x_plan_dir := (\<lambda>_ l. if l = ''todo'' then Plan_Dir [Plan_File ''s_P02_b.md'' (Some (replicate 32 (CHR ''1'')))]
       else if l = ''done'' then Plan_Dir [Plan_File ''s_P01_a.md'' (Some (replicate 32 (CHR ''2'')))] else Plan_Dir_Absent),
     x_owners := (\<lambda>_. Some [\<lparr>o_identity = replicate 32 (CHR ''2''), o_current = Some ''/p/plans/done/s_P01_a.md'',
       o_owned = [''/p/plans/in-progress/s_P01_a.md'', ''/p/plans/done/s_P01_a.md'']\<rparr>]),
     x_runs := (\<lambda>_. History [Run_Directory (Regular 500 (Some (500, Json delivery_receipt)))])\<rparr>"

lemma delivered_deps_plain: "plain_identities delivered_deps"
  by (auto simp: plain_identities_def delivered_deps_def sample_deps_def split: if_splits)

theorem ready_plan_has_delivered_predecessors_witness:
  "\<exists>verified m. d_name m = ''s_P01_a.md'' \<and> d_position m = JInt 1 \<and> list_all (project_is delivered_deps) verified \<and>
     member_delivered delivered_deps m verified = Inr True"
proof -
  let ?k = "''plans/todo/s_P02_b.md''" and ?env = delivered_deps
  let ?m = "\<lparr>d_identity = replicate 32 (CHR ''2''), d_origin = replicate 64 (CHR ''a''),
    d_name = ''s_P01_a.md'', d_series = ''s'', d_position = JInt 1, d_delivered = False\<rparr>"
  let ?b = "\<lparr>d_identity = replicate 32 (CHR ''1''), d_origin = replicate 64 (CHR ''a''),
    d_name = ''s_P02_b.md'', d_series = ''s'', d_position = JInt 2, d_delivered = False\<rparr>"
  have "fst (require_ready ?env ?k None None No_File) = Inr ()" by code_simp
  then have a: "require_ready ?env ?k None None No_File = (Inr (), snd (require_ready ?env ?k None None No_File))"
    by (simp add: prod_eq_iff)
  have b: "sequenced_plan ?k = Some ''s_P02_b.md''" by code_simp
  have c: "parse_sequence_name ''s_P02_b.md'' = Inr (Some (''s'', 2))" by code_simp
  from ready_plan_has_delivered_predecessors [OF a b c delivered_deps_plain] obtain known discovered ms verified where
    l: "load_members ?env No_File = Inr known" and dr: "discovery_roots ?env None = Inr discovered" and
    d: "discover ?env discovered known = Inr ms" and v: "list_all (project_is ?env) verified" and
    del: "\<forall>k m. (k, m) \<in> set ms \<and> d_series m = ''s'' \<and> integer_below (d_position m) 2 \<longrightarrow>
       member_delivered ?env m verified = Inr True"
    by (elim exE conjE) metis
  have "load_members ?env No_File = Inr []" "discovery_roots ?env None = Inr [''/p'']"
    "discover ?env [''/p''] [] = Inr [(member_key (d_identity ?b) (d_name ?b), ?b), (member_key (d_identity ?m) (d_name ?m), ?m)]"
    by code_simp+
  with l dr d have "(member_key (d_identity ?m) (d_name ?m), ?m) \<in> set ms" by simp
  with del have "member_delivered ?env ?m verified = Inr True" by fastforce
  with v show ?thesis by (intro exI [of _ verified] exI [of _ ?m]) simp
qed

text \<open>
  Whatever the check answers, and whatever files were removed or renamed since, a member the
  inventory knew is a member of the inventory it leaves.
\<close>

theorem known_members_are_kept:
  assumes "require_ready env key checkout roots f = (x, f')"
    and "load_members env f = Inr ms" and "(k, m) \<in> set ms"
  shows "f' = f \<or> (\<exists>ms' b. f' = Regular (spaced_size (inventory_payload ms') + 1)
      (Some (spaced_size (inventory_payload ms') + 1, Json (inventory_payload ms'))) \<and>
    (k, m\<lparr>d_delivered := b\<rparr>) \<in> set ms')"
proof (cases "f' = f")
  case False
  then obtain series p discovered verified where
    c: "check_series env series p discovered verified f = (x, f')"
    using assms(1) by (auto simp: require_ready_def split: sum.splits option.splits prod.splits)
  from check_series_cases [OF c] False assms(2) obtain ms1 ms2 where
    *: "extends ms1 ms" "refresh env series verified ms1 = Inr ms2"
      "f' = Regular (spaced_size (inventory_payload ms2) + 1)
        (Some (spaced_size (inventory_payload ms2) + 1, Json (inventory_payload ms2)))"
    by auto
  from *(1) assms(3) have "(k, m) \<in> set ms1" by (auto simp: extends_def)
  from refresh_members [OF *(2) this] *(3) show ?thesis by blast
qed simp

definition one_member :: json_file where
  "one_member = snd (require_ready series_deps ''plans/todo/s_P02_b.md'' None None No_File)"

text \<open>The plan file is gone, and the plan after it is held back by the member the inventory kept.\<close>

theorem known_members_are_kept_witness:
  "\<exists>k m. d_name m = ''s_P02_b.md'' \<and>
    fst (require_ready sample_deps ''plans/todo/s_P03_c.md'' None None one_member) =
      Inl (Dep_Blocked ''a known predecessor has not been delivered'') \<and>
    (let f' = snd (require_ready sample_deps ''plans/todo/s_P03_c.md'' None None one_member) in
     f' = one_member \<or> (\<exists>ms' b n. f' = Regular n (Some (n, Json (inventory_payload ms'))) \<and>
       (k, m\<lparr>d_delivered := b\<rparr>) \<in> set ms'))"
proof -
  let ?m = "\<lparr>d_identity = replicate 32 (CHR ''1''), d_origin = replicate 64 (CHR ''a''),
    d_name = ''s_P02_b.md'', d_series = ''s'', d_position = JInt 2, d_delivered = False\<rparr>"
  let ?k = "replicate 32 (CHR ''1'') @ '':s_P02_b.md''"
  let ?r = "require_ready sample_deps ''plans/todo/s_P03_c.md'' None None one_member"
  have l: "load_members sample_deps one_member = Inr [(?k, ?m)]" by code_simp
  have b: "fst ?r = Inl (Dep_Blocked ''a known predecessor has not been delivered'')" by code_simp
  have r: "?r = (fst ?r, snd ?r)" by simp
  have mem: "(?k, ?m) \<in> set [(?k, ?m)]" by simp
  from known_members_are_kept [OF r l mem] b show ?thesis
    by (intro exI [of _ ?k] exI [of _ ?m]) (auto simp: Let_def)
qed

lemma load_item_long:
  assumes "203 < length (str_of (dget (obj_of item) ''name''))"
  shows "load_item env item = Inl inventory_malformed"
proof -
  have "guard_r b inventory_malformed (guard_r False inventory_malformed k) = Inl inventory_malformed"
    for b and k :: "dep_error + series_member"
    by (simp add: guard_r_def)
  moreover from assms have "length (str_of (dget (obj_of item) ''name'')) \<le> 203 \<longleftrightarrow> False" by simp
  ultimately show ?thesis unfolding load_item_def Let_def by (simp only: simp_thms)
qed

definition long_name :: string where
  "long_name = ''s_P01_'' @ replicate 200 (CHR ''t'') @ ''.md''"

definition long_deps :: dep_env where
  "long_deps = sample_deps\<lparr>x_plan_dir := (\<lambda>_ l. if l = ''todo''
     then Plan_Dir [Plan_File long_name (Some (replicate 32 (CHR ''1'')))] else Plan_Dir_Absent)\<rparr>"

text \<open>
  The inventory is written without the length limit its reader applies to names: a plan whose file
  name has 209 characters may start, and from then on no environment can load the inventory, so that every
  later check of a numbered plan fails.
\<close>

theorem long_name_poisons_inventory:
  "fst (require_ready long_deps (''plans/todo/'' @ long_name) None None No_File) = Inr () \<and>
   load_members env (snd (require_ready long_deps (''plans/todo/'' @ long_name) None None No_File)) =
     Inl (Dep_Error ''dependency inventory is malformed'')"
proof -
  let ?m = "\<lparr>d_identity = replicate 32 (CHR ''1''), d_origin = replicate 64 (CHR ''a''),
    d_name = long_name, d_series = ''s'', d_position = JInt 1, d_delivered = False\<rparr>"
  let ?p = "inventory_payload [(replicate 32 (CHR ''1'') @ '':'' @ long_name, ?m)]"
  have run: "require_ready long_deps (''plans/todo/'' @ long_name) None None No_File =
      (Inr (), Regular (spaced_size ?p + 1) (Some (spaced_size ?p + 1, Json ?p)))" by code_simp
  have small: "spaced_size ?p + 1 \<le> MAX_STATE" by code_simp
  have "203 < length long_name" by code_simp
  then have "load_item env (member_json ?m) = Inl inventory_malformed"
    by (intro load_item_long) (simp add: member_json_def)
  then have "load_members env (Regular (spaced_size ?p + 1) (Some (spaced_size ?p + 1, Json ?p)))
      = Inl inventory_malformed"
    using small by (simp add: load_members_def regular_json_def inventory_payload_def guard_r_def)
  with run show ?thesis by (simp add: inventory_malformed_def)
qed

end
