(* ===== verification/Config_Values.thy ===== *)
theory Config_Values
  imports Prelude Py_Text "HOL-Library.AList" "HOL-Library.List_Lexorder" "HOL-Library.Char_ord"
begin

text \<open>
  The values of a TOML document as \<^verbatim>\<open>tomllib\<close> returns them, and the readers of
  \<^verbatim>\<open>aflow/config.py\<close> for single values: texts, flags, bounded integers, arrays of texts and
  selectors. A table is the dictionary of the code, an association list in insertion order; a
  configuration error is its message.
\<close>

subsection \<open>Documents\<close>

text \<open>\<open>TOther\<close>: a float, a date or a time, which no setting accepts.\<close>

datatype toml =
    TStr string
  | TInt int
  | TBool bool
  | TOther string
  | TArr "toml list"
  | TTable "(string \<times> toml) list"

type_synonym tbl = "(string \<times> toml) list"
type_synonym 'a dictionary = "(string \<times> 'a) list"
type_synonym 'a config_result = "string + 'a"

definition has :: "'a dictionary \<Rightarrow> string \<Rightarrow> bool" where
  "has d k = (map_of d k \<noteq> None)"

lemma has_iff: "has d k \<longleftrightarrow> k \<in> fst ` set d"
  by (auto simp: has_def map_of_eq_None_iff)

lemma has_code [code]: "has d k = list_ex (\<lambda>kv. fst kv = k) d"
  by (auto simp: has_iff list_ex_iff)

text \<open>\<^verbatim>\<open>d.update(e)\<close>: a key that is present keeps its place.\<close>

definition dict_update :: "'a dictionary \<Rightarrow> 'a dictionary \<Rightarrow> 'a dictionary" where
  "dict_update d e = fold (\<lambda>(k, v). AList.update k v) e d"

text \<open>A loop that stores one entry per item of a table, or raises.\<close>

fun fill :: "('i \<Rightarrow> 'e + string \<times> 'v) \<Rightarrow> 'i list \<Rightarrow> 'v dictionary \<Rightarrow> 'e + 'v dictionary" where
  "fill f [] d = Inr d"
| "fill f (i # items) d = rbind (f i) (\<lambda>(k, v). fill f items (AList.update k v d))"

subsection \<open>Single values\<close>

definition require_table :: "string \<Rightarrow> toml \<Rightarrow> tbl config_result" where
  "require_table path v =
     (case v of TTable t \<Rightarrow> Inr t | _ \<Rightarrow> Inl (''expected '' @ path @ '' to be a table''))"

definition require_text :: "string \<Rightarrow> toml \<Rightarrow> string config_result" where
  "require_text path v =
     (case v of
        TStr s \<Rightarrow> (let t = strip s in if t = [] then Inl (path @ '' must not be empty'') else Inr t)
      | _ \<Rightarrow> Inl (''expected '' @ path @ '' to be a string''))"

definition optional_text :: "string \<Rightarrow> toml option \<Rightarrow> string option config_result" where
  "optional_text path v =
     (case v of None \<Rightarrow> Inr None | Some x \<Rightarrow> map_sum (\<lambda>e. e) Some (require_text path x))"

text \<open>\<^verbatim>\<open>_require_text(key, path=f"{path} key")\<close>\<close>

definition require_key :: "string \<Rightarrow> string \<Rightarrow> string config_result" where
  "require_key path k = require_text (path @ '' key'') (TStr k)"

text \<open>\<^verbatim>\<open>path.key\<close> and \<^verbatim>\<open>path[i]\<close>\<close>

definition dotted :: "string \<Rightarrow> string \<Rightarrow> string" where
  "dotted path k = path @ ''.'' @ k"

definition indexed :: "string \<Rightarrow> nat \<Rightarrow> string" where
  "indexed path i = path @ ''['' @ nat_str i @ '']''"

definition unknown_keys :: "string list \<Rightarrow> tbl \<Rightarrow> string list" where
  "unknown_keys allowed raw = sort (remdups (filter (\<lambda>k. k \<notin> set allowed) (map fst raw)))"

definition reject_unknown :: "string list \<Rightarrow> string \<Rightarrow> tbl \<Rightarrow> unit config_result" where
  "reject_unknown allowed path raw =
     (let unknown = unknown_keys allowed raw
      in if unknown \<noteq> [] then Inl (''unsupported keys in '' @ path @ '': '' @ join_with '', '' unknown) else Inr ())"

text \<open>
  An integer setting with its default and its least value. A TOML boolean is no integer here,
  although \<^verbatim>\<open>bool\<close> is a subclass of \<^verbatim>\<open>int\<close>: every reader excludes it.
\<close>

definition int_setting :: "tbl \<Rightarrow> string \<Rightarrow> int \<Rightarrow> int \<Rightarrow> string \<Rightarrow> int config_result" where
  "int_setting raw key default_value least message =
     (case map_of raw key of
        None \<Rightarrow> Inr default_value
      | Some (TInt i) \<Rightarrow> if i < least then Inl message else Inr i
      | Some _ \<Rightarrow> Inl message)"

definition bool_setting :: "tbl \<Rightarrow> string \<Rightarrow> bool \<Rightarrow> string \<Rightarrow> bool config_result" where
  "bool_setting raw key default_value message =
     (case map_of raw key of
        None \<Rightarrow> Inr default_value
      | Some (TBool b) \<Rightarrow> Inr b
      | Some _ \<Rightarrow> Inl message)"

text \<open>The array readers name each item by its position.\<close>

definition text_items :: "string \<Rightarrow> toml list \<Rightarrow> string list config_result" where
  "text_items path xs = traverse (\<lambda>(i, v). require_text (indexed path i) v) (enumerate 0 xs)"

definition parse_lifecycle_array :: "string \<Rightarrow> toml \<Rightarrow> string list config_result" where
  "parse_lifecycle_array path v =
     (case v of TArr xs \<Rightarrow> text_items path xs | _ \<Rightarrow> Inl (''expected '' @ path @ '' to be an array''))"

fun excluded_items :: "string \<Rightarrow> (nat \<times> toml) list \<Rightarrow> string list \<Rightarrow> string list config_result" where
  "excluded_items path [] seen = Inr seen"
| "excluded_items path ((i, v) # items) seen =
     rbind (require_text (indexed path i) v) (\<lambda>s.
       if s \<in> set seen then Inl (''duplicate step '' @ [QUOTE] @ s @ [QUOTE] @ '' in '' @ path)
       else excluded_items path items (seen @ [s]))"

definition parse_excluded_steps :: "string \<Rightarrow> toml \<Rightarrow> string list config_result" where
  "parse_excluded_steps path v =
     (case v of TArr xs \<Rightarrow> excluded_items path (enumerate 0 xs) []
              | _ \<Rightarrow> Inl (''expected '' @ path @ '' to be an array''))"

subsection \<open>Selectors\<close>

text \<open>\<^verbatim>\<open>selector.partition(".")\<close> of a text that contains a dot.\<close>

definition partition_dot :: "string \<Rightarrow> string \<times> string" where
  "partition_dot s = (takeWhile (\<lambda>c. c \<noteq> CHR ''.'') s, tl (dropWhile (\<lambda>c. c \<noteq> CHR ''.'') s))"

definition parse_selector_value :: "string \<Rightarrow> toml \<Rightarrow> string config_result" where
  "parse_selector_value path v =
     rbind (require_text path v) (\<lambda>selector.
       if CHR ''.'' \<notin> set selector
       then Inl (''expected '' @ path @ '' to be a fully qualified harness.profile selector'')
       else (let (harness_name, profile_name) = partition_dot selector
             in if harness_name = [] \<or> profile_name = []
                then Inl (''invalid selector '' @ [QUOTE] @ selector @ [QUOTE] @ '' in '' @ path)
                else Inr selector))"

definition parse_role_map :: "string \<Rightarrow> tbl \<Rightarrow> string dictionary config_result" where
  "parse_role_map path raw =
     fill (\<lambda>(k, v). rbind (require_key path k) (\<lambda>r.
             rbind (parse_selector_value (dotted path r) v) (\<lambda>s. Inr (r, s)))) raw []"

definition parse_role_prompt_map :: "string \<Rightarrow> tbl \<Rightarrow> string dictionary config_result" where
  "parse_role_prompt_map path raw =
     fill (\<lambda>(k, v). rbind (require_key path k) (\<lambda>r.
             rbind (require_text (dotted path r) v) (\<lambda>s. Inr (r, s)))) raw []"

subsection \<open>Laws of dictionaries\<close>

lemma map_of_update [simp]: "map_of (AList.update k v d) = (map_of d)(k \<mapsto> v)"
  by (simp add: update_conv')

lemma keys_update [simp]: "fst ` set (AList.update k v d) = insert k (fst ` set d)"
  using dom_update [of k v d] by (simp add: insert_commute)

lemma set_update_sub: "set (AList.update k v d) \<subseteq> insert (k, v) (set d)"
  by (induction d) auto

lemma dict_update_simps [simp]:
  "dict_update d [] = d"
  "dict_update d ((k, v) # e) = dict_update (AList.update k v d) e"
  by (simp_all add: dict_update_def)

lemma map_of_dict_update:
  "distinct (map fst e) \<Longrightarrow> map_of (dict_update d e) = map_of d ++ map_of e"
proof (induction e arbitrary: d)
  case (Cons kv e)
  obtain k v where kv: "kv = (k, v)" by (cases kv)
  with Cons.prems have "k \<notin> dom (map_of e)" by (auto simp: dom_map_of_conv_image_fst)
  with Cons kv show ?case by (auto simp: map_add_upd_left fun_eq_iff map_add_def split: option.splits)
qed simp

lemma keys_dict_update [simp]: "fst ` set (dict_update d e) = fst ` set d \<union> fst ` set e"
proof (induction e arbitrary: d)
  case (Cons kv e)
  then show ?case by (cases kv) simp
qed simp

lemma set_dict_update_sub: "set (dict_update d e) \<subseteq> set d \<union> set e"
proof (induction e arbitrary: d)
  case (Cons kv e)
  obtain k v where kv: "kv = (k, v)" by (cases kv)
  from Cons.IH [of "AList.update k v d"] set_update_sub [of k v d] kv show ?case by auto
qed simp

lemma distinct_dict_update [simp]:
  "distinct (map fst d) \<Longrightarrow> distinct (map fst (dict_update d e))"
proof (induction e arbitrary: d)
  case (Cons kv e)
  then show ?case by (cases kv) (simp add: distinct_update)
qed simp

lemma fill_distinct: "fill f items d = Inr d' \<Longrightarrow> distinct (map fst d) \<Longrightarrow> distinct (map fst d')"
proof (induction items arbitrary: d)
  case (Cons i items)
  from Cons.prems(1) obtain k v where "fill f items (AList.update k v d) = Inr d'"
    by (auto simp: rbind_Inr_iff)
  from Cons.IH [OF this] Cons.prems(2) show ?case by (simp add: distinct_update)
qed simp

lemma fill_all:
  assumes "fill f items d = Inr d'"
    and "\<And>i k v. i \<in> set items \<Longrightarrow> f i = Inr (k, v) \<Longrightarrow> Q k v"
    and "\<And>k v. (k, v) \<in> set d \<Longrightarrow> Q k v"
    and "(k, v) \<in> set d'"
  shows "Q k v"
  using assms
proof (induction items arbitrary: d)
  case (Cons i items)
  from Cons.prems(1) obtain k1 v1 where f: "f i = Inr (k1, v1)"
    and r: "fill f items (AList.update k1 v1 d) = Inr d'" by (auto simp: rbind_Inr_iff)
  show ?case
  proof (rule Cons.IH [OF r])
    show "Q k v" if "j \<in> set items" "f j = Inr (k, v)" for j k v
      by (rule Cons.prems(2) [OF _ that(2)]) (simp add: that(1))
    from Cons.prems(2) [OF _ f] have "Q k1 v1" by simp
    then show "Q k v" if "(k, v) \<in> set (AList.update k1 v1 d)" for k v
      using that set_update_sub [of k1 v1 d] Cons.prems(3) by blast
  qed (rule Cons.prems(4))
qed simp

subsection \<open>Laws of the readers\<close>

lemma require_text_Inr: "require_text path v = Inr t \<Longrightarrow> t \<noteq> []"
  by (auto simp: require_text_def Let_def split: toml.splits if_splits)

lemma traverse_texts: "traverse (\<lambda>(i, v). require_text (p i) v) xs = Inr ts \<Longrightarrow> [] \<notin> set ts"
  by (induction xs arbitrary: ts) (auto simp: rbind_Inr_iff dest: require_text_Inr)

lemma excluded_items_Inr:
  "excluded_items path items seen = Inr ts \<Longrightarrow> distinct seen \<Longrightarrow> distinct ts"
  by (induction path items seen rule: excluded_items.induct)
     (auto simp: rbind_Inr_iff split: if_splits)

lemma partition_dot_append:
  "CHR ''.'' \<notin> set h \<Longrightarrow> partition_dot (h @ CHR ''.'' # p) = (h, p)"
proof -
  assume h: "CHR ''.'' \<notin> set h"
  then have "takeWhile (\<lambda>c. c \<noteq> CHR ''.'') (h @ CHR ''.'' # p) = h"
    and "dropWhile (\<lambda>c. c \<noteq> CHR ''.'') (h @ CHR ''.'' # p) = CHR ''.'' # p"
    by (induction h) auto
  then show ?thesis by (simp add: partition_dot_def)
qed

definition selector_ok :: "string \<Rightarrow> bool" where
  "selector_ok s = (CHR ''.'' \<in> set s \<and> fst (partition_dot s) \<noteq> [] \<and> snd (partition_dot s) \<noteq> [])"

lemma parse_selector_value_Inr: "parse_selector_value path v = Inr s \<Longrightarrow> selector_ok s"
  by (auto simp: parse_selector_value_def selector_ok_def rbind_Inr_iff split: if_splits prod.splits)

lemma parse_role_map_ok:
  assumes "parse_role_map path raw = Inr d"
  shows "distinct (map fst d) \<and> (\<forall>(r, s) \<in> set d. selector_ok s)"
proof
  show "distinct (map fst d)"
    using assms unfolding parse_role_map_def by (rule fill_distinct) simp
  show "\<forall>(r, s) \<in> set d. selector_ok s"
  proof clarify
    fix r s assume "(r, s) \<in> set d"
    show "selector_ok s"
      by (rule fill_all [where Q = "\<lambda>_. selector_ok", OF assms [unfolded parse_role_map_def] _ _ \<open>(r, s) \<in> set d\<close>])
         (auto simp: rbind_Inr_iff dest: parse_selector_value_Inr)
  qed
qed

lemma parse_role_prompt_map_distinct:
  "parse_role_prompt_map path raw = Inr d \<Longrightarrow> distinct (map fst d)"
  unfolding parse_role_prompt_map_def by (erule fill_distinct) simp

lemma int_setting_Inr:
  "int_setting raw key d least m = Inr i \<Longrightarrow> least \<le> d \<Longrightarrow> least \<le> i"
  by (auto simp: int_setting_def split: option.splits toml.splits if_splits)

end
