(* ===== verification/Config_Sections.thy ===== *)
theory Config_Sections
  imports Config_Values
begin

text \<open>
  The sections of a configuration document other than its workflows
  (\<^verbatim>\<open>aflow/config.py\<close>): global limits, harness profiles, teams, the manager, and the rules for
  recovering from harness errors. Each reader first rejects keys it does not know, then reads its
  settings in the order of the code, so that the first offending setting names the error.
\<close>

subsection \<open>Harness profiles\<close>

record harness_profile =
  pf_model :: "string option"
  pf_effort :: "string option"
  pf_exclusive :: bool

definition parse_profile_table :: "string \<Rightarrow> tbl \<Rightarrow> harness_profile config_result" where
  "parse_profile_table path raw =
     rbind (reject_unknown [''model'', ''effort'', ''exclusive''] path raw) (\<lambda>_.
     rbind (bool_setting raw ''exclusive'' False (path @ ''.exclusive must be a boolean'')) (\<lambda>exclusive.
     rbind (optional_text (dotted path ''model'') (map_of raw ''model'')) (\<lambda>model.
     rbind (optional_text (dotted path ''effort'') (map_of raw ''effort'')) (\<lambda>effort.
       Inr \<lparr>pf_model = model, pf_effort = effort, pf_exclusive = exclusive\<rparr>))))"

type_synonym harness_config = "harness_profile dictionary"

definition parse_workflow_harness :: "string \<Rightarrow> tbl \<Rightarrow> harness_config config_result" where
  "parse_workflow_harness path raw =
     rbind (reject_unknown [''profiles''] path raw) (\<lambda>_.
       case map_of raw ''profiles'' of
         None \<Rightarrow> Inr []
       | Some v \<Rightarrow>
           rbind (require_table (path @ ''.profiles'') v) (\<lambda>t.
             fill (\<lambda>(k, v). rbind (require_key (path @ ''.profiles'') k) (\<lambda>profile_key.
                     rbind (require_table (path @ ''.profiles.'' @ profile_key) v) (\<lambda>pt.
                     rbind (parse_profile_table (path @ ''.profiles.'' @ profile_key) pt) (\<lambda>p.
                       Inr (profile_key, p))))) t []))"

subsection \<open>Global settings\<close>

record aflow_section =
  as_default_workflow :: "string option"
  as_keep_runs :: int
  as_max_turns :: int
  as_retry :: int
  as_banner_files :: int
  as_max_same_step :: int
  as_team_lead :: "string option"
  as_worktree_prefix :: "string option"
  as_branch_prefix :: "string option"
  as_worktree_root :: "string option"

definition DEFAULT_KEEP_RUNS :: int where "DEFAULT_KEEP_RUNS = 20"
definition DEFAULT_MAX_TURNS :: int where "DEFAULT_MAX_TURNS = 15"
definition DEFAULT_MAX_SAME_STEP_TURNS :: int where "DEFAULT_MAX_SAME_STEP_TURNS = 5"
definition DEFAULT_UPGRADE_AFTER_REPAIRS :: int where "DEFAULT_UPGRADE_AFTER_REPAIRS = 1"

definition default_aflow :: aflow_section where
  "default_aflow = \<lparr>as_default_workflow = None, as_keep_runs = DEFAULT_KEEP_RUNS,
     as_max_turns = DEFAULT_MAX_TURNS, as_retry = 0, as_banner_files = 10,
     as_max_same_step = DEFAULT_MAX_SAME_STEP_TURNS, as_team_lead = None, as_worktree_prefix = None,
     as_branch_prefix = None, as_worktree_root = None\<rparr>"

definition aflow_keys :: "string list" where
  "aflow_keys = [''default_workflow'', ''keep_runs'', ''max_turns'', ''retry_inconsistent_checkpoint_state'',
     ''banner_files_limit'', ''max_same_step_turns'', ''team_lead'', ''worktree_prefix'', ''branch_prefix'',
     ''worktree_root'']"

definition parse_aflow_section :: "string \<Rightarrow> tbl \<Rightarrow> aflow_section config_result" where
  "parse_aflow_section path raw =
     rbind (reject_unknown aflow_keys path raw) (\<lambda>_.
     rbind (int_setting raw ''keep_runs'' DEFAULT_KEEP_RUNS 1 (path @ ''.keep_runs must be a positive integer'')) (\<lambda>keep_runs.
     rbind (int_setting raw ''max_turns'' DEFAULT_MAX_TURNS 1 (path @ ''.max_turns must be a positive integer'')) (\<lambda>max_turns.
     rbind (int_setting raw ''retry_inconsistent_checkpoint_state'' 0 0
       (path @ ''.retry_inconsistent_checkpoint_state must be a non-negative integer'')) (\<lambda>retry.
     rbind (int_setting raw ''banner_files_limit'' 10 1 (path @ ''.banner_files_limit must be a positive integer'')) (\<lambda>banner.
     rbind (int_setting raw ''max_same_step_turns'' DEFAULT_MAX_SAME_STEP_TURNS 0
       (path @ ''.max_same_step_turns must be a non-negative integer'')) (\<lambda>same_step.
     rbind (optional_text (dotted path ''default_workflow'') (map_of raw ''default_workflow'')) (\<lambda>workflow.
     rbind (optional_text (dotted path ''team_lead'') (map_of raw ''team_lead'')) (\<lambda>team_lead.
     rbind (optional_text (dotted path ''worktree_prefix'') (map_of raw ''worktree_prefix'')) (\<lambda>worktree_prefix.
     rbind (optional_text (dotted path ''branch_prefix'') (map_of raw ''branch_prefix'')) (\<lambda>branch_prefix.
     rbind (optional_text (dotted path ''worktree_root'') (map_of raw ''worktree_root'')) (\<lambda>worktree_root.
       Inr \<lparr>as_default_workflow = workflow, as_keep_runs = keep_runs, as_max_turns = max_turns, as_retry = retry,
         as_banner_files = banner, as_max_same_step = same_step, as_team_lead = team_lead,
         as_worktree_prefix = worktree_prefix, as_branch_prefix = branch_prefix,
         as_worktree_root = worktree_root\<rparr>)))))))))))"

subsection \<open>Teams\<close>

record team_config =
  tm_roles :: "string dictionary"
  tm_prompts :: "string dictionary"
  tm_backup :: "string option"
  tm_upgrade :: "string option"
  tm_extends :: "string option"
  tm_display :: "string option"

definition TEAM_DISPLAY_NAME_MAX_LENGTH :: nat where
  "TEAM_DISPLAY_NAME_MAX_LENGTH = 128"

definition too_long :: string where
  "too_long = '' must be at most 128 characters''"

definition parse_team_display_name :: "string \<Rightarrow> toml option \<Rightarrow> string option config_result" where
  "parse_team_display_name path v =
     rbind (optional_text path v) (\<lambda>d.
       case d of
         None \<Rightarrow> Inr None
       | Some s \<Rightarrow> if length s > TEAM_DISPLAY_NAME_MAX_LENGTH then Inl (path @ too_long) else Inr (Some s))"

definition team_keys :: "string list" where
  "team_keys = [''roles'', ''prompts'', ''backup_team'', ''upgrade_to'', ''extends'', ''display_name'']"

definition inline_roles :: "tbl \<Rightarrow> tbl" where
  "inline_roles raw = filter (\<lambda>kv. fst kv \<notin> set team_keys) raw"

definition team_roles_of :: "string \<Rightarrow> tbl \<Rightarrow> string dictionary config_result" where
  "team_roles_of path raw =
     (case map_of raw ''roles'' of
        Some v \<Rightarrow>
          if inline_roles raw \<noteq> []
          then Inl (''mixed legacy inline role keys and [roles] table in '' @ path @ '': '' @
                 join_with '', '' (sort (map fst (inline_roles raw))))
          else rbind (require_table (path @ ''.roles'') v) (parse_role_map (path @ ''.roles''))
      | None \<Rightarrow>
          fill (\<lambda>(k, v). rbind (parse_selector_value (dotted path k) v) (\<lambda>s. Inr (k, s)))
            (inline_roles raw) [])"

definition parse_team_config :: "string \<Rightarrow> tbl \<Rightarrow> team_config config_result" where
  "parse_team_config path raw =
     rbind (team_roles_of path raw) (\<lambda>roles.
     rbind (case map_of raw ''prompts'' of
              None \<Rightarrow> Inr []
            | Some v \<Rightarrow> rbind (require_table (path @ ''.prompts'') v) (parse_role_prompt_map (path @ ''.prompts''))) (\<lambda>prompts.
     rbind (optional_text (dotted path ''backup_team'') (map_of raw ''backup_team'')) (\<lambda>backup.
     rbind (optional_text (dotted path ''upgrade_to'') (map_of raw ''upgrade_to'')) (\<lambda>upgrade.
     rbind (optional_text (dotted path ''extends'') (map_of raw ''extends'')) (\<lambda>extends.
     rbind (parse_team_display_name (dotted path ''display_name'') (map_of raw ''display_name'')) (\<lambda>display.
       Inr \<lparr>tm_roles = roles, tm_prompts = prompts, tm_backup = backup, tm_upgrade = upgrade,
         tm_extends = extends, tm_display = display\<rparr>))))))"

subsection \<open>The manager\<close>

record manager_config =
  mc_lite_role :: "string option"
  mc_full_role :: "string option"
  mc_stalled_turns :: int
  mc_skill :: string
  mc_repartition_skill :: string

definition default_manager :: manager_config where
  "default_manager = \<lparr>mc_lite_role = None, mc_full_role = None, mc_stalled_turns = 2,
     mc_skill = ''aflow-manager'', mc_repartition_skill = ''aflow-repartition-checkpoint''\<rparr>"

definition or_text :: "string option \<Rightarrow> string \<Rightarrow> string" where
  "or_text v d = (case v of None \<Rightarrow> d | Some s \<Rightarrow> s)"

definition parse_manager_config :: "string \<Rightarrow> tbl \<Rightarrow> manager_config config_result" where
  "parse_manager_config path raw =
     (if has raw ''enabled''
      then Inl (path @ ''.enabled was removed; configure interstep supervision with [workflow].manager_enabled or [workflow.<name>].manager_enabled in workflows.toml instead'')
      else
     rbind (reject_unknown [''lite_role'', ''full_role'', ''full_after_stalled_turns'', ''skill'', ''repartition_skill''] path raw) (\<lambda>_.
     rbind (optional_text (dotted path ''lite_role'') (map_of raw ''lite_role'')) (\<lambda>lite.
     rbind (optional_text (dotted path ''full_role'') (map_of raw ''full_role'')) (\<lambda>full.
     rbind (int_setting raw ''full_after_stalled_turns'' 2 1
       (path @ ''.full_after_stalled_turns must be an integer at least 1'')) (\<lambda>stalled.
     rbind (optional_text (dotted path ''skill'') (map_of raw ''skill'')) (\<lambda>skill.
     rbind (optional_text (dotted path ''repartition_skill'') (map_of raw ''repartition_skill'')) (\<lambda>repartition.
       Inr \<lparr>mc_lite_role = lite, mc_full_role = full, mc_stalled_turns = stalled,
         mc_skill = or_text skill ''aflow-manager'',
         mc_repartition_skill = or_text repartition ''aflow-repartition-checkpoint''\<rparr>)))))))"

subsection \<open>Recovery from harness errors\<close>

record recovery_rule =
  rr_action :: string
  rr_match :: "string list"
  rr_delay :: int

record recovery_config =
  rc_rules :: "recovery_rule list"
  rc_max_consecutive :: int
  rc_team_lead_skill :: string

definition default_recovery :: recovery_config where
  "default_recovery = \<lparr>rc_rules = [], rc_max_consecutive = 3,
     rc_team_lead_skill = ''aflow-harness-recovery-lead''\<rparr>"

definition recovery_actions :: "string list" where
  "recovery_actions =
     [''retry_same_team_after_delay'', ''switch_to_backup_team_and_retry'', ''fail_immediately'']"

definition missing_key :: "string \<Rightarrow> string \<Rightarrow> string" where
  "missing_key key path = ''missing '' @ [QUOTE] @ key @ [QUOTE] @ '' in '' @ path"

definition require_item :: "tbl \<Rightarrow> string \<Rightarrow> string \<Rightarrow> toml config_result" where
  "require_item raw key path = (case map_of raw key of None \<Rightarrow> Inl (missing_key key path) | Some v \<Rightarrow> Inr v)"

definition rule_delay :: "string \<Rightarrow> string \<Rightarrow> tbl \<Rightarrow> int config_result" where
  "rule_delay path action raw =
     (if has raw ''delay_seconds'' \<and> action = ''fail_immediately''
      then Inl (path @ ''.delay_seconds is only allowed for retry and switch actions'')
      else int_setting raw ''delay_seconds'' 0 0 (path @ ''.delay_seconds must be a non-negative integer''))"

definition parse_harness_error_recovery_rule :: "string \<Rightarrow> tbl \<Rightarrow> recovery_rule config_result" where
  "parse_harness_error_recovery_rule path raw =
     rbind (reject_unknown [''action'', ''match'', ''delay_seconds''] path raw) (\<lambda>_.
     rbind (require_item raw ''action'' path) (\<lambda>a.
     rbind (require_text (path @ ''.action'') a) (\<lambda>action.
     rbind (if action \<in> set recovery_actions then Inr ()
            else Inl (path @ ''.action must be one of: '' @ join_with '', '' (sort recovery_actions))) (\<lambda>_.
     rbind (require_item raw ''match'' path) (\<lambda>m.
     rbind (case m of TArr xs \<Rightarrow> text_items (path @ ''.match'') xs
                    | _ \<Rightarrow> Inl (''expected '' @ path @ ''.match to be an array'')) (\<lambda>texts.
     rbind (if texts = [] then Inl (path @ ''.match must not be empty'') else Inr ()) (\<lambda>_.
     rbind (rule_delay path action raw) (\<lambda>delay.
       Inr \<lparr>rr_action = action, rr_match = texts, rr_delay = delay\<rparr>))))))))"

definition parse_recovery_rules :: "string \<Rightarrow> toml option \<Rightarrow> recovery_rule list config_result" where
  "parse_recovery_rules path v =
     (case v of
        None \<Rightarrow> Inr []
      | Some (TArr xs) \<Rightarrow>
          traverse (\<lambda>(i, x). rbind (require_table (indexed (path @ ''.rules'') i) x)
            (parse_harness_error_recovery_rule (indexed (path @ ''.rules'') i))) (enumerate 0 xs)
      | Some _ \<Rightarrow> Inl (''expected '' @ path @ ''.rules to be an array of tables''))"

definition parse_harness_error_recovery_config :: "string \<Rightarrow> tbl \<Rightarrow> recovery_config config_result" where
  "parse_harness_error_recovery_config path raw =
     rbind (reject_unknown [''rules'', ''max_consecutive_recoveries'', ''team_lead_skill''] path raw) (\<lambda>_.
     rbind (parse_recovery_rules path (map_of raw ''rules'')) (\<lambda>rules.
     rbind (int_setting raw ''max_consecutive_recoveries'' 3 0
       (path @ ''.max_consecutive_recoveries must be a non-negative integer'')) (\<lambda>most.
     rbind (optional_text (dotted path ''team_lead_skill'') (map_of raw ''team_lead_skill'')) (\<lambda>skill.
       Inr \<lparr>rc_rules = rules, rc_max_consecutive = most,
         rc_team_lead_skill = or_text skill ''aflow-harness-recovery-lead''\<rparr>))))"

definition parse_error_handling_config :: "string \<Rightarrow> tbl \<Rightarrow> recovery_config config_result" where
  "parse_error_handling_config path raw =
     rbind (reject_unknown [''harness_error_recovery''] path raw) (\<lambda>_.
       case map_of raw ''harness_error_recovery'' of
         None \<Rightarrow> Inr default_recovery
       | Some v \<Rightarrow> rbind (require_table (path @ ''.harness_error_recovery'') v)
           (parse_harness_error_recovery_config (path @ ''.harness_error_recovery'')))"

subsection \<open>What the readers promise\<close>

lemma parse_team_config_ok:
  assumes "parse_team_config path raw = Inr t"
  shows "distinct (map fst (tm_roles t)) \<and> (\<forall>(r, s) \<in> set (tm_roles t). selector_ok s)"
proof -
  from assms have "team_roles_of path raw = Inr (tm_roles t)"
    by (auto simp: parse_team_config_def rbind_Inr_iff)
  then show ?thesis
  proof (cases "map_of raw ''roles''")
    case None
    with \<open>team_roles_of path raw = Inr (tm_roles t)\<close>
    have f: "fill (\<lambda>(k, v). rbind (parse_selector_value (dotted path k) v) (\<lambda>s. Inr (k, s))) (inline_roles raw) [] = Inr (tm_roles t)"
      by (simp add: team_roles_of_def)
    have "selector_ok s" if "(r, s) \<in> set (tm_roles t)" for r s
      by (rule fill_all [where Q = "\<lambda>_. selector_ok", OF f _ _ that])
         (auto simp: rbind_Inr_iff dest: parse_selector_value_Inr)
    with fill_distinct [OF f] show ?thesis by auto
  next
    case (Some v)
    with \<open>team_roles_of path raw = Inr (tm_roles t)\<close> obtain rt
      where "parse_role_map (path @ ''.roles'') rt = Inr (tm_roles t)"
      by (auto simp: team_roles_of_def rbind_Inr_iff split: if_splits)
    then show ?thesis by (rule parse_role_map_ok)
  qed
qed

lemma parse_workflow_harness_distinct:
  "parse_workflow_harness path raw = Inr h \<Longrightarrow> distinct (map fst h)"
  by (auto simp: parse_workflow_harness_def rbind_Inr_iff split: option.splits dest!: fill_distinct)

end
