(* ===== verification/Config_Workflows.thy ===== *)
theory Config_Workflows
  imports Config_Sections Conditions
begin

text \<open>
  Workflows in a configuration document (\<^verbatim>\<open>aflow/config.py\<close>): steps with their transitions,
  the lifecycle settings, and the materialization that resolves aliases, inheritance and excluded
  steps. A workflow keeps the declared steps beside the executable ones, as the code does.
\<close>

subsection \<open>Transitions\<close>

text \<open>\<^verbatim>\<open>re.match(r"^[a-zA-Z_][a-zA-Z0-9_]*$", s)\<close>; the dollar also matches before a final line feed.\<close>

definition target_name :: "string \<Rightarrow> bool" where
  "target_name s =
     (s \<noteq> [] \<and> config_ident_start (hd s) \<and> dropWhile config_ident_char s \<in> {[], [LF]})"

definition quoted :: "string \<Rightarrow> string" where
  "quoted s = [QUOTE] @ s @ [QUOTE]"

definition END_STEP :: string where "END_STEP = ''END''"

definition unsupported_tokens :: "string \<Rightarrow> string list" where
  "unsupported_tokens expression =
     sort (remdups (filter (\<lambda>t. t \<notin> set VALID_CONDITION_SYMBOLS \<and> t \<notin> {''&&'', ''||'', ''!'', ''('', '')''})
       (config_tokens expression)))"

definition check_condition :: "string \<Rightarrow> string \<Rightarrow> unit config_result" where
  "check_condition path expression =
     (if unsupported_tokens expression \<noteq> []
      then Inl (''unsupported tokens in '' @ path @ '': '' @ join_with '', '' (unsupported_tokens expression))
      else Inr ())"

definition parse_when :: "string \<Rightarrow> toml option \<Rightarrow> string option config_result" where
  "parse_when path v =
     (case v of
        None \<Rightarrow> Inr None
      | Some w \<Rightarrow> rbind (require_text (path @ ''.when'') w) (\<lambda>s.
                  rbind (check_condition path s) (\<lambda>_. Inr (Some s))))"

definition parse_transition :: "string \<Rightarrow> toml \<Rightarrow> go_transition config_result" where
  "parse_transition path entry =
     (case entry of
        TTable t \<Rightarrow>
          rbind (require_item t ''to'' path) (\<lambda>v.
          rbind (require_text (path @ ''.to'') v) (\<lambda>target.
          rbind (if target \<noteq> END_STEP \<and> \<not> target_name target
                 then Inl (''invalid transition target '' @ quoted target @ '' in '' @ path @ ''.to'') else Inr ()) (\<lambda>_.
          rbind (parse_when path (map_of t ''when'')) (\<lambda>w.
          rbind (bool_setting t ''preserve_active_plan'' False
            (''expected '' @ path @ ''.preserve_active_plan to be a boolean'')) (\<lambda>preserve.
          if target = END_STEP \<and> preserve
          then Inl (path @ ''.preserve_active_plan cannot be true when '' @ path @ ''.to is '' @ quoted END_STEP)
          else Inr \<lparr>go_to = target, go_when = w, go_preserve = preserve\<rparr>)))))
      | _ \<Rightarrow> Inl (''expected '' @ path @ '' to be an inline table''))"

definition parse_go_transitions :: "string \<Rightarrow> toml \<Rightarrow> go_transition list config_result" where
  "parse_go_transitions path v =
     (case v of
        TArr xs \<Rightarrow> traverse (\<lambda>(i, entry). parse_transition (indexed (path @ ''.go'') i) entry) (enumerate 0 xs)
      | _ \<Rightarrow> Inl (''expected '' @ path @ ''.go to be an array''))"

subsection \<open>Steps\<close>

record step_config =
  ws_role :: string
  ws_prompts :: "string list"
  ws_go :: "go_transition list"

type_synonym steps = "step_config dictionary"

definition parse_step :: "string \<Rightarrow> tbl \<Rightarrow> step_config config_result" where
  "parse_step path t =
     (if has t ''manager_enabled''
      then Inl (path @ ''.manager_enabled is not accepted; configure manager supervision on the workflow or [workflow] defaults instead'')
      else
     rbind (reject_unknown [''role'', ''prompts'', ''go''] path t) (\<lambda>_.
     rbind (require_item t ''role'' path) (\<lambda>r.
     rbind (require_text (path @ ''.role'') r) (\<lambda>role.
     rbind (require_item t ''prompts'' path) (\<lambda>p.
     rbind (case p of
              TArr xs \<Rightarrow> if xs = [] then Inl (path @ ''.prompts must not be empty'')
                         else text_items (path @ ''.prompts'') xs
            | _ \<Rightarrow> Inl (''expected '' @ path @ ''.prompts to be an array'')) (\<lambda>prompts.
     rbind (require_item t ''go'' path) (\<lambda>g.
     rbind (parse_go_transitions path g) (\<lambda>go.
     if go = [] then Inl (path @ ''.go must not be empty'')
     else Inr \<lparr>ws_role = role, ws_prompts = prompts, ws_go = go\<rparr>))))))))"

text \<open>The first step is the first key of the table.\<close>

definition parse_workflow_steps :: "string \<Rightarrow> tbl \<Rightarrow> (steps \<times> string option) config_result" where
  "parse_workflow_steps path raw =
     rbind (fill (\<lambda>(k, v). rbind (require_key path k) (\<lambda>step_key.
              rbind (require_table (dotted path step_key) v) (\<lambda>t.
              rbind (parse_step (dotted path step_key) t) (\<lambda>s. Inr (step_key, s))))) raw []) (\<lambda>ss.
       Inr (ss, case raw of [] \<Rightarrow> None | (k, _) # _ \<Rightarrow> Some (strip k)))"

text \<open>Every transition leads to the end or to one of the steps.\<close>

definition transition_error :: "string \<Rightarrow> string \<Rightarrow> nat \<Rightarrow> string \<Rightarrow> string" where
  "transition_error path name i target =
     ''transition target '' @ quoted target @ '' in '' @ path @ ''.steps.'' @ name @ ''.go['' @ nat_str i @
     ''] does not reference a known step''"

definition dangling :: "steps \<Rightarrow> go_transition \<Rightarrow> bool" where
  "dangling ss t = (go_to t \<noteq> END_STEP \<and> \<not> has ss (go_to t))"

fun check_transitions :: "steps \<Rightarrow> string \<Rightarrow> string \<Rightarrow> (nat \<times> go_transition) list \<Rightarrow> unit config_result" where
  "check_transitions ss path name [] = Inr ()"
| "check_transitions ss path name ((i, t) # ts) =
     (if dangling ss t then Inl (transition_error path name i (go_to t)) else check_transitions ss path name ts)"

fun check_steps :: "steps \<Rightarrow> string \<Rightarrow> steps \<Rightarrow> unit config_result" where
  "check_steps ss path [] = Inr ()"
| "check_steps ss path ((name, s) # rest) =
     rbind (check_transitions ss path name (enumerate 0 (ws_go s))) (\<lambda>_. check_steps ss path rest)"

definition validate_workflow_transitions :: "string \<Rightarrow> steps \<Rightarrow> unit config_result" where
  "validate_workflow_transitions path ss = check_steps ss path ss"

subsection \<open>Workflows as declared\<close>

record workflow_config =
  wf_declared_steps :: steps
  wf_steps :: steps
  wf_first_step :: "string option"
  wf_excluded :: "string list"
  wf_retry :: "int option"
  wf_team :: "string option"
  wf_extends :: "string option"
  wf_setup :: "string list option"
  wf_teardown :: "string list option"
  wf_main_branch :: "string option"
  wf_merge_prompt :: "string list option"
  wf_manager_enabled :: "bool option"
  wf_upgrade_after_repairs :: int
  wf_declared_upgrade :: "int option"
  wf_upgrade_source :: string

record lifecycle_defaults =
  ld_setup :: "string list"
  ld_teardown :: "string list"
  ld_main_branch :: "string option"
  ld_merge_prompt :: "string list"
  ld_manager_enabled :: bool
  ld_upgrade_after_repairs :: int
  ld_declared_upgrade :: "int option"

definition optional_array :: "tbl \<Rightarrow> string \<Rightarrow> string \<Rightarrow> string list option config_result" where
  "optional_array raw key path =
     (case map_of raw key of
        None \<Rightarrow> Inr None
      | Some v \<Rightarrow> map_sum (\<lambda>e. e) Some (parse_lifecycle_array (dotted path key) v))"

text \<open>A setting that keeps whether it was given.\<close>

definition given_int :: "tbl \<Rightarrow> string \<Rightarrow> string \<Rightarrow> int option config_result" where
  "given_int raw key message =
     (case map_of raw key of
        None \<Rightarrow> Inr None
      | Some (TInt i) \<Rightarrow> if i < 0 then Inl message else Inr (Some i)
      | Some _ \<Rightarrow> Inl message)"

definition given_bool :: "tbl \<Rightarrow> string \<Rightarrow> string \<Rightarrow> bool option config_result" where
  "given_bool raw key message =
     (case map_of raw key of
        None \<Rightarrow> Inr None
      | Some (TBool b) \<Rightarrow> Inr (Some b)
      | Some _ \<Rightarrow> Inl message)"

definition workflow_keys :: "string list" where
  "workflow_keys = [''steps'', ''exclude'', ''retry_inconsistent_checkpoint_state'', ''extends'', ''team'', ''setup'',
     ''teardown'', ''main_branch'', ''merge_prompt'', ''manager_enabled'', ''upgrade_after_repairs'']"

definition declared_steps_of :: "string \<Rightarrow> string option \<Rightarrow> tbl \<Rightarrow> (steps \<times> string option) config_result" where
  "declared_steps_of path extends raw =
     (case extends of
        None \<Rightarrow>
          rbind (require_item raw ''steps'' path) (\<lambda>v.
          rbind (require_table (path @ ''.steps'') v) (\<lambda>t.
          rbind (parse_workflow_steps (path @ ''.steps'') t) (\<lambda>(ss, first).
          rbind (validate_workflow_transitions path ss) (\<lambda>_. Inr (ss, first)))))
      | Some _ \<Rightarrow>
          if has raw ''steps''
          then Inl (path @ '' may not redefine '' @ quoted ''steps'' @ '' when using '' @ quoted ''extends'')
          else Inr ([], None))"

definition retry_setting :: "string \<Rightarrow> string option \<Rightarrow> tbl \<Rightarrow> int option config_result" where
  "retry_setting path extends raw =
     (if has raw ''retry_inconsistent_checkpoint_state'' \<and> extends \<noteq> None
      then Inl (path @ ''.retry_inconsistent_checkpoint_state is not allowed on alias workflows'')
      else given_int raw ''retry_inconsistent_checkpoint_state''
        (path @ ''.retry_inconsistent_checkpoint_state must be a non-negative integer''))"

definition parse_workflow_definition :: "string \<Rightarrow> tbl \<Rightarrow> workflow_config config_result" where
  "parse_workflow_definition path raw =
     rbind (reject_unknown workflow_keys path raw) (\<lambda>_.
     rbind (optional_text (dotted path ''team'') (map_of raw ''team'')) (\<lambda>team.
     rbind (optional_text (dotted path ''extends'') (map_of raw ''extends'')) (\<lambda>extends.
     rbind (retry_setting path extends raw) (\<lambda>retry.
     rbind (optional_array raw ''setup'' path) (\<lambda>setup.
     rbind (optional_array raw ''teardown'' path) (\<lambda>teardown.
     rbind (optional_text (dotted path ''main_branch'') (map_of raw ''main_branch'')) (\<lambda>main_branch.
     rbind (optional_array raw ''merge_prompt'' path) (\<lambda>merge_prompt.
     rbind (given_bool raw ''manager_enabled'' (path @ ''.manager_enabled must be a boolean'')) (\<lambda>manager.
     rbind (given_int raw ''upgrade_after_repairs''
       (path @ ''.upgrade_after_repairs must be a nonnegative integer'')) (\<lambda>upgrade.
     rbind (declared_steps_of path extends raw) (\<lambda>(ss, first).
     rbind (case map_of raw ''exclude'' of None \<Rightarrow> Inr [] | Some v \<Rightarrow> parse_excluded_steps (path @ ''.exclude'') v) (\<lambda>excluded.
       Inr \<lparr>wf_declared_steps = ss, wf_steps = ss, wf_first_step = first, wf_excluded = excluded,
         wf_retry = retry, wf_team = team, wf_extends = extends, wf_setup = setup, wf_teardown = teardown,
         wf_main_branch = main_branch, wf_merge_prompt = merge_prompt, wf_manager_enabled = manager,
         wf_upgrade_after_repairs = (case upgrade of None \<Rightarrow> DEFAULT_UPGRADE_AFTER_REPAIRS | Some i \<Rightarrow> i),
         wf_declared_upgrade = upgrade, wf_upgrade_source = ''defaults''\<rparr>))))))))))))"

definition array_or_empty :: "tbl \<Rightarrow> string \<Rightarrow> string \<Rightarrow> string list config_result" where
  "array_or_empty raw key path =
     (case map_of raw key of None \<Rightarrow> Inr [] | Some v \<Rightarrow> parse_lifecycle_array (dotted path key) v)"

definition parse_workflow_lifecycle_defaults :: "string \<Rightarrow> tbl \<Rightarrow> lifecycle_defaults config_result" where
  "parse_workflow_lifecycle_defaults path raw =
     rbind (array_or_empty raw ''setup'' path) (\<lambda>setup.
     rbind (array_or_empty raw ''teardown'' path) (\<lambda>teardown.
     rbind (optional_text (dotted path ''main_branch'') (map_of raw ''main_branch'')) (\<lambda>main_branch.
     rbind (array_or_empty raw ''merge_prompt'' path) (\<lambda>merge_prompt.
     rbind (bool_setting raw ''manager_enabled'' False (path @ ''.manager_enabled must be a boolean'')) (\<lambda>manager.
     rbind (given_int raw ''upgrade_after_repairs''
       (path @ ''.upgrade_after_repairs must be a nonnegative integer'')) (\<lambda>upgrade.
       Inr \<lparr>ld_setup = setup, ld_teardown = teardown, ld_main_branch = main_branch,
         ld_merge_prompt = merge_prompt, ld_manager_enabled = manager,
         ld_upgrade_after_repairs = (case upgrade of None \<Rightarrow> DEFAULT_UPGRADE_AFTER_REPAIRS | Some i \<Rightarrow> i),
         ld_declared_upgrade = upgrade\<rparr>))))))"

definition WORKFLOW_LIFECYCLE_KEYS :: "string list" where
  "WORKFLOW_LIFECYCLE_KEYS =
     [''setup'', ''teardown'', ''main_branch'', ''merge_prompt'', ''manager_enabled'', ''upgrade_after_repairs'']"

definition parse_workflow_tables ::
  "string \<Rightarrow> tbl \<Rightarrow> (lifecycle_defaults \<times> workflow_config dictionary) config_result" where
  "parse_workflow_tables path raw =
     rbind (parse_workflow_lifecycle_defaults path raw) (\<lambda>ld.
     rbind (fill (\<lambda>(k, v). rbind (require_key path k) (\<lambda>wf_key.
              rbind (require_table (dotted path wf_key) v) (\<lambda>t.
              rbind (parse_workflow_definition (dotted path wf_key) t) (\<lambda>wf. Inr (wf_key, wf)))))
            (filter (\<lambda>kv. fst kv \<notin> set WORKFLOW_LIFECYCLE_KEYS) raw) []) (\<lambda>wfs.
       Inr (ld, wfs)))"

end
