(* ===== verification/Config_Materialize.thy ===== *)
theory Config_Materialize
  imports Config_Workflows
begin

text \<open>
  Materialization (\<^verbatim>\<open>_materialize_workflows\<close>): aliases take the steps and the unset settings of
  their base, concrete workflows the lifecycle defaults, and excluded steps leave the executable
  ones. The dictionary of resolved workflows and the names being resolved are arguments.
\<close>

subsection \<open>Excluded steps\<close>

text \<open>\<^verbatim>\<open>tuple(dict.fromkeys(xs))\<close> keeps the first of equal elements.\<close>

definition first_of_each :: "'a list \<Rightarrow> 'a list" where
  "first_of_each xs = rev (remdups (rev xs))"

definition merge_excluded_steps :: "string list \<Rightarrow> string list \<Rightarrow> string list" where
  "merge_excluded_steps base_excluded local_excluded = first_of_each (base_excluded @ local_excluded)"

definition apply_excluded_steps :: "string \<Rightarrow> steps \<Rightarrow> string list \<Rightarrow> (steps \<times> string) config_result" where
  "apply_excluded_steps path declared excluded =
     (case find_index (\<lambda>s. \<not> has declared s) excluded of
        Some i \<Rightarrow> Inl (path @ ''.exclude['' @ nat_str i @ ''] references unknown step '' @ quoted (excluded ! i))
      | None \<Rightarrow>
          (case filter (\<lambda>kv. fst kv \<notin> set excluded) declared of
             [] \<Rightarrow> Inl (path @ ''.first_step cannot be resolved after applying exclusions'')
           | kv # rest \<Rightarrow> Inr (kv # rest, fst kv)))"

subsection \<open>One workflow\<close>

definition or_else :: "'a option \<Rightarrow> 'a option \<Rightarrow> 'a option" where
  "or_else v d = (case v of None \<Rightarrow> d | Some x \<Rightarrow> Some x)"

definition concrete_workflow :: "lifecycle_defaults \<Rightarrow> string \<Rightarrow> workflow_config \<Rightarrow> workflow_config config_result" where
  "concrete_workflow ld path raw =
     (let declared = (if wf_declared_steps raw \<noteq> [] then wf_declared_steps raw else wf_steps raw)
      in rbind (apply_excluded_steps path declared (wf_excluded raw)) (\<lambda>(ss, first).
         rbind (validate_workflow_transitions path ss) (\<lambda>_.
         Inr \<lparr>wf_declared_steps = declared, wf_steps = ss, wf_first_step = Some first,
           wf_excluded = wf_excluded raw, wf_retry = wf_retry raw, wf_team = wf_team raw, wf_extends = None,
           wf_setup = or_else (wf_setup raw) (Some (ld_setup ld)),
           wf_teardown = or_else (wf_teardown raw) (Some (ld_teardown ld)),
           wf_main_branch = or_else (wf_main_branch raw) (ld_main_branch ld),
           wf_merge_prompt = or_else (wf_merge_prompt raw) (Some (ld_merge_prompt ld)),
           wf_manager_enabled = or_else (wf_manager_enabled raw) (Some (ld_manager_enabled ld)),
           wf_upgrade_after_repairs =
             (case wf_declared_upgrade raw of None \<Rightarrow> ld_upgrade_after_repairs ld | Some i \<Rightarrow> i),
           wf_declared_upgrade = wf_declared_upgrade raw,
           wf_upgrade_source = (if wf_declared_upgrade raw \<noteq> None then ''workflow'' else ''defaults'')\<rparr>)))"

definition alias_workflow ::
  "string \<Rightarrow> string \<Rightarrow> workflow_config \<Rightarrow> workflow_config \<Rightarrow> workflow_config config_result" where
  "alias_workflow path base_name base raw =
     (let excluded = merge_excluded_steps (wf_excluded base) (wf_excluded raw)
      in rbind (apply_excluded_steps path (wf_declared_steps base) excluded) (\<lambda>(ss, first).
         rbind (validate_workflow_transitions path ss) (\<lambda>_.
         Inr \<lparr>wf_declared_steps = wf_declared_steps base, wf_steps = ss, wf_first_step = Some first,
           wf_excluded = excluded, wf_retry = wf_retry base, wf_team = or_else (wf_team raw) (wf_team base),
           wf_extends = None,
           wf_setup = or_else (wf_setup raw) (wf_setup base),
           wf_teardown = or_else (wf_teardown raw) (wf_teardown base),
           wf_main_branch = or_else (wf_main_branch raw) (wf_main_branch base),
           wf_merge_prompt = or_else (wf_merge_prompt raw) (wf_merge_prompt base),
           wf_manager_enabled = or_else (wf_manager_enabled raw) (wf_manager_enabled base),
           wf_upgrade_after_repairs =
             (case wf_declared_upgrade raw of None \<Rightarrow> wf_upgrade_after_repairs base | Some i \<Rightarrow> i),
           wf_declared_upgrade = wf_declared_upgrade raw,
           wf_upgrade_source = (if wf_declared_upgrade raw \<noteq> None then ''workflow'' else ''base:'' @ base_name)\<rparr>)))"

subsection \<open>All workflows\<close>

definition is_alias :: "workflow_config dictionary \<Rightarrow> string \<Rightarrow> bool" where
  "is_alias raws name = (case map_of raws name of None \<Rightarrow> False | Some raw \<Rightarrow> wf_extends raw \<noteq> None)"

text \<open>A base is never an alias, so the recursion is one level deep.\<close>

function resolve ::
  "workflow_config dictionary \<Rightarrow> lifecycle_defaults \<Rightarrow> string \<Rightarrow> string list \<Rightarrow> string \<Rightarrow> workflow_config dictionary
    \<Rightarrow> (workflow_config \<times> workflow_config dictionary) config_result" where
  "resolve raws ld path resolving name resolved =
     (case map_of resolved name of
        Some w \<Rightarrow> Inr (w, resolved)
      | None \<Rightarrow>
        if name \<in> set resolving then Inl (''workflow alias cycle detected at '' @ dotted path name)
        else (case map_of raws name of
            None \<Rightarrow> Inl (''workflow alias references unknown workflow '' @ quoted name)
          | Some raw \<Rightarrow>
            (case wf_extends raw of
               None \<Rightarrow> rbind (concrete_workflow ld (dotted path name) raw) (\<lambda>wf.
                         Inr (wf, AList.update name wf resolved))
             | Some base_name \<Rightarrow>
                 if map_of raws base_name = None
                 then Inl (''workflow '' @ quoted name @ '' extends unknown workflow '' @ quoted base_name)
                 else if is_alias raws base_name
                 then Inl (''workflow '' @ quoted name @ '' cannot extend alias workflow '' @ quoted base_name)
                 else rbind (resolve raws ld path (name # resolving) base_name resolved) (\<lambda>(base, resolved').
                      rbind (alias_workflow (dotted path name) base_name base raw) (\<lambda>wf.
                        Inr (wf, AList.update name wf resolved'))))))"
  by pat_completeness auto
termination
  by (relation "measure (\<lambda>(raws, _, _, _, name, _). if is_alias raws name then 1 else 0)")
     (auto simp: is_alias_def)

declare resolve.simps [simp del]

fun resolve_all ::
  "workflow_config dictionary \<Rightarrow> lifecycle_defaults \<Rightarrow> string \<Rightarrow> string list \<Rightarrow> workflow_config dictionary
    \<Rightarrow> workflow_config dictionary config_result" where
  "resolve_all raws ld path [] resolved = Inr resolved"
| "resolve_all raws ld path (name # names) resolved =
     rbind (resolve raws ld path [] name resolved) (\<lambda>(_, resolved'). resolve_all raws ld path names resolved')"

definition materialize_workflows ::
  "string \<Rightarrow> lifecycle_defaults \<Rightarrow> workflow_config dictionary \<Rightarrow> workflow_config dictionary config_result" where
  "materialize_workflows path ld raws = resolve_all raws ld path (map fst raws) []"

subsection \<open>Well-formed steps\<close>

definition transition_ok :: "go_transition \<Rightarrow> bool" where
  "transition_ok t =
     ((go_to t = END_STEP \<or> target_name (go_to t)) \<and>
      (go_to t = END_STEP \<longrightarrow> \<not> go_preserve t) \<and>
      (case go_when t of None \<Rightarrow> True | Some e \<Rightarrow> e \<noteq> [] \<and> validate_condition_symbols e))"

definition step_ok :: "step_config \<Rightarrow> bool" where
  "step_ok s = (ws_role s \<noteq> [] \<and> ws_prompts s \<noteq> [] \<and> ws_go s \<noteq> [] \<and> list_all transition_ok (ws_go s))"

definition steps_ok :: "steps \<Rightarrow> bool" where
  "steps_ok ss = (distinct (map fst ss) \<and> (\<forall>(k, s) \<in> set ss. k \<noteq> [] \<and> step_ok s))"

definition declared_ok :: "workflow_config \<Rightarrow> bool" where
  "declared_ok w =
     (steps_ok (wf_declared_steps w) \<and> wf_steps w = wf_declared_steps w \<and>
      (case wf_declared_upgrade w of None \<Rightarrow> True | Some i \<Rightarrow> 0 \<le> i))"

lemma unsupported_tokens_Nil: "unsupported_tokens e = [] \<Longrightarrow> validate_condition_symbols e"
proof -
  assume a: "unsupported_tokens e = []"
  have "sort (remdups ts) = [] \<longleftrightarrow> ts = []" for ts :: "string list"
    by (metis set_empty set_remdups set_sort)
  with a show ?thesis
    by (auto simp: unsupported_tokens_def validate_condition_symbols_def filter_empty_conv list_all_iff)
qed

lemma parse_when_ok: "parse_when path v = Inr w \<Longrightarrow> case w of None \<Rightarrow> True | Some e \<Rightarrow> e \<noteq> [] \<and> validate_condition_symbols e"
  by (auto simp: parse_when_def check_condition_def rbind_Inr_iff unsupported_tokens_Nil
      dest: require_text_Inr split: option.splits if_splits)

lemma parse_transition_ok: "parse_transition path entry = Inr t \<Longrightarrow> transition_ok t"
  by (auto simp: parse_transition_def transition_ok_def rbind_Inr_iff dest: parse_when_ok split: toml.splits if_splits)

lemma traverse_list_all: "traverse f xs = Inr ys \<Longrightarrow> (\<And>x y. f x = Inr y \<Longrightarrow> P y) \<Longrightarrow> list_all P ys"
  by (induction xs arbitrary: ys) (auto simp: rbind_Inr_iff)

lemma parse_step_ok:
  assumes "parse_step path t = Inr s"
  shows "step_ok s"
proof -
  from assms have ne: "ws_go s \<noteq> []"
    by (auto simp: parse_step_def rbind_Inr_iff split: if_splits toml.splits)
  from assms obtain g where g: "parse_go_transitions path g = Inr (ws_go s)"
    by (auto simp: parse_step_def rbind_Inr_iff split: if_splits)
  from assms obtain v where r: "require_text (path @ ''.role'') v = Inr (ws_role s)"
    by (auto simp: parse_step_def rbind_Inr_iff split: if_splits)
  from assms have p: "\<exists>xs. xs \<noteq> [] \<and> text_items (path @ ''.prompts'') xs = Inr (ws_prompts s)"
    by (simp add: parse_step_def rbind_Inr_iff split: if_splits toml.splits) fastforce
  from g have "list_all transition_ok (ws_go s)"
    by (auto simp: parse_go_transitions_def split: toml.splits elim!: traverse_list_all intro: parse_transition_ok)
  moreover from p have "ws_prompts s \<noteq> []"
    by (auto simp: text_items_def dest: traverse_Inr_length)
  ultimately show ?thesis using ne r by (auto simp: step_ok_def dest: require_text_Inr)
qed

lemma require_key_Inr: "require_key path k = Inr k' \<Longrightarrow> k' \<noteq> []"
  by (auto simp: require_key_def dest: require_text_Inr)

lemma parse_workflow_steps_ok:
  assumes "parse_workflow_steps path raw = Inr (ss, first)"
  shows "steps_ok ss"
proof -
  from assms have f: "fill (\<lambda>(k, v). rbind (require_key path k) (\<lambda>step_key.
      rbind (require_table (dotted path step_key) v) (\<lambda>t.
      rbind (parse_step (dotted path step_key) t) (\<lambda>s. Inr (step_key, s))))) raw [] = Inr ss"
    by (auto simp: parse_workflow_steps_def rbind_Inr_iff)
  have "k \<noteq> [] \<and> step_ok s" if "(k, s) \<in> set ss" for k s
    by (rule fill_all [OF f _ _ that]) (auto simp: rbind_Inr_iff dest: require_key_Inr parse_step_ok)
  with fill_distinct [OF f] show ?thesis by (auto simp: steps_ok_def)
qed

lemma check_transitions_Inr:
  "check_transitions ss path name (enumerate n ts) = Inr u \<Longrightarrow> t \<in> set ts \<Longrightarrow> \<not> dangling ss t"
  by (induction ts arbitrary: n) (auto split: if_splits)

lemma check_steps_Inr:
  "check_steps ss path rest = Inr u \<Longrightarrow> (k, s) \<in> set rest \<Longrightarrow> t \<in> set (ws_go s) \<Longrightarrow> \<not> dangling ss t"
  by (induction ss path rest rule: check_steps.induct) (auto simp: rbind_Inr_iff dest: check_transitions_Inr)

lemma declared_steps_ok:
  "declared_steps_of path extends raw = Inr (ss, first) \<Longrightarrow> steps_ok ss"
  by (auto simp: declared_steps_of_def rbind_Inr_iff steps_ok_def split: option.splits if_splits
      dest: parse_workflow_steps_ok [unfolded steps_ok_def])

lemma given_int_ge: "given_int raw key m = Inr (Some i) \<Longrightarrow> 0 \<le> i"
  by (auto simp: given_int_def split: option.splits toml.splits if_splits)

lemma parse_workflow_definition_ok:
  assumes "parse_workflow_definition path raw = Inr w"
  shows "declared_ok w"
proof -
  from assms obtain extends first where "declared_steps_of path extends raw = Inr (wf_declared_steps w, first)"
    by (auto simp: parse_workflow_definition_def rbind_Inr_iff)
  moreover from assms have "wf_steps w = wf_declared_steps w"
    by (auto simp: parse_workflow_definition_def rbind_Inr_iff)
  moreover from assms obtain m where "given_int raw ''upgrade_after_repairs'' m = Inr (wf_declared_upgrade w)"
    by (auto simp: parse_workflow_definition_def rbind_Inr_iff)
  ultimately show ?thesis
    by (auto simp: declared_ok_def split: option.splits dest: declared_steps_ok given_int_ge)
qed

lemma parse_workflow_tables_ok:
  assumes "parse_workflow_tables path raw = Inr (ld, raws)"
  shows "distinct (map fst raws) \<and> (\<forall>(k, w) \<in> set raws. declared_ok w) \<and> 0 \<le> ld_upgrade_after_repairs ld"
proof -
  from assms obtain items where f: "fill (\<lambda>(k, v). rbind (require_key path k) (\<lambda>wf_key.
      rbind (require_table (dotted path wf_key) v) (\<lambda>t.
      rbind (parse_workflow_definition (dotted path wf_key) t) (\<lambda>wf. Inr (wf_key, wf))))) items [] = Inr raws"
    by (auto simp: parse_workflow_tables_def rbind_Inr_iff)
  have "declared_ok w" if "(k, w) \<in> set raws" for k w
    by (rule fill_all [where Q = "\<lambda>_. declared_ok", OF f _ _ that])
       (auto simp: rbind_Inr_iff dest: parse_workflow_definition_ok)
  moreover from assms have "parse_workflow_lifecycle_defaults path raw = Inr ld"
    by (auto simp: parse_workflow_tables_def rbind_Inr_iff)
  then obtain m upgrade where "given_int raw ''upgrade_after_repairs'' m = Inr upgrade"
    "ld_upgrade_after_repairs ld = (case upgrade of None \<Rightarrow> DEFAULT_UPGRADE_AFTER_REPAIRS | Some i \<Rightarrow> i)"
    by (auto simp: parse_workflow_lifecycle_defaults_def rbind_Inr_iff)
  then have "0 \<le> ld_upgrade_after_repairs ld"
    by (cases upgrade) (auto simp: DEFAULT_UPGRADE_AFTER_REPAIRS_def dest: given_int_ge)
  ultimately show ?thesis using fill_distinct [OF f] by auto
qed

subsection \<open>Well-formed workflows\<close>

definition executable_only :: "string list \<Rightarrow> steps \<Rightarrow> steps" where
  "executable_only excluded declared = filter (\<lambda>kv. fst kv \<notin> set excluded) declared"

definition closed_steps :: "steps \<Rightarrow> bool" where
  "closed_steps ss = (\<forall>(k, s) \<in> set ss. \<forall>t \<in> set (ws_go s). \<not> dangling ss t)"

definition materialized :: "workflow_config \<Rightarrow> bool" where
  "materialized w =
     (steps_ok (wf_declared_steps w) \<and> wf_steps w = executable_only (wf_excluded w) (wf_declared_steps w) \<and>
      wf_steps w \<noteq> [] \<and> wf_first_step w = Some (fst (hd (wf_steps w))) \<and> closed_steps (wf_steps w) \<and>
      wf_extends w = None \<and> wf_setup w \<noteq> None \<and> wf_teardown w \<noteq> None \<and> wf_merge_prompt w \<noteq> None \<and>
      wf_manager_enabled w \<noteq> None \<and> 0 \<le> wf_upgrade_after_repairs w)"

lemma steps_ok_executable: "steps_ok ss \<Longrightarrow> steps_ok (executable_only ex ss)"
  by (auto simp: steps_ok_def executable_only_def distinct_map_filter')

lemma apply_excluded_steps_Inr:
  "apply_excluded_steps path declared excluded = Inr (ss, first) \<Longrightarrow>
     ss = executable_only excluded declared \<and> executable_only excluded declared \<noteq> [] \<and>
     first = fst (hd (executable_only excluded declared))"
  by (cases "executable_only excluded declared")
     (auto simp: apply_excluded_steps_def executable_only_def [symmetric] split: option.splits
       dest!: sym [of "_ # _"])

lemma validate_transitions_closed: "validate_workflow_transitions path ss = Inr u \<Longrightarrow> closed_steps ss"
  by (auto simp: validate_workflow_transitions_def closed_steps_def dest: check_steps_Inr)

lemma or_else_Some [simp]: "or_else v (Some d) = Some (case v of None \<Rightarrow> d | Some x \<Rightarrow> x)"
  by (auto simp: or_else_def split: option.splits)

lemma or_else_None [simp]: "or_else v d = None \<longleftrightarrow> v = None \<and> d = None"
  by (auto simp: or_else_def split: option.splits)

lemma concrete_workflow_ok:
  assumes c: "concrete_workflow ld path raw = Inr w" and d: "declared_ok raw" and l: "0 \<le> ld_upgrade_after_repairs ld"
  shows "materialized w"
proof -
  from d have r: "steps_ok (wf_declared_steps raw)" "wf_steps raw = wf_declared_steps raw"
    and u: "wf_declared_upgrade raw = Some i \<Longrightarrow> 0 \<le> i" for i by (auto simp: declared_ok_def)
  from r have e: "(if wf_declared_steps raw \<noteq> [] then wf_declared_steps raw else wf_steps raw) = wf_declared_steps raw"
    by simp
  from c [unfolded concrete_workflow_def e] obtain ss first where a: "apply_excluded_steps path (wf_declared_steps raw) (wf_excluded raw) = Inr (ss, first)"
    and v: "validate_workflow_transitions path ss = Inr ()"
    and w: "wf_declared_steps w = wf_declared_steps raw" "wf_steps w = ss" "wf_first_step w = Some first"
      "wf_excluded w = wf_excluded raw" "wf_extends w = None" "wf_setup w \<noteq> None" "wf_teardown w \<noteq> None"
      "wf_merge_prompt w \<noteq> None" "wf_manager_enabled w \<noteq> None"
      "wf_upgrade_after_repairs w = (case wf_declared_upgrade raw of None \<Rightarrow> ld_upgrade_after_repairs ld | Some i \<Rightarrow> i)"
    by (auto simp: Let_def rbind_Inr_iff simp del: not_None_eq)
  from l u have "0 \<le> wf_upgrade_after_repairs w" by (simp add: w split: option.splits)
  with r w apply_excluded_steps_Inr [OF a] validate_transitions_closed [OF v] show ?thesis
    by (simp add: materialized_def del: not_None_eq)
qed

lemma alias_workflow_ok:
  assumes c: "alias_workflow path base_name base raw = Inr w" and b: "materialized base" and d: "declared_ok raw"
  shows "materialized w"
proof -
  from d have u: "wf_declared_upgrade raw = Some i \<Longrightarrow> 0 \<le> i" for i by (auto simp: declared_ok_def)
  from c obtain ss first where
      a: "apply_excluded_steps path (wf_declared_steps base) (merge_excluded_steps (wf_excluded base) (wf_excluded raw)) = Inr (ss, first)"
    and v: "validate_workflow_transitions path ss = Inr ()"
    and w: "wf_declared_steps w = wf_declared_steps base" "wf_steps w = ss" "wf_first_step w = Some first"
      "wf_excluded w = merge_excluded_steps (wf_excluded base) (wf_excluded raw)" "wf_extends w = None"
      "wf_setup w = or_else (wf_setup raw) (wf_setup base)" "wf_teardown w = or_else (wf_teardown raw) (wf_teardown base)"
      "wf_merge_prompt w = or_else (wf_merge_prompt raw) (wf_merge_prompt base)"
      "wf_manager_enabled w = or_else (wf_manager_enabled raw) (wf_manager_enabled base)"
      "wf_upgrade_after_repairs w = (case wf_declared_upgrade raw of None \<Rightarrow> wf_upgrade_after_repairs base | Some i \<Rightarrow> i)"
    by (auto simp: alias_workflow_def Let_def rbind_Inr_iff simp del: not_None_eq)
  from b have "0 \<le> wf_upgrade_after_repairs base" by (simp add: materialized_def)
  with u have "0 \<le> wf_upgrade_after_repairs w" by (simp add: w split: option.splits)
  with b w apply_excluded_steps_Inr [OF a] validate_transitions_closed [OF v] show ?thesis
    by (simp add: materialized_def del: not_None_eq)
qed

definition raws_ok :: "workflow_config dictionary \<Rightarrow> lifecycle_defaults \<Rightarrow> bool" where
  "raws_ok raws ld = ((\<forall>(k, w) \<in> set raws. declared_ok w) \<and> 0 \<le> ld_upgrade_after_repairs ld)"

definition resolved_ok :: "workflow_config dictionary \<Rightarrow> workflow_config dictionary \<Rightarrow> bool" where
  "resolved_ok raws resolved =
     (distinct (map fst resolved) \<and> fst ` set resolved \<subseteq> fst ` set raws \<and> (\<forall>(k, w) \<in> set resolved. materialized w))"

lemma resolved_ok_update:
  "resolved_ok raws resolved \<Longrightarrow> map_of raws name = Some raw \<Longrightarrow> materialized w \<Longrightarrow>
     resolved_ok raws (AList.update name w resolved)"
  using set_update_sub [of name w resolved]
  by (auto simp: resolved_ok_def distinct_update dest!: map_of_SomeD intro: rev_image_eqI)

lemma resolve_ok:
  assumes "resolve raws ld path resolving name resolved = Inr (w, resolved')"
    and "raws_ok raws ld" and "resolved_ok raws resolved"
  shows "materialized w \<and> resolved_ok raws resolved' \<and> map_of resolved' name = Some w \<and>
    fst ` set resolved \<subseteq> fst ` set resolved'"
  using assms
proof (induction raws ld path resolving name resolved arbitrary: w resolved' rule: resolve.induct)
  case (1 raws ld path resolving name resolved)
  show ?case
  proof (cases "map_of resolved name")
    case (Some v)
    with 1(2) have "w = v" "resolved' = resolved" by (simp_all add: resolve.simps)
    with Some 1(4) show ?thesis by (auto simp: resolved_ok_def dest: map_of_SomeD)
  next
    case None
    with 1(2) obtain raw where raw: "map_of raws name = Some raw" and nr: "name \<notin> set resolving"
      by (auto simp: resolve.simps [of raws ld path resolving name] split: if_splits option.splits)
    with 1(3) have dr: "declared_ok raw" by (auto simp: raws_ok_def dest: map_of_SomeD)
    show ?thesis
    proof (cases "wf_extends raw")
      case None
      with 1(2) \<open>map_of resolved name = None\<close> raw nr
      have c: "concrete_workflow ld (dotted path name) raw = Inr w" and u: "resolved' = AList.update name w resolved"
        by (auto simp: resolve.simps [of raws ld path resolving name] rbind_Inr_iff)
      from 1(3) dr have "materialized w" by (auto simp: raws_ok_def intro: concrete_workflow_ok [OF c])
      with 1(4) raw u show ?thesis by (auto simp: resolved_ok_update)
    next
      case (Some base_name)
      with 1(2) \<open>map_of resolved name = None\<close> raw nr obtain base r1
        where b: "map_of raws base_name \<noteq> None" "\<not> is_alias raws base_name"
          and r: "resolve raws ld path (name # resolving) base_name resolved = Inr (base, r1)"
          and a: "alias_workflow (dotted path name) base_name base raw = Inr w"
          and u: "resolved' = AList.update name w r1"
        by (auto simp: resolve.simps [of raws ld path resolving name] rbind_Inr_iff split: if_splits)
      from 1(1) [OF \<open>map_of resolved name = None\<close> nr raw Some b r 1(3,4)]
      have ih: "materialized base \<and> resolved_ok raws r1 \<and> fst ` set resolved \<subseteq> fst ` set r1" by blast
      with a dr have "materialized w" by (blast intro: alias_workflow_ok)
      with ih raw u show ?thesis by (auto simp: resolved_ok_update)
    qed
  qed
qed

lemma resolve_all_ok:
  assumes "resolve_all raws ld path names resolved = Inr resolved'"
    and "raws_ok raws ld" and "resolved_ok raws resolved"
  shows "resolved_ok raws resolved' \<and> fst ` set resolved \<union> set names \<subseteq> fst ` set resolved'"
  using assms
proof (induction names arbitrary: resolved)
  case (Cons name names)
  from Cons.prems(1) obtain w r1 where r: "resolve raws ld path [] name resolved = Inr (w, r1)"
    and rest: "resolve_all raws ld path names r1 = Inr resolved'" by (auto simp: rbind_Inr_iff)
  from resolve_ok [OF r Cons.prems(2,3)] have r1: "resolved_ok raws r1" "map_of r1 name = Some w"
    "fst ` set resolved \<subseteq> fst ` set r1" by blast+
  from r1(2) have "name \<in> fst ` set r1" by (force dest: map_of_SomeD)
  with Cons.IH [OF rest Cons.prems(2) r1(1)] r1(3) show ?case by auto
qed simp

lemma materialize_workflows_ok:
  assumes "materialize_workflows path ld raws = Inr ws" and "raws_ok raws ld"
  shows "resolved_ok raws ws \<and> fst ` set ws = fst ` set raws"
proof -
  have "resolved_ok raws []" by (simp add: resolved_ok_def)
  from resolve_all_ok [OF assms(1) [unfolded materialize_workflows_def] assms(2) this]
  show ?thesis by (auto simp: resolved_ok_def)
qed

end
