(* ===== verification/Config_Teams.thy ===== *)
theory Config_Teams
  imports Config_Materialize
begin

text \<open>
  The loaded configuration and its teams (\<^verbatim>\<open>aflow/config.py\<close>): the one-level inheritance of
  role and prompt declarations, its resolution with the source of every value, and the graphs that
  backup and upgrade links form. A team is a name with a target, if any: the walks over both graphs
  and the inheritance chain are functions of that link.
\<close>

record user_config =
  uc_aflow :: aflow_section
  uc_harnesses :: "harness_config dictionary"
  uc_roles :: "string dictionary"
  uc_role_prompts :: "string dictionary"
  uc_teams :: "team_config dictionary"
  uc_manager :: manager_config
  uc_recovery :: recovery_config
  uc_workflows :: "workflow_config dictionary"
  uc_prompts :: "string dictionary"

subsection \<open>Inheritance\<close>

definition not_configured :: "string \<Rightarrow> string" where
  "not_configured team = ''team '' @ quoted team @ '' is not configured''"

definition cycle_text :: "string list \<Rightarrow> string \<Rightarrow> string" where
  "cycle_text chain name =
     join_with '' -> '' ((case list_index chain name of None \<Rightarrow> [] | Some i \<Rightarrow> drop i chain) @ [name])"

lemma fewer_left:
  "x \<in> set xs \<Longrightarrow> x \<notin> set ys \<Longrightarrow>
     length (filter (\<lambda>n. n \<notin> insert x (set ys)) xs) < length (filter (\<lambda>n. n \<notin> set ys) xs)"
  using length_filter_less [of x "filter (\<lambda>n. n \<notin> set ys) xs" "\<lambda>n. n \<noteq> x"]
  by (auto simp: conj_commute)

text \<open>The loop of \<^verbatim>\<open>_team_inheritance_chain\<close>; every round adds a team the chain does not have.\<close>

function chain_from :: "team_config dictionary \<Rightarrow> string \<Rightarrow> string list \<Rightarrow> string \<Rightarrow> string list config_result" where
  "chain_from teams team_name chain current =
     (if current \<in> set chain
      then Inl (''teams.'' @ team_name @ ''.extends forms a cycle: '' @ cycle_text chain current)
      else (case map_of teams current of
              None \<Rightarrow> Inl (not_configured current)
            | Some t \<Rightarrow>
                (case tm_extends t of
                   None \<Rightarrow> Inr (chain @ [current])
                 | Some target \<Rightarrow>
                     if strip target = [] then Inl (''teams.'' @ current @ ''.extends must be a non-empty string'')
                     else if \<not> has teams target
                     then Inl (''teams.'' @ current @ ''.extends references unknown team '' @ quoted target)
                     else chain_from teams team_name (chain @ [current]) target)))"
  by pat_completeness auto
termination
proof (relation "measure (\<lambda>(teams, _, chain, _). length (filter (\<lambda>n. n \<notin> set chain) (map fst teams)))", goal_cases)
  case (2 teams team_name chain current t target)
  then have "current \<in> set (map fst teams)" by (force dest: map_of_SomeD)
  with 2 fewer_left [of current "map fst teams" chain] show ?case by simp
qed simp

declare chain_from.simps [simp del]

definition team_inheritance_chain :: "user_config \<Rightarrow> string \<Rightarrow> string list config_result" where
  "team_inheritance_chain cfg team_name = chain_from (uc_teams cfg) team_name [] team_name"

definition deep_chain_error :: "string list \<Rightarrow> string" where
  "deep_chain_error chain =
     ''teams.'' @ chain ! 0 @ ''.extends references child team '' @ quoted (chain ! 1) @ ''; teams.'' @ chain ! 1 @
     ''.extends references '' @ quoted (chain ! 2) @ '', but team inheritance is limited to one level''"

definition display_name_errors :: "string \<times> team_config \<Rightarrow> string list" where
  "display_name_errors nt =
     (case tm_display (snd nt) of
        None \<Rightarrow> []
      | Some d \<Rightarrow>
          if strip d = [] then [''teams.'' @ fst nt @ ''.display_name must not be empty'']
          else if length (strip d) > TEAM_DISPLAY_NAME_MAX_LENGTH
          then [''teams.'' @ fst nt @ ''.display_name'' @ too_long] else [])"

definition blank_extends :: "team_config \<Rightarrow> bool" where
  "blank_extends t = (case tm_extends t of None \<Rightarrow> False | Some e \<Rightarrow> strip e = [])"

definition declaration_errors :: "string \<times> team_config \<Rightarrow> string list" where
  "declaration_errors nt = display_name_errors nt @
     (if blank_extends (snd nt) then [''teams.'' @ fst nt @ ''.extends must be a non-empty string''] else [])"

text \<open>A message of the chain is reported once, a chain that is too deep for every team.\<close>

fun chain_errors :: "user_config \<Rightarrow> (string \<times> team_config) list \<Rightarrow> string list \<Rightarrow> string list" where
  "chain_errors cfg [] reported = []"
| "chain_errors cfg ((name, t) # rest) reported =
     (if blank_extends t then chain_errors cfg rest reported
      else (case team_inheritance_chain cfg name of
              Inl m \<Rightarrow> if m \<in> set reported then chain_errors cfg rest reported
                       else m # chain_errors cfg rest (m # reported)
            | Inr chain \<Rightarrow>
                (if length chain > 2 then [deep_chain_error chain] else []) @ chain_errors cfg rest reported))"

definition validate_team_inheritance :: "user_config \<Rightarrow> string list" where
  "validate_team_inheritance cfg =
     concat (map declaration_errors (uc_teams cfg)) @ chain_errors cfg (uc_teams cfg) []"

subsection \<open>Resolution\<close>

record team_resolution =
  tr_roles :: "string dictionary"
  tr_prompts :: "string dictionary"
  tr_role_sources :: "string dictionary"
  tr_prompt_sources :: "string dictionary"

definition sourced :: "string \<Rightarrow> string dictionary \<Rightarrow> string dictionary" where
  "sourced source d = map (\<lambda>(role, _). (role, source)) d"

definition global_resolution :: "user_config \<Rightarrow> team_resolution" where
  "global_resolution cfg = \<lparr>tr_roles = uc_roles cfg, tr_prompts = uc_role_prompts cfg,
     tr_role_sources = sourced ''global'' (uc_roles cfg),
     tr_prompt_sources = sourced ''global'' (uc_role_prompts cfg)\<rparr>"

definition overlay :: "string \<Rightarrow> team_config \<Rightarrow> team_resolution \<Rightarrow> team_resolution" where
  "overlay name t r = \<lparr>tr_roles = dict_update (tr_roles r) (tm_roles t),
     tr_prompts = dict_update (tr_prompts r) (tm_prompts t),
     tr_role_sources = dict_update (tr_role_sources r) (sourced name (tm_roles t)),
     tr_prompt_sources = dict_update (tr_prompt_sources r) (sourced name (tm_prompts t))\<rparr>"

definition base_overlay :: "user_config \<Rightarrow> string list \<Rightarrow> team_resolution \<Rightarrow> team_resolution" where
  "base_overlay cfg chain r =
     (if length chain = 2
      then (case map_of (uc_teams cfg) (chain ! 1) of None \<Rightarrow> r | Some b \<Rightarrow> overlay (chain ! 1) b r)
      else r)"

definition resolve_team_config :: "user_config \<Rightarrow> string option \<Rightarrow> team_resolution config_result" where
  "resolve_team_config cfg team =
     (case team of
        None \<Rightarrow> Inr (global_resolution cfg)
      | Some name \<Rightarrow>
          (case map_of (uc_teams cfg) name of
             None \<Rightarrow> Inl (not_configured name)
           | Some t \<Rightarrow>
               rbind (team_inheritance_chain cfg name) (\<lambda>chain.
                 if length chain > 2 then Inl (deep_chain_error chain)
                 else Inr (overlay name t (base_overlay cfg chain (global_resolution cfg))))))"

subsection \<open>Backup and upgrade links\<close>

type_synonym link = "team_config \<Rightarrow> string option"

definition target_errors :: "string \<Rightarrow> link \<Rightarrow> team_config dictionary \<Rightarrow> string list" where
  "target_errors attribute link teams =
     concat (map (\<lambda>(name, t). case link t of
         None \<Rightarrow> []
       | Some target \<Rightarrow> if has teams target then []
           else [''teams.'' @ name @ ''.'' @ attribute @ '' references unknown team '' @ quoted target]) teams)"

text \<open>
  \<^verbatim>\<open>walk_team_chain\<close>: \<^verbatim>\<open>visiting\<close> and \<^verbatim>\<open>chain\<close> are restored before it returns and are
  arguments; it returns the teams visited and the errors reported.
\<close>

function walk_team_chain ::
  "string \<Rightarrow> link \<Rightarrow> team_config dictionary \<Rightarrow> string list \<Rightarrow> string list \<Rightarrow> string \<Rightarrow> string list \<times> string list
    \<Rightarrow> string list \<times> string list" where
  "walk_team_chain attribute link teams visiting chain name (visited, errors) =
     (if name \<in> set visiting
      then (visited, errors @ [''teams.'' @ name @ ''.'' @ attribute @ '' forms a cycle: '' @ cycle_text chain name])
      else if name \<in> set visited then (visited, errors)
      else (let (visited', errors') =
                  (case map_of teams name of
                     None \<Rightarrow> (visited, errors)
                   | Some t \<Rightarrow>
                       (case link t of
                          None \<Rightarrow> (visited, errors)
                        | Some target \<Rightarrow>
                            if has teams target
                            then walk_team_chain attribute link teams (name # visiting) (chain @ [name]) target (visited, errors)
                            else (visited, errors)))
            in (name # visited', errors')))"
  by pat_completeness auto
termination
proof (relation "measure (\<lambda>(_, _, teams, visiting, _, _, _). length (filter (\<lambda>n. n \<notin> set visiting) (map fst teams)))", goal_cases)
  case (2 attribute link teams visiting chain name visited errors t target)
  then have "name \<in> set (map fst teams)" by (force dest: map_of_SomeD)
  with 2 fewer_left [of name "map fst teams" visiting] show ?case by simp
qed simp

declare walk_team_chain.simps [simp del]

fun walk_all ::
  "string \<Rightarrow> link \<Rightarrow> team_config dictionary \<Rightarrow> string list \<Rightarrow> string list \<times> string list \<Rightarrow> string list \<times> string list" where
  "walk_all attribute link teams [] st = st"
| "walk_all attribute link teams (name # names) st =
     walk_all attribute link teams names (walk_team_chain attribute link teams [] [] name st)"

definition validate_team_graph :: "string \<Rightarrow> link \<Rightarrow> team_config dictionary \<Rightarrow> string list" where
  "validate_team_graph attribute link teams =
     target_errors attribute link teams @ snd (walk_all attribute link teams (map fst teams) ([], []))"

end
