(* ===== verification/Config_Validation.thy ===== *)
theory Config_Validation
  imports Config_Teams
begin

text \<open>
  Loading a configuration (\<^verbatim>\<open>aflow/config.py\<close>): reading both documents of a pair, merging them,
  the semantic validation with the messages it collects, and the anchoring of a relative worktree
  root. What \<^verbatim>\<open>tomllib\<close> makes of a text is the argument \<open>loads\<close>: a message or a table.
\<close>

subsection \<open>Texts\<close>

definition hex_digit :: "nat \<Rightarrow> char" where
  "hex_digit d = (if d < 10 then char_of (48 + d) else char_of (87 + d))"

definition repr_char :: "char \<Rightarrow> char \<Rightarrow> string" where
  "repr_char q c =
     (if c = q \<or> c = CHR 0x5C then [CHR 0x5C, c]
      else if c = LF then [CHR 0x5C, CHR ''n'']
      else if c = CR then [CHR 0x5C, CHR ''r'']
      else if c = CHR 0x09 then [CHR 0x5C, CHR ''t'']
      else if is_printable c then [c]
      else [CHR 0x5C, CHR ''x'', hex_digit (code c div 16), hex_digit (code c mod 16)])"

text \<open>\<^verbatim>\<open>repr(s)\<close>: double quotes only for a text with single and without double quotes.\<close>

definition py_repr :: "string \<Rightarrow> string" where
  "py_repr s =
     (let q = (if QUOTE \<in> set s \<and> CHR 0x22 \<notin> set s then CHR 0x22 else QUOTE)
      in [q] @ concat (map (repr_char q) s) @ [q])"

definition repr_list :: "string list \<Rightarrow> string" where
  "repr_list xs = ''['' @ join_with '', '' (map py_repr xs) @ '']''"

subsection \<open>Reading one document\<close>

definition ADAPTERS :: "string list" where
  "ADAPTERS = [''claude'', ''codex'', ''copilot'', ''dsh'', ''gemini'', ''kiro'', ''muse'', ''opencode'', ''pi'',
     ''reasonix'', ''strands'', ''zcode'']"

text \<open>A section that is optional as a whole.\<close>

definition section_of :: "tbl \<Rightarrow> string \<Rightarrow> string \<Rightarrow> 'a \<Rightarrow> (string \<Rightarrow> tbl \<Rightarrow> 'a config_result) \<Rightarrow> 'a config_result" where
  "section_of raw path key default_value parse_it =
     (case map_of raw key of
        None \<Rightarrow> Inr default_value
      | Some v \<Rightarrow> rbind (require_table (dotted path key) v) (parse_it (dotted path key)))"

definition placeholder_harness :: "string \<Rightarrow> harness_config \<Rightarrow> bool" where
  "placeholder_harness key h =
     (key = ''starter'' \<and> h \<noteq> [] \<and> list_all (\<lambda>(_, p). pf_model p = Some ''FILL_IN_MODEL'') h)"

definition parse_harness_entry :: "string \<Rightarrow> string \<Rightarrow> string \<times> toml \<Rightarrow> (string \<times> harness_config) config_result" where
  "parse_harness_entry doc path kv =
     rbind (require_key path (fst kv)) (\<lambda>key.
     rbind (require_table (dotted path key) (snd kv)) (\<lambda>t.
     rbind (parse_workflow_harness (dotted path key) t) (\<lambda>h.
     if key \<notin> set ADAPTERS \<and> \<not> placeholder_harness key h
     then Inl (''unsupported harness '' @ quoted key @ '' in '' @ doc @ '', supported harnesses are: '' @
            join_with '', '' (sort ADAPTERS))
     else Inr (key, h))))"

definition parse_harnesses :: "string \<Rightarrow> string \<Rightarrow> tbl \<Rightarrow> harness_config dictionary config_result" where
  "parse_harnesses doc path t = fill (parse_harness_entry doc path) t []"

text \<open>The table \<^verbatim>\<open>[roles]\<close> holds the selectors and, under one key, the prompts.\<close>

definition parse_roles :: "string \<Rightarrow> tbl \<Rightarrow> (string dictionary \<times> string dictionary) config_result" where
  "parse_roles path t =
     rbind (parse_role_map path (filter (\<lambda>kv. fst kv \<noteq> ''prompts'') t)) (\<lambda>roles.
     rbind (section_of t path ''prompts'' [] parse_role_prompt_map) (\<lambda>prompts.
       Inr (roles, prompts)))"

definition parse_teams :: "string \<Rightarrow> tbl \<Rightarrow> team_config dictionary config_result" where
  "parse_teams path t =
     fill (\<lambda>(k, v). rbind (require_key path k) (\<lambda>key.
             rbind (require_table (dotted path key) v) (\<lambda>tt.
             rbind (parse_team_config (dotted path key) tt) (\<lambda>team. Inr (key, team))))) t []"

definition parse_workflows :: "string \<Rightarrow> tbl \<Rightarrow> workflow_config dictionary config_result" where
  "parse_workflows path t =
     rbind (parse_workflow_tables path t) (\<lambda>(ld, raws). materialize_workflows path ld raws)"

definition parse_workflow_user_config :: "string \<Rightarrow> string list \<Rightarrow> tbl \<Rightarrow> user_config config_result" where
  "parse_workflow_user_config doc allowed raw =
     (if unknown_keys allowed raw \<noteq> []
      then Inl (''unsupported top-level keys in '' @ doc @ '': '' @ join_with '', '' (unknown_keys allowed raw))
      else
     rbind (section_of raw doc ''aflow'' default_aflow parse_aflow_section) (\<lambda>aflow.
     rbind (section_of raw doc ''harness'' [] (parse_harnesses doc)) (\<lambda>harnesses.
     rbind (section_of raw doc ''roles'' ([], []) parse_roles) (\<lambda>(roles, role_prompts).
     rbind (section_of raw doc ''error_handling'' default_recovery parse_error_handling_config) (\<lambda>recovery.
     rbind (section_of raw doc ''manager'' default_manager parse_manager_config) (\<lambda>manager.
     rbind (section_of raw doc ''teams'' [] parse_teams) (\<lambda>teams.
     rbind (section_of raw doc ''workflow'' [] parse_workflows) (\<lambda>workflows.
     rbind (section_of raw doc ''prompts'' [] parse_role_prompt_map) (\<lambda>prompts.
       Inr \<lparr>uc_aflow = aflow, uc_harnesses = harnesses, uc_roles = roles, uc_role_prompts = role_prompts,
         uc_teams = teams, uc_manager = manager, uc_recovery = recovery, uc_workflows = workflows,
         uc_prompts = prompts\<rparr>)))))))))"

subsection \<open>Semantic validation\<close>

definition zcode_errors :: "user_config \<Rightarrow> string list" where
  "zcode_errors cfg =
     (case map_of (uc_harnesses cfg) ''zcode'' of
        None \<Rightarrow> []
      | Some h \<Rightarrow> concat (map (\<lambda>(name, p).
          if pf_model p \<noteq> None \<or> pf_effort p \<noteq> None
          then [''harness.zcode.profiles.'' @ name @ '': configure model and reasoning in ZCode'' @ [QUOTE] @
                ''s project configuration; AFlow model/effort overrides are not supported by the ZCode CLI'']
          else []) h))"

definition default_workflow_errors :: "user_config \<Rightarrow> string list" where
  "default_workflow_errors cfg =
     (case as_default_workflow (uc_aflow cfg) of
        None \<Rightarrow> []
      | Some w \<Rightarrow> if has (uc_workflows cfg) w then []
                  else [''aflow.default_workflow references unknown workflow '' @ quoted w])"

definition selector_errors :: "user_config \<Rightarrow> string \<Rightarrow> string \<Rightarrow> string list" where
  "selector_errors cfg label selector =
     (if CHR ''.'' \<notin> set selector then [label @ '' must be a fully qualified harness.profile selector'']
      else (let (harness_name, profile_name) = partition_dot selector
            in case map_of (uc_harnesses cfg) harness_name of
                 None \<Rightarrow> [label @ '' references unknown harness '' @ quoted harness_name]
               | Some h \<Rightarrow>
                   if has h profile_name then []
                   else [label @ '' references unknown profile '' @ quoted profile_name @ '' for harness '' @
                         quoted harness_name]))"

definition unknown_role :: "user_config \<Rightarrow> string \<Rightarrow> string \<Rightarrow> string list" where
  "unknown_role cfg label role =
     (if has (uc_roles cfg) role then [] else [label @ '' references unknown role '' @ quoted role])"

definition role_errors :: "user_config \<Rightarrow> string list" where
  "role_errors cfg =
     concat (map (\<lambda>(role, selector). selector_errors cfg (''roles.'' @ role) selector) (uc_roles cfg)) @
     concat (map (\<lambda>(role, _). unknown_role cfg (''roles.prompts.'' @ role) role) (uc_role_prompts cfg))"

definition team_errors :: "user_config \<Rightarrow> string \<times> team_config \<Rightarrow> string list" where
  "team_errors cfg nt =
     (let label = ''teams.'' @ fst nt @ ''.''
      in concat (map (\<lambda>(role, selector). unknown_role cfg (label @ role) role @ selector_errors cfg (label @ role) selector)
           (tm_roles (snd nt))) @
         concat (map (\<lambda>(role, _). unknown_role cfg (label @ ''prompts.'' @ role) role) (tm_prompts (snd nt))))"

definition effective_team_roles :: "user_config \<Rightarrow> string option \<Rightarrow> string dictionary" where
  "effective_team_roles cfg team =
     (case team of
        None \<Rightarrow> uc_roles cfg
      | Some name \<Rightarrow>
          (case resolve_team_config cfg (Some name) of
             Inr r \<Rightarrow> tr_roles r
           | Inl _ \<Rightarrow>
               (case map_of (uc_teams cfg) name of
                  None \<Rightarrow> uc_roles cfg
                | Some t \<Rightarrow> dict_update (uc_roles cfg) (tm_roles t))))"

definition text_or_None :: "string option \<Rightarrow> string" where
  "text_or_None v = (case v of None \<Rightarrow> ''None'' | Some s \<Rightarrow> s)"

definition manager_role_errors :: "user_config \<Rightarrow> string \<Rightarrow> workflow_config \<Rightarrow> string option \<Rightarrow> string list" where
  "manager_role_errors cfg name w manager_role =
     (case manager_role of
        None \<Rightarrow> []
      | Some role \<Rightarrow>
          if has (effective_team_roles cfg (wf_team w)) role \<or> has (uc_roles cfg) role then []
          else [''workflow.'' @ name @ '' manager role '' @ quoted role @ '' cannot be resolved through team '' @
                quoted (text_or_None (wf_team w)) @ '' or global roles''])"

definition manager_errors :: "user_config \<Rightarrow> string \<Rightarrow> workflow_config \<Rightarrow> string list" where
  "manager_errors cfg name w =
     (if wf_manager_enabled w = Some True
      then (if mc_lite_role (uc_manager cfg) = None
            then [''manager.lite_role is required for enabled workflow '' @ quoted name] else []) @
           (if mc_full_role (uc_manager cfg) = None
            then [''manager.full_role is required for enabled workflow '' @ quoted name] else []) @
           manager_role_errors cfg name w (mc_lite_role (uc_manager cfg)) @
           manager_role_errors cfg name w (mc_full_role (uc_manager cfg))
      else [])"

definition step_errors :: "user_config \<Rightarrow> string \<Rightarrow> steps \<Rightarrow> string list" where
  "step_errors cfg name ss =
     concat (map (\<lambda>(step, s). unknown_role cfg (''workflow.'' @ name @ ''.steps.'' @ step @ ''.role'') (ws_role s)) ss)"

definition prompt_errors :: "user_config \<Rightarrow> string \<Rightarrow> string list \<Rightarrow> string list" where
  "prompt_errors cfg label keys =
     concat (map (\<lambda>(i, key). if has (uc_prompts cfg) key then []
       else [indexed label i @ '' references unknown prompt '' @ quoted key]) (enumerate 0 keys))"

definition step_prompt_errors :: "user_config \<Rightarrow> string \<Rightarrow> steps \<Rightarrow> string list" where
  "step_prompt_errors cfg name ss =
     concat (map (\<lambda>(step, s). prompt_errors cfg (''workflow.'' @ name @ ''.steps.'' @ step @ ''.prompts'') (ws_prompts s)) ss)"

definition VALID_LIFECYCLE_COMBOS :: "(string list \<times> string list) list" where
  "VALID_LIFECYCLE_COMBOS =
     [([], []), ([''branch''], [''merge'']), ([''worktree'', ''branch''], [''merge'', ''rm_worktree''])]"

definition texts_or_empty :: "string list option \<Rightarrow> string list" where
  "texts_or_empty v = (case v of None \<Rightarrow> [] | Some xs \<Rightarrow> xs)"

definition lifecycle_errors :: "string \<Rightarrow> workflow_config \<Rightarrow> string list" where
  "lifecycle_errors name w =
     (let setup = texts_or_empty (wf_setup w); teardown = texts_or_empty (wf_teardown w)
      in if (setup, teardown) \<in> set VALID_LIFECYCLE_COMBOS then []
         else [''workflow.'' @ name @ '' has unsupported lifecycle combination setup='' @ repr_list setup @
               '' teardown='' @ repr_list teardown])"

definition merge_errors :: "user_config \<Rightarrow> string \<Rightarrow> workflow_config \<Rightarrow> string list" where
  "merge_errors cfg name w =
     (if ''merge'' \<in> set (texts_or_empty (wf_teardown w))
      then (case as_team_lead (uc_aflow cfg) of
              None \<Rightarrow> [''workflow.'' @ name @ '' uses merge teardown but [aflow].team_lead is not set'']
            | Some lead \<Rightarrow>
                if lead = [] then [''workflow.'' @ name @ '' uses merge teardown but [aflow].team_lead is not set'']
                else (case wf_team w of
                    Some team \<Rightarrow>
                      if has (uc_teams cfg) team
                      then (if has (effective_team_roles cfg (Some team)) lead \<or> has (uc_roles cfg) lead then []
                            else [''workflow.'' @ name @ '' uses merge but team_lead role '' @ quoted lead @
                                  '' cannot be resolved through team '' @ quoted team @ '' or global roles''])
                      else if has (uc_roles cfg) lead then []
                      else [''workflow.'' @ name @ '' uses merge but team_lead role '' @ quoted lead @
                            '' cannot be resolved through global roles'']
                  | None \<Rightarrow>
                      if has (uc_roles cfg) lead then []
                      else [''workflow.'' @ name @ '' uses merge but team_lead role '' @ quoted lead @
                            '' cannot be resolved through global roles'']))
      else [])"

definition workflow_errors :: "user_config \<Rightarrow> string \<times> workflow_config \<Rightarrow> string list" where
  "workflow_errors cfg nw =
     (let name = fst nw; w = snd nw; label = ''workflow.'' @ name
      in (if wf_upgrade_after_repairs w < 0
          then [label @ ''.upgrade_after_repairs must be a nonnegative integer''] else []) @
         (case wf_declared_upgrade w of
            Some i \<Rightarrow> if i < 0 then [label @ ''.declared_upgrade_after_repairs must be a nonnegative integer''] else []
          | None \<Rightarrow> []) @
         (if wf_extends w \<noteq> None then [label @ ''.extends should not be present after materialization''] else []) @
         manager_errors cfg name w @
         step_errors cfg name (wf_steps w) @
         step_prompt_errors cfg name (wf_steps w) @
         lifecycle_errors name w @
         prompt_errors cfg (label @ ''.merge_prompt'') (texts_or_empty (wf_merge_prompt w)) @
         merge_errors cfg name w)"

definition validate_workflow_config :: "user_config \<Rightarrow> string list" where
  "validate_workflow_config cfg =
     zcode_errors cfg @ default_workflow_errors cfg @ validate_team_inheritance cfg @ role_errors cfg @
     concat (map (team_errors cfg) (uc_teams cfg)) @
     validate_team_graph ''backup_team'' tm_backup (uc_teams cfg) @
     validate_team_graph ''upgrade_to'' tm_upgrade (uc_teams cfg) @
     concat (map (workflow_errors cfg) (uc_workflows cfg))"

subsection \<open>Loading a pair\<close>

text \<open>
  \<^verbatim>\<open>os.path.abspath\<close> of a path below a directory. A path is its root (empty, one or two slashes)
  and its components without empty ones and single dots, as \<^verbatim>\<open>pathlib\<close> keeps it.
\<close>

definition path_root :: "string \<Rightarrow> string" where
  "path_root p =
     (if \<not> starts_with p ''/'' then []
      else if starts_with p ''//'' \<and> \<not> starts_with p ''///'' then ''//'' else ''/'')"

definition components :: "string \<Rightarrow> string list" where
  "components p = filter (\<lambda>c. c \<noteq> [] \<and> c \<noteq> ''.'') (split_on (CHR ''/'') p)"

definition add_component :: "string list \<Rightarrow> string \<Rightarrow> string list" where
  "add_component done_parts c = (if c = ''..'' then butlast done_parts else done_parts @ [c])"

definition abspath_in :: "string \<Rightarrow> string \<Rightarrow> string \<Rightarrow> string" where
  "abspath_in cwd source_dir p =
     (let base = (if path_root source_dir = [] then components cwd @ components source_dir else components source_dir);
          root = (if path_root source_dir = [] then path_root cwd else path_root source_dir)
      in root @ join_with ''/'' (foldl add_component [] (base @ components p)))"

definition resolve_relative_worktree_root :: "string \<Rightarrow> string \<Rightarrow> user_config \<Rightarrow> user_config" where
  "resolve_relative_worktree_root cwd source_dir cfg =
     (case as_worktree_root (uc_aflow cfg) of
        None \<Rightarrow> cfg
      | Some p \<Rightarrow>
          if starts_with p ''~'' \<or> path_root p \<noteq> [] then cfg
          else cfg\<lparr>uc_aflow := (uc_aflow cfg)\<lparr>as_worktree_root := Some (abspath_in cwd source_dir p)\<rparr>\<rparr>)"

definition AFLOW_TOP_LEVEL_KEYS :: "string list" where
  "AFLOW_TOP_LEVEL_KEYS =
     [''aflow'', ''harness'', ''roles'', ''teams'', ''prompts'', ''error_handling'', ''manager'']"

definition WORKFLOWS_TOP_LEVEL_KEYS :: "string list" where
  "WORKFLOWS_TOP_LEVEL_KEYS = [''workflow'']"

definition parse_document ::
  "(string \<Rightarrow> string + tbl) \<Rightarrow> string \<Rightarrow> string list \<Rightarrow> string \<Rightarrow> user_config config_result" where
  "parse_document loads doc allowed text =
     (case loads text of
        Inl m \<Rightarrow> Inl (''invalid TOML in '' @ doc @ '': '' @ m)
      | Inr raw \<Rightarrow> parse_workflow_user_config doc allowed raw)"

definition merge_pair :: "user_config \<Rightarrow> user_config \<Rightarrow> user_config" where
  "merge_pair cfg sibling =
     cfg\<lparr>uc_workflows := dict_update (uc_workflows cfg) (uc_workflows sibling),
         uc_prompts := dict_update (uc_prompts cfg) (uc_prompts sibling)\<rparr>"

definition parse_workflow_pair ::
  "(string \<Rightarrow> string + tbl) \<Rightarrow> string \<Rightarrow> string \<Rightarrow> string \<Rightarrow> string option \<Rightarrow> user_config config_result" where
  "parse_workflow_pair loads cwd source_dir aflow_text workflows_text =
     rbind (parse_document loads ''aflow.toml'' AFLOW_TOP_LEVEL_KEYS aflow_text) (\<lambda>cfg.
     rbind (case workflows_text of
              None \<Rightarrow> Inr cfg
            | Some t \<Rightarrow> map_sum (\<lambda>e. e) (merge_pair cfg)
                (parse_document loads ''workflows.toml'' WORKFLOWS_TOP_LEVEL_KEYS t)) (\<lambda>merged.
     if validate_workflow_config merged \<noteq> []
     then Inl (join_with ''; '' (validate_workflow_config merged))
     else Inr (resolve_relative_worktree_root cwd source_dir merged)))"

end
