(* ===== verification/Step_Runtime.thy ===== *)
theory Step_Runtime
  imports Config_Validation
begin

text \<open>
  From a step to the program that runs it (\<^verbatim>\<open>aflow/workflow.py\<close>, \<^verbatim>\<open>aflow/manager.py\<close>): the
  selector of a role under a team, a pending override and run-local selectors, the profile a
  selector names, and the identity of the exclusive resource a profile occupies
  (\<^verbatim>\<open>execution_resource_key\<close> of \<^verbatim>\<open>aflow/config.py\<close>). SHA-256 is the argument \<open>sha\<close>.
\<close>

subsection \<open>The resource of a profile\<close>

text \<open>\<^verbatim>\<open>json.dumps(s, ensure_ascii=False)\<close>\<close>

definition json_char :: "char \<Rightarrow> string" where
  "json_char c =
     (let n = code c; slash = CHR 0x5C
      in if n = 34 then [slash, CHR 0x22]
         else if n = 92 then [slash, slash]
         else if n = 10 then [slash, CHR ''n'']
         else if n = 13 then [slash, CHR ''r'']
         else if n = 9 then [slash, CHR ''t'']
         else if n = 12 then [slash, CHR ''f'']
         else if n = 8 then [slash, CHR ''b'']
         else if n < 32 then [slash, CHR ''u'', CHR ''0'', CHR ''0'', hex_digit (n div 16), hex_digit (n mod 16)]
         else [c])"

definition json_text :: "string \<Rightarrow> string" where
  "json_text s = [CHR 0x22] @ concat (map json_char s) @ [CHR 0x22]"

definition json_optional :: "string option \<Rightarrow> string" where
  "json_optional v = (case v of None \<Rightarrow> ''null'' | Some s \<Rightarrow> json_text s)"

definition resource_payload :: "string \<Rightarrow> string option \<Rightarrow> string option \<Rightarrow> string" where
  "resource_payload harness_name model effort =
     ''['' @ json_text ''aflow-exclusive-v1'' @ '','' @ json_text harness_name @ '','' @ json_optional model @ '','' @
     json_optional effort @ '']''"

definition execution_resource_key ::
  "(string \<Rightarrow> string) \<Rightarrow> string \<Rightarrow> string option \<Rightarrow> string option \<Rightarrow> string" where
  "execution_resource_key sha harness_name model effort = sha (resource_payload harness_name model effort)"

subsection \<open>Selectors and profiles\<close>

record resolved_profile =
  rp_harness :: string
  rp_profile :: string
  rp_model :: "string option"
  rp_effort :: "string option"
  rp_exclusive_resource :: "string option"

definition resolve_selector ::
  "(string \<Rightarrow> string) \<Rightarrow> user_config \<Rightarrow> string \<Rightarrow> string \<Rightarrow> resolved_profile config_result" where
  "resolve_selector sha cfg step_path selector =
     (if CHR ''.'' \<notin> set selector
      then Inl (''step profile must be fully qualified (harness.profile) in '' @ step_path @ '', got '' @ quoted selector)
      else (let (harness_name, profile_name) = partition_dot selector
            in if harness_name = [] \<or> profile_name = []
               then Inl (''invalid profile selector '' @ quoted selector @ '' in '' @ step_path)
               else (case map_of (uc_harnesses cfg) harness_name of
                   None \<Rightarrow> Inl (''workflow step references unknown harness '' @ quoted harness_name @ '' in '' @ step_path)
                 | Some h \<Rightarrow>
                     (case map_of h profile_name of
                        None \<Rightarrow> Inl (''workflow step references unknown profile '' @ quoted profile_name @
                                  '' for harness '' @ quoted harness_name @ '' in '' @ step_path)
                      | Some p \<Rightarrow>
                          Inr \<lparr>rp_harness = harness_name, rp_profile = profile_name, rp_model = pf_model p,
                            rp_effort = pf_effort p,
                            rp_exclusive_resource =
                              (if pf_exclusive p
                               then Some (execution_resource_key sha harness_name (pf_model p) (pf_effort p))
                               else None)\<rparr>))))"

text \<open>The fields of \<^verbatim>\<open>PendingTeamOverride\<close> that the resolution reads.\<close>

record team_override =
  po_target_step :: string
  po_role :: string
  po_selector :: string
  po_consumed :: bool

definition override_applies :: "team_override option \<Rightarrow> string \<Rightarrow> string option \<Rightarrow> string option" where
  "override_applies pending role step_name =
     (case pending of
        None \<Rightarrow> None
      | Some p \<Rightarrow> if \<not> po_consumed p \<and> po_role p = role \<and> step_name = Some (po_target_step p)
                  then Some (po_selector p) else None)"

definition team_selector :: "user_config \<Rightarrow> string \<Rightarrow> string option \<Rightarrow> string \<Rightarrow> string option config_result" where
  "team_selector cfg step_path team_name role =
     (case team_name of
        None \<Rightarrow> Inr (map_of (uc_roles cfg) role)
      | Some team \<Rightarrow>
          if \<not> has (uc_teams cfg) team
          then Inl (''workflow step references unknown team '' @ quoted team @ '' in '' @ step_path)
          else (case resolve_team_config cfg (Some team) of
                  Inl m \<Rightarrow> Inl (''team '' @ quoted team @ '' cannot be resolved in '' @ step_path @ '': '' @ m)
                | Inr r \<Rightarrow> Inr (map_of (tr_roles r) role)))"

definition resolve_role_selector ::
  "user_config \<Rightarrow> string \<Rightarrow> string option \<Rightarrow> string dictionary option \<Rightarrow> team_override option \<Rightarrow>
     string option \<Rightarrow> string \<Rightarrow> string config_result" where
  "resolve_role_selector cfg step_path step_name run_local pending team_name role =
     (case override_applies pending role step_name of
        Some s \<Rightarrow> Inr s
      | None \<Rightarrow>
          (case (case run_local of None \<Rightarrow> None | Some d \<Rightarrow> map_of d role) of
             Some s \<Rightarrow> Inr s
           | None \<Rightarrow>
               rbind (team_selector cfg step_path team_name role) (\<lambda>selector.
                 case selector of
                   Some s \<Rightarrow> Inr s
                 | None \<Rightarrow> if CHR ''.'' \<in> set role then Inr role
                           else Inl (''workflow step references unknown role '' @ quoted role @ '' in '' @ step_path))))"

definition resolve_role_prompt :: "user_config \<Rightarrow> string \<Rightarrow> string option \<Rightarrow> string \<Rightarrow> string config_result" where
  "resolve_role_prompt cfg step_path team_name role =
     (case team_name of
        None \<Rightarrow> Inr (or_text (map_of (uc_role_prompts cfg) role) [])
      | Some team \<Rightarrow>
          if \<not> has (uc_teams cfg) team
          then Inl (''workflow step references unknown team '' @ quoted team @ '' in '' @ step_path)
          else (case resolve_team_config cfg (Some team) of
                  Inl m \<Rightarrow> Inl (''team '' @ quoted team @ '' cannot be resolved in '' @ step_path @ '': '' @ m)
                | Inr r \<Rightarrow> Inr (or_text (map_of (tr_prompts r) role) [])))"

definition resolve_step_runtime ::
  "(string \<Rightarrow> string) \<Rightarrow> user_config \<Rightarrow> string \<Rightarrow> string option \<Rightarrow> string dictionary option \<Rightarrow>
     team_override option \<Rightarrow> string option \<Rightarrow> step_config \<Rightarrow> (string \<times> resolved_profile) config_result" where
  "resolve_step_runtime sha cfg step_path step_name run_local pending team_name step =
     rbind (resolve_role_selector cfg step_path step_name run_local pending team_name (ws_role step)) (\<lambda>selector.
     rbind (resolve_selector sha cfg step_path selector) (\<lambda>p. Inr (selector, p)))"

subsection \<open>Manager roles\<close>

datatype manager_level = Lite | Full

definition resolve_manager_selector :: "user_config \<Rightarrow> string option \<Rightarrow> string \<Rightarrow> string config_result" where
  "resolve_manager_selector cfg team_name role =
     (case team_name of
        Some team \<Rightarrow>
          if \<not> has (uc_teams cfg) team then Inl (''unknown team '' @ quoted team)
          else rbind (resolve_team_config cfg (Some team)) (\<lambda>r.
                 case map_of (tr_roles r) role of
                   None \<Rightarrow> Inl (''role '' @ quoted role @ '' cannot be resolved'') | Some s \<Rightarrow> Inr s)
      | None \<Rightarrow>
          (case map_of (uc_roles cfg) role of
             None \<Rightarrow> Inl (''role '' @ quoted role @ '' cannot be resolved'') | Some s \<Rightarrow> Inr s))"

definition level_name :: "manager_level \<Rightarrow> string" where
  "level_name l = (case l of Lite \<Rightarrow> ''lite'' | Full \<Rightarrow> ''full'')"

definition resolve_manager_role ::
  "user_config \<Rightarrow> manager_level \<Rightarrow> string option \<Rightarrow> string \<Rightarrow> (string \<times> string) config_result" where
  "resolve_manager_role cfg level baseline_team workflow_name =
     (case map_of (uc_workflows cfg) workflow_name of
        None \<Rightarrow> Inl (''unknown workflow '' @ quoted workflow_name)
      | Some w \<Rightarrow>
          if wf_manager_enabled w \<noteq> Some True
          then Inl (''manager supervision is disabled for workflow '' @ quoted workflow_name)
          else (case (if level = Lite then mc_lite_role (uc_manager cfg) else mc_full_role (uc_manager cfg)) of
                  None \<Rightarrow> Inl (''manager '' @ level_name level @ '' role is not configured'')
                | Some role \<Rightarrow> map_sum (\<lambda>e. e) (Pair role) (resolve_manager_selector cfg baseline_team role)))"

end
