(* ===== verification/Config_Laws.thy ===== *)
theory Config_Laws
  imports Step_Runtime
begin

text \<open>
  What loading establishes: the shape of every part of a loaded configuration, the inheritance of
  teams within one level, and the walk over a link graph, which reports exactly the cycles.
\<close>

subsection \<open>The shape of a loaded configuration\<close>

definition roles_ok :: "string dictionary \<Rightarrow> bool" where
  "roles_ok d = (distinct (map fst d) \<and> (\<forall>(r, s) \<in> set d. selector_ok s))"

definition config_ok :: "user_config \<Rightarrow> bool" where
  "config_ok cfg =
     (roles_ok (uc_roles cfg) \<and> (\<forall>(n, t) \<in> set (uc_teams cfg). roles_ok (tm_roles t)) \<and>
      distinct (map fst (uc_teams cfg)) \<and> distinct (map fst (uc_workflows cfg)) \<and>
      (\<forall>(n, w) \<in> set (uc_workflows cfg). materialized w))"

lemma parse_roles_ok: "parse_roles path t = Inr (roles, prompts) \<Longrightarrow> roles_ok roles"
  by (auto simp: parse_roles_def rbind_Inr_iff roles_ok_def dest!: parse_role_map_ok)

lemma parse_teams_ok:
  assumes "parse_teams path t = Inr teams"
  shows "distinct (map fst teams) \<and> (\<forall>(n, tm) \<in> set teams. roles_ok (tm_roles tm))"
proof -
  note f = assms [unfolded parse_teams_def]
  have "roles_ok (tm_roles tm)" if "(n, tm) \<in> set teams" for n tm
    by (rule fill_all [where Q = "\<lambda>_ tm. roles_ok (tm_roles tm)", OF f _ _ that])
       (auto simp: rbind_Inr_iff roles_ok_def dest!: parse_team_config_ok)
  with fill_distinct [OF f] show ?thesis by auto
qed

lemma parse_workflows_ok:
  assumes "parse_workflows path t = Inr ws"
  shows "distinct (map fst ws) \<and> (\<forall>(n, w) \<in> set ws. materialized w)"
proof -
  from assms obtain ld raws where t: "parse_workflow_tables path t = Inr (ld, raws)"
    and m: "materialize_workflows path ld raws = Inr ws"
    by (auto simp: parse_workflows_def rbind_Inr_iff)
  from parse_workflow_tables_ok [OF t] have "raws_ok raws ld" by (simp add: raws_ok_def)
  from materialize_workflows_ok [OF m this] show ?thesis by (simp add: resolved_ok_def)
qed

lemma section_of_Inr:
  "section_of raw path key d f = Inr x \<Longrightarrow> x = d \<or> (\<exists>t. f (dotted path key) t = Inr x)"
  by (auto simp: section_of_def rbind_Inr_iff split: option.splits)

lemma parse_workflow_user_config_ok:
  assumes "parse_workflow_user_config doc allowed raw = Inr cfg"
  shows "config_ok cfg"
proof -
  from assms have r: "section_of raw doc ''roles'' ([], []) parse_roles = Inr (uc_roles cfg, uc_role_prompts cfg)"
    and t: "section_of raw doc ''teams'' [] parse_teams = Inr (uc_teams cfg)"
    and w: "section_of raw doc ''workflow'' [] parse_workflows = Inr (uc_workflows cfg)"
    by (auto simp: parse_workflow_user_config_def rbind_Inr_iff split: if_splits)
  from section_of_Inr [OF r] have "roles_ok (uc_roles cfg)"
    by (auto simp: roles_ok_def dest: parse_roles_ok [unfolded roles_ok_def])
  with section_of_Inr [OF t] section_of_Inr [OF w] show ?thesis
    unfolding config_ok_def by (auto dest: parse_teams_ok parse_workflows_ok)
qed

lemma parse_document_ok: "parse_document loads doc allowed t = Inr cfg \<Longrightarrow> config_ok cfg"
  by (auto simp: parse_document_def split: sum.splits dest: parse_workflow_user_config_ok)

lemma merge_pair_ok: "config_ok cfg \<Longrightarrow> config_ok sibling \<Longrightarrow> config_ok (merge_pair cfg sibling)"
  using set_dict_update_sub [of "uc_workflows cfg" "uc_workflows sibling"]
  by (fastforce simp: config_ok_def merge_pair_def)

text \<open>Anchoring the worktree root changes nothing that validation looks at.\<close>

definition same_graph :: "user_config \<Rightarrow> user_config \<Rightarrow> bool" where
  "same_graph a b \<longleftrightarrow> (uc_harnesses a = uc_harnesses b \<and> uc_roles a = uc_roles b \<and> uc_role_prompts a = uc_role_prompts b \<and>
     uc_teams a = uc_teams b \<and> uc_workflows a = uc_workflows b \<and> uc_prompts a = uc_prompts b \<and>
     uc_manager a = uc_manager b)"

lemma same_graph_anchored: "same_graph (resolve_relative_worktree_root cwd source_dir cfg) cfg"
  by (auto simp: same_graph_def resolve_relative_worktree_root_def split: option.splits)

lemma parse_workflow_pair_ok:
  assumes "parse_workflow_pair loads cwd source_dir aflow_text workflows_text = Inr cfg"
  obtains merged where "config_ok merged" and "validate_workflow_config merged = []" and "same_graph cfg merged"
proof -
  from assms obtain c0 merged where c0: "parse_document loads ''aflow.toml'' AFLOW_TOP_LEVEL_KEYS aflow_text = Inr c0"
    and m: "(case workflows_text of None \<Rightarrow> Inr c0
            | Some t \<Rightarrow> map_sum (\<lambda>e. e) (merge_pair c0)
                (parse_document loads ''workflows.toml'' WORKFLOWS_TOP_LEVEL_KEYS t)) = Inr merged"
    and v: "validate_workflow_config merged = []"
    and c: "cfg = resolve_relative_worktree_root cwd source_dir merged"
    by (auto simp: parse_workflow_pair_def rbind_Inr_iff split: if_splits)
  have "config_ok merged"
  proof (cases workflows_text)
    case None
    with m parse_document_ok [OF c0] show ?thesis by simp
  next
    case (Some t)
    with m obtain s where "parse_document loads ''workflows.toml'' WORKFLOWS_TOP_LEVEL_KEYS t = Inr s" "merged = merge_pair c0 s"
      by (auto simp: map_sum_def split: sum.splits)
    with parse_document_ok [OF c0] show ?thesis by (auto intro: merge_pair_ok dest: parse_document_ok)
  qed
  with v c that [of merged] show thesis by (simp add: same_graph_anchored)
qed

subsection \<open>Inheritance within one level\<close>

lemma chain_errors_Nil:
  "chain_errors cfg ts reported = [] \<Longrightarrow> set reported = {} \<Longrightarrow> (n, t) \<in> set ts \<Longrightarrow> \<not> blank_extends t \<Longrightarrow>
     \<exists>chain. team_inheritance_chain cfg n = Inr chain \<and> length chain \<le> 2"
  by (induction cfg ts reported rule: chain_errors.induct) (auto split: if_splits sum.splits)

lemma validated_chain:
  assumes "validate_team_inheritance cfg = []" and "(n, t) \<in> set (uc_teams cfg)"
  obtains chain where "team_inheritance_chain cfg n = Inr chain" and "length chain \<le> 2"
proof -
  from assms have "\<not> blank_extends t"
    by (auto simp: validate_team_inheritance_def declaration_errors_def split: if_splits)
  with assms chain_errors_Nil [of cfg "uc_teams cfg" "[]" n t] that show thesis
    by (auto simp: validate_team_inheritance_def)
qed

lemma validated_team_resolves:
  assumes "validate_team_inheritance cfg = []" and "map_of (uc_teams cfg) n = Some t"
  obtains chain where "team_inheritance_chain cfg n = Inr chain"
    and "resolve_team_config cfg (Some n) = Inr (overlay n t (base_overlay cfg chain (global_resolution cfg)))"
proof -
  from assms(2) have "(n, t) \<in> set (uc_teams cfg)" by (rule map_of_SomeD)
  with assms(1) obtain chain where "team_inheritance_chain cfg n = Inr chain" "length chain \<le> 2"
    by (rule validated_chain)
  with assms(2) that show thesis by (simp add: resolve_team_config_def)
qed

text \<open>Every selector of an effective role map is one some declaration gives.\<close>

definition declared_selector :: "user_config \<Rightarrow> string \<Rightarrow> string \<Rightarrow> bool" where
  "declared_selector cfg role s \<longleftrightarrow>
     (role, s) \<in> set (uc_roles cfg) \<or> (\<exists>(n, t) \<in> set (uc_teams cfg). (role, s) \<in> set (tm_roles t))"

lemma overlay_roles [simp]:
  "tr_roles (overlay n t r) = dict_update (tr_roles r) (tm_roles t)"
  "tr_role_sources (overlay n t r) = dict_update (tr_role_sources r) (sourced n (tm_roles t))"
  by (simp_all add: overlay_def)

lemma dict_update_cases:
  assumes "(k, v) \<in> set (dict_update d e)"
  obtains "(k, v) \<in> set d" | "(k, v) \<in> set e"
  using assms set_dict_update_sub [of d e] by auto

lemma resolved_roles_declared:
  assumes "(n, t) \<in> set (uc_teams cfg)"
    and "(role, s) \<in> set (tr_roles (overlay n t (base_overlay cfg chain (global_resolution cfg))))"
  shows "declared_selector cfg role s"
proof -
  from assms(2) consider "(role, s) \<in> set (tr_roles (base_overlay cfg chain (global_resolution cfg)))" | "(role, s) \<in> set (tm_roles t)"
    unfolding overlay_roles by (rule dict_update_cases)
  then show ?thesis
  proof cases
    case 1
    then consider "(role, s) \<in> set (uc_roles cfg)"
      | b where "map_of (uc_teams cfg) (chain ! 1) = Some b" "(role, s) \<in> set (tm_roles b)"
      by (auto simp: base_overlay_def global_resolution_def split: if_splits option.splits elim!: dict_update_cases)
    then show ?thesis by cases (auto simp: declared_selector_def dest: map_of_SomeD)
  next
    case 2
    with assms(1) show ?thesis by (auto simp: declared_selector_def)
  qed
qed

lemma resolved_roles_keys:
  "has (uc_roles cfg) role \<Longrightarrow> has (tr_roles (overlay n t (base_overlay cfg chain (global_resolution cfg)))) role"
  by (auto simp: has_iff base_overlay_def global_resolution_def split: option.splits)

subsection \<open>Selectors that resolve\<close>

lemma selector_errors_Nil:
  assumes "selector_errors cfg label s = []" and "selector_ok s"
  shows "\<exists>p. resolve_selector sha cfg path s = Inr p"
  using assms
  by (auto simp: selector_errors_def resolve_selector_def selector_ok_def has_def Let_def
      split: if_splits option.splits prod.splits)

lemma validate_parts:
  assumes "validate_workflow_config cfg = []"
  shows "validate_team_inheritance cfg = []" "role_errors cfg = []"
    "\<And>nt. nt \<in> set (uc_teams cfg) \<Longrightarrow> team_errors cfg nt = []"
    "validate_team_graph ''backup_team'' tm_backup (uc_teams cfg) = []"
    "validate_team_graph ''upgrade_to'' tm_upgrade (uc_teams cfg) = []"
    "\<And>nw. nw \<in> set (uc_workflows cfg) \<Longrightarrow> workflow_errors cfg nw = []"
  using assms by (simp_all add: validate_workflow_config_def)

lemma declared_selector_resolves:
  assumes v: "validate_workflow_config cfg = []" and ok: "config_ok cfg" and d: "declared_selector cfg role s"
  shows "\<exists>p. resolve_selector sha cfg path s = Inr p"
proof -
  from d consider "(role, s) \<in> set (uc_roles cfg)"
    | n t where "(n, t) \<in> set (uc_teams cfg)" "(role, s) \<in> set (tm_roles t)"
    by (auto simp: declared_selector_def)
  then show ?thesis
  proof cases
    case 1
    with validate_parts(2) [OF v] have "selector_errors cfg (''roles.'' @ role) s = []"
      by (auto simp: role_errors_def)
    moreover from 1 ok have "selector_ok s" by (auto simp: config_ok_def roles_ok_def)
    ultimately show ?thesis by (rule selector_errors_Nil)
  next
    case 2
    with validate_parts(3) [OF v 2(1)] have "selector_errors cfg (''teams.'' @ n @ ''.'' @ role) s = []"
      by (auto simp: team_errors_def Let_def)
    moreover from 2 ok have "selector_ok s" by (fastforce simp: config_ok_def roles_ok_def)
    ultimately show ?thesis by (rule selector_errors_Nil)
  qed
qed

lemma team_selector_resolves:
  assumes v: "validate_workflow_config cfg = []" and r: "has (uc_roles cfg) role"
    and t: "team = None \<or> (\<exists>n. team = Some n \<and> has (uc_teams cfg) n)"
  obtains s where "team_selector cfg path team role = Inr (Some s)" and "declared_selector cfg role s"
proof (cases team)
  case None
  from r obtain s where "map_of (uc_roles cfg) role = Some s" by (auto simp: has_def)
  with None that show thesis by (auto simp: team_selector_def declared_selector_def dest: map_of_SomeD)
next
  case (Some n)
  with t obtain tm where tm: "map_of (uc_teams cfg) n = Some tm" by (auto simp: has_def)
  then obtain chain where
    c: "resolve_team_config cfg (Some n) = Inr (overlay n tm (base_overlay cfg chain (global_resolution cfg)))" (is "_ = Inr ?r")
    by (rule validated_team_resolves [OF validate_parts(1) [OF v]])
  from resolved_roles_keys [OF r] obtain s where s: "map_of (tr_roles ?r) role = Some s" by (auto simp: has_def)
  from resolved_roles_declared [OF map_of_SomeD [OF tm] map_of_SomeD [OF s]] s c Some tm that show thesis
    by (auto simp: team_selector_def has_def)
qed

subsection \<open>The walk over a link graph\<close>

inductive follows :: "link \<Rightarrow> team_config dictionary \<Rightarrow> string \<Rightarrow> string \<Rightarrow> bool" for link teams where
  "map_of teams a = Some t \<Longrightarrow> link t = Some b \<Longrightarrow> has teams b \<Longrightarrow> follows link teams a b"

inductive_simps follows_iff: "follows link teams a b"

text \<open>The chain of links from a team ends.\<close>

inductive link_ends :: "link \<Rightarrow> team_config dictionary \<Rightarrow> string \<Rightarrow> bool" for link teams where
  "(\<And>b. follows link teams a b \<Longrightarrow> link_ends link teams b) \<Longrightarrow> link_ends link teams a"

lemma link_ends_no_cycle: "link_ends link teams a \<Longrightarrow> \<not> (follows link teams)\<^sup>+\<^sup>+ a a"
proof (induction rule: link_ends.induct)
  case (1 a)
  show ?case
  proof
    assume "(follows link teams)\<^sup>+\<^sup>+ a a"
    then obtain b where ab: "follows link teams a b" and ba: "(follows link teams)\<^sup>*\<^sup>* b a"
      by (blast dest: tranclpD)
    from ba ab have "(follows link teams)\<^sup>+\<^sup>+ b b" by (rule rtranclp_into_tranclp1)
    with 1(2) [OF ab] show False by simp
  qed
qed

lemma walk_appends:
  "snd (walk_team_chain attribute link teams visiting chain name st) = [] \<Longrightarrow> snd st = []"
proof (induction attribute link teams visiting chain name st rule: walk_team_chain.induct)
  case (1 attribute link teams visiting chain name visited errors)
  then show ?case
    by (auto simp: walk_team_chain.simps [of attribute link teams visiting chain name] Let_def
        split: if_splits option.splits prod.splits)
qed

lemma walk_ends:
  assumes "snd (walk_team_chain attribute link teams visiting chain name st) = []"
    and "\<forall>v \<in> set (fst st). link_ends link teams v"
  shows "link_ends link teams name \<and>
    (\<forall>v \<in> set (fst (walk_team_chain attribute link teams visiting chain name st)). link_ends link teams v)"
  using assms
proof (induction attribute link teams visiting chain name st rule: walk_team_chain.induct)
  case (1 attribute link teams visiting chain name visited errors)
  note w = walk_team_chain.simps [of attribute link teams visiting chain name visited errors]
  from 1(2) have nv: "name \<notin> set visiting" by (auto simp: w split: if_splits)
  show ?case
  proof (cases "name \<in> set visited")
    case True
    with 1(3) nv show ?thesis by (simp add: w)
  next
    case False
    show ?thesis
    proof (cases "\<exists>b. follows link teams name b")
      case False
      then have "link_ends link teams name" by (blast intro: link_ends.intros)
      moreover have "walk_team_chain attribute link teams visiting chain name (visited, errors) = (name # visited, errors)"
        using False nv \<open>name \<notin> set visited\<close> by (auto simp: w follows_iff split: option.splits)
      ultimately show ?thesis using 1(3) by simp
    next
      case True
      then obtain t b where b: "map_of teams name = Some t" "link t = Some b" "has teams b" by (auto simp: follows_iff)
      let ?r = "walk_team_chain attribute link teams (name # visiting) (chain @ [name]) b (visited, errors)"
      from b nv \<open>name \<notin> set visited\<close>
      have e: "walk_team_chain attribute link teams visiting chain name (visited, errors) = (name # fst ?r, snd ?r)"
        by (subst w) (simp add: Let_def split_beta)
      from 1(1) [OF nv \<open>name \<notin> set visited\<close> b] 1(2,3) e
      have ih: "link_ends link teams b \<and> (\<forall>v \<in> set (fst ?r). link_ends link teams v)" by simp
      have "link_ends link teams name"
      proof (rule link_ends.intros)
        fix c assume "follows link teams name c"
        with b have "c = b" by (simp add: follows_iff)
        with ih show "link_ends link teams c" by simp
      qed
      with ih e show ?thesis by simp
    qed
  qed
qed

lemma walk_reports_cycles:
  assumes "snd (walk_team_chain attribute link teams visiting chain name st) \<noteq> []" and "snd st = []"
    and "\<And>v. v \<in> set visiting \<Longrightarrow> (follows link teams)\<^sup>+\<^sup>+ v name"
  shows "\<exists>n. (follows link teams)\<^sup>+\<^sup>+ n n"
  using assms
proof (induction attribute link teams visiting chain name st rule: walk_team_chain.induct)
  case (1 attribute link teams visiting chain name visited errors)
  note w = walk_team_chain.simps [of attribute link teams visiting chain name visited errors]
  show ?case
  proof (cases "name \<in> set visiting")
    case True
    with 1(4) show ?thesis by blast
  next
    case False
    with 1(2,3) obtain t b where nv: "name \<notin> set visited" and b: "map_of teams name = Some t" "link t = Some b" "has teams b"
      and r: "snd (walk_team_chain attribute link teams (name # visiting) (chain @ [name]) b (visited, errors)) \<noteq> []"
      by (auto simp: w split: if_splits option.splits prod.splits)
    from b have f: "follows link teams name b" by (simp add: follows_iff)
    show ?thesis
    proof (rule 1(1) [OF False nv b r 1(3)])
      show "(follows link teams)\<^sup>+\<^sup>+ v b" if "v \<in> set (name # visiting)" for v
        using that f 1(4) by (auto intro: tranclp.trancl_into_trancl)
    qed
  qed
qed

lemma walk_all_appends: "snd (walk_all attribute link teams names st) = [] \<Longrightarrow> snd st = []"
proof (induction names arbitrary: st)
  case (Cons n names)
  from Cons.prems have "snd (walk_all attribute link teams names (walk_team_chain attribute link teams [] [] n st)) = []"
    by simp
  from Cons.IH [OF this] show ?case by (rule walk_appends)
qed simp

lemma walk_all_ends:
  "snd (walk_all attribute link teams names st) = [] \<Longrightarrow> \<forall>v \<in> set (fst st). link_ends link teams v \<Longrightarrow>
     \<forall>n \<in> set names. link_ends link teams n"
proof (induction names arbitrary: st)
  case (Cons n names)
  let ?s = "walk_team_chain attribute link teams [] [] n st"
  from Cons.prems have r: "snd (walk_all attribute link teams names ?s) = []" by simp
  from walk_all_appends [OF this] walk_ends Cons.prems(2)
  have "link_ends link teams n \<and> (\<forall>v \<in> set (fst ?s). link_ends link teams v)" by blast
  with Cons.IH [OF r] show ?case by simp
qed simp

lemma walk_all_reports:
  "snd (walk_all attribute link teams names st) \<noteq> [] \<Longrightarrow> snd st = [] \<Longrightarrow> \<exists>n. (follows link teams)\<^sup>+\<^sup>+ n n"
proof (induction names arbitrary: st)
  case (Cons n names)
  show ?case
  proof (cases "snd (walk_team_chain attribute link teams [] [] n st) = []")
    case True
    with Cons show ?thesis by simp
  next
    case False
    from walk_reports_cycles [OF False Cons.prems(2)] show ?thesis by simp
  qed
qed simp

lemma walk_all_Nil_iff:
  "snd (walk_all attribute link teams (map fst teams) ([], [])) = [] \<longleftrightarrow> \<not> (\<exists>n. (follows link teams)\<^sup>+\<^sup>+ n n)"
proof
  assume a: "snd (walk_all attribute link teams (map fst teams) ([], [])) = []"
  show "\<not> (\<exists>n. (follows link teams)\<^sup>+\<^sup>+ n n)"
  proof
    assume "\<exists>n. (follows link teams)\<^sup>+\<^sup>+ n n"
    then obtain n where n: "(follows link teams)\<^sup>+\<^sup>+ n n" by blast
    then obtain b where "follows link teams n b" by (blast dest: tranclpD)
    then have "n \<in> set (map fst teams)" by (force simp: follows_iff dest: map_of_SomeD)
    with walk_all_ends [OF a] have "link_ends link teams n" by (auto simp del: set_map)
    with n show False by (blast dest: link_ends_no_cycle)
  qed
next
  assume "\<not> (\<exists>n. (follows link teams)\<^sup>+\<^sup>+ n n)"
  with walk_all_reports show "snd (walk_all attribute link teams (map fst teams) ([], [])) = []" by fastforce
qed

subsection \<open>Materialization without cache and order\<close>

definition workflow_spec ::
  "workflow_config dictionary \<Rightarrow> lifecycle_defaults \<Rightarrow> string \<Rightarrow> string \<Rightarrow> workflow_config config_result" where
  "workflow_spec raws ld path name =
     (case map_of raws name of
        None \<Rightarrow> Inl (''workflow alias references unknown workflow '' @ quoted name)
      | Some raw \<Rightarrow>
        (case wf_extends raw of
           None \<Rightarrow> concrete_workflow ld (dotted path name) raw
         | Some b \<Rightarrow>
           (case map_of raws b of
              None \<Rightarrow> Inl (''workflow '' @ quoted name @ '' extends unknown workflow '' @ quoted b)
            | Some base_raw \<Rightarrow>
                if wf_extends base_raw \<noteq> None
                then Inl (''workflow '' @ quoted name @ '' cannot extend alias workflow '' @ quoted b)
                else rbind (concrete_workflow ld (dotted path b) base_raw) (\<lambda>base.
                       alias_workflow (dotted path name) b base raw))))"

definition cache_ok ::
  "workflow_config dictionary \<Rightarrow> lifecycle_defaults \<Rightarrow> string \<Rightarrow> workflow_config dictionary \<Rightarrow> bool" where
  "cache_ok raws ld path resolved \<longleftrightarrow> (\<forall>n w. map_of resolved n = Some w \<longrightarrow> workflow_spec raws ld path n = Inr w)"

definition agrees ::
  "workflow_config dictionary \<Rightarrow> lifecycle_defaults \<Rightarrow> string \<Rightarrow> string \<Rightarrow> workflow_config dictionary \<Rightarrow>
     (workflow_config \<times> workflow_config dictionary) config_result \<Rightarrow> bool" where
  "agrees raws ld path name resolved res \<longleftrightarrow>
     (case res of
        Inl e \<Rightarrow> workflow_spec raws ld path name = Inl e
      | Inr (w, resolved') \<Rightarrow> workflow_spec raws ld path name = Inr w \<and> cache_ok raws ld path resolved' \<and>
          map_of resolved' name = Some w \<and> dom (map_of resolved) \<subseteq> dom (map_of resolved'))"

lemma cache_ok_update:
  "cache_ok raws ld path resolved \<Longrightarrow> workflow_spec raws ld path name = Inr w \<Longrightarrow>
     cache_ok raws ld path (AList.update name w resolved)"
  by (simp add: cache_ok_def)

lemma agrees_cached:
  "cache_ok raws ld path resolved \<Longrightarrow> map_of resolved name = Some w \<Longrightarrow> agrees raws ld path name resolved (Inr (w, resolved))"
  by (simp add: agrees_def cache_ok_def)

lemma agrees_new:
  "cache_ok raws ld path resolved' \<Longrightarrow> dom (map_of resolved) \<subseteq> dom (map_of resolved') \<Longrightarrow>
     workflow_spec raws ld path name = r \<Longrightarrow>
     agrees raws ld path name resolved (rbind r (\<lambda>w. Inr (w, AList.update name w resolved')))"
  by (cases r) (auto simp: agrees_def cache_ok_update)

lemma resolve_base_agrees:
  assumes "cache_ok raws ld path resolved" and "\<not> is_alias raws name" and "name \<notin> set resolving"
  shows "agrees raws ld path name resolved (resolve raws ld path resolving name resolved)"
proof (cases "map_of resolved name")
  case (Some w)
  with assms(1) show ?thesis by (simp add: resolve.simps agrees_cached)
next
  case None
  show ?thesis
  proof (cases "map_of raws name")
    case None
    with \<open>map_of resolved name = None\<close> assms(3) show ?thesis by (simp add: resolve.simps agrees_def workflow_spec_def)
  next
    case (Some raw)
    with assms(2) have "wf_extends raw = None" by (simp add: is_alias_def)
    with Some have s: "workflow_spec raws ld path name = concrete_workflow ld (dotted path name) raw"
      by (simp add: workflow_spec_def)
    have "resolve raws ld path resolving name resolved =
        rbind (concrete_workflow ld (dotted path name) raw) (\<lambda>w. Inr (w, AList.update name w resolved))"
      using Some assms(3) \<open>map_of resolved name = None\<close> \<open>wf_extends raw = None\<close> by (simp add: resolve.simps)
    with agrees_new [OF assms(1) subset_refl s] show ?thesis by simp
  qed
qed

lemma resolve_agrees:
  assumes "cache_ok raws ld path resolved"
  shows "agrees raws ld path name resolved (resolve raws ld path [] name resolved)"
proof (cases "is_alias raws name \<and> map_of resolved name = None")
  case False
  then show ?thesis
  proof (cases "map_of resolved name")
    case None
    with False assms show ?thesis by (simp add: resolve_base_agrees)
  next
    case (Some w)
    with assms show ?thesis by (simp add: resolve.simps agrees_cached)
  qed
next
  case True
  then obtain raw b where raw: "map_of raws name = Some raw" and b: "wf_extends raw = Some b"
    by (auto simp: is_alias_def split: option.splits)
  show ?thesis
  proof (cases "map_of raws b = None \<or> is_alias raws b")
    case bad: True
    with True raw b show ?thesis
      by (auto simp: resolve.simps [of raws ld path "[]" name] agrees_def workflow_spec_def is_alias_def split: option.splits)
  next
    case ok: False
    then have nab: "\<not> is_alias raws b" by simp
    from ok obtain base_raw where br: "map_of raws b = Some base_raw" "wf_extends base_raw = None"
      by (auto simp: is_alias_def)
    with True have nb: "b \<notin> set [name]" by (auto simp: is_alias_def)
    let ?base = "resolve raws ld path [name] b resolved"
    have e: "resolve raws ld path [] name resolved =
        rbind ?base (\<lambda>(base, resolved'). rbind (alias_workflow (dotted path name) b base raw) (\<lambda>wf.
          Inr (wf, AList.update name wf resolved')))"
      using True raw b br nab by (simp add: resolve.simps [of raws ld path "[]" name])
    note base = resolve_base_agrees [OF assms nab nb]
    have sb: "workflow_spec raws ld path b = concrete_workflow ld (dotted path b) base_raw"
      using br by (simp add: workflow_spec_def)
    have sn: "workflow_spec raws ld path name =
        rbind (workflow_spec raws ld path b) (\<lambda>base. alias_workflow (dotted path name) b base raw)"
      using raw b br sb by (simp add: workflow_spec_def)
    show ?thesis
    proof (cases ?base)
      case (Inl m)
      with base e sn show ?thesis by (simp add: agrees_def)
    next
      case (Inr p)
      obtain w r1 where p: "p = (w, r1)" by (cases p)
      with Inr base have w: "workflow_spec raws ld path b = Inr w" and c: "cache_ok raws ld path r1"
        and d: "dom (map_of resolved) \<subseteq> dom (map_of r1)" by (simp_all add: agrees_def)
      from w sn have "workflow_spec raws ld path name = alias_workflow (dotted path name) b w raw" by simp
      from agrees_new [OF c d this] e Inr p show ?thesis by simp
    qed
  qed
qed

lemma resolve_all_agrees:
  assumes "cache_ok raws ld path resolved"
  shows "case resolve_all raws ld path names resolved of
      Inl e \<Rightarrow> traverse (workflow_spec raws ld path) names = Inl e
    | Inr ws \<Rightarrow> traverse (workflow_spec raws ld path) names = Inr (map (\<lambda>n. the (map_of ws n)) names) \<and>
        cache_ok raws ld path ws \<and> dom (map_of resolved) \<union> set names \<subseteq> dom (map_of ws)"
  using assms
proof (induction names arbitrary: resolved)
  case (Cons name names)
  note a = resolve_agrees [OF Cons.prems, of name]
  show ?case
  proof (cases "resolve raws ld path [] name resolved")
    case (Inl e)
    with a show ?thesis by (simp add: agrees_def)
  next
    case (Inr p)
    obtain w r1 where p: "p = (w, r1)" by (cases p)
    with Inr a have w: "workflow_spec raws ld path name = Inr w" and c: "cache_ok raws ld path r1"
      and n: "map_of r1 name = Some w" and d: "dom (map_of resolved) \<subseteq> dom (map_of r1)" by (simp_all add: agrees_def)
    from Inr p have e: "resolve_all raws ld path (name # names) resolved = resolve_all raws ld path names r1" by simp
    show ?thesis
    proof (cases "resolve_all raws ld path names r1")
      case (Inl m)
      with Cons.IH [OF c] e w show ?thesis by simp
    next
      case (Inr ws)
      with Cons.IH [OF c] have ih: "traverse (workflow_spec raws ld path) names = Inr (map (\<lambda>n. the (map_of ws n)) names)"
        "cache_ok raws ld path ws" "dom (map_of r1) \<union> set names \<subseteq> dom (map_of ws)" by simp_all
      from n ih(3) obtain w' where w': "map_of ws name = Some w'" by blast
      with ih(2) w have "w' = w" by (simp add: cache_ok_def)
      have "dom (map_of resolved) \<union> set (name # names) \<subseteq> dom (map_of ws)" using d ih(3) w' by auto
      with e Inr w w' \<open>w' = w\<close> ih(1,2) show ?thesis by simp
    qed
  qed
qed (simp add: cache_ok_def)

lemma materialize_spec:
  "map_sum (\<lambda>e. e) (\<lambda>ws. map (map_of ws) (map fst raws)) (materialize_workflows path ld raws) =
   map_sum (\<lambda>e. e) (map Some) (traverse (workflow_spec raws ld path) (map fst raws))"
proof -
  have "cache_ok raws ld path []" by (simp add: cache_ok_def)
  from resolve_all_agrees [OF this, of "map fst raws"] show ?thesis
    by (cases "materialize_workflows path ld raws") (auto simp: materialize_workflows_def)
qed

subsection \<open>The text of a resource\<close>

text \<open>Reading one character back.\<close>

definition hex_value :: "char \<Rightarrow> nat" where
  "hex_value h = (if code h < 58 then code h - 48 else code h - 87)"

definition read_escape :: "char \<Rightarrow> string \<Rightarrow> char \<times> string" where
  "read_escape b s =
     (if b = CHR ''n'' then (LF, s) else if b = CHR ''r'' then (CR, s) else if b = CHR ''t'' then (CHR 0x09, s)
      else if b = CHR ''f'' then (CHR 0x0C, s) else if b = CHR ''b'' then (CHR 0x08, s)
      else if b = CHR ''u'' then (char_of (16 * hex_value (s ! 2) + hex_value (s ! 3)), drop 4 s)
      else (b, s))"

definition read_char :: "string \<Rightarrow> char \<times> string" where
  "read_char s = (if hd s = CHR 0x5C then read_escape (s ! 1) (drop 2 s) else (hd s, tl s))"

lemma code_of_char: "n < 256 \<Longrightarrow> code (char_of n) = n"
  by (simp add: code_def)

lemma code_eqI: "code c = code d \<Longrightarrow> c = d"
  by (simp add: code_def)

lemma code_points:
  "code (CHR 0x22) = 34" "code (CHR 0x5C) = 92" "code LF = 10" "code CR = 13" "code (CHR 0x09) = 9"
  "code (CHR 0x0C) = 12" "code (CHR 0x08) = 8"
  by (simp_all add: code_def)

lemma code_is:
  "code c = 34 \<longleftrightarrow> c = CHR 0x22" "code c = 92 \<longleftrightarrow> c = CHR 0x5C" "code c = 10 \<longleftrightarrow> c = LF" "code c = 13 \<longleftrightarrow> c = CR"
  "code c = 9 \<longleftrightarrow> c = CHR 0x09" "code c = 12 \<longleftrightarrow> c = CHR 0x0C" "code c = 8 \<longleftrightarrow> c = CHR 0x08"
  by (auto simp: code_points intro: code_eqI)

lemma hex_value_digit: "d < 16 \<Longrightarrow> hex_value (hex_digit d) = d"
  by (auto simp: hex_value_def hex_digit_def code_of_char)

lemma hex_digit_not_u: "read_escape (CHR ''u'') (CHR ''0'' # CHR ''0'' # h # l # s) = (char_of (16 * hex_value h + hex_value l), s)"
  by (simp add: read_escape_def)

lemma read_json_char: "read_char (json_char c @ s) = (c, s)"
proof -
  consider "code c = 34" | "code c = 92" | "code c = 10" | "code c = 13" | "code c = 9" | "code c = 12" | "code c = 8"
    | "code c < 32" "code c \<notin> {34, 92, 10, 13, 9, 12, 8}" | "32 \<le> code c" "code c \<notin> {34, 92, 10, 13, 9, 12, 8}"
    by force
  then show ?thesis
  proof cases
    case 8
    then have "json_char c = [CHR 0x5C, CHR ''u'', CHR ''0'', CHR ''0'', hex_digit (code c div 16), hex_digit (code c mod 16)]"
      by (simp add: json_char_def Let_def)
    moreover have "char_of (16 * (code c div 16) + code c mod 16) = c" by (simp add: code_def)
    moreover from 8 have "code c div 16 < 16" by simp
    ultimately show ?thesis by (simp add: read_char_def hex_digit_not_u hex_value_digit)
  next
    case 9
    then have "json_char c = [c]" by (simp add: json_char_def Let_def)
    moreover from 9 have "c \<noteq> CHR 0x5C" by (auto simp: code_def)
    ultimately show ?thesis by (simp add: read_char_def)
  qed (simp_all add: code_is, simp_all add: json_char_def Let_def code_points read_char_def read_escape_def)
qed

lemma json_char_prefix: "json_char c @ x = json_char d @ y \<Longrightarrow> c = d \<and> x = y"
  by (drule arg_cong [where f = read_char]) (simp add: read_json_char)

lemma json_char_start: "json_char c \<noteq> [] \<and> hd (json_char c) \<noteq> CHR 0x22"
  by (auto simp: json_char_def Let_def code_def)

lemma json_body_prefix:
  "concat (map json_char s) @ CHR 0x22 # x = concat (map json_char t) @ CHR 0x22 # y \<Longrightarrow> s = t \<and> x = y"
proof (induction s arbitrary: t)
  case Nil
  show ?case
  proof (cases t)
    case Nil
    with Nil.prems show ?thesis by simp
  next
    case (Cons d t')
    with Nil have "hd (json_char d @ concat (map json_char t') @ CHR 0x22 # y) = CHR 0x22" by (metis append.assoc append_Nil concat.simps(1,2) list.map(1,2) list.sel(1))
    with json_char_start [of d] show ?thesis by (simp add: hd_append)
  qed
next
  case (Cons c s)
  show ?case
  proof (cases t)
    case Nil
    with Cons.prems have "hd (json_char c @ concat (map json_char s) @ CHR 0x22 # x) = CHR 0x22" by (metis append.assoc append_Nil concat.simps(1,2) list.map(1,2) list.sel(1))
    with json_char_start [of c] show ?thesis by (simp add: hd_append)
  next
    case (Cons d t')
    with Cons.prems have "json_char c @ (concat (map json_char s) @ CHR 0x22 # x) = json_char d @ (concat (map json_char t') @ CHR 0x22 # y)"
      by simp
    from json_char_prefix [OF this] Cons.IH Cons show ?thesis by simp
  qed
qed

lemma json_text_prefix: "json_text s @ x = json_text t @ y \<Longrightarrow> s = t \<and> x = y"
  using json_body_prefix [of s x t y] by (simp add: json_text_def)

lemma json_optional_prefix: "json_optional v @ x = json_optional w @ y \<Longrightarrow> v = w \<and> x = y"
  by (auto simp: json_optional_def json_text_def split: option.splits dest: json_body_prefix)

lemma resource_payload_inj:
  assumes "resource_payload h m e = resource_payload h' m' e'"
  shows "h = h' \<and> m = m' \<and> e = e'"
proof -
  from assms have "json_text h @ '','' @ json_optional m @ '','' @ json_optional e @ '']'' =
      json_text h' @ '','' @ json_optional m' @ '','' @ json_optional e' @ '']''"
    by (simp add: resource_payload_def)
  from json_text_prefix [OF this] have "h = h'"
    and "json_optional m @ '','' @ json_optional e @ '']'' = json_optional m' @ '','' @ json_optional e' @ '']''" by simp_all
  with json_optional_prefix [OF this(2)] have "h = h'" "m = m'" and "json_optional e @ '']'' = json_optional e' @ '']''" by simp_all
  with json_optional_prefix [OF this(3)] show ?thesis by simp
qed

end
