(* ===== verification/Config_Properties.thy ===== *)
theory Config_Properties
  imports Config_Laws Condition_Properties
begin

text \<open>
  The promises of a loaded configuration: its workflows are closed graphs over their executable
  steps, every step runs under every configured team, team links have no cycles, inheritance and
  materialization follow their reference definitions, and a resource is identified by exactly its
  harness, model and effort.
\<close>

subsection \<open>A sample pair\<close>

definition sample_team :: "string \<Rightarrow> toml" where
  "sample_team backup = TTable [(''backup_team'', TStr backup), (''roles'', TTable [(''worker'', TStr ''codex.fast'')])]"

definition sample_aflow :: tbl where
  "sample_aflow =
     [(''harness'', TTable [(''codex'', TTable [(''profiles'', TTable
         [(''fast'', TTable [(''model'', TStr ''m1''), (''exclusive'', TBool True)])])])]),
      (''roles'', TTable [(''worker'', TStr ''codex.fast'')]),
      (''teams'', TTable [(''alpha'', sample_team ''beta''), (''beta'', TTable [(''extends'', TStr ''alpha'')])]),
      (''prompts'', TTable [(''work'', TStr ''Do it.'')])]"

definition sample_step :: toml where
  "sample_step = TTable [(''role'', TStr ''worker''), (''prompts'', TArr [TStr ''work'']),
     (''go'', TArr [TTable [(''to'', TStr ''END''), (''when'', TStr ''DONE || MAX_TURNS_REACHED'')],
                     TTable [(''to'', TStr ''implement'')]])]"

definition sample_workflows :: "string \<Rightarrow> tbl" where
  "sample_workflows team =
     [(''workflow'', TTable
        [(''quick'', TTable [(''extends'', TStr ''main''), (''team'', TStr team)]),
         (''main'', TTable [(''steps'', TTable [(''implement'', sample_step)])])])]"

definition sample_loads :: "string \<Rightarrow> string \<Rightarrow> string + tbl" where
  "sample_loads team t =
     (if t = ''aflow'' then Inr sample_aflow else if t = ''workflows'' then Inr (sample_workflows team)
      else Inl ''no document'')"

definition sample_config :: "string \<Rightarrow> user_config config_result" where
  "sample_config team = parse_workflow_pair (sample_loads team) ''/work'' ''/work'' ''aflow'' (Some ''workflows'')"

definition config_of :: "user_config config_result \<Rightarrow> user_config" where
  "config_of r = (case r of Inr cfg \<Rightarrow> cfg
     | Inl _ \<Rightarrow> \<lparr>uc_aflow = default_aflow, uc_harnesses = [], uc_roles = [], uc_role_prompts = [], uc_teams = [],
         uc_manager = default_manager, uc_recovery = default_recovery, uc_workflows = [], uc_prompts = []\<rparr>)"

definition is_right :: "'e + 'a \<Rightarrow> bool" where
  "is_right r = (case r of Inl _ \<Rightarrow> False | Inr _ \<Rightarrow> True)"

lemma is_right_config: "is_right r \<Longrightarrow> r = Inr (config_of r)"
  by (simp add: is_right_def config_of_def split: sum.splits)

lemma sample_config_loads: "sample_config ''alpha'' = Inr (config_of (sample_config ''alpha''))"
  by (rule is_right_config) code_simp

subsection \<open>Workflows\<close>

definition workflow_sound :: "user_config \<Rightarrow> workflow_config \<Rightarrow> bool" where
  "workflow_sound cfg w =
     (materialized w \<and>
      (texts_or_empty (wf_setup w), texts_or_empty (wf_teardown w)) \<in> set VALID_LIFECYCLE_COMBOS \<and>
      (\<forall>(k, s) \<in> set (wf_steps w). has (uc_roles cfg) (ws_role s) \<and> (\<forall>p \<in> set (ws_prompts s). has (uc_prompts cfg) p)))"

lemma no_reports:
  "concat (map (\<lambda>(i, key). if P key then [] else [f i key]) (enumerate n keys)) = [] \<Longrightarrow> p \<in> set keys \<Longrightarrow> P p"
  by (induction keys arbitrary: n) (auto split: if_splits)

lemma prompt_errors_Nil: "prompt_errors cfg label keys = [] \<Longrightarrow> p \<in> set keys \<Longrightarrow> has (uc_prompts cfg) p"
  unfolding prompt_errors_def by (rule no_reports)

lemma workflow_errors_Nil:
  assumes e: "workflow_errors cfg (n, w) = []" and m: "materialized w"
  shows "workflow_sound cfg w"
proof -
  from e have s: "step_errors cfg n (wf_steps w) = []" and p: "step_prompt_errors cfg n (wf_steps w) = []"
    and l: "lifecycle_errors n w = []"
    by (simp_all add: workflow_errors_def Let_def)
  from s have "has (uc_roles cfg) (ws_role st)" if "(k, st) \<in> set (wf_steps w)" for k st
    using that by (auto simp: step_errors_def unknown_role_def split: if_splits)
  moreover from p have "has (uc_prompts cfg) q" if "(k, st) \<in> set (wf_steps w)" "q \<in> set (ws_prompts st)" for k st q
    using that by (auto simp: step_prompt_errors_def dest: prompt_errors_Nil)
  ultimately show ?thesis using m l
    by (auto simp: workflow_sound_def lifecycle_errors_def Let_def split: if_splits)
qed

lemma loaded_workflow_sound:
  assumes "parse_workflow_pair loads cwd source_dir aflow_text workflows_text = Inr cfg"
    and "(name, w) \<in> set (uc_workflows cfg)"
  shows "workflow_sound cfg w"
proof -
  from assms(1) obtain merged where ok: "config_ok merged" and v: "validate_workflow_config merged = []"
    and g: "same_graph cfg merged" by (rule parse_workflow_pair_ok)
  with assms(2) have i: "(name, w) \<in> set (uc_workflows merged)" by (simp add: same_graph_def)
  with ok have "materialized w" by (auto simp: config_ok_def)
  from workflow_errors_Nil [OF validate_parts(6) [OF v i] this] g show ?thesis
    by (simp add: workflow_sound_def same_graph_def)
qed

text \<open>
  C22. Every workflow of a configuration that loads is well formed: its executable steps are the declared ones
  that are not excluded, there is one, the first is the first of them, every guard is lexically valid, every
  transition leads to the end or to an executable step, every step has a known role, known prompts and a
  transition, every inherited setting is resolved and setup and teardown are one of the supported pairs.
\<close>

theorem loaded_workflows_are_sound:
  assumes "parse_workflow_pair loads cwd source_dir aflow_text workflows_text = Inr cfg"
    and "(name, w) \<in> set (uc_workflows cfg)"
  shows "workflow_sound cfg w"
  using assms by (rule loaded_workflow_sound)

theorem loaded_workflows_are_sound_witness:
  "workflow_sound (config_of (sample_config ''alpha''))
     (snd (uc_workflows (config_of (sample_config ''alpha'')) ! 0))"
proof (rule loaded_workflows_are_sound)
  show "parse_workflow_pair (sample_loads ''alpha'') ''/work'' ''/work'' ''aflow'' (Some ''workflows'') =
      Inr (config_of (sample_config ''alpha''))"
    using sample_config_loads by (simp add: sample_config_def)
  have "length (uc_workflows (config_of (sample_config ''alpha''))) = 2" by code_simp
  then show "(fst (uc_workflows (config_of (sample_config ''alpha'')) ! 0), snd (uc_workflows (config_of (sample_config ''alpha'')) ! 0))
      \<in> set (uc_workflows (config_of (sample_config ''alpha'')))" by simp
qed

subsection \<open>Runs over the graph\<close>

text \<open>One turn: a transition of the current step is chosen and does not end the run.\<close>

inductive moves :: "workflow_config \<Rightarrow> string \<Rightarrow> string \<Rightarrow> bool" for w where
  "map_of (wf_steps w) a = Some s \<Longrightarrow> pick_transition v path (ws_go s) = Inr b \<Longrightarrow> b \<noteq> END_STEP \<Longrightarrow> moves w a b"

inductive_cases movesE: "moves w a b"

lemma select_transition_member: "select_transition v path ts = Inr t \<Longrightarrow> t \<in> set ts"
  by (induction v path ts rule: select_transition.induct)
     (auto simp: rbind_Inr_iff split: option.splits if_splits)

lemma pick_transition_member: "pick_transition v path ts = Inr b \<Longrightarrow> \<exists>t \<in> set ts. go_to t = b"
  by (auto simp: pick_transition_def map_sum_def split: sum.splits dest: select_transition_member)

lemma moves_executable: "materialized w \<Longrightarrow> moves w a b \<Longrightarrow> has (wf_steps w) b"
  by (fastforce simp: materialized_def closed_steps_def dangling_def
      elim!: movesE dest!: pick_transition_member dest: map_of_SomeD)

text \<open>
  A run of a loaded workflow, started at its first step, is always at an executable step, whatever its guards
  evaluate to: excluded steps are never entered.
\<close>

theorem runs_stay_on_executable_steps:
  assumes "parse_workflow_pair loads cwd source_dir aflow_text workflows_text = Inr cfg"
    and "(name, w) \<in> set (uc_workflows cfg)"
    and "wf_first_step w = Some first" and "(moves w)\<^sup>*\<^sup>* first step"
  shows "has (wf_steps w) step \<and> step \<notin> set (wf_excluded w)"
proof -
  from loaded_workflow_sound [OF assms(1,2)] have m: "materialized w" by (simp add: workflow_sound_def)
  then have "has (wf_steps w) first"
    using assms(3) by (auto simp: materialized_def has_iff)
  with assms(4) have "has (wf_steps w) step"
    by (induction rule: rtranclp_induct) (auto intro: moves_executable [OF m])
  with m show ?thesis by (auto simp: materialized_def executable_only_def has_iff)
qed

theorem runs_stay_on_executable_steps_witness:
  "let w = snd (uc_workflows (config_of (sample_config ''alpha'')) ! 0)
   in has (wf_steps w) ''implement'' \<and> ''implement'' \<notin> set (wf_excluded w)"
proof -
  let ?cfg = "config_of (sample_config ''alpha'')"
  let ?w = "snd (uc_workflows ?cfg ! 0)"
  have "length (uc_workflows ?cfg) = 2" by code_simp
  then have i: "(fst (uc_workflows ?cfg ! 0), ?w) \<in> set (uc_workflows ?cfg)" by simp
  have f: "wf_first_step ?w = Some ''implement''" by code_simp
  show ?thesis
    unfolding Let_def
    by (rule runs_stay_on_executable_steps [OF sample_config_loads [unfolded sample_config_def] i [unfolded sample_config_def] f [unfolded sample_config_def], folded sample_config_def])
       simp
qed

subsection \<open>Steps and teams\<close>

lemma same_graph_resolutions:
  assumes g: "same_graph cfg merged"
  shows "resolve_team_config cfg = resolve_team_config merged" "team_selector cfg = team_selector merged"
    "resolve_selector sha cfg = resolve_selector sha merged"
proof -
  from g have e: "uc_roles cfg = uc_roles merged" "uc_role_prompts cfg = uc_role_prompts merged"
    "uc_teams cfg = uc_teams merged" "uc_harnesses cfg = uc_harnesses merged" by (simp_all add: same_graph_def)
  show r: "resolve_team_config cfg = resolve_team_config merged"
    by (intro ext) (unfold resolve_team_config_def team_inheritance_chain_def base_overlay_def global_resolution_def e, rule refl)
  show "team_selector cfg = team_selector merged"
    by (intro ext) (unfold team_selector_def r e, rule refl)
  show "resolve_selector sha cfg = resolve_selector sha merged"
    by (intro ext) (unfold resolve_selector_def e, rule refl)
qed

lemma loaded_step_resolves:
  assumes "parse_workflow_pair loads cwd source_dir aflow_text workflows_text = Inr cfg"
    and "(name, w) \<in> set (uc_workflows cfg)" and "(k, s) \<in> set (wf_steps w)"
    and "team = None \<or> (\<exists>n. team = Some n \<and> has (uc_teams cfg) n)"
  shows "\<exists>selector p. resolve_step_runtime sha cfg path step_name None None team s = Inr (selector, p)"
proof -
  from loaded_workflow_sound [OF assms(1,2)] assms(3) have r: "has (uc_roles cfg) (ws_role s)"
    by (auto simp: workflow_sound_def)
  from assms(1) obtain merged where ok: "config_ok merged" and v: "validate_workflow_config merged = []"
    and g: "same_graph cfg merged" by (rule parse_workflow_pair_ok)
  from same_graph_resolutions [OF g]
  have eq: "team_selector cfg path team (ws_role s) = team_selector merged path team (ws_role s)"
    and eq2: "resolve_selector sha cfg path sel = resolve_selector sha merged path sel" for sel by simp_all
  from g r assms(4) obtain sel where "team_selector merged path team (ws_role s) = Inr (Some sel)"
    and d: "declared_selector merged (ws_role s) sel"
    by (auto simp: same_graph_def intro: team_selector_resolves [OF v])
  moreover from declared_selector_resolves [OF v ok d] obtain p where "resolve_selector sha merged path sel = Inr p" by blast
  ultimately show ?thesis
    by (simp add: resolve_step_runtime_def resolve_role_selector_def override_applies_def eq eq2)
qed

text \<open>
  C23. Every step of a loaded configuration resolves to a harness profile under every configured team and without
  a team: none of the errors of the resolution can occur while no override is pending.
\<close>

theorem loaded_steps_run_under_every_team:
  assumes "parse_workflow_pair loads cwd source_dir aflow_text workflows_text = Inr cfg"
    and "(name, w) \<in> set (uc_workflows cfg)" and "(k, s) \<in> set (wf_steps w)"
    and "team = None \<or> (\<exists>n. team = Some n \<and> has (uc_teams cfg) n)"
  shows "\<exists>selector p. resolve_step_runtime sha cfg path step_name None None team s = Inr (selector, p)"
  using assms by (rule loaded_step_resolves)

definition sample_state :: "string \<Rightarrow> user_config" where
  "sample_state team = config_of (sample_config team)"

lemma sample_state_loads:
  "parse_workflow_pair (sample_loads ''alpha'') ''/work'' ''/work'' ''aflow'' (Some ''workflows'') = Inr (sample_state ''alpha'')"
  using sample_config_loads by (simp add: sample_config_def sample_state_def)

definition sample_workflow :: workflow_config where
  "sample_workflow = snd (uc_workflows (sample_state ''alpha'') ! 0)"

lemma sample_workflow_in:
  "(fst (uc_workflows (sample_state ''alpha'') ! 0), sample_workflow) \<in> set (uc_workflows (sample_state ''alpha''))"
proof -
  have "length (uc_workflows (sample_state ''alpha'')) = 2" by code_simp
  then show ?thesis by (simp add: sample_workflow_def)
qed

theorem loaded_steps_run_under_every_team_witness:
  "\<exists>selector p. resolve_step_runtime (\<lambda>x. x) (sample_state ''alpha'') ''main.implement'' None None None
     (Some ''beta'') (snd (wf_steps sample_workflow ! 0)) = Inr (selector, p)"
proof (rule loaded_steps_run_under_every_team [OF sample_state_loads sample_workflow_in])
  have "length (wf_steps sample_workflow) = 1" by code_simp
  then show "(fst (wf_steps sample_workflow ! 0), snd (wf_steps sample_workflow ! 0)) \<in> set (wf_steps sample_workflow)" by simp
  have "has (uc_teams (sample_state ''alpha'')) ''beta''" by code_simp
  then show "Some ''beta'' = None \<or> (\<exists>n. Some ''beta'' = Some n \<and> has (uc_teams (sample_state ''alpha'')) n)" by simp
qed

text \<open>
  The validation does not look at the team a workflow names: a configuration loads whose workflow selects a
  team that does not exist, and its first step then fails with an unknown team.
\<close>

theorem unknown_workflow_team_is_accepted:
  "\<exists>loads cfg w s. parse_workflow_pair loads ''/work'' ''/work'' ''aflow'' (Some ''workflows'') = Inr cfg \<and>
     map_of (uc_workflows cfg) ''quick'' = Some w \<and> wf_team w = Some ''ghost'' \<and> map_of (wf_steps w) ''implement'' = Some s \<and>
     resolve_step_runtime (\<lambda>x. x) cfg ''quick.implement'' None None None (wf_team w) s =
       Inl (''workflow step references unknown team '' @ quoted ''ghost'' @ '' in quick.implement'')"
proof -
  let ?cfg = "config_of (sample_config ''ghost'')"
  have 1: "sample_config ''ghost'' = Inr ?cfg" by (rule is_right_config) code_simp
  have 2: "map_of (uc_workflows ?cfg) ''quick'' = Some (the (map_of (uc_workflows ?cfg) ''quick''))" by code_simp
  have 3: "wf_team (the (map_of (uc_workflows ?cfg) ''quick'')) = Some ''ghost''" by code_simp
  have 4: "map_of (wf_steps (the (map_of (uc_workflows ?cfg) ''quick''))) ''implement'' =
      Some (the (map_of (wf_steps (the (map_of (uc_workflows ?cfg) ''quick''))) ''implement''))" by code_simp
  have 5: "has (uc_teams ?cfg) ''ghost'' = False" by code_simp
  have "resolve_step_runtime (\<lambda>x. x) ?cfg ''quick.implement'' None None None (Some ''ghost'') s =
      Inl (''workflow step references unknown team '' @ quoted ''ghost'' @ '' in quick.implement'')" for s
    using 5 by (simp add: resolve_step_runtime_def resolve_role_selector_def override_applies_def team_selector_def)
  with 1 2 3 4 show ?thesis unfolding sample_config_def by metis
qed

text \<open>
  The validation of backup and upgrade links accepts exactly the graphs whose targets are configured teams and
  in which no team leads back to itself.
\<close>

theorem team_graphs_without_cycles:
  "(validate_team_graph attribute link teams = []) =
     (target_errors attribute link teams = [] \<and> \<not> (\<exists>n. (follows link teams)\<^sup>+\<^sup>+ n n))"
  by (simp add: validate_team_graph_def walk_all_Nil_iff)

subsection \<open>Inheritance\<close>

lemma chain_two:
  assumes "team_inheritance_chain cfg name = Inr chain" and "map_of (uc_teams cfg) name = Some t"
  shows "(tm_extends t = None \<longrightarrow> chain = [name]) \<and>
    (\<forall>b. tm_extends t = Some b \<longrightarrow> 2 \<le> length chain \<and> chain ! 0 = name \<and> chain ! 1 = b)"
proof -
  have ch: "\<exists>ys. xs = c @ ys" if "chain_from teams tn c x = Inr xs" for teams tn c x xs
    using that
  proof (induction teams tn c x rule: chain_from.induct)
    case (1 teams tn c x)
    then show ?case
      by (auto simp: chain_from.simps [of teams tn c x] split: if_splits option.splits)
  qed
  show ?thesis
  proof (cases "tm_extends t")
    case None
    with assms show ?thesis by (simp add: team_inheritance_chain_def chain_from.simps [of _ _ "[]"])
  next
    case (Some b)
    with assms have "chain_from (uc_teams cfg) name [name] b = Inr chain" and nb: "b \<noteq> name"
      by (auto simp: team_inheritance_chain_def chain_from.simps [of _ _ "[]"] chain_from.simps [of _ _ "[name]" name]
          split: if_splits)
    moreover from this have "\<exists>ys. chain = [name, b] @ ys"
      by (auto simp: chain_from.simps [of _ _ "[name]"] split: if_splits option.splits dest: ch)
    ultimately show ?thesis using Some by auto
  qed
qed

lemma map_of_sourced: "map_of (sourced src d) role = map_option (\<lambda>_. src) (map_of d role)"
  by (induction d) (auto simp: sourced_def)

lemma distinct_sourced [simp]: "map fst (sourced src d) = map fst d"
  by (induction d) (auto simp: sourced_def)

definition declared_by :: "team_config \<Rightarrow> string \<Rightarrow> string \<Rightarrow> (string \<times> string) option" where
  "declared_by t name role = map_option (\<lambda>s. (s, name)) (map_of (tm_roles t) role)"

text \<open>The declarations of the base of a team.\<close>

definition base_declares :: "user_config \<Rightarrow> team_config \<Rightarrow> string \<Rightarrow> (string \<times> string) option" where
  "base_declares cfg t role =
     (case tm_extends t of
        None \<Rightarrow> None
      | Some b \<Rightarrow> (case map_of (uc_teams cfg) b of None \<Rightarrow> None | Some bt \<Rightarrow> declared_by bt b role))"

definition globally_declared :: "user_config \<Rightarrow> string \<Rightarrow> (string \<times> string) option" where
  "globally_declared cfg role = map_option (\<lambda>s. (s, ''global'')) (map_of (uc_roles cfg) role)"

text \<open>The selector of a role with the declaration that supplied it.\<close>

definition effective :: "team_resolution \<Rightarrow> string \<Rightarrow> (string \<times> string) option" where
  "effective r role =
     (case (map_of (tr_roles r) role, map_of (tr_role_sources r) role) of
        (Some s, Some src) \<Rightarrow> Some (s, src) | _ \<Rightarrow> None)"

lemma effective_overlay:
  assumes "distinct (map fst (tm_roles t))"
  shows "effective (overlay name t r) role = or_else (declared_by t name role) (effective r role)"
  using assms
  by (auto simp: effective_def map_of_dict_update map_add_def map_of_sourced or_else_def declared_by_def split: option.splits)

text \<open>
  A team resolves a role to its own declaration, else to that of its base, else to the global one, and names
  the declaration it came from.
\<close>

theorem team_resolution_order:
  assumes "parse_workflow_pair loads cwd source_dir aflow_text workflows_text = Inr cfg"
    and "map_of (uc_teams cfg) name = Some t" and "resolve_team_config cfg (Some name) = Inr r"
  shows "effective r role = or_else (declared_by t name role) (or_else (base_declares cfg t role) (globally_declared cfg role))"
proof -
  from assms(1) obtain merged where "config_ok merged" "same_graph cfg merged" by (rule parse_workflow_pair_ok)
  then have ok: "\<And>n tm. map_of (uc_teams cfg) n = Some tm \<Longrightarrow> distinct (map fst (tm_roles tm))"
    by (fastforce simp: config_ok_def same_graph_def roles_ok_def dest: map_of_SomeD)
  from assms(2,3) obtain chain where c: "team_inheritance_chain cfg name = Inr chain" and l: "length chain \<le> 2"
    and r: "r = overlay name t (base_overlay cfg chain (global_resolution cfg))"
    by (auto simp: resolve_team_config_def rbind_Inr_iff split: if_splits)
  have g: "effective (global_resolution cfg) role = globally_declared cfg role"
    by (auto simp: effective_def global_resolution_def globally_declared_def map_of_sourced split: option.splits)
  have "effective (base_overlay cfg chain (global_resolution cfg)) role = or_else (base_declares cfg t role) (globally_declared cfg role)"
  proof (cases "tm_extends t")
    case None
    with chain_two [OF c assms(2)] g show ?thesis by (simp add: base_overlay_def base_declares_def or_else_def)
  next
    case (Some b)
    with chain_two [OF c assms(2)] l have "length chain = 2" "chain ! 1 = b" by auto
    with Some g ok show ?thesis
      by (auto simp: base_overlay_def base_declares_def effective_overlay or_else_def split: option.splits)
  qed
  with r ok [OF assms(2)] show ?thesis by (simp add: effective_overlay)
qed

theorem team_resolution_order_witness:
  "let cfg = sample_state ''alpha''; r = (case resolve_team_config cfg (Some ''beta'') of Inr r \<Rightarrow> r)
   in effective r ''worker'' = Some (''codex.fast'', ''alpha'')"
proof -
  let ?cfg = "sample_state ''alpha''"
  let ?t = "the (map_of (uc_teams ?cfg) ''beta'')"
  let ?r = "case resolve_team_config ?cfg (Some ''beta'') of Inr r \<Rightarrow> r"
  have t: "map_of (uc_teams ?cfg) ''beta'' = Some ?t" by code_simp
  have "is_right (resolve_team_config ?cfg (Some ''beta''))" by code_simp
  then have r: "resolve_team_config ?cfg (Some ''beta'') = Inr ?r" by (simp add: is_right_def split: sum.splits)
  have "or_else (declared_by ?t ''beta'' ''worker'') (or_else (base_declares ?cfg ?t ''worker'') (globally_declared ?cfg ''worker''))
      = Some (''codex.fast'', ''alpha'')" by code_simp
  with team_resolution_order [OF sample_state_loads t r, of "''worker''"] show ?thesis by (simp only: Let_def)
qed

text \<open>
  Materialization does not depend on the order of the workflows or on its cache: it succeeds with the
  workflows that resolving each of them on its own gives, and fails with the first error among those.
\<close>

theorem materialization_reference:
  "map_sum (\<lambda>e. e) (\<lambda>ws. map (map_of ws) (map fst raws)) (materialize_workflows path ld raws) =
   map_sum (\<lambda>e. e) (map Some) (traverse (workflow_spec raws ld path) (map fst raws))"
  by (rule materialize_spec)

subsection \<open>Resources\<close>

text \<open>
  Two profiles share the text that identifies an exclusive resource exactly when their harness, model and
  effort are equal; the resources differ for different triples unless the hash collides on those texts.
\<close>

theorem resource_identity:
  "(resource_payload h m e = resource_payload h' m' e') = (h = h' \<and> m = m' \<and> e = e') \<and>
   (execution_resource_key sha h m e = execution_resource_key sha h' m' e') =
     ((h = h' \<and> m = m' \<and> e = e') \<or>
      (resource_payload h m e \<noteq> resource_payload h' m' e' \<and>
       sha (resource_payload h m e) = sha (resource_payload h' m' e')))"
  by (auto simp: execution_resource_key_def dest: resource_payload_inj)

end
