(* ===== verification/Manager_Decisions.thy ===== *)
theory Manager_Decisions
  imports Json Py_Text "HOL-Library.List_Lexorder" "HOL-Library.Char_ord"
begin

text \<open>
  The decisions of the supervising manager (\<^verbatim>\<open>aflow/manager.py\<close>): the one JSON object a
  response must be, its validation, what a boundary allows, and which level of manager a boundary
  calls. What \<^verbatim>\<open>json.loads\<close> makes of a text is the argument \<open>loads\<close>.
\<close>

datatype decision_error = Decision_Error string | Decision_Raised py_exn

subsection \<open>The fence around a response\<close>

text \<open>
  \<^verbatim>\<open>_SINGLE_JSON_FENCE.fullmatch\<close>: after the closing backticks only white space may follow, so
  they are the last of the text without its trailing white space; the body leaves out one line end
  on both sides.
\<close>

definition drop_line_end :: "string \<Rightarrow> string option" where
  "drop_line_end s =
     (case s of
        c # cs \<Rightarrow> if c = LF then Some cs
                  else if c = CR \<and> cs \<noteq> [] \<and> hd cs = LF then Some (tl cs) else None
      | [] \<Rightarrow> None)"

definition drop_last_line_end :: "string \<Rightarrow> string option" where
  "drop_last_line_end s =
     (if s = [] \<or> last s \<noteq> LF then None
      else if butlast s \<noteq> [] \<and> last (butlast s) = CR then Some (butlast (butlast s)) else Some (butlast s))"

definition fence_body :: "string \<Rightarrow> string option" where
  "fence_body text =
     (case strip_prefix ([TICK, TICK, TICK] @ ''json'') (lstrip text) of
        None \<Rightarrow> None
      | Some r \<Rightarrow>
          (case drop_line_end (dropWhile (\<lambda>c. c = CHR '' '' \<or> c = CHR 0x09) r) of
             None \<Rightarrow> None
           | Some body \<Rightarrow>
               (let b = rstrip body
                in if ends_with b [TICK, TICK, TICK] then drop_last_line_end (take (length b - 3) b) else None)))"

subsection \<open>Fields\<close>

definition nonempty_text :: "string \<Rightarrow> json \<Rightarrow> decision_error + string" where
  "nonempty_text field v =
     (case v of
        JStr s \<Rightarrow> if strip s = [] then Inl (Decision_Error (field @ '' must be a non-empty string'')) else Inr (strip s)
      | _ \<Rightarrow> Inl (Decision_Error (field @ '' must be a non-empty string'')))"

definition text_list :: "string \<Rightarrow> bool \<Rightarrow> json \<Rightarrow> decision_error + string list" where
  "text_list field required v =
     (case v of
        JList xs \<Rightarrow>
          rbind (traverse (\<lambda>(i, x). nonempty_text (field @ ''['' @ nat_str i @ '']'') x) (enumerate 0 xs)) (\<lambda>items.
            if required \<and> items = [] then Inl (Decision_Error (field @ '' must not be empty'')) else Inr items)
      | _ \<Rightarrow> Inl (Decision_Error (field @ '' must be an array of non-empty strings'')))"

definition listed :: "string \<Rightarrow> string list \<Rightarrow> string list" where
  "listed label names = (if names = [] then [] else [label @ '' fields: '' @ join_with '', '' names])"

text \<open>The keys of an object are exactly the expected ones.\<close>

definition check_keys :: "string \<Rightarrow> string list \<Rightarrow> dict \<Rightarrow> decision_error + unit" where
  "check_keys what expected d =
     (let unknown = sort (remdups (filter (\<lambda>k. k \<notin> set expected) (map fst d)));
          missing = sort (filter (\<lambda>k. k \<notin> set (map fst d)) expected)
      in if unknown = [] \<and> missing = [] then Inr ()
         else Inl (Decision_Error (''invalid '' @ what @ '' ('' @
                join_with ''; '' (listed ''unknown'' unknown @ listed ''missing'' missing) @ '')'')))"

record stop_report =
  sr_summary :: string
  sr_root_cause :: string
  sr_evidence :: "string list"
  sr_attempts :: string
  sr_workspace_state :: string
  sr_next_actions :: "string list"

definition STOP_REPORT_KEYS :: "string list" where
  "STOP_REPORT_KEYS =
     [''summary'', ''root_cause'', ''evidence'', ''attempts'', ''workspace_state'', ''next_actions'']"

definition parse_stop_report :: "json \<Rightarrow> decision_error + stop_report" where
  "parse_stop_report v =
     (case v of
        JObj d \<Rightarrow>
          rbind (check_keys ''stop_report'' STOP_REPORT_KEYS d) (\<lambda>_.
          rbind (nonempty_text ''stop_report.summary'' (dget d ''summary'')) (\<lambda>summary.
          rbind (nonempty_text ''stop_report.root_cause'' (dget d ''root_cause'')) (\<lambda>root_cause.
          rbind (text_list ''stop_report.evidence'' True (dget d ''evidence'')) (\<lambda>evidence.
          rbind (nonempty_text ''stop_report.attempts'' (dget d ''attempts'')) (\<lambda>attempts.
          rbind (nonempty_text ''stop_report.workspace_state'' (dget d ''workspace_state'')) (\<lambda>workspace.
          rbind (text_list ''stop_report.next_actions'' True (dget d ''next_actions'')) (\<lambda>next_actions.
            Inr \<lparr>sr_summary = summary, sr_root_cause = root_cause, sr_evidence = evidence, sr_attempts = attempts,
              sr_workspace_state = workspace, sr_next_actions = next_actions\<rparr>)))))))
      | _ \<Rightarrow> Inl (Decision_Error ''stop_report must be an object''))"

subsection \<open>Decisions\<close>

definition ACTIONS :: "string list" where
  "ACTIONS = [''continue'', ''retry_current_step'', ''upgrade_next_implementation'',
     ''switch_to_backup_and_retry'', ''escalate_to_full'', ''repartition_current_checkpoint'', ''stop'']"

definition DECISION_KEYS :: "string list" where
  "DECISION_KEYS = [''schema_version'', ''action'', ''reason'', ''next_step_notes'', ''stop_report'']"

definition MAX_MANAGER_NOTES :: nat where "MAX_MANAGER_NOTES = 8"
definition MAX_MANAGER_NOTE_LENGTH :: nat where "MAX_MANAGER_NOTE_LENGTH = 1000"

record manager_decision =
  md_action :: string
  md_reason :: string
  md_notes :: "string list"
  md_stop_report :: "stop_report option"

text \<open>\<open>None\<close> for an argument that is not given.\<close>

definition validate_manager_decision ::
  "string option \<Rightarrow> string list option \<Rightarrow> string option \<Rightarrow> manager_decision \<Rightarrow> decision_error + manager_decision"
where
  "validate_manager_decision level eligible proposed d =
     (let fail = (\<lambda>m. Inl (Decision_Error m)); notes = md_notes d \<noteq> [] in
      if md_action d = ''stop'' \<and> md_stop_report d = None then fail ''stop requires stop_report''
      else if md_action d = ''stop'' \<and> notes then fail ''stop must not include next_step_notes''
      else if md_action d \<noteq> ''stop'' \<and> md_stop_report d \<noteq> None then fail ''stop_report is only allowed for stop''
      else if md_action d = ''escalate_to_full'' \<and> level \<noteq> None \<and> level \<noteq> Some ''lite''
      then fail ''escalate_to_full is only legal for Lite''
      else if md_action d = ''escalate_to_full'' \<and> notes then fail ''escalate_to_full must not include next_step_notes''
      else if md_action d = ''repartition_current_checkpoint'' \<and> level \<noteq> None \<and> level \<noteq> Some ''full''
      then fail ''repartition_current_checkpoint is only legal for Full''
      else if md_action d = ''repartition_current_checkpoint'' \<and> notes
      then fail ''repartition_current_checkpoint must not include next_step_notes''
      else if md_action d = ''continue'' \<and> proposed = Some ''END'' \<and> notes
      then fail ''accepted END must not include next_step_notes''
      else if (case eligible of None \<Rightarrow> False | Some as \<Rightarrow> md_action d \<notin> set as)
      then fail (''action '' @ [QUOTE] @ md_action d @ [QUOTE] @ '' is not eligible at this control boundary'')
      else Inr d)"

text \<open>Membership in a set of strings; a list or an object cannot be looked up.\<close>

definition parse_action :: "json \<Rightarrow> decision_error + string" where
  "parse_action v =
     (case v of
        JStr s \<Rightarrow> if s \<in> set ACTIONS then Inr s
                  else Inl (Decision_Error (''action must be one of: '' @ join_with '', '' (sort ACTIONS)))
      | _ \<Rightarrow> if hashable v then Inl (Decision_Error (''action must be one of: '' @ join_with '', '' (sort ACTIONS)))
             else Inl (Decision_Raised (TypeError ''unhashable type'')))"

definition parse_decision_object :: "dict \<Rightarrow> decision_error + manager_decision" where
  "parse_decision_object d =
     rbind (check_keys ''manager decision'' DECISION_KEYS d) (\<lambda>_.
     rbind (if equals_int (dget d ''schema_version'') 1 then Inr ()
            else Inl (Decision_Error ''schema_version must be 1'')) (\<lambda>_.
     rbind (parse_action (dget d ''action'')) (\<lambda>action.
     rbind (text_list ''next_step_notes'' False (dget d ''next_step_notes'')) (\<lambda>notes.
     rbind (if list_ex (\<lambda>n. length n > MAX_MANAGER_NOTE_LENGTH) notes
            then Inl (Decision_Error ''next_step_notes exceeds protocol bounds'') else Inr ()) (\<lambda>_.
     rbind (if dget d ''stop_report'' = JNull then Inr None
            else map_sum (\<lambda>e. e) Some (parse_stop_report (dget d ''stop_report''))) (\<lambda>report.
     rbind (nonempty_text ''reason'' (dget d ''reason'')) (\<lambda>reason.
       validate_manager_decision None None None
         \<lparr>md_action = action, md_reason = reason, md_notes = take MAX_MANAGER_NOTES notes,
           md_stop_report = report\<rparr>)))))))"

definition parse_manager_decision :: "(string \<Rightarrow> string + json) \<Rightarrow> string \<Rightarrow> decision_error + manager_decision" where
  "parse_manager_decision loads text =
     (case loads (case fence_body text of None \<Rightarrow> text | Some body \<Rightarrow> body) of
        Inl m \<Rightarrow> Inl (Decision_Error (''manager response is not valid JSON: '' @ m))
      | Inr (JObj d) \<Rightarrow> parse_decision_object d
      | Inr _ \<Rightarrow> Inl (Decision_Error ''manager response must be one JSON object''))"

subsection \<open>The level a boundary calls\<close>

text \<open>The counters of the controller's state, when a boundary's context has one.\<close>

record boundary_state =
  bs_semantic_stalls :: int
  bs_reviewer_rejections :: int
  bs_scope_pressure :: bool

definition FULL_TRIGGERS :: "string list" where
  "FULL_TRIGGERS = [''explicit_stop'', ''invalid_plan'', ''ambiguous_failure'', ''same_step_cap'', ''max_turns'',
     ''merge_failure'', ''illegal_transition'']"

definition manager_level_for_boundary :: "int \<Rightarrow> string option \<Rightarrow> boundary_state option \<Rightarrow> string" where
  "manager_level_for_boundary full_after trigger controller =
     (case controller of
        None \<Rightarrow> ''lite''
      | Some c \<Rightarrow>
          if bs_semantic_stalls c \<ge> full_after \<or> bs_reviewer_rejections c \<ge> 2 \<or> bs_scope_pressure c \<or>
             (case trigger of None \<Rightarrow> False | Some t \<Rightarrow> t \<in> set FULL_TRIGGERS)
          then ''full'' else ''lite'')"

subsection \<open>Laws\<close>

definition stop_report_ok :: "stop_report \<Rightarrow> bool" where
  "stop_report_ok r = (sr_summary r \<noteq> [] \<and> sr_root_cause r \<noteq> [] \<and> sr_attempts r \<noteq> [] \<and> sr_workspace_state r \<noteq> [] \<and>
     sr_evidence r \<noteq> [] \<and> sr_next_actions r \<noteq> [] \<and> [] \<notin> set (sr_evidence r) \<and> [] \<notin> set (sr_next_actions r))"

definition decision_ok :: "manager_decision \<Rightarrow> bool" where
  "decision_ok d =
     (md_action d \<in> set ACTIONS \<and> md_reason d \<noteq> [] \<and> length (md_notes d) \<le> MAX_MANAGER_NOTES \<and>
      (\<forall>n \<in> set (md_notes d). n \<noteq> [] \<and> length n \<le> MAX_MANAGER_NOTE_LENGTH) \<and>
      (md_action d \<in> {''stop'', ''escalate_to_full'', ''repartition_current_checkpoint''} \<longrightarrow> md_notes d = []) \<and>
      (case md_stop_report d of None \<Rightarrow> md_action d \<noteq> ''stop'' | Some r \<Rightarrow> md_action d = ''stop'' \<and> stop_report_ok r))"

lemma nonempty_text_Inr: "nonempty_text f v = Inr s \<Longrightarrow> s \<noteq> []"
  by (auto simp: nonempty_text_def split: json.splits if_splits)

lemma traverse_nonempty: "traverse (\<lambda>(i, x). nonempty_text (p i) x) xs = Inr items \<Longrightarrow> [] \<notin> set items"
  by (induction xs arbitrary: items) (auto simp: rbind_Inr_iff dest: nonempty_text_Inr)

lemma text_list_Inr: "text_list f required v = Inr items \<Longrightarrow> [] \<notin> set items \<and> (required \<longrightarrow> items \<noteq> [])"
  by (auto simp: text_list_def rbind_Inr_iff split: json.splits if_splits dest: traverse_nonempty)

lemma parse_stop_report_ok: "parse_stop_report v = Inr r \<Longrightarrow> stop_report_ok r"
  by (auto simp: parse_stop_report_def stop_report_ok_def rbind_Inr_iff split: json.splits
      dest: nonempty_text_Inr text_list_Inr)

lemma validate_decision_Inr:
  assumes "validate_manager_decision level eligible proposed d = Inr d'"
  shows "d' = d" and "md_action d = ''stop'' \<longleftrightarrow> md_stop_report d \<noteq> None"
    and "md_action d \<in> {''stop'', ''escalate_to_full'', ''repartition_current_checkpoint''} \<Longrightarrow> md_notes d = []"
    and "md_action d = ''continue'' \<Longrightarrow> proposed = Some ''END'' \<Longrightarrow> md_notes d = []"
    and "eligible = Some as \<Longrightarrow> md_action d \<in> set as"
    and "level = Some l \<Longrightarrow> md_action d = ''escalate_to_full'' \<Longrightarrow> l = ''lite''"
    and "level = Some l \<Longrightarrow> md_action d = ''repartition_current_checkpoint'' \<Longrightarrow> l = ''full''"
proof -
  note checks = assms [unfolded validate_manager_decision_def Let_def]
  show "d' = d"
    using checks by (simp split: if_split_asm)
  show "md_action d = ''stop'' \<longleftrightarrow> md_stop_report d \<noteq> None"
  proof (cases "md_action d = ''stop''")
    case True
    with checks show ?thesis by (simp split: if_split_asm)
  next
    case False
    with checks show ?thesis by (simp split: if_split_asm)
  qed
  show "md_notes d = []"
    if "md_action d \<in> {''stop'', ''escalate_to_full'', ''repartition_current_checkpoint''}"
    using checks that by (auto split: if_split_asm)
  show "md_notes d = []" if "md_action d = ''continue''" "proposed = Some ''END''"
    using checks that by (simp split: if_split_asm)
  show "md_action d \<in> set as" if "eligible = Some as"
    using checks that by (simp split: if_split_asm)
  show "l = ''lite''" if "level = Some l" "md_action d = ''escalate_to_full''"
    using checks that by (simp split: if_split_asm)
  show "l = ''full''" if "level = Some l" "md_action d = ''repartition_current_checkpoint''"
    using checks that by (simp split: if_split_asm)
qed

lemma parse_action_Inr: "parse_action v = Inr a \<Longrightarrow> a \<in> set ACTIONS"
  by (auto simp: parse_action_def split: json.splits if_splits)

lemma parse_decision_object_ok:
  assumes "parse_decision_object obj = Inr d"
  shows "decision_ok d"
proof -
  from assms obtain action ns report reason where a: "parse_action (dget obj ''action'') = Inr action"
    and n: "text_list ''next_step_notes'' False (dget obj ''next_step_notes'') = Inr ns"
    and l: "\<not> list_ex (\<lambda>n. length n > MAX_MANAGER_NOTE_LENGTH) ns"
    and s: "report = None \<or> (\<exists>r. report = Some r \<and> parse_stop_report (dget obj ''stop_report'') = Inr r)"
    and r: "nonempty_text ''reason'' (dget obj ''reason'') = Inr reason"
    and v: "validate_manager_decision None None None \<lparr>md_action = action, md_reason = reason,
      md_notes = take MAX_MANAGER_NOTES ns, md_stop_report = report\<rparr> = Inr d"
    by (auto simp: parse_decision_object_def rbind_Inr_iff map_sum_def split: if_splits sum.splits)
  note d = validate_decision_Inr [OF v]
  have "\<forall>m \<in> set (take MAX_MANAGER_NOTES ns). m \<noteq> [] \<and> length m \<le> MAX_MANAGER_NOTE_LENGTH"
    using text_list_Inr [OF n] l set_take_subset [of MAX_MANAGER_NOTES ns] by (auto simp: list_ex_iff not_less dest: in_set_takeD)
  with parse_action_Inr [OF a] nonempty_text_Inr [OF r] s d(2,3) show ?thesis
    unfolding d(1) by (auto simp: decision_ok_def split: option.splits dest: parse_stop_report_ok)
qed

end
