(* ===== verification/Note_Authority.thy ===== *)
theory Note_Authority
  imports Manager_Decisions
begin

text \<open>
  What a manager's notes may say (\<^verbatim>\<open>validate_manager_note_authority\<close> of
  \<^verbatim>\<open>aflow/manager.py\<close>). The regular expressions of the source are values of a datatype; a
  search tries every position, and its meaning is a relation between positions of the text.
\<close>

subsection \<open>Regular expressions\<close>

text \<open>
  \<open>One\<close> a character of a class, \<open>Run\<close> one or more of them, \<open>Edge\<close> the word boundary
  \<^verbatim>\<open>\b\<close>, \<open>Maybe\<close> the suffix \<^verbatim>\<open>?\<close>.
\<close>

datatype regex =
    One "char \<Rightarrow> bool"
  | Run "char \<Rightarrow> bool"
  | Edge
  | Cat regex regex
  | Or regex regex
  | Maybe regex

definition word_at :: "string \<Rightarrow> nat \<Rightarrow> bool" where
  "word_at s i = (i < length s \<and> is_word (s ! i))"

definition word_edge :: "string \<Rightarrow> nat \<Rightarrow> bool" where
  "word_edge s i = ((0 < i \<and> word_at s (i - 1)) \<noteq> word_at s i)"

text \<open>The meaning: from position \<open>i\<close> of the text the expression can read up to \<open>j\<close>.\<close>

inductive reads :: "regex \<Rightarrow> string \<Rightarrow> nat \<Rightarrow> nat \<Rightarrow> bool" where
  One: "i < length s \<Longrightarrow> p (s ! i) \<Longrightarrow> reads (One p) s i (Suc i)"
| Run: "i < j \<Longrightarrow> j \<le> length s \<Longrightarrow> \<forall>k. i \<le> k \<and> k < j \<longrightarrow> p (s ! k) \<Longrightarrow> reads (Run p) s i j"
| Edge: "word_edge s i \<Longrightarrow> reads Edge s i i"
| Cat: "reads a s i j \<Longrightarrow> reads b s j k \<Longrightarrow> reads (Cat a b) s i k"
| Left: "reads a s i j \<Longrightarrow> reads (Or a b) s i j"
| Right: "reads b s i j \<Longrightarrow> reads (Or a b) s i j"
| Skip: "reads (Maybe a) s i i"
| Once: "reads a s i j \<Longrightarrow> reads (Maybe a) s i j"

inductive_simps reads_simps:
  "reads (One p) s i j" "reads (Run p) s i j" "reads Edge s i j" "reads (Cat a b) s i j"
  "reads (Or a b) s i j" "reads (Maybe a) s i j"

text \<open>The positions an expression can reach.\<close>

fun ends :: "regex \<Rightarrow> string \<Rightarrow> nat \<Rightarrow> nat list" where
  "ends (One p) s i = (if i < length s \<and> p (s ! i) then [Suc i] else [])"
| "ends (Run p) s i = map (\<lambda>n. i + Suc n) [0..<length (takeWhile p (drop i s))]"
| "ends Edge s i = (if word_edge s i then [i] else [])"
| "ends (Cat a b) s i = remdups (concat (map (ends b s) (ends a s i)))"
| "ends (Or a b) s i = ends a s i @ ends b s i"
| "ends (Maybe a) s i = ends a s i @ [i]"

definition search :: "regex \<Rightarrow> string \<Rightarrow> bool" where
  "search r s = list_ex (\<lambda>i. ends r s i \<noteq> []) [0..<Suc (length s)]"

fun word :: "string \<Rightarrow> regex" where
  "word [] = Maybe (One (\<lambda>c. False))"
| "word [c] = One (\<lambda>d. d = c)"
| "word (c # d # cs) = Cat (One (\<lambda>e. e = c)) (word (d # cs))"

fun cat :: "regex list \<Rightarrow> regex" where
  "cat [] = word []"
| "cat [r] = r"
| "cat (r # r' # rs) = Cat r (cat (r' # rs))"

fun alt :: "regex list \<Rightarrow> regex" where
  "alt [] = One (\<lambda>c. False)"
| "alt [r] = r"
| "alt (r # r' # rs) = Or r (alt (r' # rs))"

abbreviation spaces :: regex where "spaces \<equiv> Run is_space"

definition maybe_s :: "string \<Rightarrow> regex" where
  "maybe_s w = Cat (word w) (Maybe (word ''s''))"

definition between_edges :: "regex list \<Rightarrow> regex" where
  "between_edges rs = cat (Edge # rs @ [Edge])"

subsection \<open>The rules\<close>

definition confine_rule :: regex where
  "confine_rule = alt
     [between_edges [alt (map word [''restrict'', ''limit'', ''confine'', ''scope'']), spaces,
        alt [maybe_s ''edit'', maybe_s ''change'', word ''work'']],
      between_edges [alt [maybe_s ''change'', word ''work''], spaces, alt (map word [''are'', ''is'']), spaces,
        word ''confined''],
      between_edges [word ''keep'', spaces, alt [maybe_s ''change'', word ''work''], spaces, word ''scoped'']]"

definition files_or_set :: regex where
  "files_or_set = alt [maybe_s ''file'', word ''set'']"

definition only_rule :: regex where
  "only_rule = alt
     [between_edges [alt (map word [''sole'', ''only'']), spaces, alt (map word [''permitted'', ''allowed'']), spaces,
        alt (map word [''file'', ''path'']), Maybe (word ''s'')],
      between_edges [word ''only'', spaces, Maybe (Cat (word ''the'') spaces),
        alt [maybe_s ''file'', maybe_s ''path'', cat [word ''dirty'', spaces, files_or_set]]],
      between_edges [word ''only'', spaces, alt (map word [''change'', ''edit'', ''touch'', ''modify''])]]"

definition allow_rule :: regex where
  "allow_rule = between_edges
     [alt [cat [word ''allow'', Maybe (word ''ed''), spaces, alt [maybe_s ''file'', maybe_s ''path'']],
           word ''allowlist'',
           cat [word ''permit'', Maybe (word ''ted''), spaces, alt [maybe_s ''file'', maybe_s ''path'']],
           cat [word ''may'', spaces, word ''modify'']]]"

definition prohibition_rule :: regex where
  "prohibition_rule =
     (let modify = alt (map word [''modify'', ''change'', ''edit'', ''touch''])
      in between_edges
        [alt [cat [word ''never'', spaces, modify],
              cat [word ''must'', spaces, word ''not'', spaces, word ''touch''],
              cat [word ''do'', spaces, word ''not'', spaces, modify],
              cat [word (''don'' @ [QUOTE] @ ''t''), spaces, modify],
              cat [word ''outside'', spaces, Maybe (Cat (word ''the'') spaces), Maybe (Cat (word ''dirty'') spaces),
                alt [maybe_s ''file'', maybe_s ''path'', word ''set'']]]])"

definition dirty_rule :: regex where
  "dirty_rule = between_edges [Maybe (Cat (word ''current'') spaces), word ''dirty'', spaces, files_or_set]"

definition scope_authority_rules :: "regex list" where
  "scope_authority_rules = [confine_rule, only_rule, allow_rule, prohibition_rule, dirty_rule]"

definition plan_reference :: regex where
  "plan_reference = between_edges
     [Maybe (alt (map word [''active'', ''repair'', ''current''])), Maybe spaces, word ''plan'']"

definition selection_verb :: regex where
  "selection_verb = alt [word ''use'', word ''follow'', Cat (word ''switch'') (Maybe (Cat spaces (word ''to''))),
     word ''replace'', word ''adopt'', cat [word ''work'', spaces, word ''from'']]"

definition plan_selection :: regex where
  "plan_selection = between_edges [selection_verb]"

definition lower_or_digit :: "char \<Rightarrow> bool" where
  "lower_or_digit c = ((97 \<le> code c \<and> code c \<le> 122) \<or> is_digit c)"

definition direct_plan_selection :: regex where
  "direct_plan_selection = cat
     [Edge, selection_verb, spaces, Maybe (Cat (word ''the'') spaces), Maybe (word [TICK]), word ''plans/'',
      One lower_or_digit, Maybe (Run (\<lambda>c. lower_or_digit c \<or> c \<in> set ''._/-'')), Maybe (word [TICK])]"

definition implementation_requirement :: regex where
  "implementation_requirement =
     (let actor = alt (map word [''worker'', ''implementation''])
      in alt
        [between_edges [word ''ensure'', spaces, Maybe (Cat (word ''the'') spaces), actor],
         between_edges [actor, spaces,
           alt [word ''must'', word ''should'', cat [maybe_s ''need'', spaces, word ''to''],
                cat [word ''is'', spaces, word ''required'', spaces, word ''to'']]],
         between_edges [word ''require'', spaces, Maybe (Cat (word ''the'') spaces), actor, spaces, word ''to'']])"

subsection \<open>Paths in a note\<close>

text \<open>\<^verbatim>\<open>re.sub(r"\s+", " ", note.strip().lower())\<close>\<close>

function collapse_spaces :: "string \<Rightarrow> string" where
  "collapse_spaces [] = []"
| "collapse_spaces (c # cs) =
     (if is_space c then CHR '' '' # collapse_spaces (dropWhile is_space cs) else c # collapse_spaces cs)"
  by pat_completeness auto
termination
  by (relation "measure length") (auto simp: length_dropWhile_le le_imp_less_Suc)

definition normalize_authority_text :: "string \<Rightarrow> string" where
  "normalize_authority_text note = collapse_spaces (lower (strip note))"

definition ascii_letter_digit :: "char \<Rightarrow> bool" where
  "ascii_letter_digit c =
     ((65 \<le> code c \<and> code c \<le> 90) \<or> (97 \<le> code c \<and> code c \<le> 122) \<or> is_digit c)"

definition path_char :: "char \<Rightarrow> bool" where
  "path_char c = (ascii_letter_digit c \<or> c \<in> set ''._/-'')"

definition strip_marks :: "string \<Rightarrow> string" where
  "strip_marks s =
     (let mark = (\<lambda>c. c \<in> set ''.,:;()[]{}'') in rev (dropWhile mark (rev (dropWhile mark s))))"

definition normalize_note_path :: "string \<Rightarrow> string option" where
  "normalize_note_path v =
     (let p = strip_marks (strip v) in
      if p = [] \<or> starts_with p ''/'' \<or> CHR 0x5C \<in> set p \<or>
         list_ex (\<lambda>part. part \<in> set ['''', ''.'', ''..'']) (split_on (CHR ''/'') p) \<or>
         \<not> (ascii_letter_digit (hd p) \<and> list_all path_char (tl p))
      then None else Some p)"

text \<open>
  The code spans of a note and the note with each span replaced by a space: a span opens at a
  backtick, has at least one other character and closes at the next backtick.
\<close>

function code_spans :: "string \<Rightarrow> string list \<times> string" where
  "code_spans s =
     (case s of
        [] \<Rightarrow> ([], [])
      | c # cs \<Rightarrow>
          (let body = takeWhile (\<lambda>d. d \<noteq> TICK) cs; rest = dropWhile (\<lambda>d. d \<noteq> TICK) cs
           in if c = TICK \<and> body \<noteq> [] \<and> rest \<noteq> []
              then (let (spans, text) = code_spans (tl rest) in (body # spans, CHR '' '' # text))
              else (let (spans, text) = code_spans cs in (spans, c # text))))"
  by pat_completeness auto
termination
proof (relation "measure length", goal_cases)
  case (2 s c cs body rest)
  then show ?case using length_dropWhile_le [of "\<lambda>d. d \<noteq> TICK" cs] by simp
qed simp_all

declare code_spans.simps [simp del]

text \<open>The maximal runs of path characters that begin with a letter or digit.\<close>

function path_tokens :: "string \<Rightarrow> string list" where
  "path_tokens s =
     (case dropWhile (\<lambda>c. \<not> path_char c) s of
        [] \<Rightarrow> []
      | c # cs \<Rightarrow>
          (if ascii_letter_digit c then [c # takeWhile path_char cs] else []) @
          path_tokens (dropWhile path_char cs))"
  by pat_completeness auto
termination
proof (relation "measure length", goal_cases)
  case (2 s c cs)
  have "length (dropWhile path_char cs) < length (c # cs)" by (simp add: length_dropWhile_le le_imp_less_Suc)
  also have "length (c # cs) \<le> length s" using 2 length_dropWhile_le [of "\<lambda>c. \<not> path_char c" s] by simp
  finally show ?case by simp
qed simp

declare path_tokens.simps [simp del]

definition note_paths :: "string \<Rightarrow> string list \<times> bool" where
  "note_paths note =
     (let (spans, unquoted) = code_spans note;
          candidates = spans @ filter (\<lambda>t. CHR ''/'' \<in> set t \<or> CHR ''.'' \<in> set t) (path_tokens unquoted)
      in (List.map_filter normalize_note_path candidates, list_ex (\<lambda>c. normalize_note_path c = None) candidates))"

subsection \<open>Authority\<close>

datatype note_category = Plan_Selection | File_Scope | Mandatory_Implementation

definition normalized_scope_paths :: "dict option \<Rightarrow> string \<Rightarrow> string list option" where
  "normalized_scope_paths scope key =
     (case scope of
        None \<Rightarrow> None
      | Some d \<Rightarrow>
          if dget d ''constraints_complete'' \<noteq> JBool True then None
          else (case dget d key of
            JList raw \<Rightarrow>
              (let paths = map (\<lambda>v. case v of JStr s \<Rightarrow> normalize_note_path s | _ \<Rightarrow> None) raw
               in if None \<in> set paths then None else Some (map the paths))
          | _ \<Rightarrow> None))"

definition authority_error :: "dict option \<Rightarrow> string \<Rightarrow> note_category \<Rightarrow> note_category \<times> string" where
  "authority_error scope detail category =
     (category, ''next_step_notes may not '' @ detail @
        (case scope of
           None \<Rightarrow> []
         | Some d \<Rightarrow> (case dget d ''active_plan_identity'' of JStr s \<Rightarrow> '' for active plan '' @ s | _ \<Rightarrow> [])))"

definition validate_file_scope_claim :: "string \<Rightarrow> dict option \<Rightarrow> note_category \<times> string + unit" where
  "validate_file_scope_claim note scope =
     (let key = (if search prohibition_rule (normalize_authority_text note) then ''prohibited_paths'' else ''allowed_paths'');
          (asserted, malformed) = note_paths note
      in case normalized_scope_paths scope key of
           None \<Rightarrow> Inl (authority_error scope ''assert file or scope authority'' File_Scope)
         | Some paths \<Rightarrow>
             if malformed \<or> asserted = [] \<or> set asserted \<noteq> set paths
             then Inl (authority_error scope ''assert file or scope authority'' File_Scope) else Inr ())"

definition selects_plan :: "string \<Rightarrow> bool" where
  "selects_plan normalized =
     (search direct_plan_selection normalized \<or>
      (search plan_reference normalized \<and> search plan_selection normalized))"

definition claims_scope :: "string \<Rightarrow> bool" where
  "claims_scope normalized = list_ex (\<lambda>r. search r normalized) scope_authority_rules"

fun check_notes :: "dict option \<Rightarrow> bool \<Rightarrow> string list \<Rightarrow> note_category \<times> string + unit" where
  "check_notes scope selected [] =
     (if selected then Inl (authority_error scope ''replace or select an active plan'' Plan_Selection) else Inr ())"
| "check_notes scope selected (note # rest) =
     (let normalized = normalize_authority_text note in
      rbind (if claims_scope normalized then validate_file_scope_claim note scope else Inr ()) (\<lambda>_.
        if search implementation_requirement normalized
        then Inl (authority_error scope ''impose a mandatory implementation requirement'' Mandatory_Implementation)
        else check_notes scope (selected \<or> selects_plan normalized) rest))"

definition validate_manager_note_authority :: "string list \<Rightarrow> dict option \<Rightarrow> note_category \<times> string + string list" where
  "validate_manager_note_authority ns scope = map_sum (\<lambda>e. e) (\<lambda>_. ns) (check_notes scope False ns)"

definition correctable :: "note_category \<Rightarrow> bool" where
  "correctable c = (c = Plan_Selection)"

definition validate_manager_note_correction :: "manager_decision \<Rightarrow> manager_decision \<Rightarrow> decision_error + manager_decision" where
  "validate_manager_note_correction original corrected =
     (let changed = (\<lambda>f. Inl (Decision_Error (''manager note correction changed immutable field '' @ [QUOTE] @ f @ [QUOTE]))) in
      if md_action corrected \<noteq> md_action original then changed ''action''
      else if md_reason corrected \<noteq> md_reason original then changed ''reason''
      else if md_stop_report corrected \<noteq> md_stop_report original then changed ''stop_report''
      else Inr corrected)"

subsection \<open>Laws\<close>

lemma takeWhile_longer: "n < length (takeWhile p xs) \<longleftrightarrow> n < length xs \<and> (\<forall>k \<le> n. p (xs ! k))"
proof
  assume n: "n < length (takeWhile p xs)"
  have "p (xs ! k)" if "k \<le> n" for k
    using n that nth_mem [of k "takeWhile p xs"] takeWhile_nth [of k p xs] set_takeWhileD by fastforce
  with n length_takeWhile_le [of p xs] show "n < length xs \<and> (\<forall>k \<le> n. p (xs ! k))" by auto
next
  assume "n < length xs \<and> (\<forall>k \<le> n. p (xs ! k))"
  then show "n < length (takeWhile p xs)"
    using nth_length_takeWhile [of p xs] by (meson le_less_trans not_less)
qed

lemma takeWhile_run:
  "n < length (takeWhile p (drop i s)) \<longleftrightarrow> i + n < length s \<and> (\<forall>k. i \<le> k \<and> k \<le> i + n \<longrightarrow> p (s ! k))"
proof (cases "i + n < length s")
  case True
  then have "(\<forall>k \<le> n. p (drop i s ! k)) \<longleftrightarrow> (\<forall>k \<le> n. p (s ! (i + k)))" by simp
  also have "\<dots> \<longleftrightarrow> (\<forall>k. i \<le> k \<and> k \<le> i + n \<longrightarrow> p (s ! k))"
    by (metis le_add1 nat_add_left_cancel_le le_Suc_ex)
  finally show ?thesis using True by (auto simp: takeWhile_longer)
qed (auto simp: takeWhile_longer)

text \<open>The search reaches exactly the positions of the relation.\<close>

lemma ends_reads: "j \<in> set (ends r s i) \<longleftrightarrow> reads r s i j"
proof (induction r arbitrary: i j)
  case (Run p)
  show ?case
  proof
    assume "j \<in> set (ends (Run p) s i)"
    then obtain n where j: "j = i + Suc n" and n: "n < length (takeWhile p (drop i s))" by auto
    from n have "i + n < length s" "\<forall>k. i \<le> k \<and> k \<le> i + n \<longrightarrow> p (s ! k)" unfolding takeWhile_run by auto
    with j show "reads (Run p) s i j" by (auto simp: reads_simps)
  next
    assume "reads (Run p) s i j"
    then have "i < j" "j \<le> length s" "\<forall>k. i \<le> k \<and> k < j \<longrightarrow> p (s ! k)" by (auto simp: reads_simps)
    moreover from \<open>i < j\<close> obtain n where j: "j = i + Suc n" by (metis add_Suc_right less_imp_Suc_add)
    ultimately have "n < length (takeWhile p (drop i s))" unfolding takeWhile_run by auto
    with j show "j \<in> set (ends (Run p) s i)" by auto
  qed
qed (auto simp: reads_simps)

lemma search_reads: "search r s \<longleftrightarrow> (\<exists>i j. i \<le> length s \<and> reads r s i j)"
proof -
  have "ends r s i \<noteq> [] \<longleftrightarrow> (\<exists>j. reads r s i j)" for i
    using ends_reads [of _ r s i] by (metis empty_iff list.set(1) list.set_intros(1) neq_Nil_conv)
  moreover have "i \<in> set [0..<Suc (length s)] \<longleftrightarrow> i \<le> length s" for i by auto
  ultimately show ?thesis unfolding search_def list_ex_iff by blast
qed

definition note_allowed :: "dict option \<Rightarrow> string \<Rightarrow> bool" where
  "note_allowed scope note =
     (let normalized = normalize_authority_text note;
          key = (if search prohibition_rule normalized then ''prohibited_paths'' else ''allowed_paths'')
      in \<not> search implementation_requirement normalized \<and> \<not> selects_plan normalized \<and>
         (claims_scope normalized \<longrightarrow>
            fst (note_paths note) \<noteq> [] \<and> \<not> snd (note_paths note) \<and>
            map_option set (normalized_scope_paths scope key) = Some (set (fst (note_paths note)))))"

lemma validate_file_scope_claim_Inr:
  "validate_file_scope_claim note scope = Inr u \<longleftrightarrow>
    fst (note_paths note) \<noteq> [] \<and> \<not> snd (note_paths note) \<and>
    map_option set (normalized_scope_paths scope
      (if search prohibition_rule (normalize_authority_text note) then ''prohibited_paths'' else ''allowed_paths'')) =
      Some (set (fst (note_paths note)))"
  by (auto simp: validate_file_scope_claim_def Let_def split: prod.splits option.splits)

lemma check_notes_Inr:
  "check_notes scope selected ns = Inr u \<longleftrightarrow> \<not> selected \<and> (\<forall>n \<in> set ns. note_allowed scope n)"
proof (induction scope selected ns rule: check_notes.induct)
  case (2 scope selected n rest)
  show ?case
  proof (cases "claims_scope (normalize_authority_text n)")
    case True
    with 2 show ?thesis
      by (auto simp: note_allowed_def Let_def rbind_Inr_iff validate_file_scope_claim_Inr)
  next
    case False
    with 2 show ?thesis by (auto simp: note_allowed_def Let_def)
  qed
qed simp

lemma authority_Inr:
  "validate_manager_note_authority ns scope = Inr ns' \<longleftrightarrow> ns' = ns \<and> (\<forall>n \<in> set ns. note_allowed scope n)"
proof -
  have "validate_manager_note_authority ns scope = Inr ns' \<longleftrightarrow> ns' = ns \<and> check_notes scope False ns = Inr ()"
    by (cases "check_notes scope False ns") (auto simp: validate_manager_note_authority_def)
  then show ?thesis by (simp add: check_notes_Inr)
qed

end
