(* ===== verification/Manager_Call.thy ===== *)
theory Manager_Call
  imports Note_Authority
begin

text \<open>
  One call of the manager (\<^verbatim>\<open>_ManagerCallExecutor.run\<close> of \<^verbatim>\<open>aflow/workflow.py\<close>): what
  the controller makes of the process it launched, of its output, and of the one correction of a
  note it may ask for. The launched processes and the comparison of the repository before and after
  are the reply; the scopes of the notes are those of the proposed and of the retried plan.
\<close>

subsection \<open>Replies\<close>

record correction_reply =
  cr_drifted :: bool
  cr_blocked :: "string option"
  cr_returncode :: int
  cr_stdout :: string
  cr_mutated :: bool

record manager_reply =
  mr_prelaunch :: "string option"
  mr_blocked :: "string option"
  mr_returncode :: int
  mr_stdout :: string
  mr_mutated :: bool
  mr_correction :: correction_reply

record note_scopes =
  ns_proposed :: "dict option"
  ns_retry :: "dict option"

record call_outcome =
  co_decision :: "manager_decision option"
  co_error :: "string option"
  co_correction_consumed :: bool
  co_prelaunch :: bool

definition no_decision :: "string \<Rightarrow> call_outcome" where
  "no_decision e = \<lparr>co_decision = None, co_error = Some e, co_correction_consumed = False, co_prelaunch = False\<rparr>"

definition accepted :: "manager_decision \<Rightarrow> call_outcome" where
  "accepted d = \<lparr>co_decision = Some d, co_error = None, co_correction_consumed = False, co_prelaunch = False\<rparr>"

definition MUTATED :: string where
  "MUTATED = ''manager mutated repository or plan state''"

subsection \<open>Judging an output\<close>

definition RETRY_ACTIONS :: "string list" where
  "RETRY_ACTIONS = [''retry_current_step'', ''switch_to_backup_and_retry'']"

definition note_scope_of :: "note_scopes \<Rightarrow> string \<Rightarrow> dict option" where
  "note_scope_of scopes action =
     (if action \<in> set RETRY_ACTIONS
      then (if ns_retry scopes \<noteq> None then ns_retry scopes else ns_proposed scopes)
      else ns_proposed scopes)"

datatype call_failure =
    Call_Refused string
  | Call_Violates note_category string manager_decision
  | Call_Raises py_exn

definition checked_decision ::
  "(string \<Rightarrow> string + json) \<Rightarrow> string \<Rightarrow> string list \<Rightarrow> string \<Rightarrow> string \<Rightarrow> call_failure + manager_decision" where
  "checked_decision loads level eligible proposed stdout =
     map_sum (\<lambda>e. case e of Decision_Error m \<Rightarrow> Call_Refused m | Decision_Raised x \<Rightarrow> Call_Raises x) (\<lambda>d. d)
       (rbind (parse_manager_decision loads stdout)
          (validate_manager_decision (Some level) (Some eligible) (Some proposed)))"

definition judged_decision ::
  "(string \<Rightarrow> string + json) \<Rightarrow> note_scopes \<Rightarrow> string \<Rightarrow> string list \<Rightarrow> string \<Rightarrow> string \<Rightarrow> call_failure + manager_decision"
where
  "judged_decision loads scopes level eligible proposed stdout =
     rbind (checked_decision loads level eligible proposed stdout) (\<lambda>d.
       case validate_manager_note_authority (md_notes d) (note_scope_of scopes (md_action d)) of
         Inl (category, m) \<Rightarrow> Inl (Call_Violates category m d)
       | Inr ns \<Rightarrow> Inr d)"

definition exited :: "string \<Rightarrow> int \<Rightarrow> string" where
  "exited who rc = who @ '' exited with code '' @ int_str rc"

subsection \<open>The correction of a note\<close>

text \<open>Whether the correction ran, and what came of it.\<close>

definition correction_result ::
  "(string \<Rightarrow> string + json) \<Rightarrow> note_scopes \<Rightarrow> string \<Rightarrow> string list \<Rightarrow> string \<Rightarrow> manager_decision \<Rightarrow> correction_reply \<Rightarrow>
     call_failure + manager_decision" where
  "correction_result loads scopes level eligible proposed original reply =
     (if cr_returncode reply \<noteq> 0
      then Inl (Call_Refused (exited ''manager note correction harness'' (cr_returncode reply)))
      else rbind (judged_decision loads scopes level eligible proposed (cr_stdout reply)) (\<lambda>d.
             case validate_manager_note_correction original d of
               Inl (Decision_Error m) \<Rightarrow> Inl (Call_Refused m)
             | Inl (Decision_Raised x) \<Rightarrow> Inl (Call_Raises x)
             | Inr d \<Rightarrow>
                 if cr_mutated reply
                 then Inl (Call_Refused ''manager note correction mutated repository or plan state'') else Inr d))"

definition correct_note ::
  "(string \<Rightarrow> string + json) \<Rightarrow> note_scopes \<Rightarrow> string \<Rightarrow> string list \<Rightarrow> string \<Rightarrow> manager_decision \<Rightarrow> correction_reply \<Rightarrow>
     py_exn + call_outcome" where
  "correct_note loads scopes level eligible proposed original reply =
     (if cr_drifted reply
      then Inr (no_decision ''manager target plan identity or note scope drifted before correction'')
      else case cr_blocked reply of
        Some e \<Rightarrow> Inr (no_decision e)
      | None \<Rightarrow>
          (case correction_result loads scopes level eligible proposed original reply of
             Inl (Call_Raises x) \<Rightarrow> Inl x
           | Inl (Call_Refused m) \<Rightarrow> Inr (no_decision m\<lparr>co_correction_consumed := True\<rparr>)
           | Inl (Call_Violates c m d) \<Rightarrow> Inr (no_decision m\<lparr>co_correction_consumed := True\<rparr>)
           | Inr d \<Rightarrow> Inr (accepted d\<lparr>co_correction_consumed := True\<rparr>)))"

subsection \<open>The call\<close>

definition first_judgement ::
  "(string \<Rightarrow> string + json) \<Rightarrow> note_scopes \<Rightarrow> string \<Rightarrow> string list \<Rightarrow> string \<Rightarrow> manager_reply \<Rightarrow> call_failure + manager_decision"
where
  "first_judgement loads scopes level eligible proposed reply =
     (case mr_prelaunch reply of
        Some e \<Rightarrow> Inl (Call_Refused (if e = [] then ''manager context was unavailable before provider launch'' else e))
      | None \<Rightarrow>
          (case mr_blocked reply of
             Some e \<Rightarrow> Inl (Call_Refused e)
           | None \<Rightarrow>
               if mr_returncode reply \<noteq> 0 then Inl (Call_Refused (exited ''manager harness'' (mr_returncode reply)))
               else judged_decision loads scopes level eligible proposed (mr_stdout reply)))"

definition call_eligible :: "string \<Rightarrow> string list \<Rightarrow> string list" where
  "call_eligible level eligible = (if level = ''lite'' then ''escalate_to_full'' # eligible else eligible)"

definition manager_call ::
  "(string \<Rightarrow> string + json) \<Rightarrow> note_scopes \<Rightarrow> string \<Rightarrow> string list \<Rightarrow> string \<Rightarrow> manager_reply \<Rightarrow> py_exn + call_outcome"
where
  "manager_call loads scopes level eligible proposed reply =
     (let actions = call_eligible level eligible;
          first = first_judgement loads scopes level actions proposed reply;
          flagged = (\<lambda>out. out\<lparr>co_prelaunch := (mr_prelaunch reply \<noteq> None)\<rparr>)
      in case first of
           Inl (Call_Raises x) \<Rightarrow> Inl x
         | Inl (Call_Refused m) \<Rightarrow> Inr (flagged (no_decision (if mr_mutated reply then MUTATED else m)))
         | Inl (Call_Violates c m d) \<Rightarrow>
             if mr_mutated reply then Inr (flagged (no_decision MUTATED))
             else if correctable c
             then correct_note loads scopes level actions proposed d (mr_correction reply)
             else Inr (flagged (no_decision m))
         | Inr d \<Rightarrow> Inr (flagged (if mr_mutated reply then no_decision MUTATED else accepted d)))"

subsection \<open>Laws\<close>

text \<open>A decision the controller may act on.\<close>

definition decision_legal :: "note_scopes \<Rightarrow> string \<Rightarrow> string list \<Rightarrow> string \<Rightarrow> manager_decision \<Rightarrow> bool" where
  "decision_legal scopes level eligible proposed d =
     (decision_ok d \<and> md_action d \<in> set (call_eligible level eligible) \<and>
      (md_action d = ''escalate_to_full'' \<longrightarrow> level = ''lite'') \<and>
      (md_action d = ''repartition_current_checkpoint'' \<longrightarrow> level = ''full'') \<and>
      (md_action d = ''continue'' \<and> proposed = ''END'' \<longrightarrow> md_notes d = []) \<and>
      (\<forall>n \<in> set (md_notes d). note_allowed (note_scope_of scopes (md_action d)) n))"

lemma parse_manager_decision_ok: "parse_manager_decision loads t = Inr d \<Longrightarrow> decision_ok d"
  by (auto simp: parse_manager_decision_def split: sum.splits json.splits intro: parse_decision_object_ok)

lemma judged_decision_legal:
  assumes "judged_decision loads scopes level (call_eligible level eligible) proposed out = Inr d"
  shows "decision_legal scopes level eligible proposed d"
proof -
  let ?notes = "\<lambda>d. validate_manager_note_authority (md_notes d) (note_scope_of scopes (md_action d))"
  from assms obtain e where e: "checked_decision loads level (call_eligible level eligible) proposed out = Inr e"
    and n: "(case ?notes e of Inl (category, m) \<Rightarrow> Inl (Call_Violates category m e) | Inr ns \<Rightarrow> Inr e) = Inr d"
    by (auto simp: judged_decision_def rbind_Inr_iff)
  from n have "e = d \<and> (\<exists>ns. ?notes d = Inr ns)" by (cases "?notes e") auto
  with e obtain ns where c: "checked_decision loads level (call_eligible level eligible) proposed out = Inr d"
    and "?notes d = Inr ns" by blast
  then have a: "validate_manager_note_authority (md_notes d) (note_scope_of scopes (md_action d)) = Inr (md_notes d)"
    by (simp add: authority_Inr)
  from c obtain d' where p: "parse_manager_decision loads out = Inr d'"
    and v: "validate_manager_decision (Some level) (Some (call_eligible level eligible)) (Some proposed) d' = Inr d"
    by (auto simp: checked_decision_def rbind_Inr_iff map_sum_def split: sum.splits)
  note v' = validate_decision_Inr [OF v]
  from parse_manager_decision_ok [OF p] a v' show ?thesis
    unfolding decision_legal_def v'(1) authority_Inr by simp
qed

lemma correction_result_legal:
  assumes "correction_result loads scopes level (call_eligible level eligible) proposed original reply = Inr d"
  shows "decision_legal scopes level eligible proposed d" and "md_action d = md_action original"
    and "md_reason d = md_reason original" and "md_stop_report d = md_stop_report original"
    and "\<not> cr_mutated reply" and "cr_returncode reply = 0"
    and "judged_decision loads scopes level (call_eligible level eligible) proposed (cr_stdout reply) = Inr d"
proof -
  let ?fixed = "validate_manager_note_correction original"
  from assms obtain d' where "cr_returncode reply = 0"
    and j: "judged_decision loads scopes level (call_eligible level eligible) proposed (cr_stdout reply) = Inr d'"
    and f: "(case ?fixed d' of Inl (Decision_Error m) \<Rightarrow> Inl (Call_Refused m) | Inl (Decision_Raised x) \<Rightarrow> Inl (Call_Raises x)
      | Inr d \<Rightarrow> if cr_mutated reply then Inl (Call_Refused ''manager note correction mutated repository or plan state'')
          else Inr d) = Inr d"
    by (auto simp: correction_result_def rbind_Inr_iff split: if_split_asm)
  moreover from f have "?fixed d' = Inr d \<and> \<not> cr_mutated reply"
    by (cases "?fixed d'") (auto split: if_split_asm decision_error.split_asm)
  ultimately have c: "?fixed d' = Inr d" and "\<not> cr_mutated reply" "cr_returncode reply = 0" by auto
  then show "\<not> cr_mutated reply" and "cr_returncode reply = 0" by auto
  from c have "d' = d" "md_action d = md_action original" "md_reason d = md_reason original"
    "md_stop_report d = md_stop_report original"
    by (auto simp: validate_manager_note_correction_def Let_def split: if_splits)
  with judged_decision_legal [OF j] show "decision_legal scopes level eligible proposed d"
    "md_action d = md_action original" "md_reason d = md_reason original" "md_stop_report d = md_stop_report original"
    "judged_decision loads scopes level (call_eligible level eligible) proposed (cr_stdout reply) = Inr d"
    using j by auto
qed

text \<open>
  The first output is the decision itself, or a decision that a correction the manager was asked for has
  repaired in its notes alone.
\<close>

definition corrects ::
  "(string \<Rightarrow> string + json) \<Rightarrow> note_scopes \<Rightarrow> string \<Rightarrow> string list \<Rightarrow> string \<Rightarrow> manager_reply \<Rightarrow> manager_decision \<Rightarrow> bool"
where
  "corrects loads scopes level eligible proposed reply d \<longleftrightarrow>
     (\<exists>c m original. judged_decision loads scopes level (call_eligible level eligible) proposed (mr_stdout reply) =
          Inl (Call_Violates c m original) \<and> correctable c \<and>
        md_action d = md_action original \<and> md_reason d = md_reason original \<and>
        md_stop_report d = md_stop_report original) \<and>
     \<not> cr_drifted (mr_correction reply) \<and> cr_blocked (mr_correction reply) = None \<and>
     cr_returncode (mr_correction reply) = 0 \<and> \<not> cr_mutated (mr_correction reply) \<and>
     judged_decision loads scopes level (call_eligible level eligible) proposed (cr_stdout (mr_correction reply)) = Inr d"

lemma correct_note_accepts:
  assumes "correct_note loads scopes level actions proposed e reply = Inr out" and "co_decision out = Some d"
  shows "correction_result loads scopes level actions proposed e reply = Inr d"
    and "\<not> cr_drifted reply" and "cr_blocked reply = None" and "co_correction_consumed out"
  using assms by (auto simp: correct_note_def no_decision_def accepted_def
      split: if_splits option.splits sum.splits call_failure.splits)

lemma manager_call_outcome:
  assumes "manager_call loads scopes level eligible proposed reply = Inr out" and "co_decision out = Some d"
  shows "mr_prelaunch reply = None" and "mr_blocked reply = None" and "\<not> mr_mutated reply" and "mr_returncode reply = 0"
    and "if co_correction_consumed out then corrects loads scopes level eligible proposed reply d
      else judged_decision loads scopes level (call_eligible level eligible) proposed (mr_stdout reply) = Inr d"
proof -
  let ?first = "first_judgement loads scopes level (call_eligible level eligible) proposed reply"
  let ?judged = "judged_decision loads scopes level (call_eligible level eligible) proposed"
  have started: "mr_prelaunch reply = None \<and> mr_blocked reply = None \<and> mr_returncode reply = 0 \<and> ?judged (mr_stdout reply) = v"
    if "?first = v" "v = Inr x \<or> v = Inl (Call_Violates c m x)" for v x c m
    using that by (auto simp: first_judgement_def split: option.splits if_splits)
  from assms consider
      (direct) "?first = Inr d" "\<not> mr_mutated reply" "\<not> co_correction_consumed out"
    | (corrected) c m e where "?first = Inl (Call_Violates c m e)" "\<not> mr_mutated reply" "correctable c"
        "correct_note loads scopes level (call_eligible level eligible) proposed e (mr_correction reply) = Inr out"
    by (auto simp: manager_call_def Let_def no_decision_def accepted_def
        split: sum.splits call_failure.splits if_splits)
  then have "mr_prelaunch reply = None \<and> mr_blocked reply = None \<and> \<not> mr_mutated reply \<and> mr_returncode reply = 0 \<and>
    (if co_correction_consumed out then corrects loads scopes level eligible proposed reply d else ?judged (mr_stdout reply) = Inr d)"
  proof cases
    case direct
    with started [OF direct(1)] show ?thesis by auto
  next
    case corrected
    note st = started [OF corrected(1) disjI2 [OF refl]] and n = correct_note_accepts [OF corrected(4) assms(2)]
    from correction_result_legal(2-) [OF n(1)] st n corrected(2,3) show ?thesis by (auto simp: corrects_def)
  qed
  then show "mr_prelaunch reply = None" "mr_blocked reply = None" "\<not> mr_mutated reply" "mr_returncode reply = 0"
    "if co_correction_consumed out then corrects loads scopes level eligible proposed reply d
      else judged_decision loads scopes level (call_eligible level eligible) proposed (mr_stdout reply) = Inr d" by auto
qed

lemma manager_call_accepts:
  assumes "manager_call loads scopes level eligible proposed reply = Inr out" and "co_decision out = Some d"
  shows "\<not> mr_mutated reply" and "mr_returncode reply = 0" and "decision_legal scopes level eligible proposed d"
  using manager_call_outcome [OF assms] judged_decision_legal [of loads scopes level eligible proposed _ d]
  by (auto simp: corrects_def split: if_splits)

lemma legal_full: "decision_legal scopes ''full'' eligible proposed d \<Longrightarrow> md_action d \<in> set eligible \<and> md_action d \<noteq> ''escalate_to_full''"
  by (auto simp: decision_legal_def call_eligible_def)

lemma legal_lite:
  "decision_legal scopes ''lite'' eligible proposed d \<Longrightarrow> md_action d \<noteq> ''escalate_to_full'' \<Longrightarrow> md_action d \<in> set eligible"
  by (auto simp: decision_legal_def call_eligible_def)

end
