(* ===== verification/Repair_Policy.thy ===== *)
theory Repair_Policy
  imports Json Step_Runtime "HOL-Library.Product_Lexorder"
begin

text \<open>
  The repair policy of an implementation scope (\<^verbatim>\<open>aflow/manager.py\<close>,
  \<^verbatim>\<open>eligible_implementation_upgrade\<close> and \<^verbatim>\<open>determine_repair_upgrade_policy\<close>): which worker
  attempts were rejected, how many of the rejections count as failed repairs of the current team,
  and whether the next worker must move to the team it upgrades to. An attempt and a rejection are
  the mappings of the run state.
\<close>

subsection \<open>One upgrade edge\<close>

record eligible_upgrade =
  eu_available :: bool
  eu_source_team :: "string option"
  eu_target_team :: "string option"
  eu_role :: string
  eu_source_selector :: "string option"
  eu_target_selector :: "string option"
  eu_reason :: "string option"

definition refused_upgrade :: "string option \<Rightarrow> string option \<Rightarrow> string \<Rightarrow> string \<Rightarrow> eligible_upgrade" where
  "refused_upgrade source target role why =
     \<lparr>eu_available = False, eu_source_team = source, eu_target_team = target, eu_role = role,
      eu_source_selector = None, eu_target_selector = None, eu_reason = Some why\<rparr>"

text \<open>\<^verbatim>\<open>most_recent_implementation_team or baseline_team\<close>\<close>

definition recent_team :: "string option \<Rightarrow> string option \<Rightarrow> string option" where
  "recent_team recent baseline = (case recent of Some t \<Rightarrow> if t = [] then baseline else Some t | None \<Rightarrow> baseline)"

definition upgrade_between :: "user_config \<Rightarrow> string \<Rightarrow> string \<Rightarrow> string \<Rightarrow> eligible_upgrade" where
  "upgrade_between cfg role source target =
     (case rbind (resolve_manager_selector cfg (Some source) role) (\<lambda>s.
           rbind (resolve_manager_selector cfg (Some target) role) (\<lambda>t. Inr (s, t))) of
        Inl e \<Rightarrow> refused_upgrade (Some source) (Some target) role e
      | Inr (s, t) \<Rightarrow>
          \<lparr>eu_available = (s \<noteq> t), eu_source_team = Some source, eu_target_team = Some target, eu_role = role,
           eu_source_selector = Some s, eu_target_selector = Some t,
           eu_reason = (if s = t then Some ''upgrade target resolves to the same selector'' else None)\<rparr>)"

definition eligible_implementation_upgrade ::
  "user_config \<Rightarrow> string \<Rightarrow> string option \<Rightarrow> string option \<Rightarrow> bool \<Rightarrow> eligible_upgrade" where
  "eligible_implementation_upgrade cfg role baseline recent is_attempt =
     (let source = recent_team recent baseline in
      if \<not> is_attempt then refused_upgrade source None role ''next step is not an implementation attempt''
      else case source of
        None \<Rightarrow> refused_upgrade None None role ''baseline team is not configured''
      | Some s \<Rightarrow>
          (case map_of (uc_teams cfg) s of
             None \<Rightarrow> refused_upgrade source None role ''source team is not configured''
           | Some team \<Rightarrow>
               (case tm_upgrade team of
                  None \<Rightarrow> refused_upgrade source None role ''source team does not configure upgrade_to''
                | Some t \<Rightarrow>
                    if \<not> has (uc_teams cfg) t
                    then refused_upgrade source (Some t) role ''upgrade target is not configured''
                    else upgrade_between cfg role s t)))"

subsection \<open>Worker attempts\<close>

text \<open>An attempt with its place in the history, counted from one.\<close>

type_synonym entry = "nat \<times> dict"

fun nonblank_text :: "json \<Rightarrow> bool" where
  "nonblank_text (JStr s) = (strip s \<noteq> [])"
| "nonblank_text _ = False"

definition worker_attempt :: "dict \<Rightarrow> bool" where
  "worker_attempt a =
     (dget a ''role'' = JStr ''worker'' \<and> is_plain_int (dget a ''turn_number'') \<and>
      nonblank_text (dget a ''team'') \<and> nonblank_text (dget a ''selector''))"

definition positive_int :: "json \<Rightarrow> bool" where
  "positive_int v = (is_plain_int v \<and> int_of v > 0)"

definition attempt_chronology :: "entry \<Rightarrow> int \<times> nat" where
  "attempt_chronology e =
     (let n = dget (snd e) ''attempt_ordinal''
      in (if positive_int n then int_of n else int (fst e), fst e))"

definition worker_attempts :: "dict list \<Rightarrow> entry list" where
  "worker_attempts attempts =
     sort_key attempt_chronology (filter (\<lambda>e. worker_attempt (snd e)) (enumerate 1 attempts))"

text \<open>\<^verbatim>\<open>groups.setdefault(key, []).append(entry)\<close>, for the entries that have a key.\<close>

definition add_to_group :: "int \<Rightarrow> entry \<Rightarrow> (int \<times> entry list) list \<Rightarrow> (int \<times> entry list) list" where
  "add_to_group k e groups =
     (case map_of groups k of
        None \<Rightarrow> groups @ [(k, [e])] | Some es \<Rightarrow> AList.update k (es @ [e]) groups)"

definition group_entries :: "(entry \<Rightarrow> int option) \<Rightarrow> entry list \<Rightarrow> (int \<times> entry list) list" where
  "group_entries key es =
     foldl (\<lambda>groups e. case key e of None \<Rightarrow> groups | Some k \<Rightarrow> add_to_group k e groups) [] es"

definition turn_of :: "entry \<Rightarrow> int option" where
  "turn_of e = Some (int_of (dget (snd e) ''turn_number''))"

definition ordinal_of :: "entry \<Rightarrow> int option" where
  "ordinal_of e =
     (let n = dget (snd e) ''attempt_ordinal'' in if positive_int n then Some (int_of n) else None)"

definition members :: "(int \<times> entry list) list \<Rightarrow> int \<Rightarrow> entry list" where
  "members groups k = (case map_of groups k of None \<Rightarrow> [] | Some es \<Rightarrow> es)"

subsection \<open>Rejections\<close>

definition review_candidates :: "entry list \<Rightarrow> dict \<Rightarrow> entry list option" where
  "review_candidates workers r =
     (let ordinal = dget r ''reviewed_attempt_ordinal'';
          reviewed = int_of (dget r ''reviewed_implementation_turn_number'')
      in if ordinal \<noteq> JNull
         then (if positive_int ordinal then Some (members (group_entries ordinal_of workers) (int_of ordinal)) else None)
         else if int_of (dget r ''review_turn_number'') \<le> reviewed then None
         else Some (members (group_entries turn_of workers) reviewed))"

text \<open>The one attempt a rejection of the scope identifies.\<close>

definition reviewed_entry :: "string \<Rightarrow> entry list \<Rightarrow> dict \<Rightarrow> entry option" where
  "reviewed_entry scope workers r =
     (if dget r ''scope_id'' \<noteq> JStr scope then None
      else if \<not> (is_plain_int (dget r ''rejection_number'') \<and> is_plain_int (dget r ''review_turn_number'') \<and>
                 is_plain_int (dget r ''reviewed_implementation_turn_number'')) then None
      else case review_candidates workers r of
        Some [e] \<Rightarrow>
          if dget (snd e) ''turn_number'' \<noteq> dget r ''reviewed_implementation_turn_number'' \<or>
             dget r ''reviewed_worker_team'' \<noteq> dget (snd e) ''team'' \<or>
             dget r ''reviewed_worker_selector'' \<noteq> dget (snd e) ''selector''
          then None else Some e
      | _ \<Rightarrow> None)"

definition rejection_identity :: "dict \<Rightarrow> int \<times> int" where
  "rejection_identity r = (int_of (dget r ''rejection_number''), int_of (dget r ''review_turn_number''))"

text \<open>The latest rejection of each attempt, by the attempt's place in the history.\<close>

type_synonym rejected = "(nat \<times> (dict \<times> entry)) list"

definition keep_rejection :: "string \<Rightarrow> entry list \<Rightarrow> rejected \<Rightarrow> dict \<Rightarrow> rejected" where
  "keep_rejection scope workers kept r =
     (case reviewed_entry scope workers r of
        None \<Rightarrow> kept
      | Some e \<Rightarrow>
          (case map_of kept (fst e) of
             None \<Rightarrow> AList.update (fst e) (r, e) kept
           | Some (prior, _) \<Rightarrow>
               if rejection_identity prior < rejection_identity r
               then AList.update (fst e) (r, e) kept else kept))"

definition valid_rejections :: "string \<Rightarrow> entry list \<Rightarrow> dict list \<Rightarrow> (dict \<times> entry) list" where
  "valid_rejections scope workers rejections =
     sort_key (\<lambda>(r, _). rejection_identity r)
       (map snd (foldl (keep_rejection scope workers) [] rejections))"

text \<open>The attempts that ran after an attempt with an earlier rejection.\<close>

fun repair_identities :: "(int \<times> nat) list \<Rightarrow> (dict \<times> entry) list \<Rightarrow> nat list" where
  "repair_identities priors [] = []"
| "repair_identities priors ((r, e) # rest) =
     (let c = attempt_chronology e
      in (if list_ex (\<lambda>p. p < c) priors then [fst e] else []) @ repair_identities (priors @ [c]) rest)"

definition team_repairs :: "(dict \<times> entry) list \<Rightarrow> json \<Rightarrow> nat" where
  "team_repairs valid current =
     length (filter (\<lambda>(r, e). fst e \<in> set (repair_identities [] valid) \<and> dget (snd e) ''team'' = current) valid)"

subsection \<open>The policy\<close>

record repair_policy =
  up_active :: bool
  up_threshold :: int
  up_scope_id :: "string option"
  up_current_team :: "string option"
  up_repair_ordinal :: "nat option"
  up_repairs_completed :: nat
  up_due :: bool
  up_forced :: bool
  up_eligible :: eligible_upgrade
  up_reason :: string
  up_latest_rejection :: "int option"

definition no_boundary :: string where
  "no_boundary = ''no authoritative rejected worker boundary in active scope''"

definition inactive_policy :: "int \<Rightarrow> string \<Rightarrow> string option \<Rightarrow> string option \<Rightarrow> repair_policy" where
  "inactive_policy threshold role baseline scope =
     \<lparr>up_active = False, up_threshold = threshold, up_scope_id = scope, up_current_team = None,
      up_repair_ordinal = None, up_repairs_completed = 0, up_due = False, up_forced = False,
      up_eligible = refused_upgrade baseline None role no_boundary, up_reason = no_boundary,
      up_latest_rejection = None\<rparr>"

definition policy_reason :: "int \<Rightarrow> nat \<Rightarrow> string \<Rightarrow> eligible_upgrade \<Rightarrow> string" where
  "policy_reason threshold repairs team eligible =
     (if int repairs < threshold
      then ''repair threshold not due: '' @ nat_str repairs @ ''/'' @ int_str threshold @
           '' failed repairs on team '' @ (if team = [] then ''<unassigned>'' else team)
      else ''repair threshold reached after '' @ nat_str repairs @ '' failed repairs on team '' @
           (if team = [] then ''<unassigned>'' else team) @
           (if eu_available eligible then ''; the next worker must use the one-hop upgrade''
            else '', but no distinct upgrade is available: '' @
                 (case eu_reason eligible of None \<Rightarrow> ''unavailable'' | Some w \<Rightarrow> if w = [] then ''unavailable'' else w)))"

definition active_policy ::
  "user_config \<Rightarrow> int \<Rightarrow> string \<Rightarrow> string option \<Rightarrow> string \<Rightarrow> (dict \<times> entry) list \<Rightarrow> dict \<Rightarrow> repair_policy" where
  "active_policy cfg threshold role baseline scope valid latest_attempt =
     (let current = dget latest_attempt ''team'';
          repairs = team_repairs valid current;
          eligible = eligible_implementation_upgrade cfg role baseline
            (if is_str current then Some (str_of current) else None) True
      in \<lparr>up_active = True, up_threshold = threshold, up_scope_id = Some scope,
          up_current_team = (if is_str current then Some (str_of current) else None),
          up_repair_ordinal = Some (length valid), up_repairs_completed = repairs,
          up_due = (int repairs \<ge> threshold), up_forced = (int repairs \<ge> threshold \<and> eu_available eligible),
          up_eligible = eligible,
          up_reason = policy_reason threshold repairs (str_of current) eligible,
          up_latest_rejection = Some (int_of (dget (fst (last valid)) ''rejection_number''))\<rparr>)"

definition determine_repair_upgrade_policy ::
  "user_config \<Rightarrow> json \<Rightarrow> string \<Rightarrow> string option \<Rightarrow> string option \<Rightarrow> dict list \<Rightarrow> dict list \<Rightarrow> string + repair_policy"
where
  "determine_repair_upgrade_policy cfg threshold role baseline scope_id attempts rejections =
     (if \<not> (is_plain_int threshold \<and> int_of threshold \<ge> 0)
      then Inl ''repair upgrade threshold must be a nonnegative integer''
      else let t = int_of threshold; inactive = inactive_policy t role baseline scope_id in
        if role \<noteq> ''worker'' then Inr inactive
        else case scope_id of
          None \<Rightarrow> Inr inactive
        | Some scope \<Rightarrow>
            let workers = worker_attempts attempts; valid = valid_rejections scope workers rejections in
            if workers = [] \<or> valid = [] then Inr inactive
            else if fst (snd (last valid)) \<noteq> fst (last workers) then Inr inactive
            else Inr (active_policy cfg t role baseline scope valid (snd (last workers))))"

end
