(* ===== verification/Implementation_Scopes.thy ===== *)
theory Implementation_Scopes
  imports Plan_Parser Repair_Policy
begin

text \<open>
  The routing state a run keeps for one checkpoint (\<^verbatim>\<open>aflow/run_state.py\<close>,
  \<^verbatim>\<open>aflow/workflow.py\<close>): the active implementation scope, the worker attempts and the review
  rejections of each scope, what is pending for the next step, and the functions that open, advance
  and close a scope, allocate attempt numbers and bind a repair to its rejection. The files of the
  checkout are a map from paths to texts.
\<close>

subsection \<open>Records\<close>

type_synonym partition_identity = "string option \<times> string option \<times> string option"

record impl_scope =
  is_id :: string
  is_plan :: string
  is_index :: "int option"
  is_name :: "string option"
  is_opened :: int
  is_awaiting :: bool
  is_carried :: int
  is_partition :: partition_identity

record impl_attempt =
  at_turn :: int
  at_step :: string
  at_role :: string
  at_team :: "string option"
  at_selector :: "string option"
  at_outcome :: string
  at_decision :: "int option"
  at_repair :: "int option"
  at_team_repairs :: "int option"
  at_ordinal :: "int option"

record rejection =
  rj_scope :: string
  rj_number :: int
  rj_run :: string
  rj_review_turn :: int
  rj_review_step :: string
  rj_reviewer :: "string option"
  rj_index :: "int option"
  rj_name :: "string option"
  rj_turn :: int
  rj_team :: "string option"
  rj_selector :: "string option"
  rj_summary :: string
  rj_repair_summary :: "string option"
  rj_stdout :: string
  rj_repair_path :: "string option"
  rj_ordinal :: "int option"

record pending_notes =
  pn_target_step :: string
  pn_texts :: "string list"
  pn_number :: int
  pn_role :: "string option"
  pn_selector :: "string option"
  pn_checkpoint :: "string option"
  pn_scope :: "string option"
  pn_target_plan :: "string option"
  pn_partition :: partition_identity
  pn_consumed :: bool

record pending_override =
  pt_target_step :: string
  pt_role :: string
  pt_source_team :: "string option"
  pt_target_team :: string
  pt_selector :: string
  pt_checkpoint :: "string option"
  pt_number :: int
  pt_scope :: "string option"
  pt_target_plan :: "string option"
  pt_partition :: partition_identity
  pt_repair :: "int option"
  pt_team_repairs :: "int option"
  pt_consumed :: bool

record pending_decision =
  pd_turn :: int
  pd_number :: int
  pd_action :: string
  pd_transition :: string
  pd_next_step :: string
  pd_role :: "string option"
  pd_team :: "string option"
  pd_selector :: "string option"
  pd_checkpoint :: string
  pd_scope :: "string option"
  pd_plan_path :: string
  pd_notes :: "string option"
  pd_partition :: partition_identity
  pd_applied :: bool
  pd_consumed :: bool

record routing_state =
  rs_scope :: "impl_scope option"
  rs_attempts :: "impl_attempt list dictionary"
  rs_rejections :: "rejection list"
  rs_notes :: "pending_notes option"
  rs_override :: "pending_override option"
  rs_decision :: "pending_decision option"
  rs_rejection_count :: int
  rs_stalls :: int
  rs_streak_step :: "string option"
  rs_streak :: int
  rs_team_override :: "string option"
  rs_decision_number :: int
  rs_pressure :: "string option"
  rs_repartition :: bool

definition attempts_of :: "routing_state \<Rightarrow> string \<Rightarrow> impl_attempt list" where
  "attempts_of st scope = (case map_of (rs_attempts st) scope of None \<Rightarrow> [] | Some as \<Rightarrow> as)"

subsection \<open>The checkpoint a scope belongs to\<close>

definition checkpoint_suffix :: "plan_snapshot option \<Rightarrow> string" where
  "checkpoint_suffix snap =
     (case snap of
        None \<Rightarrow> ''checkpoint-complete''
      | Some s \<Rightarrow>
          (case current_checkpoint_index s of
             None \<Rightarrow> ''checkpoint-complete'' | Some i \<Rightarrow> ''checkpoint-'' @ int_str i))"

definition loaded_snapshot :: "(string \<Rightarrow> string option) \<Rightarrow> string \<Rightarrow> plan_snapshot option" where
  "loaded_snapshot files path =
     (case load_plan_tolerant path (files path) of
        Inl e \<Rightarrow> None | Inr r \<Rightarrow> Some (plan_snap (tolerant_plan r)))"

definition target_plan_identity :: "(string \<Rightarrow> string option) \<Rightarrow> string \<Rightarrow> string" where
  "target_plan_identity files path = path @ ''::'' @ checkpoint_suffix (loaded_snapshot files path)"

definition slug_char :: "char \<Rightarrow> bool" where
  "slug_char c = ((97 \<le> code c \<and> code c \<le> 122) \<or> is_digit c)"

function dash_runs :: "string \<Rightarrow> string" where
  "dash_runs [] = []"
| "dash_runs (c # cs) =
     (if slug_char c then c # dash_runs cs
      else CHR ''-'' # dash_runs (dropWhile (\<lambda>d. \<not> slug_char d) cs))"
  by pat_completeness auto
termination
  by (relation "measure length") (auto simp: length_dropWhile_le le_imp_less_Suc)

definition strip_dashes :: "string \<Rightarrow> string" where
  "strip_dashes s = (let d = (\<lambda>c. c = CHR ''-'') in rev (dropWhile d (rev (dropWhile d s))))"

definition normalized_checkpoint_name :: "string option \<Rightarrow> string" where
  "normalized_checkpoint_name name =
     (let base = (case name of None \<Rightarrow> ''unnamed'' | Some n \<Rightarrow> if n = [] then ''unnamed'' else n);
          slug = strip_dashes (dash_runs (casefold base))
      in if slug = [] then ''unnamed'' else slug)"

definition optional_int :: "int option \<Rightarrow> string" where
  "optional_int v = (case v of None \<Rightarrow> ''None'' | Some i \<Rightarrow> int_str i)"

definition open_implementation_scope ::
  "routing_state \<Rightarrow> string \<Rightarrow> plan_snapshot \<Rightarrow> int \<Rightarrow> impl_scope \<times> bool" where
  "open_implementation_scope st path snap turn =
     (case rs_scope st of
        Some s \<Rightarrow> (s, False)
      | None \<Rightarrow>
          (\<lparr>is_id = path @ ''::checkpoint-'' @ optional_int (current_checkpoint_index snap) @ ''::'' @
              normalized_checkpoint_name (current_checkpoint_name snap),
            is_plan = path, is_index = current_checkpoint_index snap, is_name = current_checkpoint_name snap,
            is_opened = turn, is_awaiting = False, is_carried = 0, is_partition = (None, None, None)\<rparr>, True))"

definition original_checkpoint_advanced :: "impl_scope \<Rightarrow> plan_snapshot \<Rightarrow> bool" where
  "original_checkpoint_advanced scope snap =
     (is_complete snap \<or>
      (case (is_index scope, current_checkpoint_index snap) of (Some i, Some j) \<Rightarrow> j > i | _ \<Rightarrow> False))"

definition plan_snapshot_made_progress :: "plan_snapshot \<Rightarrow> plan_snapshot \<Rightarrow> bool" where
  "plan_snapshot_made_progress prior after =
     ((\<not> is_complete prior \<and> is_complete after) \<or>
      (case (current_checkpoint_index prior, current_checkpoint_index after) of
         (Some i, Some j) \<Rightarrow> j > i | _ \<Rightarrow> False) \<or>
      (current_checkpoint_index prior = current_checkpoint_index after \<and>
       current_checkpoint_name prior = current_checkpoint_name after \<and>
       current_checkpoint_unchecked_step_count after < current_checkpoint_unchecked_step_count prior))"

definition close_implementation_scope :: "routing_state \<Rightarrow> routing_state" where
  "close_implementation_scope st =
     st\<lparr>rs_scope := None, rs_notes := None, rs_override := None, rs_decision := None, rs_rejection_count := 0\<rparr>"

subsection \<open>Rejections\<close>

definition cumulative_id :: "string \<Rightarrow> string" where
  "cumulative_id path = path @ ''::cumulative-review''"

definition same_reviewed_attempt :: "rejection \<Rightarrow> rejection \<Rightarrow> bool" where
  "same_reviewed_attempt a b = (rj_scope a = rj_scope b \<and> rj_ordinal a = rj_ordinal b \<and> rj_turn a = rj_turn b)"

definition append_replayed_review_rejection :: "routing_state \<Rightarrow> rejection \<Rightarrow> routing_state \<times> bool" where
  "append_replayed_review_rejection st r =
     (if rj_index r = None \<and> ends_with (rj_scope r) ''::cumulative-review'' \<and>
         list_ex (\<lambda>i. same_reviewed_attempt i r) (rs_rejections st)
      then (st, False)
      else if list_ex (\<lambda>i. same_reviewed_attempt i r \<and> rj_number i = rj_number r \<and> rj_review_turn i = rj_review_turn r)
                (rs_rejections st)
      then (st, False)
      else (st\<lparr>rs_rejections := rs_rejections st @ [r]\<rparr>, True))"

text \<open>\<^verbatim>\<open>not isinstance(value, int) or value < 1\<close>, and the ordinals strictly increase.\<close>

definition ordinals_ok :: "impl_attempt list \<Rightarrow> bool" where
  "ordinals_ok as =
     (list_all (\<lambda>a. case at_ordinal a of None \<Rightarrow> False | Some n \<Rightarrow> n \<ge> 1) as \<and>
      sorted_wrt (<) (map (\<lambda>a. the (at_ordinal a)) as))"

definition nonempty :: "string option \<Rightarrow> bool" where
  "nonempty v = (v \<noteq> None \<and> v \<noteq> Some [])"

definition final_checkpoint_rows :: "routing_state \<Rightarrow> string \<Rightarrow> plan_snapshot \<Rightarrow> (string \<times> impl_attempt list) list" where
  "final_checkpoint_rows st path completed =
     filter (\<lambda>(k, rows). starts_with k (path @ ''::checkpoint-'' @ int_str (total_checkpoint_count completed) @ ''::'') \<and>
       rows \<noteq> []) (rs_attempts st)"

definition review_rows :: "routing_state \<Rightarrow> string \<Rightarrow> plan_snapshot \<Rightarrow> impl_attempt list option" where
  "review_rows st path completed =
     (if attempts_of st (cumulative_id path) \<noteq> [] then Some (attempts_of st (cumulative_id path))
      else case final_checkpoint_rows st path completed of [kr] \<Rightarrow> Some (snd kr) | _ \<Rightarrow> None)"

definition cumulative_review_attempt ::
  "routing_state \<Rightarrow> string \<Rightarrow> plan_snapshot \<Rightarrow> (string \<times> impl_attempt) option" where
  "cumulative_review_attempt st path completed =
     (case review_rows st path completed of
        None \<Rightarrow> None
      | Some rows \<Rightarrow>
          if ordinals_ok rows \<and> at_role (last rows) = ''worker'' \<and> at_outcome (last rows) = ''accepted'' \<and>
             nonempty (at_team (last rows)) \<and> nonempty (at_selector (last rows))
          then Some (cumulative_id path, last rows) else None)"

subsection \<open>Binding a repair\<close>

text \<open>A managed worktree: the primary and the execution checkout.\<close>

record worktree =
  wt_primary :: string
  wt_execution :: string

definition relative_to :: "string \<Rightarrow> string \<Rightarrow> string option" where
  "relative_to path root = (if path = root then Some ''.'' else strip_prefix (root @ ''/'') path)"

definition join_path :: "string \<Rightarrow> string \<Rightarrow> string" where
  "join_path root p = (if starts_with p ''/'' then p else root @ ''/'' @ p)"

definition exec_plan_path :: "(string \<Rightarrow> string) \<Rightarrow> worktree option \<Rightarrow> string \<Rightarrow> string" where
  "exec_plan_path realpath ctx path =
     (case ctx of
        None \<Rightarrow> path
      | Some w \<Rightarrow>
          (case relative_to (realpath path) (realpath (wt_primary w)) of
             None \<Rightarrow> path | Some rel \<Rightarrow> join_path (wt_execution w) rel))"

definition repair_evidence_ok :: "rejection \<Rightarrow> bool" where
  "repair_evidence_ok r =
     (rj_review_step r = ''final_review'' \<and> rj_index r = None \<and> nonempty (rj_reviewer r))"

definition reviewed_attempts :: "rejection \<Rightarrow> impl_attempt list \<Rightarrow> impl_attempt list" where
  "reviewed_attempts r as =
     filter (\<lambda>a. at_ordinal a = rj_ordinal r \<and> at_turn a = rj_turn r \<and> at_team a = rj_team r \<and>
       at_selector a = rj_selector r \<and> at_outcome a = ''accepted'') as"

definition cumulative_repair_scope_id ::
  "(string \<Rightarrow> string option) \<Rightarrow> (string \<Rightarrow> string) \<Rightarrow> worktree option \<Rightarrow> string \<Rightarrow> routing_state \<Rightarrow>
     string \<Rightarrow> string \<Rightarrow> string + string option" where
  "cumulative_repair_scope_id files realpath ctx repo_root st original target =
     (let scope = cumulative_id original;
          rejections = filter (\<lambda>r. rj_scope r = scope) (rs_rejections st);
          latest = filter (\<lambda>r. rj_number r = max_default 0 (map rj_number rejections)) rejections;
          attempts = attempts_of st scope
      in if rejections = [] then Inr None
         else case latest of
           [r] \<Rightarrow>
             (case rj_repair_path r of
                None \<Rightarrow> Inl ''ambiguous cumulative repair rejection evidence''
              | Some rel \<Rightarrow>
                  if realpath (join_path repo_root rel) \<noteq> realpath target then Inr None
                  else if \<not> repair_evidence_ok r then Inl ''invalid cumulative final-review boundary evidence''
                  else (case load_plan original (files original) of
                    Inl e \<Rightarrow> Inl ''cannot validate cumulative repair original plan''
                  | Inr plan \<Rightarrow>
                      if \<not> is_complete (plan_snap plan) \<or> files (exec_plan_path realpath ctx target) = None
                      then Inl ''cumulative repair target is missing or original plan changed''
                      else if attempts = [] \<or> \<not> ordinals_ok attempts \<or> list_ex (\<lambda>a. at_role a \<noteq> ''worker'') attempts \<or>
                              length (reviewed_attempts r attempts) \<noteq> 1 \<or> total_checkpoint_count (plan_snap plan) < 1
                      then Inl ''ambiguous cumulative repair worker attribution''
                      else Inr (Some scope)))
         | _ \<Rightarrow> Inl ''ambiguous cumulative repair rejection evidence'')"

subsection \<open>Pending work\<close>

text \<open>\<^verbatim>\<open>a or b\<close> for texts that may be missing\<close>

definition first_text :: "string option \<Rightarrow> string option \<Rightarrow> string option" where
  "first_text a b = (if nonempty a then a else b)"

fun partition_texts :: "partition_identity \<Rightarrow> string option list" where
  "partition_texts (a, b, c) = [a, b, c]"

definition scope_partition :: "routing_state \<Rightarrow> partition_identity" where
  "scope_partition st = (case rs_scope st of None \<Rightarrow> (None, None, None) | Some s \<Rightarrow> is_partition s)"

definition pending_matches_scope_and_plan ::
  "string option \<Rightarrow> string option \<Rightarrow> string option \<Rightarrow> partition_identity \<Rightarrow> routing_state \<Rightarrow> string \<Rightarrow> bool" where
  "pending_matches_scope_and_plan scope target_plan checkpoint part st identity =
     (let active = map_option is_id (rs_scope st);
          target = first_text target_plan checkpoint;
          current = scope_partition st
      in (scope = None \<or> scope = active) \<and> (target = None \<or> target = Some identity) \<and>
         (\<not> list_ex (\<lambda>v. v \<noteq> None) (partition_texts current @ partition_texts part) \<or>
          (list_all (\<lambda>v. v \<noteq> None) (partition_texts part) \<and> part = current)))"

definition override_matches :: "pending_override \<Rightarrow> routing_state \<Rightarrow> string \<Rightarrow> bool" where
  "override_matches p st identity =
     pending_matches_scope_and_plan (pt_scope p) (pt_target_plan p) (pt_checkpoint p) (pt_partition p) st identity"

subsection \<open>Attempt numbers and upgrades\<close>

definition next_implementation_attempt_ordinal :: "impl_attempt list \<Rightarrow> int" where
  "next_implementation_attempt_ordinal as =
     max_default 0 (int (length as) # filter (\<lambda>n. n > 0) (List.map_filter at_ordinal as)) + 1"

text \<open>The walk along the upgrade edges; it ends when a team repeats.\<close>

function upgrade_depth_from :: "team_config dictionary \<Rightarrow> string \<Rightarrow> string list \<Rightarrow> nat \<Rightarrow> string \<Rightarrow> nat option" where
  "upgrade_depth_from teams goal seen depth current =
     (if current = goal then Some depth
      else if current \<in> set seen then None
      else case map_of teams current of
        None \<Rightarrow> None
      | Some t \<Rightarrow>
          (case tm_upgrade t of
             None \<Rightarrow> None | Some u \<Rightarrow> upgrade_depth_from teams goal (current # seen) (Suc depth) u))"
  by pat_completeness auto
termination
proof (relation "measure (\<lambda>(teams, goal, seen, depth, current). card (fst ` set teams - set seen))", goal_cases)
  case (2 teams goal seen depth current t u)
  then have "current \<in> fst ` set teams - set seen" by (force dest: map_of_SomeD)
  then have "fst ` set teams - set (current # seen) \<subset> fst ` set teams - set seen" by auto
  then have "card (fst ` set teams - set (current # seen)) < card (fst ` set teams - set seen)"
    by (intro psubset_card_mono) auto
  then show ?case by simp
qed simp

declare upgrade_depth_from.simps [simp del]

definition implementation_upgrade_depth :: "user_config \<Rightarrow> string option \<Rightarrow> string option \<Rightarrow> nat option" where
  "implementation_upgrade_depth cfg baseline recent =
     (case (baseline, recent) of
        (Some b, Some r) \<Rightarrow> upgrade_depth_from (uc_teams cfg) r [] 0 b
      | _ \<Rightarrow> if baseline = recent then Some 0 else None)"

end
