(* ===== verification/Manager_Gate.thy ===== *)
theory Manager_Gate
  imports Manager_Call Implementation_Scopes
begin

text \<open>
  The manager gate of a turn (\<^verbatim>\<open>_ManagerGateCoordinator.run\<close> of
  \<^verbatim>\<open>aflow/workflow.py\<close>): the transition a step proposed is accepted, replaced by a retry or
  refused, and the team of the next worker is put down before it starts. The controller's signals,
  the state of the scope's envelope and the manager's two possible replies are inputs of the turn.
\<close>

subsection \<open>Inputs and results\<close>

record gate_env =
  ge_files :: "string \<Rightarrow> string option"
  ge_realpath :: "string \<Rightarrow> string"
  ge_worktree :: "worktree option"
  ge_repo_root :: string
  ge_sha :: "string \<Rightarrow> string"
  ge_loads :: "string \<Rightarrow> string + json"
  ge_config :: user_config
  ge_workflow_name :: string
  ge_workflow :: workflow_config

record gate_turn =
  gt_proposed :: string
  gt_step :: string
  gt_role :: string
  gt_active_team :: "string option"
  gt_baseline :: "string option"
  gt_post_plan :: string
  gt_original :: string
  gt_active_plan :: string
  gt_trigger :: string
  gt_action :: string
  gt_retryable :: bool
  gt_operational :: bool
  gt_backup_team :: "string option"
  gt_pressure :: "string option"
  gt_number :: int
  gt_signals :: "boundary_state option"
  gt_envelope_error :: "string option"
  gt_drift_allowed :: bool
  gt_scopes :: note_scopes
  gt_replies :: "manager_reply \<times> manager_reply"

datatype gate_exit =
    Gate_Failed string
  | Gate_Stopped manager_decision
  | Gate_Raised py_exn
  | Gate_Repartition "(string \<times> (string \<times> string)) list"

type_synonym 'a gate = "gate_exit + 'a"

definition gate_of :: "string + 'a \<Rightarrow> 'a gate" where
  "gate_of r = map_sum Gate_Failed (\<lambda>x. x) r"

definition enabled :: "gate_env \<Rightarrow> bool" where
  "enabled env = (wf_manager_enabled (ge_workflow env) = Some True)"

definition next_step_of :: "string \<Rightarrow> string option" where
  "next_step_of t = (if t = ''END'' then None else Some t)"

definition step_named :: "gate_env \<Rightarrow> string option \<Rightarrow> step_config option" where
  "step_named env name = (case name of None \<Rightarrow> None | Some n \<Rightarrow> map_of (wf_steps (ge_workflow env)) n)"

definition is_worker :: "step_config option \<Rightarrow> bool" where
  "is_worker s = (case s of None \<Rightarrow> False | Some w \<Rightarrow> ws_role w = ''worker'')"

definition candidate :: "gate_env \<Rightarrow> gate_turn \<Rightarrow> step_config option" where
  "candidate env turn = step_named env (next_step_of (gt_proposed turn))"

definition candidate_role :: "gate_env \<Rightarrow> gate_turn \<Rightarrow> string" where
  "candidate_role env turn = (case candidate env turn of None \<Rightarrow> gt_role turn | Some s \<Rightarrow> ws_role s)"

definition proposed_plan :: "gate_turn \<Rightarrow> string" where
  "proposed_plan turn = (if gt_proposed turn = gt_step turn then gt_active_plan turn else gt_post_plan turn)"

subsection \<open>The evidence of the scope\<close>

text \<open>\<^verbatim>\<open>asdict\<close> of an attempt and of a rejection.\<close>

definition attempt_dict :: "impl_attempt \<Rightarrow> dict" where
  "attempt_dict a =
     [(''turn_number'', JInt (at_turn a)), (''step_name'', JStr (at_step a)), (''role'', JStr (at_role a)),
      (''team'', opt_json JStr (at_team a)), (''selector'', opt_json JStr (at_selector a)),
      (''outcome'', JStr (at_outcome a)), (''manager_decision_number'', opt_json JInt (at_decision a)),
      (''repair_ordinal'', opt_json JInt (at_repair a)),
      (''team_repairs_completed'', opt_json JInt (at_team_repairs a)), (''attempt_ordinal'', opt_json JInt (at_ordinal a))]"

definition rejection_dict :: "rejection \<Rightarrow> dict" where
  "rejection_dict r =
     [(''scope_id'', JStr (rj_scope r)), (''rejection_number'', JInt (rj_number r)), (''source_run_id'', JStr (rj_run r)),
      (''review_turn_number'', JInt (rj_review_turn r)), (''review_step_name'', JStr (rj_review_step r)),
      (''reviewer_selector'', opt_json JStr (rj_reviewer r)), (''checkpoint_index'', opt_json JInt (rj_index r)),
      (''checkpoint_name'', opt_json JStr (rj_name r)), (''reviewed_implementation_turn_number'', JInt (rj_turn r)),
      (''reviewed_worker_team'', opt_json JStr (rj_team r)), (''reviewed_worker_selector'', opt_json JStr (rj_selector r)),
      (''review_summary'', JStr (rj_summary r)), (''repair_plan_summary'', opt_json JStr (rj_repair_summary r)),
      (''review_stdout_artifact_path'', JStr (rj_stdout r)), (''repair_plan_path'', opt_json JStr (rj_repair_path r)),
      (''reviewed_attempt_ordinal'', opt_json JInt (rj_ordinal r))]"

definition routing_scope :: "gate_env \<Rightarrow> gate_turn \<Rightarrow> routing_state \<Rightarrow> string + string option" where
  "routing_scope env turn st =
     (case rs_scope st of
        Some s \<Rightarrow> Inr (Some (is_id s))
      | None \<Rightarrow>
          if is_worker (candidate env turn)
          then cumulative_repair_scope_id (ge_files env) (ge_realpath env) (ge_worktree env) (ge_repo_root env) st
                 (gt_original turn) (proposed_plan turn)
          else Inr None)"

definition scope_attempts :: "routing_state \<Rightarrow> string option \<Rightarrow> impl_attempt list" where
  "scope_attempts st scope = (case scope of None \<Rightarrow> [] | Some s \<Rightarrow> attempts_of st s)"

definition recent_of :: "impl_attempt list \<Rightarrow> string option" where
  "recent_of as = (if as = [] then None else at_team (last as))"

definition repair_policy_of :: "gate_env \<Rightarrow> gate_turn \<Rightarrow> routing_state \<Rightarrow> string option \<Rightarrow> string + repair_policy" where
  "repair_policy_of env turn st scope =
     determine_repair_upgrade_policy (ge_config env) (JInt (wf_upgrade_after_repairs (ge_workflow env)))
       (candidate_role env turn) (gt_baseline turn) scope (map attempt_dict (scope_attempts st scope))
       (map rejection_dict (rs_rejections st))"

text \<open>A due upgrade of a cumulative repair that no distinct selector can serve.\<close>

definition unlaunchable :: "gate_env \<Rightarrow> routing_state \<Rightarrow> string option \<Rightarrow> repair_policy \<Rightarrow> bool" where
  "unlaunchable env st scope p =
     (rs_scope st = None \<and> scope \<noteq> None \<and> up_active p \<and> up_due p \<and> \<not> eu_available (up_eligible p) \<and>
      (case up_current_team p of
         None \<Rightarrow> False
       | Some team \<Rightarrow>
           (case map_of (uc_teams (ge_config env)) team of None \<Rightarrow> False | Some t \<Rightarrow> tm_upgrade t \<noteq> None)))"

definition require_pressure_scope :: "gate_turn \<Rightarrow> routing_state \<Rightarrow> string + unit" where
  "require_pressure_scope turn st =
     (if rs_scope st = None
      then Inl ''AFLOW_SCOPE_PRESSURE requires an active implementation scope with a validated immutable envelope; no active implementation scope is open''
      else case gt_envelope_error turn of
        Some e \<Rightarrow> Inl (''AFLOW_SCOPE_PRESSURE requires an active implementation scope with a validated immutable envelope: '' @ e)
      | None \<Rightarrow> Inr ())"

definition with_pressure :: "gate_turn \<Rightarrow> routing_state \<Rightarrow> string + routing_state" where
  "with_pressure turn st =
     (if gt_pressure turn = None then Inr st
      else rbind (require_pressure_scope turn st) (\<lambda>_. Inr (st\<lparr>rs_pressure := gt_pressure turn\<rparr>)))"

subsection \<open>Without a manager\<close>

definition resolved_selector :: "gate_env \<Rightarrow> string \<Rightarrow> step_config \<Rightarrow> string option \<Rightarrow> string + string" where
  "resolved_selector env name step team =
     rbind (resolve_step_runtime (ge_sha env) (ge_config env)
         (''workflow.'' @ ge_workflow_name env @ ''.steps.'' @ name) None None None team step) (\<lambda>(s, p). Inr s)"

definition repair_number :: "routing_state \<Rightarrow> string option \<Rightarrow> repair_policy \<Rightarrow> int option" where
  "repair_number st scope p =
     (if up_active p then map_option int (up_repair_ordinal p)
      else Some (max_default 0 (map rj_number (filter (\<lambda>r. Some (rj_scope r) = scope) (rs_rejections st)))))"

definition unmanaged_override ::
  "gate_env \<Rightarrow> gate_turn \<Rightarrow> routing_state \<Rightarrow> string option \<Rightarrow> repair_policy \<Rightarrow> step_config \<Rightarrow> string + pending_override"
where
  "unmanaged_override env turn st scope p step =
     (let attempts = scope_attempts st scope;
          current = (if nonempty (up_current_team p) then up_current_team p else recent_of attempts);
          target = (if up_forced p then eu_target_team (up_eligible p) else current);
          identity = target_plan_identity (ge_files env) (proposed_plan turn)
      in rbind (case (if up_forced p then eu_target_selector (up_eligible p) else None) of
                  Some s \<Rightarrow> Inr s | None \<Rightarrow> resolved_selector env (gt_proposed turn) step target) (\<lambda>selector.
           Inr \<lparr>pt_target_step = gt_proposed turn, pt_role = ws_role step, pt_source_team = current,
             pt_target_team = (case target of None \<Rightarrow> ''None'' | Some t \<Rightarrow> t), pt_selector = selector,
             pt_checkpoint = Some identity, pt_number = rs_decision_number st,
             pt_scope = map_option is_id (rs_scope st), pt_target_plan = Some identity, pt_partition = (None, None, None),
             pt_repair = repair_number st scope p,
             pt_team_repairs = (if up_active p then Some (int (up_repairs_completed p)) else at_team_repairs (last attempts)),
             pt_consumed = False\<rparr>))"

definition unmanaged_gate ::
  "gate_env \<Rightarrow> gate_turn \<Rightarrow> routing_state \<Rightarrow> string option \<Rightarrow> repair_policy \<Rightarrow> (string \<times> routing_state) gate" where
  "unmanaged_gate env turn st scope p =
     (case candidate env turn of
        Some step \<Rightarrow>
          if ws_role step = ''worker'' \<and>
             (up_active p \<or> (rs_scope st = None \<and> scope \<noteq> None \<and> recent_of (scope_attempts st scope) \<noteq> None))
          then rbind (gate_of (unmanaged_override env turn st scope p step)) (\<lambda>o'.
                 Inr (gt_proposed turn, st\<lparr>rs_override := Some o'\<rparr>))
          else Inr (gt_proposed turn, st)
      | None \<Rightarrow> Inr (gt_proposed turn, st))"

subsection \<open>What the manager may do\<close>

definition retrying :: "gate_env \<Rightarrow> gate_turn \<Rightarrow> routing_state \<Rightarrow> string option \<Rightarrow> bool" where
  "retrying env turn st scope = (scope \<noteq> None \<and> scope_attempts st scope \<noteq> [] \<and> is_worker (candidate env turn))"

definition offered_upgrade :: "gate_env \<Rightarrow> gate_turn \<Rightarrow> routing_state \<Rightarrow> string option \<Rightarrow> eligible_upgrade" where
  "offered_upgrade env turn st scope =
     (let r = retrying env turn st scope;
          u = eligible_implementation_upgrade (ge_config env) (candidate_role env turn) (gt_baseline turn)
                (recent_of (scope_attempts st scope)) r
      in if is_worker (candidate env turn) \<and> \<not> r
         then u\<lparr>eu_reason := Some ''next worker has no prior attempt in an active implementation scope''\<rparr> else u)"

text \<open>The steps that may follow a repartition, by what they would do with the first part.\<close>

definition disposition_of :: "string option \<times> step_config option \<Rightarrow> (string \<times> (string \<times> string)) list" where
  "disposition_of ns =
     (case ns of
        (name, Some step) \<Rightarrow>
          if ws_role step = ''worker''
          then [(''implement_current_partition'', (case name of None \<Rightarrow> ''None'' | Some n \<Rightarrow> n), ws_role step)]
          else if ws_role step = ''reviewer''
          then [(''review_current_partition'', (case name of None \<Rightarrow> ''None'' | Some n \<Rightarrow> n), ws_role step)] else []
      | (name, None) \<Rightarrow> [])"

definition add_missing :: "(string \<times> 'v) list \<Rightarrow> (string \<times> 'v) list \<Rightarrow> (string \<times> 'v) list" where
  "add_missing d e = d @ filter (\<lambda>kv. \<not> has d (fst kv)) e"

definition disposition_targets :: "gate_env \<Rightarrow> gate_turn \<Rightarrow> (string \<times> (string \<times> string)) list" where
  "disposition_targets env turn =
     add_missing (disposition_of (next_step_of (gt_proposed turn), candidate env turn))
       (disposition_of (Some (gt_step turn), step_named env (Some (gt_step turn))))"

definition may_repartition :: "gate_env \<Rightarrow> gate_turn \<Rightarrow> routing_state \<Rightarrow> bool" where
  "may_repartition env turn st =
     ((case rs_scope st of None \<Rightarrow> False | Some s \<Rightarrow> is_index s \<noteq> None \<and> is_name s \<noteq> None) \<and>
      \<not> rs_repartition st \<and> disposition_targets env turn \<noteq> [] \<and>
      gt_envelope_error turn = None \<and> gt_drift_allowed turn)"

definition base_eligible :: "gate_env \<Rightarrow> gate_turn \<Rightarrow> routing_state \<Rightarrow> string option \<Rightarrow> string list" where
  "base_eligible env turn st scope =
     [''continue'', ''stop''] @
     (if gt_retryable turn then [''retry_current_step''] else []) @
     (if gt_operational turn \<and> gt_backup_team turn \<noteq> None \<and> gt_backup_team turn \<noteq> gt_active_team turn
      then [''switch_to_backup_and_retry''] else []) @
     (if eu_available (offered_upgrade env turn st scope) then [''upgrade_next_implementation''] else []) @
     (if may_repartition env turn st then [''repartition_current_checkpoint''] else [])"

definition clean_end :: "gate_turn \<Rightarrow> bool" where
  "clean_end turn =
     (gt_action turn = ''transition'' \<and> gt_proposed turn = ''END'' \<and> \<not> gt_operational turn \<and>
      gt_pressure turn = None \<and> gt_trigger turn \<noteq> ''max_turns'')"

definition lite_eligible :: "gate_turn \<Rightarrow> string list \<Rightarrow> string list" where
  "lite_eligible turn base = (if clean_end turn then removeAll ''stop'' base else base)"

subsection \<open>Calling the manager\<close>

definition call_level :: "gate_env \<Rightarrow> gate_turn \<Rightarrow> string" where
  "call_level env turn =
     manager_level_for_boundary (mc_stalled_turns (uc_manager (ge_config env))) (Some (gt_trigger turn)) (gt_signals turn)"

definition ask :: "gate_env \<Rightarrow> gate_turn \<Rightarrow> string \<Rightarrow> string list \<Rightarrow> manager_reply \<Rightarrow> call_outcome gate" where
  "ask env turn level eligible reply =
     map_sum Gate_Raised (\<lambda>out. out) (manager_call (ge_loads env) (gt_scopes turn) level eligible (gt_proposed turn) reply)"

definition wants_full :: "string \<Rightarrow> call_outcome \<Rightarrow> bool" where
  "wants_full level out =
     (case co_decision out of
        None \<Rightarrow> level = ''lite'' \<and> \<not> co_correction_consumed out \<and> \<not> co_prelaunch out \<and> co_error out \<noteq> Some MUTATED
      | Some d \<Rightarrow> md_action d = ''escalate_to_full'')"

definition with_signals :: "boundary_state option \<Rightarrow> routing_state \<Rightarrow> routing_state" where
  "with_signals signals st =
     (case signals of
        None \<Rightarrow> st
      | Some c \<Rightarrow> st\<lparr>rs_stalls := bs_semantic_stalls c, rs_rejection_count := bs_reviewer_rejections c\<rparr>)"

definition bump :: "routing_state \<Rightarrow> routing_state" where
  "bump st = st\<lparr>rs_decision_number := rs_decision_number st + 1\<rparr>"

text \<open>At most two calls: a Lite manager that escalates or gives no decision is followed by Full.\<close>

definition consult :: "gate_env \<Rightarrow> gate_turn \<Rightarrow> routing_state \<Rightarrow> string list \<Rightarrow> (manager_decision \<times> routing_state) gate" where
  "consult env turn st base =
     (let level = call_level env turn; (first, second) = gt_replies turn;
          decided = (\<lambda>out st. case co_decision out of
            None \<Rightarrow> Inl (Gate_Failed (case co_error out of
                       None \<Rightarrow> ''manager did not return a valid decision''
                     | Some e \<Rightarrow> if e = [] then ''manager did not return a valid decision'' else e))
          | Some d \<Rightarrow> Inr (d, st))
      in rbind (ask env turn level (if level = ''full'' then base else lite_eligible turn base) first) (\<lambda>out.
           if wants_full level out
           then rbind (ask env turn ''full'' base second) (\<lambda>out. decided out (bump (bump st)))
           else decided out (bump st)))"

subsection \<open>Acting on a decision\<close>

record route =
  ro_target_step :: string
  ro_plan :: string
  ro_forced :: bool
  ro_retain :: bool
  ro_upgrade :: eligible_upgrade
  ro_team :: "string option"
  ro_selector :: "string option"

definition target_config :: "gate_env \<Rightarrow> string \<Rightarrow> step_config option" where
  "target_config env step = step_named env (next_step_of step)"

definition route_of ::
  "gate_env \<Rightarrow> gate_turn \<Rightarrow> routing_state \<Rightarrow> string option \<Rightarrow> repair_policy \<Rightarrow> manager_decision \<Rightarrow> route" where
  "route_of env turn st scope p d =
     (let action = md_action d;
          target = (if action \<in> set RETRY_ACTIONS then gt_step turn else gt_proposed turn);
          step = target_config env target;
          recent = recent_of (scope_attempts st scope);
          retain = (action = ''continue'' \<and> retrying env turn st scope \<and> recent \<noteq> None);
          forced = (action = ''continue'' \<and> up_forced p \<and> is_worker step);
          upgrade = (if forced then up_eligible p else offered_upgrade env turn st scope);
          upgrading = (action = ''upgrade_next_implementation'' \<or> forced);
          team = (if upgrading then eu_target_team upgrade else if retain then recent else None);
          chosen = (if upgrading then eu_target_selector upgrade else None);
          resolution = (if action = ''switch_to_backup_and_retry'' then gt_backup_team turn
                        else if action = ''retry_current_step'' then gt_active_team turn
                        else if team \<noteq> None then team else gt_baseline turn)
      in \<lparr>ro_target_step = target,
          ro_plan = (if target = gt_step turn then gt_active_plan turn else gt_post_plan turn),
          ro_forced = forced, ro_retain = retain, ro_upgrade = upgrade, ro_team = team,
          ro_selector =
            (case (step, chosen) of
               (Some s, None) \<Rightarrow>
                 (case resolved_selector env target s resolution of Inl e \<Rightarrow> None | Inr sel \<Rightarrow> Some sel)
             | _ \<Rightarrow> chosen)\<rparr>)"

definition decision_name :: "int \<Rightarrow> string" where
  "decision_name n =
     (let s = int_str n in ''manager/decision-'' @ replicate (3 - length s) (CHR ''0'') @ s)"

definition boundary_decision ::
  "gate_env \<Rightarrow> gate_turn \<Rightarrow> routing_state \<Rightarrow> manager_decision \<Rightarrow> route \<Rightarrow> pending_decision" where
  "boundary_decision env turn st d r =
     \<lparr>pd_turn = gt_number turn, pd_number = rs_decision_number st, pd_action = md_action d,
      pd_transition = gt_proposed turn, pd_next_step = ro_target_step r,
      pd_role = map_option ws_role (target_config env (ro_target_step r)), pd_team = ro_team r,
      pd_selector = ro_selector r, pd_checkpoint = target_plan_identity (ge_files env) (ro_plan r),
      pd_scope = map_option is_id (rs_scope st), pd_plan_path = ro_plan r,
      pd_notes = (if md_notes d = [] then None else Some (decision_name (rs_decision_number st))),
      pd_partition = scope_partition st, pd_applied = False, pd_consumed = False\<rparr>"

definition notes_for ::
  "gate_env \<Rightarrow> routing_state \<Rightarrow> manager_decision \<Rightarrow> route \<Rightarrow> pending_notes" where
  "notes_for env st d r =
     \<lparr>pn_target_step = ro_target_step r, pn_texts = md_notes d, pn_number = rs_decision_number st,
      pn_role = map_option ws_role (target_config env (ro_target_step r)), pn_selector = ro_selector r,
      pn_checkpoint = Some (target_plan_identity (ge_files env) (ro_plan r)),
      pn_scope = map_option is_id (rs_scope st),
      pn_target_plan = Some (target_plan_identity (ge_files env) (ro_plan r)), pn_partition = scope_partition st,
      pn_consumed = False\<rparr>"

definition record_decision ::
  "gate_env \<Rightarrow> gate_turn \<Rightarrow> routing_state \<Rightarrow> manager_decision \<Rightarrow> route \<Rightarrow> routing_state" where
  "record_decision env turn st d r =
     (let st' = st\<lparr>rs_decision := Some (boundary_decision env turn st d r)\<rparr>
      in if md_notes d \<noteq> [] \<and> ro_target_step r \<noteq> ''END''
         then st'\<lparr>rs_notes := Some (notes_for env st d r)\<rparr> else st')"

definition resolve_backup_team :: "string option \<Rightarrow> team_config dictionary \<Rightarrow> string + string" where
  "resolve_backup_team current teams =
     (case current of
        None \<Rightarrow> Inl ''no workflow team is configured for this run''
      | Some c \<Rightarrow>
          (case map_of teams c of
             None \<Rightarrow> Inl (''team '' @ quoted c @ '' is not defined'')
           | Some t \<Rightarrow>
               (case tm_backup t of
                  None \<Rightarrow> Inl (''team '' @ quoted c @ '' does not configure a backup_team'')
                | Some b \<Rightarrow>
                    if \<not> has teams b then Inl (''team '' @ quoted c @ '' backup_team '' @ quoted b @ '' is not defined'')
                    else if b = c then Inl (''team '' @ quoted c @ '' backup_team points to itself'') else Inr b)))"

definition managed_override ::
  "gate_env \<Rightarrow> gate_turn \<Rightarrow> routing_state \<Rightarrow> repair_policy \<Rightarrow> route \<Rightarrow> step_config \<Rightarrow> string option \<Rightarrow> string \<Rightarrow> string \<Rightarrow>
     pending_override" where
  "managed_override env turn st p r step source team selector =
     (let identity = target_plan_identity (ge_files env) (ro_plan r) in
      \<lparr>pt_target_step = gt_proposed turn, pt_role = ws_role step, pt_source_team = source, pt_target_team = team,
       pt_selector = selector, pt_checkpoint = Some identity, pt_number = rs_decision_number st,
       pt_scope = map_option is_id (rs_scope st), pt_target_plan = Some identity, pt_partition = scope_partition st,
       pt_repair = (if up_active p then map_option int (up_repair_ordinal p) else None),
       pt_team_repairs = (if up_active p then Some (int (up_repairs_completed p)) else None), pt_consumed = False\<rparr>)"

definition apply_decision ::
  "gate_env \<Rightarrow> gate_turn \<Rightarrow> routing_state \<Rightarrow> string option \<Rightarrow> repair_policy \<Rightarrow> manager_decision \<Rightarrow>
     (string \<times> routing_state) gate" where
  "apply_decision env turn st scope p d =
     (let r = route_of env turn st scope p d; st' = record_decision env turn st d r; action = md_action d in
      if action = ''stop'' then Inl (Gate_Stopped d)
      else if action = ''repartition_current_checkpoint'' then Inl (Gate_Repartition (disposition_targets env turn))
      else if action = ''retry_current_step'' then Inr (gt_step turn, st')
      else if action = ''switch_to_backup_and_retry''
      then (case resolve_backup_team (gt_active_team turn) (uc_teams (ge_config env)) of
              Inl e \<Rightarrow> Inl (Gate_Failed ''manager selected unavailable backup-team retry'')
            | Inr b \<Rightarrow> Inr (gt_step turn, st'\<lparr>rs_team_override := Some b\<rparr>))
      else if action = ''upgrade_next_implementation'' \<or> ro_forced r
      then (case (candidate env turn, eu_available (ro_upgrade r), eu_target_team (ro_upgrade r), eu_target_selector (ro_upgrade r)) of
              (Some step, True, Some team, Some selector) \<Rightarrow>
                Inr (gt_proposed turn, st'\<lparr>rs_override := Some (managed_override env turn st p r step
                  (eu_source_team (ro_upgrade r)) team selector)\<rparr>)
            | _ \<Rightarrow> Inl (Gate_Failed ''manager selected unavailable implementation upgrade''))
      else (case (ro_retain r, candidate env turn, ro_team r, ro_selector r) of
              (True, Some step, Some team, Some selector) \<Rightarrow>
                Inr (gt_proposed turn, st'\<lparr>rs_override := Some (managed_override env turn st p r step (Some team) team selector)\<rparr>)
            | _ \<Rightarrow> Inr (gt_proposed turn, st')))"

subsection \<open>The gate\<close>

definition pressure_refused :: "string \<Rightarrow> string" where
  "pressure_refused reason =
     ''AFLOW_SCOPE_PRESSURE detected ('' @ quoted reason @
     '') but manager supervision is disabled; scope-pressure rerouting requires an enabled manager''"

definition unlaunchable_text :: "repair_policy \<Rightarrow> string" where
  "unlaunchable_text p =
     ''required cumulative repair upgrade has no distinct launchable selector: '' @
     (case eu_reason (up_eligible p) of None \<Rightarrow> ''None'' | Some w \<Rightarrow> w)"

text \<open>The routing scope and the repair policy of a boundary, or the error that ends the run.\<close>

definition gate_evidence :: "gate_env \<Rightarrow> gate_turn \<Rightarrow> routing_state \<Rightarrow> string + string option \<times> repair_policy" where
  "gate_evidence env turn st =
     (if gt_pressure turn \<noteq> None \<and> \<not> enabled env then Inl (pressure_refused (the (gt_pressure turn)))
      else rbind (routing_scope env turn st) (\<lambda>scope.
           rbind (repair_policy_of env turn st scope) (\<lambda>p.
             if unlaunchable env st scope p then Inl (unlaunchable_text p) else Inr (scope, p))))"

definition manager_gate :: "gate_env \<Rightarrow> gate_turn \<Rightarrow> routing_state \<Rightarrow> (string \<times> routing_state) gate" where
  "manager_gate env turn st =
     rbind (gate_of (gate_evidence env turn st)) (\<lambda>(scope, p).
     rbind (gate_of (with_pressure turn st)) (\<lambda>st.
       if \<not> enabled env then unmanaged_gate env turn st scope p
       else rbind (consult env turn (with_signals (gt_signals turn) st) (base_eligible env turn st scope)) (\<lambda>(d, st').
              apply_decision env turn st' scope p d)))"

end
