(* ===== verification/Turn_Routing.thy ===== *)
theory Turn_Routing
  imports Manager_Gate Conditions
begin

text \<open>
  The two ends of a turn of the workflow engine (\<^verbatim>\<open>_run_workflow_unchecked\<close> of
  \<^verbatim>\<open>aflow/workflow.py\<close>): what is routed before the harness starts, and what its result does
  to the scope, the evidence, the streak of one step and the transition. What the harness left
  behind (the plan afterwards, the follow-up plan, the outputs) is an observation of the turn.
\<close>

subsection \<open>Before the harness\<close>

record turn_input =
  ti_step :: string
  ti_number :: int
  ti_original :: string
  ti_active :: string
  ti_baseline :: "string option"
  ti_team :: "string option"
  ti_role_selectors :: "string dictionary"
  ti_envelope_error :: "string option"

record turn_start =
  tn_scope :: "string option"
  tn_team :: "string option"
  tn_selector :: string
  tn_profile :: resolved_profile
  tn_ordinal :: "int option"
  tn_repair :: "int option"
  tn_team_repairs :: "int option"
  tn_consume :: bool

text \<open>The override as \<^verbatim>\<open>resolve_role_selector\<close> reads it.\<close>

definition as_team_override :: "pending_override \<Rightarrow> team_override" where
  "as_team_override o' =
     \<lparr>po_target_step = pt_target_step o', po_role = pt_role o', po_selector = pt_selector o', po_consumed = pt_consumed o'\<rparr>"

definition open_scope_for_turn :: "turn_input \<Rightarrow> plan_snapshot \<Rightarrow> string \<Rightarrow> routing_state \<Rightarrow> string + routing_state" where
  "open_scope_for_turn inp snap role st =
     (if role = ''worker'' \<and> \<not> is_complete snap
      then (let (scope, opened) = open_implementation_scope st (ti_original inp) snap (ti_number inp)
            in case ti_envelope_error inp of Some e \<Rightarrow> Inl e | None \<Rightarrow> Inr (st\<lparr>rs_scope := Some scope\<rparr>))
      else Inr st)"

definition override_due :: "gate_env \<Rightarrow> turn_input \<Rightarrow> string \<Rightarrow> routing_state \<Rightarrow> pending_override option" where
  "override_due env inp role st =
     (case rs_override st of
        None \<Rightarrow> None
      | Some o' \<Rightarrow>
          if \<not> pt_consumed o' \<and> pt_target_step o' = ti_step inp \<and> pt_role o' = role \<and>
             override_matches o' st (target_plan_identity (ge_files env) (ti_active inp))
          then Some o' else None)"

definition prelaunch_policy :: "gate_env \<Rightarrow> turn_input \<Rightarrow> routing_state \<Rightarrow> string option \<Rightarrow> string + repair_policy" where
  "prelaunch_policy env inp st scope =
     determine_repair_upgrade_policy (ge_config env) (JInt (wf_upgrade_after_repairs (ge_workflow env))) ''worker''
       (ti_baseline inp) scope (map attempt_dict (scope_attempts st scope)) (map rejection_dict (rs_rejections st))"

text \<open>The repair numbers an attempt is recorded with.\<close>

definition attempt_numbers ::
  "gate_env \<Rightarrow> turn_input \<Rightarrow> string \<Rightarrow> routing_state \<Rightarrow> string option \<Rightarrow> pending_override option \<Rightarrow>
     string + int option \<times> int option" where
  "attempt_numbers env inp role st scope due =
     (let given = (case due of None \<Rightarrow> (None, None) | Some o' \<Rightarrow> (pt_repair o', pt_team_repairs o'))
      in if role = ''worker'' \<and> scope \<noteq> None \<and> fst given = None
         then rbind (prelaunch_policy env inp st scope) (\<lambda>p.
                Inr (if up_active p then (map_option int (up_repair_ordinal p), Some (int (up_repairs_completed p)))
                     else (Some 0, Some 0)))
         else Inr given)"

definition plan_error_text :: "plan_exn \<Rightarrow> string" where
  "plan_error_text e = (case e of PlanParseError p \<Rightarrow> pe_message p | PlanValueError m \<Rightarrow> m)"

definition begin_turn :: "gate_env \<Rightarrow> turn_input \<Rightarrow> routing_state \<Rightarrow> string + turn_start \<times> routing_state" where
  "begin_turn env inp st =
     (case load_plan (ti_original inp) (ge_files env (ti_original inp)) of
        Inl e \<Rightarrow> Inl (plan_error_text e)
      | Inr plan \<Rightarrow>
          (case map_of (wf_steps (ge_workflow env)) (ti_step inp) of
             None \<Rightarrow> Inl (''unknown step '' @ quoted (ti_step inp))
           | Some step \<Rightarrow>
               rbind (if ws_role step = ''worker'' \<and> rs_scope st = None
                      then cumulative_repair_scope_id (ge_files env) (ge_realpath env) (ge_worktree env) (ge_repo_root env)
                             st (ti_original inp) (ti_active inp)
                      else Inr None) (\<lambda>cumulative.
               rbind (open_scope_for_turn inp (plan_snap plan) (ws_role step) st) (\<lambda>st.
                 let due = override_due env inp (ws_role step) st;
                     team = (case due of
                               Some o' \<Rightarrow> Some (pt_target_team o')
                             | None \<Rightarrow> if rs_team_override st \<noteq> None then rs_team_override st else ti_team inp);
                     scope = (case rs_scope st of Some s \<Rightarrow> Some (is_id s) | None \<Rightarrow> cumulative)
                 in rbind (attempt_numbers env inp (ws_role step) st scope due) (\<lambda>(repair, team_repairs).
                    rbind (resolve_step_runtime (ge_sha env) (ge_config env)
                        (''workflow.'' @ ge_workflow_name env @ ''.steps.'' @ ti_step inp) (Some (ti_step inp))
                        (Some (ti_role_selectors inp)) (map_option as_team_override due) team step) (\<lambda>(selector, profile).
                      Inr (\<lparr>tn_scope = scope, tn_team = team, tn_selector = selector, tn_profile = profile,
                        tn_ordinal = (if ws_role step = ''worker'' \<and> scope \<noteq> None
                                      then Some (next_implementation_attempt_ordinal (scope_attempts st scope)) else None),
                        tn_repair = repair, tn_team_repairs = team_repairs, tn_consume = (due \<noteq> None)\<rparr>, st)))))))"

subsection \<open>After the harness\<close>

record turn_end =
  te_max :: int
  te_live :: bool
  te_before :: plan_snapshot
  te_after :: plan_snapshot
  te_new_path :: string
  te_new_plan :: bool
  te_overlay :: bool
  te_resumed_review :: bool
  te_run_id :: string
  te_review_summary :: string
  te_repair_summary :: "string option"
  te_stdout_path :: string
  te_repair_path :: "string option"
  te_pressure :: "string option"
  te_signals :: "boundary_state option"
  te_gate_error :: "string option"
  te_drift_allowed :: bool
  te_scopes :: note_scopes
  te_replies :: "manager_reply \<times> manager_reply"

datatype turn_exit = Turn_Failed string | Turn_Gate gate_exit

datatype turn_result =
    Turn_Continues string string routing_state
  | Turn_Ends string bool routing_state

definition turn_failing :: "string + 'a \<Rightarrow> turn_exit + 'a" where
  "turn_failing r = map_sum Turn_Failed (\<lambda>x. x) r"

definition active_after :: "turn_input \<Rightarrow> turn_end \<Rightarrow> string" where
  "active_after inp e = (if te_new_plan e then te_new_path e else ti_active inp)"

definition limit_reached :: "turn_input \<Rightarrow> turn_end \<Rightarrow> bool" where
  "limit_reached inp e = (ti_number inp \<ge> te_max e)"

definition turn_valuation :: "turn_input \<Rightarrow> turn_end \<Rightarrow> valuation" where
  "turn_valuation inp e =
     \<lparr>v_done = is_complete (te_after e), v_new_plan = te_new_plan e, v_max_turns = limit_reached inp e\<rparr>"

text \<open>An END that only the turn limit selects.\<close>

definition limit_terminal :: "turn_input \<Rightarrow> turn_end \<Rightarrow> go_transition \<Rightarrow> string + bool" where
  "limit_terminal inp e t =
     (if go_to t = ''END'' \<and> te_live e \<and> limit_reached inp e
      then (case go_when t of
              None \<Rightarrow> Inr False
            | Some w \<Rightarrow> map_sum (\<lambda>m. m) (\<lambda>b. \<not> b) (evaluate_condition ((turn_valuation inp e)\<lparr>v_max_turns := False\<rparr>) w))
      else Inr False)"

definition select_next_active_plan_path ::
  "gate_env \<Rightarrow> string \<Rightarrow> string \<Rightarrow> string \<Rightarrow> bool \<Rightarrow> go_transition \<Rightarrow> string + string" where
  "select_next_active_plan_path env original active new_path new_exists t =
     (if new_exists then Inr new_path
      else if go_preserve t
      then (let copy = exec_plan_path (ge_realpath env) (ge_worktree env) active
            in if ge_files env copy = None
               then Inl (''cannot preserve active plan for transition to '' @ quoted (go_to t) @
                      '': active plan does not exist in the execution checkout: '' @ copy)
               else Inr active)
      else Inr original)"

subsection \<open>Review rejections\<close>

definition scoped_rejection :: "gate_env \<Rightarrow> turn_input \<Rightarrow> turn_end \<Rightarrow> step_config \<Rightarrow> go_transition \<Rightarrow> routing_state \<Rightarrow> bool" where
  "scoped_rejection env inp e step t st =
     (case rs_scope st of
        None \<Rightarrow> False
      | Some s \<Rightarrow>
          is_awaiting s \<and> ws_role step = ''reviewer'' \<and>
          (\<not> is_complete (te_after e) \<or> te_overlay e \<or> te_resumed_review e) \<and>
          te_new_plan e \<and> te_before e = te_after e \<and> is_worker (target_config env (go_to t)))"

definition cumulative_rejection :: "gate_env \<Rightarrow> turn_input \<Rightarrow> turn_end \<Rightarrow> step_config \<Rightarrow> go_transition \<Rightarrow> routing_state \<Rightarrow> bool" where
  "cumulative_rejection env inp e step t st =
     (ti_step inp = ''final_review'' \<and> ws_role step \<in> {''architect'', ''final_reviewer''} \<and> rs_scope st = None \<and>
      is_complete (te_after e) \<and> te_overlay e \<and> te_new_plan e \<and> te_before e = te_after e \<and>
      is_worker (target_config env (go_to t)))"

definition new_rejection ::
  "turn_input \<Rightarrow> turn_end \<Rightarrow> turn_start \<Rightarrow> routing_state \<Rightarrow> string \<Rightarrow> impl_scope option \<Rightarrow> impl_attempt \<Rightarrow> rejection" where
  "new_rejection inp e start st scope_id scope a =
     \<lparr>rj_scope = scope_id,
      rj_number = max_default 0 (map rj_number (filter (\<lambda>r. rj_scope r = scope_id) (rs_rejections st))) + 1,
      rj_run = te_run_id e, rj_review_turn = ti_number inp, rj_review_step = ti_step inp,
      rj_reviewer = Some (tn_selector start), rj_index = (case scope of None \<Rightarrow> None | Some s \<Rightarrow> is_index s),
      rj_name = (case scope of None \<Rightarrow> None | Some s \<Rightarrow> is_name s), rj_turn = at_turn a, rj_team = at_team a,
      rj_selector = at_selector a, rj_summary = te_review_summary e, rj_repair_summary = te_repair_summary e,
      rj_stdout = te_stdout_path e, rj_repair_path = te_repair_path e, rj_ordinal = at_ordinal a\<rparr>"

definition already_rejected :: "routing_state \<Rightarrow> string \<Rightarrow> impl_attempt \<Rightarrow> bool" where
  "already_rejected st scope_id a =
     list_ex (\<lambda>r. rj_scope r = scope_id \<and> rj_ordinal r = at_ordinal a \<and> rj_turn r = at_turn a) (rs_rejections st)"

definition set_default :: "string \<Rightarrow> 'v \<Rightarrow> 'v dictionary \<Rightarrow> 'v dictionary" where
  "set_default k v d = (if has d k then d else AList.update k v d)"

definition record_rejection ::
  "gate_env \<Rightarrow> turn_input \<Rightarrow> turn_end \<Rightarrow> turn_start \<Rightarrow> step_config \<Rightarrow> go_transition \<Rightarrow> routing_state \<Rightarrow>
     string + routing_state" where
  "record_rejection env inp e start step t st =
     (if scoped_rejection env inp e step t st
      then (let scope = the (rs_scope st); attempts = attempts_of st (is_id scope)
            in if attempts = [] then Inl ''internal error: review rejection has no implementation attempt''
               else Inr (st\<lparr>rs_rejections := rs_rejections st @
                           [new_rejection inp e start st (is_id scope) (Some scope) (last attempts)]\<rparr>))
      else if cumulative_rejection env inp e step t st
      then (case cumulative_review_attempt st (ti_original inp) (te_after e) of
              None \<Rightarrow> Inr st
            | Some (scope_id, a) \<Rightarrow>
                (let st' = st\<lparr>rs_attempts := set_default scope_id [a] (rs_attempts st)\<rparr>
                 in if already_rejected st scope_id a then Inr st'
                    else Inr (st'\<lparr>rs_rejections := rs_rejections st @ [new_rejection inp e start st scope_id None a]\<rparr>)))
      else Inr st)"

subsection \<open>The evidence of a worker\<close>

definition new_attempt :: "turn_input \<Rightarrow> turn_end \<Rightarrow> turn_start \<Rightarrow> step_config \<Rightarrow> routing_state \<Rightarrow> impl_attempt" where
  "new_attempt inp e start step st =
     \<lparr>at_turn = ti_number inp, at_step = ti_step inp, at_role = ws_role step, at_team = tn_team start,
      at_selector = Some (tn_selector start),
      at_outcome = (if is_complete (te_after e) then ''accepted'' else ''progress''),
      at_decision = map_option pd_number (rs_decision st), at_repair = tn_repair start,
      at_team_repairs = tn_team_repairs start, at_ordinal = tn_ordinal start\<rparr>"

definition awaits_review :: "gate_env \<Rightarrow> go_transition \<Rightarrow> bool" where
  "awaits_review env t =
     (case target_config env (go_to t) of None \<Rightarrow> False | Some s \<Rightarrow> ws_role s \<noteq> ''worker'')"

definition record_attempt ::
  "gate_env \<Rightarrow> turn_input \<Rightarrow> turn_end \<Rightarrow> turn_start \<Rightarrow> step_config \<Rightarrow> go_transition \<Rightarrow> routing_state \<Rightarrow> routing_state" where
  "record_attempt env inp e start step t st =
     (case tn_scope start of
        Some scope \<Rightarrow>
          if ws_role step = ''worker''
          then st\<lparr>rs_attempts := AList.update scope (attempts_of st scope @ [new_attempt inp e start step st]) (rs_attempts st),
                  rs_scope := map_option (\<lambda>s. s\<lparr>is_awaiting := awaits_review env t\<rparr>) (rs_scope st),
                  rs_override := (if tn_consume start then None else rs_override st)\<rparr>
          else st
      | None \<Rightarrow> st)"

text \<open>A reviewed scope no longer waits; one whose checkpoint is past closes.\<close>

definition settle_scope ::
  "gate_env \<Rightarrow> turn_end \<Rightarrow> step_config \<Rightarrow> go_transition \<Rightarrow> routing_state \<Rightarrow> routing_state" where
  "settle_scope env e step t st =
     (case rs_scope st of
        None \<Rightarrow> st
      | Some s \<Rightarrow>
          (let nxt = target_config env (go_to t);
               st' = (if ws_role step \<noteq> ''worker'' \<and> is_awaiting s
                      then st\<lparr>rs_scope := Some (s\<lparr>is_awaiting := False\<rparr>)\<rparr> else st)
           in if \<not> te_new_plan e \<and> original_checkpoint_advanced s (te_after e) \<and>
                 (ws_role step \<noteq> ''worker'' \<or> nxt = None \<or> is_worker nxt)
              then close_implementation_scope st' else st'))"

subsection \<open>The streak of a step\<close>

definition next_streak :: "turn_input \<Rightarrow> routing_state \<Rightarrow> int" where
  "next_streak inp st = (if rs_streak_step st = Some (ti_step inp) then rs_streak st + 1 else 1)"

definition stuck :: "gate_env \<Rightarrow> turn_input \<Rightarrow> turn_end \<Rightarrow> string \<Rightarrow> bool" where
  "stuck env inp e target =
     (length (wf_steps (ge_workflow env)) > 1 \<and> target = ti_step inp \<and>
      \<not> plan_snapshot_made_progress (te_before e) (te_after e))"

definition cap_text :: "string \<Rightarrow> int \<Rightarrow> int \<Rightarrow> string" where
  "cap_text step n cap =
     ''same-step cap reached: step '' @ quoted step @ '' selected '' @ int_str n @ '' consecutive times (limit: '' @
     int_str cap @ '')''"

definition check_streak :: "gate_env \<Rightarrow> turn_input \<Rightarrow> turn_end \<Rightarrow> routing_state \<Rightarrow> string \<Rightarrow> string + unit" where
  "check_streak env inp e st target =
     (let cap = as_max_same_step (uc_aflow (ge_config env)); n = next_streak inp st
      in if stuck env inp e target \<and> cap > 0 \<and> n \<ge> cap then Inl (cap_text (ti_step inp) n cap) else Inr ())"

definition update_streak :: "gate_env \<Rightarrow> turn_input \<Rightarrow> turn_end \<Rightarrow> string \<Rightarrow> routing_state \<Rightarrow> routing_state" where
  "update_streak env inp e target st =
     (if length (wf_steps (ge_workflow env)) > 1
      then (if stuck env inp e target then st\<lparr>rs_streak_step := Some (ti_step inp), rs_streak := next_streak inp st\<rparr>
            else st\<lparr>rs_streak_step := None, rs_streak := 0\<rparr>)
      else st)"

subsection \<open>The boundary\<close>

definition turn_gate :: "turn_input \<Rightarrow> turn_end \<Rightarrow> turn_start \<Rightarrow> step_config \<Rightarrow> string \<Rightarrow> string \<Rightarrow> gate_turn" where
  "turn_gate inp e start step target post =
     \<lparr>gt_proposed = target, gt_step = ti_step inp, gt_role = ws_role step, gt_active_team = tn_team start,
      gt_baseline = ti_baseline inp, gt_post_plan = post, gt_original = ti_original inp,
      gt_active_plan = active_after inp e, gt_trigger = ''post_turn'', gt_action = ''transition'',
      gt_retryable = False, gt_operational = False, gt_backup_team = None, gt_pressure = te_pressure e,
      gt_number = ti_number inp, gt_signals = te_signals e, gt_envelope_error = te_gate_error e,
      gt_drift_allowed = te_drift_allowed e, gt_scopes = te_scopes e, gt_replies = te_replies e\<rparr>"

definition incomplete_text :: "turn_input \<Rightarrow> turn_end \<Rightarrow> string" where
  "incomplete_text inp e =
     (if limit_reached inp e
      then ''reached max turns limit of '' @ int_str (te_max e) @ '' without completing the active plan''
      else ''workflow selected END while the active plan remains incomplete'')"

definition conclude ::
  "gate_env \<Rightarrow> turn_input \<Rightarrow> turn_end \<Rightarrow> go_transition \<Rightarrow> bool \<Rightarrow> string \<Rightarrow> string \<Rightarrow> routing_state \<Rightarrow> turn_exit + turn_result"
where
  "conclude env inp e t limited target active st =
     (if target = ''END''
      then (if \<not> is_complete (te_after e) \<and> \<not> limited then Inl (Turn_Failed (incomplete_text inp e))
            else Inr (Turn_Ends
              (if limited then ''max_turns_reached''
               else normalize_end_reason False (Some t) (is_complete (te_after e)) (limit_reached inp e))
              (\<not> limited) st))
      else rbind (turn_failing (check_streak env inp e st target)) (\<lambda>_.
             Inr (Turn_Continues target active (update_streak env inp e target (st\<lparr>rs_team_override := None\<rparr>)))))"

text \<open>The bookkeeping between the harness and the gate.\<close>

definition settle_turn ::
  "gate_env \<Rightarrow> turn_input \<Rightarrow> turn_end \<Rightarrow> turn_start \<Rightarrow> step_config \<Rightarrow> go_transition \<Rightarrow> routing_state \<Rightarrow> string + routing_state"
where
  "settle_turn env inp e start step t st =
     rbind (record_rejection env inp e start step t st) (\<lambda>st.
       Inr (settle_scope env e step t (record_attempt env inp e start step t st)))"

definition end_turn :: "gate_env \<Rightarrow> turn_input \<Rightarrow> turn_start \<Rightarrow> turn_end \<Rightarrow> routing_state \<Rightarrow> turn_exit + turn_result" where
  "end_turn env inp start e st =
     (case map_of (wf_steps (ge_workflow env)) (ti_step inp) of
        None \<Rightarrow> Inl (Turn_Failed (''unknown step '' @ quoted (ti_step inp)))
      | Some step \<Rightarrow>
          rbind (turn_failing (select_transition (turn_valuation inp e)
              (''workflow.'' @ ge_workflow_name env @ ''.steps.'' @ ti_step inp) (ws_go step))) (\<lambda>t.
          rbind (turn_failing (limit_terminal inp e t)) (\<lambda>limited.
          rbind (turn_failing (settle_turn env inp e start step t st)) (\<lambda>st.
          rbind (turn_failing (select_next_active_plan_path env (ti_original inp) (active_after inp e) (te_new_path e)
              (te_new_plan e) t)) (\<lambda>post.
          if limit_reached inp e \<and> \<not> is_complete (te_after e) \<and> \<not> te_live e
          then Inl (Turn_Failed (incomplete_text inp e))
          else rbind (turn_failing (check_streak env inp e st (go_to t))) (\<lambda>_.
               rbind (map_sum Turn_Gate (\<lambda>x. x) (manager_gate env (turn_gate inp e start step (go_to t) post) st))
                 (\<lambda>(target, st). conclude env inp e t limited target post st)))))))"

definition run_turn :: "gate_env \<Rightarrow> turn_input \<Rightarrow> turn_end \<Rightarrow> routing_state \<Rightarrow> turn_exit + turn_result" where
  "run_turn env inp e st =
     rbind (turn_failing (begin_turn env inp st)) (\<lambda>(start, st). end_turn env inp start e st)"

end
