(* ===== verification/Repair_Laws.thy ===== *)
theory Repair_Laws
  imports Repair_Policy Config_Laws "HOL-Library.Multiset"
begin

text \<open>
  What the repair policy guarantees: only a rejection that names exactly one worker attempt of the
  scope counts, an attempt counts once, the first rejected attempt is never a repair, and a forced
  upgrade follows one configured edge to a different selector.
\<close>

subsection \<open>Groups of attempts\<close>

lemma map_of_add_to_group:
  "map_of (add_to_group k e groups) k' = (if k' = k then Some (members groups k @ [e]) else map_of groups k')"
  by (auto simp: add_to_group_def members_def AList.update_conv' map_add_def split: option.splits)

lemma members_add_to_group:
  "members (add_to_group k e groups) k' = (if k' = k then members groups k @ [e] else members groups k')"
  by (simp add: members_def [of "add_to_group k e groups"] map_of_add_to_group) (simp add: members_def)

lemma members_group_entries: "members (group_entries key es) k = filter (\<lambda>e. key e = Some k) es"
proof (induction es rule: rev_induct)
  case Nil
  show ?case by (simp add: group_entries_def members_def)
next
  case (snoc e es)
  then show ?case
    by (cases "key e") (auto simp: group_entries_def members_add_to_group)
qed

lemma worker_attempts_in:
  "e \<in> set (worker_attempts attempts) \<longleftrightarrow>
    1 \<le> fst e \<and> fst e \<le> length attempts \<and> snd e = attempts ! (fst e - 1) \<and> worker_attempt (snd e)"
  by (cases e) (auto simp: worker_attempts_def in_set_enumerate_eq)

lemma distinct_map_sort_key: "distinct (map f (sort_key k xs)) = distinct (map f xs)"
  by (simp only: mset_eq_imp_distinct_iff [of "map f (sort_key k xs)" "map f xs"] mset_map mset_sort)

lemma distinct_worker_attempts: "distinct (map fst (worker_attempts attempts))"
proof -
  have "distinct (map fst (filter (\<lambda>e. worker_attempt (snd e)) (enumerate 1 attempts)))"
    by (rule distinct_map_filter') simp
  then show ?thesis
    unfolding worker_attempts_def distinct_map_sort_key .
qed

lemma reviewed_entry_Some:
  assumes "reviewed_entry scope workers r = Some e"
  shows "e \<in> set workers" and "dget r ''scope_id'' = JStr scope"
    and "dget r ''reviewed_worker_team'' = dget (snd e) ''team''"
    and "dget r ''reviewed_worker_selector'' = dget (snd e) ''selector''"
proof -
  from assms obtain c where c: "review_candidates workers r = Some c" "c = [e]"
    and f: "dget r ''scope_id'' = JStr scope" "dget r ''reviewed_worker_team'' = dget (snd e) ''team''"
      "dget r ''reviewed_worker_selector'' = dget (snd e) ''selector''"
    by (auto simp: reviewed_entry_def split: if_splits option.splits list.splits)
  from c(1) have "set c \<subseteq> set workers"
    by (auto simp: review_candidates_def members_group_entries Let_def split: if_split_asm)
  with c(2) show "e \<in> set workers" by simp
  show "dget r ''scope_id'' = JStr scope" "dget r ''reviewed_worker_team'' = dget (snd e) ''team''"
    "dget r ''reviewed_worker_selector'' = dget (snd e) ''selector''" by (fact f)+
qed

subsection \<open>Kept rejections\<close>

definition kept_ok :: "string \<Rightarrow> entry list \<Rightarrow> dict list \<Rightarrow> rejected \<Rightarrow> bool" where
  "kept_ok scope workers rejections kept =
     (distinct (map fst kept) \<and>
      (\<forall>(i, r, e) \<in> set kept. i = fst e \<and> r \<in> set rejections \<and> reviewed_entry scope workers r = Some e))"

lemma kept_ok_update:
  assumes "kept_ok scope workers rs kept" and "reviewed_entry scope workers r = Some e" and "r \<in> set rs"
  shows "kept_ok scope workers rs (AList.update (fst e) (r, e) kept)"
proof -
  have "set (AList.update (fst e) (r, e) kept) \<subseteq> insert (fst e, r, e) (set kept)"
    by (induction kept) auto
  with assms show ?thesis
    unfolding kept_ok_def by (auto simp: distinct_update)
qed

lemma kept_ok_keep: "kept_ok scope workers rs kept \<Longrightarrow> r \<in> set rs \<Longrightarrow> kept_ok scope workers rs (keep_rejection scope workers kept r)"
  by (cases "reviewed_entry scope workers r") (simp_all add: keep_rejection_def kept_ok_update split: option.split)

lemma kept_ok_foldl:
  "kept_ok scope workers rs kept \<Longrightarrow> set xs \<subseteq> set rs \<Longrightarrow> kept_ok scope workers rs (foldl (keep_rejection scope workers) kept xs)"
  by (induction xs arbitrary: kept) (auto simp: kept_ok_keep)

lemma valid_rejections_ok:
  "distinct (map (fst \<circ> snd) (valid_rejections scope workers rs))"
  "(r, e) \<in> set (valid_rejections scope workers rs) \<Longrightarrow> r \<in> set rs \<and> reviewed_entry scope workers r = Some e"
proof -
  let ?kept = "foldl (keep_rejection scope workers) [] rs"
  have k: "kept_ok scope workers rs ?kept"
    by (rule kept_ok_foldl) (simp_all add: kept_ok_def)
  then have "map (fst \<circ> snd) (map snd ?kept) = map fst ?kept"
    unfolding kept_ok_def map_map by (intro map_cong) auto
  moreover from k have "distinct (map fst ?kept)" by (simp add: kept_ok_def)
  ultimately have "distinct (map (fst \<circ> snd) (map snd ?kept))" by (simp only:)
  then show "distinct (map (fst \<circ> snd) (valid_rejections scope workers rs))"
    unfolding valid_rejections_def distinct_map_sort_key .
  assume "(r, e) \<in> set (valid_rejections scope workers rs)"
  with k show "r \<in> set rs \<and> reviewed_entry scope workers r = Some e"
    by (force simp: valid_rejections_def kept_ok_def)
qed

subsection \<open>Repairs\<close>

lemma repair_identities_later:
  "i \<in> set (repair_identities priors xs) \<Longrightarrow>
    \<exists>r e. (r, e) \<in> set xs \<and> fst e = i \<and>
      (\<exists>p \<in> set priors \<union> (\<lambda>(r, e). attempt_chronology e) ` set xs. p < attempt_chronology e)"
proof (induction priors xs rule: repair_identities.induct)
  case (2 priors r e rest)
  show ?case
  proof (cases "fst e = i \<and> list_ex (\<lambda>p. p < attempt_chronology e) priors")
    case True
    then obtain p where "p \<in> set priors" "p < attempt_chronology e" by (auto simp: list_ex_iff)
    with True show ?thesis by (intro exI [of _ r] exI [of _ e]) (simp, blast)
  next
    case False
    with 2(2) have "i \<in> set (repair_identities (priors @ [attempt_chronology e]) rest)"
      by (auto simp: Let_def split: if_splits)
    from 2(1) [OF refl this] obtain r' e' p where "(r', e') \<in> set rest" "fst e' = i" "p < attempt_chronology e'"
      "p \<in> set (priors @ [attempt_chronology e]) \<union> (\<lambda>(r, e). attempt_chronology e) ` set rest" by blast
    then show ?thesis by (intro exI [of _ r'] exI [of _ e']) (simp, blast)
  qed
qed simp

definition rejected_attempt :: "string \<Rightarrow> dict list \<Rightarrow> dict list \<Rightarrow> entry \<Rightarrow> bool" where
  "rejected_attempt scope attempts rejections e =
     (e \<in> set (worker_attempts attempts) \<and>
      list_ex (\<lambda>r. reviewed_entry scope (worker_attempts attempts) r = Some e) rejections)"

lemma valid_rejected:
  assumes "(r, e) \<in> set (valid_rejections scope (worker_attempts attempts) rejections)"
  shows "rejected_attempt scope attempts rejections e"
  using valid_rejections_ok(2) [OF assms] by (auto simp: rejected_attempt_def list_ex_iff dest: reviewed_entry_Some(1))

lemma team_repairs_witnesses:
  fixes attempts rejections scope current
  defines "valid \<equiv> valid_rejections scope (worker_attempts attempts) rejections"
  obtains es where "distinct es" "length es = team_repairs valid current"
    "\<forall>e \<in> set es. rejected_attempt scope attempts rejections e \<and> dget (snd e) ''team'' = current \<and>
       (\<exists>f. rejected_attempt scope attempts rejections f \<and> attempt_chronology f < attempt_chronology e)"
proof
  let ?P = "\<lambda>(r, e). fst e \<in> set (repair_identities [] valid) \<and> dget (snd e) ''team'' = current"
  let ?es = "map snd (filter ?P valid)"
  have d: "distinct (map (fst \<circ> snd) valid)"
    unfolding valid_def by (rule valid_rejections_ok(1))
  then have "distinct (map (fst \<circ> snd) (filter ?P valid))" by (rule distinct_map_filter')
  then show "distinct ?es" by (auto simp: distinct_map inj_on_def)
  show "length ?es = team_repairs valid current" by (simp add: team_repairs_def)
  show "\<forall>e \<in> set ?es. rejected_attempt scope attempts rejections e \<and> dget (snd e) ''team'' = current \<and>
       (\<exists>f. rejected_attempt scope attempts rejections f \<and> attempt_chronology f < attempt_chronology e)"
  proof
    fix e
    assume "e \<in> set ?es"
    then obtain r where v: "(r, e) \<in> set valid" and i: "fst e \<in> set (repair_identities [] valid)"
      and t: "dget (snd e) ''team'' = current" by auto
    from repair_identities_later [OF i] obtain r' e' r2 f
      where e': "(r', e') \<in> set valid" "fst e' = fst e" and f: "(r2, f) \<in> set valid"
        and l: "attempt_chronology f < attempt_chronology e'" by auto
    from d have "inj_on (fst \<circ> snd) (set valid)" by (simp add: distinct_map)
    from inj_onD [OF this _ v e'(1)] e'(2) have "e' = e" by simp
    with t l v f show "rejected_attempt scope attempts rejections e \<and> dget (snd e) ''team'' = current \<and>
       (\<exists>f. rejected_attempt scope attempts rejections f \<and> attempt_chronology f < attempt_chronology e)"
      unfolding valid_def by (blast intro: valid_rejected)
  qed
qed

text \<open>The rejection that opens the scope's history is not a repair.\<close>

lemma first_not_repair: "valid = (r, e) # rest \<Longrightarrow> distinct (map (fst \<circ> snd) valid) \<Longrightarrow> fst e \<notin> set (repair_identities [] valid)"
proof
  assume v: "valid = (r, e) # rest" "distinct (map (fst \<circ> snd) valid)"
    and "fst e \<in> set (repair_identities [] valid)"
  then have "fst e \<in> set (repair_identities [attempt_chronology e] rest)" by (simp add: Let_def)
  from repair_identities_later [OF this] v show False by force
qed

lemma team_repairs_less:
  assumes "valid \<noteq> []" and "distinct (map (fst \<circ> snd) valid)"
  shows "team_repairs valid current < length valid"
proof -
  from assms(1) obtain r e rest where v: "valid = (r, e) # rest" by (cases valid) auto
  from first_not_repair [OF v assms(2)] v show ?thesis
    unfolding team_repairs_def by (intro length_filter_less [of "(r, e)"]) auto
qed

subsection \<open>The edge of an upgrade\<close>

lemma eligible_upgrade_available:
  assumes "eu_available (eligible_implementation_upgrade cfg role baseline (Some team) True)" and "team \<noteq> []"
  shows "\<exists>t u s s'. map_of (uc_teams cfg) team = Some t \<and> tm_upgrade t = Some u \<and> has (uc_teams cfg) u \<and>
     resolve_manager_selector cfg (Some team) role = Inr s \<and> resolve_manager_selector cfg (Some u) role = Inr s' \<and>
     s \<noteq> s' \<and> eligible_implementation_upgrade cfg role baseline (Some team) True =
       \<lparr>eu_available = True, eu_source_team = Some team, eu_target_team = Some u, eu_role = role,
        eu_source_selector = Some s, eu_target_selector = Some s', eu_reason = None\<rparr>"
proof -
  have none: "\<not> eu_available (refused_upgrade s t r w)" for s t r w by (simp add: refused_upgrade_def)
  from assms obtain t u where t: "map_of (uc_teams cfg) team = Some t" "tm_upgrade t = Some u" "has (uc_teams cfg) u"
    and e: "eligible_implementation_upgrade cfg role baseline (Some team) True = upgrade_between cfg role team u"
    by (auto simp: eligible_implementation_upgrade_def recent_team_def none Let_def split: option.splits if_splits)
  with assms(1) have a: "eu_available (upgrade_between cfg role team u)" by simp
  then obtain s s' where "resolve_manager_selector cfg (Some team) role = Inr s"
    "resolve_manager_selector cfg (Some u) role = Inr s'" "s \<noteq> s'"
    by (auto simp: upgrade_between_def none rbind_Inr_iff split: sum.splits)
  with t e show ?thesis by (auto simp: upgrade_between_def)
qed

lemma determine_policy_active:
  assumes "determine_repair_upgrade_policy cfg threshold role baseline scope_id attempts rejections = Inr p" and "up_active p"
  obtains scope where "scope_id = Some scope" "role = ''worker''" "0 \<le> int_of threshold" "worker_attempts attempts \<noteq> []"
    "valid_rejections scope (worker_attempts attempts) rejections \<noteq> []"
    "fst (snd (last (valid_rejections scope (worker_attempts attempts) rejections))) = fst (last (worker_attempts attempts))"
    "p = active_policy cfg (int_of threshold) role baseline scope
       (valid_rejections scope (worker_attempts attempts) rejections) (snd (last (worker_attempts attempts)))"
proof (cases scope_id)
  case None
  with assms show ?thesis
    by (auto simp: determine_repair_upgrade_policy_def Let_def inactive_policy_def split: if_splits)
next
  case (Some scope)
  with assms show ?thesis
    by (intro that [OF Some]) (auto simp: determine_repair_upgrade_policy_def Let_def inactive_policy_def split: if_splits)
qed

lemma forced_active:
  "determine_repair_upgrade_policy cfg threshold role baseline scope_id attempts rejections = Inr p \<Longrightarrow> up_forced p \<Longrightarrow> up_active p"
  by (auto simp: determine_repair_upgrade_policy_def Let_def inactive_policy_def active_policy_def
      split: if_splits option.splits)

end
