(* ===== verification/Manager_Laws.thy ===== *)
theory Manager_Laws
  imports Manager_Gate Repair_Laws
begin

text \<open>
  What the gate guarantees: it acts only on a decision it offered, from a manager that left the
  repository alone, after at most two calls; the decision is put down before it is followed; and a
  due repair upgrade is the next worker's route, with a manager or without.
\<close>

lemma gate_of_Inr [simp]: "gate_of r = Inr x \<longleftrightarrow> r = Inr x"
  by (cases r) (auto simp: gate_of_def)

lemma call_level_cases: "call_level env turn = ''lite'' \<or> call_level env turn = ''full''"
  by (auto simp: call_level_def manager_level_for_boundary_def split: option.splits)

subsection \<open>The decision that is followed\<close>

text \<open>A decision of a call that exited normally and left the repository alone.\<close>

definition trusted :: "gate_env \<Rightarrow> gate_turn \<Rightarrow> string list \<Rightarrow> manager_decision \<Rightarrow> bool" where
  "trusted env turn base d =
     (\<exists>reply level. (reply = fst (gt_replies turn) \<or> reply = snd (gt_replies turn)) \<and>
        mr_returncode reply = 0 \<and> \<not> mr_mutated reply \<and> decision_legal (gt_scopes turn) level base (gt_proposed turn) d)"

lemma ask_accepts:
  assumes "ask env turn level eligible reply = Inr out" and "co_decision out = Some d"
  shows "\<not> mr_mutated reply" and "mr_returncode reply = 0"
    and "decision_legal (gt_scopes turn) level eligible (gt_proposed turn) d"
proof -
  from assms(1) have c: "manager_call (ge_loads env) (gt_scopes turn) level eligible (gt_proposed turn) reply = Inr out"
    by (cases "manager_call (ge_loads env) (gt_scopes turn) level eligible (gt_proposed turn) reply") (auto simp: ask_def)
  from manager_call_accepts [OF c assms(2)] show "\<not> mr_mutated reply" "mr_returncode reply = 0"
    "decision_legal (gt_scopes turn) level eligible (gt_proposed turn) d" by auto
qed

lemma decision_legal_mono:
  "decision_legal scopes level es proposed d \<Longrightarrow> set es \<subseteq> set base \<Longrightarrow> decision_legal scopes level base proposed d"
  by (auto simp: decision_legal_def call_eligible_def split: if_splits)

lemma lite_eligible_subset: "set (lite_eligible turn base) \<subseteq> set base"
  by (auto simp: lite_eligible_def)

lemma consult_trusted:
  assumes "consult env turn st base = Inr (d, st')"
  shows "trusted env turn base d" and "md_action d \<in> set base" and "st' = bump st \<or> st' = bump (bump st)"
proof -
  let ?level = "call_level env turn"
  let ?es = "if ?level = ''full'' then base else lite_eligible turn base"
  obtain one two where r: "gt_replies turn = (one, two)" by fastforce
  from assms obtain out where a: "ask env turn ?level ?es one = Inr out"
    and cases: "(wants_full ?level out \<and> (\<exists>out'. ask env turn ''full'' base two = Inr out' \<and> co_decision out' = Some d \<and>
        st' = bump (bump st))) \<or> (\<not> wants_full ?level out \<and> co_decision out = Some d \<and> st' = bump st)"
    by (auto simp: consult_def Let_def r rbind_Inr_iff split: if_split_asm option.split_asm)
  then have "trusted env turn base d \<and> md_action d \<in> set base \<and> (st' = bump st \<or> st' = bump (bump st))"
  proof (elim disjE conjE exE)
    fix out'
    assume o: "ask env turn ''full'' base two = Inr out'" "co_decision out' = Some d" and "st' = bump (bump st)"
    moreover note ask_accepts [OF o]
    ultimately show ?thesis using legal_full r by (auto simp: trusted_def)
  next
    assume nw: "\<not> wants_full ?level out" and d: "co_decision out = Some d" and s: "st' = bump st"
    from nw d have ne: "md_action d \<noteq> ''escalate_to_full''" by (simp add: wants_full_def)
    note l = ask_accepts [OF a d]
    have sub: "set ?es \<subseteq> set base" using lite_eligible_subset by auto
    have "md_action d \<in> set ?es"
      using call_level_cases [of env turn] l(3) ne by (auto simp: decision_legal_def call_eligible_def)
    with decision_legal_mono [OF l(3) sub] sub l r s show ?thesis by (auto simp: trusted_def)
  qed
  then show "trusted env turn base d" "md_action d \<in> set base" "st' = bump st \<or> st' = bump (bump st)" by auto
qed

lemma route_simps [simp]:
  "ro_forced (route_of env turn st scope p d) =
     (md_action d = ''continue'' \<and> up_forced p \<and> is_worker (target_config env (gt_proposed turn)))"
  "ro_target_step (route_of env turn st scope p d) =
     (if md_action d \<in> set RETRY_ACTIONS then gt_step turn else gt_proposed turn)"
  by (auto simp: route_of_def Let_def RETRY_ACTIONS_def)

lemma record_decision_simps [simp]:
  "rs_decision (record_decision env turn st d r) = Some (boundary_decision env turn st d r)"
  "rs_decision_number (record_decision env turn st d r) = rs_decision_number st"
  "rs_override (record_decision env turn st d r) = rs_override st"
  by (auto simp: record_decision_def Let_def)

lemma apply_decision_Inr:
  assumes "apply_decision env turn st scope p d = Inr (nx, st')"
  shows "\<exists>r. rs_decision st' = Some (boundary_decision env turn st d r)"
    and "rs_decision_number st' = rs_decision_number st"
    and "nx = gt_proposed turn \<or> (nx = gt_step turn \<and> md_action d \<in> set RETRY_ACTIONS)"
    and "md_action d \<noteq> ''stop''"
  using assms unfolding apply_decision_def Let_def RETRY_ACTIONS_def
  by (auto split: if_split_asm option.split_asm bool.split_asm sum.split_asm)

subsection \<open>The whole gate\<close>

lemma managed_gate:
  assumes "manager_gate env turn st = Inr (nx, st')" and "enabled env"
  obtains scope p st1 d st2 where "gate_evidence env turn st = Inr (scope, p)" "with_pressure turn st = Inr st1"
    "consult env turn (with_signals (gt_signals turn) st1) (base_eligible env turn st1 scope) = Inr (d, st2)"
    "apply_decision env turn st2 scope p d = Inr (nx, st')"
  using assms by (auto simp: manager_gate_def rbind_Inr_iff)

lemma with_pressure_simps:
  "with_pressure turn st = Inr st1 \<Longrightarrow> rs_scope st1 = rs_scope st \<and> rs_attempts st1 = rs_attempts st \<and>
     rs_rejections st1 = rs_rejections st \<and> rs_decision_number st1 = rs_decision_number st \<and> rs_repartition st1 = rs_repartition st"
  by (auto simp: with_pressure_def rbind_Inr_iff split: if_splits)

lemma with_signals_simps [simp]:
  "rs_scope (with_signals s st) = rs_scope st" "rs_attempts (with_signals s st) = rs_attempts st"
  "rs_rejections (with_signals s st) = rs_rejections st"
  "rs_decision_number (with_signals s st) = rs_decision_number st"
  by (auto simp: with_signals_def split: option.splits)

lemma bump_simps [simp]:
  "rs_scope (bump st) = rs_scope st" "rs_attempts (bump st) = rs_attempts st" "rs_rejections (bump st) = rs_rejections st"
  "rs_decision_number (bump st) = rs_decision_number st + 1"
  by (auto simp: bump_def)

lemma scope_attempts_cong: "rs_attempts st = rs_attempts st' \<Longrightarrow> scope_attempts st scope = scope_attempts st' scope"
  by (auto simp: scope_attempts_def attempts_of_def split: option.splits)

lemma base_eligible_cong:
  assumes "rs_scope st = rs_scope st'" "rs_attempts st = rs_attempts st'" "rs_repartition st = rs_repartition st'"
  shows "base_eligible env turn st scope = base_eligible env turn st' scope"
    and "offered_upgrade env turn st scope = offered_upgrade env turn st' scope"
    and "retrying env turn st scope = retrying env turn st' scope"
  using assms scope_attempts_cong [OF assms(2)]
  by (simp_all add: base_eligible_def offered_upgrade_def retrying_def may_repartition_def)

lemma base_eligible_retry:
  "''retry_current_step'' \<in> set (base_eligible env turn st scope) \<longleftrightarrow> gt_retryable turn"
  "''switch_to_backup_and_retry'' \<in> set (base_eligible env turn st scope) \<longleftrightarrow>
     gt_operational turn \<and> gt_backup_team turn \<noteq> None \<and> gt_backup_team turn \<noteq> gt_active_team turn"
  "''upgrade_next_implementation'' \<in> set (base_eligible env turn st scope) \<longleftrightarrow>
     eu_available (offered_upgrade env turn st scope)"
  "''continue'' \<in> set (base_eligible env turn st scope)" "''stop'' \<in> set (base_eligible env turn st scope)"
  by (auto simp: base_eligible_def)

subsection \<open>Repair upgrades\<close>

text \<open>The worker of the next step runs on the target of the policy's upgrade.\<close>

definition routed_to :: "gate_env \<Rightarrow> gate_turn \<Rightarrow> routing_state \<Rightarrow> eligible_upgrade \<Rightarrow> routing_state \<Rightarrow> bool" where
  "routed_to env turn st u st' =
     (case (rs_override st', candidate env turn) of
        (Some o', Some step) \<Rightarrow>
          pt_target_step o' = gt_proposed turn \<and> pt_role o' = ws_role step \<and> \<not> pt_consumed o' \<and>
          Some (pt_target_team o') = eu_target_team u \<and> Some (pt_selector o') = eu_target_selector u \<and>
          pt_scope o' = map_option is_id (rs_scope st) \<and>
          pt_target_plan o' = Some (target_plan_identity (ge_files env) (proposed_plan turn)) \<and>
          pt_partition o' = (if enabled env then scope_partition st else (None, None, None))
      | _ \<Rightarrow> False)"

lemma routed_to_cong: "rs_scope st1 = rs_scope st \<Longrightarrow> routed_to env turn st1 u st' = routed_to env turn st u st'"
  by (simp only: routed_to_def scope_partition_def)

lemma up_forced_cases:
  assumes "determine_repair_upgrade_policy cfg threshold role baseline scope_id attempts rejections = Inr p" and "up_forced p"
  obtains team u s s' where "up_active p" "up_due p" "up_current_team p = Some team" "team \<noteq> []"
    "up_eligible p = \<lparr>eu_available = True, eu_source_team = Some team, eu_target_team = Some u, eu_role = role,
        eu_source_selector = Some s, eu_target_selector = Some s', eu_reason = None\<rparr>" "s \<noteq> s'"
    "\<exists>t. map_of (uc_teams cfg) team = Some t \<and> tm_upgrade t = Some u"
    "resolve_manager_selector cfg (Some team) role = Inr s" "resolve_manager_selector cfg (Some u) role = Inr s'"
proof -
  from determine_policy_active [OF assms(1) forced_active [OF assms]] obtain scope where
    w: "worker_attempts attempts \<noteq> []" and p: "p = active_policy cfg (int_of threshold) role baseline scope
       (valid_rejections scope (worker_attempts attempts) rejections) (snd (last (worker_attempts attempts)))" by metis
  let ?a = "snd (last (worker_attempts attempts))"
  from last_in_set [OF w] have "worker_attempt ?a" using worker_attempts_in by blast
  then obtain team where t: "dget ?a ''team'' = JStr team" and "strip team \<noteq> []"
    by (cases "dget ?a ''team''") (auto simp: worker_attempt_def)
  then have ne: "team \<noteq> []" by (auto simp: strip_def lstrip_def rstrip_def)
  from p t have e: "up_eligible p = eligible_implementation_upgrade cfg role baseline (Some team) True"
    and c: "up_current_team p = Some team" and f: "up_forced p = (up_due p \<and> eu_available (up_eligible p))" and a: "up_active p"
    by (simp_all add: active_policy_def Let_def)
  from f assms(2) have "eu_available (eligible_implementation_upgrade cfg role baseline (Some team) True)" "up_due p"
    unfolding e [symmetric] by auto
  with eligible_upgrade_available [OF this(1) ne] that [OF a _ c ne] show thesis
    unfolding e by blast
qed

lemma unmanaged_forced:
  assumes "unmanaged_gate env turn st scope p = Inr (nx, st')" and "up_active p" and "up_forced p"
    and "is_worker (candidate env turn)" and "eu_target_team (up_eligible p) = Some u"
    and "eu_target_selector (up_eligible p) = Some s" and "\<not> enabled env"
  shows "routed_to env turn st (up_eligible p) st'" and "nx = gt_proposed turn"
proof -
  from assms(4) obtain step where c: "candidate env turn = Some step" "ws_role step = ''worker''"
    by (auto simp: is_worker_def split: option.splits)
  with assms show "routed_to env turn st (up_eligible p) st'" and "nx = gt_proposed turn"
    by (auto simp: unmanaged_gate_def unmanaged_override_def Let_def rbind_Inr_iff routed_to_def)
qed

lemma managed_forced:
  assumes "apply_decision env turn st scope p d = Inr (nx, st')" and "up_forced p" and "md_action d = ''continue''"
    and "is_worker (candidate env turn)" and "eu_target_team (up_eligible p) = Some u"
    and "eu_target_selector (up_eligible p) = Some s" and "enabled env"
  shows "routed_to env turn st (up_eligible p) st'" and "nx = gt_proposed turn"
proof -
  let ?r = "route_of env turn st scope p d"
  from assms(2-4) have f: "ro_forced ?r" by (simp add: target_config_def candidate_def)
  have u: "ro_upgrade ?r = up_eligible p" and pl: "ro_plan ?r = proposed_plan turn"
    using assms(2,3,4) by (simp_all add: route_of_def Let_def RETRY_ACTIONS_def target_config_def candidate_def proposed_plan_def)
  from assms(4) obtain step where c: "candidate env turn = Some step" by (auto simp: is_worker_def split: option.splits)
  from assms(1,3) f u c assms(5,6) have nx: "nx = gt_proposed turn"
    and o: "rs_override st' = Some (managed_override env turn st p ?r step (eu_source_team (up_eligible p)) u s)"
    by (auto simp: apply_decision_def Let_def split: bool.split_asm if_split_asm)
  from nx show "nx = gt_proposed turn" .
  from o c pl assms(5-7) show "routed_to env turn st (up_eligible p) st'"
    by (auto simp: routed_to_def managed_override_def Let_def)
qed

text \<open>A forced upgrade is the route of the next worker, unless a manager decides otherwise.\<close>

lemma gate_forced:
  assumes "gate_evidence env turn st = Inr (scope, p)" and "up_forced p" and "is_worker (candidate env turn)"
    and "manager_gate env turn st = Inr (nx, st')"
    and "enabled env \<Longrightarrow> map_option pd_action (rs_decision st') = Some ''continue''"
  shows "routed_to env turn st (up_eligible p) st'" and "nx = gt_proposed turn"
proof -
  from assms(1) have pol: "repair_policy_of env turn st scope = Inr p"
    by (auto simp: gate_evidence_def rbind_Inr_iff split: if_split_asm)
  from up_forced_cases [OF pol [unfolded repair_policy_of_def] assms(2)] obtain u s where a: "up_active p"
    and t: "eu_target_team (up_eligible p) = Some u" "eu_target_selector (up_eligible p) = Some s" by (metis eligible_upgrade.select_convs(3,6))
  have "routed_to env turn st (up_eligible p) st' \<and> nx = gt_proposed turn"
  proof (cases "enabled env")
    case True
    from managed_gate [OF assms(4) True] assms(1) obtain st1 d st2 where w: "with_pressure turn st = Inr st1"
      and c: "consult env turn (with_signals (gt_signals turn) st1) (base_eligible env turn st1 scope) = Inr (d, st2)"
      and ap: "apply_decision env turn st2 scope p d = Inr (nx, st')" by (metis Inr_inject Pair_inject)
    from apply_decision_Inr(1) [OF ap] assms(5) [OF True] have "md_action d = ''continue''"
      by (auto simp: boundary_decision_def)
    from managed_forced [OF ap assms(2) this assms(3) t True] have "routed_to env turn st2 (up_eligible p) st'" "nx = gt_proposed turn" .
    moreover from consult_trusted(3) [OF c] with_pressure_simps [OF w] have "rs_scope st2 = rs_scope st" by auto
    ultimately show ?thesis using routed_to_cong by blast
  next
    case False
    with assms(1,4) obtain st1 where w: "with_pressure turn st = Inr st1" and "unmanaged_gate env turn st1 scope p = Inr (nx, st')"
      by (auto simp: manager_gate_def rbind_Inr_iff)
    from unmanaged_forced [OF this(2) a assms(2,3) t False] with_pressure_simps [OF w] show ?thesis
      using routed_to_cong by blast
  qed
  then show "routed_to env turn st (up_eligible p) st'" and "nx = gt_proposed turn" by auto
qed

end
