(* ===== verification/Turn_Laws.thy ===== *)
theory Turn_Laws
  imports Turn_Routing Manager_Laws
begin

text \<open>
  What a turn guarantees: the evidence of every scope stays ordered, one step cannot repeat without
  progress beyond its cap, a run ends with delivery only on a complete plan, and the route the gate
  put down is the one the next worker starts on.
\<close>

lemma turn_failing_Inr [simp]: "turn_failing r = Inr x \<longleftrightarrow> r = Inr x"
  by (cases r) (auto simp: turn_failing_def)

subsection \<open>Ordered evidence\<close>

definition evidence_ok :: "routing_state \<Rightarrow> bool" where
  "evidence_ok st =
     (distinct (map fst (rs_attempts st)) \<and> list_all (\<lambda>(k, as). ordinals_ok as) (rs_attempts st) \<and>
      sorted_wrt (\<lambda>a b. rj_scope a = rj_scope b \<longrightarrow> rj_number a < rj_number b) (rs_rejections st))"

definition same_evidence :: "routing_state \<Rightarrow> routing_state \<Rightarrow> bool" where
  "same_evidence st st' = (rs_attempts st' = rs_attempts st \<and> rs_rejections st' = rs_rejections st)"

lemma evidence_ok_same: "same_evidence st st' \<Longrightarrow> evidence_ok st' = evidence_ok st"
  by (simp add: same_evidence_def evidence_ok_def)

lemma same_evidence_trans: "same_evidence a b \<Longrightarrow> same_evidence b c \<Longrightarrow> same_evidence a c"
  by (simp add: same_evidence_def)

lemma ordinals_ok_Nil [simp]: "ordinals_ok []"
  by (simp add: ordinals_ok_def)

lemma ordinals_ok_last: "ordinals_ok rows \<Longrightarrow> rows \<noteq> [] \<Longrightarrow> ordinals_ok [last rows]"
  by (auto simp: ordinals_ok_def list_all_iff)

text \<open>A new number is above every number the scope has used.\<close>

lemma next_ordinal_above:
  assumes "a \<in> set as" and "at_ordinal a = Some n"
  shows "n < next_implementation_attempt_ordinal as"
proof (cases "n > 0")
  case True
  with assms have "n \<in> set (int (length as) # filter (\<lambda>n. n > 0) (List.map_filter at_ordinal as))"
    by (force simp: List.map_filter_def)
  from max_default_ge [OF this, of 0] show ?thesis by (simp add: next_implementation_attempt_ordinal_def)
next
  case False
  have "int (length as) \<le> max_default 0 (int (length as) # filter (\<lambda>n. n > 0) (List.map_filter at_ordinal as))"
    by (rule max_default_ge) simp
  with False show ?thesis by (simp add: next_implementation_attempt_ordinal_def)
qed

lemma next_ordinal_positive: "1 \<le> next_implementation_attempt_ordinal as"
proof -
  have "int (length as) \<le> max_default 0 (int (length as) # filter (\<lambda>n. n > 0) (List.map_filter at_ordinal as))"
    by (rule max_default_ge) simp
  then show ?thesis by (simp add: next_implementation_attempt_ordinal_def)
qed

lemma ordinals_ok_snoc:
  assumes "ordinals_ok as" and "at_ordinal a = Some (next_implementation_attempt_ordinal as)"
  shows "ordinals_ok (as @ [a])"
proof -
  have "the (at_ordinal b) < next_implementation_attempt_ordinal as" if "b \<in> set as" for b
    using assms(1) that next_ordinal_above [OF that] by (auto simp: ordinals_ok_def list_all_iff split: option.splits)
  with assms next_ordinal_positive [of as] show ?thesis
    by (auto simp: ordinals_ok_def sorted_wrt_append)
qed

lemma attempts_of_ok: "evidence_ok st \<Longrightarrow> ordinals_ok (attempts_of st scope)"
  by (auto simp: evidence_ok_def attempts_of_def list_all_iff split: option.splits dest: map_of_SomeD)

lemma list_all_update:
  "list_all (\<lambda>(k, v). P v) d \<Longrightarrow> P v \<Longrightarrow> list_all (\<lambda>(k, v). P v) (AList.update k v d)"
  by (induction d) auto

lemma evidence_ok_attempts:
  assumes "evidence_ok st" and "ordinals_ok as"
  shows "evidence_ok (st\<lparr>rs_attempts := AList.update k as (rs_attempts st)\<rparr>)"
  using assms by (auto simp: evidence_ok_def distinct_update list_all_update)

lemma new_rejection_above:
  assumes "r \<in> set (rs_rejections st)" and "rj_scope r = scope_id"
  shows "rj_number r < rj_number (new_rejection inp e start st scope_id scope a)"
proof -
  from assms have "rj_number r \<in> set (map rj_number (filter (\<lambda>r. rj_scope r = scope_id) (rs_rejections st)))" by simp
  from max_default_ge [OF this, of 0] show ?thesis by (simp add: new_rejection_def)
qed

lemma evidence_ok_rejection:
  assumes "evidence_ok st"
  shows "evidence_ok (st\<lparr>rs_rejections := rs_rejections st @ [new_rejection inp e start st scope_id scope a]\<rparr>)"
  using assms new_rejection_above
  by (auto simp: evidence_ok_def sorted_wrt_append) (auto simp: new_rejection_def)

lemma review_rows_nonempty:
  assumes "review_rows st path snap = Some rows"
  shows "rows \<noteq> []"
proof (cases "attempts_of st (cumulative_id path) = []")
  case True
  with assms obtain kr where f: "final_checkpoint_rows st path snap = [kr]" and "rows = snd kr"
    by (cases "final_checkpoint_rows st path snap") (auto simp: review_rows_def split: list.split_asm)
  moreover have "snd kr \<noteq> []" if "kr \<in> set (final_checkpoint_rows st path snap)"
    using that by (auto simp: final_checkpoint_rows_def)
  ultimately show ?thesis by simp
next
  case False
  with assms show ?thesis by (auto simp: review_rows_def)
qed

lemma cumulative_attempt_ok: "cumulative_review_attempt st path snap = Some (scope_id, a) \<Longrightarrow> ordinals_ok [a]"
  by (auto simp: cumulative_review_attempt_def split: option.split_asm if_split_asm
      dest: review_rows_nonempty intro!: ordinals_ok_last)

lemma record_rejection_ok:
  assumes "record_rejection env inp e start step t st = Inr st'" and "evidence_ok st"
  shows "evidence_ok st'"
    and "ws_role step = ''worker'' \<Longrightarrow> same_evidence st st'"
    and "rs_scope st' = rs_scope st"
proof -
  have r: "scoped_rejection env inp e step t st \<Longrightarrow> ws_role step = ''reviewer''"
    "cumulative_rejection env inp e step t st \<Longrightarrow> ws_role step \<in> {''architect'', ''final_reviewer''}"
    by (auto simp: scoped_rejection_def cumulative_rejection_def split: option.splits)
  show "same_evidence st st'" if "ws_role step = ''worker''"
    using assms(1) r that by (auto simp: record_rejection_def same_evidence_def split: if_splits)
  show "rs_scope st' = rs_scope st"
    using assms(1) by (auto simp: record_rejection_def Let_def split: if_splits option.splits)
  show "evidence_ok st'"
  proof (cases "scoped_rejection env inp e step t st")
    case True
    with assms show ?thesis
      by (auto simp: record_rejection_def Let_def evidence_ok_rejection split: if_splits)
  next
    case ns: False
    show ?thesis
    proof (cases "cumulative_rejection env inp e step t st \<and> cumulative_review_attempt st (ti_original inp) (te_after e) \<noteq> None")
      case True
      then obtain scope_id a where c: "cumulative_review_attempt st (ti_original inp) (te_after e) = Some (scope_id, a)" by auto
      then have "ordinals_ok [a]" by (rule cumulative_attempt_ok)
      with assms(2) have d: "evidence_ok (st\<lparr>rs_attempts := set_default scope_id [a] (rs_attempts st)\<rparr>)" (is "evidence_ok ?st")
        by (auto simp: set_default_def evidence_ok_attempts)
      have n: "new_rejection inp e start ?st scope_id None a = new_rejection inp e start st scope_id None a"
        by (simp add: new_rejection_def)
      from evidence_ok_rejection [OF d, of inp e start scope_id None a] d True ns c assms(1)
      show ?thesis by (auto simp: record_rejection_def Let_def n split: if_splits)
    next
      case False
      with ns assms show ?thesis by (auto simp: record_rejection_def split: if_splits option.splits)
    qed
  qed
qed

lemma record_attempt_ok:
  assumes "evidence_ok st"
    and "ws_role step = ''worker'' \<Longrightarrow> tn_scope start = Some scope \<Longrightarrow>
      tn_ordinal start = Some (next_implementation_attempt_ordinal (attempts_of st scope))"
    and "scope = the (tn_scope start)"
  shows "evidence_ok (record_attempt env inp e start step t st)"
proof (cases "ws_role step = ''worker'' \<and> tn_scope start \<noteq> None")
  case True
  with assms have "ordinals_ok (attempts_of st scope @ [new_attempt inp e start step st])"
    by (intro ordinals_ok_snoc attempts_of_ok) (auto simp: new_attempt_def)
  from evidence_ok_attempts [OF assms(1) this, of scope] True assms(3) show ?thesis
    by (auto simp: record_attempt_def evidence_ok_def)
next
  case False
  with assms(1) show ?thesis by (auto simp: record_attempt_def split: option.splits)
qed

lemma settle_scope_evidence: "same_evidence st (settle_scope env e step t st)"
  by (auto simp: settle_scope_def same_evidence_def close_implementation_scope_def Let_def split: option.splits)

subsection \<open>The gate leaves the evidence alone\<close>

text \<open>What the gate does not touch.\<close>

definition gate_frame :: "routing_state \<Rightarrow> routing_state \<Rightarrow> bool" where
  "gate_frame st st' =
     (same_evidence st st' \<and> rs_scope st' = rs_scope st \<and> rs_streak st' = rs_streak st \<and>
      rs_streak_step st' = rs_streak_step st \<and> rs_repartition st' = rs_repartition st)"

lemma gate_frame_simps [simp]:
  "gate_frame st st"
  "gate_frame st (st'\<lparr>rs_override := x\<rparr>) = gate_frame st st'"
  "gate_frame st (st'\<lparr>rs_team_override := y\<rparr>) = gate_frame st st'"
  "gate_frame st (st'\<lparr>rs_decision := z\<rparr>) = gate_frame st st'"
  "gate_frame st (st'\<lparr>rs_notes := u\<rparr>) = gate_frame st st'"
  "gate_frame st (st'\<lparr>rs_pressure := v\<rparr>) = gate_frame st st'"
  "gate_frame st (bump st') = gate_frame st st'"
  "gate_frame st (with_signals s st') = gate_frame st st'"
  by (auto simp: gate_frame_def same_evidence_def bump_def with_signals_def split: option.splits)

lemma record_decision_frame [simp]: "gate_frame st (record_decision env turn st' d r) = gate_frame st st'"
  by (simp add: record_decision_def Let_def)

lemma apply_decision_frame: "apply_decision env turn st scope p d = Inr (nx, st') \<Longrightarrow> gate_frame st st'"
  unfolding apply_decision_def Let_def
  by (auto split: if_split_asm option.split_asm bool.split_asm sum.split_asm)

lemma unmanaged_frame: "unmanaged_gate env turn st scope p = Inr (nx, st') \<Longrightarrow> gate_frame st st'"
  by (auto simp: unmanaged_gate_def rbind_Inr_iff split: option.split_asm if_split_asm)

lemma gate_frame_trans: "gate_frame a b \<Longrightarrow> gate_frame b c \<Longrightarrow> gate_frame a c"
  by (simp add: gate_frame_def same_evidence_def)

lemma with_pressure_frame: "with_pressure turn st = Inr st' \<Longrightarrow> gate_frame st st'"
  by (auto simp: with_pressure_def rbind_Inr_iff split: if_splits)

lemma manager_gate_frame:
  assumes "manager_gate env turn st = Inr (nx, st')"
  shows "gate_frame st st'"
proof (cases "enabled env")
  case True
  from managed_gate [OF assms True] obtain scope p st1 d st2 where "with_pressure turn st = Inr st1"
    and c: "consult env turn (with_signals (gt_signals turn) st1) (base_eligible env turn st1 scope) = Inr (d, st2)"
    and "apply_decision env turn st2 scope p d = Inr (nx, st')" by metis
  moreover from consult_trusted(3) [OF c] have "gate_frame st1 st2" by auto
  ultimately show ?thesis by (meson gate_frame_trans with_pressure_frame apply_decision_frame)
next
  case False
  with assms obtain scope p st1 where "with_pressure turn st = Inr st1" "unmanaged_gate env turn st1 scope p = Inr (nx, st')"
    by (auto simp: manager_gate_def rbind_Inr_iff)
  then show ?thesis by (meson gate_frame_trans with_pressure_frame unmanaged_frame)
qed

subsection \<open>The parts of a turn\<close>

definition streak_of :: "routing_state \<Rightarrow> string option \<times> int" where
  "streak_of st = (rs_streak_step st, rs_streak st)"

definition worker_scope :: "turn_start \<Rightarrow> routing_state \<Rightarrow> bool" where
  "worker_scope start st =
     (tn_scope start \<noteq> None \<longrightarrow>
      tn_ordinal start = Some (next_implementation_attempt_ordinal (attempts_of st (the (tn_scope start)))))"

lemma open_scope_frame:
  "open_scope_for_turn inp snap role st = Inr st' \<Longrightarrow>
    same_evidence st st' \<and> streak_of st' = streak_of st \<and> rs_override st' = rs_override st \<and>
    rs_decision_number st' = rs_decision_number st \<and> rs_team_override st' = rs_team_override st \<and>
    (rs_scope st \<noteq> None \<longrightarrow> rs_scope st' = rs_scope st) \<and>
    (rs_scope st = None \<longrightarrow> scope_partition st' = (None, None, None))"
  by (auto simp: open_scope_for_turn_def open_implementation_scope_def same_evidence_def streak_of_def scope_partition_def Let_def
      split: if_split_asm option.split_asm prod.split_asm)

lemma begin_turn_parts:
  assumes "begin_turn env inp st = Inr (start, st')"
  obtains plan step cumulative where
    "load_plan (ti_original inp) (ge_files env (ti_original inp)) = Inr plan"
    "map_of (wf_steps (ge_workflow env)) (ti_step inp) = Some step"
    "open_scope_for_turn inp (plan_snap plan) (ws_role step) st = Inr st'"
    "tn_scope start = (case rs_scope st' of Some s \<Rightarrow> Some (is_id s) | None \<Rightarrow> cumulative)"
    "tn_consume start = (override_due env inp (ws_role step) st' \<noteq> None)"
    "tn_ordinal start = (if ws_role step = ''worker'' \<and> tn_scope start \<noteq> None
       then Some (next_implementation_attempt_ordinal (scope_attempts st' (tn_scope start))) else None)"
    "tn_team start = (case override_due env inp (ws_role step) st' of
        Some o' \<Rightarrow> Some (pt_target_team o')
      | None \<Rightarrow> if rs_team_override st' \<noteq> None then rs_team_override st' else ti_team inp)"
    "resolve_step_runtime (ge_sha env) (ge_config env)
       (''workflow.'' @ ge_workflow_name env @ ''.steps.'' @ ti_step inp) (Some (ti_step inp))
       (Some (ti_role_selectors inp)) (map_option as_team_override (override_due env inp (ws_role step) st'))
       (tn_team start) step = Inr (tn_selector start, tn_profile start)"
proof -
  obtain plan where p: "load_plan (ti_original inp) (ge_files env (ti_original inp)) = Inr plan"
    using assms by (cases "load_plan (ti_original inp) (ge_files env (ti_original inp))") (auto simp: begin_turn_def)
  obtain step where s: "map_of (wf_steps (ge_workflow env)) (ti_step inp) = Some step"
    using assms p by (cases "map_of (wf_steps (ge_workflow env)) (ti_step inp)") (auto simp: begin_turn_def)
  from assms p s show thesis
    by (auto simp: begin_turn_def rbind_Inr_iff Let_def intro!: that)
qed

lemma begin_turn_frame:
  assumes "begin_turn env inp st = Inr (start, st')"
  shows "same_evidence st st'" and "streak_of st' = streak_of st" and "rs_override st' = rs_override st"
  using begin_turn_parts [OF assms] open_scope_frame by metis+

lemma end_turn_parts:
  assumes "end_turn env inp start e st = Inr r"
  obtains step t limited st1 post target st2 where
    "map_of (wf_steps (ge_workflow env)) (ti_step inp) = Some step"
    "limit_terminal inp e t = Inr limited"
    "settle_turn env inp e start step t st = Inr st1"
    "select_next_active_plan_path env (ti_original inp) (active_after inp e) (te_new_path e) (te_new_plan e) t = Inr post"
    "\<not> (limit_reached inp e \<and> \<not> is_complete (te_after e) \<and> \<not> te_live e)"
    "manager_gate env (turn_gate inp e start step (go_to t) post) st1 = Inr (target, st2)"
    "conclude env inp e t limited target post st2 = Inr r"
proof -
  obtain step where s: "map_of (wf_steps (ge_workflow env)) (ti_step inp) = Some step"
    using assms by (cases "map_of (wf_steps (ge_workflow env)) (ti_step inp)") (auto simp: end_turn_def)
  from assms s obtain t limited st1 post target st2 where
    "limit_terminal inp e t = Inr limited" "settle_turn env inp e start step t st = Inr st1"
    "select_next_active_plan_path env (ti_original inp) (active_after inp e) (te_new_path e) (te_new_plan e) t = Inr post"
    "\<not> (limit_reached inp e \<and> \<not> is_complete (te_after e) \<and> \<not> te_live e)"
    and g: "map_sum Turn_Gate (\<lambda>x. x) (manager_gate env (turn_gate inp e start step (go_to t) post) st1) = Inr (target, st2)"
    and "conclude env inp e t limited target post st2 = Inr r"
    by (auto simp: end_turn_def rbind_Inr_iff split: if_split_asm)
  moreover from g have "manager_gate env (turn_gate inp e start step (go_to t) post) st1 = Inr (target, st2)"
    by (cases "manager_gate env (turn_gate inp e start step (go_to t) post) st1") auto
  ultimately show thesis using s that by blast
qed

lemma record_rejection_streak: "record_rejection env inp e start step t st = Inr st' \<Longrightarrow> streak_of st' = streak_of st"
  unfolding record_rejection_def Let_def
  by (auto simp: streak_of_def split: if_split_asm option.split_asm prod.split_asm)

lemma record_attempt_streak: "streak_of (record_attempt env inp e start step t st) = streak_of st"
  by (simp add: record_attempt_def streak_of_def split: option.split)

lemma settle_scope_streak: "streak_of (settle_scope env e step t st) = streak_of st"
  by (simp add: settle_scope_def close_implementation_scope_def streak_of_def Let_def split: option.split)

lemma settle_turn_frame: "settle_turn env inp e start step t st = Inr st' \<Longrightarrow> streak_of st' = streak_of st"
  by (auto simp: settle_turn_def rbind_Inr_iff settle_scope_streak record_attempt_streak dest: record_rejection_streak)

lemma settle_turn_evidence:
  assumes "settle_turn env inp e start step t st = Inr st'" and "evidence_ok st"
    and "ws_role step = ''worker'' \<Longrightarrow> worker_scope start st"
  shows "evidence_ok st'"
proof -
  from assms(1) obtain st1 where r: "record_rejection env inp e start step t st = Inr st1"
    and st': "st' = settle_scope env e step t (record_attempt env inp e start step t st1)"
    by (auto simp: settle_turn_def rbind_Inr_iff)
  have "evidence_ok (record_attempt env inp e start step t st1)"
  proof (rule record_attempt_ok [OF record_rejection_ok(1) [OF r assms(2)] _ refl])
    assume w: "ws_role step = ''worker''" and "tn_scope start = Some (the (tn_scope start))"
    then have "tn_scope start \<noteq> None" by (metis option.discI)
    moreover note assms(3) [OF w, unfolded worker_scope_def]
    moreover from record_rejection_ok(2) [OF r assms(2) w] have "attempts_of st1 x = attempts_of st x" for x
      by (simp add: same_evidence_def attempts_of_def)
    ultimately show "tn_ordinal start = Some (next_implementation_attempt_ordinal (attempts_of st1 (the (tn_scope start))))"
      by simp
  qed
  then show ?thesis unfolding st' using evidence_ok_same settle_scope_evidence by blast
qed

fun result_state :: "turn_result \<Rightarrow> routing_state" where
  "result_state (Turn_Continues step active st) = st"
| "result_state (Turn_Ends reason delivery st) = st"

lemma conclude_evidence:
  "conclude env inp e t limited target post st = Inr r \<Longrightarrow> same_evidence st (result_state r)"
  by (auto simp: conclude_def rbind_Inr_iff same_evidence_def update_streak_def split: if_split_asm)

lemma run_turn_evidence:
  assumes "evidence_ok st" and "run_turn env inp e st = Inr r"
  shows "evidence_ok (result_state r)"
proof -
  from assms(2) obtain start st0 where b: "begin_turn env inp st = Inr (start, st0)" and n: "end_turn env inp start e st0 = Inr r"
    by (auto simp: run_turn_def rbind_Inr_iff)
  from begin_turn_parts [OF b] obtain step where s: "map_of (wf_steps (ge_workflow env)) (ti_step inp) = Some step"
    and o: "tn_ordinal start = (if ws_role step = ''worker'' \<and> tn_scope start \<noteq> None
       then Some (next_implementation_attempt_ordinal (scope_attempts st0 (tn_scope start))) else None)" by metis
  from begin_turn_frame(1) [OF b] assms(1) have ok: "evidence_ok st0" by (simp add: evidence_ok_same)
  from end_turn_parts [OF n] s obtain t limited st1 post target st2 where
    se: "settle_turn env inp e start step t st0 = Inr st1"
    and g: "manager_gate env (turn_gate inp e start step (go_to t) post) st1 = Inr (target, st2)"
    and c: "conclude env inp e t limited target post st2 = Inr r" by (metis option.inject)
  have "evidence_ok st1"
    by (rule settle_turn_evidence [OF se ok]) (use o in \<open>auto simp: worker_scope_def scope_attempts_def split: option.splits\<close>)
  moreover from manager_gate_frame [OF g] have "same_evidence st1 st2" by (simp add: gate_frame_def)
  ultimately show ?thesis using conclude_evidence [OF c] evidence_ok_same by blast
qed

subsection \<open>Streaks\<close>

lemma run_turn_streak:
  assumes "run_turn env inp e st = Inr (Turn_Continues nx active st')"
  shows "length (wf_steps (ge_workflow env)) > 1 \<Longrightarrow>
      streak_of st' = (if stuck env inp e nx then (Some (ti_step inp), next_streak inp st) else (None, 0))"
    and "stuck env inp e nx \<Longrightarrow> 0 < as_max_same_step (uc_aflow (ge_config env)) \<Longrightarrow>
      next_streak inp st < as_max_same_step (uc_aflow (ge_config env))"
proof -
  from assms obtain start st0 where b: "begin_turn env inp st = Inr (start, st0)"
    and n: "end_turn env inp start e st0 = Inr (Turn_Continues nx active st')"
    by (auto simp: run_turn_def rbind_Inr_iff)
  from end_turn_parts [OF n] obtain step t limited st1 post target st2 where
    se: "settle_turn env inp e start step t st0 = Inr st1"
    and g: "manager_gate env (turn_gate inp e start step (go_to t) post) st1 = Inr (target, st2)"
    and c: "conclude env inp e t limited target post st2 = Inr (Turn_Continues nx active st')" by metis
  from manager_gate_frame [OF g] settle_turn_frame [OF se] begin_turn_frame(2) [OF b] have "streak_of st2 = streak_of st"
    by (simp add: gate_frame_def streak_of_def)
  then have ns: "next_streak inp st2 = next_streak inp st" by (simp add: next_streak_def streak_of_def)
  from c have nx: "nx = target" and st': "st' = update_streak env inp e nx (st2\<lparr>rs_team_override := None\<rparr>)"
    and k: "check_streak env inp e st2 nx = Inr ()"
    by (auto simp: conclude_def rbind_Inr_iff split: if_split_asm)
  have "next_streak inp (st2\<lparr>rs_team_override := None\<rparr>) = next_streak inp st2" by (simp add: next_streak_def)
  with st' ns show "streak_of st' = (if stuck env inp e nx then (Some (ti_step inp), next_streak inp st) else (None, 0))"
    if "length (wf_steps (ge_workflow env)) > 1"
    using that by (auto simp: update_streak_def streak_of_def)
  from k ns show "next_streak inp st < as_max_same_step (uc_aflow (ge_config env))"
    if "stuck env inp e nx" "0 < as_max_same_step (uc_aflow (ge_config env))"
    using that by (auto simp: check_streak_def Let_def split: if_split_asm)
qed

text \<open>Turns of one step, each of which selects the step again without progress.\<close>

inductive idle_turns :: "gate_env \<Rightarrow> string \<Rightarrow> nat \<Rightarrow> routing_state \<Rightarrow> routing_state \<Rightarrow> bool" for env s where
  none: "idle_turns env s 0 st st"
| more: "idle_turns env s n st st1 \<Longrightarrow> ti_step inp = s \<Longrightarrow> \<not> plan_snapshot_made_progress (te_before e) (te_after e) \<Longrightarrow>
    run_turn env inp e st1 = Inr (Turn_Continues s active st2) \<Longrightarrow> idle_turns env s (Suc n) st st2"

lemma idle_turns_streak:
  assumes "idle_turns env s n st st'" and "length (wf_steps (ge_workflow env)) > 1" and "0 \<le> rs_streak st"
  shows "n = 0 \<or> (rs_streak_step st' = Some s \<and> int n \<le> rs_streak st')"
  using assms
proof (induction rule: idle_turns.induct)
  case (more n st st1 inp e active st2)
  from more.hyps(2,3) more.prems(1) have "stuck env inp e s" by (simp add: stuck_def)
  with run_turn_streak(1) [OF more.hyps(4) more.prems(1)] more.hyps(2) have
    "rs_streak_step st2 = Some s" and k: "rs_streak st2 = next_streak inp st1" by (auto simp: streak_of_def)
  moreover have "int (Suc n) \<le> next_streak inp st1"
    using more.IH [OF more.prems] more.hyps(1,2) more.prems(2)
    by (cases "n = 0") (auto simp: next_streak_def elim: idle_turns.cases)
  ultimately show ?case by simp
qed simp

subsection \<open>A route and the turn it is for\<close>

lemma target_identity_nonempty: "nonempty (Some (target_plan_identity files path))"
  by (auto simp: nonempty_def target_plan_identity_def)

lemma override_selects:
  assumes "resolve_step_runtime sha cfg path (Some name) selectors (Some (as_team_override o')) team step = Inr (sel, prof)"
    and "\<not> pt_consumed o'" and "pt_role o' = ws_role step" and "pt_target_step o' = name"
  shows "sel = pt_selector o'"
  using assms by (auto simp: resolve_step_runtime_def rbind_Inr_iff resolve_role_selector_def override_applies_def
      as_team_override_def)

lemma routed_turn:
  assumes "routed_to env turn st u st'" and "begin_turn env inp st2 = Inr (start, st3)"
    and "rs_scope st2 = rs_scope st" and "rs_override st2 = rs_override st'"
    and "ti_step inp = gt_proposed turn" and "ti_active inp = proposed_plan turn"
    and "scope_partition st = (None, None, None) \<or> (enabled env \<and> list_all (\<lambda>v. v \<noteq> None) (partition_texts (scope_partition st)))"
    and "gt_proposed turn \<noteq> ''END''"
  shows "Some (tn_selector start) = eu_target_selector u" and "tn_team start = eu_target_team u" and "tn_consume start"
proof -
  from assms(1) obtain o' step where o: "rs_override st' = Some o'" and c: "candidate env turn = Some step"
    and f: "pt_target_step o' = gt_proposed turn" "pt_role o' = ws_role step" "\<not> pt_consumed o'"
      "Some (pt_target_team o') = eu_target_team u" "Some (pt_selector o') = eu_target_selector u"
      "pt_scope o' = map_option is_id (rs_scope st)"
      "pt_target_plan o' = Some (target_plan_identity (ge_files env) (proposed_plan turn))"
      "pt_partition o' = (if enabled env then scope_partition st else (None, None, None))"
    by (auto simp: routed_to_def split: option.splits)
  obtain plan step' cumulative where
    "load_plan (ti_original inp) (ge_files env (ti_original inp)) = Inr plan"
    and s: "map_of (wf_steps (ge_workflow env)) (ti_step inp) = Some step'"
    and op: "open_scope_for_turn inp (plan_snap plan) (ws_role step') st2 = Inr st3"
    and "tn_scope start = (case rs_scope st3 of Some s \<Rightarrow> Some (is_id s) | None \<Rightarrow> cumulative)"
    and k: "tn_consume start = (override_due env inp (ws_role step') st3 \<noteq> None)"
    and "tn_ordinal start = (if ws_role step' = ''worker'' \<and> tn_scope start \<noteq> None
       then Some (next_implementation_attempt_ordinal (scope_attempts st3 (tn_scope start))) else None)"
    and t: "tn_team start = (case override_due env inp (ws_role step') st3 of
        Some o' \<Rightarrow> Some (pt_target_team o')
      | None \<Rightarrow> if rs_team_override st3 \<noteq> None then rs_team_override st3 else ti_team inp)"
    and r: "resolve_step_runtime (ge_sha env) (ge_config env)
       (''workflow.'' @ ge_workflow_name env @ ''.steps.'' @ ti_step inp) (Some (ti_step inp))
       (Some (ti_role_selectors inp)) (map_option as_team_override (override_due env inp (ws_role step') st3))
       (tn_team start) step' = Inr (tn_selector start, tn_profile start)"
    by (rule begin_turn_parts [OF assms(2)])
  from s c assms(5,8) have st: "step' = step" by (simp add: candidate_def step_named_def next_step_of_def)
  note fr = open_scope_frame [OF op]
  have sc: "pt_scope o' = None \<or> pt_scope o' = map_option is_id (rs_scope st3)"
    using fr f(6) assms(3) by (cases "rs_scope st") auto
  have eq: "scope_partition st3 = scope_partition st"
    using fr assms(3) by (cases "rs_scope st") (simp_all add: scope_partition_def)
  have pa: "\<not> list_ex (\<lambda>v. v \<noteq> None) (partition_texts (scope_partition st3) @ partition_texts (pt_partition o')) \<or>
      (list_all (\<lambda>v. v \<noteq> None) (partition_texts (pt_partition o')) \<and> pt_partition o' = scope_partition st3)"
    using assms(7)
  proof
    assume "scope_partition st = (None, None, None)"
    then show ?thesis using eq f(8) by simp
  next
    assume "enabled env \<and> list_all (\<lambda>v. v \<noteq> None) (partition_texts (scope_partition st))"
    then show ?thesis using eq f(8) by (simp del: not_None_eq)
  qed
  have "first_text (pt_target_plan o') (pt_checkpoint o') = Some (target_plan_identity (ge_files env) (ti_active inp))"
    using f(7) assms(6) target_identity_nonempty by (simp add: first_text_def)
  with sc pa have "override_matches o' st3 (target_plan_identity (ge_files env) (ti_active inp))"
    unfolding override_matches_def pending_matches_scope_and_plan_def Let_def by blast
  with fr o f assms(4,5) st have due: "override_due env inp (ws_role step') st3 = Some o'" by (simp add: override_due_def)
  from override_selects [OF r [unfolded due option.map] f(3)] f assms(5) st due t k
  show "Some (tn_selector start) = eu_target_selector u" "tn_team start = eu_target_team u" "tn_consume start" by auto
qed

end
