(* ===== verification/Manager_Samples.thy ===== *)
theory Manager_Samples
  imports Turn_Laws
begin

text \<open>
  One run that the theorems about turns and the manager are applied to: two teams of which the first
  upgrades to the second, a worker step and a review step, and a plan with one open checkpoint.
\<close>

definition run_plan :: string where
  "run_plan = ''### [ ] Checkpoint 1: build'' @ [LF] @ ''- [ ] one'' @ [LF]"

definition plain_team :: "string \<Rightarrow> string option \<Rightarrow> team_config" where
  "plain_team selector upgrade =
     \<lparr>tm_roles = [(''worker'', selector)], tm_prompts = [], tm_backup = None, tm_upgrade = upgrade,
      tm_extends = None, tm_display = None\<rparr>"

definition plain_profile :: harness_profile where
  "plain_profile = \<lparr>pf_model = None, pf_effort = None, pf_exclusive = False\<rparr>"

definition run_workflow :: "bool \<Rightarrow> workflow_config" where
  "run_workflow managed =
     (let steps =
        [(''implement'', \<lparr>ws_role = ''worker'', ws_prompts = [],
            ws_go = [\<lparr>go_to = ''implement'', go_when = Some ''!DONE'', go_preserve = False\<rparr>,
                     \<lparr>go_to = ''review'', go_when = None, go_preserve = False\<rparr>]\<rparr>),
         (''review'', \<lparr>ws_role = ''reviewer'', ws_prompts = [],
            ws_go = [\<lparr>go_to = ''implement'', go_when = Some ''NEW_PLAN_EXISTS'', go_preserve = False\<rparr>,
                     \<lparr>go_to = ''END'', go_when = Some ''DONE'', go_preserve = False\<rparr>,
                     \<lparr>go_to = ''implement'', go_when = None, go_preserve = False\<rparr>]\<rparr>)]
      in \<lparr>wf_declared_steps = steps, wf_steps = steps, wf_first_step = Some ''implement'', wf_excluded = [],
          wf_retry = None, wf_team = Some ''alpha'', wf_extends = None, wf_setup = None, wf_teardown = None,
          wf_main_branch = None, wf_merge_prompt = None, wf_manager_enabled = Some managed,
          wf_upgrade_after_repairs = 1, wf_declared_upgrade = None, wf_upgrade_source = ''default''\<rparr>)"

definition run_config :: "bool \<Rightarrow> user_config" where
  "run_config managed =
     \<lparr>uc_aflow = default_aflow, uc_harnesses = [(''codex'', [(''fast'', plain_profile), (''strong'', plain_profile)])],
      uc_roles = [(''worker'', ''codex.fast''), (''reviewer'', ''codex.fast'')], uc_role_prompts = [],
      uc_teams = [(''alpha'', plain_team ''codex.fast'' (Some ''beta'')), (''beta'', plain_team ''codex.strong'' None)],
      uc_manager = default_manager, uc_recovery = default_recovery, uc_workflows = [(''main'', run_workflow managed)],
      uc_prompts = []\<rparr>"

definition run_files :: "string \<Rightarrow> string option" where
  "run_files path = (if path \<in> {''p.md'', ''p-cp01-v01.md''} then Some run_plan else None)"

text \<open>A decoder that knows the two texts the sample manager prints.\<close>

definition decision_object :: "string \<Rightarrow> json" where
  "decision_object action =
     JObj [(''schema_version'', JInt 1), (''action'', JStr action), (''reason'', JStr ''fine''),
       (''next_step_notes'', JList []), (''stop_report'', JNull)]"

definition run_loads :: "string \<Rightarrow> string + json" where
  "run_loads t = (if t \<in> {''continue'', ''escalate_to_full''} then Inr (decision_object t) else Inl ''Expecting value'')"

definition run_env :: "bool \<Rightarrow> gate_env" where
  "run_env managed =
     \<lparr>ge_files = run_files, ge_realpath = (\<lambda>p. p), ge_worktree = None, ge_repo_root = ''/repo'', ge_sha = (\<lambda>s. s),
      ge_loads = run_loads, ge_config = run_config managed, ge_workflow_name = ''main'', ge_workflow = run_workflow managed\<rparr>"

definition run_scope :: impl_scope where
  "run_scope =
     \<lparr>is_id = ''p.md::checkpoint-1::checkpoint-1-build'', is_plan = ''p.md'', is_index = Some 1,
      is_name = Some ''Checkpoint 1: build'', is_opened = 1, is_awaiting = True, is_carried = 0,
      is_partition = (None, None, None)\<rparr>"

definition run_attempt :: "int \<Rightarrow> int \<Rightarrow> impl_attempt" where
  "run_attempt turn ordinal =
     \<lparr>at_turn = turn, at_step = ''implement'', at_role = ''worker'', at_team = Some ''alpha'', at_selector = Some ''codex.fast'',
      at_outcome = ''progress'', at_decision = None, at_repair = Some 0, at_team_repairs = Some 0, at_ordinal = Some ordinal\<rparr>"

definition run_rejection :: "int \<Rightarrow> int \<Rightarrow> rejection" where
  "run_rejection number turn =
     \<lparr>rj_scope = is_id run_scope, rj_number = number, rj_run = ''run-1'', rj_review_turn = turn + 1,
      rj_review_step = ''review'', rj_reviewer = Some ''codex.fast'', rj_index = Some 1, rj_name = is_name run_scope,
      rj_turn = turn, rj_team = Some ''alpha'', rj_selector = Some ''codex.fast'', rj_summary = ''bad'',
      rj_repair_summary = None, rj_stdout = ''out'', rj_repair_path = Some ''p-cp01-v01.md'', rj_ordinal = Some number\<rparr>"

text \<open>Two attempts, the first already rejected; the review of the second is next.\<close>

definition run_state :: routing_state where
  "run_state =
     \<lparr>rs_scope = Some run_scope, rs_attempts = [(is_id run_scope, [run_attempt 1 1, run_attempt 3 2])],
      rs_rejections = [run_rejection 1 1], rs_notes = None, rs_override = None, rs_decision = None,
      rs_rejection_count = 0, rs_stalls = 0, rs_streak_step = None, rs_streak = 0, rs_team_override = None,
      rs_decision_number = 0, rs_pressure = None, rs_repartition = False\<rparr>"

definition run_input :: "string \<Rightarrow> int \<Rightarrow> string \<Rightarrow> turn_input" where
  "run_input step n active =
     \<lparr>ti_step = step, ti_number = n, ti_original = ''p.md'', ti_active = active, ti_baseline = Some ''alpha'',
      ti_team = Some ''alpha'', ti_role_selectors = [], ti_envelope_error = None\<rparr>"

definition open_snapshot :: plan_snapshot where
  "open_snapshot =
     \<lparr>current_checkpoint_name = Some ''Checkpoint 1: build'', unchecked_checkpoint_count = 1,
      current_checkpoint_unchecked_step_count = 1, is_complete = False, total_checkpoint_count = 1,
      current_checkpoint_index = Some 1\<rparr>"

definition done_snapshot :: plan_snapshot where
  "done_snapshot =
     \<lparr>current_checkpoint_name = None, unchecked_checkpoint_count = 0, current_checkpoint_unchecked_step_count = 0,
      is_complete = True, total_checkpoint_count = 1, current_checkpoint_index = None\<rparr>"

definition manager_says :: "string \<Rightarrow> manager_reply" where
  "manager_says out =
     \<lparr>mr_prelaunch = None, mr_blocked = None, mr_returncode = 0, mr_stdout = out, mr_mutated = False,
      mr_correction = \<lparr>cr_drifted = False, cr_blocked = None, cr_returncode = 0, cr_stdout = [], cr_mutated = False\<rparr>\<rparr>"

definition run_end :: "plan_snapshot \<Rightarrow> plan_snapshot \<Rightarrow> bool \<Rightarrow> turn_end" where
  "run_end prior after new_plan =
     \<lparr>te_max = 15, te_live = False, te_before = prior, te_after = after, te_new_path = ''p-cp01-v01.md'',
      te_new_plan = new_plan, te_overlay = new_plan, te_resumed_review = False, te_run_id = ''run-1'',
      te_review_summary = ''bad'', te_repair_summary = None, te_stdout_path = ''out'',
      te_repair_path = (if new_plan then Some ''p-cp01-v01.md'' else None), te_pressure = None, te_signals = None,
      te_gate_error = None, te_drift_allowed = True, te_scopes = \<lparr>ns_proposed = None, ns_retry = None\<rparr>,
      te_replies = (manager_says ''escalate_to_full'', manager_says ''continue'')\<rparr>"

text \<open>The boundary after the second review.\<close>

definition run_start :: turn_start where
  "run_start =
     \<lparr>tn_scope = Some (is_id run_scope), tn_team = Some ''alpha'', tn_selector = ''codex.fast'',
      tn_profile = \<lparr>rp_harness = ''codex'', rp_profile = ''fast'', rp_model = None, rp_effort = None, rp_exclusive_resource = None\<rparr>,
      tn_ordinal = None, tn_repair = None, tn_team_repairs = None, tn_consume = False\<rparr>"

definition rejected_state :: routing_state where
  "rejected_state = run_state\<lparr>rs_scope := Some (run_scope\<lparr>is_awaiting := False\<rparr>),
     rs_rejections := [run_rejection 1 1, run_rejection 2 3]\<rparr>"

definition review_gate :: "gate_turn" where
  "review_gate = turn_gate (run_input ''review'' 4 ''p.md'') (run_end open_snapshot open_snapshot True) run_start
     \<lparr>ws_role = ''reviewer'', ws_prompts = [], ws_go = []\<rparr> ''implement'' ''p-cp01-v01.md''"

end
