(* ===== verification/Manager_Properties.thy ===== *)
theory Manager_Properties
  imports Manager_Samples
begin

text \<open>
  The promises of the manager, of the repair policy and of the turn, each followed by an application
  to the sample run.
\<close>

subsection \<open>Lemmas of this theory\<close>

definition next_upgrade :: "team_config dictionary \<Rightarrow> string \<Rightarrow> string option" where
  "next_upgrade teams t = (case map_of teams t of None \<Rightarrow> None | Some c \<Rightarrow> tm_upgrade c)"

primrec upgrade_steps :: "team_config dictionary \<Rightarrow> nat \<Rightarrow> string \<Rightarrow> string option" where
  "upgrade_steps teams 0 t = Some t"
| "upgrade_steps teams (Suc n) t = (case next_upgrade teams t of None \<Rightarrow> None | Some u \<Rightarrow> upgrade_steps teams n u)"

lemma upgrade_steps_add:
  "upgrade_steps teams (a + b) t = (case upgrade_steps teams a t of None \<Rightarrow> None | Some u \<Rightarrow> upgrade_steps teams b u)"
  by (induction a arbitrary: t) (auto split: option.split)

lemma upgrade_depth_sound:
  "upgrade_depth_from teams goal seen depth t = Some d \<Longrightarrow>
    \<exists>n. d = depth + n \<and> upgrade_steps teams n t = Some goal \<and> (\<forall>k < n. upgrade_steps teams k t \<noteq> Some goal)"
proof (induction teams goal seen depth t rule: upgrade_depth_from.induct)
  case (1 teams goal seen depth t)
  show ?case
  proof (cases "t = goal")
    case True
    with 1(2) show ?thesis by (intro exI [of _ 0]) (simp add: upgrade_depth_from.simps)
  next
    case False
    with 1(2) obtain c u where c: "t \<notin> set seen" "map_of teams t = Some c" "tm_upgrade c = Some u"
      and r: "upgrade_depth_from teams goal (t # seen) (Suc depth) u = Some d"
      by (auto simp: upgrade_depth_from.simps [of teams goal seen depth t] split: option.split_asm if_split_asm)
    from 1(1) [OF False c r] obtain n where n: "d = Suc depth + n" "upgrade_steps teams n u = Some goal"
      "\<forall>k < n. upgrade_steps teams k u \<noteq> Some goal" by auto
    have "upgrade_steps teams k t \<noteq> Some goal" if "k < Suc n" for k
      using that n(3) False c by (cases k) (auto simp: next_upgrade_def)
    with n c show ?thesis by (intro exI [of _ "Suc n"]) (auto simp: next_upgrade_def)
  qed
qed

lemma upgrade_depth_complete:
  assumes "upgrade_steps teams n t = Some goal" and "\<forall>k < n. upgrade_steps teams k t \<noteq> Some goal"
    and "\<forall>k < n. \<forall>s \<in> set seen. upgrade_steps teams k t \<noteq> Some s"
  shows "upgrade_depth_from teams goal seen depth t = Some (depth + n)"
  using assms
proof (induction n arbitrary: t seen depth)
  case 0
  then show ?case by (simp add: upgrade_depth_from.simps)
next
  case (Suc n)
  from Suc.prems(1) obtain u where u: "next_upgrade teams t = Some u" and g: "upgrade_steps teams n u = Some goal"
    by (auto split: option.split_asm)
  have sh: "upgrade_steps teams (Suc k) t = upgrade_steps teams k u" for k by (simp add: u)
  have "t \<noteq> goal" using Suc.prems(2) by (metis upgrade_steps.simps(1) zero_less_Suc)
  moreover have "t \<notin> set seen" using Suc.prems(3) by (metis upgrade_steps.simps(1) zero_less_Suc)
  moreover have "upgrade_depth_from teams goal (t # seen) (Suc depth) u = Some (Suc depth + n)"
  proof (rule Suc.IH [OF g])
    show "\<forall>k < n. upgrade_steps teams k u \<noteq> Some goal"
      using Suc.prems(2) sh by (metis Suc_mono)
    have "upgrade_steps teams k u \<noteq> Some t" if k: "k < n" for k
    proof
      assume c: "upgrade_steps teams k u = Some t"
      have "upgrade_steps teams (Suc k + (Suc n - Suc k)) t = upgrade_steps teams (Suc n - Suc k) t"
        unfolding upgrade_steps_add sh c by simp
      with k Suc.prems(1,2) show False by (metis diff_Suc_Suc diff_less_Suc le_add_diff_inverse less_imp_le_nat
          Suc_le_mono add.commute)
    qed
    with Suc.prems(3) sh show "\<forall>k < n. \<forall>s \<in> set (t # seen). upgrade_steps teams k u \<noteq> Some s"
      by (metis Suc_mono set_ConsD)
  qed
  ultimately show ?case using u
    by (auto simp: upgrade_depth_from.simps [of teams goal seen depth t] next_upgrade_def split: option.split option.split_asm)
qed

subsection \<open>Decisions\<close>

text \<open>
  C6. A decision the controller accepts comes from a manager that was launched, exited with code zero and
  left the repository as it was. Either its own output is the decision; or that output broke a rule
  of notes that can be corrected, and the decision is the output of the one correction, whose
  process exited with code zero and left the repository as it was as well, and which keeps the
  action, the reason and the stop report. In both cases the decision is well formed, its action is
  one of those the boundary offered, an escalation comes from Lite only and a repartition from Full
  only, an accepted END carries no notes, and every note passes the rules of the manager's authority.
\<close>

theorem accepted_decisions_are_legal:
  assumes "manager_call loads scopes level eligible proposed reply = Inr out" and "co_decision out = Some d"
  shows "mr_prelaunch reply = None \<and> mr_blocked reply = None \<and> mr_returncode reply = 0 \<and> \<not> mr_mutated reply \<and>
    (if co_correction_consumed out then corrects loads scopes level eligible proposed reply d
     else judged_decision loads scopes level (call_eligible level eligible) proposed (mr_stdout reply) = Inr d) \<and>
    decision_legal scopes level eligible proposed d"
  using manager_call_outcome [OF assms] manager_call_accepts [OF assms] by blast

text \<open>A manager that names a plan in its note, and takes the name back when asked.\<close>

definition noted :: "string list \<Rightarrow> json" where
  "noted ns = JObj [(''schema_version'', JInt 1), (''action'', JStr ''continue''), (''reason'', JStr ''fine''),
     (''next_step_notes'', JList (map JStr ns)), (''stop_report'', JNull)]"

definition noting_loads :: "string \<Rightarrow> string + json" where
  "noting_loads t =
     (if t = ''draft'' then Inr (noted [''use plans/b.md'']) else if t = ''fixed'' then Inr (noted [''check the tests''])
      else Inl ''Expecting value'')"

definition corrected_reply :: manager_reply where
  "corrected_reply =
     \<lparr>mr_prelaunch = None, mr_blocked = None, mr_returncode = 0, mr_stdout = ''draft'', mr_mutated = False,
      mr_correction = \<lparr>cr_drifted = False, cr_blocked = None, cr_returncode = 0, cr_stdout = ''fixed'', cr_mutated = False\<rparr>\<rparr>"

theorem accepted_decisions_are_legal_witness:
  "\<exists>d. md_notes d = [''check the tests''] \<and> md_action d = ''continue'' \<and>
     decision_legal \<lparr>ns_proposed = None, ns_retry = None\<rparr> ''lite'' [''continue''] ''review'' d \<and>
     corrects noting_loads \<lparr>ns_proposed = None, ns_retry = None\<rparr> ''lite'' [''continue''] ''review'' corrected_reply d"
proof -
  let ?call = "manager_call noting_loads \<lparr>ns_proposed = None, ns_retry = None\<rparr> ''lite'' [''continue''] ''review'' corrected_reply"
  let ?d = "\<lparr>md_action = ''continue'', md_reason = ''fine'', md_notes = [''check the tests''], md_stop_report = None\<rparr>"
  have "?call = Inr (accepted ?d\<lparr>co_correction_consumed := True\<rparr>)" by code_simp
  from accepted_decisions_are_legal [OF this, of ?d] show ?thesis
    by (intro exI [of _ ?d]) (simp add: accepted_def)
qed

text \<open>
  The rules a note is checked with: searching a text finds a rule exactly where the regular
  expression, read as a relation between two positions, matches.
\<close>

theorem note_search_reference: "search r s = (\<exists>i j. i \<le> length s \<and> reads r s i j)"
  by (rule search_reads)

text \<open>
  C30. An \<open>action\<close> that is a list or an object is not refused as an invalid decision: its lookup in
  the set of actions raises, and the exception leaves the call of the manager.
\<close>

theorem unhashable_action_escapes:
  assumes "loads (mr_stdout reply) = Inr (JObj d)" and "fence_body (mr_stdout reply) = None"
    and "check_keys ''manager decision'' DECISION_KEYS d = Inr ()" and "equals_int (dget d ''schema_version'') 1"
    and "\<not> hashable (dget d ''action'')"
    and "mr_prelaunch reply = None" and "mr_blocked reply = None" and "mr_returncode reply = 0"
  shows "manager_call loads scopes level eligible proposed reply = Inl (TypeError ''unhashable type'')"
proof -
  from assms(5) have "parse_action (dget d ''action'') = Inl (Decision_Raised (TypeError ''unhashable type''))"
    by (cases "dget d ''action''") (auto simp: parse_action_def)
  with assms(1-4) have "parse_manager_decision loads (mr_stdout reply) = Inl (Decision_Raised (TypeError ''unhashable type''))"
    by (simp add: parse_manager_decision_def parse_decision_object_def)
  with assms(6-8) show ?thesis
    by (simp add: manager_call_def first_judgement_def judged_decision_def checked_decision_def Let_def)
qed

theorem unhashable_action_escapes_witness:
  "manager_call (\<lambda>t. Inr (JObj [(''schema_version'', JInt 1), (''action'', JList []), (''reason'', JStr ''fine''),
      (''next_step_notes'', JList []), (''stop_report'', JNull)])) \<lparr>ns_proposed = None, ns_retry = None\<rparr> ''lite'' [''continue'']
     ''END'' (manager_says ''x'') = Inl (TypeError ''unhashable type'')"
  by (rule unhashable_action_escapes [where d = "[(''schema_version'', JInt 1), (''action'', JList []),
      (''reason'', JStr ''fine''), (''next_step_notes'', JList []), (''stop_report'', JNull)]"])
    (code_simp | simp add: manager_says_def)+

subsection \<open>The gate\<close>

text \<open>
  C14. With a manager, a transition leaves the gate only on a decision the controller may trust, that
  was among the actions of the boundary and is put down in the state; the next step is the proposed
  one, or the current one where the boundary was retryable or an operational failure with a backup
  team; a stop never passes; and the gate makes one or two calls.
\<close>

theorem managed_transitions_are_trusted:
  assumes "enabled env" and "manager_gate env turn st = Inr (nx, st')"
  shows "\<exists>scope d. trusted env turn (base_eligible env turn st scope) d \<and>
      md_action d \<in> set (base_eligible env turn st scope) \<and> md_action d \<noteq> ''stop'' \<and>
      map_option pd_action (rs_decision st') = Some (md_action d) \<and>
      (nx = gt_proposed turn \<or> (nx = gt_step turn \<and> (gt_retryable turn \<or>
         (gt_operational turn \<and> gt_backup_team turn \<noteq> None \<and> gt_backup_team turn \<noteq> gt_active_team turn)))) \<and>
      rs_decision_number st < rs_decision_number st' \<and> rs_decision_number st' \<le> rs_decision_number st + 2"
proof -
  from managed_gate [OF assms(2,1)] obtain scope p st1 d st2 where w: "with_pressure turn st = Inr st1"
    and c: "consult env turn (with_signals (gt_signals turn) st1) (base_eligible env turn st1 scope) = Inr (d, st2)"
    and a: "apply_decision env turn st2 scope p d = Inr (nx, st')" by metis
  note ws = with_pressure_simps [OF w]
  from ws have b: "base_eligible env turn st1 scope = base_eligible env turn st scope" by (intro base_eligible_cong) auto
  note t = consult_trusted [OF c, unfolded b] and ap = apply_decision_Inr [OF a]
  from ap(1) have pd: "map_option pd_action (rs_decision st') = Some (md_action d)" by (auto simp: boundary_decision_def)
  from t(3) ap(2) ws have n: "rs_decision_number st < rs_decision_number st' \<and> rs_decision_number st' \<le> rs_decision_number st + 2"
    by auto
  have "gt_retryable turn \<or> (gt_operational turn \<and> gt_backup_team turn \<noteq> None \<and> gt_backup_team turn \<noteq> gt_active_team turn)"
    if "md_action d \<in> set RETRY_ACTIONS"
    using that t(2) base_eligible_retry(1,2) [of env turn st scope] by (auto simp: RETRY_ACTIONS_def)
  with t ap(3,4) pd n show ?thesis by (intro exI [of _ scope] exI [of _ d]) blast
qed

theorem managed_transitions_are_trusted_witness:
  "\<exists>nx st'. manager_gate (run_env True) review_gate rejected_state = Inr (nx, st') \<and>
     rs_decision_number st' \<le> 2"
proof -
  have e: "enabled (run_env True)" by code_simp
  have "\<not> is_error (manager_gate (run_env True) review_gate rejected_state)" by code_simp
  then obtain nx st' where g: "manager_gate (run_env True) review_gate rejected_state = Inr (nx, st')"
    by (cases "manager_gate (run_env True) review_gate rejected_state") auto
  have "rs_decision_number rejected_state = 0" by code_simp
  with managed_transitions_are_trusted [OF e g] g show ?thesis by auto
qed

subsection \<open>Repairs\<close>

text \<open>
  C16. A forced upgrade rests on failed repairs: at least as many distinct worker attempts of the current
  team as the threshold asks for were rejected, each by a rejection of this scope that names it
  alone, and each ran after an attempt that had been rejected before. A rejection of the first
  attempt alone therefore forces nothing once the threshold is positive.
\<close>

theorem forced_upgrade_needs_failed_repairs:
  assumes "determine_repair_upgrade_policy cfg (JInt threshold) role baseline (Some scope) attempts rejections = Inr p"
    and "up_forced p"
  shows "\<exists>es team. up_current_team p = Some team \<and> distinct es \<and> threshold \<le> int (length es) \<and>
    list_all (\<lambda>e. rejected_attempt scope attempts rejections e \<and> dget (snd e) ''team'' = JStr team) es \<and>
    list_all (\<lambda>e. \<exists>f. rejected_attempt scope attempts rejections f \<and> attempt_chronology f < attempt_chronology e) es \<and>
    up_repairs_completed p < the (up_repair_ordinal p)"
proof -
  from determine_policy_active [OF assms(1) forced_active [OF assms]] obtain scope' where "Some scope = Some scope'"
    and w: "worker_attempts attempts \<noteq> []" and v: "valid_rejections scope' (worker_attempts attempts) rejections \<noteq> []"
    and p: "p = active_policy cfg (int_of (JInt threshold)) role baseline scope'
       (valid_rejections scope' (worker_attempts attempts) rejections) (snd (last (worker_attempts attempts)))" by metis
  let ?valid = "valid_rejections scope (worker_attempts attempts) rejections"
  let ?a = "snd (last (worker_attempts attempts))"
  from last_in_set [OF w] have "worker_attempt ?a" using worker_attempts_in by blast
  then obtain team where t: "dget ?a ''team'' = JStr team" by (cases "dget ?a ''team''") (auto simp: worker_attempt_def)
  with p \<open>Some scope = Some scope'\<close> assms(2) have r: "threshold \<le> int (team_repairs ?valid (JStr team))"
    and c: "up_current_team p = Some team" and n: "up_repairs_completed p = team_repairs ?valid (JStr team)"
    "up_repair_ordinal p = Some (length ?valid)"
    by (simp_all add: active_policy_def Let_def)
  from team_repairs_witnesses [of scope attempts rejections "JStr team"] obtain es where
    "distinct es" "length es = team_repairs ?valid (JStr team)"
    "\<forall>e \<in> set es. rejected_attempt scope attempts rejections e \<and> dget (snd e) ''team'' = JStr team \<and>
       (\<exists>f. rejected_attempt scope attempts rejections f \<and> attempt_chronology f < attempt_chronology e)" by metis
  moreover from team_repairs_less [OF _ valid_rejections_ok(1)] v \<open>Some scope = Some scope'\<close>
  have "up_repairs_completed p < the (up_repair_ordinal p)" unfolding n by simp
  ultimately show ?thesis using r c by (intro exI [of _ es] exI [of _ team]) (simp add: list_all_iff)
qed

theorem forced_upgrade_needs_failed_repairs_witness:
  "\<exists>es. distinct es \<and> 1 \<le> int (length es) \<and>
     list_all (rejected_attempt (is_id run_scope) [attempt_dict (run_attempt 1 1), attempt_dict (run_attempt 3 2)]
       [rejection_dict (run_rejection 1 1), rejection_dict (run_rejection 2 3)]) es"
proof -
  let ?p = "determine_repair_upgrade_policy (run_config True) (JInt 1) ''worker'' (Some ''alpha'') (Some (is_id run_scope))
    [attempt_dict (run_attempt 1 1), attempt_dict (run_attempt 3 2)]
    [rejection_dict (run_rejection 1 1), rejection_dict (run_rejection 2 3)]"
  have "case ?p of Inl e \<Rightarrow> False | Inr p \<Rightarrow> up_forced p" by code_simp
  then obtain p where "?p = Inr p" "up_forced p" by (cases ?p) auto
  from forced_upgrade_needs_failed_repairs [OF this] show ?thesis by (auto simp: list_all_iff)
qed



end
