(* ===== verification/Turn_Properties.thy ===== *)
theory Turn_Properties
  imports Manager_Properties
begin

text \<open>
  The promises of a turn of the engine, each followed by an application to the sample run.
\<close>

subsection \<open>Lemmas of this theory\<close>

lemma run_turn_parts:
  assumes "run_turn env inp e st = Inr r"
  obtains start st0 step t limited st1 post target st2 where "begin_turn env inp st = Inr (start, st0)"
    "map_of (wf_steps (ge_workflow env)) (ti_step inp) = Some step" "limit_terminal inp e t = Inr limited"
    "settle_turn env inp e start step t st0 = Inr st1"
    "manager_gate env (turn_gate inp e start step (go_to t) post) st1 = Inr (target, st2)"
    "conclude env inp e t limited target post st2 = Inr r"
proof -
  from assms obtain start st0 where b: "begin_turn env inp st = Inr (start, st0)" and n: "end_turn env inp start e st0 = Inr r"
    by (auto simp: run_turn_def rbind_Inr_iff)
  from end_turn_parts [OF n] that [OF b] show thesis by metis
qed

lemma settle_turn_scope:
  assumes "settle_turn env inp e start step t st = Inr st'" and "rs_scope st = Some s" and "ws_role step \<noteq> ''worker''"
  shows "rs_scope st' = None \<longleftrightarrow> \<not> te_new_plan e \<and> original_checkpoint_advanced s (te_after e)"
proof -
  from assms(1) obtain st1 where r: "record_rejection env inp e start step t st = Inr st1"
    and st': "st' = settle_scope env e step t (record_attempt env inp e start step t st1)"
    by (auto simp: settle_turn_def rbind_Inr_iff)
  from r have "rs_scope st1 = rs_scope st"
    unfolding record_rejection_def Let_def by (auto split: if_split_asm option.split_asm prod.split_asm)
  with assms(2,3) have "rs_scope (record_attempt env inp e start step t st1) = Some s"
    by (simp add: record_attempt_def split: option.split)
  with assms(3) show ?thesis unfolding st'
    by (simp add: settle_scope_def close_implementation_scope_def Let_def)
qed

subsection \<open>Evidence\<close>

text \<open>
  C8. The evidence of a run stays unambiguous. In every scope the attempts keep strictly increasing
  positive numbers and the rejections strictly increasing numbers: a worker's turn adds one attempt
  with a number no attempt of the scope has had, a review adds at most one rejection, numbered above
  every rejection of its scope, and neither the gate nor the end of the turn touches them.
\<close>

theorem evidence_stays_ordered:
  assumes "evidence_ok st" and "run_turn env inp e st = Inr r"
  shows "evidence_ok (result_state r)"
  using assms by (rule run_turn_evidence)

theorem evidence_stays_ordered_witness:
  "\<exists>r. run_turn (run_env True) (run_input ''review'' 4 ''p.md'') (run_end open_snapshot open_snapshot True) run_state = Inr r \<and>
     evidence_ok (result_state r)"
proof -
  let ?run = "run_turn (run_env True) (run_input ''review'' 4 ''p.md'') (run_end open_snapshot open_snapshot True) run_state"
  have "\<not> is_error ?run" by code_simp
  then obtain r where r: "?run = Inr r" by (cases ?run) auto
  have "evidence_ok run_state" by code_simp
  from evidence_stays_ordered [OF this r] r show ?thesis by blast
qed

subsection \<open>Progress\<close>

text \<open>
  C15. A step does not go round for ever. With a positive cap and more than one step, the turns of one
  step that each select the step again without moving the plan forward are fewer than the cap: the
  turn that would be the last one ends the run instead.
\<close>

theorem idle_turns_are_bounded:
  assumes "idle_turns env s n st st'" and "length (wf_steps (ge_workflow env)) > 1" and "0 \<le> rs_streak st"
    and "0 < as_max_same_step (uc_aflow (ge_config env))"
  shows "int n < as_max_same_step (uc_aflow (ge_config env))"
  using assms
proof (induction rule: idle_turns.induct)
  case (more n st st1 inp e active st2)
  from more.hyps(2,3) more.prems(1) have "stuck env inp e s" by (simp add: stuck_def)
  with run_turn_streak(2) [OF more.hyps(4)] more.prems(3)
  have "next_streak inp st1 < as_max_same_step (uc_aflow (ge_config env))" by simp
  moreover have "int (Suc n) \<le> next_streak inp st1"
    using idle_turns_streak [OF more.hyps(1) more.prems(1,2)] more.hyps(1,2) more.prems(2)
    by (cases "n = 0") (auto simp: next_streak_def elim: idle_turns.cases)
  ultimately show ?case by simp
qed simp

theorem idle_turns_are_bounded_witness:
  "\<exists>st'. idle_turns (run_env False) ''implement'' 1 run_state st' \<and>
     int 1 < as_max_same_step (uc_aflow (ge_config (run_env False)))"
proof -
  let ?inp = "run_input ''implement'' 5 ''p.md''"
  let ?e = "run_end open_snapshot open_snapshot False"
  let ?run = "run_turn (run_env False) ?inp ?e run_state"
  have "case ?run of Inr (Turn_Continues s a st) \<Rightarrow> s = ''implement'' | _ \<Rightarrow> False" by code_simp
  then obtain a st' where r: "?run = Inr (Turn_Continues ''implement'' a st')" by (auto split: sum.splits turn_result.splits)
  have p: "ti_step ?inp = ''implement''" "\<not> plan_snapshot_made_progress (te_before ?e) (te_after ?e)" by code_simp+
  from idle_turns.more [OF idle_turns.none p r] have i: "idle_turns (run_env False) ''implement'' 1 run_state st'" by simp
  have c: "length (wf_steps (ge_workflow (run_env False))) > 1" "0 \<le> rs_streak run_state"
    "0 < as_max_same_step (uc_aflow (ge_config (run_env False)))" by code_simp+
  from idle_turns_are_bounded [OF i c] i show ?thesis by blast
qed

subsection \<open>Ends\<close>

text \<open>
  C18. A run is delivered only on a complete plan. A turn that ends the run for delivery leaves a plan
  with every checkpoint done; a run that ends without it ended on its turn limit, under a live
  configuration, and says so.
\<close>

theorem delivery_needs_complete_plan:
  assumes "run_turn env inp e st = Inr (Turn_Ends reason delivery st')"
  shows "if delivery then is_complete (te_after e)
    else reason = ''max_turns_reached'' \<and> te_live e \<and> limit_reached inp e"
proof -
  obtain t limited target post st2 where l: "limit_terminal inp e t = Inr limited"
    and c: "conclude env inp e t limited target post st2 = Inr (Turn_Ends reason delivery st')"
    by (rule run_turn_parts [OF assms])
  from c have d: "delivery = (\<not> limited)" "delivery \<Longrightarrow> is_complete (te_after e)" "limited \<Longrightarrow> reason = ''max_turns_reached''"
    by (auto simp: conclude_def rbind_Inr_iff split: if_split_asm)
  from l have "limited \<Longrightarrow> te_live e \<and> limit_reached inp e" by (auto simp: limit_terminal_def split: if_split_asm)
  with d show ?thesis by auto
qed

theorem delivery_needs_complete_plan_witness:
  "\<exists>st'. run_turn (run_env True) (run_input ''review'' 4 ''p.md'') (run_end done_snapshot done_snapshot False) run_state =
     Inr (Turn_Ends ''done'' True st') \<and> is_complete done_snapshot"
proof -
  let ?e = "run_end done_snapshot done_snapshot False"
  let ?run = "run_turn (run_env True) (run_input ''review'' 4 ''p.md'') ?e run_state"
  have "case ?run of Inr (Turn_Ends reason d st) \<Rightarrow> reason = ''done'' \<and> d | _ \<Rightarrow> False" by code_simp
  then obtain st' where r: "?run = Inr (Turn_Ends ''done'' True st')" by (auto split: sum.splits turn_result.splits)
  have "te_after ?e = done_snapshot" by code_simp
  with delivery_needs_complete_plan [OF r] r show ?thesis by auto
qed

subsection \<open>Scopes\<close>

text \<open>
  C27. The scope of a checkpoint outlives every review but the one that approves it: after the turn of a
  step that is not a worker's, the scope is closed exactly where the review left no follow-up plan
  and the plan is complete or past the scope's checkpoint.
\<close>

theorem review_closes_the_passed_scope:
  assumes "run_turn env inp e st = Inr r" and "rs_scope st = Some s"
    and "map_of (wf_steps (ge_workflow env)) (ti_step inp) = Some step" and "ws_role step \<noteq> ''worker''"
  shows "rs_scope (result_state r) = None \<longleftrightarrow> \<not> te_new_plan e \<and> original_checkpoint_advanced s (te_after e)"
proof -
  obtain start st0 step' t limited st1 post target st2 where b: "begin_turn env inp st = Inr (start, st0)"
    and m: "map_of (wf_steps (ge_workflow env)) (ti_step inp) = Some step'"
    and se: "settle_turn env inp e start step' t st0 = Inr st1"
    and g: "manager_gate env (turn_gate inp e start step' (go_to t) post) st1 = Inr (target, st2)"
    and c: "conclude env inp e t limited target post st2 = Inr r"
    by (rule run_turn_parts [OF assms(1)])
  from m assms(3) have st: "step' = step" by simp
  obtain plan role where "open_scope_for_turn inp plan role st = Inr st0" by (rule begin_turn_parts [OF b])
  from open_scope_frame [OF this] assms(2) have "rs_scope st0 = Some s" by simp
  from settle_turn_scope [OF se this] st assms(4)
  have "rs_scope st1 = None \<longleftrightarrow> \<not> te_new_plan e \<and> original_checkpoint_advanced s (te_after e)" by simp
  moreover from manager_gate_frame [OF g] have "rs_scope st2 = rs_scope st1" by (simp add: gate_frame_def)
  moreover from c have "rs_scope (result_state r) = rs_scope st2"
    by (auto simp: conclude_def rbind_Inr_iff update_streak_def split: if_split_asm)
  ultimately show ?thesis by simp
qed

theorem review_closes_the_passed_scope_witness:
  "\<exists>r. run_turn (run_env True) (run_input ''review'' 4 ''p.md'') (run_end done_snapshot done_snapshot False) run_state = Inr r \<and>
     rs_scope (result_state r) = None"
proof -
  let ?e = "run_end done_snapshot done_snapshot False"
  let ?run = "run_turn (run_env True) (run_input ''review'' 4 ''p.md'') ?e run_state"
  have "\<not> is_error ?run" by code_simp
  then obtain r where r: "?run = Inr r" by (cases ?run) auto
  let ?step = "the (map_of (wf_steps (ge_workflow (run_env True))) ''review'')"
  have s: "rs_scope run_state = Some run_scope"
    "map_of (wf_steps (ge_workflow (run_env True))) (ti_step (run_input ''review'' 4 ''p.md'')) = Some ?step"
    "ws_role ?step \<noteq> ''worker''" "\<not> te_new_plan ?e \<and> original_checkpoint_advanced run_scope (te_after ?e)"
    by code_simp+
  from review_closes_the_passed_scope [OF r s(1-3)] s(4) r show ?thesis by blast
qed

subsection \<open>Routes\<close>

text \<open>
  C29. A route put down for another plan than the one the run continues on is not followed: the next turn
  leaves it pending and runs under the run's own team. A step that selects itself without
  \<^verbatim>\<open>preserve_active_plan\<close> meets this: the gate routes the retained team for the active repair
  plan, and the run continues on the original plan.
\<close>

theorem route_for_another_plan_is_ignored:
  assumes "run_turn env inp e st = Inr (Turn_Continues nx active st')" and "rs_override st' = Some o'"
    and "nonempty (pt_target_plan o')" and "pt_target_plan o' \<noteq> Some (target_plan_identity (ge_files env) active)"
    and "begin_turn env inp' st' = Inr (start, st'')" and "ti_active inp' = active"
  shows "\<not> tn_consume start \<and> tn_team start = ti_team inp' \<and> rs_override st'' = Some o'"
proof -
  obtain t limited target post st2 where "conclude env inp e t limited target post st2 = Inr (Turn_Continues nx active st')"
    by (rule run_turn_parts [OF assms(1)])
  then have n: "rs_team_override st' = None"
    by (auto simp: conclude_def rbind_Inr_iff update_streak_def split: if_split_asm)
  obtain plan step cumulative where
    "load_plan (ti_original inp') (ge_files env (ti_original inp')) = Inr plan"
    and "map_of (wf_steps (ge_workflow env)) (ti_step inp') = Some step"
    and op: "open_scope_for_turn inp' (plan_snap plan) (ws_role step) st' = Inr st''"
    and "tn_scope start = (case rs_scope st'' of Some s \<Rightarrow> Some (is_id s) | None \<Rightarrow> cumulative)"
    and k: "tn_consume start = (override_due env inp' (ws_role step) st'' \<noteq> None)"
    and "tn_ordinal start = (if ws_role step = ''worker'' \<and> tn_scope start \<noteq> None
       then Some (next_implementation_attempt_ordinal (scope_attempts st'' (tn_scope start))) else None)"
    and t: "tn_team start = (case override_due env inp' (ws_role step) st'' of
        Some o' \<Rightarrow> Some (pt_target_team o')
      | None \<Rightarrow> if rs_team_override st'' \<noteq> None then rs_team_override st'' else ti_team inp')"
    and "resolve_step_runtime (ge_sha env) (ge_config env)
       (''workflow.'' @ ge_workflow_name env @ ''.steps.'' @ ti_step inp') (Some (ti_step inp'))
       (Some (ti_role_selectors inp')) (map_option as_team_override (override_due env inp' (ws_role step) st''))
       (tn_team start) step = Inr (tn_selector start, tn_profile start)"
    by (rule begin_turn_parts [OF assms(5)])
  note fr = open_scope_frame [OF op]
  from assms(3,4,6) have "\<not> override_matches o' st'' (target_plan_identity (ge_files env) (ti_active inp'))"
    by (auto simp: override_matches_def pending_matches_scope_and_plan_def Let_def first_text_def nonempty_def)
  with fr assms(2) have "override_due env inp' (ws_role step) st'' = None" by (simp add: override_due_def)
  with k t fr n assms(2) show ?thesis by simp
qed

text \<open>The state in which the repair of the second rejection is about to start on the stronger team.\<close>

definition repair_state :: routing_state where
  "repair_state = rejected_state\<lparr>rs_override := Some
     \<lparr>pt_target_step = ''implement'', pt_role = ''worker'', pt_source_team = Some ''alpha'', pt_target_team = ''beta'',
      pt_selector = ''codex.strong'', pt_checkpoint = Some ''p-cp01-v01.md::checkpoint-1'', pt_number = 2,
      pt_scope = Some (is_id run_scope), pt_target_plan = Some ''p-cp01-v01.md::checkpoint-1'',
      pt_partition = (None, None, None), pt_repair = Some 2, pt_team_repairs = Some 1, pt_consumed = False\<rparr>\<rparr>"

definition looped_state :: routing_state where
  "looped_state = repair_state\<lparr>
     rs_attempts := [(is_id run_scope, [run_attempt 1 1, run_attempt 3 2, (run_attempt 5 3)\<lparr>at_team := Some ''beta'',
        at_selector := Some ''codex.strong'', at_repair := Some 2, at_team_repairs := Some 1\<rparr>])],
     rs_override := map_option (\<lambda>o'. o'\<lparr>pt_source_team := Some ''beta'', pt_repair := None, pt_team_repairs := None\<rparr>)
        (rs_override repair_state),
     rs_decision := Some
       \<lparr>pd_turn = 5, pd_number = 2, pd_action = ''continue'', pd_transition = ''implement'', pd_next_step = ''implement'',
        pd_role = Some ''worker'', pd_team = Some ''beta'', pd_selector = Some ''codex.strong'',
        pd_checkpoint = ''p-cp01-v01.md::checkpoint-1'', pd_scope = Some (is_id run_scope),
        pd_plan_path = ''p-cp01-v01.md'', pd_notes = None, pd_partition = (None, None, None),
        pd_applied = False, pd_consumed = False\<rparr>,
     rs_streak_step := Some ''implement'', rs_streak := 1, rs_decision_number := 2\<rparr>"

definition repair_start :: turn_start where
  "repair_start =
     \<lparr>tn_scope = Some (is_id run_scope), tn_team = Some ''beta'', tn_selector = ''codex.strong'',
      tn_profile = \<lparr>rp_harness = ''codex'', rp_profile = ''strong'', rp_model = None, rp_effort = None, rp_exclusive_resource = None\<rparr>,
      tn_ordinal = Some 3, tn_repair = Some 2, tn_team_repairs = Some 1, tn_consume = True\<rparr>"

definition implement_step :: step_config where
  "implement_step = \<lparr>ws_role = ''worker'', ws_prompts = [],
     ws_go = [\<lparr>go_to = ''implement'', go_when = Some ''!DONE'', go_preserve = False\<rparr>,
              \<lparr>go_to = ''review'', go_when = None, go_preserve = False\<rparr>]\<rparr>"

definition repair_input :: turn_input where
  "repair_input = run_input ''implement'' 5 ''p-cp01-v01.md''"

definition repair_end :: turn_end where
  "repair_end = run_end open_snapshot open_snapshot False"

definition repaired_state :: routing_state where
  "repaired_state = repair_state\<lparr>rs_attempts := rs_attempts looped_state, rs_override := None\<rparr>"

definition gated_state :: routing_state where
  "gated_state = looped_state\<lparr>rs_streak_step := None, rs_streak := 0\<rparr>"

lemma repair_begins: "begin_turn (run_env True) repair_input repair_state = Inr (repair_start, repair_state)"
  by code_simp

lemma repair_settles:
  "settle_turn (run_env True) repair_input repair_end repair_start implement_step (hd (ws_go implement_step)) repair_state =
     Inr repaired_state"
  by code_simp

lemma repair_gate:
  "manager_gate (run_env True) (turn_gate repair_input repair_end repair_start implement_step ''implement'' ''p.md'')
     repaired_state = Inr (''implement'', gated_state)"
  by code_simp

lemma repair_turn_loops:
  "run_turn (run_env True) repair_input repair_end repair_state = Inr (Turn_Continues ''implement'' ''p.md'' looped_state)"
proof -
  let ?env = "run_env True"
  let ?t = "hd (ws_go implement_step)"
  have m: "map_of (wf_steps (ge_workflow ?env)) (ti_step repair_input) = Some implement_step" by code_simp
  have t: "select_transition (turn_valuation repair_input repair_end)
      (''workflow.'' @ ge_workflow_name ?env @ ''.steps.'' @ ti_step repair_input) (ws_go implement_step) = Inr ?t" by code_simp
  have l: "limit_terminal repair_input repair_end ?t = Inr False" by code_simp
  have p: "select_next_active_plan_path ?env (ti_original repair_input) (active_after repair_input repair_end)
      (te_new_path repair_end) (te_new_plan repair_end) ?t = Inr ''p.md''" by code_simp
  have r: "\<not> limit_reached repair_input repair_end" by code_simp
  have k: "check_streak ?env repair_input repair_end repaired_state (go_to ?t) = Inr ()" by code_simp
  have g: "go_to ?t = ''implement''" by (simp add: implement_step_def)
  have c: "conclude ?env repair_input repair_end ?t False ''implement'' ''p.md'' gated_state =
      Inr (Turn_Continues ''implement'' ''p.md'' looped_state)" by code_simp
  show ?thesis
    unfolding run_turn_def end_turn_def repair_begins
    by (simp only: turn_failing_def map_sum.simps rbind_simps prod.case m option.case t l repair_settles p r k [unfolded g] g repair_gate c
        simp_thms if_False)
qed

theorem route_for_another_plan_is_ignored_witness:
  "\<exists>o' start st''. run_turn (run_env True) repair_input repair_end repair_state = Inr (Turn_Continues ''implement'' ''p.md'' looped_state) \<and>
     rs_override looped_state = Some o' \<and> pt_target_team o' = ''beta'' \<and>
     begin_turn (run_env True) (run_input ''implement'' 6 ''p.md'') looped_state = Inr (start, st'') \<and>
     tn_team start = Some ''alpha''"
proof -
  let ?env = "run_env True"
  let ?inp = "run_input ''implement'' 6 ''p.md''"
  let ?o = "the (rs_override looped_state)"
  have o: "rs_override looped_state = Some ?o" "pt_target_team ?o = ''beta''" "nonempty (pt_target_plan ?o)"
    by code_simp+
  have i: "pt_target_plan ?o \<noteq> Some (target_plan_identity (ge_files ?env) ''p.md'')" by code_simp
  have "\<not> is_error (begin_turn ?env ?inp looped_state)" by code_simp
  then obtain start st'' where s: "begin_turn ?env ?inp looped_state = Inr (start, st'')"
    by (cases "begin_turn ?env ?inp looped_state") auto
  have f: "ti_active ?inp = ''p.md''" "ti_team ?inp = Some ''alpha''" by (simp_all add: run_input_def)
  from route_for_another_plan_is_ignored [OF repair_turn_loops o(1,3) i s f(1)] f have "tn_team start = Some ''alpha''" by simp
  with repair_turn_loops o(1,2) s show ?thesis by blast
qed

subsection \<open>Upgrades\<close>

text \<open>
  The upgrade depth counts edges: it is \<open>n\<close> exactly where following \<^verbatim>\<open>upgrade_to\<close> from the
  baseline team meets the recent team after \<open>n\<close> steps and not earlier, cycles of the
  configuration included, and the walk always ends.
\<close>

theorem upgrade_depth_is_least:
  "implementation_upgrade_depth cfg (Some b) (Some r) = Some n \<longleftrightarrow>
    upgrade_steps (uc_teams cfg) n b = Some r \<and> list_all (\<lambda>k. upgrade_steps (uc_teams cfg) k b \<noteq> Some r) [0..<n]"
proof -
  let ?least = "upgrade_steps (uc_teams cfg) n b = Some r \<and> (\<forall>k < n. upgrade_steps (uc_teams cfg) k b \<noteq> Some r)"
  have d: "implementation_upgrade_depth cfg (Some b) (Some r) = upgrade_depth_from (uc_teams cfg) r [] 0 b"
    by (simp add: implementation_upgrade_depth_def)
  have l: "list_all (\<lambda>k. upgrade_steps (uc_teams cfg) k b \<noteq> Some r) [0..<n] \<longleftrightarrow>
      (\<forall>k < n. upgrade_steps (uc_teams cfg) k b \<noteq> Some r)"
    by (auto simp: list_all_iff)
  have "upgrade_depth_from (uc_teams cfg) r [] 0 b = Some n" if "?least"
    using upgrade_depth_complete [OF conjunct1 [OF that] conjunct2 [OF that], of "[]" 0] by simp
  moreover have "?least" if "upgrade_depth_from (uc_teams cfg) r [] 0 b = Some n"
    using upgrade_depth_sound [OF that] by (metis add_0)
  ultimately show ?thesis unfolding d l by (rule iffI [rotated])
qed

end
