(* ===== verification/Volume.thy ===== *)
theory Volume
  imports Json "HOL-Library.AList"
begin

text \<open>
  The files the lifecycle of a plan moves through, and programs over them: every effect of a program
  is one step, recorded with the states before and after it, so that a crash leaves one of the
  recorded states; between its steps other processes may change the files. A write under a temporary
  name with a replacement is one step, a directory that does not exist has no entries.
\<close>

subsection \<open>Files\<close>

text \<open>A file, a link or another thing is known by its device and its number on the device.\<close>

type_synonym file_node = "int \<times> int"

datatype dir_entry = Plain_File file_node | Symlink file_node | Other_Entry file_node

fun is_link :: "dir_entry option \<Rightarrow> bool" where
  "is_link (Some (Symlink n)) = True"
| "is_link _ = False"

fun is_plain :: "dir_entry \<Rightarrow> bool" where
  "is_plain (Plain_File n) = True"
| "is_plain _ = False"

lemma is_plain_iff [simp]: "is_plain e \<longleftrightarrow> (\<exists>n. e = Plain_File n)"
  by (cases e) simp_all

datatype journal_file = Journal_File json | Unreadable_File | Unsafe_File

record volume =
  vo_entries :: "(string \<times> dir_entry) list"
  vo_bytes :: "file_node \<Rightarrow> string"
  vo_outside :: "file_node \<Rightarrow> nat"
  vo_journal :: "(string \<times> journal_file) list"
  vo_owners :: "(string \<times> json option) list"
  vo_backups :: "(string \<times> (string \<times> json option)) list"

definition entry_at :: "volume \<Rightarrow> string \<Rightarrow> dir_entry option" where
  "entry_at v p = map_of (vo_entries v) p"

definition node_at :: "volume \<Rightarrow> string \<Rightarrow> file_node option" where
  "node_at v p = (case entry_at v p of Some (Plain_File n) \<Rightarrow> Some n | _ \<Rightarrow> None)"

text \<open>\<^verbatim>\<open>st_nlink\<close>: the plan entries of a file and its links elsewhere.\<close>

definition link_count :: "volume \<Rightarrow> file_node \<Rightarrow> nat" where
  "link_count v n = length (filter (\<lambda>(p, e). e = Plain_File n) (vo_entries v)) + vo_outside v n"

definition add_entry :: "string \<Rightarrow> dir_entry \<Rightarrow> volume \<Rightarrow> volume" where
  "add_entry p e v = v\<lparr>vo_entries := AList.update p e (vo_entries v)\<rparr>"

definition drop_entry :: "string \<Rightarrow> volume \<Rightarrow> volume" where
  "drop_entry p v = v\<lparr>vo_entries := AList.delete p (vo_entries v)\<rparr>"

definition put_journal :: "string \<Rightarrow> dict \<Rightarrow> volume \<Rightarrow> volume" where
  "put_journal name d v = v\<lparr>vo_journal := AList.update name (Journal_File (JObj d)) (vo_journal v)\<rparr>"

definition put_owner :: "string \<Rightarrow> dict \<Rightarrow> volume \<Rightarrow> volume" where
  "put_owner name d v = v\<lparr>vo_owners := AList.update name (Some (JObj d)) (vo_owners v)\<rparr>"

definition put_sidecar :: "string \<Rightarrow> dict \<Rightarrow> volume \<Rightarrow> volume" where
  "put_sidecar body d v =
     v\<lparr>vo_backups := map (\<lambda>(b, sha, s). if b = body then (b, sha, Some (JObj d)) else (b, sha, s)) (vo_backups v)\<rparr>"

text \<open>Whether bytes decode as UTF-8: what may follow the first byte of a character.\<close>

definition utf8_lead :: "nat \<Rightarrow> (nat \<times> nat \<times> nat) option" where
  "utf8_lead b =
     (if b < 0x80 then Some (0, 0, 0)
      else if 0xC2 \<le> b \<and> b \<le> 0xDF then Some (1, 0x80, 0xBF)
      else if b = 0xE0 then Some (2, 0xA0, 0xBF)
      else if b = 0xED then Some (2, 0x80, 0x9F)
      else if 0xE1 \<le> b \<and> b \<le> 0xEF then Some (2, 0x80, 0xBF)
      else if b = 0xF0 then Some (3, 0x90, 0xBF)
      else if 0xF1 \<le> b \<and> b \<le> 0xF3 then Some (3, 0x80, 0xBF)
      else if b = 0xF4 then Some (3, 0x80, 0x8F)
      else None)"

function utf8_ok :: "string \<Rightarrow> bool" where
  "utf8_ok [] = True"
| "utf8_ok (c # cs) =
     (case utf8_lead (code c) of
        None \<Rightarrow> False
      | Some (n, low, high) \<Rightarrow>
          n \<le> length cs \<and> (n = 0 \<or> (low \<le> code (hd cs) \<and> code (hd cs) \<le> high)) \<and>
          list_all (\<lambda>d. 0x80 \<le> code d \<and> code d \<le> 0xBF) (take n cs) \<and> utf8_ok (drop n cs))"
  by pat_completeness auto
termination
  by (relation "measure length") auto

subsection \<open>Programs\<close>

datatype lifecycle_error =
    Lifecycle_Error string
  | Lifecycle_Conflict string
  | Provenance_Error string
  | Missing_File string
  | Lifecycle_Raised py_exn

type_synonym volume_steps = "(volume \<times> volume) list"

type_synonym 'a lc = "volume \<Rightarrow> volume_steps \<times> (lifecycle_error + 'a) \<times> volume"

definition lc_ret :: "'a \<Rightarrow> 'a lc" where
  "lc_ret x v = ([], Inr x, v)"

definition lc_of :: "(volume \<Rightarrow> lifecycle_error + 'a) \<Rightarrow> 'a lc" where
  "lc_of f v = ([], f v, v)"

definition lc_fail :: "lifecycle_error \<Rightarrow> 'a lc" where
  "lc_fail e v = ([], Inl e, v)"

definition lc_do :: "(volume \<Rightarrow> volume) \<Rightarrow> unit lc" where
  "lc_do g v = ([(v, g v)], Inr (), g v)"

text \<open>What other processes do before the program goes on.\<close>

definition lc_others :: "(volume \<Rightarrow> volume) \<Rightarrow> unit lc" where
  "lc_others g v = ([], Inr (), g v)"

definition lc_bind :: "'a lc \<Rightarrow> ('a \<Rightarrow> 'b lc) \<Rightarrow> 'b lc" where
  "lc_bind m f v =
     (case m v of
        (t, Inl e, v') \<Rightarrow> (t, Inl e, v')
      | (t, Inr x, v') \<Rightarrow> (case f x v' of (t', r, v'') \<Rightarrow> (t @ t', r, v'')))"

definition lc_guard :: "bool \<Rightarrow> lifecycle_error \<Rightarrow> unit lc" where
  "lc_guard b e = (if b then lc_ret () else lc_fail e)"

fun lc_each :: "('a \<Rightarrow> 'b lc) \<Rightarrow> 'a list \<Rightarrow> 'b list lc" where
  "lc_each f [] = lc_ret []"
| "lc_each f (x # xs) = lc_bind (f x) (\<lambda>y. lc_bind (lc_each f xs) (\<lambda>ys. lc_ret (y # ys)))"

text \<open>\<^verbatim>\<open>except OSError\<close>, where the only such exception is one of the provenance store.\<close>

definition lc_catch_provenance :: "lifecycle_error \<Rightarrow> 'a lc \<Rightarrow> 'a lc" where
  "lc_catch_provenance e m v =
     (case m v of (t, Inl (Provenance_Error m'), v') \<Rightarrow> (t, Inl e, v') | r \<Rightarrow> r)"

text \<open>What a program leaves when it is cut off: the state it began in or one of its steps reached.\<close>

definition cut_states :: "'a lc \<Rightarrow> volume \<Rightarrow> volume list" where
  "cut_states m v = (case m v of (t, r, v') \<Rightarrow> v # map snd t @ [v'])"

subsection \<open>Laws\<close>

lemma entry_at_add [simp]: "entry_at (add_entry p e v) q = (if q = p then Some e else entry_at v q)"
  by (simp add: entry_at_def add_entry_def update_conv')

lemma entry_at_drop [simp]: "entry_at (drop_entry p v) q = (if q = p then None else entry_at v q)"
  by (simp add: entry_at_def drop_entry_def delete_conv')

lemma entry_at_other [simp]:
  "entry_at (put_journal name d v) = entry_at v" "entry_at (put_owner name d v) = entry_at v"
  "entry_at (put_sidecar name d v) = entry_at v"
  by (auto simp: entry_at_def put_journal_def put_owner_def put_sidecar_def)

lemma vo_bytes_effects [simp]:
  "vo_bytes (add_entry p e v) = vo_bytes v" "vo_bytes (drop_entry p v) = vo_bytes v"
  "vo_bytes (put_journal name d v) = vo_bytes v" "vo_bytes (put_owner name d v) = vo_bytes v"
  "vo_bytes (put_sidecar name d v) = vo_bytes v"
  by (simp_all add: add_entry_def drop_entry_def put_journal_def put_owner_def put_sidecar_def)

lemma other_effects [simp]:
  "vo_journal (add_entry p e v) = vo_journal v" "vo_journal (drop_entry p v) = vo_journal v"
  "vo_journal (put_owner name d v) = vo_journal v" "vo_journal (put_sidecar name d v) = vo_journal v"
  "vo_owners (add_entry p e v) = vo_owners v" "vo_owners (drop_entry p v) = vo_owners v"
  "vo_owners (put_journal name d v) = vo_owners v" "vo_owners (put_sidecar name d v) = vo_owners v"
  by (simp_all add: add_entry_def drop_entry_def put_journal_def put_owner_def put_sidecar_def)

lemma vo_journal_put [simp]: "map_of (vo_journal (put_journal file d v)) f = (if f = file then Some (Journal_File (JObj d)) else map_of (vo_journal v) f)"
  by (simp add: put_journal_def update_conv')

text \<open>
  A law of programs: from a state where \<open>P\<close> holds every step is allowed, a result satisfies \<open>Q\<close>, and
  an error leaves \<open>E\<close>.
\<close>

definition runs :: "(volume \<Rightarrow> volume \<Rightarrow> bool) \<Rightarrow> (volume \<Rightarrow> bool) \<Rightarrow> 'a lc \<Rightarrow> ('a \<Rightarrow> volume \<Rightarrow> bool) \<Rightarrow> (volume \<Rightarrow> bool) \<Rightarrow> bool" where
  "runs S P m Q E =
     (\<forall>v. P v \<longrightarrow> (case m v of (t, r, v') \<Rightarrow> (\<forall>(a, b) \<in> set t. S a b) \<and> (case r of Inl e \<Rightarrow> E v' | Inr x \<Rightarrow> Q x v')))"

named_theorems lc_rules

lemma runsD:
  assumes "runs S P m Q E" and "P v" and "m v = (t, r, v')"
  shows "\<forall>(a, b) \<in> set t. S a b" and "case r of Inl e \<Rightarrow> E v' | Inr x \<Rightarrow> Q x v'"
  using assms(1) [unfolded runs_def, rule_format, OF assms(2)] assms(3) by simp_all

lemma runs_ret [lc_rules]: "(\<And>v. P v \<Longrightarrow> Q x v) \<Longrightarrow> runs S P (lc_ret x) Q E"
  by (simp add: runs_def lc_ret_def)

lemma runs_fail [lc_rules]: "(\<And>v. P v \<Longrightarrow> E v) \<Longrightarrow> runs S P (lc_fail e) Q E"
  by (simp add: runs_def lc_fail_def)

lemma runs_of [lc_rules]:
  "(\<And>v x. P v \<Longrightarrow> f v = Inr x \<Longrightarrow> Q x v) \<Longrightarrow> (\<And>v e. P v \<Longrightarrow> f v = Inl e \<Longrightarrow> E v) \<Longrightarrow> runs S P (lc_of f) Q E"
  by (simp add: runs_def lc_of_def split: sum.split)

lemma runs_do [lc_rules]: "(\<And>v. P v \<Longrightarrow> S v (g v)) \<Longrightarrow> (\<And>v. P v \<Longrightarrow> Q () (g v)) \<Longrightarrow> runs S P (lc_do g) Q E"
  by (simp add: runs_def lc_do_def)

lemma runs_others [lc_rules]: "(\<And>v. P v \<Longrightarrow> Q () (g v)) \<Longrightarrow> runs S P (lc_others g) Q E"
  by (simp add: runs_def lc_others_def)

lemma runs_bind [lc_rules]:
  assumes "runs S P m R E" and "\<And>x. runs S (R x) (f x) Q E"
  shows "runs S P (lc_bind m f) Q E"
  unfolding runs_def
proof (intro allI impI)
  fix v assume "P v"
  obtain t r v' where m: "m v = (t, r, v')" by (cases "m v") auto
  note t = runsD(1) [OF assms(1) \<open>P v\<close> m] and r = runsD(2) [OF assms(1) \<open>P v\<close> m]
  show "case lc_bind m f v of (t, r, v') \<Rightarrow> (\<forall>(a, b) \<in> set t. S a b) \<and> (case r of Inl e \<Rightarrow> E v' | Inr x \<Rightarrow> Q x v')"
  proof (cases r)
    case (Inl e)
    with m t r show ?thesis by (simp add: lc_bind_def)
  next
    case (Inr x)
    obtain t' r' v'' where f: "f x v' = (t', r', v'')" by (cases "f x v'") auto
    from Inr r have "R x v'" by simp
    with runsD [OF assms(2) _ f] have "\<forall>(a, b) \<in> set t'. S a b" "case r' of Inl e \<Rightarrow> E v'' | Inr x \<Rightarrow> Q x v''"
      by blast+
    with Inr m f t show ?thesis by (auto simp: lc_bind_def)
  qed
qed

text \<open>What a program sees, where the state decides it.\<close>

lemma runs_sees:
  assumes "\<And>v. P v \<Longrightarrow> f v = Inr x" and "runs S P (k x) Q E"
  shows "runs S P (lc_bind (lc_of f) k) Q E"
  using assms by (simp add: runs_def lc_bind_def lc_of_def split: prod.split)

lemma runs_sees_some:
  assumes "\<And>v. P v \<Longrightarrow> \<exists>x. f v = Inr x" and "\<And>x. runs S (\<lambda>v. P v \<and> f v = Inr x) (k x) Q E"
  shows "runs S P (lc_bind (lc_of f) k) Q E"
  unfolding runs_def
proof (intro allI impI)
  fix v assume p: "P v"
  with assms(1) obtain x where x: "f v = Inr x" by blast
  with p assms(2) [of x] show "case lc_bind (lc_of f) k v of (t, r, v') \<Rightarrow> (\<forall>(a, b) \<in> set t. S a b) \<and> (case r of Inl e \<Rightarrow> E v' | Inr x \<Rightarrow> Q x v')"
    by (simp add: runs_def lc_bind_def lc_of_def split: prod.split)
qed

lemma runs_guard [lc_rules]:
  "(\<And>v. P v \<Longrightarrow> b \<Longrightarrow> Q () v) \<Longrightarrow> (\<And>v. P v \<Longrightarrow> \<not> b \<Longrightarrow> E v) \<Longrightarrow> runs S P (lc_guard b e) Q E"
  by (simp add: lc_guard_def runs_def lc_ret_def lc_fail_def)

lemma runs_catch [lc_rules]: "runs S P m Q E \<Longrightarrow> runs S P (lc_catch_provenance e m) Q E"
  by (fastforce simp: runs_def lc_catch_provenance_def split: sum.splits lifecycle_error.splits)

lemma runs_mono:
  assumes "runs S P m Q E" and "\<And>a b. S a b \<Longrightarrow> S' a b" and "\<And>v. P' v \<Longrightarrow> P v" and "\<And>x v. Q x v \<Longrightarrow> Q' x v"
    and "\<And>v. E v \<Longrightarrow> E' v"
  shows "runs S' P' m Q' E'"
  unfolding runs_def
proof (intro allI impI)
  fix v assume "P' v"
  with assms(3) have p: "P v" by blast
  obtain t r v' where m: "m v = (t, r, v')" by (cases "m v") auto
  note d = runsD [OF assms(1) p m]
  from d(1) assms(2) have "\<forall>(a, b) \<in> set t. S' a b" by blast
  moreover from d(2) assms(4,5) have "case r of Inl e \<Rightarrow> E' v' | Inr x \<Rightarrow> Q' x v'" by (cases r) simp_all
  ultimately show "case m v of (t, r, v') \<Rightarrow> (\<forall>(a, b) \<in> set t. S' a b) \<and> (case r of Inl e \<Rightarrow> E' v' | Inr x \<Rightarrow> Q' x v')"
    using m by simp
qed

lemma runs_each:
  assumes "\<And>x. x \<in> set xs \<Longrightarrow> runs S P (f x) (\<lambda>y. P) E"
  shows "runs S P (lc_each f xs) (\<lambda>ys. P) E"
  using assms by (induction xs) (auto intro!: lc_rules)

end
