(* ===== verification/Plan_Backups.thy ===== *)
theory Plan_Backups
  imports Volume "HOL-Library.List_Lexorder" "HOL-Library.Char_ord"
begin

text \<open>
  The provenance of plan backups and the owners of plans (\<^verbatim>\<open>aflow/plan_backups.py\<close>): which
  sidecar records are valid, which identity owns a path, and how both follow a plan that moves. A
  sidecar and an owner file are what \<^verbatim>\<open>json.loads\<close> makes of them, or \<open>None\<close> where they cannot be read;
  the paths are resolved.
\<close>

subsection \<open>Checks that may raise\<close>

text \<open>\<^verbatim>\<open>and\<close> from left to right, and \<^verbatim>\<open>all\<close> over a list.\<close>

fun all_hold :: "(py_exn + bool) list \<Rightarrow> py_exn + bool" where
  "all_hold [] = Inr True"
| "all_hold (c # cs) = rbind c (\<lambda>b. if b then all_hold cs else Inr False)"

text \<open>\<^verbatim>\<open>bool(value.strip())\<close> of a string\<close>

fun nonblank :: "json \<Rightarrow> bool" where
  "nonblank (JStr s) = (strip s \<noteq> [])"
| "nonblank _ = False"

definition keys_of :: "json \<Rightarrow> string set" where
  "keys_of v = set (map fst (obj_of v))"

text \<open>\<^verbatim>\<open>value is None or check(value)\<close>\<close>

definition null_or :: "(json \<Rightarrow> bool) \<Rightarrow> json \<Rightarrow> bool" where
  "null_or p v = (v = JNull \<or> p v)"

text \<open>\<^verbatim>\<open>isinstance(value, list) and value and all(...)\<close>\<close>

fun filled_list :: "(json \<Rightarrow> bool) \<Rightarrow> json \<Rightarrow> bool" where
  "filled_list p (JList xs) = (xs \<noteq> [] \<and> list_all p xs)"
| "filled_list p _ = False"

fun items_of :: "json \<Rightarrow> json list" where
  "items_of (JList xs) = xs"
| "items_of _ = []"

definition valid_identity_id :: "json \<Rightarrow> bool" where
  "valid_identity_id v = hex_of_length 32 v"

definition valid_alias :: "json \<Rightarrow> bool" where
  "valid_alias v = (nonblank v \<and> starts_with (str_of v) ''/'')"

text \<open>\<^verbatim>\<open>list(dict.fromkeys(values))\<close>\<close>

definition first_occurrences :: "json list \<Rightarrow> json list" where
  "first_occurrences xs = rev (remdups (rev xs))"

subsection \<open>Records\<close>

definition BACKUP_EVENTS :: "string list" where
  "BACKUP_EVENTS = [''startup_preparation'', ''workflow_start'', ''resume_start'', ''before_followup_turn'', ''ready_promotion'']"

definition BACKUP_KINDS :: "string list" where
  "BACKUP_KINDS = [''snapshot'', ''follow_up'']"

definition REQUIRED_RECORD_KEYS :: "string list" where
  "REQUIRED_RECORD_KEYS =
     [''schema_version'', ''backup_filename'', ''content_sha256'', ''kind'', ''source_plan_path'', ''original_plan_path'',
      ''historical_origin'', ''first_capture_timestamp'', ''first_capture_event'', ''first_run_id'', ''baseline_status'',
      ''baseline_reference'', ''capture_references'']"

definition OPTIONAL_RECORD_KEYS :: "string list" where
  "OPTIONAL_RECORD_KEYS =
     [''path_aliases'', ''original_plan_aliases'', ''original_plan_identity_ids'', ''baseline_plan_identity_id'',
      ''baseline_references'']"

definition REFERENCE_KEYS :: "string list" where
  "REFERENCE_KEYS = [''event'', ''run_id'', ''turn_number'', ''source_path'']"

definition REFERENCE_OPTIONAL_KEYS :: "string list" where
  "REFERENCE_OPTIONAL_KEYS = [''plan_identity_id'', ''original_plan_identity_id'', ''timestamp'']"

definition promotion_fields :: "dict \<Rightarrow> bool" where
  "promotion_fields d =
     (dget d ''event'' = JStr ''ready_promotion'' \<and> valid_alias (dget d ''source_path'') \<and>
      valid_alias (dget d ''destination_path'') \<and> nonblank (dget d ''timestamp''))"

definition valid_baseline_reference :: "json \<Rightarrow> bool" where
  "valid_baseline_reference v =
     (is_obj v \<and> keys_of v = {''event'', ''source_path'', ''destination_path'', ''timestamp''} \<and> promotion_fields (obj_of v))"

definition valid_baseline_ownership :: "json \<Rightarrow> bool" where
  "valid_baseline_ownership v =
     (is_obj v \<and> keys_of v = {''plan_identity_id'', ''event'', ''source_path'', ''destination_path'', ''timestamp''} \<and>
      valid_identity_id (dget (obj_of v) ''plan_identity_id'') \<and> promotion_fields (obj_of v))"

text \<open>\<^verbatim>\<open>isinstance(v, str) and v and v.strip() == v\<close>\<close>

fun trimmed :: "json \<Rightarrow> bool" where
  "trimmed (JStr s) = (s \<noteq> [] \<and> strip s = s)"
| "trimmed _ = False"

definition valid_reference :: "json \<Rightarrow> py_exn + bool" where
  "valid_reference v =
     (let d = obj_of v in
      if \<not> is_obj v \<or> \<not> set REFERENCE_KEYS \<subseteq> keys_of v \<or> \<not> keys_of v \<subseteq> set (REFERENCE_KEYS @ REFERENCE_OPTIONAL_KEYS)
      then Inr False
      else all_hold
        [in_str_set BACKUP_EVENTS (dget d ''event''),
         Inr (null_or trimmed (dget d ''run_id'')),
         Inr (null_or (\<lambda>n. is_plain_int n \<and> int_of n \<ge> 1) (dget d ''turn_number'')),
         Inr (nonblank (dget d ''source_path'')),
         Inr (null_or valid_identity_id (dget d ''plan_identity_id'')),
         Inr (null_or valid_identity_id (dget d ''original_plan_identity_id'')),
         Inr (null_or nonblank (dget d ''timestamp''))])"

text \<open>\<^verbatim>\<open>set(value.get("path_aliases", ()))\<close>\<close>

definition alias_set :: "dict \<Rightarrow> py_exn + json set" where
  "alias_set d =
     (case map_of d ''path_aliases'' of
        None \<Rightarrow> Inr {}
      | Some (JList xs) \<Rightarrow>
          if list_all hashable xs then Inr (set xs) else Inl (TypeError ''unhashable type'')
      | Some (JStr s) \<Rightarrow> Inr (JStr ` (\<lambda>c. [c]) ` set s)
      | Some (JObj e) \<Rightarrow> Inr (JStr ` fst ` set e)
      | Some _ \<Rightarrow> Inl (TypeError ''object is not iterable''))"

definition promotion_paths :: "json \<Rightarrow> json set" where
  "promotion_paths v = {dget (obj_of v) ''source_path'', dget (obj_of v) ''destination_path''}"

text \<open>What a record says of its baseline.\<close>

definition baseline_ok :: "dict \<Rightarrow> py_exn + bool" where
  "baseline_ok d =
     (let reference = dget d ''baseline_reference''; owner = dget d ''baseline_plan_identity_id'';
          references = dget d ''baseline_references'' in
      all_hold
        [in_str_set [''known'', ''unknown''] (dget d ''baseline_status''),
         Inr (null_or valid_identity_id owner),
         Inr (null_or (filled_list valid_baseline_ownership) references),
         if dget d ''baseline_status'' \<noteq> JStr ''known'' then Inr (reference = JNull \<and> references = JNull)
         else all_hold
           [Inr (valid_baseline_reference reference),
            Inr (references = JNull \<or> owner = JNull \<or>
              list_ex (\<lambda>r. dget (obj_of r) ''plan_identity_id'' = owner) (items_of references)),
            if references = JNull then Inr True
            else rbind (alias_set d) (\<lambda>as. Inr (list_all (\<lambda>r. promotion_paths r \<subseteq> as) (items_of references)))]])"

definition aliases_of :: "dict \<Rightarrow> json" where
  "aliases_of d =
     (case map_of d ''path_aliases'' of None \<Rightarrow> JList [dget d ''source_plan_path''] | Some v \<Rightarrow> v)"

definition head_fields_ok :: "string \<Rightarrow> string \<Rightarrow> dict \<Rightarrow> py_exn + bool" where
  "head_fields_ok body sha d =
     all_hold
       [Inr (equals_int (dget d ''schema_version'') 1),
        Inr (dget d ''backup_filename'' = JStr body),
        Inr (dget d ''content_sha256'' = JStr sha \<and> hex_of_length 64 (dget d ''content_sha256'')),
        in_str_set BACKUP_KINDS (dget d ''kind''),
        Inr (list_all (\<lambda>k. nonblank (dget d k))
          [''source_plan_path'', ''first_capture_timestamp'', ''first_capture_event'', ''historical_origin'']),
        in_str_set BACKUP_EVENTS (dget d ''first_capture_event''),
        in_str_set [''known'', ''unknown''] (dget d ''historical_origin''),
        Inr (null_or nonblank (dget d ''original_plan_path'')),
        Inr (null_or trimmed (dget d ''first_run_id''))]"

definition tail_fields_ok :: "dict \<Rightarrow> py_exn + bool" where
  "tail_fields_ok d =
     (let aliases = aliases_of d; ids = dget d ''original_plan_identity_ids'' in
      all_hold
        [case dget d ''capture_references'' of JList rs \<Rightarrow> all_hold (map valid_reference rs) | _ \<Rightarrow> Inr False,
         Inr (null_or (filled_list valid_alias) (dget d ''original_plan_aliases'')),
         Inr (null_or (\<lambda>v. filled_list valid_identity_id v \<and> distinct (items_of v)) ids),
         Inr (filled_list valid_alias aliases),
         Inr (dget d ''baseline_status'' = JStr ''known'' \<longrightarrow>
           promotion_paths (dget d ''baseline_reference'') \<subseteq> set (items_of aliases))])"

definition without_repeats :: "string \<Rightarrow> dict \<Rightarrow> dict" where
  "without_repeats k d = (case dget d k of JList xs \<Rightarrow> dput k (JList (first_occurrences xs)) d | _ \<Rightarrow> d)"

definition validate_record :: "string \<Rightarrow> string \<Rightarrow> json \<Rightarrow> py_exn + dict option" where
  "validate_record body sha v =
     (let d = obj_of v in
      if \<not> is_obj v \<or> \<not> set REQUIRED_RECORD_KEYS \<subseteq> keys_of v \<or>
         \<not> keys_of v \<subseteq> set (REQUIRED_RECORD_KEYS @ OPTIONAL_RECORD_KEYS)
      then Inr None
      else rbind (all_hold [head_fields_ok body sha d, baseline_ok d, tail_fields_ok d]) (\<lambda>ok.
        Inr (if ok
             then Some (without_repeats ''original_plan_identity_ids'' (without_repeats ''original_plan_aliases''
                    (dput ''path_aliases'' (JList (first_occurrences (items_of (aliases_of d)))) d)))
             else None)))"

text \<open>
  The valid records, in the order of the names of their bodies; an exception in any of them leaves
  no records at all.
\<close>

fun read_records :: "(string \<times> (string \<times> json option)) list \<Rightarrow> py_exn + (string \<times> dict) list" where
  "read_records [] = Inr []"
| "read_records ((body, sha, sidecar) # bs) =
     rbind (case sidecar of None \<Rightarrow> Inr None | Some v \<Rightarrow> validate_record body sha v) (\<lambda>r.
     rbind (read_records bs) (\<lambda>rs. Inr (case r of None \<Rightarrow> rs | Some d \<Rightarrow> (body, d) # rs)))"

definition list_backup_provenance :: "volume \<Rightarrow> (string \<times> dict) list" where
  "list_backup_provenance v =
     (case read_records (sort_key fst (vo_backups v)) of Inl e \<Rightarrow> [] | Inr rs \<Rightarrow> rs)"

end
