(* ===== verification/Plan_Owners.thy ===== *)
theory Plan_Owners
  imports Plan_Backups
begin

text \<open>
  The identities that own plan paths (\<^verbatim>\<open>aflow/plan_backups.py\<close>): reading the owner files,
  the owner of a path, a new owner, and what follows a plan that moves. The directory of the owners
  exists once it has an entry; a fresh identity is an argument, where the code draws a UUID.
\<close>

subsection \<open>Owner files\<close>

record plan_owner =
  ow_schema :: json
  ow_id :: string
  ow_current :: "string option"
  ow_paths :: "string list"

text \<open>\<^verbatim>\<open>Path(name).stem\<close>\<close>

definition owner_stem :: "string \<Rightarrow> string" where
  "owner_stem name =
     (let ext = takeWhile (\<lambda>c. c \<noteq> CHR ''.'') (rev name); i = length name - length ext - 1
      in if CHR ''.'' \<in> set name \<and> 0 < i \<and> ext \<noteq> [] then take i name else name)"

definition owner_fields_ok :: "json \<Rightarrow> bool" where
  "owner_fields_ok v =
     (let d = obj_of v; current = dget d ''current_path''; paths = items_of (dget d ''owned_paths'') in
      is_obj v \<and> keys_of v = {''schema_version'', ''plan_identity_id'', ''current_path'', ''owned_paths''} \<and>
      equals_int (dget d ''schema_version'') 1 \<and> valid_identity_id (dget d ''plan_identity_id'') \<and>
      null_or valid_alias current \<and> filled_list valid_alias (dget d ''owned_paths'') \<and> distinct paths \<and>
      (current = JNull \<or> current \<in> set paths))"

definition owner_of :: "dict \<Rightarrow> plan_owner" where
  "owner_of d =
     \<lparr>ow_schema = dget d ''schema_version'', ow_id = str_of (dget d ''plan_identity_id''),
      ow_current = (if dget d ''current_path'' = JNull then None else Some (str_of (dget d ''current_path''))),
      ow_paths = map str_of (items_of (dget d ''owned_paths''))\<rparr>"

definition validate_plan_identity :: "json \<Rightarrow> plan_owner option" where
  "validate_plan_identity v = (if owner_fields_ok v then Some (owner_of (obj_of v)) else None)"

definition owner_dict :: "plan_owner \<Rightarrow> dict" where
  "owner_dict w =
     [(''schema_version'', ow_schema w), (''plan_identity_id'', JStr (ow_id w)),
      (''current_path'', opt_json JStr (ow_current w)), (''owned_paths'', JList (map JStr (ow_paths w)))]"

definition owner_file :: "string \<Rightarrow> string" where
  "owner_file identity = identity @ ''.json''"

definition read_plan_identity :: "string \<Rightarrow> json option \<Rightarrow> plan_owner option" where
  "read_plan_identity name content =
     (case content of
        None \<Rightarrow> None
      | Some v \<Rightarrow>
          (case validate_plan_identity v of
             None \<Rightarrow> None
           | Some w \<Rightarrow> if owner_stem name = ow_id w then Some w else None))"

definition temporary_name :: "string \<Rightarrow> bool" where
  "temporary_name name = (starts_with name ''.'' \<and> ends_with name ''.tmp'')"

text \<open>Every owner; a file that is none is an error, or in the tolerant reading leaves no owners at all.\<close>

definition owner_or_error :: "string \<times> json option \<Rightarrow> string + plan_owner" where
  "owner_or_error e =
     (case read_plan_identity (fst e) (snd e) of
        None \<Rightarrow> Inl (''plan identity metadata is invalid: '' @ fst e) | Some w \<Rightarrow> Inr w)"

definition strict_identities :: "volume \<Rightarrow> string + plan_owner list" where
  "strict_identities v =
     traverse owner_or_error (sort_key fst (filter (\<lambda>e. \<not> temporary_name (fst e)) (vo_owners v)))"

definition tolerant_identities :: "volume \<Rightarrow> plan_owner list" where
  "tolerant_identities v = (case strict_identities v of Inl e \<Rightarrow> [] | Inr ws \<Rightarrow> ws)"

definition owning :: "string \<Rightarrow> plan_owner list \<Rightarrow> plan_owner list" where
  "owning p ws = filter (\<lambda>w. ow_current w = Some p) ws"

text \<open>\<^verbatim>\<open>_path_value\<close>\<close>

definition path_value :: "bool \<Rightarrow> string \<Rightarrow> volume \<Rightarrow> string + string" where
  "path_value require_file p v =
     (if is_link (entry_at v p) then Inl (''provenance source path must not be a symlink: '' @ p)
      else if require_file \<and> node_at v p = None then Inl (''provenance source path is not a regular file: '' @ p)
      else Inr p)"

definition plan_identity_for_path :: "string \<Rightarrow> volume \<Rightarrow> string option" where
  "plan_identity_for_path p v =
     (case path_value False p v of
        Inl e \<Rightarrow> None
      | Inr value \<Rightarrow> (case owning value (tolerant_identities v) of [w] \<Rightarrow> Some (ow_id w) | _ \<Rightarrow> None))"

definition plan_identity_for_path_strict :: "string \<Rightarrow> volume \<Rightarrow> string + string option" where
  "plan_identity_for_path_strict p v =
     rbind (path_value False p v) (\<lambda>value.
     rbind (strict_identities v) (\<lambda>ws.
       case owning value ws of
         [] \<Rightarrow> Inr None
       | [w] \<Rightarrow> Inr (Some (ow_id w))
       | _ \<Rightarrow> Inl ''plan identity ownership is ambiguous''))"

definition plan_identity_alias_owners :: "string \<Rightarrow> volume \<Rightarrow> string list option" where
  "plan_identity_alias_owners p v =
     (case rbind (strict_identities v) (\<lambda>ws. rbind (path_value False p v) (\<lambda>value. Inr (ws, value))) of
        Inl e \<Rightarrow> None
      | Inr (ws, value) \<Rightarrow> Some (remdups (map ow_id (filter (\<lambda>w. value \<in> set (ow_paths w)) ws))))"

definition plan_identity_lexical_owners :: "string \<Rightarrow> volume \<Rightarrow> string list option" where
  "plan_identity_lexical_owners spelling v =
     (if \<not> valid_alias (JStr spelling) then None
      else case strict_identities v of
        Inl e \<Rightarrow> None
      | Inr ws \<Rightarrow> Some (remdups (map ow_id (filter (\<lambda>w. spelling \<in> set (ow_paths w)) ws))))"

subsection \<open>New owners\<close>

definition lc_provenance :: "(volume \<Rightarrow> string + 'a) \<Rightarrow> 'a lc" where
  "lc_provenance f = lc_of (\<lambda>v. map_sum Provenance_Error (\<lambda>x. x) (f v))"

definition write_owner :: "plan_owner \<Rightarrow> unit lc" where
  "write_owner w = lc_do (put_owner (owner_file (ow_id w)) (owner_dict w))"

definition create_plan_identity :: "string \<Rightarrow> string \<Rightarrow> string lc" where
  "create_plan_identity fresh p =
     lc_bind (lc_provenance (path_value True p)) (\<lambda>value.
     lc_bind (lc_provenance strict_identities) (\<lambda>ws.
     lc_bind (lc_each (\<lambda>w. write_owner (w\<lparr>ow_current := None\<rparr>)) (owning value ws)) (\<lambda>_.
     lc_bind (write_owner \<lparr>ow_schema = JInt 1, ow_id = fresh, ow_current = Some value, ow_paths = [value]\<rparr>) (\<lambda>_.
       lc_ret fresh))))"

definition ensure_plan_identity :: "string \<Rightarrow> string \<Rightarrow> string lc" where
  "ensure_plan_identity fresh p =
     lc_bind (lc_of (\<lambda>v. Inr (plan_identity_for_path p v))) (\<lambda>existing.
       case existing of Some i \<Rightarrow> lc_ret i | None \<Rightarrow> create_plan_identity fresh p)"

subsection \<open>Adopting the history of a path\<close>

definition exact_source :: "string \<Rightarrow> json \<Rightarrow> bool" where
  "exact_source source r = (dget (obj_of r) ''source_path'' = JStr source)"

text \<open>A reference that names no owner under a key gets one.\<close>

definition adopt :: "string \<Rightarrow> string \<Rightarrow> json \<Rightarrow> json" where
  "adopt k owner r =
     (if dget (obj_of r) k = JNull then JObj (dput k (JStr owner) (obj_of r)) else r)"

definition named_under :: "string \<Rightarrow> json list \<Rightarrow> json list" where
  "named_under k rs = filter (\<lambda>v. v \<noteq> JNull) (map (\<lambda>r. dget (obj_of r) k) rs)"

definition adopt_sources :: "string \<Rightarrow> string \<Rightarrow> json list \<Rightarrow> json list" where
  "adopt_sources owner source rs =
     (if set (named_under ''plan_identity_id'' (filter (exact_source source) rs)) \<subseteq> {JStr owner}
      then map (\<lambda>r. if exact_source source r then adopt ''plan_identity_id'' owner r else r) rs else rs)"

definition adopts_original :: "string \<Rightarrow> string \<Rightarrow> dict \<Rightarrow> json list \<Rightarrow> bool" where
  "adopts_original owner source d rs =
     (dget d ''kind'' = JStr ''follow_up'' \<and> dget d ''original_plan_path'' = JStr source \<and>
      set (filter (\<lambda>v. v \<noteq> JNull) (items_of (dget d ''original_plan_identity_ids'')) @
           named_under ''original_plan_identity_id'' rs) \<subseteq> {JStr owner})"

definition bound_record :: "string \<Rightarrow> string \<Rightarrow> dict \<Rightarrow> dict" where
  "bound_record owner source d =
     (let rs = adopt_sources owner source (items_of (dget d ''capture_references''));
          stored = items_of (dget d ''original_plan_identity_ids'') in
      if adopts_original owner source d rs
      then (let d' = dput ''capture_references'' (JList (map (adopt ''original_plan_identity_id'' owner) rs)) d
            in if JStr owner \<in> set stored then d'
               else dput ''original_plan_identity_ids'' (JList (stored @ [JStr owner])) d')
      else dput ''capture_references'' (JList rs) d)"

definition write_changed :: "(dict \<Rightarrow> dict) \<Rightarrow> string \<times> dict \<Rightarrow> unit lc" where
  "write_changed f = (\<lambda>(body, d). if f d = d then lc_ret () else lc_do (put_sidecar body (f d)))"

definition bind_unowned_plan_history :: "string \<Rightarrow> string \<Rightarrow> unit lc" where
  "bind_unowned_plan_history owner p =
     lc_bind (lc_provenance (path_value False p)) (\<lambda>source.
     lc_bind (lc_of (\<lambda>v. Inr (plan_identity_for_path p v))) (\<lambda>current.
     lc_bind (lc_guard (valid_identity_id (JStr owner) \<and> current = Some owner)
       (Provenance_Error (''plan identity ownership is not unique: '' @ source))) (\<lambda>_.
     lc_bind (lc_of (\<lambda>v. Inr (list_backup_provenance v))) (\<lambda>rs.
     lc_bind (lc_each (write_changed (bound_record owner source)) rs) (\<lambda>_. lc_ret ())))))"

subsection \<open>Following a move\<close>

text \<open>\<^verbatim>\<open>[*values, value]\<close> unless the value is there\<close>

definition with_value :: "'a \<Rightarrow> 'a list \<Rightarrow> 'a list" where
  "with_value x xs = (if x \<in> set xs then xs else xs @ [x])"

definition move_plan_identity :: "string \<Rightarrow> string \<Rightarrow> bool lc" where
  "move_plan_identity source destination =
     lc_bind (lc_provenance (path_value False source)) (\<lambda>s.
     lc_bind (lc_provenance (path_value True destination)) (\<lambda>d.
     lc_bind (lc_provenance strict_identities) (\<lambda>ws.
       case owning s ws of
         [] \<Rightarrow> lc_ret False
       | [w] \<Rightarrow>
           lc_bind (write_owner (w\<lparr>ow_current := Some d, ow_paths := with_value d (ow_paths w)\<rparr>)) (\<lambda>_. lc_ret True)
       | _ \<Rightarrow> lc_fail (Provenance_Error (''plan identity ownership is ambiguous: '' @ s)))))"

definition original_match :: "string \<Rightarrow> dict \<Rightarrow> bool" where
  "original_match source d =
     (dget d ''original_plan_path'' = JStr source \<or> JStr source \<in> set (items_of (dget d ''original_plan_aliases'')))"

text \<open>The aliases a record gains when the plan it names moves.\<close>

definition moved_record :: "string \<Rightarrow> string \<Rightarrow> dict \<Rightarrow> dict" where
  "moved_record source destination d =
     (let aliases = items_of (aliases_of d);
          originals = (if items_of (dget d ''original_plan_aliases'') = [] then [dget d ''original_plan_path'']
                       else items_of (dget d ''original_plan_aliases''));
          d' = (if JStr source \<in> set aliases \<and> JStr destination \<notin> set aliases
                then dput ''path_aliases'' (JList (aliases @ [JStr destination])) d else d)
      in if original_match source d \<and> JStr destination \<notin> set originals
         then dput ''original_plan_aliases'' (JList (originals @ [JStr destination])) d' else d')"

definition record_plan_lifecycle_move :: "string \<Rightarrow> string \<Rightarrow> unit lc" where
  "record_plan_lifecycle_move source destination =
     lc_bind (lc_provenance (path_value False source)) (\<lambda>s.
     lc_bind (lc_provenance (path_value True destination)) (\<lambda>d.
     lc_bind (lc_of (\<lambda>v. Inr (list_backup_provenance v))) (\<lambda>rs.
     lc_bind (lc_each (write_changed (moved_record s d)) rs) (\<lambda>_.
     lc_bind (move_plan_identity source destination) (\<lambda>_. lc_ret ())))))"

end
