(* ===== verification/Plan_Lifecycle.thy ===== *)
theory Plan_Lifecycle
  imports Plan_Owners
begin

text \<open>
  Moves of a plan between the directories of its lifecycle (\<^verbatim>\<open>aflow/plan_lifecycle.py\<close>): a
  journal entry precedes the move of the file, and replaying the entry completes exactly that move.
  The directories are plain ones, paths are spelled under the resolved root, and the journal lock is
  held: other processes may still change plan files between two system calls, which the argument
  \<open>others\<close> says. SHA-256 is the argument \<open>sha\<close>.
\<close>

subsection \<open>Places\<close>

datatype plan_location = In_Progress | Failed | Needs_Plan_Change

fun directory_name :: "plan_location \<Rightarrow> string" where
  "directory_name In_Progress = ''in-progress''"
| "directory_name Failed = ''failed''"
| "directory_name Needs_Plan_Change = ''needs-plan-change''"

fun location_key :: "plan_location \<Rightarrow> string" where
  "location_key In_Progress = ''in_progress''"
| "location_key Failed = ''failed''"
| "location_key Needs_Plan_Change = ''needs_plan_change''"

definition LOCATIONS :: "plan_location list" where
  "LOCATIONS = [In_Progress, Failed, Needs_Plan_Change]"

definition location_named :: "string \<Rightarrow> plan_location option" where
  "location_named key = find (\<lambda>l. location_key l = key) LOCATIONS"

definition name_char :: "char \<Rightarrow> bool" where
  "name_char c = ((65 \<le> code c \<and> code c \<le> 90) \<or> (97 \<le> code c \<and> code c \<le> 122) \<or> is_digit c)"

text \<open>\<^verbatim>\<open>[A-Za-z0-9][A-Za-z0-9._-]{0,199}\.md\<close>: what remains before the suffix has 1 to 200 characters.\<close>

definition plan_name_ok :: "string \<Rightarrow> bool" where
  "plan_name_ok name =
     (ends_with name ''.md'' \<and>
      (let stem = take (length name - 3) name in
       stem \<noteq> [] \<and> length stem \<le> 200 \<and> name_char (hd stem) \<and>
       list_all (\<lambda>c. name_char c \<or> c \<in> set ''._-'') (tl stem)))"

definition plan_directory :: "string \<Rightarrow> plan_location \<Rightarrow> string" where
  "plan_directory root l = root @ ''/plans/'' @ directory_name l"

definition place :: "string \<Rightarrow> plan_location \<Rightarrow> string \<Rightarrow> string" where
  "place root l name = plan_directory root l @ ''/'' @ name"

definition lifecycle_path :: "string \<Rightarrow> plan_location \<Rightarrow> string \<Rightarrow> lifecycle_error + string" where
  "lifecycle_path root l name =
     (if plan_name_ok name then Inr (place root l name) else Inl (Lifecycle_Error ''plan filename is invalid''))"

definition parent_text :: "string \<Rightarrow> string" where
  "parent_text p = rev (tl (dropWhile (\<lambda>c. c \<noteq> CHR ''/'') (rev p)))"

definition name_text :: "string \<Rightarrow> string" where
  "name_text p = rev (takeWhile (\<lambda>c. c \<noteq> CHR ''/'') (rev p))"

definition location_for :: "string \<Rightarrow> string \<Rightarrow> lifecycle_error + plan_location option" where
  "location_for root p =
     (if \<not> starts_with p ''/'' then Inl (Lifecycle_Error ''lifecycle path is invalid'')
      else Inr (find (\<lambda>l. parent_text p = plan_directory root l) LOCATIONS))"

definition canonical_direct_child :: "volume \<Rightarrow> string \<Rightarrow> string \<Rightarrow> lifecycle_error + string" where
  "canonical_direct_child v p parent =
     (if \<not> starts_with p ''/'' \<or> name_text p \<in> set ['''', ''.'', ''..'']
      then Inl (Lifecycle_Error ''lifecycle path is invalid'')
      else if parent_text p \<noteq> parent
      then Inl (Lifecycle_Error ''lifecycle parent is outside the repository directory'')
      else if is_link (entry_at v p) then Inl (Lifecycle_Error ''lifecycle entry must not be a symlink'')
      else Inr (parent @ ''/'' @ name_text p))"

definition LIFECYCLE_PLAN_BYTES :: nat where "LIFECYCLE_PLAN_BYTES = 256 * 1024"

definition regular_bytes :: "bool \<Rightarrow> volume \<Rightarrow> string \<Rightarrow> lifecycle_error + string option" where
  "regular_bytes allow_linked v p =
     (case entry_at v p of
        None \<Rightarrow> Inr None
      | Some (Plain_File n) \<Rightarrow>
          if (link_count v n \<noteq> 1 \<and> \<not> allow_linked) \<or> length (vo_bytes v n) > LIFECYCLE_PLAN_BYTES
          then Inl (Lifecycle_Error ''plan entry must be a bounded regular file'')
          else if \<not> utf8_ok (vo_bytes v n) then Inl (Lifecycle_Error ''plan bytes are unavailable'')
          else Inr (Some (vo_bytes v n))
      | Some e \<Rightarrow> Inl (Lifecycle_Error ''plan entry must be a bounded regular file''))"

subsection \<open>The journal\<close>

definition entry_fields_ok :: "string \<Rightarrow> dict \<Rightarrow> py_exn + bool" where
  "entry_fields_ok file d =
     (let identity = dget d ''identity''; keys = map location_key LOCATIONS in
      all_hold
        [Inr (equals_int (dget d ''schema'') 1),
         in_str_set [''prepared'', ''moved''] (dget d ''phase''),
         Inr (hex_of_length 32 identity \<and> file = str_of identity @ ''.json''),
         Inr (is_str (dget d ''name'') \<and> plan_name_ok (str_of (dget d ''name''))),
         in_str_set keys (dget d ''source''),
         in_str_set keys (dget d ''destination''),
         Inr (hex_of_length 64 (dget d ''revision'')),
         Inr (is_plain_int (dget d ''source_dev'') \<and> is_plain_int (dget d ''source_inode'') \<and>
              0 \<le> int_of (dget d ''source_dev'') \<and> 0 < int_of (dget d ''source_inode''))])"

definition read_entry :: "string \<Rightarrow> volume \<Rightarrow> lifecycle_error + dict option" where
  "read_entry file v =
     (case map_of (vo_journal v) file of
        None \<Rightarrow> Inr None
      | Some Unsafe_File \<Rightarrow> Inl (Lifecycle_Error ''plan journal is unsafe'')
      | Some Unreadable_File \<Rightarrow> Inl (Lifecycle_Error ''plan journal is unreadable'')
      | Some (Journal_File j) \<Rightarrow>
          if \<not> is_obj j then Inl (Lifecycle_Error ''plan journal has invalid identity'')
          else (case entry_fields_ok file (obj_of j) of
                  Inl x \<Rightarrow> Inl (Lifecycle_Raised x)
                | Inr ok \<Rightarrow> if ok then Inr (Some (obj_of j)) else Inl (Lifecycle_Error ''plan journal has invalid identity'')))"

text \<open>\<^verbatim>\<open>sorted(journal.glob("*.json"))\<close>\<close>

definition journal_files :: "volume \<Rightarrow> string list" where
  "journal_files v =
     sort (filter (\<lambda>f. ends_with f ''.json'') (map fst (vo_journal v)))"

definition entry_source :: "dict \<Rightarrow> plan_location" where
  "entry_source d = the (location_named (str_of (dget d ''source'')))"

definition entry_destination :: "dict \<Rightarrow> plan_location" where
  "entry_destination d = the (location_named (str_of (dget d ''destination'')))"

definition entry_name :: "dict \<Rightarrow> string" where
  "entry_name d = str_of (dget d ''name'')"

definition entry_node :: "dict \<Rightarrow> file_node" where
  "entry_node d = (int_of (dget d ''source_dev''), int_of (dget d ''source_inode''))"

definition entry_revision :: "dict \<Rightarrow> string" where
  "entry_revision d = str_of (dget d ''revision'')"

subsection \<open>Completing a move\<close>

definition changed_source :: lifecycle_error where
  "changed_source = Lifecycle_Conflict ''source plan changed during its lifecycle move''"

definition taken_destination :: lifecycle_error where
  "taken_destination = Lifecycle_Conflict ''destination plan already exists''"

text \<open>The checks before anything is changed; the result is what source and destination hold.\<close>

definition inspect_move :: "(string \<Rightarrow> string) \<Rightarrow> dict \<Rightarrow> string \<Rightarrow> string \<Rightarrow> volume \<Rightarrow> lifecycle_error + bool \<times> bool" where
  "inspect_move sha r source destination v =
     rbind (regular_bytes True v source) (\<lambda>sb.
     rbind (regular_bytes True v destination) (\<lambda>db.
       if sb \<noteq> None \<and> node_at v source \<noteq> Some (entry_node r)
       then Inl (Lifecycle_Conflict ''source plan identity changed during its lifecycle move'')
       else if db \<noteq> None \<and> node_at v destination \<noteq> Some (entry_node r) then Inl taken_destination
       else if (case sb of None \<Rightarrow> False | Some b \<Rightarrow> sha b \<noteq> entry_revision r) then Inl changed_source
       else if (case db of None \<Rightarrow> False | Some b \<Rightarrow> sha b \<noteq> entry_revision r)
       then Inl (Lifecycle_Conflict ''destination plan collides with lifecycle move'')
       else if sb \<noteq> None \<and> db \<noteq> None \<and> node_at v source \<noteq> node_at v destination then Inl taken_destination
       else if sb = None \<and> db = None then Inl (Lifecycle_Conflict ''recorded plan move has no source or destination'')
       else Inr (sb \<noteq> None, db \<noteq> None)))"

text \<open>An entry that has to be there.\<close>

definition lc_entry :: "string \<Rightarrow> dir_entry lc" where
  "lc_entry p = lc_of (\<lambda>v. case entry_at v p of
     None \<Rightarrow> Inl (Missing_File p) | Some e \<Rightarrow> Inr e)"

definition linked_ok :: "(string \<Rightarrow> string) \<Rightarrow> dict \<Rightarrow> dir_entry \<Rightarrow> dir_entry \<Rightarrow> dir_entry \<Rightarrow> string option \<Rightarrow> bool" where
  "linked_ok sha r seen linked current bytes =
     (is_plain seen \<and> seen = linked \<and> seen = current \<and> map_option sha bytes = Some (entry_revision r))"

text \<open>
  The moments between two system calls of a move in which other processes may act; what they do is
  the argument \<open>others\<close>. The inspection above is taken at one moment, since the calls after it look again.
\<close>

datatype window =
    Before_Link | After_Link | Before_Source_Look | Before_Read | Before_Take_Back | Before_Link_Removal
  | Before_Source_Check | Before_Source_Stat | Before_Destination_Stat | Before_Source_Removal
  | Before_Records | Before_Save

text \<open>\<^verbatim>\<open>Path.unlink\<close>\<close>

definition lc_unlink :: "string \<Rightarrow> unit lc" where
  "lc_unlink p = lc_bind (lc_entry p) (\<lambda>_. lc_do (drop_entry p))"

definition link_plan ::
  "(string \<Rightarrow> string) \<Rightarrow> (window \<Rightarrow> volume \<Rightarrow> volume) \<Rightarrow> dict \<Rightarrow> string \<Rightarrow> string \<Rightarrow> unit lc" where
  "link_plan sha others r source destination =
     lc_bind (lc_entry source) (\<lambda>seen.
     lc_bind (lc_others (others Before_Link)) (\<lambda>_.
     lc_bind (lc_entry source) (\<lambda>now.
     lc_bind (lc_of (\<lambda>v. Inr (entry_at v destination))) (\<lambda>there.
     lc_bind (lc_guard (there = None) taken_destination) (\<lambda>_.
     lc_bind (lc_do (add_entry destination now)) (\<lambda>_.
     lc_bind (lc_others (others After_Link)) (\<lambda>_.
     lc_bind (lc_entry destination) (\<lambda>linked.
     lc_bind (lc_others (others Before_Source_Look)) (\<lambda>_.
     lc_bind (lc_entry source) (\<lambda>current.
     lc_bind (lc_others (others Before_Read)) (\<lambda>_.
     lc_bind (case linked of Plain_File n \<Rightarrow> lc_of (\<lambda>v. regular_bytes True v destination) | _ \<Rightarrow> lc_ret None) (\<lambda>bytes.
       if linked_ok sha r seen linked current bytes then lc_ret ()
       else lc_bind (lc_others (others Before_Take_Back)) (\<lambda>_.
            lc_bind (lc_entry destination) (\<lambda>e.
            lc_bind (if e = linked
                     then lc_bind (lc_others (others Before_Link_Removal)) (\<lambda>_. lc_unlink destination)
                     else lc_ret ()) (\<lambda>_.
              lc_fail changed_source)))))))))))))))"

definition unlink_source :: "(window \<Rightarrow> volume \<Rightarrow> volume) \<Rightarrow> string \<Rightarrow> string \<Rightarrow> unit lc" where
  "unlink_source others source destination =
     lc_bind (lc_of (\<lambda>v. Inr (entry_at v source))) (\<lambda>there.
       if there = None then lc_ret ()
       else
         lc_bind (lc_others (others Before_Source_Stat)) (\<lambda>_.
         lc_bind (lc_entry source) (\<lambda>e.
         lc_bind (lc_others (others Before_Destination_Stat)) (\<lambda>_.
         lc_bind (lc_entry destination) (\<lambda>d.
         lc_bind (lc_guard (is_plain e \<and> e = d) changed_source) (\<lambda>_.
         lc_bind (lc_others (others Before_Source_Removal)) (\<lambda>_.
           lc_unlink source)))))))"

definition moved_entry :: "dict \<Rightarrow> dict" where
  "moved_entry r = dput ''current_location'' (dget r ''destination'') (dput ''phase'' (JStr ''moved'') r)"

definition complete_move ::
  "(string \<Rightarrow> string) \<Rightarrow> (window \<Rightarrow> volume \<Rightarrow> volume) \<Rightarrow> string \<Rightarrow> dict \<Rightarrow> string \<Rightarrow> string lc" where
  "complete_move sha others root r file =
     (let source = place root (entry_source r) (entry_name r);
          destination = place root (entry_destination r) (entry_name r) in
      lc_bind (lc_of (inspect_move sha r source destination)) (\<lambda>(has_source, has_destination).
      lc_bind (if has_source \<and> \<not> has_destination then link_plan sha others r source destination else lc_ret ()) (\<lambda>_.
      lc_bind (lc_others (others Before_Source_Check)) (\<lambda>_.
      lc_bind (unlink_source others source destination) (\<lambda>_.
      lc_bind (lc_others (others Before_Records)) (\<lambda>_.
      lc_bind (lc_catch_provenance (Lifecycle_Error ''plan identity move is incomplete'')
        (record_plan_lifecycle_move source destination)) (\<lambda>_.
      lc_bind (lc_others (others Before_Save)) (\<lambda>_.
      lc_bind (lc_do (put_journal file (moved_entry r))) (\<lambda>_. lc_ret destination)))))))))"

subsection \<open>Operations\<close>

record move_request =
  mq_source :: string
  mq_destination :: plan_location
  mq_revision :: string
  mq_code :: string
  mq_reason :: string
  mq_run :: "string option"

definition reason_code_ok :: "string \<Rightarrow> bool" where
  "reason_code_ok c =
     (c \<noteq> [] \<and> length c \<le> 64 \<and> 97 \<le> code (hd c) \<and> code (hd c) \<le> 122 \<and>
      list_all (\<lambda>d. (97 \<le> code d \<and> code d \<le> 122) \<or> is_digit d \<or> d = CHR ''_'') (tl c))"

definition run_name_ok :: "string \<Rightarrow> bool" where
  "run_name_ok s =
     (s \<noteq> [] \<and> length s \<le> 64 \<and> name_char (hd s) \<and> list_all (\<lambda>c. name_char c \<or> c \<in> set ''_-'') (tl s))"

definition check_request :: "string \<Rightarrow> move_request \<Rightarrow> volume \<Rightarrow> lifecycle_error + plan_location \<times> string" where
  "check_request root q v =
     (let bad = (\<lambda>m. Inl (Lifecycle_Error m)) in
      if \<not> hex_of_length 64 (JStr (mq_revision q)) then bad ''expected plan revision is invalid''
      else if \<not> reason_code_ok (mq_code q) then bad ''plan lifecycle reason code is invalid''
      else if length (mq_reason q) > 256 \<or> \<not> list_all is_printable (mq_reason q)
      then bad ''plan lifecycle reason is invalid''
      else if (case mq_run q of None \<Rightarrow> False | Some r \<Rightarrow> \<not> run_name_ok r) then bad ''source run identity is invalid''
      else if name_text (mq_source q) \<noteq> strip (name_text (mq_source q)) then bad ''source plan path is invalid''
      else rbind (location_for root (mq_source q)) (\<lambda>l.
        case l of
          None \<Rightarrow> bad ''source plan location is invalid''
        | Some loc \<Rightarrow>
            if loc = mq_destination q then bad ''source plan location is invalid''
            else rbind (canonical_direct_child v (mq_source q) (plan_directory root loc)) (\<lambda>p. Inr (loc, p))))"

text \<open>The first entry that records exactly the requested move.\<close>

fun replayed :: "(dict \<Rightarrow> bool) \<Rightarrow> string list \<Rightarrow> volume \<Rightarrow> lifecycle_error + (string \<times> dict) option" where
  "replayed p [] v = Inr None"
| "replayed p (f # fs) v =
     rbind (read_entry f v) (\<lambda>e.
       case e of
         Some d \<Rightarrow> if p d then Inr (Some (f, d)) else replayed p fs v
       | None \<Rightarrow> replayed p fs v)"

definition same_move :: "move_request \<Rightarrow> plan_location \<Rightarrow> string \<Rightarrow> dict \<Rightarrow> bool" where
  "same_move q loc name d =
     (entry_name d = name \<and> entry_source d = loc \<and> entry_destination d = mq_destination q \<and>
      entry_revision d = mq_revision q)"

definition owner_for_move :: "string \<Rightarrow> string \<Rightarrow> string lc" where
  "owner_for_move fresh source =
     lc_bind (lc_of (\<lambda>v. Inr (plan_identity_for_path source v))) (\<lambda>i.
       case i of
         Some identity \<Rightarrow> lc_ret identity
       | None \<Rightarrow>
           lc_bind (ensure_plan_identity fresh source) (\<lambda>identity.
           lc_bind (bind_unowned_plan_history identity source) (\<lambda>_. lc_ret identity)))"

definition prepared_entry ::
  "string \<Rightarrow> move_request \<Rightarrow> plan_location \<Rightarrow> string \<Rightarrow> string \<Rightarrow> dict option \<Rightarrow> file_node \<Rightarrow> dict" where
  "prepared_entry root q loc name identity prior n =
     (let prior_run = (case prior of None \<Rightarrow> JNull | Some d \<Rightarrow> dget d ''source_run_id'') in
      [(''schema'', JInt 1), (''identity'', JStr identity), (''name'', JStr name),
       (''source'', JStr (location_key loc)), (''destination'', JStr (location_key (mq_destination q))),
       (''original_path'', case prior of None \<Rightarrow> JStr (place root In_Progress name) | Some d \<Rightarrow> dget d ''original_path''),
       (''current_location'', JStr (location_key loc)), (''revision'', JStr (mq_revision q)),
       (''phase'', JStr ''prepared''), (''source_dev'', JInt (fst n)), (''source_inode'', JInt (snd n)),
       (''reason_code'', JStr (mq_code q)), (''reason'', JStr (mq_reason q)),
       (''source_run_id'', case mq_run q of None \<Rightarrow> prior_run | Some s \<Rightarrow> JStr s)])"

definition begin_move ::
  "(string \<Rightarrow> string) \<Rightarrow> (window \<Rightarrow> volume \<Rightarrow> volume) \<Rightarrow> string \<Rightarrow> string \<Rightarrow> move_request \<Rightarrow> plan_location \<Rightarrow> string \<Rightarrow> string lc" where
  "begin_move sha others root fresh q loc source =
     (let name = name_text source in
      lc_bind (lc_entry source) (\<lambda>e.
      lc_bind (lc_of (\<lambda>v. rbind (lifecycle_path root (mq_destination q) name) (\<lambda>t.
        if entry_at v t \<noteq> None then Inl taken_destination else Inr t))) (\<lambda>target.
      lc_bind (owner_for_move fresh source) (\<lambda>identity.
      lc_bind (lc_of (read_entry (identity @ ''.json''))) (\<lambda>prior.
      lc_bind (case prior of
          Some d \<Rightarrow>
            if dget d ''phase'' = JStr ''prepared''
            then lc_bind (complete_move sha others root d (identity @ ''.json'')) (\<lambda>_.
                   lc_fail (Lifecycle_Conflict ''a prior plan move completed; retry this request''))
            else lc_ret ()
        | None \<Rightarrow> lc_ret ()) (\<lambda>_.
      (let r = prepared_entry root q loc name identity prior (case e of Plain_File n \<Rightarrow> n | _ \<Rightarrow> (0, 0)) in
       lc_bind (lc_do (put_journal (identity @ ''.json'') r)) (\<lambda>_.
         complete_move sha others root r (identity @ ''.json'')))))))))"

definition move_plan ::
  "(string \<Rightarrow> string) \<Rightarrow> (window \<Rightarrow> volume \<Rightarrow> volume) \<Rightarrow> string \<Rightarrow> string \<Rightarrow> move_request \<Rightarrow> string lc" where
  "move_plan sha others root fresh q =
     lc_bind (lc_of (check_request root q)) (\<lambda>(loc, source).
     lc_bind (lc_of (\<lambda>v. regular_bytes False v source)) (\<lambda>data.
       case data of
         None \<Rightarrow>
           lc_bind (lc_of (\<lambda>v. replayed (same_move q loc (name_text source)) (journal_files v) v)) (\<lambda>found.
             case found of
               None \<Rightarrow> lc_fail (Lifecycle_Conflict ''source plan is missing'')
             | Some (file, d) \<Rightarrow> complete_move sha others root d file)
       | Some bytes \<Rightarrow>
           if sha bytes \<noteq> mq_revision q then lc_fail (Lifecycle_Conflict ''source plan revision changed'')
           else begin_move sha others root fresh q loc source))"

text \<open>The prepared entries of some files that a test selects, completed one after the other.\<close>

fun complete_prepared ::
  "(string \<Rightarrow> string) \<Rightarrow> (window \<Rightarrow> volume \<Rightarrow> volume) \<Rightarrow> string \<Rightarrow> (dict \<Rightarrow> bool) \<Rightarrow> string list \<Rightarrow> string list lc" where
  "complete_prepared sha others root p [] = lc_ret []"
| "complete_prepared sha others root p (f # fs) =
     lc_bind (lc_of (read_entry f)) (\<lambda>e.
       case e of
         Some d \<Rightarrow>
           if dget d ''phase'' = JStr ''prepared'' \<and> p d
           then lc_bind (complete_move sha others root d f) (\<lambda>path.
                lc_bind (complete_prepared sha others root p fs) (\<lambda>paths. lc_ret (path # paths)))
           else complete_prepared sha others root p fs
       | None \<Rightarrow> complete_prepared sha others root p fs)"

definition recover :: "(string \<Rightarrow> string) \<Rightarrow> (window \<Rightarrow> volume \<Rightarrow> volume) \<Rightarrow> string \<Rightarrow> string list lc" where
  "recover sha others root =
     lc_bind (lc_of (\<lambda>v. Inr (journal_files v))) (complete_prepared sha others root (\<lambda>d. True))"

definition touches :: "plan_location \<Rightarrow> string \<Rightarrow> dict \<Rightarrow> bool" where
  "touches loc name d = (entry_name d = name \<and> (loc = entry_source d \<or> loc = entry_destination d))"

definition recover_for_path :: "(string \<Rightarrow> string) \<Rightarrow> (window \<Rightarrow> volume \<Rightarrow> volume) \<Rightarrow> string \<Rightarrow> string \<Rightarrow> string list lc" where
  "recover_for_path sha others root p =
     lc_bind (lc_of (\<lambda>v. location_for root p)) (\<lambda>l.
       case l of
         None \<Rightarrow> lc_ret []
       | Some loc \<Rightarrow>
           if \<not> plan_name_ok (name_text p) then lc_ret []
           else lc_bind (lc_of (\<lambda>v. canonical_direct_child v p (plan_directory root loc))) (\<lambda>_.
                lc_bind (lc_of (\<lambda>v. Inr (journal_files v)))
                  (complete_prepared sha others root (touches loc (name_text p)))))"

definition record_for :: "string \<Rightarrow> string \<Rightarrow> volume \<Rightarrow> lifecycle_error + dict option" where
  "record_for root p v =
     rbind (location_for root p) (\<lambda>l.
       case l of
         None \<Rightarrow> Inr None
       | Some loc \<Rightarrow>
           if \<not> plan_name_ok (name_text p) then Inr None
           else rbind (canonical_direct_child v p (plan_directory root loc)) (\<lambda>c.
             case plan_identity_for_path c v of
               None \<Rightarrow> Inr None
             | Some identity \<Rightarrow> read_entry (identity @ ''.json'') v))"

end
