(* ===== verification/Lifecycle_Laws.thy ===== *)
theory Lifecycle_Laws
  imports Plan_Lifecycle
begin

text \<open>
  What the owners of plans and a move of a plan keep. An owner file is good where it reads as an
  owner; a path has at most one owner; and a prepared move has exactly three shapes on disk, from each
  of which completing it ends in the same place.
\<close>

subsection \<open>Owners\<close>

definition owner_at :: "volume \<Rightarrow> string \<Rightarrow> plan_owner option" where
  "owner_at v name =
     (if temporary_name name then None
      else case map_of (vo_owners v) name of None \<Rightarrow> None | Some c \<Rightarrow> read_plan_identity name c)"

definition owners_readable :: "volume \<Rightarrow> bool" where
  "owners_readable v =
     (distinct (map fst (vo_owners v)) \<and>
      (\<forall>(name, c) \<in> set (vo_owners v). temporary_name name \<or> read_plan_identity name c \<noteq> None))"

definition owned_once :: "volume \<Rightarrow> string \<Rightarrow> bool" where
  "owned_once v p =
     (\<forall>a b wa wb. owner_at v a = Some wa \<longrightarrow> owner_at v b = Some wb \<longrightarrow>
        ow_current wa = Some p \<longrightarrow> ow_current wb = Some p \<longrightarrow> a = b)"

lemma strict_identities_readable:
  assumes "owners_readable v"
  shows "strict_identities v =
    Inr (map (\<lambda>e. the (read_plan_identity (fst e) (snd e)))
      (sort_key fst (filter (\<lambda>e. \<not> temporary_name (fst e)) (vo_owners v))))"
  unfolding strict_identities_def
  by (rule traverse_all_Inr) (use assms in \<open>auto simp: owners_readable_def owner_or_error_def\<close>)

lemma owner_at_iff:
  assumes "owners_readable v"
  shows "owner_at v name = Some w \<longleftrightarrow>
    (\<exists>c. (name, c) \<in> set (vo_owners v) \<and> \<not> temporary_name name \<and> read_plan_identity name c = Some w)"
proof -
  have m: "map_of (vo_owners v) name = Some c \<longleftrightarrow> (name, c) \<in> set (vo_owners v)" for c
    using assms by (simp add: owners_readable_def)
  show ?thesis
  proof (cases "map_of (vo_owners v) name")
    case None
    then have "(name, c) \<notin> set (vo_owners v)" for c using m [of c] by simp
    with None show ?thesis by (simp add: owner_at_def)
  next
    case (Some c)
    then have "(name, c') \<in> set (vo_owners v) \<longleftrightarrow> c' = c" for c' using m [of c'] by auto
    with Some show ?thesis by (simp add: owner_at_def)
  qed
qed

lemma strict_identities_set:
  assumes "owners_readable v" and "strict_identities v = Inr ws"
  shows "w \<in> set ws \<longleftrightarrow> (\<exists>name. owner_at v name = Some w)"
proof -
  let ?read = "\<lambda>e. read_plan_identity (fst e) (snd e)"
  let ?files = "filter (\<lambda>e. \<not> temporary_name (fst e)) (vo_owners v)"
  have "ws = map (\<lambda>e. the (?read e)) (sort_key fst ?files)"
    using strict_identities_readable [OF assms(1)] assms(2) by simp
  then have ws: "set ws = (\<lambda>e. the (?read e)) ` set ?files" by simp
  have r: "?read e \<noteq> None" if "e \<in> set ?files" for e
    using assms(1) that unfolding owners_readable_def by auto
  have "w \<in> set ws \<longleftrightarrow> (\<exists>e \<in> set ?files. the (?read e) = w)" unfolding ws by blast
  also have "\<dots> \<longleftrightarrow> (\<exists>e \<in> set ?files. ?read e = Some w)" using r by force
  also have "\<dots> \<longleftrightarrow> (\<exists>name. owner_at v name = Some w)" by (auto simp: owner_at_iff [OF assms(1)])
  finally show ?thesis .
qed

text \<open>An owner's file carries its name, so two owners never share an identity.\<close>

lemma owner_at_stem: "owner_at v name = Some w \<Longrightarrow> owner_stem name = ow_id w"
  by (auto simp: owner_at_def read_plan_identity_def split: if_splits option.splits)

definition owner_ok :: "plan_owner \<Rightarrow> bool" where
  "owner_ok w =
     (equals_int (ow_schema w) 1 \<and> length (ow_id w) = 32 \<and> list_all is_hex (ow_id w) \<and>
      ow_paths w \<noteq> [] \<and> distinct (ow_paths w) \<and> list_all (\<lambda>p. valid_alias (JStr p)) (ow_paths w) \<and>
      (case ow_current w of None \<Rightarrow> True | Some p \<Rightarrow> p \<in> set (ow_paths w)))"

lemma valid_alias_str: "valid_alias v \<Longrightarrow> v = JStr (str_of v)"
  by (cases v) (auto simp: valid_alias_def)

lemma owner_ok_read:
  assumes "validate_plan_identity j = Some w"
  shows "owner_ok w"
proof -
  let ?d = "obj_of j"
  from assms have "owner_fields_ok j" and w: "w = owner_of ?d"
    by (simp_all add: validate_plan_identity_def split: if_split_asm)
  then have e: "equals_int (dget ?d ''schema_version'') 1" and i: "valid_identity_id (dget ?d ''plan_identity_id'')"
    and c: "dget ?d ''current_path'' = JNull \<or> dget ?d ''current_path'' \<in> set (items_of (dget ?d ''owned_paths''))"
    and p: "filled_list valid_alias (dget ?d ''owned_paths'')" "distinct (items_of (dget ?d ''owned_paths''))"
    unfolding owner_fields_ok_def Let_def by blast+
  obtain xs where xs: "dget ?d ''owned_paths'' = JList xs" using p(1) by (cases "dget ?d ''owned_paths''") auto
  with p have n: "xs \<noteq> []" "list_all valid_alias xs" "distinct xs" by auto
  then have s: "x = JStr (str_of x)" if "x \<in> set xs" for x using that valid_alias_str by (auto simp: list_all_iff)
  then have "inj_on str_of (set xs)" by (metis inj_onI)
  moreover have "list_all (\<lambda>p. valid_alias (JStr p)) (map str_of xs)"
    using n(2) s by (auto simp: list_all_iff)
  moreover have "str_of (dget ?d ''current_path'') \<in> set (map str_of xs)" if "dget ?d ''current_path'' \<noteq> JNull"
    using c that xs by auto
  ultimately show ?thesis
    using e i n by (auto simp: owner_ok_def w owner_of_def xs valid_identity_id_def hex_of_length_def distinct_map)
qed

lemma owner_ok_write:
  assumes "owner_ok w"
  shows "validate_plan_identity (JObj (owner_dict w)) = Some w"
proof -
  have "valid_alias (JStr p)" "p \<in> set (ow_paths w)" if "ow_current w = Some p" for p
    using assms that by (auto simp: owner_ok_def list_all_iff)
  then have c: "null_or valid_alias (opt_json JStr (ow_current w))"
    "opt_json JStr (ow_current w) = JNull \<or> opt_json JStr (ow_current w) \<in> set (map JStr (ow_paths w))"
    by (auto simp: null_or_def opt_json_def split: option.split)
  have d: "distinct (map JStr (ow_paths w))" using assms by (simp add: owner_ok_def distinct_map inj_on_def)
  have k: "keys_of (JObj (owner_dict w)) = {''schema_version'', ''plan_identity_id'', ''current_path'', ''owned_paths''}"
    by (simp add: keys_of_def owner_dict_def)
  have "owner_fields_ok (JObj (owner_dict w))"
    unfolding owner_fields_ok_def Let_def k
    using assms c d by (simp add: owner_dict_def owner_ok_def valid_identity_id_def hex_of_length_def list_all_iff)
  moreover have "owner_of (owner_dict w) = w"
    by (cases w) (simp add: owner_of_def owner_dict_def opt_json_def o_def split: option.split)
  ultimately show ?thesis by (simp add: validate_plan_identity_def)
qed

lemma valid_owner: "validate_plan_identity j = Some w \<Longrightarrow> length (ow_id w) = 32 \<and> list_all is_hex (ow_id w)"
  using owner_ok_read by (simp add: owner_ok_def)

lemma hex_no_dot: "list_all is_hex s \<Longrightarrow> CHR ''.'' \<notin> set s"
proof -
  have "\<not> is_hex (CHR ''.'')" by code_simp
  then show "list_all is_hex s \<Longrightarrow> CHR ''.'' \<notin> set s" by (auto simp: list_all_iff)
qed

lemma owner_stem_file: "CHR ''.'' \<notin> set s \<Longrightarrow> s \<noteq> [] \<Longrightarrow> owner_stem (owner_file s) = s"
  by (simp add: owner_stem_def owner_file_def Let_def)

lemma owner_ok_file:
  assumes "owner_ok w"
  shows "owner_stem (owner_file (ow_id w)) = ow_id w" and "\<not> temporary_name (owner_file (ow_id w))"
    and "read_plan_identity (owner_file (ow_id w)) (Some (JObj (owner_dict w))) = Some w"
proof -
  have d: "CHR ''.'' \<notin> set (ow_id w)" "ow_id w \<noteq> []" using assms hex_no_dot by (auto simp: owner_ok_def)
  then show s: "owner_stem (owner_file (ow_id w)) = ow_id w" by (rule owner_stem_file)
  show "\<not> temporary_name (owner_file (ow_id w))"
  proof
    assume "temporary_name (owner_file (ow_id w))"
    then obtain r where "owner_file (ow_id w) = ''.'' @ r" by (auto simp: temporary_name_def starts_with_iff)
    then show False using d by (cases "ow_id w") (auto simp: owner_file_def)
  qed
  from s owner_ok_write [OF assms] show "read_plan_identity (owner_file (ow_id w)) (Some (JObj (owner_dict w))) = Some w"
    by (simp add: read_plan_identity_def)
qed

lemma owner_at_ok: "owner_at v name = Some w \<Longrightarrow> owner_ok w"
  by (auto simp: owner_at_def read_plan_identity_def split: if_split_asm option.splits intro: owner_ok_read)

lemma owner_at_put:
  assumes "owner_ok w"
  shows "owner_at (put_owner (owner_file (ow_id w)) (owner_dict w) v) =
    (owner_at v)(owner_file (ow_id w) := Some w)"
  using owner_ok_file [OF assms] by (auto simp: owner_at_def put_owner_def update_conv' fun_eq_iff)

lemma update_subset: "set (AList.update k x al) \<subseteq> insert (k, x) (set al)"
  by (induction al) auto

lemma owners_readable_put:
  assumes "owner_ok w" and "owners_readable v"
  shows "owners_readable (put_owner (owner_file (ow_id w)) (owner_dict w) v)"
proof -
  let ?al = "AList.update (owner_file (ow_id w)) (Some (JObj (owner_dict w))) (vo_owners v)"
  have "\<forall>(name, c) \<in> set ?al. temporary_name name \<or> read_plan_identity name c \<noteq> None"
  proof
    fix e assume "e \<in> set ?al"
    then have "e \<in> insert (owner_file (ow_id w), Some (JObj (owner_dict w))) (set (vo_owners v))"
      by (rule subsetD [OF update_subset])
    then consider "e = (owner_file (ow_id w), Some (JObj (owner_dict w)))" | "e \<in> set (vo_owners v)"
      unfolding insert_iff by argo
    then show "case e of (name, c) \<Rightarrow> temporary_name name \<or> read_plan_identity name c \<noteq> None"
      using owner_ok_file(3) [OF assms(1)] assms(2) by cases (simp_all add: owners_readable_def)
  qed
  moreover have "distinct (map fst ?al)"
    using assms(2) by (simp add: owners_readable_def distinct_update)
  ultimately show ?thesis unfolding owners_readable_def put_owner_def by simp
qed

subsection \<open>The owner of a path\<close>

lemma at_most_one:
  assumes "distinct (map f xs)" and "\<And>x y. x \<in> set xs \<Longrightarrow> y \<in> set xs \<Longrightarrow> f x = f y"
  shows "xs = [] \<or> (\<exists>x. xs = [x])"
proof (cases xs)
  case (Cons x ys)
  show ?thesis
  proof (cases ys)
    case (Cons y zs)
    with \<open>xs = x # ys\<close> assms(2) [of x y] assms(1) show ?thesis by simp
  qed (simp add: Cons)
qed simp

lemma owning_once:
  assumes "owners_readable v" and "owned_once v p" and "strict_identities v = Inr ws"
  shows "owning p ws = [] \<or> (\<exists>w. owning p ws = [w])"
proof -
  let ?read = "\<lambda>e. the (read_plan_identity (fst e) (snd e))"
  let ?files = "sort_key fst (filter (\<lambda>e. \<not> temporary_name (fst e)) (vo_owners v))"
  let ?own = "filter (\<lambda>e. ow_current (?read e) = Some p) ?files"
  have ws: "ws = map ?read ?files" using strict_identities_readable [OF assms(1)] assms(3) by simp
  have o: "owning p ws = map ?read ?own" unfolding owning_def ws filter_map by (simp add: o_def)
  have "distinct (map fst ?files)"
    using assms(1) distinct_map_filter' [of fst "vo_owners v" "\<lambda>e. \<not> temporary_name (fst e)"]
    unfolding owners_readable_def distinct_map set_sort distinct_sort by blast
  then have d: "distinct (map fst ?own)" by (rule distinct_map_filter')
  have "fst e = fst e'" if "e \<in> set ?own" "e' \<in> set ?own" for e e'
  proof -
    have r: "owner_at v (fst x) = Some (?read x) \<and> ow_current (?read x) = Some p" if "x \<in> set ?own" for x
    proof -
      from that have x: "(fst x, snd x) \<in> set (vo_owners v)" "\<not> temporary_name (fst x)" "ow_current (?read x) = Some p" by auto
      then have "read_plan_identity (fst x) (snd x) = Some (?read x)"
        using assms(1) unfolding owners_readable_def by fastforce
      with x show ?thesis unfolding owner_at_iff [OF assms(1)] by blast
    qed
    from assms(2) [unfolded owned_once_def, rule_format, of "fst e" _ "fst e'"] r [OF that(1)] r [OF that(2)]
    show ?thesis by blast
  qed
  with d have "?own = [] \<or> (\<exists>e. ?own = [e])" by (rule at_most_one)
  then show ?thesis unfolding o by (elim disjE exE) simp_all
qed

lemma identity_for_path:
  assumes "owners_readable v" and "owned_once v p" and "\<not> is_link (entry_at v p)"
  shows "plan_identity_for_path p v = Some i \<longleftrightarrow> (\<exists>name w. owner_at v name = Some w \<and> ow_current w = Some p \<and> ow_id w = i)"
proof -
  obtain ws where ws: "strict_identities v = Inr ws" using strict_identities_readable [OF assms(1)] by blast
  have m: "w \<in> set (owning p ws) \<longleftrightarrow> (\<exists>name. owner_at v name = Some w) \<and> ow_current w = Some p" for w
    using strict_identities_set [OF assms(1) ws] by (auto simp: owning_def)
  have pv: "path_value False p v = Inr p" using assms(3) by (simp add: path_value_def)
  from owning_once [OF assms(1,2) ws] show ?thesis
  proof
    assume "owning p ws = []"
    with m pv ws show ?thesis by (auto simp: plan_identity_for_path_def tolerant_identities_def)
  next
    assume "\<exists>w. owning p ws = [w]"
    then obtain w where w: "owning p ws = [w]" by blast
    with m have "(\<exists>name. owner_at v name = Some w') \<and> ow_current w' = Some p \<longleftrightarrow> w' = w" for w' by auto
    with w pv ws show ?thesis by (simp add: plan_identity_for_path_def tolerant_identities_def) metis
  qed
qed

end
