(* ===== verification/Move_Laws.thy ===== *)
theory Move_Laws
  imports Lifecycle_Laws
begin

text \<open>
  A move of a plan cut off anywhere. While nobody else changes the files, a prepared move has three
  shapes on disk, and completing it from any of them ends in the same place.
\<close>

subsection \<open>What follows the file\<close>

text \<open>The entries, the journal and the bytes stay, and the source keeps at most one owner.\<close>

definition moving ::
  "string \<Rightarrow> (string \<Rightarrow> dir_entry option) \<Rightarrow> (string \<times> journal_file) list \<Rightarrow> (file_node \<Rightarrow> string) \<Rightarrow> volume \<Rightarrow> bool" where
  "moving source E J B v =
     (entry_at v = E \<and> vo_journal v = J \<and> vo_bytes v = B \<and> owners_readable v \<and> owned_once v source)"

lemma owners_cong:
  assumes "vo_owners a = vo_owners b"
  shows "owners_readable a = owners_readable b" and "owned_once a = owned_once b" and "strict_identities a = strict_identities b"
proof -
  have "owner_at a = owner_at b" using assms by (simp add: fun_eq_iff owner_at_def)
  then show "owned_once a = owned_once b" by (simp add: fun_eq_iff owned_once_def)
  show "owners_readable a = owners_readable b" "strict_identities a = strict_identities b"
    using assms by (simp_all add: owners_readable_def strict_identities_def)
qed

lemma moving_put_sidecar: "moving s E J B v \<Longrightarrow> moving s E J B (put_sidecar body d v)"
  using owners_cong [of "put_sidecar body d v" v] by (simp add: moving_def)

lemma moving_put_owner:
  assumes "moving s E J B v" and "owner_ok w" and "ow_current w \<noteq> Some s"
  shows "moving s E J B (put_owner (owner_file (ow_id w)) (owner_dict w) v)"
proof -
  have "owned_once (put_owner (owner_file (ow_id w)) (owner_dict w) v) s"
    using assms unfolding owned_once_def owner_at_put [OF assms(2)] moving_def by (auto split: if_split_asm)
  then show ?thesis using assms owners_readable_put by (simp add: moving_def)
qed

lemma provenance_sees:
  assumes "\<And>v. P v \<Longrightarrow> f v = Inr x" and "runs S P (k x) Q E"
  shows "runs S P (lc_bind (lc_provenance f) k) Q E"
  unfolding lc_provenance_def by (rule runs_sees [where k = k and x = x]) (simp_all add: assms)

lemma provenance_sees_some:
  assumes "\<And>v. P v \<Longrightarrow> \<exists>x. f v = Inr x" and "\<And>x. runs S (\<lambda>v. P v \<and> f v = Inr x) (k x) Q E"
  shows "runs S P (lc_bind (lc_provenance f) k) Q E"
proof -
  have "map_sum Provenance_Error (\<lambda>x. x) (f v) = Inr x \<longleftrightarrow> f v = Inr x" for v x by (cases "f v") auto
  then show ?thesis unfolding lc_provenance_def using assms by (intro runs_sees_some) simp_all
qed

lemma runs_write_changed:
  assumes "\<And>v body d. P v \<Longrightarrow> P (put_sidecar body d v)"
  shows "runs (\<lambda>a b. P a \<and> P b) P (write_changed f x) (\<lambda>_. P) F"
  using assms by (cases x) (auto simp: write_changed_def intro!: lc_rules)

lemma owner_ok_moved:
  "owner_ok w \<Longrightarrow> valid_alias (JStr d) \<Longrightarrow> owner_ok (w\<lparr>ow_current := Some d, ow_paths := with_value d (ow_paths w)\<rparr>)"
  by (simp add: owner_ok_def with_value_def)

lemma runs_move_identity:
  assumes "\<not> is_link (E source)" and "E destination = Some (Plain_File n)" and "source \<noteq> destination"
    and "valid_alias (JStr destination)"
  shows "runs (\<lambda>a b. moving source E J B a \<and> moving source E J B b) (moving source E J B)
    (move_plan_identity source destination) (\<lambda>_. moving source E J B) (\<lambda>_. False)"
proof -
  let ?P = "moving source E J B"
  have o: "owning source ws = [] \<or> (\<exists>w. owning source ws = [w] \<and> owner_ok w)"
    if "?P v" "strict_identities v = Inr ws" for v ws
  proof -
    from that have r: "owners_readable v" and "owned_once v source" by (simp_all add: moving_def)
    have "owner_ok w" if "owning source ws = [w]" for w
    proof -
      have "w \<in> set (owning source ws)" using that by simp
      then have "w \<in> set ws" by (simp add: owning_def)
      then show ?thesis using strict_identities_set [OF r \<open>strict_identities v = Inr ws\<close>] owner_at_ok by blast
    qed
    with owning_once [OF r \<open>owned_once v source\<close> that(2)] show ?thesis by blast
  qed
  have "runs (\<lambda>a b. ?P a \<and> ?P b) (\<lambda>v. ?P v \<and> strict_identities v = Inr ws)
      (case owning source ws of [] \<Rightarrow> lc_ret False
        | [w] \<Rightarrow> lc_bind (write_owner (w\<lparr>ow_current := Some destination, ow_paths := with_value destination (ow_paths w)\<rparr>)) (\<lambda>_. lc_ret True)
        | _ \<Rightarrow> lc_fail (Provenance_Error (''plan identity ownership is ambiguous: '' @ source))) (\<lambda>_. ?P) (\<lambda>_. False)" for ws
  proof (cases "\<exists>v. ?P v \<and> strict_identities v = Inr ws")
    case True
    with o consider "owning source ws = []" | w where "owning source ws = [w]" "owner_ok w" by blast
    then show ?thesis
    proof cases
      case 1
      then show ?thesis by (simp add: runs_def lc_ret_def)
    next
      case (2 w)
      let ?w = "w\<lparr>ow_current := Some destination, ow_paths := with_value destination (ow_paths w)\<rparr>"
      have "owner_ok ?w" "ow_current ?w \<noteq> Some source" using 2(2) assms(3,4) owner_ok_moved by auto
      from moving_put_owner [OF _ this] have "?P v \<Longrightarrow> ?P (put_owner (owner_file (ow_id ?w)) (owner_dict ?w) v)" for v .
      then have "runs (\<lambda>a b. ?P a \<and> ?P b) (\<lambda>v. ?P v \<and> strict_identities v = Inr ws) (write_owner ?w) (\<lambda>_. ?P) (\<lambda>_. False)"
        unfolding write_owner_def by (intro runs_do) blast+
      then show ?thesis unfolding 2(1) list.case by (rule runs_bind) (rule runs_ret)
    qed
  next
    case False
    then show ?thesis by (auto simp: runs_def)
  qed
  moreover have "path_value False source v = Inr source" "path_value True destination v = Inr destination" if "?P v" for v
    using that assms(1,2) by (simp_all add: path_value_def moving_def node_at_def)
  moreover have "\<exists>ws. strict_identities v = Inr ws" if "?P v" for v
    using that strict_identities_readable by (auto simp: moving_def)
  ultimately show ?thesis
    unfolding move_plan_identity_def by (simp add: provenance_sees provenance_sees_some)
qed

lemma runs_record_move:
  assumes "\<not> is_link (E source)" and "E destination = Some (Plain_File n)" and "source \<noteq> destination"
    and "valid_alias (JStr destination)"
  shows "runs (\<lambda>a b. moving source E J B a \<and> moving source E J B b) (moving source E J B)
    (lc_catch_provenance e (record_plan_lifecycle_move source destination)) (\<lambda>_. moving source E J B) (\<lambda>_. False)"
proof -
  let ?P = "moving source E J B"
  let ?S = "\<lambda>a b. ?P a \<and> ?P b"
  have p: "path_value False source v = Inr source" "path_value True destination v = Inr destination" if "?P v" for v
    using that assms(1,2) by (simp_all add: path_value_def moving_def node_at_def)
  have e: "runs ?S ?P (lc_each (write_changed f) rs) (\<lambda>_. ?P) (\<lambda>_. False)" for f rs
    by (rule runs_each) (rule runs_write_changed, rule moving_put_sidecar)
  have k: "runs ?S ?P (lc_bind (lc_of (\<lambda>v. Inr (list_backup_provenance v))) (\<lambda>rs.
      lc_bind (lc_each (write_changed (moved_record source destination)) rs) (\<lambda>_.
      lc_bind (move_plan_identity source destination) (\<lambda>_. lc_ret ())))) (\<lambda>_. ?P) (\<lambda>_. False)"
    by (rule runs_bind [where R = "\<lambda>_. ?P"], (rule runs_of; simp), rule runs_bind [OF e],
        rule runs_bind [OF runs_move_identity [OF assms]], rule runs_ret)
  have "runs ?S ?P (record_plan_lifecycle_move source destination) (\<lambda>_. ?P) (\<lambda>_. False)"
    unfolding record_plan_lifecycle_move_def
    by (rule provenance_sees [OF p(1)], assumption, rule provenance_sees [OF p(2)], assumption, rule k)
  then show ?thesis by (rule runs_catch)
qed

subsection \<open>The shapes of a move\<close>

definition at_source :: "(string \<Rightarrow> dir_entry option) \<Rightarrow> string \<Rightarrow> string \<Rightarrow> file_node \<Rightarrow> string \<Rightarrow> dir_entry option" where
  "at_source f s d n = f(s := Some (Plain_File n), d := None)"

definition at_both :: "(string \<Rightarrow> dir_entry option) \<Rightarrow> string \<Rightarrow> string \<Rightarrow> file_node \<Rightarrow> string \<Rightarrow> dir_entry option" where
  "at_both f s d n = f(s := Some (Plain_File n), d := Some (Plain_File n))"

definition at_destination :: "(string \<Rightarrow> dir_entry option) \<Rightarrow> string \<Rightarrow> string \<Rightarrow> file_node \<Rightarrow> string \<Rightarrow> dir_entry option" where
  "at_destination f s d n = f(s := None, d := Some (Plain_File n))"

lemmas shapes = at_source_def at_both_def at_destination_def

definition src :: "string \<Rightarrow> dict \<Rightarrow> string" where
  "src root r = place root (entry_source r) (entry_name r)"

definition dst :: "string \<Rightarrow> dict \<Rightarrow> string" where
  "dst root r = place root (entry_destination r) (entry_name r)"

text \<open>An entry that can be completed: it reads back, and its file is what it recorded.\<close>

definition sound_entry :: "(string \<Rightarrow> string) \<Rightarrow> (file_node \<Rightarrow> string) \<Rightarrow> string \<Rightarrow> string \<Rightarrow> dict \<Rightarrow> bool" where
  "sound_entry sha B root file r =
     (entry_fields_ok file r = Inr True \<and> dget r ''phase'' = JStr ''prepared'' \<and>
      entry_source r \<noteq> entry_destination r \<and> starts_with root ''/'' \<and>
      sha (B (entry_node r)) = entry_revision r \<and> length (B (entry_node r)) \<le> LIFECYCLE_PLAN_BYTES \<and> utf8_ok (B (entry_node r)))"

lemma place_differs: "l \<noteq> l' \<Longrightarrow> place root l name \<noteq> place root l' name"
  by (cases l; cases l') (simp_all add: place_def plan_directory_def)

lemma place_alias: "starts_with root ''/'' \<Longrightarrow> valid_alias (JStr (place root l name))"
proof -
  assume "starts_with root ''/''"
  then obtain r where p: "place root l name = CHR ''/'' # r" by (auto simp: starts_with_iff place_def plan_directory_def)
  have n: "\<not> is_space (CHR ''/'')" by code_simp
  have "strip (CHR ''/'' # r) \<noteq> []"
  proof
    assume "strip (CHR ''/'' # r) = []"
    then have "\<forall>c \<in> set (CHR ''/'' # r). is_space c"
      using n by (auto simp: strip_def lstrip_def rstrip_def)
    with n show False by simp
  qed
  with p show ?thesis by (simp add: valid_alias_def starts_with_def)
qed

text \<open>Without a prepared entry but one.\<close>

definition no_prepared :: "string option \<Rightarrow> volume \<Rightarrow> bool" where
  "no_prepared file v =
     (distinct (map fst (vo_journal v)) \<and>
      (\<forall>f. ends_with f ''.json'' \<and> map_of (vo_journal v) f \<noteq> None \<and> Some f \<noteq> file \<longrightarrow>
         (\<exists>d. read_entry f v = Inr (Some d) \<and> dget d ''phase'' \<noteq> JStr ''prepared'')))"

lemma read_entry_cong: "map_of (vo_journal a) f = map_of (vo_journal b) f \<Longrightarrow> read_entry f a = read_entry f b"
  by (simp add: read_entry_def)

lemma no_prepared_cong: "vo_journal a = vo_journal b \<Longrightarrow> no_prepared file a = no_prepared file b"
  using read_entry_cong [of a _ b] by (simp add: no_prepared_def)

lemma read_entry_put: "read_entry f (put_journal file d v) =
    (if f = file then (case entry_fields_ok file d of Inl x \<Rightarrow> Inl (Lifecycle_Raised x)
       | Inr ok \<Rightarrow> if ok then Inr (Some d) else Inl (Lifecycle_Error ''plan journal has invalid identity''))
     else read_entry f v)"
  by (simp add: read_entry_def split: sum.split)

lemma no_prepared_put:
  assumes "no_prepared file v" and "file = Some f \<or> file = None"
  shows "no_prepared (Some f) (put_journal f d v)"
proof -
  have "distinct (map fst (vo_journal (put_journal f d v)))"
    using assms(1) by (simp add: no_prepared_def put_journal_def distinct_update)
  moreover have "\<exists>e. read_entry g (put_journal f d v) = Inr (Some e) \<and> dget e ''phase'' \<noteq> JStr ''prepared''"
    if "ends_with g ''.json''" "map_of (vo_journal (put_journal f d v)) g \<noteq> None" "Some g \<noteq> Some f" for g
  proof -
    from that have "map_of (vo_journal v) g \<noteq> None" by simp
    moreover have "Some g \<noteq> file" using assms(2) that(3) by auto
    ultimately show ?thesis using assms(1) that unfolding no_prepared_def read_entry_put by simp
  qed
  ultimately show ?thesis unfolding no_prepared_def by blast
qed

lemma all_hold_iff: "all_hold cs = Inr True \<longleftrightarrow> list_all (\<lambda>c. c = Inr True) cs"
proof (induction cs)
  case (Cons c cs)
  show ?case
  proof (cases c)
    case (Inr b)
    with Cons show ?thesis by (cases b) simp_all
  qed simp
qed simp

lemma moved_entry_fields: "entry_fields_ok file r = Inr True \<Longrightarrow> entry_fields_ok file (moved_entry r) = Inr True"
  unfolding entry_fields_ok_def moved_entry_def Let_def all_hold_iff by (simp add: in_str_set_def)

text \<open>A prepared move that is under way, and one that is done.\<close>

definition pending ::
  "(string \<Rightarrow> string) \<Rightarrow> string \<Rightarrow> string \<Rightarrow> dict \<Rightarrow> (string \<Rightarrow> dir_entry option) \<Rightarrow> (string \<times> journal_file) list \<Rightarrow>
     (file_node \<Rightarrow> string) \<Rightarrow> volume \<Rightarrow> bool" where
  "pending sha root file r f J B v =
     (moving (src root r) (entry_at v) J B v \<and>
      entry_at v \<in> {at_source f (src root r) (dst root r) (entry_node r), at_both f (src root r) (dst root r) (entry_node r),
        at_destination f (src root r) (dst root r) (entry_node r)} \<and>
      map_of J file = Some (Journal_File (JObj r)) \<and> ends_with file ''.json'' \<and> no_prepared (Some file) v \<and>
      sound_entry sha B root file r)"

definition settled ::
  "string \<Rightarrow> dict \<Rightarrow> (string \<Rightarrow> dir_entry option) \<Rightarrow> (string \<times> journal_file) list \<Rightarrow> (file_node \<Rightarrow> string) \<Rightarrow> volume \<Rightarrow> bool" where
  "settled root r f J B v =
     (entry_at v = at_destination f (src root r) (dst root r) (entry_node r) \<and> vo_bytes v = B \<and>
      (\<forall>x. map_of J x \<noteq> None \<longrightarrow> map_of (vo_journal v) x \<noteq> None) \<and> no_prepared None v)"

lemma pending_entries:
  assumes "pending sha root file r f J B v" and "entry_at w = E" and "vo_journal w = vo_journal v" and "vo_bytes w = vo_bytes v"
    and "vo_owners w = vo_owners v"
    and "E \<in> {at_source f (src root r) (dst root r) (entry_node r), at_both f (src root r) (dst root r) (entry_node r),
        at_destination f (src root r) (dst root r) (entry_node r)}"
  shows "pending sha root file r f J B w"
  using assms owners_cong [OF assms(5)] no_prepared_cong [OF assms(3)]
  by (simp add: pending_def moving_def)

lemma pending_moving:
  assumes "pending sha root file r f J B v" and "moving (src root r) (entry_at v) J B w"
  shows "pending sha root file r f J B w"
proof -
  from assms have "vo_journal w = vo_journal v" by (simp add: pending_def moving_def)
  from no_prepared_cong [OF this] assms show ?thesis by (simp add: pending_def moving_def)
qed

lemma src_dst_differ: "sound_entry sha B root file r \<Longrightarrow> src root r \<noteq> dst root r"
  by (simp add: sound_entry_def src_def dst_def place_differs)

lemma regular_bytes_node:
  assumes "sound_entry sha B root file r" and "entry_at v p = Some (Plain_File (entry_node r))" and "vo_bytes v = B"
  shows "regular_bytes True v p = Inr (Some (B (entry_node r)))" and "node_at v p = Some (entry_node r)"
  using assms by (simp_all add: regular_bytes_def sound_entry_def node_at_def)

lemma regular_bytes_none: "entry_at v p = None \<Longrightarrow> regular_bytes a v p = Inr None"
  by (simp add: regular_bytes_def)

text \<open>What each stage does from each shape.\<close>

lemma inspect_shapes:
  assumes "pending sha root file r f J B v"
  shows "inspect_move sha r (src root r) (dst root r) v =
    Inr (entry_at v (src root r) \<noteq> None, entry_at v (dst root r) \<noteq> None)"
proof -
  let ?s = "src root r" and ?d = "dst root r"
  from assms have so: "sound_entry sha B root file r" and b: "vo_bytes v = B"
    and e: "entry_at v \<in> {at_source f ?s ?d (entry_node r), at_both f ?s ?d (entry_node r), at_destination f ?s ?d (entry_node r)}"
    by (simp_all add: pending_def moving_def)
  note ne = src_dst_differ [OF so]
  have sha: "sha (B (entry_node r)) = entry_revision r" using so by (simp add: sound_entry_def)
  from e consider "entry_at v ?s = Some (Plain_File (entry_node r))" "entry_at v ?d = None"
    | "entry_at v ?s = Some (Plain_File (entry_node r))" "entry_at v ?d = Some (Plain_File (entry_node r))"
    | "entry_at v ?s = None" "entry_at v ?d = Some (Plain_File (entry_node r))"
    using ne by (auto simp: shapes)
  then show ?thesis
    by cases (simp_all add: inspect_move_def regular_bytes_node [OF so _ b] regular_bytes_none sha)
qed

text \<open>Nobody else changes the files.\<close>

definition alone :: "window \<Rightarrow> volume \<Rightarrow> volume" where
  "alone i v = v"

lemmas lc_defs = lc_bind_def lc_of_def lc_ret_def lc_fail_def lc_do_def lc_others_def lc_guard_def lc_entry_def lc_unlink_def alone_def

lemma link_alone:
  assumes "sound_entry sha B root file r" and "vo_bytes v = B"
    and "entry_at v (src root r) = Some (Plain_File (entry_node r))" and "entry_at v (dst root r) = None"
  shows "link_plan sha alone r (src root r) (dst root r) v =
    (let w = add_entry (dst root r) (Plain_File (entry_node r)) v in ([(v, w)], Inr (), w))"
proof -
  let ?w = "add_entry (dst root r) (Plain_File (entry_node r)) v"
  have "regular_bytes True ?w (dst root r) = Inr (Some (B (entry_node r)))"
    by (rule regular_bytes_node(1) [OF assms(1)]) (simp_all add: assms(2))
  moreover have "sha (B (entry_node r)) = entry_revision r" using assms(1) by (simp add: sound_entry_def)
  ultimately show ?thesis
    using assms(3,4) src_dst_differ [OF assms(1)] by (simp add: link_plan_def lc_defs linked_ok_def Let_def)
qed

lemma unlink_alone:
  assumes "entry_at v s = None \<or> (\<exists>n. entry_at v s = Some (Plain_File n) \<and> entry_at v d = Some (Plain_File n))"
  shows "unlink_source alone s d v =
    (if entry_at v s = None then ([], Inr (), v) else ([(v, drop_entry s v)], Inr (), drop_entry s v))"
  using assms by (auto simp: unlink_source_def lc_defs)

definition own_step :: "(volume \<Rightarrow> bool) \<Rightarrow> (volume \<Rightarrow> bool) \<Rightarrow> volume \<Rightarrow> volume \<Rightarrow> bool" where
  "own_step P Q a b = (P a \<and> (P b \<or> Q b))"

text \<open>The four stages of completing a move.\<close>

lemma complete_link:
  "runs (own_step (pending sha root file r f J B) (settled root r f J B))
     (\<lambda>v. pending sha root file r f J B v \<and> (hs, ht) = (entry_at v (src root r) \<noteq> None, entry_at v (dst root r) \<noteq> None))
     (if hs \<and> \<not> ht then link_plan sha alone r (src root r) (dst root r) else lc_ret ())
     (\<lambda>_ v. (pending sha root file r f J B v \<and> entry_at v = at_both f (src root r) (dst root r) (entry_node r)) \<or>
        (pending sha root file r f J B v \<and> entry_at v = at_destination f (src root r) (dst root r) (entry_node r))) (\<lambda>_. False)"
proof -
  let ?P = "pending sha root file r f J B" and ?Q = "settled root r f J B"
  let ?s = "src root r" and ?d = "dst root r" and ?n = "entry_node r"
  let ?S = "own_step ?P ?Q"
  let ?at = "\<lambda>shape v. ?P v \<and> entry_at v = shape f ?s ?d ?n"
  show ?thesis
    unfolding runs_def
  proof (intro allI impI)
    fix v assume v: "?P v \<and> (hs, ht) = (entry_at v ?s \<noteq> None, entry_at v ?d \<noteq> None)"
    then have so: "sound_entry sha B root file r" and b: "vo_bytes v = B" by (simp_all add: pending_def moving_def)
    note ne = src_dst_differ [OF so]
    from v have "entry_at v \<in> {at_source f ?s ?d ?n, at_both f ?s ?d ?n, at_destination f ?s ?d ?n}" by (simp add: pending_def)
    then consider "entry_at v = at_source f ?s ?d ?n" | "entry_at v = at_both f ?s ?d ?n" | "entry_at v = at_destination f ?s ?d ?n"
      by blast
    then show "case (if hs \<and> \<not> ht then link_plan sha alone r ?s ?d else lc_ret ()) v of (t, res, v') \<Rightarrow>
        (\<forall>(a, b) \<in> set t. ?S a b) \<and> (case res of Inl e \<Rightarrow> False | Inr x \<Rightarrow> ?at at_both v' \<or> ?at at_destination v')"
    proof cases
      case 1
      let ?w = "add_entry ?d (Plain_File ?n) v"
      from 1 ne have e: "entry_at v ?s = Some (Plain_File ?n)" "entry_at v ?d = None" by (simp_all add: shapes)
      have w: "entry_at ?w = at_both f ?s ?d ?n" using 1 by (auto simp: fun_eq_iff shapes)
      have "?P ?w" by (rule pending_entries [OF conjunct1 [OF v] w]) simp_all
      then show ?thesis using e v w link_alone [OF so b e] by (simp add: own_step_def Let_def)
    next
      case 2
      then have "entry_at v ?d \<noteq> None" by (simp add: shapes)
      with 2 v show ?thesis by (simp add: lc_ret_def)
    next
      case 3
      then have "entry_at v ?d \<noteq> None" by (simp add: shapes)
      with 3 v show ?thesis by (simp add: lc_ret_def)
    qed
  qed
qed

lemma complete_unlink:
  "runs (own_step (pending sha root file r f J B) (settled root r f J B))
     (\<lambda>v. (pending sha root file r f J B v \<and> entry_at v = at_both f (src root r) (dst root r) (entry_node r)) \<or>
        (pending sha root file r f J B v \<and> entry_at v = at_destination f (src root r) (dst root r) (entry_node r)))
     (unlink_source alone (src root r) (dst root r))
     (\<lambda>_ v. pending sha root file r f J B v \<and> entry_at v = at_destination f (src root r) (dst root r) (entry_node r)) (\<lambda>_. False)"
proof -
  let ?P = "pending sha root file r f J B" and ?Q = "settled root r f J B"
  let ?s = "src root r" and ?d = "dst root r" and ?n = "entry_node r"
  let ?S = "own_step ?P ?Q"
  let ?at = "\<lambda>shape v. ?P v \<and> entry_at v = shape f ?s ?d ?n"
  show ?thesis
    unfolding runs_def
  proof (intro allI impI)
    fix v assume v: "?at at_both v \<or> ?at at_destination v"
    then have ne: "?s \<noteq> ?d" using src_dst_differ by (auto simp: pending_def)
    from v show "case unlink_source alone ?s ?d v of (t, res, v') \<Rightarrow>
        (\<forall>(a, b) \<in> set t. ?S a b) \<and> (case res of Inl e \<Rightarrow> False | Inr x \<Rightarrow> ?at at_destination v')"
    proof
      assume b: "?at at_both v"
      let ?w = "drop_entry ?s v"
      have w: "entry_at ?w = at_destination f ?s ?d ?n" using b ne by (auto simp: fun_eq_iff shapes)
      have "?P ?w" by (rule pending_entries [OF conjunct1 [OF b] w]) simp_all
      moreover have "entry_at v ?s = Some (Plain_File ?n)" "entry_at v ?d = Some (Plain_File ?n)" using b ne by (simp_all add: shapes)
      ultimately show ?thesis using b w by (simp add: unlink_alone own_step_def)
    next
      assume d: "?at at_destination v"
      then have "entry_at v ?s = None" using ne by (simp add: shapes)
      with d show ?thesis by (simp add: unlink_alone)
    qed
  qed
qed

lemma complete_follow:
  "runs (own_step (pending sha root file r f J B) (settled root r f J B))
     (\<lambda>v. pending sha root file r f J B v \<and> entry_at v = at_destination f (src root r) (dst root r) (entry_node r))
     (lc_catch_provenance e (record_plan_lifecycle_move (src root r) (dst root r)))
     (\<lambda>_ v. pending sha root file r f J B v \<and> entry_at v = at_destination f (src root r) (dst root r) (entry_node r)) (\<lambda>_. False)"
proof -
  let ?P = "pending sha root file r f J B" and ?Q = "settled root r f J B"
  let ?s = "src root r" and ?d = "dst root r" and ?n = "entry_node r"
  let ?S = "own_step ?P ?Q"
  let ?at = "\<lambda>shape v. ?P v \<and> entry_at v = shape f ?s ?d ?n"
  show ?thesis
  proof (cases "\<exists>v. ?at at_destination v")
    case True
    then obtain u where u: "?at at_destination u" by blast
    then have so: "sound_entry sha B root file r" by (simp add: pending_def)
    let ?E = "at_destination f ?s ?d ?n"
    have al: "valid_alias (JStr ?d)" using so by (simp add: sound_entry_def dst_def place_alias)
    have m: "runs (\<lambda>a b. moving ?s ?E J B a \<and> moving ?s ?E J B b) (moving ?s ?E J B)
      (lc_catch_provenance e (record_plan_lifecycle_move ?s ?d))
      (\<lambda>_. moving ?s ?E J B) (\<lambda>_. False)"
      by (rule runs_record_move [OF _ _ src_dst_differ [OF so] al]) (use src_dst_differ [OF so] in \<open>simp_all add: shapes\<close>)
    have up: "?at at_destination v" if "moving ?s ?E J B v" for v
      using that pending_moving [OF conjunct1 [OF u], of v] u by (simp add: moving_def)
    show ?thesis
    proof (rule runs_mono [OF m])
      show "?S a b" if "moving ?s ?E J B a \<and> moving ?s ?E J B b" for a b
        unfolding own_step_def using that up by blast
      show "moving ?s ?E J B v" if "?at at_destination v" for v
        using that unfolding pending_def moving_def by simp
      show "?at at_destination v" if "moving ?s ?E J B v" for v using that by (rule up)
    qed
  next
    case False
    then show ?thesis by (auto simp: runs_def)
  qed
qed

lemma complete_save:
  "runs (own_step (pending sha root file r f J B) (settled root r f J B))
     (\<lambda>v. pending sha root file r f J B v \<and> entry_at v = at_destination f (src root r) (dst root r) (entry_node r))
     (lc_do (put_journal file (moved_entry r))) (\<lambda>_. settled root r f J B) (\<lambda>_. False)"
proof -
  let ?P = "pending sha root file r f J B" and ?Q = "settled root r f J B"
  let ?s = "src root r" and ?d = "dst root r" and ?n = "entry_node r"
  let ?S = "own_step ?P ?Q"
  let ?at = "\<lambda>shape v. ?P v \<and> entry_at v = shape f ?s ?d ?n"
  show ?thesis
  proof -
    have "?Q (put_journal file (moved_entry r) v)" if v: "?at at_destination v" for v
    proof -
      let ?w = "put_journal file (moved_entry r) v"
      from v have q: "no_prepared (Some file) v" and j: "ends_with file ''.json''" and fo: "entry_fields_ok file r = Inr True"
        by (simp_all add: pending_def sound_entry_def)
      have "no_prepared (Some file) ?w" using no_prepared_put [OF q] by blast
      moreover have "read_entry file ?w = Inr (Some (moved_entry r))"
        by (simp add: read_entry_put moved_entry_fields [OF fo])
      moreover have "dget (moved_entry r) ''phase'' \<noteq> JStr ''prepared''" by (simp add: moved_entry_def)
      ultimately have "no_prepared None ?w" unfolding no_prepared_def by (metis option.inject)
      with v show ?thesis by (simp add: settled_def pending_def moving_def)
    qed
    then show ?thesis by (intro runs_do) (auto simp: own_step_def)
  qed
qed

lemma complete_alone:
  "runs (own_step (pending sha root file r f J B) (settled root r f J B)) (pending sha root file r f J B)
     (complete_move sha alone root r file) (\<lambda>p v. p = dst root r \<and> settled root r f J B v) (\<lambda>_. False)"
proof -
  let ?P = "pending sha root file r f J B" and ?Q = "settled root r f J B"
  let ?s = "src root r" and ?d = "dst root r" and ?n = "entry_node r"
  let ?S = "own_step ?P ?Q"
  let ?at = "\<lambda>shape v. ?P v \<and> entry_at v = shape f ?s ?d ?n"
  have "runs ?S ?P (lc_of (inspect_move sha r ?s ?d))
      (\<lambda>(hs, hd) v. ?P v \<and> (hs, hd) = (entry_at v ?s \<noteq> None, entry_at v ?d \<noteq> None)) (\<lambda>_. False)"
    by (rule runs_of) (auto dest: inspect_shapes)
  then show ?thesis
    unfolding complete_move_def src_def [symmetric] dst_def [symmetric] Let_def
  proof (rule runs_bind, goal_cases)
    case (1 x)
    obtain hs hd where x: "x = (hs, hd)" by (cases x)
    show ?case unfolding x prod.case
      by (rule runs_bind [OF complete_link], rule runs_bind [where R = "\<lambda>_ v. ?at at_both v \<or> ?at at_destination v"],
          rule runs_others, simp add: alone_def, rule runs_bind [OF complete_unlink],
          rule runs_bind [where R = "\<lambda>_. ?at at_destination"], rule runs_others, simp add: alone_def, rule runs_bind [OF complete_follow],
          rule runs_bind [where R = "\<lambda>_. ?at at_destination"], rule runs_others, simp add: alone_def,
          rule runs_bind [OF complete_save], rule runs_ret, simp)
  qed
qed

subsection \<open>Recovery\<close>

lemma complete_none:
  assumes "no_prepared None v" and "\<And>x. x \<in> set fs \<Longrightarrow> ends_with x ''.json'' \<and> map_of (vo_journal v) x \<noteq> None"
  shows "complete_prepared sha others root p fs v = ([], Inr [], v)"
  using assms(2)
proof (induction fs)
  case (Cons x fs)
  from Cons.prems assms(1) obtain d where "read_entry x v = Inr (Some d)" "dget d ''phase'' \<noteq> JStr ''prepared''"
    unfolding no_prepared_def by (metis list.set_intros(1) option.distinct(1))
  with Cons show ?case by (simp add: lc_bind_def lc_of_def)
qed (simp add: lc_ret_def)

lemma journal_files_set: "x \<in> set (journal_files v) \<longleftrightarrow> ends_with x ''.json'' \<and> map_of (vo_journal v) x \<noteq> None"
  by (auto simp: journal_files_def map_of_eq_None_iff)

lemma recover_none:
  assumes "no_prepared None v"
  shows "recover sha others root v = ([], Inr [], v)"
  using complete_none [OF assms, of "journal_files v"] by (simp add: recover_def lc_bind_def lc_of_def journal_files_set)

lemma read_pending:
  assumes "pending sha root file r f J B v"
  shows "read_entry file v = Inr (Some r)"
  using assms by (simp add: pending_def moving_def read_entry_def sound_entry_def)

lemma complete_one:
  assumes "pending sha root file r f J B v" and "file \<in> set fs" and "distinct fs"
    and "\<And>x. x \<in> set fs \<Longrightarrow> ends_with x ''.json'' \<and> map_of (vo_journal v) x \<noteq> None"
  shows "\<exists>t w. complete_prepared sha alone root (\<lambda>d. True) fs v = (t, Inr [dst root r], w) \<and> settled root r f J B w"
  using assms(2-4)
proof (induction fs)
  case (Cons x fs)
  show ?case
  proof (cases "x = file")
    case True
    obtain t res w where c: "complete_move sha alone root r file v = (t, res, w)" by (cases "complete_move sha alone root r file v") auto
    from runsD(2) [OF complete_alone assms(1) c] obtain p where p: "res = Inr (dst root r)" "settled root r f J B w"
      by (cases res) auto
    have "vo_journal v = J" using assms(1) by (simp add: pending_def moving_def)
    with p(2) Cons.prems(3) have "map_of (vo_journal w) y \<noteq> None" if "y \<in> set fs" for y
      using that unfolding settled_def by simp
    with Cons.prems p have "complete_prepared sha alone root (\<lambda>d. True) fs w = ([], Inr [], w)"
      by (intro complete_none) (auto simp: settled_def)
    with c p read_pending [OF assms(1)] True assms(1) show ?thesis
      by (simp add: lc_bind_def lc_of_def lc_ret_def pending_def sound_entry_def)
  next
    case False
    with Cons.prems(3) assms(1) obtain d where "read_entry x v = Inr (Some d)" "dget d ''phase'' \<noteq> JStr ''prepared''"
      unfolding pending_def no_prepared_def by (metis list.set_intros(1) option.inject)
    with Cons False show ?thesis by (simp add: lc_bind_def lc_of_def)
  qed
qed simp

end
