(* ===== verification/Move_Begin.thy ===== *)
theory Move_Begin
  imports Move_Laws
begin

text \<open>
  From the request of a move to the replay of its entry: each state a move can be cut off in is before
  its entry, under way, or done.
\<close>

lemma recover_pending:
  assumes "pending sha root file r f J B v"
  shows "\<exists>t w. recover sha alone root v = (t, Inr [dst root r], w) \<and> settled root r f J B w"
proof -
  have "no_prepared (Some file) v" and f: "ends_with file ''.json''" "map_of (vo_journal v) file \<noteq> None"
    using assms by (simp_all add: pending_def moving_def)
  then have "distinct (map fst (vo_journal v))" by (simp add: no_prepared_def)
  then have "distinct (journal_files v)" by (simp add: journal_files_def)
  moreover have "file \<in> set (journal_files v)" using f by (simp add: journal_files_set)
  ultimately obtain t w where "complete_prepared sha alone root (\<lambda>d. True) (journal_files v) v = (t, Inr [dst root r], w)"
    "settled root r f J B w"
    using complete_one [OF assms] journal_files_set by metis
  then show ?thesis by (simp add: recover_def lc_bind_def lc_of_def)
qed

subsection \<open>The owner of a plan that moves\<close>

lemma owner_ok_fresh:
  assumes "length fresh = 32" and "list_all is_hex fresh" and "valid_alias (JStr p)"
  shows "owner_ok \<lparr>ow_schema = JInt 1, ow_id = fresh, ow_current = Some p, ow_paths = [p]\<rparr>"
  using assms by (simp add: owner_ok_def)

lemma moving_put_first_owner:
  assumes "moving s E J B v" and "\<not> is_link (E s)" and "plan_identity_for_path s v = None" and "owner_ok w"
    and "ow_current w = Some s"
  shows "moving s E J B (put_owner (owner_file (ow_id w)) (owner_dict w) v)"
    and "plan_identity_for_path s (put_owner (owner_file (ow_id w)) (owner_dict w) v) = Some (ow_id w)"
proof -
  let ?w = "put_owner (owner_file (ow_id w)) (owner_dict w) v"
  from assms(1,2) have r: "owners_readable v" "owned_once v s" "\<not> is_link (entry_at v s)" by (simp_all add: moving_def)
  have none: "ow_current x \<noteq> Some s" if "owner_at v name = Some x" for name x
    using identity_for_path [OF r, of "ow_id x"] assms(3) that by auto
  have "owned_once ?w s"
    unfolding owned_once_def owner_at_put [OF assms(4)] using none by (auto split: if_split_asm)
  then show m: "moving s E J B ?w" using assms(1) owners_readable_put [OF assms(4)] by (simp add: moving_def)
  then have "owners_readable ?w" "owned_once ?w s" "\<not> is_link (entry_at ?w s)" using assms(2) by (simp_all add: moving_def)
  from identity_for_path [OF this] show "plan_identity_for_path s ?w = Some (ow_id w)"
    using assms(5) unfolding owner_at_put [OF assms(4)] by auto
qed

definition identity_text :: "string \<Rightarrow> bool" where
  "identity_text i = (length i = 32 \<and> list_all is_hex i)"

lemma runs_create_identity:
  assumes "E s = Some (Plain_File n)" and "valid_alias (JStr s)" and "identity_text fresh"
  shows "runs (\<lambda>a b. moving s E J B a \<and> moving s E J B b) (\<lambda>v. moving s E J B v \<and> plan_identity_for_path s v = None)
    (create_plan_identity fresh s) (\<lambda>i v. i = fresh \<and> moving s E J B v \<and> plan_identity_for_path s v = Some fresh) (\<lambda>_. False)"
proof -
  let ?P = "moving s E J B"
  let ?I = "\<lambda>v. ?P v \<and> plan_identity_for_path s v = None"
  let ?w = "\<lparr>ow_schema = JInt 1, ow_id = fresh, ow_current = Some s, ow_paths = [s]\<rparr>"
  have w: "owner_ok ?w" using owner_ok_fresh assms(2,3) by (simp add: identity_text_def)
  have pv: "path_value True s v = Inr s" if "?I v" for v
    using that assms(1) by (simp add: path_value_def moving_def node_at_def)
  have sees: "\<exists>ws. strict_identities v = Inr ws" if "?I v" for v
    using that strict_identities_readable by (auto simp: moving_def)
  have none: "owning s ws = []" if i: "?I v" and ws: "strict_identities v = Inr ws" for v ws
  proof -
    from i have r: "owners_readable v" "owned_once v s" "\<not> is_link (entry_at v s)" using assms(1) by (simp_all add: moving_def)
    have "x \<notin> set (owning s ws)" for x
    proof
      assume "x \<in> set (owning s ws)"
      then obtain name where "owner_at v name = Some x" "ow_current x = Some s"
        using strict_identities_set [OF r(1) ws] by (auto simp: owning_def)
      then show False using identity_for_path [OF r, of "ow_id x"] i by auto
    qed
    then show ?thesis by (cases "owning s ws") auto
  qed
  have put: "?P (put_owner (owner_file fresh) (owner_dict ?w) v) \<and> plan_identity_for_path s (put_owner (owner_file fresh) (owner_dict ?w) v) = Some fresh"
    if "?I v" for v
    using moving_put_first_owner [OF conjunct1 [OF that] _ conjunct2 [OF that] w] assms(1) by simp
  have k: "runs (\<lambda>a b. ?P a \<and> ?P b) (\<lambda>v. ?I v \<and> strict_identities v = Inr ws)
      (lc_bind (lc_each (\<lambda>w. write_owner (w\<lparr>ow_current := None\<rparr>)) (owning s ws)) (\<lambda>_.
        lc_bind (write_owner ?w) (\<lambda>_. lc_ret fresh)))
      (\<lambda>i v. i = fresh \<and> ?P v \<and> plan_identity_for_path s v = Some fresh) (\<lambda>_. False)" for ws
  proof (cases "\<exists>v. ?I v \<and> strict_identities v = Inr ws")
    case True
    then have o: "owning s ws = []" using none by blast
    show ?thesis unfolding o lc_each.simps write_owner_def
      by (rule runs_bind [where R = "\<lambda>_. ?I"], rule runs_ret, simp,
          rule runs_bind [where R = "\<lambda>_ v. ?P v \<and> plan_identity_for_path s v = Some fresh"],
          rule runs_do, use put in simp, use put in simp, rule runs_ret, simp)
  next
    case False
    then show ?thesis by (auto simp: runs_def)
  qed
  show ?thesis unfolding create_plan_identity_def
    by (rule provenance_sees [OF pv], assumption, rule provenance_sees_some [OF sees], assumption, rule k)
qed

lemma runs_owner_for_move:
  assumes "E s = Some (Plain_File n)" and "valid_alias (JStr s)" and "identity_text fresh"
  shows "runs (\<lambda>a b. moving s E J B a \<and> moving s E J B b) (moving s E J B) (owner_for_move fresh s)
    (\<lambda>i v. identity_text i \<and> moving s E J B v) (\<lambda>_. False)"
proof -
  let ?P = "moving s E J B"
  let ?S = "\<lambda>a b. ?P a \<and> ?P b"
  let ?I = "\<lambda>x v. ?P v \<and> plan_identity_for_path s v = x"
  have owner: "identity_text i" if "?I (Some i) v" for i v
  proof -
    from that have r: "owners_readable v" "owned_once v s" "\<not> is_link (entry_at v s)" using assms(1) by (simp_all add: moving_def)
    with that obtain name w where "owner_at v name = Some w" "ow_id w = i" unfolding identity_for_path [OF r] by blast
    then show ?thesis using owner_at_ok by (auto simp: owner_ok_def identity_text_def)
  qed
  have pv: "path_value False s v = Inr s" if "?I x v" for v x
    using that assms(1) by (simp add: path_value_def moving_def)
  have e: "runs ?S ?P (lc_each (write_changed f) rs) (\<lambda>_. ?P) (\<lambda>_. False)" for f rs
    by (rule runs_each) (rule runs_write_changed, rule moving_put_sidecar)
  have b: "runs ?S (?I (Some fresh)) (bind_unowned_plan_history fresh s) (\<lambda>_. ?P) (\<lambda>_. False)"
    unfolding bind_unowned_plan_history_def
  proof (rule provenance_sees [OF pv], assumption, rule runs_sees [where x = "Some fresh"], simp)
    have v: "valid_identity_id (JStr fresh)" using assms(3) by (simp add: valid_identity_id_def hex_of_length_def identity_text_def)
    show "runs ?S (?I (Some fresh)) (lc_bind (lc_guard (valid_identity_id (JStr fresh) \<and> Some fresh = Some fresh)
         (Provenance_Error (''plan identity ownership is not unique: '' @ s))) (\<lambda>_.
       lc_bind (lc_of (\<lambda>v. Inr (list_backup_provenance v))) (\<lambda>rs.
       lc_bind (lc_each (write_changed (bound_record fresh s)) rs) (\<lambda>_. lc_ret ())))) (\<lambda>_. ?P) (\<lambda>_. False)"
      by (rule runs_bind [where R = "\<lambda>_. ?P"], rule runs_guard, simp, use v in simp,
          rule runs_bind [where R = "\<lambda>_. ?P"], (rule runs_of; simp), rule runs_bind [OF e], rule runs_ret)
  qed
  have c: "runs ?S (?I None) (ensure_plan_identity fresh s) (\<lambda>i v. i = fresh \<and> ?I (Some fresh) v) (\<lambda>_. False)"
    unfolding ensure_plan_identity_def
    by (rule runs_sees [where x = None], simp, simp only: option.case, rule runs_create_identity [where E = E and n = n, OF assms])
  show ?thesis unfolding owner_for_move_def
  proof (rule runs_bind [where R = ?I], rule runs_of, simp, simp)
    fix x
    show "runs ?S (?I x) (case x of Some identity \<Rightarrow> lc_ret identity
         | None \<Rightarrow> lc_bind (ensure_plan_identity fresh s) (\<lambda>identity.
             lc_bind (bind_unowned_plan_history identity s) (\<lambda>_. lc_ret identity)))
       (\<lambda>i v. identity_text i \<and> ?P v) (\<lambda>_. False)"
    proof (cases x)
      case None
      have "runs ?S (\<lambda>v. i = fresh \<and> ?I (Some fresh) v) (lc_bind (bind_unowned_plan_history i s) (\<lambda>_. lc_ret i))
          (\<lambda>i v. identity_text i \<and> ?P v) (\<lambda>_. False)" for i
      proof (cases "i = fresh")
        case True
        have "runs ?S (?I (Some fresh)) (lc_bind (bind_unowned_plan_history i s) (\<lambda>_. lc_ret i))
            (\<lambda>i v. identity_text i \<and> ?P v) (\<lambda>_. False)"
          unfolding True by (rule runs_bind [OF b]) (rule runs_ret, use assms(3) in simp)
        with True show ?thesis by simp
      qed (simp add: runs_def)
      then show ?thesis unfolding None option.case by (rule runs_bind [OF c])
    next
      case (Some i)
      then show ?thesis using owner by (auto intro: runs_ret)
    qed
  qed
qed


subsection \<open>The entry of a move\<close>

lemma location_named_key [simp]: "location_named (location_key l) = Some l"
  by (cases l) (simp_all add: location_named_def LOCATIONS_def)

lemma location_key_mem [simp]: "location_key l \<in> set (map location_key LOCATIONS)"
  by (cases l) (simp_all add: LOCATIONS_def)

lemma prepared_entry_reads:
  "entry_source (prepared_entry root q loc name i prior n) = loc"
  "entry_destination (prepared_entry root q loc name i prior n) = mq_destination q"
  "entry_name (prepared_entry root q loc name i prior n) = name"
  "entry_node (prepared_entry root q loc name i prior n) = n"
  "entry_revision (prepared_entry root q loc name i prior n) = mq_revision q"
  "dget (prepared_entry root q loc name i prior n) ''phase'' = JStr ''prepared''"
  by (simp_all add: entry_source_def entry_destination_def entry_name_def entry_node_def entry_revision_def
      prepared_entry_def Let_def)

lemma prepared_entry_fields:
  assumes "identity_text i" and "plan_name_ok name" and "hex_of_length 64 (JStr (mq_revision q))" and "0 \<le> fst n" and "0 < snd n"
  shows "entry_fields_ok (i @ ''.json'') (prepared_entry root q loc name i prior n) = Inr True"
proof -
  let ?r = "prepared_entry root q loc name i prior n"
  have g: "dget ?r ''schema'' = JInt 1" "dget ?r ''identity'' = JStr i" "dget ?r ''name'' = JStr name"
    "dget ?r ''source'' = JStr (location_key loc)" "dget ?r ''destination'' = JStr (location_key (mq_destination q))"
    "dget ?r ''revision'' = JStr (mq_revision q)" "dget ?r ''source_dev'' = JInt (fst n)" "dget ?r ''source_inode'' = JInt (snd n)"
    by (simp_all add: prepared_entry_def Let_def)
  show ?thesis
    unfolding entry_fields_ok_def Let_def all_hold_iff g prepared_entry_reads
    using assms location_key_mem by (simp add: in_str_set_def identity_text_def hex_of_length_def)
qed

text \<open>A move with its source \<open>s\<close> and its destination \<open>d\<close>: before its entry, under way and done.\<close>

definition begun :: "(string \<Rightarrow> string) \<Rightarrow> string \<Rightarrow> string \<Rightarrow> string \<Rightarrow> file_node \<Rightarrow> (string \<Rightarrow> dir_entry option) \<Rightarrow> (file_node \<Rightarrow> string) \<Rightarrow> volume \<Rightarrow> bool" where
  "begun sha root s d n E B v =
     (\<exists>file r J. pending sha root file r E J B v \<and> src root r = s \<and> dst root r = d \<and> entry_node r = n)"

definition finished :: "string \<Rightarrow> string \<Rightarrow> string \<Rightarrow> file_node \<Rightarrow> (string \<Rightarrow> dir_entry option) \<Rightarrow> (file_node \<Rightarrow> string) \<Rightarrow> volume \<Rightarrow> bool" where
  "finished root s d n E B v =
     (\<exists>r J. settled root r E J B v \<and> src root r = s \<and> dst root r = d \<and> entry_node r = n)"

definition unbegun :: "string \<Rightarrow> (string \<Rightarrow> dir_entry option) \<Rightarrow> (string \<times> journal_file) list \<Rightarrow> (file_node \<Rightarrow> string) \<Rightarrow> volume \<Rightarrow> bool" where
  "unbegun s E J B v = (moving s E J B v \<and> no_prepared None v)"

definition stage ::
  "(string \<Rightarrow> string) \<Rightarrow> string \<Rightarrow> string \<Rightarrow> string \<Rightarrow> file_node \<Rightarrow> (string \<Rightarrow> dir_entry option) \<Rightarrow> (string \<times> journal_file) list \<Rightarrow>
     (file_node \<Rightarrow> string) \<Rightarrow> volume \<Rightarrow> bool" where
  "stage sha root s d n E J B v =
     (unbegun s E J B v \<or> begun sha root s d n E B v \<or> finished root s d n E B v)"

lemma unbegun_moving: "unbegun s E J B u \<Longrightarrow> moving s E J B v \<Longrightarrow> unbegun s E J B v"
  using no_prepared_cong [of u v] by (simp add: unbegun_def moving_def)

lemma complete_begun:
  "runs (\<lambda>a b. stage sha root s d n E J B a \<and> stage sha root s d n E J B b)
     (\<lambda>v. pending sha root file r E J' B v \<and> src root r = s \<and> dst root r = d \<and> entry_node r = n)
     (complete_move sha alone root r file) (\<lambda>p v. p = d \<and> finished root s d n E B v) (\<lambda>_. False)"
proof (cases "src root r = s \<and> dst root r = d \<and> entry_node r = n")
  case True
  show ?thesis
    by (rule runs_mono [OF complete_alone [where sha = sha and f = E and J = J' and B = B]])
      (use True in \<open>auto simp: own_step_def stage_def begun_def finished_def\<close>)
qed (auto simp: runs_def)

text \<open>What a move may count on once its request and its file have been checked.\<close>

definition movable ::
  "(string \<Rightarrow> string) \<Rightarrow> string \<Rightarrow> move_request \<Rightarrow> plan_location \<Rightarrow> string \<Rightarrow> file_node \<Rightarrow> (file_node \<Rightarrow> string) \<Rightarrow> bool" where
  "movable sha root q loc name n B =
     (starts_with root ''/'' \<and> loc \<noteq> mq_destination q \<and> hex_of_length 64 (JStr (mq_revision q)) \<and>
      0 \<le> fst n \<and> 0 < snd n \<and> sha (B n) = mq_revision q \<and> length (B n) \<le> LIFECYCLE_PLAN_BYTES \<and> utf8_ok (B n))"

lemma entry_file_name: "ends_with (i @ ''.json'') ''.json''"
  by (simp add: ends_with_def starts_with_def)

lemma prepared_pending:
  fixes prior :: "dict option"
  assumes "movable sha root q loc name n B" and "plan_name_ok name" and "identity_text i"
    and "unbegun (place root loc name) E J B v" and "E (place root loc name) = Some (Plain_File n)"
    and "E (place root (mq_destination q) name) = None"
  defines "r \<equiv> prepared_entry root q loc name i prior n"
  defines "w \<equiv> put_journal (i @ ''.json'') r v"
  shows "pending sha root (i @ ''.json'') r E (vo_journal w) B w" and "src root r = place root loc name"
    and "dst root r = place root (mq_destination q) name" and "entry_node r = n"
proof -
  show s: "src root r = place root loc name" "dst root r = place root (mq_destination q) name" "entry_node r = n"
    by (simp_all add: src_def dst_def r_def prepared_entry_reads)
  have f: "entry_fields_ok (i @ ''.json'') r = Inr True"
    using prepared_entry_fields assms(1-3) by (simp add: movable_def r_def)
  then have so: "sound_entry sha B root (i @ ''.json'') r"
    using assms(1) unfolding movable_def sound_entry_def by (simp add: r_def prepared_entry_reads)
  have m: "moving (place root loc name) E J B v" and np: "no_prepared None v" using assms(4) by (simp_all add: unbegun_def)
  have "vo_owners w = vo_owners v" by (simp add: w_def)
  from owners_cong [OF this] m have m': "moving (place root loc name) E (vo_journal w) B w" by (simp add: moving_def w_def)
  have "E = at_source E (src root r) (dst root r) (entry_node r)"
    using assms(5,6) by (simp add: s at_source_def fun_upd_idem)
  then have "entry_at w = at_source E (src root r) (dst root r) (entry_node r)" using m' by (simp add: moving_def)
  moreover have "map_of (vo_journal w) (i @ ''.json'') = Some (Journal_File (JObj r))" by (simp add: w_def)
  moreover have "ends_with (i @ ''.json'') ''.json''" by (rule entry_file_name)
  moreover have "no_prepared (Some (i @ ''.json'')) w" unfolding w_def by (rule no_prepared_put [OF np]) simp
  moreover have "moving (src root r) (entry_at w) (vo_journal w) B w" using m' s by (simp add: moving_def)
  ultimately show "pending sha root (i @ ''.json'') r E (vo_journal w) B w" unfolding pending_def using so by blast
qed

lemma prior_not_prepared:
  assumes "no_prepared None v" and "read_entry (i @ ''.json'') v = Inr (Some d)"
  shows "dget d ''phase'' \<noteq> JStr ''prepared''"
proof -
  have "map_of (vo_journal v) (i @ ''.json'') \<noteq> None" using assms(2) by (auto simp: read_entry_def split: option.splits)
  moreover have "ends_with (i @ ''.json'') ''.json''" by (rule entry_file_name)
  ultimately show ?thesis using assms unfolding no_prepared_def by fastforce
qed


lemma runs_begin_move:
  assumes "movable sha root q loc name n B" and "identity_text fresh" and "name_text (place root loc name) = name"
    and "E (place root loc name) = Some (Plain_File n)"
  defines "s \<equiv> place root loc name"
  defines "d \<equiv> place root (mq_destination q) name"
  shows "runs (\<lambda>a b. stage sha root s d n E J B a \<and> stage sha root s d n E J B b) (unbegun s E J B)
    (begin_move sha alone root fresh q loc s) (\<lambda>p v. p = d \<and> finished root s d n E B v)
    (\<lambda>v. unbegun s E J B v \<and> (plan_name_ok name \<longrightarrow> E d \<noteq> None))"
proof -
  let ?U = "unbegun s E J B"
  let ?S = "\<lambda>a b. stage sha root s d n E J B a \<and> stage sha root s d n E J B b"
  let ?Q = "\<lambda>p v. p = d \<and> finished root s d n E B v"
  let ?E = "\<lambda>v. ?U v \<and> (plan_name_ok name \<longrightarrow> E d \<noteq> None)"
  have source: "entry_at v s = Some (Plain_File n)" if "?U v" for v
    using that assms(4) by (simp add: unbegun_def moving_def s_def)
  have name: "name_text s = name" using assms(3) by (simp add: s_def)
  have al: "valid_alias (JStr s)" using assms(1) place_alias by (simp add: movable_def s_def)
  have owner: "runs ?S ?U (owner_for_move fresh s) (\<lambda>i v. identity_text i \<and> ?U v) ?E"
  proof -
    have "runs (\<lambda>a b. moving s E J B a \<and> moving s E J B b) (moving s E J B) (owner_for_move fresh s)
      (\<lambda>i v. identity_text i \<and> moving s E J B v) (\<lambda>_. False)"
      by (rule runs_owner_for_move [where n = n]) (use assms al in \<open>simp_all add: s_def\<close>)
    show ?thesis
    proof (cases "\<exists>u. ?U u")
      case True
      then obtain u where u: "?U u" by blast
      have up: "?U v" if "moving s E J B v" for v using unbegun_moving [OF u that] .
      show ?thesis
        by (rule runs_mono [OF runs_owner_for_move [where n = n and E = E and J = J and B = B, OF _ al assms(2)]])
          (use assms(4) up in \<open>auto simp: s_def [symmetric] stage_def unbegun_def\<close>)
    qed (simp add: runs_def)
  qed
  have save: "runs ?S (\<lambda>v. ?U v \<and> read_entry (i @ ''.json'') v = Inr prior)
     (lc_bind (case prior of Some e \<Rightarrow>
            if dget e ''phase'' = JStr ''prepared''
            then lc_bind (complete_move sha alone root e (i @ ''.json'')) (\<lambda>_.
                   lc_fail (Lifecycle_Conflict ''a prior plan move completed; retry this request''))
            else lc_ret ()
        | None \<Rightarrow> lc_ret ()) (\<lambda>_.
      (let r = prepared_entry root q loc name i prior n in
       lc_bind (lc_do (put_journal (i @ ''.json'') r)) (\<lambda>_.
         complete_move sha alone root r (i @ ''.json''))))) ?Q ?E"
    if i: "identity_text i" and n: "plan_name_ok name" "E d = None" for i prior
  proof -
    let ?r = "prepared_entry root q loc name i prior n"
    have p: "runs ?S (\<lambda>v. ?U v \<and> read_entry (i @ ''.json'') v = Inr prior)
      (case prior of Some e \<Rightarrow>
            if dget e ''phase'' = JStr ''prepared''
            then lc_bind (complete_move sha alone root e (i @ ''.json'')) (\<lambda>_.
                   lc_fail (Lifecycle_Conflict ''a prior plan move completed; retry this request''))
            else lc_ret ()
        | None \<Rightarrow> lc_ret ()) (\<lambda>_. ?U) ?E"
    proof (cases prior)
      case None
      then show ?thesis by (auto intro: runs_ret)
    next
      case (Some e)
      show ?thesis
      proof (cases "dget e ''phase'' = JStr ''prepared''")
        case True
        then have "\<not> (?U v \<and> read_entry (i @ ''.json'') v = Inr prior)" for v
          using prior_not_prepared [of v i e] Some by (auto simp: unbegun_def)
        then have "(?U v \<and> read_entry (i @ ''.json'') v = Inr prior) = False" for v by blast
        then show ?thesis unfolding runs_def by (simp only:) simp
      qed (auto simp: Some intro: runs_ret)
    qed
    have put: "pending sha root (i @ ''.json'') ?r E (vo_journal (put_journal (i @ ''.json'') ?r v)) B (put_journal (i @ ''.json'') ?r v)"
      if "?U v" for v
      by (rule prepared_pending(1)) (use assms(1,4) n i that in \<open>simp_all add: s_def d_def\<close>)
    have s': "src root ?r = s" "dst root ?r = d" "entry_node ?r = n"
      by (simp_all add: src_def dst_def prepared_entry_reads s_def d_def)
    have w: "vo_journal v = J" if "?U v" for v using that by (simp add: unbegun_def moving_def)
    let ?J = "AList.update (i @ ''.json'') (Journal_File (JObj ?r)) J"
    have put': "pending sha root (i @ ''.json'') ?r E ?J B (put_journal (i @ ''.json'') ?r v)" if "?U v" for v
      using put [OF that] w [OF that] by (simp add: put_journal_def)
    have k: "runs ?S ?U (lc_bind (lc_do (put_journal (i @ ''.json'') ?r)) (\<lambda>_. complete_move sha alone root ?r (i @ ''.json''))) ?Q (\<lambda>_. False)"
    proof (rule runs_bind [where R = "\<lambda>_ v. pending sha root (i @ ''.json'') ?r E ?J B v \<and> src root ?r = s \<and> dst root ?r = d \<and> entry_node ?r = n"])
      show "runs ?S ?U (lc_do (put_journal (i @ ''.json'') ?r))
          (\<lambda>_ v. pending sha root (i @ ''.json'') ?r E ?J B v \<and> src root ?r = s \<and> dst root ?r = d \<and> entry_node ?r = n) (\<lambda>_. False)"
        by (rule runs_do) (use put' s' in \<open>auto simp: stage_def begun_def\<close>)
    qed (rule complete_begun)
    have "runs ?S ?U (lc_bind (lc_do (put_journal (i @ ''.json'') ?r)) (\<lambda>_. complete_move sha alone root ?r (i @ ''.json''))) ?Q ?E"
      by (rule runs_mono [OF k]) simp_all
    then show ?thesis unfolding Let_def by (rule runs_bind [OF p])
  qed
  show ?thesis
    unfolding begin_move_def name Let_def lc_entry_def
  proof (rule runs_sees [where x = "Plain_File n"], simp add: source, unfold dir_entry.case)
    let ?k = "\<lambda>target. lc_bind (owner_for_move fresh s) (\<lambda>identity.
      lc_bind (lc_of (read_entry (identity @ ''.json''))) (\<lambda>prior.
      lc_bind (case prior of
          Some d \<Rightarrow>
            if dget d ''phase'' = JStr ''prepared''
            then lc_bind (complete_move sha alone root d (identity @ ''.json'')) (\<lambda>_.
                   lc_fail (Lifecycle_Conflict ''a prior plan move completed; retry this request''))
            else lc_ret ()
        | None \<Rightarrow> lc_ret ()) (\<lambda>_.
       lc_bind (lc_do (put_journal (identity @ ''.json'') (prepared_entry root q loc name identity prior n))) (\<lambda>_.
         complete_move sha alone root (prepared_entry root q loc name identity prior n) (identity @ ''.json'')))))"
    show "runs ?S ?U (lc_bind (lc_of (\<lambda>v. rbind (lifecycle_path root (mq_destination q) name) (\<lambda>t.
        if entry_at v t \<noteq> None then Inl taken_destination else Inr t))) ?k) ?Q ?E"
    proof (cases "plan_name_ok name \<and> E d = None")
      case False
      then show ?thesis
        by (auto simp: runs_def lc_bind_def lc_of_def lifecycle_path_def unbegun_def moving_def d_def [symmetric])
    next
      case True
      have r: "\<exists>p. read_entry (i @ ''.json'') v = Inr p" if "?U v" for v i
      proof (cases "map_of (vo_journal v) (i @ ''.json'') = None")
        case False
        moreover have "ends_with (i @ ''.json'') ''.json''" by (rule entry_file_name)
        moreover have "no_prepared None v" using that by (simp add: unbegun_def)
        ultimately show ?thesis unfolding no_prepared_def by blast
      qed (simp add: read_entry_def)
      have "runs ?S (\<lambda>v. identity_text i \<and> ?U v) (lc_bind (lc_of (read_entry (i @ ''.json''))) (\<lambda>prior.
        lc_bind (case prior of
          Some d \<Rightarrow>
            if dget d ''phase'' = JStr ''prepared''
            then lc_bind (complete_move sha alone root d (i @ ''.json'')) (\<lambda>_.
                   lc_fail (Lifecycle_Conflict ''a prior plan move completed; retry this request''))
            else lc_ret ()
        | None \<Rightarrow> lc_ret ()) (\<lambda>_.
       lc_bind (lc_do (put_journal (i @ ''.json'') (prepared_entry root q loc name i prior n))) (\<lambda>_.
         complete_move sha alone root (prepared_entry root q loc name i prior n) (i @ ''.json''))))) ?Q ?E" for i
      proof (cases "identity_text i")
        case i: True
        show ?thesis
          by (rule runs_sees_some) (use r i save [OF i, unfolded Let_def] True in simp_all)
      qed (simp add: runs_def)
      then have "runs ?S ?U (?k d) ?Q ?E" by (rule runs_bind [OF owner])
      then show ?thesis
        by (intro runs_sees [where x = d]) (use True in \<open>simp_all add: lifecycle_path_def d_def [symmetric] unbegun_def moving_def\<close>)
    qed
  qed
qed


subsection \<open>A requested move\<close>

lemma slash_notin_name: "CHR ''/'' \<notin> set (name_text p)"
  unfolding name_text_def set_rev using set_takeWhileD [of "CHR ''/''" "\<lambda>c. c \<noteq> CHR ''/''" "rev p"] by blast

lemma name_text_child: "CHR ''/'' \<notin> set n \<Longrightarrow> name_text (x @ ''/'' @ n) = n"
  unfolding name_text_def by (simp add: takeWhile_append takeWhile_eq_all_conv)

lemma path_split:
  assumes "CHR ''/'' \<in> set p"
  shows "parent_text p @ ''/'' @ name_text p = p"
proof -
  let ?t = "takeWhile (\<lambda>c. c \<noteq> CHR ''/'') (rev p)" and ?d = "dropWhile (\<lambda>c. c \<noteq> CHR ''/'') (rev p)"
  have "?d \<noteq> []" using assms by (simp add: dropWhile_eq_Nil_conv)
  moreover from this have "hd ?d = CHR ''/''" by (metis (mono_tags, lifting) hd_dropWhile)
  ultimately have "?d = CHR ''/'' # tl ?d" by (metis list.collapse)
  then have "rev p = ?t @ CHR ''/'' # tl ?d" by (metis takeWhile_dropWhile_id)
  then have "p = rev (?t @ CHR ''/'' # tl ?d)" by (metis rev_rev_ident)
  also have "\<dots> = parent_text p @ ''/'' @ name_text p" by (simp add: parent_text_def name_text_def)
  finally show ?thesis ..
qed

lemma check_request_place:
  assumes "check_request root q v = Inr (loc, s)"
  shows "s = mq_source q" and "s = place root loc (name_text s)" and "loc \<noteq> mq_destination q"
    and "hex_of_length 64 (JStr (mq_revision q))"
proof -
  let ?p = "mq_source q"
  from assms obtain l where l: "location_for root ?p = Inr (Some l)" "l \<noteq> mq_destination q"
      "canonical_direct_child v ?p (plan_directory root l) = Inr s" and loc: "loc = l"
    and h: "hex_of_length 64 (JStr (mq_revision q))"
    by (auto simp: check_request_def Let_def rbind_def split: if_split_asm sum.split_asm option.split_asm)
  from l(3) have a: "starts_with ?p ''/''" "parent_text ?p = plan_directory root l"
    and s: "s = plan_directory root l @ ''/'' @ name_text ?p"
    by (auto simp: canonical_direct_child_def split: if_split_asm)
  from a(1) have "CHR ''/'' \<in> set ?p" by (auto simp: starts_with_iff)
  from path_split [OF this] a(2) s show p: "s = ?p" by simp
  with s show "s = place root loc (name_text s)" by (simp add: place_def loc)
  show "loc \<noteq> mq_destination q" using l(2) loc by simp
  show "hex_of_length 64 (JStr (mq_revision q))" by (rule h)
qed

lemma runs_move_plan:
  assumes "starts_with root ''/''" and "identity_text fresh" and "0 \<le> fst n" and "0 < snd n"
    and "check_request root q u = Inr (loc, s)" and "E s = Some (Plain_File n)"
  defines "d \<equiv> place root (mq_destination q) (name_text s)"
  shows "runs (\<lambda>a b. stage sha root s d n E J B a \<and> stage sha root s d n E J B b)
    (\<lambda>v. unbegun s E J B v \<and> check_request root q v = Inr (loc, s))
    (move_plan sha alone root fresh q) (\<lambda>p v. p = d \<and> finished root s d n E B v) (unbegun s E J B)"
proof -
  note c = check_request_place [OF assms(5)]
  let ?U = "unbegun s E J B"
  have name: "name_text (place root loc (name_text s)) = name_text s" using c(2) by simp
  have s: "place root loc (name_text s) = s" using c(2) by simp
  have "runs (\<lambda>a b. stage sha root s d n E J B a \<and> stage sha root s d n E J B b)
    (\<lambda>v. ?U v \<and> regular_bytes False v s = Inr data) (case data of
         None \<Rightarrow>
           lc_bind (lc_of (\<lambda>v. replayed (same_move q loc (name_text s)) (journal_files v) v)) (\<lambda>found.
             case found of
               None \<Rightarrow> lc_fail (Lifecycle_Conflict ''source plan is missing'')
             | Some (file, d) \<Rightarrow> complete_move sha alone root d file)
       | Some bytes \<Rightarrow>
           if sha bytes \<noteq> mq_revision q then lc_fail (Lifecycle_Conflict ''source plan revision changed'')
           else begin_move sha alone root fresh q loc s) (\<lambda>p v. p = d \<and> finished root s d n E B v) ?U" for data
  proof (cases "data = Some (B n) \<and> length (B n) \<le> LIFECYCLE_PLAN_BYTES \<and> utf8_ok (B n)")
    case False
    have "(?U v \<and> regular_bytes False v s = Inr data) = False" for v
      using False assms(6) by (auto simp: unbegun_def moving_def regular_bytes_def split: if_split_asm)
    then show ?thesis unfolding runs_def by (simp only:) simp
  next
    case True
    show ?thesis
    proof (cases "sha (B n) = mq_revision q")
      case False
      then show ?thesis using True by (auto intro: runs_fail)
    next
      case rev: True
      have m: "movable sha root q loc (name_text s) n B" using assms(1,3,4) c(3,4) True rev by (simp add: movable_def)
      note b = runs_begin_move [OF m assms(2) name, of E J, unfolded s, OF assms(6), folded d_def]
      show ?thesis using True rev by (simp, intro runs_mono [OF b]) auto
    qed
  qed
  then show ?thesis
    unfolding move_plan_def
    by (intro runs_sees [where x = "(loc, s)"], simp, unfold prod.case,
        intro runs_bind [where R = "\<lambda>data v. ?U v \<and> regular_bytes False v s = Inr data"] runs_of) auto
qed

lemma recover_stage:
  assumes "stage sha root s d n E J B w" and "E s = Some (Plain_File n)"
  shows "\<exists>t ps u. recover sha alone root w = (t, Inr ps, u) \<and> vo_bytes u = B \<and> no_prepared None u \<and>
    (entry_at u = E \<or> entry_at u = at_destination E s d n)"
proof -
  consider "unbegun s E J B w" | "begun sha root s d n E B w" | "finished root s d n E B w"
    using assms(1) by (auto simp: stage_def)
  then show ?thesis
  proof cases
    case 1
    then show ?thesis using recover_none [of w sha alone root] by (auto simp: unbegun_def moving_def)
  next
    case 2
    then obtain g r J' where "pending sha root g r E J' B w" and r: "src root r = s" "dst root r = d" "entry_node r = n"
      by (auto simp: begun_def)
    then obtain t u where "recover sha alone root w = (t, Inr [dst root r], u)" "settled root r E J' B u"
      using recover_pending by blast
    then show ?thesis using r by (auto simp: settled_def)
  next
    case 3
    then show ?thesis using recover_none [of w sha alone root] by (auto simp: finished_def settled_def)
  qed
qed

lemma cut_states_runs:
  assumes "runs (\<lambda>a b. P a \<and> P b) I m Q E" and "I v" and "\<And>u. I u \<Longrightarrow> P u" and "\<And>x u. Q x u \<Longrightarrow> P u" and "\<And>u. E u \<Longrightarrow> P u"
    and "w \<in> set (cut_states m v)"
  shows "P w"
proof -
  obtain t r u where m: "m v = (t, r, u)" by (cases "m v") auto
  note d = runsD [OF assms(1,2) m]
  from d(2) assms(4,5) have "P u" by (cases r) auto
  with d(1) assms(2,3,6) m show ?thesis by (fastforce simp: cut_states_def)
qed

end
