(* ===== verification/Move_Safety.thy ===== *)
theory Move_Safety
  imports Move_Begin
begin

text \<open>
  The steps of a move while other processes change the files between them: which entries a step of its
  own can add or remove, whatever the others do.
\<close>

text \<open>
  A step that keeps every file: it leaves the entries, gives the source's file its second name, or
  removes the first name of a file that has the second.
\<close>

definition keeps_files :: "string \<Rightarrow> string \<Rightarrow> volume \<Rightarrow> volume \<Rightarrow> bool" where
  "keeps_files s d a b =
     (vo_bytes b = vo_bytes a \<and>
      (entry_at b = entry_at a \<or>
       (entry_at a d = None \<and> entry_at a s \<noteq> None \<and> entry_at b = (entry_at a)(d := entry_at a s)) \<or>
       (\<exists>n. entry_at a s = Some (Plain_File n) \<and> entry_at a d = Some (Plain_File n) \<and> entry_at b = (entry_at a)(s := None))))"

text \<open>The step that takes a link away again.\<close>

definition takes_back :: "string \<Rightarrow> volume \<Rightarrow> volume \<Rightarrow> bool" where
  "takes_back d a b = (vo_bytes b = vo_bytes a \<and> entry_at a d \<noteq> None \<and> entry_at b = (entry_at a)(d := None))"

definition failed :: "lifecycle_error + 'a \<Rightarrow> bool" where
  "failed r = (\<exists>e. r = Inl e)"

definition same_entries :: "volume \<Rightarrow> volume \<Rightarrow> bool" where
  "same_entries a b = (vo_bytes b = vo_bytes a \<and> entry_at b = entry_at a)"

lemma entries_add: "entry_at (add_entry p e v) = (entry_at v)(p := Some e)"
  by (simp add: fun_eq_iff)

lemma entries_drop: "entry_at (drop_entry p v) = (entry_at v)(p := None)"
  by (simp add: fun_eq_iff)

text \<open>Every step is good, or a program that fails takes one of the steps it may take back.\<close>

definition tries ::
  "(volume \<Rightarrow> volume \<Rightarrow> bool) \<Rightarrow> (volume \<Rightarrow> volume \<Rightarrow> bool) \<Rightarrow> (volume \<Rightarrow> bool) \<Rightarrow> 'a lc \<Rightarrow> ('a \<Rightarrow> volume \<Rightarrow> bool) \<Rightarrow> bool" where
  "tries S T P m Q =
     (\<forall>v. P v \<longrightarrow> (case m v of (t, r, w) \<Rightarrow>
        (\<forall>(a, b) \<in> set t. S a b \<or> (failed r \<and> T a b)) \<and> (case r of Inl e \<Rightarrow> True | Inr x \<Rightarrow> Q x w)))"

lemma triesD:
  assumes "tries S T P m Q" and "P v" and "m v = (t, r, w)"
  shows "\<forall>(a, b) \<in> set t. S a b \<or> (failed r \<and> T a b)" and "case r of Inl e \<Rightarrow> True | Inr x \<Rightarrow> Q x w"
  using assms(1) [unfolded tries_def, rule_format, OF assms(2)] assms(3) by simp_all

lemma tries_runs: "runs S P m Q (\<lambda>_. True) \<Longrightarrow> tries S T P m Q"
  by (fastforce simp: tries_def runs_def split: sum.splits)

lemma tries_bind:
  assumes "tries S T P m R" and "\<And>x. tries S T (R x) (f x) Q"
  shows "tries S T P (lc_bind m f) Q"
  unfolding tries_def
proof (intro allI impI)
  fix v assume p: "P v"
  obtain t r u where m: "m v = (t, r, u)" by (cases "m v") auto
  note t = triesD(1) [OF assms(1) p m] and q = triesD(2) [OF assms(1) p m]
  show "case lc_bind m f v of (t, r, w) \<Rightarrow>
      (\<forall>(a, b) \<in> set t. S a b \<or> (failed r \<and> T a b)) \<and> (case r of Inl e \<Rightarrow> True | Inr x \<Rightarrow> Q x w)"
  proof (cases r)
    case (Inl e)
    with m t show ?thesis by (simp add: lc_bind_def failed_def)
  next
    case (Inr x)
    obtain t' r' w where f: "f x u = (t', r', w)" by (cases "f x u") auto
    from Inr q have "R x u" by simp
    note triesD [OF assms(2) this f]
    with Inr m f t show ?thesis by (auto simp: lc_bind_def failed_def)
  qed
qed

lemma tries_fail:
  assumes "runs T P m (\<lambda>_ _. True) (\<lambda>_. True)"
  shows "tries S T P (lc_bind m (\<lambda>_. lc_fail e)) Q"
  unfolding tries_def
proof (intro allI impI)
  fix v assume p: "P v"
  obtain t r u where m: "m v = (t, r, u)" by (cases "m v") auto
  from runsD(1) [OF assms p m] m show "case lc_bind m (\<lambda>_. lc_fail e) v of (t, r, w) \<Rightarrow>
      (\<forall>(a, b) \<in> set t. S a b \<or> (failed r \<and> T a b)) \<and> (case r of Inl e \<Rightarrow> True | Inr x \<Rightarrow> Q x w)"
    by (cases r) (auto simp: lc_bind_def lc_fail_def failed_def)
qed

lemmas tries_steps = tries_runs [OF runs_ret] tries_runs [OF runs_of] tries_runs [OF runs_do] tries_runs [OF runs_others]
  tries_runs [OF runs_guard] tries_runs [OF runs_fail]

lemma tries_entry: "(\<And>v e. P v \<Longrightarrow> entry_at v p = Some e \<Longrightarrow> Q e v) \<Longrightarrow> tries S T P (lc_entry p) Q"
  unfolding lc_entry_def by (intro tries_steps) (auto split: option.splits)

text \<open>Others that leave the two names of the move as they are.\<close>

definition spares :: "string \<Rightarrow> string \<Rightarrow> (volume \<Rightarrow> volume) \<Rightarrow> bool" where
  "spares s d g = (\<forall>v. entry_at (g v) s = entry_at v s \<and> entry_at (g v) d = entry_at v d)"

lemma runs_unlink: "runs (takes_back d) P (lc_unlink d) (\<lambda>_ _. True) (\<lambda>_. True)"
  unfolding lc_unlink_def lc_entry_def
  by (rule runs_bind [where R = "\<lambda>_ v. entry_at v d \<noteq> None"])
    (auto simp: takes_back_def entries_drop split: option.splits intro!: lc_rules)

lemma tries_link:
  "tries (keeps_files s d) (takes_back d) (\<lambda>_. True) (link_plan sha others r s d) (\<lambda>_ _. True)"
proof -
  let ?T = "tries (keeps_files s d) (takes_back d)"
  have undo: "?T (\<lambda>_. True) (lc_bind (lc_entry d) (\<lambda>e. lc_bind (if e = linked
          then lc_bind (lc_others (others Before_Link_Removal)) (\<lambda>_. lc_unlink d) else lc_ret ()) (\<lambda>_.
        lc_fail changed_source))) Q" for linked and Q :: "unit \<Rightarrow> volume \<Rightarrow> bool"
  proof (rule tries_bind [where R = "\<lambda>_ _. True"], rule tries_entry, simp)
    show "?T (\<lambda>_. True) (lc_bind (if e = linked
          then lc_bind (lc_others (others Before_Link_Removal)) (\<lambda>_. lc_unlink d) else lc_ret ()) (\<lambda>_.
        lc_fail changed_source)) Q" for e
      by (rule tries_fail) (auto intro!: runs_ret runs_bind [OF runs_others runs_unlink])
  qed
  have check: "?T (\<lambda>_. True) (lc_bind (case linked of Plain_File n \<Rightarrow> lc_of (\<lambda>v. regular_bytes True v d) | _ \<Rightarrow> lc_ret None) (\<lambda>bytes.
       if linked_ok sha r seen linked current bytes then lc_ret ()
       else lc_bind (lc_others (others Before_Take_Back)) (\<lambda>_.
            lc_bind (lc_entry d) (\<lambda>e.
            lc_bind (if e = linked
                     then lc_bind (lc_others (others Before_Link_Removal)) (\<lambda>_. lc_unlink d)
                     else lc_ret ()) (\<lambda>_.
              lc_fail changed_source))))) (\<lambda>_ _. True)" for linked seen current
    by (rule tries_bind [where R = "\<lambda>_ _. True"], cases linked, simp_all,
        auto intro!: tries_steps tries_bind [OF tries_runs [OF runs_others], OF _ undo])
  have look: "?T (\<lambda>_. True) (lc_bind (lc_entry p) k) (\<lambda>_ _. True)" if "\<And>e. ?T (\<lambda>_. True) (k e) (\<lambda>_ _. True)" for p k
    by (rule tries_bind [where R = "\<lambda>_ _. True"]) (use that in \<open>auto intro: tries_entry\<close>)
  have pass: "?T (\<lambda>_. True) (lc_bind (lc_others g) k) (\<lambda>_ _. True)" if "\<And>x. ?T (\<lambda>_. True) (k x) (\<lambda>_ _. True)" for g k
    by (rule tries_bind [where R = "\<lambda>_ _. True"]) (use that in \<open>auto intro!: tries_steps\<close>)
  have link: "?T (\<lambda>v. entry_at v s = Some now) (lc_bind (lc_of (\<lambda>v. Inr (entry_at v d))) (\<lambda>there.
      lc_bind (lc_guard (there = None) taken_destination) (\<lambda>_. lc_bind (lc_do (add_entry d now)) k))) (\<lambda>_ _. True)"
    if k: "\<And>x. ?T (\<lambda>_. True) (k x) (\<lambda>_ _. True)" for now k
  proof (rule tries_bind [where R = "\<lambda>there v. entry_at v s = Some now \<and> entry_at v d = there"])
    show "?T (\<lambda>v. entry_at v s = Some now \<and> entry_at v d = there)
        (lc_bind (lc_guard (there = None) taken_destination) (\<lambda>_. lc_bind (lc_do (add_entry d now)) k)) (\<lambda>_ _. True)" for there
    proof (rule tries_bind [where R = "\<lambda>_ v. entry_at v s = Some now \<and> entry_at v d = None"])
      show "?T (\<lambda>v. entry_at v s = Some now \<and> entry_at v d = None) (lc_bind (lc_do (add_entry d now)) k) (\<lambda>_ _. True)"
        by (rule tries_bind [where R = "\<lambda>_ _. True", OF _ k], intro tries_steps) (auto simp: keeps_files_def entries_add)
    qed (intro tries_steps; simp)
  qed (intro tries_steps; simp)
  show ?thesis
    unfolding link_plan_def
    by (rule look, rule pass, rule tries_bind [where R = "\<lambda>now v. entry_at v s = Some now"], rule tries_entry, simp,
        intro link pass look check)
qed


text \<open>What follows the file leaves the entries.\<close>

abbreviation anywhere :: "volume \<Rightarrow> bool" where "anywhere v \<equiv> True"

lemma same_write_owner: "runs same_entries anywhere (write_owner w) (\<lambda>_. anywhere) anywhere"
  unfolding write_owner_def by (rule runs_do) (simp_all add: same_entries_def)

lemma same_provenance: "runs S anywhere (lc_provenance f) (\<lambda>_. anywhere) anywhere"
  unfolding lc_provenance_def by (rule runs_of) simp_all

lemma same_write_changed: "runs same_entries anywhere (write_changed f x) (\<lambda>_. anywhere) anywhere"
  by (cases x) (auto simp: write_changed_def same_entries_def intro!: lc_rules)

lemma same_move_identity: "runs same_entries anywhere (move_plan_identity s d) (\<lambda>_. anywhere) anywhere"
proof -
  have "runs same_entries anywhere (case owning p ws of [] \<Rightarrow> lc_ret False
       | [w] \<Rightarrow> lc_bind (write_owner (w\<lparr>ow_current := Some q, ow_paths := with_value q (ow_paths w)\<rparr>)) (\<lambda>_. lc_ret True)
       | _ \<Rightarrow> lc_fail (Provenance_Error (''plan identity ownership is ambiguous: '' @ p))) (\<lambda>_. anywhere) anywhere" for p q ws
    by (auto split: list.split intro!: runs_ret runs_fail runs_bind [OF same_write_owner])
  then show ?thesis unfolding move_plan_identity_def by (intro runs_bind [OF same_provenance])
qed

lemma same_record_move: "runs same_entries anywhere (record_plan_lifecycle_move s d) (\<lambda>_. anywhere) anywhere"
  unfolding record_plan_lifecycle_move_def
  by (intro runs_bind [OF same_provenance] runs_bind [where R = "\<lambda>_. anywhere", OF runs_of]
      runs_bind [OF runs_each] runs_bind [OF same_move_identity] same_write_changed runs_ret) simp_all

lemma tries_same:
  assumes "runs same_entries anywhere m (\<lambda>_. anywhere) anywhere"
  shows "tries (keeps_files s d) T anywhere m (\<lambda>_. anywhere)"
  by (rule tries_runs [OF runs_mono [OF assms]]) (simp_all add: keeps_files_def same_entries_def)

lemma tries_unlink:
  assumes "spares s d (others Before_Destination_Stat)" and "spares s d (others Before_Source_Removal)"
  shows "tries (keeps_files s d) T anywhere (unlink_source others s d) (\<lambda>_. anywhere)"
proof -
  let ?T = "tries (keeps_files s d) T"
  let ?same = "\<lambda>v. \<exists>n. entry_at v s = Some (Plain_File n) \<and> entry_at v d = Some (Plain_File n)"
  have remove: "?T ?same (lc_bind (lc_others (others Before_Source_Removal)) (\<lambda>_. lc_unlink s)) (\<lambda>_. anywhere)"
  proof (rule tries_bind [where R = "\<lambda>_. ?same"])
    show "?T ?same (lc_others (others Before_Source_Removal)) (\<lambda>_. ?same)"
      by (intro tries_steps) (use assms in \<open>auto simp: spares_def\<close>)
    show "?T ?same (lc_unlink s) (\<lambda>_. anywhere)"
      unfolding lc_unlink_def
      by (rule tries_bind [where R = "\<lambda>_. ?same"], rule tries_entry, simp, intro tries_steps)
        (auto simp: keeps_files_def entries_drop)
  qed
  have compare: "?T (\<lambda>v. entry_at v s = Some e \<and> entry_at v d = Some f)
      (lc_bind (lc_guard (is_plain e \<and> e = f) changed_source) (\<lambda>_.
       lc_bind (lc_others (others Before_Source_Removal)) (\<lambda>_. lc_unlink s))) (\<lambda>_. anywhere)" for e f
    by (rule tries_bind [where R = "\<lambda>_. ?same", OF _ remove]) (auto intro!: tries_steps)
  have look: "?T (\<lambda>v. entry_at v s = Some e) (lc_bind (lc_others (others Before_Destination_Stat)) (\<lambda>_.
      lc_bind (lc_entry d) (\<lambda>f. lc_bind (lc_guard (is_plain e \<and> e = f) changed_source) (\<lambda>_.
       lc_bind (lc_others (others Before_Source_Removal)) (\<lambda>_. lc_unlink s))))) (\<lambda>_. anywhere)" for e
  proof (rule tries_bind [where R = "\<lambda>_ v. entry_at v s = Some e"])
    show "?T (\<lambda>v. entry_at v s = Some e) (lc_others (others Before_Destination_Stat)) (\<lambda>_ v. entry_at v s = Some e)"
      by (intro tries_steps) (use assms(1) in \<open>simp add: spares_def\<close>)
    show "?T (\<lambda>v. entry_at v s = Some e) (lc_bind (lc_entry d) (\<lambda>f. lc_bind (lc_guard (is_plain e \<and> e = f) changed_source) (\<lambda>_.
       lc_bind (lc_others (others Before_Source_Removal)) (\<lambda>_. lc_unlink s)))) (\<lambda>_. anywhere)"
      by (rule tries_bind [where R = "\<lambda>f v. entry_at v s = Some e \<and> entry_at v d = Some f", OF tries_entry compare]) simp
  qed
  have enter: "?T (\<lambda>_. True) (lc_bind (lc_others (others Before_Source_Stat)) (\<lambda>_. lc_bind (lc_entry s) (\<lambda>e.
      lc_bind (lc_others (others Before_Destination_Stat)) (\<lambda>_.
      lc_bind (lc_entry d) (\<lambda>f. lc_bind (lc_guard (is_plain e \<and> e = f) changed_source) (\<lambda>_.
       lc_bind (lc_others (others Before_Source_Removal)) (\<lambda>_. lc_unlink s))))))) (\<lambda>_. anywhere)"
    by (rule tries_bind [where R = "\<lambda>_ _. True", OF _ tries_bind [OF tries_entry look]]) (auto intro!: tries_steps)
  show ?thesis
    unfolding unlink_source_def
    by (rule tries_bind [where R = "\<lambda>_ _. True"]) (use enter in \<open>auto intro!: tries_steps\<close>)
qed

lemma tries_complete:
  assumes "spares (src root r) (dst root r) (others Before_Destination_Stat)"
    and "spares (src root r) (dst root r) (others Before_Source_Removal)"
  shows "tries (keeps_files (src root r) (dst root r)) (takes_back (dst root r)) anywhere (complete_move sha others root r file) (\<lambda>_. anywhere)"
proof -
  let ?T = "tries (keeps_files (src root r) (dst root r)) (takes_back (dst root r)) anywhere"
  have save: "?T (lc_do (put_journal file (moved_entry r))) (\<lambda>_. anywhere)"
    by (rule tries_same) (auto simp: same_entries_def intro!: runs_do)
  have link: "?T (if b then link_plan sha others r (src root r) (dst root r) else lc_ret ()) (\<lambda>_. anywhere)" for b
    using tries_link by (auto intro!: tries_steps)
  have see: "?T (lc_of f) (\<lambda>_. anywhere)" for f :: "volume \<Rightarrow> lifecycle_error + (bool \<times> bool)" by (intro tries_steps) simp_all
  have follow: "?T (lc_catch_provenance e (record_plan_lifecycle_move (src root r) (dst root r))) (\<lambda>_. anywhere)" for e
    by (rule tries_same [OF runs_catch [OF same_record_move]])
  have others: "?T (lc_others g) (\<lambda>_. anywhere)" for g by (intro tries_steps) simp
  have ret: "?T (lc_ret x) (\<lambda>_. anywhere)" for x :: string by (intro tries_steps) simp
  show ?thesis
    unfolding complete_move_def src_def [symmetric] dst_def [symmetric] Let_def
    by (rule tries_bind [OF see], simp only: split_beta,
        rule tries_bind [OF link], rule tries_bind [OF others], rule tries_bind [OF tries_unlink [OF assms]],
        rule tries_bind [OF others], rule tries_bind [OF follow], rule tries_bind [OF others],
        rule tries_bind [OF save], rule ret)
qed

end
