(* ===== verification/Owner_Laws.thy ===== *)
theory Owner_Laws
  imports Move_Safety
begin

text \<open>
  The owners of plans that nobody else touches: each owner has the file of its name and a path has at
  most one owner. A new owner and a move keep this; a move onto a path that still has an owner does not.
\<close>

definition owners_kept :: "volume \<Rightarrow> bool" where
  "owners_kept v =
     (owners_readable v \<and> (\<forall>p. owned_once v p) \<and>
      (\<forall>name w. owner_at v name = Some w \<longrightarrow> name = owner_file (ow_id w)))"

definition unowned :: "string \<Rightarrow> volume \<Rightarrow> bool" where
  "unowned p v = (\<forall>name w. owner_at v name = Some w \<longrightarrow> ow_current w \<noteq> Some p)"

text \<open>The only owner a path may have before an owner with this identity takes it.\<close>

definition free_for :: "plan_owner \<Rightarrow> volume \<Rightarrow> bool" where
  "free_for w v =
     (\<forall>name x. owner_at v name = Some x \<longrightarrow> name \<noteq> owner_file (ow_id w) \<longrightarrow> ow_current w \<noteq> None \<longrightarrow> ow_current x \<noteq> ow_current w)"

lemma owners_kept_put:
  assumes "owners_kept v" and "owner_ok w" and "free_for w v"
  shows "owners_kept (put_owner (owner_file (ow_id w)) (owner_dict w) v)"
proof -
  let ?v = "put_owner (owner_file (ow_id w)) (owner_dict w) v"
  note at = owner_at_put [OF assms(2), of v]
  have k: "owners_readable v" "owned_once v p" "owner_at v name = Some x \<Longrightarrow> name = owner_file (ow_id x)" for p name x
    using assms(1) by (auto simp: owners_kept_def)
  have free: "owner_at v a = Some x \<Longrightarrow> a \<noteq> owner_file (ow_id w) \<Longrightarrow> ow_current x = Some p \<Longrightarrow> ow_current w \<noteq> Some p" for a x p
    using assms(3) [unfolded free_for_def, rule_format, of a x] by auto
  have "owned_once ?v p" for p
    unfolding owned_once_def at
  proof (intro allI impI)
    fix a b wa wb
    assume a: "((owner_at v)(owner_file (ow_id w) \<mapsto> w)) a = Some wa" "ow_current wa = Some p"
      and b: "((owner_at v)(owner_file (ow_id w) \<mapsto> w)) b = Some wb" "ow_current wb = Some p"
    from a b free [of a wa p] free [of b wb p] k(2) [of p] show "a = b"
      unfolding owned_once_def by (auto split: if_split_asm)
  qed
  moreover have "name = owner_file (ow_id x)" if "owner_at ?v name = Some x" for name x
    using that k(3) [of name x] unfolding at by (simp split: if_split_asm)
  ultimately show ?thesis using owners_readable_put [OF assms(2) k(1)] by (simp add: owners_kept_def)
qed

lemma unowned_put:
  assumes "owner_ok w" and "ow_current w \<noteq> Some p" and "\<And>name x. owner_at v name = Some x \<Longrightarrow> name \<noteq> owner_file (ow_id w) \<Longrightarrow> ow_current x \<noteq> Some p"
  shows "unowned p (put_owner (owner_file (ow_id w)) (owner_dict w) v)"
  unfolding unowned_def owner_at_put [OF assms(1)] using assms(2,3) by auto

lemma kept_identity:
  assumes "owners_kept v" and "\<not> is_link (entry_at v p)"
  shows "plan_identity_for_path p v = Some i \<longleftrightarrow> (\<exists>w. owner_at v (owner_file i) = Some w \<and> ow_current w = Some p)"
proof -
  have r: "owners_readable v" "owned_once v p" and n: "\<And>name w. owner_at v name = Some w \<Longrightarrow> name = owner_file (ow_id w)"
    using assms(1) by (auto simp: owners_kept_def)
  have i: "ow_id w = i" if "owner_at v (owner_file i) = Some w" for w i
    using n [OF that] by (simp add: owner_file_def)
  show ?thesis unfolding identity_for_path [OF r assms(2)]
  proof
    assume "\<exists>name w. owner_at v name = Some w \<and> ow_current w = Some p \<and> ow_id w = i"
    then obtain name w where w: "owner_at v name = Some w" "ow_current w = Some p" "ow_id w = i" by blast
    with n [OF w(1)] show "\<exists>w. owner_at v (owner_file i) = Some w \<and> ow_current w = Some p" by auto
  next
    assume "\<exists>w. owner_at v (owner_file i) = Some w \<and> ow_current w = Some p"
    then obtain w where w: "owner_at v (owner_file i) = Some w" "ow_current w = Some p" by blast
    with i [OF w(1)] show "\<exists>name w. owner_at v name = Some w \<and> ow_current w = Some p \<and> ow_id w = i" by blast
  qed
qed

lemma kept_unowned:
  assumes "owners_kept v" and "\<not> is_link (entry_at v p)"
  shows "plan_identity_for_path p v = None \<longleftrightarrow> unowned p v"
proof -
  have n: "name = owner_file (ow_id w)" if "owner_at v name = Some w" for name w
    using assms(1) that by (simp add: owners_kept_def)
  show ?thesis
  proof (cases "plan_identity_for_path p v")
    case None
    have "unowned p v" unfolding unowned_def
    proof (intro allI impI notI)
      fix name w assume w: "owner_at v name = Some w" "ow_current w = Some p"
      with n [OF w(1)] have "plan_identity_for_path p v = Some (ow_id w)" unfolding kept_identity [OF assms] by blast
      with None show False by simp
    qed
    with None show ?thesis by simp
  next
    case (Some i)
    then have "\<not> unowned p v" unfolding kept_identity [OF assms] unowned_def by blast
    with Some show ?thesis by simp
  qed
qed

lemma owning_member:
  assumes "owners_readable v" and "strict_identities v = Inr ws"
  shows "w \<in> set (owning p ws) \<longleftrightarrow> (\<exists>name. owner_at v name = Some w) \<and> ow_current w = Some p"
  using strict_identities_set [OF assms] by (auto simp: owning_def)

lemma owning_owner:
  assumes "owners_kept v" and "strict_identities v = Inr ws"
  shows "owning p ws = [] \<and> unowned p v \<or>
    (\<exists>w. owning p ws = [w] \<and> owner_at v (owner_file (ow_id w)) = Some w \<and> ow_current w = Some p)"
proof -
  have r: "owners_readable v" "owned_once v p" and n: "\<And>name w. owner_at v name = Some w \<Longrightarrow> name = owner_file (ow_id w)"
    using assms(1) by (auto simp: owners_kept_def)
  note m = owning_member [OF r(1) assms(2)]
  from owning_once [OF r assms(2)] show ?thesis
  proof
    assume e: "owning p ws = []"
    have "unowned p v" unfolding unowned_def
    proof (intro allI impI notI)
      fix name w assume "owner_at v name = Some w" "ow_current w = Some p"
      then have "w \<in> set (owning p ws)" unfolding m by blast
      with e show False by simp
    qed
    with e show ?thesis by simp
  next
    assume "\<exists>w. owning p ws = [w]"
    then obtain w where w: "owning p ws = [w]" by blast
    then have "w \<in> set (owning p ws)" by simp
    then obtain name where "owner_at v name = Some w" "ow_current w = Some p" unfolding m by blast
    with n [of name w] w show ?thesis by blast
  qed
qed

subsection \<open>A new owner\<close>

lemma kept_clear:
  assumes "owners_kept v" and "owner_at v (owner_file (ow_id w)) = Some w" and "ow_current w = Some p"
  defines "u \<equiv> put_owner (owner_file (ow_id w)) (owner_dict (w\<lparr>ow_current := None\<rparr>)) v"
  shows "owners_kept u" and "unowned p u"
proof -
  let ?w = "w\<lparr>ow_current := None\<rparr>"
  have ok: "owner_ok ?w" using owner_at_ok [OF assms(2)] by (simp add: owner_ok_def)
  show "owners_kept u" using owners_kept_put [OF assms(1) ok] by (simp add: free_for_def u_def)
  have "owned_once v p" using assms(1) by (simp add: owners_kept_def)
  then have "ow_current x \<noteq> Some p" if "owner_at v name = Some x" "name \<noteq> owner_file (ow_id ?w)" for name x
    using assms(2,3) that unfolding owned_once_def by auto
  then show "unowned p u" using unowned_put [OF ok, of p v] by (simp add: u_def)
qed

lemma runs_create_kept:
  assumes "valid_alias (JStr p)" and "identity_text fresh"
  shows "runs (\<lambda>a b. owners_kept a \<and> owners_kept b) owners_kept (create_plan_identity fresh p)
    (\<lambda>i v. i = fresh \<and> owners_kept v \<and>
       owner_at v (owner_file fresh) = Some \<lparr>ow_schema = JInt 1, ow_id = fresh, ow_current = Some p, ow_paths = [p]\<rparr>) owners_kept"
proof -
  let ?S = "\<lambda>a b. owners_kept a \<and> owners_kept b"
  let ?w = "\<lparr>ow_schema = JInt 1, ow_id = fresh, ow_current = Some p, ow_paths = [p]\<rparr>"
  let ?Q = "\<lambda>i v. i = fresh \<and> owners_kept v \<and> owner_at v (owner_file fresh) = Some ?w"
  have ok: "owner_ok ?w" using owner_ok_fresh assms by (simp add: identity_text_def)
  have make: "runs ?S (\<lambda>v. owners_kept v \<and> unowned p v) (lc_bind (write_owner ?w) (\<lambda>_. lc_ret fresh)) ?Q owners_kept"
  proof (rule runs_bind [where R = "\<lambda>_ v. owners_kept v \<and> owner_at v (owner_file fresh) = Some ?w"])
    have "owners_kept (put_owner (owner_file (ow_id ?w)) (owner_dict ?w) v)" if "owners_kept v" "unowned p v" for v
      by (rule owners_kept_put [OF that(1) ok]) (use that(2) in \<open>auto simp: free_for_def unowned_def\<close>)
    then show "runs ?S (\<lambda>v. owners_kept v \<and> unowned p v) (write_owner ?w)
        (\<lambda>_ v. owners_kept v \<and> owner_at v (owner_file fresh) = Some ?w) owners_kept"
      using owner_at_put [OF ok] unfolding write_owner_def by (intro runs_do) simp_all
  qed (auto intro: runs_ret)
  have clear: "runs ?S (\<lambda>v. owners_kept v \<and> strict_identities v = Inr ws)
      (lc_each (\<lambda>w. write_owner (w\<lparr>ow_current := None\<rparr>)) (owning p ws)) (\<lambda>_ v. owners_kept v \<and> unowned p v) owners_kept" for ws
    unfolding runs_def
  proof (intro allI impI)
    fix v assume v: "owners_kept v \<and> strict_identities v = Inr ws"
    from owning_owner [of v ws p] v consider "owning p ws = []" "unowned p v"
      | w where "owning p ws = [w]" "owner_at v (owner_file (ow_id w)) = Some w" "ow_current w = Some p" by blast
    then show "case lc_each (\<lambda>w. write_owner (w\<lparr>ow_current := None\<rparr>)) (owning p ws) v of (t, r, u) \<Rightarrow>
        (\<forall>(a, b) \<in> set t. ?S a b) \<and> (case r of Inl e \<Rightarrow> owners_kept u | Inr x \<Rightarrow> owners_kept u \<and> unowned p u)"
    proof cases
      case 1
      with v show ?thesis by (simp add: lc_ret_def)
    next
      case (2 w)
      with v kept_clear [of v w p] show ?thesis
        by (simp add: write_owner_def lc_bind_def lc_ret_def lc_do_def)
    qed
  qed
  have see: "runs ?S owners_kept (lc_provenance (path_value True p)) (\<lambda>x v. x = p \<and> owners_kept v) owners_kept"
    unfolding lc_provenance_def by (rule runs_of) (auto simp: path_value_def split: if_split_asm)
  have look: "runs ?S owners_kept (lc_provenance strict_identities) (\<lambda>ws v. owners_kept v \<and> strict_identities v = Inr ws) owners_kept"
    unfolding lc_provenance_def by (rule runs_of) (auto split: sum.splits simp: map_sum_def)
  show ?thesis unfolding create_plan_identity_def
  proof (rule runs_bind [OF see], goal_cases)
    case (1 x)
    have "runs ?S owners_kept (lc_bind (lc_provenance strict_identities) (\<lambda>ws.
      lc_bind (lc_each (\<lambda>w. write_owner (w\<lparr>ow_current := None\<rparr>)) (owning p ws)) (\<lambda>_.
      lc_bind (write_owner ?w) (\<lambda>_. lc_ret fresh)))) ?Q owners_kept"
      by (rule runs_bind [OF look], rule runs_bind [OF clear], rule make)
    then show ?case by (cases "x = p") (simp_all add: runs_def)
  qed
qed

subsection \<open>A move\<close>

lemma move_owner_result:
  assumes "owners_kept v" and "\<not> is_link (entry_at v s)" and "node_at v d = Some n" and "s \<noteq> d"
    and "plan_identity_for_path s v = Some i"
  obtains w where "owner_at v (owner_file i) = Some w" and "ow_current w = Some s" and "ow_id w = i"
    and "move_plan_identity s d v =
      (let u = put_owner (owner_file i) (owner_dict (w\<lparr>ow_current := Some d, ow_paths := with_value d (ow_paths w)\<rparr>)) v
       in ([(v, u)], Inr True, u))"
proof -
  obtain w where w: "owner_at v (owner_file i) = Some w" "ow_current w = Some s"
    using assms(5) unfolding kept_identity [OF assms(1,2)] by blast
  have r: "owners_readable v" using assms(1) by (simp add: owners_kept_def)
  have "owner_file i = owner_file (ow_id w)" using assms(1) w(1) by (simp add: owners_kept_def)
  then have i: "ow_id w = i" by (simp add: owner_file_def)
  obtain ws where ws: "strict_identities v = Inr ws" using strict_identities_readable [OF r] by blast
  have "w \<in> set (owning s ws)" unfolding owning_member [OF r ws] using w by blast
  then have o: "owning s ws = [w]" using owning_owner [OF assms(1) ws, of s] by auto
  have pv: "path_value False s v = Inr s" "path_value True d v = Inr d"
    using assms(2,3) by (auto simp: path_value_def node_at_def split: option.splits dir_entry.splits)
  have "move_plan_identity s d v =
      (let u = put_owner (owner_file i) (owner_dict (w\<lparr>ow_current := Some d, ow_paths := with_value d (ow_paths w)\<rparr>)) v
       in ([(v, u)], Inr True, u))"
    using o i by (simp add: move_plan_identity_def lc_provenance_def lc_defs pv ws write_owner_def Let_def)
  with that [of w] w i show thesis by blast
qed

end
