(* ===== verification/Lifecycle_Properties.thy ===== *)
theory Lifecycle_Properties
  imports Owner_Laws
begin

text \<open>
  The properties of the lifecycle of plans: a move is all or nothing, survives a crash at any of its
  steps and never costs a file; and who owns a path before and after a move.
\<close>

subsection \<open>A small repository\<close>

definition sample_sha :: "string \<Rightarrow> string" where
  "sample_sha s = replicate 64 (CHR ''0'')"

definition sample_source :: string where "sample_source = ''/r/plans/in-progress/p.md''"

definition sample_target :: string where "sample_target = ''/r/plans/failed/p.md''"

definition sample_volume :: volume where
  "sample_volume =
     \<lparr>vo_entries = [(sample_source, Plain_File (1, 2))], vo_bytes = (\<lambda>_. ''x''), vo_outside = (\<lambda>_. 0),
      vo_journal = [], vo_owners = [], vo_backups = []\<rparr>"

definition sample_fresh :: string where "sample_fresh = replicate 32 (CHR ''a'')"

definition sample_move :: move_request where
  "sample_move =
     \<lparr>mq_source = sample_source, mq_destination = Failed, mq_revision = replicate 64 (CHR ''0''), mq_code = ''stuck'',
      mq_reason = ''no progress'', mq_run = None\<rparr>"

lemma sample_owned: "owners_kept sample_volume" "owners_readable sample_volume" "owned_once sample_volume p" "no_prepared None sample_volume"
  by (simp_all add: owners_kept_def owners_readable_def owned_once_def owner_at_def no_prepared_def sample_volume_def)

lemma sample_checked: "check_request ''/r'' sample_move sample_volume = Inr (In_Progress, sample_source)"
  by code_simp

lemma sample_entry: "entry_at sample_volume sample_source = Some (Plain_File (1, 2))"
  by (simp add: entry_at_def sample_volume_def)

lemma sample_root: "starts_with ''/r'' ''/''"
  by code_simp

lemma sample_identity: "length sample_fresh = 32" "list_all is_hex sample_fresh"
  by code_simp+

lemma sample_moves:
  "fst (snd (move_plan sample_sha alone ''/r'' sample_fresh sample_move sample_volume)) = Inr sample_target"
  by code_simp

lemma sample_states:
  "length (cut_states (move_plan sample_sha alone ''/r'' sample_fresh sample_move) sample_volume) = 8"
  by code_simp

text \<open>The entry of the move, and another process that puts a file of its own at the destination.\<close>

definition sample_record :: dict where
  "sample_record = prepared_entry ''/r'' sample_move In_Progress ''p.md'' sample_fresh None (1, 2)"

definition puts_at :: "window \<Rightarrow> string \<Rightarrow> file_node \<Rightarrow> window \<Rightarrow> volume \<Rightarrow> volume" where
  "puts_at at p m i v = (if i = at then add_entry p (Plain_File m) v else v)"

definition intruder :: "string \<Rightarrow> file_node \<Rightarrow> window \<Rightarrow> volume \<Rightarrow> volume" where
  "intruder = puts_at After_Link"

definition sample_run :: "volume_steps \<times> (lifecycle_error + string) \<times> volume" where
  "sample_run =
     complete_move sample_sha (intruder sample_target (7, 9)) ''/r'' sample_record (sample_fresh @ ''.json'') sample_volume"

lemma sample_run_steps: "length (fst sample_run) = 2"
  by code_simp

subsection \<open>Moves\<close>

lemma move_runs:
  assumes "starts_with root ''/''" and "length fresh = 32" and "list_all is_hex fresh"
    and "owners_readable v" and "owned_once v s" and "no_prepared None v"
    and "check_request root q v = Inr (loc, s)" and "entry_at v s = Some (Plain_File n)" and "0 \<le> fst n" and "0 < snd n"
  defines "d \<equiv> place root (mq_destination q) (name_text s)"
  shows "runs (\<lambda>a b. stage sha root s d n (entry_at v) (vo_journal v) (vo_bytes v) a \<and> stage sha root s d n (entry_at v) (vo_journal v) (vo_bytes v) b)
      (\<lambda>u. unbegun s (entry_at v) (vo_journal v) (vo_bytes v) u \<and> check_request root q u = Inr (loc, s))
      (move_plan sha alone root fresh q) (\<lambda>p u. p = d \<and> finished root s d n (entry_at v) (vo_bytes v) u)
      (unbegun s (entry_at v) (vo_journal v) (vo_bytes v))"
    and "unbegun s (entry_at v) (vo_journal v) (vo_bytes v) v \<and> check_request root q v = Inr (loc, s)"
proof -
  have "identity_text fresh" using assms(2,3) by (simp add: identity_text_def)
  from runs_move_plan [OF assms(1) this assms(9,10,7), of "entry_at v", OF assms(8)]
  show "runs (\<lambda>a b. stage sha root s d n (entry_at v) (vo_journal v) (vo_bytes v) a \<and> stage sha root s d n (entry_at v) (vo_journal v) (vo_bytes v) b)
      (\<lambda>u. unbegun s (entry_at v) (vo_journal v) (vo_bytes v) u \<and> check_request root q u = Inr (loc, s))
      (move_plan sha alone root fresh q) (\<lambda>p u. p = d \<and> finished root s d n (entry_at v) (vo_bytes v) u)
      (unbegun s (entry_at v) (vo_journal v) (vo_bytes v))"
    unfolding d_def by blast
  show "unbegun s (entry_at v) (vo_journal v) (vo_bytes v) v \<and> check_request root q v = Inr (loc, s)"
    using assms(4-7) by (simp add: unbegun_def moving_def)
qed

text \<open>
  C2. A move of a plan is cut off after any of its steps, and the plans are recovered: the plan is then
  where it was or at its destination and nowhere else, every other entry and all bytes are as before, and
  no prepared move is left. Journal, link, unlink and the records that follow the file refine one
  atomic rename.
\<close>

theorem lifecycle_moves_survive_crashes:
  assumes "starts_with root ''/''" and "length fresh = 32" and "list_all is_hex fresh"
    and "owners_readable v" and "owned_once v s" and "no_prepared None v"
    and "check_request root q v = Inr (loc, s)" and "entry_at v s = Some (Plain_File n)" and "0 \<le> fst n" and "0 < snd n"
    and "w \<in> set (cut_states (move_plan sha alone root fresh q) v)"
  shows "\<exists>t ps u. recover sha alone root w = (t, Inr ps, u) \<and> vo_bytes u = vo_bytes v \<and> no_prepared None u \<and>
    (entry_at u = entry_at v \<or>
     entry_at u = (entry_at v)(s := None, place root (mq_destination q) (name_text s) := Some (Plain_File n)))"
proof -
  note m = move_runs [OF assms(1-10)]
  have "stage sha root s (place root (mq_destination q) (name_text s)) n (entry_at v) (vo_journal v) (vo_bytes v) w"
    by (rule cut_states_runs [OF m(1) m(2) _ _ _ assms(11)]) (auto simp: stage_def)
  from recover_stage [OF this assms(8)] show ?thesis by (simp add: at_destination_def)
qed

theorem lifecycle_moves_survive_crashes_witness:
  "\<exists>t ps u. recover sample_sha alone ''/r'' (cut_states (move_plan sample_sha alone ''/r'' sample_fresh sample_move) sample_volume ! 3) = (t, Inr ps, u) \<and>
    vo_bytes u = vo_bytes sample_volume \<and> no_prepared None u \<and>
    (entry_at u = entry_at sample_volume \<or>
     entry_at u = (entry_at sample_volume)(sample_source := None,
       place ''/r'' (mq_destination sample_move) (name_text sample_source) := Some (Plain_File (1, 2))))"
proof -
  have "cut_states (move_plan sample_sha alone ''/r'' sample_fresh sample_move) sample_volume ! 3 \<in>
      set (cut_states (move_plan sample_sha alone ''/r'' sample_fresh sample_move) sample_volume)"
    by (rule nth_mem) (simp add: sample_states)
  from lifecycle_moves_survive_crashes [OF sample_root sample_identity sample_owned(2-4) sample_checked sample_entry _ _ this]
  show ?thesis by simp
qed

text \<open>
  C19. A move in a project whose earlier moves are all done, of a plan that is there, with owner files
  that read well and nobody else changing the files, is all or nothing: where it returns, it returns the
  destination, and the plan has gone there with no prepared entry left; where it raises, no entry, no
  byte and no journal file has changed.
\<close>

theorem lifecycle_move_is_all_or_nothing:
  assumes "starts_with root ''/''" and "length fresh = 32" and "list_all is_hex fresh"
    and "owners_readable v" and "owned_once v s" and "no_prepared None v"
    and "check_request root q v = Inr (loc, s)" and "entry_at v s = Some (Plain_File n)" and "0 \<le> fst n" and "0 < snd n"
    and "move_plan sha alone root fresh q v = (t, r, u)"
  shows "case r of
      Inr p \<Rightarrow> p = place root (mq_destination q) (name_text s) \<and> no_prepared None u \<and> vo_bytes u = vo_bytes v \<and>
        entry_at u = (entry_at v)(s := None, p := Some (Plain_File n))
    | Inl e \<Rightarrow> entry_at u = entry_at v \<and> vo_bytes u = vo_bytes v \<and> vo_journal u = vo_journal v"
proof -
  note m = move_runs [OF assms(1-10)]
  from runsD(2) [OF m(1) m(2) assms(11)] show ?thesis
    by (cases r) (auto simp: finished_def settled_def at_destination_def unbegun_def moving_def)
qed

theorem lifecycle_move_is_all_or_nothing_witness:
  "entry_at (snd (snd (move_plan sample_sha alone ''/r'' sample_fresh sample_move sample_volume))) =
     (entry_at sample_volume)(sample_source := None, sample_target := Some (Plain_File (1, 2)))"
  using lifecycle_move_is_all_or_nothing [OF sample_root sample_identity sample_owned(2-4) sample_checked sample_entry,
      of sample_sha "fst (move_plan sample_sha alone ''/r'' sample_fresh sample_move sample_volume)"
        "Inr sample_target" "snd (snd (move_plan sample_sha alone ''/r'' sample_fresh sample_move sample_volume))"]
    sample_moves by (simp add: prod_eq_iff)

text \<open>
  C7. Other processes do what they like to the files in every window between the system calls of
  completing a move, but leave its two names as they are from the comparison of the two files to the
  removal of the source's name. Then each step of the move's own leaves all bytes and the entries, or gives
  the source's file a destination name that was free, or removes the source's name of a file that the
  destination holds too; only a move that raises may take a destination entry away again.
\<close>

theorem lifecycle_steps_keep_every_file:
  assumes "complete_move sha others root r file v = (t, res, w)" and "(a, b) \<in> set t"
    and "spares (place root (entry_source r) (entry_name r)) (place root (entry_destination r) (entry_name r)) (others Before_Destination_Stat)"
    and "spares (place root (entry_source r) (entry_name r)) (place root (entry_destination r) (entry_name r)) (others Before_Source_Removal)"
  defines "s \<equiv> place root (entry_source r) (entry_name r)" and "d \<equiv> place root (entry_destination r) (entry_name r)"
  shows "vo_bytes b = vo_bytes a \<and>
    (entry_at b = entry_at a \<or>
     (entry_at a d = None \<and> entry_at a s \<noteq> None \<and> entry_at b = (entry_at a)(d := entry_at a s)) \<or>
     (\<exists>n. entry_at a s = Some (Plain_File n) \<and> entry_at a d = Some (Plain_File n) \<and> entry_at b = (entry_at a)(s := None)) \<or>
     ((\<exists>e. res = Inl e) \<and> entry_at a d \<noteq> None \<and> entry_at b = (entry_at a)(d := None)))"
proof -
  from triesD(1) [OF tries_complete [OF assms(3,4) [folded src_def dst_def]] _ assms(1)] assms(2)
  have "keeps_files s d a b \<or> failed res \<and> takes_back d a b" by (auto simp: s_def d_def src_def dst_def)
  then show ?thesis unfolding keeps_files_def takes_back_def failed_def by blast
qed

theorem lifecycle_steps_keep_every_file_witness:
  "vo_bytes (snd (fst sample_run ! 1)) = vo_bytes (fst (fst sample_run ! 1))"
proof -
  have "fst sample_run ! 1 \<in> set (fst sample_run)" by (rule nth_mem) (simp add: sample_run_steps)
  then have "(fst (fst sample_run ! 1), snd (fst sample_run ! 1)) \<in> set (fst sample_run)" by simp
  from lifecycle_steps_keep_every_file [OF _ this, of sample_sha "intruder sample_target (7, 9)" "''/r''" sample_record
      "sample_fresh @ ''.json''" sample_volume "fst (snd sample_run)" "snd (snd sample_run)"]
  show ?thesis by (simp add: sample_run_def spares_def intruder_def puts_at_def)
qed

text \<open>
  C33. The comment on the link that a move takes back says that a destination published by somebody else
  stays. It does not where the other file arrives between the link and the look at it: the move takes
  that file for its own link, raises, and the file has no name left.
\<close>

theorem lifecycle_takes_back_a_foreign_file:
  assumes "entry_at v s = Some (Plain_File n)" and "entry_at v d = None" and "s \<noteq> d" and "m \<noteq> n"
    and "length (vo_bytes v m) \<le> LIFECYCLE_PLAN_BYTES" and "utf8_ok (vo_bytes v m)" and "\<forall>p. entry_at v p \<noteq> Some (Plain_File m)"
  shows "\<exists>t w. link_plan sha (intruder d m) r s d v = (t, Inl changed_source, w) \<and>
    (\<exists>a. (add_entry d (Plain_File m) a, w) \<in> set t) \<and> (\<forall>p. entry_at w p \<noteq> Some (Plain_File m))"
  using assms by (simp add: link_plan_def lc_defs intruder_def puts_at_def regular_bytes_def linked_ok_def) blast

theorem lifecycle_takes_back_a_foreign_file_witness:
  "\<exists>t w. link_plan sample_sha (intruder sample_target (7, 9)) sample_record sample_source sample_target sample_volume =
      (t, Inl changed_source, w) \<and> (\<forall>p. entry_at w p \<noteq> Some (Plain_File (7, 9)))"
proof -
  have "utf8_ok (vo_bytes sample_volume (7, 9))" "length (vo_bytes sample_volume (7, 9)) \<le> LIFECYCLE_PLAN_BYTES"
    "entry_at sample_volume sample_target = None" "sample_source \<noteq> sample_target"
    by code_simp+
  moreover have "\<forall>p. entry_at sample_volume p \<noteq> Some (Plain_File (7, 9))" by (simp add: entry_at_def sample_volume_def)
  ultimately show ?thesis
    using lifecycle_takes_back_a_foreign_file [OF sample_entry, of sample_target "(7, 9)" sample_sha sample_record] by auto
qed

text \<open>
  A plan saved by replacement between the comparison of the two names and the removal of the source's:
  the steps before that window are those of a move that is alone, and so are the steps after it.
\<close>

lemma link_unaware: "link_plan sha (puts_at Before_Source_Removal p m) r s d = link_plan sha alone r s d"
proof -
  have "puts_at Before_Source_Removal p m i = (\<lambda>v. v)" if "i \<noteq> Before_Source_Removal" for i
    using that by (simp add: fun_eq_iff puts_at_def)
  moreover have "alone i = (\<lambda>v. v)" for i by (simp add: fun_eq_iff alone_def)
  ultimately show ?thesis by (simp only: link_plan_def window.distinct simp_thms)
qed

lemma unlink_replaced:
  assumes "entry_at v s = Some (Plain_File n)" and "entry_at v d = Some (Plain_File n)" and "s \<noteq> d"
  shows "unlink_source (puts_at Before_Source_Removal s m) s d v =
    (let a = add_entry s (Plain_File m) v in ([(a, drop_entry s a)], Inr (), drop_entry s a))"
  using assms by (simp add: unlink_source_def lc_defs puts_at_def Let_def)

lemma link_reaches_both:
  assumes "pending sha root file r f J B v" and "entry_at v (src root r) \<noteq> None"
  defines "ht \<equiv> entry_at v (dst root r) \<noteq> None"
  shows "\<exists>t v1. (if \<not> ht then link_plan sha alone r (src root r) (dst root r) else lc_ret ()) v = (t, Inr (), v1) \<and>
    pending sha root file r f J B v1 \<and> entry_at v1 = at_both f (src root r) (dst root r) (entry_node r)"
proof -
  let ?s = "src root r" and ?d = "dst root r" and ?n = "entry_node r"
  from assms(1) have so: "sound_entry sha B root file r" and b: "vo_bytes v = B"
    and e: "entry_at v \<in> {at_source f ?s ?d ?n, at_both f ?s ?d ?n, at_destination f ?s ?d ?n}"
    by (simp_all add: pending_def moving_def)
  note ne = src_dst_differ [OF so]
  from e assms(2) ne consider "entry_at v = at_source f ?s ?d ?n" | "entry_at v = at_both f ?s ?d ?n"
    by (auto simp: shapes)
  then show ?thesis
  proof cases
    case 1
    with ne have x: "entry_at v ?s = Some (Plain_File ?n)" "entry_at v ?d = None" by (simp_all add: shapes)
    let ?w = "add_entry ?d (Plain_File ?n) v"
    have w: "entry_at ?w = at_both f ?s ?d ?n" using 1 ne by (auto simp: fun_eq_iff shapes)
    have "pending sha root file r f J B ?w" by (rule pending_entries [OF assms(1) w]) simp_all
    with w x link_alone [OF so b x] show ?thesis by (simp add: ht_def Let_def)
  next
    case 2
    with ne have "entry_at v ?d \<noteq> None" by (simp add: shapes)
    with 2 assms(1) show ?thesis by (simp add: ht_def lc_ret_def)
  qed
qed

text \<open>
  C28. The last window of a move costs a file: another process saves the plan anew by replacing the
  source after the move has compared the two names and before it removes the source's. The prepared
  move, owners readable and with one owner of the plan, returns its destination with everything in the
  place it would have had, and the plan just saved has lost its only name.
\<close>

theorem lifecycle_removes_a_plan_saved_meanwhile:
  assumes "pending sha root file r (entry_at v) (vo_journal v) (vo_bytes v) v" and "entry_at v (src root r) \<noteq> None"
    and "\<forall>p. entry_at v p \<noteq> Some (Plain_File m)"
  shows "\<exists>t a w. complete_move sha (puts_at Before_Source_Removal (src root r) m) root r file v = (t, Inr (dst root r), w) \<and>
    entry_at a (src root r) = Some (Plain_File m) \<and> (a, drop_entry (src root r) a) \<in> set t \<and>
    entry_at w = (entry_at v)(src root r := None, dst root r := Some (Plain_File (entry_node r))) \<and>
    no_prepared None w \<and> (\<forall>p. entry_at w p \<noteq> Some (Plain_File m))"
proof -
  let ?s = "src root r" and ?d = "dst root r" and ?n = "entry_node r" and ?f = "entry_at v"
  let ?P = "pending sha root file r ?f (vo_journal v) (vo_bytes v)"
  let ?O = "puts_at Before_Source_Removal ?s m"
  from link_reaches_both [OF assms(1,2)] obtain t1 v1 where
    l: "(if entry_at v ?d = None then link_plan sha alone r ?s ?d else lc_ret ()) v = (t1, Inr (), v1)"
    and p1: "?P v1" and e1: "entry_at v1 = at_both ?f ?s ?d ?n" by auto
  from assms(1,2) have "?f ?s = Some (Plain_File ?n)"
    using src_dst_differ by (auto simp: pending_def shapes fun_eq_iff split: if_splits)
  with assms(3) have mn: "m \<noteq> ?n" by auto
  from p1 have ne: "?s \<noteq> ?d" using src_dst_differ by (auto simp: pending_def)
  let ?a = "add_entry ?s (Plain_File m) v1"
  let ?v2 = "drop_entry ?s ?a"
  from e1 ne have "entry_at v1 ?s = Some (Plain_File ?n)" "entry_at v1 ?d = Some (Plain_File ?n)" by (simp_all add: shapes)
  from unlink_replaced [OF this ne] have u: "unlink_source ?O ?s ?d v1 = ([(?a, ?v2)], Inr (), ?v2)" by (simp add: Let_def)
  have e2: "entry_at ?v2 = at_destination ?f ?s ?d ?n" using e1 ne by (auto simp: fun_eq_iff shapes)
  have p2: "?P ?v2 \<and> entry_at ?v2 = at_destination ?f ?s ?d ?n"
    using pending_entries [OF p1 e2] e2 by simp
  let ?R = "lc_catch_provenance (Lifecycle_Error ''plan identity move is incomplete'') (record_plan_lifecycle_move ?s ?d)"
  obtain t3 x v3 where r3: "?R ?v2 = (t3, x, v3)" by (cases "?R ?v2") auto
  from runsD(2) [OF complete_follow p2 r3] have x: "x = Inr ()" and
    p3: "?P v3 \<and> entry_at v3 = at_destination ?f ?s ?d ?n" by (auto split: sum.splits)
  let ?w = "put_journal file (moved_entry r) v3"
  have "lc_do (put_journal file (moved_entry r)) v3 = ([(v3, ?w)], Inr (), ?w)" by (simp add: lc_do_def)
  from runsD(2) [OF complete_save p3 this] have w: "settled root r ?f (vo_journal v) (vo_bytes v) ?w" by simp
  have run: "complete_move sha ?O root r file v = (t1 @ (?a, ?v2) # t3 @ [(v3, ?w)], Inr ?d, ?w)"
    using inspect_shapes [OF assms(1)] assms(2) l u r3 x
    by (cases "entry_at v ?d = None") (auto simp: complete_move_def src_def [symmetric] dst_def [symmetric] link_unaware lc_bind_def lc_of_def lc_others_def
        lc_do_def lc_ret_def puts_at_def Let_def)
  show ?thesis
    by (rule exI [of _ "t1 @ (?a, ?v2) # t3 @ [(v3, ?w)]"], rule exI [of _ ?a], rule exI [of _ ?w])
       (use run w assms(3) ne mn in \<open>auto simp: settled_def at_destination_def\<close>)
qed

definition sample_prepared :: volume where
  "sample_prepared = put_journal (sample_fresh @ ''.json'') sample_record sample_volume"

lemma sample_pending:
  "pending sample_sha ''/r'' (sample_fresh @ ''.json'') sample_record (entry_at sample_prepared) (vo_journal sample_prepared)
     (vo_bytes sample_prepared) sample_prepared"
proof -
  have p: "src ''/r'' sample_record = sample_source" "dst ''/r'' sample_record = sample_target" "entry_node sample_record = (1, 2)"
    by code_simp+
  have "entry_fields_ok (sample_fresh @ ''.json'') sample_record = Inr True" "dget sample_record ''phase'' = JStr ''prepared''"
    "entry_source sample_record \<noteq> entry_destination sample_record" "entry_revision sample_record = sample_sha ''x''"
    "length ''x'' \<le> LIFECYCLE_PLAN_BYTES" "utf8_ok ''x''" by code_simp+
  then have s: "sound_entry sample_sha (vo_bytes sample_prepared) ''/r'' (sample_fresh @ ''.json'') sample_record"
    using sample_root by (simp add: sound_entry_def sample_prepared_def sample_volume_def)
  have e: "entry_at sample_prepared = (\<lambda>q. if q = sample_source then Some (Plain_File (1, 2)) else None)"
    by (simp add: fun_eq_iff entry_at_def sample_prepared_def sample_volume_def)
  have "sample_source \<noteq> sample_target" by code_simp
  with e have sh: "entry_at sample_prepared = at_source (entry_at sample_prepared) sample_source sample_target (1, 2)"
    by (auto simp: fun_eq_iff at_source_def)
  have m: "moving sample_source (entry_at sample_prepared) (vo_journal sample_prepared) (vo_bytes sample_prepared) sample_prepared"
    using sample_owned(2,3) owners_cong [of sample_prepared sample_volume] by (simp add: moving_def sample_prepared_def)
  have "no_prepared (Some (sample_fresh @ ''.json'')) sample_prepared"
    unfolding sample_prepared_def by (rule no_prepared_put [OF sample_owned(4)]) simp
  moreover have "ends_with (sample_fresh @ ''.json'') ''.json''" by code_simp
  moreover have "map_of (vo_journal sample_prepared) (sample_fresh @ ''.json'') = Some (Journal_File (JObj sample_record))"
    by (simp add: sample_prepared_def)
  ultimately show ?thesis unfolding pending_def p using s sh m by blast
qed

theorem lifecycle_removes_a_plan_saved_meanwhile_witness:
  "\<exists>t w. complete_move sample_sha (puts_at Before_Source_Removal sample_source (7, 9)) ''/r'' sample_record
      (sample_fresh @ ''.json'') sample_prepared = (t, Inr sample_target, w) \<and>
    (\<forall>p. entry_at w p \<noteq> Some (Plain_File (7, 9)))"
proof -
  have p: "src ''/r'' sample_record = sample_source" "dst ''/r'' sample_record = sample_target" by code_simp+
  have "entry_at sample_prepared sample_source \<noteq> None" "\<forall>q. entry_at sample_prepared q \<noteq> Some (Plain_File (7, 9))"
    by (simp_all add: entry_at_def sample_prepared_def sample_volume_def)
  from lifecycle_removes_a_plan_saved_meanwhile [OF sample_pending, unfolded p, OF this] show ?thesis by blast
qed

subsection \<open>Owners\<close>

definition sample_owner :: "string \<Rightarrow> char \<Rightarrow> plan_owner" where
  "sample_owner p c = \<lparr>ow_schema = JInt 1, ow_id = replicate 32 c, ow_current = Some p, ow_paths = [p]\<rparr>"

definition own :: "string \<Rightarrow> char \<Rightarrow> volume \<Rightarrow> volume" where
  "own p c v = put_owner (owner_file (ow_id (sample_owner p c))) (owner_dict (sample_owner p c)) v"

text \<open>A plan that has arrived, and one that arrived where a plan with an owner used to be.\<close>

definition sample_arrived :: volume where
  "sample_arrived = own sample_source (CHR ''a'') (sample_volume\<lparr>vo_entries := [(sample_target, Plain_File (1, 2))]\<rparr>)"

definition sample_stale :: volume where
  "sample_stale = own sample_target (CHR ''b'') sample_arrived"

lemma sample_owner_ok: "owner_ok (sample_owner sample_source (CHR ''a''))" "owner_ok (sample_owner sample_target (CHR ''b''))"
  by code_simp+

lemma sample_arrived_kept: "owners_kept sample_arrived"
  unfolding sample_arrived_def own_def
  by (rule owners_kept_put [OF _ sample_owner_ok(1)])
    (simp_all add: owners_kept_def owners_readable_def owned_once_def owner_at_def sample_volume_def free_for_def)

lemma sample_stale_kept: "owners_kept sample_stale"
  unfolding sample_stale_def own_def
proof (rule owners_kept_put [OF sample_arrived_kept sample_owner_ok(2)])
  have "sample_source \<noteq> sample_target" by code_simp
  moreover have "owner_at (sample_volume\<lparr>vo_entries := [(sample_target, Plain_File (1, 2))]\<rparr>) name = None" for name
    by (simp add: owner_at_def sample_volume_def)
  ultimately show "free_for (sample_owner sample_target (CHR ''b'')) sample_arrived"
    unfolding free_for_def sample_arrived_def own_def owner_at_put [OF sample_owner_ok(1)]
    by (auto simp: sample_owner_def split: if_split_asm)
qed

lemma sample_owners:
  "\<not> is_link (entry_at sample_arrived sample_source)" "node_at sample_arrived sample_target = Some (1, 2)"
  "sample_source \<noteq> sample_target" "valid_alias (JStr sample_target)"
  "plan_identity_for_path sample_source sample_arrived = Some (replicate 32 (CHR ''a''))"
  "plan_identity_for_path sample_target sample_arrived = None"
  "\<not> is_link (entry_at sample_stale sample_source)" "node_at sample_stale sample_target = Some (1, 2)"
  "plan_identity_for_path sample_source sample_stale = Some (replicate 32 (CHR ''a''))"
  "plan_identity_for_path sample_target sample_stale = Some (replicate 32 (CHR ''b''))"
  by code_simp+

text \<open>
  C20. A new owner of a plan leaves every path with at most one owner, whatever step it is cut off
  after, even where the plan had an owner before: that one gives its path up first.
\<close>

theorem plan_owners_stay_unique:
  assumes "owners_kept v" and "valid_alias (JStr p)" and "length fresh = 32" and "list_all is_hex fresh"
    and "u \<in> set (cut_states (create_plan_identity fresh p) v)"
  shows "owners_readable u \<and> (\<forall>q a b wa wb. owner_at u a = Some wa \<longrightarrow> owner_at u b = Some wb \<longrightarrow>
    ow_current wa = Some q \<longrightarrow> ow_current wb = Some q \<longrightarrow> a = b)"
proof -
  have "identity_text fresh" using assms(3,4) by (simp add: identity_text_def)
  from cut_states_runs [OF runs_create_kept [OF assms(2) this] assms(1) _ _ _ assms(5)]
  have "owners_kept u" by simp
  then show ?thesis unfolding owners_kept_def owned_once_def by blast
qed

theorem plan_owners_stay_unique_witness:
  "owners_readable (cut_states (create_plan_identity sample_fresh sample_source) sample_volume ! 1)"
proof -
  have "length (cut_states (create_plan_identity sample_fresh sample_source) sample_volume) = 3" by code_simp
  then have m: "cut_states (create_plan_identity sample_fresh sample_source) sample_volume ! 1 \<in>
      set (cut_states (create_plan_identity sample_fresh sample_source) sample_volume)" by (intro nth_mem) simp
  have "valid_alias (JStr sample_source)" by code_simp
  from plan_owners_stay_unique [OF sample_owned(1) this sample_identity m] show ?thesis by blast
qed

text \<open>
  C21. The owner of a plan follows it: where the destination had no owner, the identity of the plan's
  source owns the destination afterwards, the source has no owner, and paths still have one owner at most.
\<close>

theorem plan_identity_follows_the_plan:
  assumes "owners_kept v" and "\<not> is_link (entry_at v s)" and "node_at v d = Some n" and "s \<noteq> d" and "valid_alias (JStr d)"
    and "plan_identity_for_path s v = Some i" and "plan_identity_for_path d v = None"
  shows "\<exists>t u. move_plan_identity s d v = (t, Inr True, u) \<and> owners_kept u \<and>
    plan_identity_for_path d u = Some i \<and> plan_identity_for_path s u = None"
proof -
  obtain w where w: "owner_at v (owner_file i) = Some w" "ow_current w = Some s" "ow_id w = i"
    and m: "move_plan_identity s d v =
      (let u = put_owner (owner_file i) (owner_dict (w\<lparr>ow_current := Some d, ow_paths := with_value d (ow_paths w)\<rparr>)) v
       in ([(v, u)], Inr True, u))"
    using move_owner_result [OF assms(1-4,6)] .
  let ?w = "w\<lparr>ow_current := Some d, ow_paths := with_value d (ow_paths w)\<rparr>"
  let ?u = "put_owner (owner_file (ow_id ?w)) (owner_dict ?w) v"
  have ok: "owner_ok ?w" using owner_ok_moved [OF owner_at_ok [OF w(1)] assms(5)] .
  have ld: "\<not> is_link (entry_at v d)" using assms(3) by (auto simp: node_at_def split: option.splits dir_entry.splits)
  have "unowned d v" using assms(7) kept_unowned [OF assms(1) ld] by simp
  then have "free_for ?w v" by (auto simp: free_for_def unowned_def)
  from owners_kept_put [OF assms(1) ok this] have k: "owners_kept ?u" .
  have "owned_once v s" using assms(1) by (simp add: owners_kept_def)
  then have "unowned s ?u"
    using w assms(4) by (intro unowned_put [OF ok]) (auto simp: owned_once_def)
  then have "plan_identity_for_path s ?u = None" using kept_unowned [OF k, of s] assms(2) by simp
  moreover have "plan_identity_for_path d ?u = Some i"
  proof -
    have "owner_at ?u (owner_file i) = Some ?w" using w(3) unfolding owner_at_put [OF ok] by simp
    moreover have "\<not> is_link (entry_at ?u d)" using ld by simp
    ultimately show ?thesis unfolding kept_identity [OF k \<open>\<not> is_link (entry_at ?u d)\<close>] by simp
  qed
  ultimately show ?thesis using m k w(3) by (simp add: Let_def)
qed

theorem plan_identity_follows_the_plan_witness:
  "\<exists>t u. move_plan_identity sample_source sample_target sample_arrived = (t, Inr True, u) \<and>
    plan_identity_for_path sample_target u = Some (replicate 32 (CHR ''a'')) \<and> plan_identity_for_path sample_source u = None"
  using plan_identity_follows_the_plan [OF sample_arrived_kept sample_owners(1-6)] by blast

text \<open>
  C31. A destination that still has an owner, left from a plan whose file went away outside of the
  lifecycle: following a plan there does not take it from the old owner. The path has two owners
  afterwards, so the plan that moved has no identity, and the strict lookup raises.
\<close>

theorem stale_owner_makes_the_path_ambiguous:
  assumes "owners_kept v" and "\<not> is_link (entry_at v s)" and "node_at v d = Some n" and "s \<noteq> d" and "valid_alias (JStr d)"
    and "plan_identity_for_path s v = Some i" and "plan_identity_for_path d v = Some j"
  shows "\<exists>t u. move_plan_identity s d v = (t, Inr True, u) \<and> plan_identity_for_path d u = None \<and>
    plan_identity_for_path_strict d u = Inl ''plan identity ownership is ambiguous''"
proof -
  obtain w where w: "owner_at v (owner_file i) = Some w" "ow_current w = Some s" "ow_id w = i"
    and m: "move_plan_identity s d v =
      (let u = put_owner (owner_file i) (owner_dict (w\<lparr>ow_current := Some d, ow_paths := with_value d (ow_paths w)\<rparr>)) v
       in ([(v, u)], Inr True, u))"
    using move_owner_result [OF assms(1-4,6)] .
  let ?w = "w\<lparr>ow_current := Some d, ow_paths := with_value d (ow_paths w)\<rparr>"
  let ?u = "put_owner (owner_file (ow_id ?w)) (owner_dict ?w) v"
  have ok: "owner_ok ?w" using owner_ok_moved [OF owner_at_ok [OF w(1)] assms(5)] .
  have ld: "\<not> is_link (entry_at v d)" using assms(3) by (auto simp: node_at_def split: option.splits dir_entry.splits)
  obtain x where x: "owner_at v (owner_file j) = Some x" "ow_current x = Some d"
    using assms(7) unfolding kept_identity [OF assms(1) ld] by blast
  have ij: "j \<noteq> i" using w x assms(4) by auto
  then have f: "owner_file j \<noteq> owner_file i" by (simp add: owner_file_def)
  have xid: "ow_id x = j" using assms(1) x(1) unfolding owners_kept_def owner_file_def by auto
  have r: "owners_readable ?u" using owners_readable_put [OF ok] assms(1) by (simp add: owners_kept_def)
  obtain ws where ws: "strict_identities ?u = Inr ws" using strict_identities_readable [OF r] by blast
  have "?w \<in> set (owning d ws)" "x \<in> set (owning d ws)"
    unfolding owning_member [OF r ws] owner_at_put [OF ok] using x f w(3) by (auto intro: exI [of _ "owner_file j"])
  moreover have "?w \<noteq> x" using ij xid w(3) by auto
  ultimately have two: "owning d ws \<noteq> []" "owning d ws \<noteq> [y]" for y by auto
  then obtain y z zs where o: "owning d ws = y # z # zs" by (metis neq_Nil_conv)
  have "path_value False d ?u = Inr d" using ld by (simp add: path_value_def)
  then have "plan_identity_for_path d ?u = None"
    "plan_identity_for_path_strict d ?u = Inl ''plan identity ownership is ambiguous''"
    using o ws by (simp_all add: plan_identity_for_path_def plan_identity_for_path_strict_def tolerant_identities_def)
  then show ?thesis using m w(3) by (simp add: Let_def)
qed

theorem stale_owner_makes_the_path_ambiguous_witness:
  "\<exists>t u. move_plan_identity sample_source sample_target sample_stale = (t, Inr True, u) \<and>
    plan_identity_for_path sample_target u = None"
  using stale_owner_makes_the_path_ambiguous [OF sample_stale_kept sample_owners(7,8,3,4,9,10)] by blast

text \<open>A sidecar whose kind is an array, next to another one.\<close>

definition sample_sidecar :: "json \<Rightarrow> dict" where
  "sample_sidecar kind =
     [(''schema_version'', JInt 1), (''backup_filename'', JStr ''b.md''), (''content_sha256'', JStr (sample_sha [])),
      (''kind'', kind), (''source_plan_path'', JStr ''/p.md''), (''original_plan_path'', JNull),
      (''historical_origin'', JStr ''known''), (''first_capture_timestamp'', JStr ''t''),
      (''first_capture_event'', JStr ''workflow_start''), (''first_run_id'', JNull), (''baseline_status'', JStr ''unknown''),
      (''baseline_reference'', JNull), (''capture_references'', JList [])]"

definition sample_backups :: volume where
  "sample_backups = sample_volume\<lparr>vo_backups :=
     [(''a.md'', sample_sha [], Some (JObj (dput ''backup_filename'' (JStr ''a.md'') (sample_sidecar (JStr ''snapshot''))))),
      (''b.md'', sample_sha [], Some (JObj (sample_sidecar (JList []))))]\<rparr>"

lemma sample_backup_valid:
  "list_backup_provenance (sample_backups\<lparr>vo_backups := take 1 (vo_backups sample_backups)\<rparr>) \<noteq> []"
  by code_simp

text \<open>
  C32. One sidecar whose kind is an array makes the membership test of the kinds raise, and the
  listing of the backups answers with none at all, the valid records of every other plan included.
\<close>

theorem one_bad_kind_hides_all_backups:
  assumes "(body, sha, Some (JObj d)) \<in> set (vo_backups v)" and "set REQUIRED_RECORD_KEYS \<subseteq> set (map fst d)"
    and "set (map fst d) \<subseteq> set (REQUIRED_RECORD_KEYS @ OPTIONAL_RECORD_KEYS)" and "equals_int (dget d ''schema_version'') 1"
    and "dget d ''backup_filename'' = JStr body" and "dget d ''content_sha256'' = JStr sha"
    and "hex_of_length 64 (JStr sha)" and "dget d ''kind'' = JList ks"
  shows "list_backup_provenance v = []"
proof -
  have "head_fields_ok body sha d = Inl (TypeError ''unhashable type'')"
    using assms(4-8) by (simp add: head_fields_ok_def in_str_set_def)
  then have raises: "validate_record body sha (JObj d) = Inl (TypeError ''unhashable type'')"
    using assms(2,3) by (simp add: validate_record_def Let_def keys_of_def)
  have "\<exists>e. read_records bs = Inl e" if "(body, sha, Some (JObj d)) \<in> set bs" for bs
    using that
  proof (induction bs rule: read_records.induct)
    case (2 b s sidecar bs)
    show ?case
    proof (cases "(b, s, sidecar) = (body, sha, Some (JObj d))")
      case True
      then show ?thesis by (simp add: raises)
    next
      case False
      let ?r = "case sidecar of None \<Rightarrow> Inr None | Some v \<Rightarrow> validate_record b s v"
      from False "2.prems" have "(body, sha, Some (JObj d)) \<in> set bs" by auto
      with "2.IH" have "\<exists>e. read_records bs = Inl e" if "?r = Inr x" for x using that by blast
      then show ?thesis by (cases ?r) auto
    qed
  qed simp
  then obtain e where "read_records (sort_key fst (vo_backups v)) = Inl e" using assms(1) by (metis set_sort)
  then show ?thesis by (simp add: list_backup_provenance_def)
qed


theorem one_bad_kind_hides_all_backups_witness:
  "list_backup_provenance sample_backups = [] \<and>
   list_backup_provenance (sample_backups\<lparr>vo_backups := take 1 (vo_backups sample_backups)\<rparr>) \<noteq> []"
proof -
  have "(''b.md'', sample_sha [], Some (JObj (sample_sidecar (JList [])))) \<in> set (vo_backups sample_backups)"
    by (simp add: sample_backups_def)
  moreover have "set REQUIRED_RECORD_KEYS \<subseteq> set (map fst (sample_sidecar (JList [])))"
    "set (map fst (sample_sidecar (JList []))) \<subseteq> set (REQUIRED_RECORD_KEYS @ OPTIONAL_RECORD_KEYS)"
    "equals_int (dget (sample_sidecar (JList [])) ''schema_version'') 1"
    "dget (sample_sidecar (JList [])) ''backup_filename'' = JStr ''b.md''"
    "dget (sample_sidecar (JList [])) ''content_sha256'' = JStr (sample_sha [])" "hex_of_length 64 (JStr (sample_sha []))"
    "dget (sample_sidecar (JList [])) ''kind'' = JList []"
    by code_simp+
  ultimately show ?thesis using one_bad_kind_hides_all_backups sample_backup_valid by blast
qed

end
