(* ===== verification/Spec2Isabelle.thy ===== *)
theory Spec2Isabelle
  imports Plan_Properties Broker_Admission_Properties Condition_Properties Signals
    Admission_Limits Plan_Dependency_Properties Config_Properties
    Turn_Properties Lifecycle_Properties
begin

text \<open>
  A verification library for aflow, a controller that drives coding agents through checkpoint plans.

  \<^bold>\<open>The program and its parts.\<close> A run takes a Markdown plan, asks an agent to work on the next
  checkpoint, reads the plan again and follows the transition of its workflow whose guard holds. Seven
  parts decide what happens; the rest of the repository reads and shows what they left.

    \<^item> The plan parser (\<^verbatim>\<open>aflow/plan.py\<close>) decides what is done and what is next, and keeps the
      \<^verbatim>\<open>Git Tracking\<close> section of a plan.
    \<^item> The configuration (\<^verbatim>\<open>aflow/config.py\<close>) gives the graph of steps, the teams and the harness
      profiles a run uses; a loaded configuration is checked once, and the run relies on it.
    \<^item> Guards and transitions (\<^verbatim>\<open>aflow/workflow.py\<close>, \<^verbatim>\<open>aflow/config.py\<close>) and the signals an agent
      gives in its output (\<^verbatim>\<open>aflow/stop_marker.py\<close>, \<^verbatim>\<open>aflow/scope_pressure.py\<close>) decide the next step.
    \<^item> The turn boundary (\<^verbatim>\<open>aflow/workflow.py\<close>, \<^verbatim>\<open>aflow/manager.py\<close>) keeps the evidence of
      a checkpoint, worker attempts and review rejections, asks a managing agent about the transition
      and decides which team the next worker runs under.
    \<^item> Project admission (\<^verbatim>\<open>aflow/project_admission.py\<close>) decides whether a run may start: one
      journal per project, one slot per live run, one live owner per plan, and the order of numbered
      plans (\<^verbatim>\<open>aflow/plan_dependencies.py\<close>).
    \<^item> The lifecycle of plans (\<^verbatim>\<open>aflow/plan_lifecycle.py\<close>, \<^verbatim>\<open>aflow/plan_backups.py\<close>) moves a plan
      between the directories of plans in progress, failed plans and plans to be changed, and keeps the
      identity that owns each plan and the provenance of its backups.
    \<^item> The execution-resource broker (\<^verbatim>\<open>aflow/execution_resources.py\<close>) decides which controller
      may run an agent on a scarce resource: one journal per resource, a queue and one owner.

  \<^bold>\<open>Theories, in the order they build on each other.\<close>

    \<^item> \<open>Prelude\<close> and \<open>Py_Text\<close>: results as sums, list lemmas, the strings and character classes of
      Python. \<open>Json\<close>: JSON values and dictionaries as the \<^verbatim>\<open>json\<close> module has them.
    \<^item> \<open>Plan_Lines\<close>: the regular expressions of a plan line and the fence automaton. The program
      writes the automaton inline in nine loops; the locale \<open>fenced_loop\<close> says what such a loop is, and
      each of them is an interpretation. \<open>Plan_Parser\<close>: sections, the snapshot, the strict and the
      tolerant loader. \<open>Git_Tracking\<close>, \<open>Git_Insert\<close>: reading, inserting and rewriting the section.
      \<open>Plan_Properties\<close>: the promises about them.
    \<^item> \<open>Conditions\<close>, \<open>Condition_Properties\<close>: the tokenizer, the evaluator and the loader's check of
      a guard; the evaluator decides its grammar, and the check leaves nothing for it to fail on but
      the grammar. \<open>Signals\<close>: stop requests and scope pressure, on the same fence automaton.
    \<^item> \<open>Config_Values\<close>, \<open>Config_Sections\<close>, \<open>Config_Workflows\<close>, \<open>Config_Materialize\<close>, \<open>Config_Teams\<close>,
      \<open>Config_Validation\<close>: the readers of a configuration with their messages, the resolution of
      aliases, teams and links, and the validation of a pair of documents; \<open>Step_Runtime\<close>: from a step to
      the profile that runs it. \<open>Config_Laws\<close> shows what loading establishes and relates the caching
      resolver and the graph walk to definitions without state; \<open>Config_Properties\<close>: the promises.
    \<^item> \<open>Manager_Decisions\<close>, \<open>Note_Authority\<close>, \<open>Manager_Call\<close>: the decision protocol of the managing
      agent, the rules its notes are judged by (regular expressions with a relational meaning) and one
      call with its correction. \<open>Repair_Policy\<close>, \<open>Implementation_Scopes\<close>: the failed repairs of a
      scope, the upgrade they force, and the routing state of \<^verbatim>\<open>aflow/run_state.py\<close>.
      \<open>Manager_Gate\<close>: the gate of a turn (\<^verbatim>\<open>_ManagerGateCoordinator.run\<close>); \<open>Turn_Routing\<close>: both ends
      of a turn of \<^verbatim>\<open>_run_workflow_unchecked\<close>. \<open>Repair_Laws\<close>, \<open>Manager_Laws\<close>, \<open>Turn_Laws\<close>: what each
      stage keeps and establishes; \<open>Manager_Properties\<close>, \<open>Turn_Properties\<close>: the promises;
      \<open>Manager_Samples\<close>: the run their examples use.
    \<^item> \<open>Broker_Journal\<close>: claims and the journal with their validation. \<open>Broker_Ops\<close>: the operations
      of \<^verbatim>\<open>ExecutionResourceStore\<close>, each a decision run under the lock; the locale \<open>journal_op\<close> states
      what a decision promises and is interpreted for every operation. \<open>Broker_Reconcile\<close>: removal of
      dead claims, and the store as a transition system of all processes. \<open>Broker_Lease\<close>,
      \<open>Broker_Admission\<close>: leases, withdrawal and the waiting loop; the locale \<open>retried\<close> is the
      bounded retry they share. \<open>Broker_Properties\<close>, \<open>Broker_Admission_Properties\<close>: the promises.
    \<^item> \<open>Admission_Journal\<close>: reservations, decoding and payload. \<open>Admission_Evidence\<close>: what is known of
      the runs of a project. \<open>Plan_Dependencies\<close>: the series inventory. \<open>Project_Admission\<close>,
      \<open>Admission_Operations\<close>: the locked section and every public operation. \<open>Admission_Laws\<close>: a small
      logic of those operations; the locale \<open>journal_law\<close> states what a property of journals has to
      satisfy to survive all of them, \<open>stable_tag\<close> derives uniqueness of a tag from it, and the two
      interpretations are the plan and the predecessor of a reservation.
      \<open>Project_Admission_Properties\<close>, \<open>Admission_Limits\<close>, \<open>Plan_Dependency_Properties\<close>: the promises.
      \<open>Admission_Samples\<close>: the projects the examples run on.

    \<^item> \<open>Volume\<close>: the plan files, the journal and the provenance store as one state, and programs over
      it that record every effect, with a law for them. \<open>Plan_Backups\<close>, \<open>Plan_Owners\<close>: provenance
      records and the owners of plans; \<open>Plan_Lifecycle\<close>: the class \<^verbatim>\<open>PlanLifecycle\<close>.
      \<open>Lifecycle_Laws\<close>, \<open>Owner_Laws\<close>: owner files and what keeps one owner per path. \<open>Move_Laws\<close>,
      \<open>Move_Begin\<close>: the three shapes of a prepared move, and that every state a move can be cut off in
      is before its entry, in one of the shapes, or done. \<open>Move_Safety\<close>: what its steps do to the files
      when other processes act in its windows. \<open>Lifecycle_Properties\<close>: the promises.

  A definition has the name of the function, method or class it models; a loop inside a function has
  its own definition, named after it.

  \<^bold>\<open>How the code is read.\<close>

    \<^item> A Python string is a HOL string whose characters are the code points below 256; the
      character classes are CPython's on them. An integer is an \<^typ>\<open>int\<close>. A dictionary read from a
      file stays an association list with all its keys.
    \<^item> An exception is the left injection of a sum; the exceptions the code does not mean to raise
      (\<^verbatim>\<open>TypeError\<close>, \<^verbatim>\<open>KeyError\<close>) are values too, since two properties are about them.
    \<^item> What comes from outside is an input: SHA-256, what a file holds when it is read, whether a
      write succeeds, what Git, the unit manager and the process table answer, the clock, and between
      two calls of one process everything the others did to the file. Properties quantify over
      all of it. Under a lock the code reads each observation once and so does the model.
    \<^item> A turn reads the plan from a map of paths to texts before its harness starts; what the harness
      left (the plan after it, a follow-up plan, its summaries) is an observation, and so are the replies
      of the manager's process, the signals of its context, the validity of a scope's envelope and the
      facts its notes are compared with. A turn consults the manager at most twice.
    \<^item> A plan's move runs in plain directories under a resolved root with the lock of its journal
      held. Every write is one step; a write that fails is a cut after the step before it. What other
      processes do to the plan files between two system calls is a function of the state, one for
      each \<open>window\<close> that follows the inspection of the files. The properties about crashes take them
      to be the identity; those about files constrain only the two windows between the comparison of
      the names and the removal of the source's, and \<open>lifecycle_removes_a_plan_saved_meanwhile\<close> shows that
      this is needed.
    \<^item> An admission to a resource calls the store many times; what other processes do to the file
      between two calls, during a retry or a sleep included, is again a function of it, which
      the properties take to be any sequence of store calls. From the acquisition on, \<open>foreign\<close> leaves out
      the calls under the caller's own identity and the reconciliations of its invocation.
    \<^item> Time is in milliseconds. Every round of a waiting loop consumes one entry of a list of rounds;
      a loop that still waits when the list ends has no result. The retry loops are shown to end at
      their deadline when the clock advances.
    \<^item> \<open>evaluate_condition\<close> gives the mutually recursive evaluator four units of fuel per
      token and four more, and \<open>guards_follow_the_grammar\<close> shows that this is always enough. Every
      other recursion is structural or has a measure.
    \<^item> The checkout roots of a project are assumed resolved, so that \<^verbatim>\<open>root.resolve()\<close> is the root.

  \<^bold>\<open>Not modelled.\<close> The effects of the turn loop (subprocesses, worktrees, merges, prompts, the retries
  after a failed harness), the splitting of a checkpoint into partitions, the run log and its displays, the
  control plane's projections, the daemon and the web server, issue intake, skills and the adapters of
  agent programs: they read and write outside the program, and the decisions among them rest on the
  parts above. The manifest lists each with its files.
\<close>

end
